(* ===== verification/Prelude.thy ===== *)
theory Prelude
  imports
    Complex_Main
    "HOL-Library.AList"
    "HOL-Library.Char_ord"
    "HOL-Library.List_Lexorder"
    "HOL-Library.Product_Lexorder"
    "HOL-Library.Multiset"
begin

text \<open>
  Shared vocabulary of the development: Python's exceptions as values, the first-failing-check
  reading of a chain of \<open>require_*\<close> calls, insertion-ordered dictionaries as association lists,
  timezone-aware datetimes, and generic lemmas on lists and dictionaries. Nothing here models one
  particular file of the program; the components import it.
\<close>

section \<open>Proof collections\<close>

named_theorems record_defs \<open>constructors and post-init checks of the domain records\<close>
named_theorems step_defs \<open>definitions of state-changing operations\<close>
named_theorems keeps \<open>preservation of an invariant by an operation\<close>

section \<open>Exceptions as values\<close>

text \<open>
  A Python function that may raise returns a sum: \<open>Inl\<close> the exception, \<open>Inr\<close> the value. The
  message is kept up to the interpolated value.
\<close>

datatype py_error =
    ValueError string
  | KeyError string
  | TypeError string
  | RuntimeError string
  | AssertionError string
  | InvalidOperation
  | DivisionByZero

type_synonym 'a result = "py_error + 'a"

definition bind_result :: "'a result \<Rightarrow> ('a \<Rightarrow> 'b result) \<Rightarrow> 'b result" where
  "bind_result r f = (case r of Inl e \<Rightarrow> Inl e | Inr x \<Rightarrow> f x)"

lemma bind_result_simps [simp]:
  "bind_result (Inl e) f = Inl e"
  "bind_result (Inr x) f = f x"
  by (simp_all add: bind_result_def)

lemma bind_result_Inr_iff:
  "bind_result r f = Inr y \<longleftrightarrow> (\<exists>x. r = Inr x \<and> f x = Inr y)"
  by (cases r) auto

lemma bind_result_Inl_iff:
  "bind_result r f = Inl e \<longleftrightarrow> r = Inl e \<or> (\<exists>x. r = Inr x \<and> f x = Inl e)"
  by (cases r) auto

lemma bind_result_assoc:
  "bind_result (bind_result r f) g = bind_result r (\<lambda>x. bind_result (f x) g)"
  by (cases r) auto

text \<open>A loop whose body may raise stops at the first exception.\<close>

fun fold_result :: "('a \<Rightarrow> 's \<Rightarrow> 's result) \<Rightarrow> 'a list \<Rightarrow> 's \<Rightarrow> 's result" where
  "fold_result f [] s = Inr s"
| "fold_result f (x # xs) s = bind_result (f x s) (fold_result f xs)"

lemma fold_result_append:
  "fold_result f (xs @ ys) s = bind_result (fold_result f xs s) (fold_result f ys)"
proof (induction xs arbitrary: s)
  case (Cons x xs)
  then show ?case by (cases "f x s") auto
qed simp

lemma fold_result_invariant:
  assumes "fold_result f xs s = Inr s'" and "P s"
    and "\<And>x s t. x \<in> set xs \<Longrightarrow> P s \<Longrightarrow> f x s = Inr t \<Longrightarrow> P t"
  shows "P s'"
  using assms
proof (induction xs arbitrary: s)
  case (Cons x xs)
  then obtain t where "f x s = Inr t" and "fold_result f xs t = Inr s'"
    by (auto simp: bind_result_Inr_iff)
  with Cons show ?case by (metis list.set_intros)
qed simp

text \<open>
  A \<open>__post_init__\<close> is a sequence of checks, each of which raises or falls through: the outcome is
  the first exception of the list, if there is one.
\<close>

fun first_error :: "py_error option list \<Rightarrow> py_error option" where
  "first_error [] = None"
| "first_error (None # cs) = first_error cs"
| "first_error (Some e # cs) = Some e"

lemma first_error_None_iff [simp]: "first_error cs = None \<longleftrightarrow> (\<forall>c \<in> set cs. c = None)"
  by (induction cs rule: first_error.induct) auto

lemma first_error_append:
  "first_error (cs @ ds) = (case first_error cs of None \<Rightarrow> first_error ds | Some e \<Rightarrow> Some e)"
  by (induction cs rule: first_error.induct) auto

lemma first_error_Some_split:
  "first_error cs = Some e \<longleftrightarrow> (\<exists>us vs. cs = us @ Some e # vs \<and> (\<forall>u \<in> set us. u = None))"
proof (induction cs rule: first_error.induct)
  case 1
  show ?case by simp
next
  case (2 cs)
  show ?case
  proof
    assume "first_error (None # cs) = Some e"
    then obtain us vs where "cs = us @ Some e # vs" and "\<forall>u \<in> set us. u = None"
      using 2 by auto
    then have "None # cs = (None # us) @ Some e # vs" and "\<forall>u \<in> set (None # us). u = None"
      by auto
    then show "\<exists>us vs. None # cs = us @ Some e # vs \<and> (\<forall>u \<in> set us. u = None)" by blast
  next
    assume "\<exists>us vs. None # cs = us @ Some e # vs \<and> (\<forall>u \<in> set us. u = None)"
    then show "first_error (None # cs) = Some e"
      using 2 by (auto simp: Cons_eq_append_conv)
  qed
next
  case (3 e' cs)
  show ?case by (auto simp: Cons_eq_append_conv)
qed

text \<open>A constructor: the value when every check of its \<open>__post_init__\<close> passes.\<close>

definition validated :: "py_error option \<Rightarrow> 'a \<Rightarrow> 'a result" where
  "validated c x = (case c of None \<Rightarrow> Inr x | Some e \<Rightarrow> Inl e)"

lemma validated_simps [simp]:
  "validated None x = Inr x"
  "validated (Some e) x = Inl e"
  by (simp_all add: validated_def)

lemma validated_Inr_iff [simp]: "validated c x = Inr y \<longleftrightarrow> c = None \<and> y = x"
  by (cases c) auto

lemma validated_Inl_iff [simp]: "validated c x = Inl e \<longleftrightarrow> c = Some e"
  by (cases c) auto

definition check :: "bool \<Rightarrow> py_error \<Rightarrow> py_error option" where
  "check ok e = (if ok then None else Some e)"

lemma check_simps [simp]:
  "check ok e = None \<longleftrightarrow> ok"
  "check ok e = Some e' \<longleftrightarrow> \<not> ok \<and> e' = e"
  "check True e = None"
  "check False e = Some e"
  by (auto simp: check_def)

section \<open>Insertion-ordered dictionaries\<close>

text \<open>
  A Python \<open>dict\<close> (and an \<open>OrderedDict\<close>) is an association list with distinct keys, in insertion
  order. \<open>AList.update\<close> of the library overwrites in place and appends a new key, as
  \<open>d[k] = v\<close> does; \<open>map_of\<close> is \<open>d.get\<close>.
\<close>

type_synonym ('k, 'v) dict = "('k \<times> 'v) list"

abbreviation dict_set :: "'k \<Rightarrow> 'v \<Rightarrow> ('k, 'v) dict \<Rightarrow> ('k, 'v) dict" where
  "dict_set \<equiv> AList.update"

abbreviation dict_get :: "('k, 'v) dict \<Rightarrow> 'k \<Rightarrow> 'v option" where
  "dict_get \<equiv> map_of"

definition dict_get_default :: "('k, 'v) dict \<Rightarrow> 'k \<Rightarrow> 'v \<Rightarrow> 'v" where
  "dict_get_default d k v = (case map_of d k of None \<Rightarrow> v | Some x \<Rightarrow> x)"

definition dict_pop :: "'k \<Rightarrow> ('k, 'v) dict \<Rightarrow> ('k, 'v) dict" where
  "dict_pop k d = filter (\<lambda>kv. fst kv \<noteq> k) d"

definition dict_keys :: "('k, 'v) dict \<Rightarrow> 'k list" where
  "dict_keys d = map fst d"

definition dict_values :: "('k, 'v) dict \<Rightarrow> 'v list" where
  "dict_values d = map snd d"

definition move_to_end :: "'k \<Rightarrow> ('k, 'v) dict \<Rightarrow> ('k, 'v) dict" where
  "move_to_end k d = dict_pop k d @ filter (\<lambda>kv. fst kv = k) d"

definition wf_dict :: "('k, 'v) dict \<Rightarrow> bool" where
  "wf_dict d \<longleftrightarrow> distinct (map fst d)"

lemma wf_dict_Nil [simp]: "wf_dict []"
  by (simp add: wf_dict_def)

lemma wf_dict_set [simp, keeps]: "wf_dict d \<Longrightarrow> wf_dict (dict_set k v d)"
  by (simp add: wf_dict_def distinct_update)

lemma wf_dict_filter [simp, keeps]: "wf_dict d \<Longrightarrow> wf_dict (filter P d)"
  by (auto simp: wf_dict_def distinct_map inj_on_def)

lemma wf_dict_pop [simp, keeps]: "wf_dict d \<Longrightarrow> wf_dict (dict_pop k d)"
  by (simp add: dict_pop_def)

lemma dict_get_set [simp]: "dict_get (dict_set k v d) = (dict_get d)(k \<mapsto> v)"
  by (simp add: update_conv')

lemma dict_get_pop [simp]: "dict_get (dict_pop k d) = (dict_get d)(k := None)"
proof
  fix x
  show "dict_get (dict_pop k d) x = ((dict_get d)(k := None)) x"
    by (induction d) (auto simp: dict_pop_def)
qed

lemma dict_get_default_simps [simp]:
  "dict_get d k = None \<Longrightarrow> dict_get_default d k v = v"
  "dict_get d k = Some x \<Longrightarrow> dict_get_default d k v = x"
  by (simp_all add: dict_get_default_def)

lemma wf_dict_get_iff: "wf_dict d \<Longrightarrow> dict_get d k = Some v \<longleftrightarrow> (k, v) \<in> set d"
  by (simp add: wf_dict_def)

lemma filter_key_single:
  "wf_dict d \<Longrightarrow> filter (\<lambda>kv. fst kv = k) d = (case dict_get d k of None \<Rightarrow> [] | Some v \<Rightarrow> [(k, v)])"
  by (induction d) (auto simp: wf_dict_def filter_empty_conv image_iff split: option.splits)

lemma wf_move_to_end [simp, keeps]: "wf_dict d \<Longrightarrow> wf_dict (move_to_end k d)"
  by (auto simp: move_to_end_def filter_key_single wf_dict_def dict_pop_def distinct_map inj_on_def
      split: option.splits) force+

lemma dict_get_move_to_end [simp]: "wf_dict d \<Longrightarrow> dict_get (move_to_end k d) = dict_get d"
  by (auto simp: move_to_end_def filter_key_single map_add_def fun_eq_iff split: option.splits)

lemma length_dict_set:
  "length (dict_set k v d) = (if k \<in> fst ` set d then length d else Suc (length d))"
  by (induction d) auto

lemma dict_set_fresh: "k \<notin> fst ` set d \<Longrightarrow> dict_set k v d = d @ [(k, v)]"
  by (induction d) auto

lemma length_move_to_end [simp]: "length (move_to_end k d) = length d"
  unfolding move_to_end_def dict_pop_def
  by (induction d) auto

lemma set_move_to_end [simp]: "set (move_to_end k d) = set d"
  by (auto simp: move_to_end_def dict_pop_def)

text \<open>Mapping over the values of a dictionary keeps its keys and their order.\<close>

definition dict_map :: "('k \<Rightarrow> 'v \<Rightarrow> 'w) \<Rightarrow> ('k, 'v) dict \<Rightarrow> ('k, 'w) dict" where
  "dict_map f d = map (\<lambda>(k, v). (k, f k v)) d"

lemma keys_dict_map [simp]: "map fst (dict_map f d) = map fst d"
  by (induction d) (auto simp: dict_map_def)

lemma wf_dict_map [simp, keeps]: "wf_dict (dict_map f d) = wf_dict d"
  by (simp add: wf_dict_def)

lemma dict_get_map [simp]: "dict_get (dict_map f d) k = map_option (f k) (dict_get d k)"
  by (induction d) (auto simp: dict_map_def)

section \<open>Timezone-aware datetimes\<close>

text \<open>
  A \<open>datetime\<close> is an instant in microseconds since the Unix epoch (for an aware value, of UTC; for
  a naive one, of its wall clock) together with its UTC offset, \<open>None\<close> for a naive value. Aware
  datetimes compare and subtract by instant, as Python's do; a \<open>timedelta\<close> is a number of
  microseconds.
\<close>

record datetime =
  instant :: int
  utcoffset :: "int option"

type_synonym timedelta = int

definition utc :: "int \<Rightarrow> datetime" where
  "utc t = \<lparr>instant = t, utcoffset = Some 0\<rparr>"

definition is_aware :: "datetime \<Rightarrow> bool" where
  "is_aware t \<longleftrightarrow> utcoffset t \<noteq> None"

definition dt_plus :: "datetime \<Rightarrow> timedelta \<Rightarrow> datetime" where
  "dt_plus t d = t\<lparr>instant := instant t + d\<rparr>"

definition dt_minus :: "datetime \<Rightarrow> datetime \<Rightarrow> timedelta" where
  "dt_minus t u = instant t - instant u"

lemma utc_simps [simp]: "instant (utc t) = t" "utcoffset (utc t) = Some 0" "is_aware (utc t)"
  by (simp_all add: utc_def is_aware_def)

lemma dt_plus_simps [simp]:
  "instant (dt_plus t d) = instant t + d"
  "utcoffset (dt_plus t d) = utcoffset t"
  "is_aware (dt_plus t d) = is_aware t"
  by (simp_all add: dt_plus_def is_aware_def)

section \<open>Formatting\<close>

text \<open>\<open>str(n)\<close> and \<open>f"{n:09d}"\<close> for a natural number.\<close>

fun str_nat :: "nat \<Rightarrow> string" where
  "str_nat n = (if n < 10 then [char_of (48 + n)] else str_nat (n div 10) @ [char_of (48 + n mod 10)])"

declare str_nat.simps [simp del]

definition zero_pad :: "nat \<Rightarrow> string \<Rightarrow> string" where
  "zero_pad w s = replicate (w - length s) CHR ''0'' @ s"

lemma str_nat_not_Nil [simp]: "str_nat n \<noteq> []"
  by (subst str_nat.simps) simp

section \<open>Lists\<close>

lemma sum_list_nonneg_map:
  fixes f :: "'a \<Rightarrow> 'b::ordered_comm_monoid_add"
  shows "(\<And>x. x \<in> set xs \<Longrightarrow> 0 \<le> f x) \<Longrightarrow> 0 \<le> sum_list (map f xs)"
  by (induction xs) auto

lemma sum_list_filter_le:
  fixes f :: "'a \<Rightarrow> 'b::ordered_comm_monoid_add"
  assumes "\<And>x. x \<in> set xs \<Longrightarrow> 0 \<le> f x"
  shows "sum_list (map f (filter P xs)) \<le> sum_list (map f xs)"
  using assms
proof (induction xs)
  case Nil
  show ?case by simp
next
  case (Cons x xs)
  have "sum_list (map f (filter P xs)) \<le> sum_list (map f xs)"
    using Cons by simp
  moreover have "0 \<le> f x" using Cons.prems by simp
  ultimately show ?case
    by (auto intro: add_left_mono add_increasing)
qed

lemma sum_list_pop:
  fixes f :: "'v \<Rightarrow> rat"
  assumes "wf_dict d" and "dict_get d k = Some v"
  shows "sum_list (map (f \<circ> snd) (dict_pop k d)) = sum_list (map (f \<circ> snd) d) - f v"
  using assms
proof (induction d)
  case Nil
  then show ?case by simp
next
  case (Cons kv d)
  show ?case
  proof (cases "fst kv = k")
    case True
    with Cons.prems have "k \<notin> fst ` set d" and v: "snd kv = v"
      by (auto simp: wf_dict_def)
    then have "dict_pop k d = d"
      by (auto simp: dict_pop_def filter_id_conv)
    with True v show ?thesis by (simp add: dict_pop_def)
  next
    case False
    with Cons show ?thesis by (auto simp: wf_dict_def dict_pop_def)
  qed
qed

lemma sorted_take: "sorted xs \<Longrightarrow> sorted (take n xs)"
  by (rule sorted_wrt_take)

lemma sorted_key_take_drop:
  assumes "sorted (map f xs)" and "x \<in> set (take n xs)" and "y \<in> set (drop n xs)"
  shows "f x \<le> f y"
proof -
  have "sorted (map f (take n xs) @ map f (drop n xs))"
    using assms(1) by (metis append_take_drop_id map_append)
  then show ?thesis using assms(2,3) by (auto simp: sorted_append)
qed

end
