(* ===== verification/Rounding.thy ===== *)
theory Rounding
  imports Prelude
begin

text \<open>
  Correctly rounded arithmetic at a fixed number of significant digits. Python's \<open>decimal\<close>
  (default context: 28 digits, half-even) and its binary \<open>float\<close> (53 digits, half-even) are the
  two instances the program uses; both round every arithmetic result, so the model does too. A
  value is its exact rational. Exponent limits (\<open>Emax\<close>, subnormals), NaN and infinities are
  outside the model: the program rejects or never forms them where it computes with money.
\<close>

section \<open>Rounding to an integer\<close>

definition round_half_even :: "rat \<Rightarrow> int" where
  "round_half_even x =
     (let n = \<lfloor>x\<rfloor>; f = x - of_int n
      in if f < 1 / 2 then n else if f > 1 / 2 then n + 1 else if even n then n else n + 1)"

lemma round_half_even_cases:
  "round_half_even x = \<lfloor>x\<rfloor> \<or> round_half_even x = \<lfloor>x\<rfloor> + 1"
  by (simp add: round_half_even_def Let_def)

lemma round_half_even_of_int [simp]: "round_half_even (of_int n) = n"
  by (simp add: round_half_even_def)

lemma round_half_even_error: "\<bar>of_int (round_half_even x) - x\<bar> \<le> 1 / 2"
proof -
  define f where "f = x - of_int \<lfloor>x\<rfloor>"
  have "0 \<le> f" "f < 1" unfolding f_def by linarith+
  moreover have "x = of_int \<lfloor>x\<rfloor> + f" by (simp add: f_def)
  ultimately show ?thesis
    unfolding round_half_even_def Let_def f_def [symmetric] by (auto simp: f_def)
qed

lemma round_half_even_mono:
  assumes "x \<le> y"
  shows "round_half_even x \<le> round_half_even y"
proof (cases "\<lfloor>x\<rfloor> = \<lfloor>y\<rfloor>")
  case True
  with assms show ?thesis
    by (auto simp: round_half_even_def Let_def)
next
  case False
  with assms have "\<lfloor>x\<rfloor> + 1 \<le> \<lfloor>y\<rfloor>" using floor_mono [OF assms] by linarith
  then show ?thesis
    using round_half_even_cases [of x] round_half_even_cases [of y] by linarith
qed

lemma round_half_even_le_int: "x \<le> of_int n \<Longrightarrow> round_half_even x \<le> n"
  using round_half_even_mono [of x "of_int n"] by simp

lemma round_half_even_ge_int: "of_int n \<le> x \<Longrightarrow> n \<le> round_half_even x"
  using round_half_even_mono [of "of_int n" x] by simp

lemma round_half_even_neg: "round_half_even (- x) = - round_half_even x"
proof (cases "x = of_int \<lfloor>x\<rfloor>")
  case True
  then have "- x = of_int (- \<lfloor>x\<rfloor>)" by simp
  with True show ?thesis by (metis round_half_even_of_int)
next
  case False
  have fl: "\<lfloor>- x\<rfloor> = - \<lfloor>x\<rfloor> - 1"
    using False by (intro floor_unique) (auto, linarith+)
  define n where "n = \<lfloor>x\<rfloor>"
  define f where "f = x - of_int n"
  have "- x - of_int (- n - 1) = 1 - f" by (simp add: f_def)
  moreover have "even (- n - 1) \<longleftrightarrow> odd n" by simp
  ultimately show ?thesis
    unfolding round_half_even_def Let_def fl n_def [symmetric] f_def [symmetric]
    by auto
qed

section \<open>The position of the leading digit\<close>

text \<open>\<open>ilog b x\<close> is the exponent of the leading base-\<open>b\<close> digit of a positive rational.\<close>

function num_digits :: "int \<Rightarrow> int \<Rightarrow> nat" where
  "num_digits b n = (if b < 2 \<or> n < b then 1 else Suc (num_digits b (n div b)))"
  by pat_completeness auto
termination
proof (relation "measure (\<lambda>(b, n). nat n)")
  fix b n :: int
  assume "\<not> (b < 2 \<or> n < b)"
  then have "0 \<le> n div b" and "n div b < n"
    by (auto simp: pos_imp_zdiv_nonneg_iff int_div_less_self)
  then show "((b, n div b), b, n) \<in> measure (\<lambda>(b, n). nat n)"
    by auto
qed simp

declare num_digits.simps [simp del]

definition ilog :: "nat \<Rightarrow> rat \<Rightarrow> int" where
  "ilog b x =
     (let (n, d) = quotient_of x;
          k = int (num_digits (int b) n) - int (num_digits (int b) d)
      in if of_nat b powi k \<le> x then k else k - 1)"

lemma powi_nat_diff:
  fixes b :: rat
  assumes "b > 0"
  shows "b powi (int m - int n) = b ^ m / b ^ n"
  using assms by (simp add: power_int_diff)

lemma powi_less_iff:
  fixes b :: rat
  assumes "1 < b"
  shows "b powi m < b powi n \<longleftrightarrow> m < n"
  using assms power_int_strict_increasing [of m n b] power_int_strict_increasing [of n m b]
  by (cases m n rule: linorder_cases) auto

lemma powi_le_iff:
  fixes b :: rat
  assumes "1 < b"
  shows "b powi m \<le> b powi n \<longleftrightarrow> m \<le> n"
  using powi_less_iff [OF assms, of n m] by (simp flip: not_less)

lemma num_digits_bounds:
  assumes "2 \<le> b" and "0 < n"
  shows "0 < num_digits b n \<and> b ^ (num_digits b n - 1) \<le> n \<and> n < b ^ num_digits b n"
  using assms
proof (induction b n rule: num_digits.induct)
  case (1 b n)
  show ?case
  proof (cases "n < b")
    case True
    with "1.prems" show ?thesis by (simp add: num_digits.simps [of b n])
  next
    case False
    define m where "m = n div b"
    have n: "n = b * m + n mod b" by (simp add: m_def)
    have r: "0 \<le> n mod b" "n mod b < b" using "1.prems" by auto
    have m: "0 < m" using False "1.prems" by (simp add: m_def pos_imp_zdiv_pos_iff)
    have IH: "0 < num_digits b m" "b ^ (num_digits b m - 1) \<le> m" "m < b ^ num_digits b m"
      using "1.IH" False "1.prems" m by (auto simp: m_def)
    have nd: "num_digits b n = Suc (num_digits b m)"
      using False "1.prems" by (simp add: num_digits.simps [of b n] m_def)
    have "b ^ num_digits b m = b * b ^ (num_digits b m - 1)"
      using IH(1) by (cases "num_digits b m") auto
    also have "\<dots> \<le> b * m" using IH(2) "1.prems" by simp
    finally have low: "b ^ num_digits b m \<le> n" using n r by linarith
    have "b * (m + 1) \<le> b * b ^ num_digits b m" using IH(3) "1.prems" by (intro mult_left_mono) auto
    then have "n < b * b ^ num_digits b m" using n r by (simp add: algebra_simps)
    with low nd show ?thesis by simp
  qed
qed

lemma num_digits_rat_bounds:
  assumes b: "2 \<le> b" and n: "0 < n"
  shows "0 < num_digits (int b) n"
    and "of_nat b ^ (num_digits (int b) n - 1) \<le> (of_int n :: rat)"
    and "(of_int n :: rat) < of_nat b ^ num_digits (int b) n"
proof -
  have *: "0 < num_digits (int b) n \<and> int b ^ (num_digits (int b) n - 1) \<le> n \<and> n < int b ^ num_digits (int b) n"
    by (rule num_digits_bounds) (use b n in auto)
  then show "0 < num_digits (int b) n" by simp
  from * show "of_nat b ^ (num_digits (int b) n - 1) \<le> (of_int n :: rat)"
    by (metis of_int_le_iff of_int_of_nat_eq of_int_power)
  from * show "(of_int n :: rat) < of_nat b ^ num_digits (int b) n"
    by (metis of_int_less_iff of_int_of_nat_eq of_int_power)
qed

lemma ilog_bounds:
  assumes b: "2 \<le> b" and x: "0 < x"
  shows "of_nat b powi ilog b x \<le> x" and "x < of_nat b powi (ilog b x + 1)"
proof -
  obtain n d where nd: "quotient_of x = (n, d)" by (cases "quotient_of x")
  have d: "0 < d" and xq: "x = of_int n / of_int d"
    using nd quotient_of_denom_pos quotient_of_div by auto
  have n: "0 < n" using x d xq by (simp add: zero_less_divide_iff)
  let ?B = "of_nat b :: rat"
  have B: "1 < ?B" using b by simp
  define P where "P = num_digits (int b) n"
  define Q where "Q = num_digits (int b) d"
  have nP: "0 < P" "?B ^ (P - 1) \<le> of_int n" "of_int n < ?B ^ P"
    and dQ: "0 < Q" "?B ^ (Q - 1) \<le> of_int d" "of_int d < ?B ^ Q"
    using num_digits_rat_bounds [OF b n] num_digits_rat_bounds [OF b d] by (auto simp: P_def Q_def)
  have d': "(0::rat) < of_int d" using d by simp
  have low: "?B powi (int P - int Q - 1) < x"
  proof -
    have "?B powi (int P - int Q - 1) = ?B ^ (P - 1) / ?B ^ Q"
      using B nP(1) powi_nat_diff [of ?B "P - 1" Q] by (simp add: algebra_simps)
    also have "\<dots> < of_int n / of_int d"
    proof (rule frac_less2)
      show "0 < ?B ^ (P - 1)" using B by simp
    qed (use nP dQ d' in auto)
    finally show ?thesis by (simp add: xq)
  qed
  have high: "x < ?B powi (int P - int Q + 1)"
  proof -
    have "x < ?B ^ P / ?B ^ (Q - 1)"
      unfolding xq by (rule frac_less) (use nP dQ d' n B in auto)
    also have "\<dots> = ?B powi (int P - int Q + 1)"
      using B dQ(1) powi_nat_diff [of ?B P "Q - 1"] by (simp add: algebra_simps)
    finally show ?thesis .
  qed
  have il: "ilog b x = (if ?B powi (int P - int Q) \<le> x then int P - int Q else int P - int Q - 1)"
    by (simp add: ilog_def nd P_def Q_def Let_def)
  show "?B powi ilog b x \<le> x" using low by (simp add: il)
  show "x < ?B powi (ilog b x + 1)" using high by (simp add: il)
qed

lemma ilog_unique:
  assumes b: "2 \<le> b" and e: "of_nat b powi e \<le> x" "x < of_nat b powi (e + 1)"
  shows "ilog b x = e"
proof -
  let ?B = "of_nat b :: rat"
  have B: "1 < ?B" using b by simp
  have x: "0 < x" using e(1) B by (metis less_le_trans zero_less_one order.strict_trans zero_less_power_int)
  note il = ilog_bounds [OF b x]
  have "?B powi e < ?B powi (ilog b x + 1)" using e(1) il(2) by (rule le_less_trans)
  then have 1: "e < ilog b x + 1" using B by (simp add: powi_less_iff)
  have "?B powi ilog b x < ?B powi (e + 1)" using il(1) e(2) by (rule le_less_trans)
  then have 2: "ilog b x < e + 1" using B by (simp add: powi_less_iff)
  from 1 2 show ?thesis by simp
qed

lemma ilog_mono:
  assumes b: "2 \<le> b" and x: "0 < x" and xy: "x \<le> y"
  shows "ilog b x \<le> ilog b y"
proof -
  let ?B = "of_nat b :: rat"
  have B: "1 < ?B" using b by simp
  have "?B powi ilog b x < ?B powi (ilog b y + 1)"
    using ilog_bounds(1) [OF b x] xy ilog_bounds(2) [OF b, of y] x by linarith
  then show ?thesis using B by (simp add: powi_less_iff)
qed

section \<open>Rounding to significant digits\<close>

definition quantum :: "nat \<Rightarrow> nat \<Rightarrow> rat \<Rightarrow> rat" where
  "quantum b p x = of_nat b powi (ilog b \<bar>x\<bar> - int p + 1)"

definition round_sig :: "nat \<Rightarrow> nat \<Rightarrow> rat \<Rightarrow> rat" where
  "round_sig b p x =
     (if x = 0 then 0 else of_int (round_half_even (x / quantum b p x)) * quantum b p x)"

lemma round_sig_0 [simp]: "round_sig b p 0 = 0"
  by (simp add: round_sig_def)

lemma round_sig_neg: "round_sig b p (- x) = - round_sig b p x"
  by (simp add: round_sig_def quantum_def round_half_even_neg)

lemma quantum_pos: "2 \<le> b \<Longrightarrow> 0 < quantum b p x"
  by (simp add: quantum_def)

lemma quantum_lead:
  assumes "2 \<le> b" and "1 \<le> p"
  shows "of_nat b powi (ilog b \<bar>x\<bar>) = of_nat b ^ (p - 1) * quantum b p x"
    and "of_nat b powi (ilog b \<bar>x\<bar> + 1) = of_nat b ^ p * quantum b p x"
proof -
  have B: "(of_nat b :: rat) \<noteq> 0" using assms(1) by simp
  show "of_nat b powi (ilog b \<bar>x\<bar>) = of_nat b ^ (p - 1) * quantum b p x"
    unfolding quantum_def power_int_of_nat [symmetric] using B assms(2)
    by (simp flip: power_int_add add: of_nat_diff)
  show "of_nat b powi (ilog b \<bar>x\<bar> + 1) = of_nat b ^ p * quantum b p x"
    unfolding quantum_def power_int_of_nat [symmetric] using B
    by (subst power_int_add [symmetric]) auto
qed

lemma quotient_bounds:
  assumes b: "2 \<le> b" and p: "1 \<le> p" and x: "0 < x"
  shows "of_nat b ^ (p - 1) \<le> x / quantum b p x" and "x / quantum b p x < of_nat b ^ p"
  using ilog_bounds [OF b x] quantum_lead [OF b p, of x] quantum_pos [OF b, of p x] x
  by (simp_all add: pos_le_divide_eq pos_divide_less_eq)

lemma round_sig_nonneg:
  assumes b: "2 \<le> b" and x: "0 \<le> x"
  shows "0 \<le> round_sig b p x"
proof (cases "x = 0")
  case False
  have "0 \<le> round_half_even (x / quantum b p x)"
    using round_half_even_ge_int [of 0 "x / quantum b p x"] x quantum_pos [OF b, of p x] by simp
  with False quantum_pos [OF b, of p x] show ?thesis
    by (simp add: round_sig_def)
qed simp

lemma round_sig_ge_lead:
  assumes b: "2 \<le> b" and p: "1 \<le> p" and x: "0 < x"
  shows "of_nat b powi ilog b x \<le> round_sig b p x"
proof -
  have "of_int (int b ^ (p - 1)) \<le> x / quantum b p x"
    using quotient_bounds(1) [OF b p x] by simp
  then have "int b ^ (p - 1) \<le> round_half_even (x / quantum b p x)"
    by (rule round_half_even_ge_int)
  then have "(of_nat b ^ (p - 1) :: rat) \<le> of_int (round_half_even (x / quantum b p x))"
    by (metis of_int_le_iff of_int_of_nat_eq of_int_power)
  then show ?thesis
    using quantum_lead(1) [OF b p, of x] quantum_pos [OF b, of p x] x
    by (simp add: round_sig_def)
qed

lemma round_sig_le_next:
  assumes b: "2 \<le> b" and p: "1 \<le> p" and x: "0 < x"
  shows "round_half_even (x / quantum b p x) \<le> int b ^ p"
    and "round_sig b p x \<le> of_nat b powi (ilog b x + 1)"
proof -
  have "x / quantum b p x \<le> of_int (int b ^ p)"
    using quotient_bounds(2) [OF b p x] by simp
  then show *: "round_half_even (x / quantum b p x) \<le> int b ^ p"
    by (rule round_half_even_le_int)
  then have "of_int (round_half_even (x / quantum b p x)) \<le> (of_nat b ^ p :: rat)"
    by (metis of_int_le_iff of_int_of_nat_eq of_int_power)
  then show "round_sig b p x \<le> of_nat b powi (ilog b x + 1)"
    using quantum_lead(2) [OF b p, of x] quantum_pos [OF b, of p x] x
    by (simp add: round_sig_def)
qed

lemma round_sig_mono_pos:
  assumes b: "2 \<le> b" and p: "1 \<le> p" and x: "0 < x" and xy: "x \<le> y"
  shows "round_sig b p x \<le> round_sig b p y"
proof (cases "ilog b x = ilog b y")
  case True
  then have q: "quantum b p y = quantum b p x" using x xy by (simp add: quantum_def)
  have "round_half_even (x / quantum b p x) \<le> round_half_even (y / quantum b p x)"
    using xy quantum_pos [OF b, of p x] by (intro round_half_even_mono divide_right_mono) auto
  then show ?thesis
    using x xy quantum_pos [OF b, of p x] by (simp add: round_sig_def q)
next
  case False
  have B: "1 < (of_nat b :: rat)" using b by simp
  have "ilog b x + 1 \<le> ilog b y" using ilog_mono [OF b x xy] False by linarith
  then have "of_nat b powi (ilog b x + 1) \<le> (of_nat b powi ilog b y :: rat)"
    by (simp add: powi_le_iff [OF B])
  moreover have "round_sig b p x \<le> of_nat b powi (ilog b x + 1)"
    by (rule round_sig_le_next(2) [OF b p x])
  moreover have "of_nat b powi ilog b y \<le> round_sig b p y"
    by (rule round_sig_ge_lead [OF b p]) (use x xy in simp)
  ultimately show ?thesis by linarith
qed

lemma round_sig_mono:
  assumes b: "2 \<le> b" and p: "1 \<le> p" and xy: "x \<le> y"
  shows "round_sig b p x \<le> round_sig b p y"
proof -
  consider "0 < x" | "x \<le> 0" "0 \<le> y" | "y < 0" by linarith
  then show ?thesis
  proof cases
    case 1
    then show ?thesis by (rule round_sig_mono_pos [OF b p _ xy])
  next
    case 2
    have "0 \<le> round_sig b p (- x)" using 2 by (intro round_sig_nonneg [OF b]) simp
    moreover have "0 \<le> round_sig b p y" using 2 by (intro round_sig_nonneg [OF b])
    ultimately show ?thesis by (simp add: round_sig_neg)
  next
    case 3
    have "round_sig b p (- y) \<le> round_sig b p (- x)"
      by (rule round_sig_mono_pos [OF b p]) (use 3 xy in auto)
    then show ?thesis by (simp add: round_sig_neg)
  qed
qed

text \<open>A number with at most \<open>p\<close> digits in base \<open>b\<close> is not changed by rounding to \<open>p\<close> digits.\<close>

lemma int_multiple_of_quantum:
  assumes b: "2 \<le> b" and p: "1 \<le> p" and x: "x = of_int m * of_nat b powi e" "x \<noteq> 0"
    and m: "\<bar>m\<bar> \<le> int b ^ p"
  shows "\<exists>n. x / quantum b p x = of_int n"
proof -
  let ?B = "of_nat b :: rat"
  have B: "1 < ?B" using b by simp
  have q: "0 < quantum b p x" by (rule quantum_pos [OF b])
  have ax: "0 < \<bar>x\<bar>" using x(2) by simp
  show ?thesis
  proof (cases "ilog b \<bar>x\<bar> - int p + 1 \<le> e")
    case True
    define k where "k = nat (e - (ilog b \<bar>x\<bar> - int p + 1))"
    have "?B powi e = ?B ^ k * quantum b p x"
      unfolding quantum_def power_int_of_nat [symmetric]
      using B True by (subst power_int_add [symmetric]) (auto simp: k_def)
    then have "x = of_int (m * int b ^ k) * quantum b p x" by (subst x(1)) simp
    then have "x / quantum b p x = of_int (m * int b ^ k)"
      using q by (metis nonzero_mult_div_cancel_right order_less_irrefl)
    then show ?thesis by blast
  next
    case False
    have "\<bar>x\<bar> = of_int \<bar>m\<bar> * ?B powi e" using x(1) B by (simp add: abs_mult)
    also have "\<dots> \<le> ?B ^ p * ?B powi e"
    proof (rule mult_right_mono)
      show "of_int \<bar>m\<bar> \<le> ?B ^ p"
        using m by (metis of_int_le_iff of_int_of_nat_eq of_int_power)
    qed (use B in simp)
    also have "\<dots> = ?B powi (int p + e)"
      using B by (simp add: power_int_add)
    also have "\<dots> \<le> ?B powi ilog b \<bar>x\<bar>"
      using False by (subst powi_le_iff [OF B]) simp
    finally have "\<bar>x\<bar> = ?B powi ilog b \<bar>x\<bar>"
      using ilog_bounds(1) [OF b ax] by (intro antisym)
    then have "\<bar>x\<bar> = of_int (int b ^ (p - 1)) * quantum b p x"
      using quantum_lead(1) [OF b p, of x] by simp
    then have "x / quantum b p x = of_int (int b ^ (p - 1)) \<or> x / quantum b p x = of_int (- (int b ^ (p - 1)))"
      using q by (cases "0 \<le> x") (auto simp: field_simps)
    then show ?thesis by blast
  qed
qed

lemma round_sig_exact:
  assumes "2 \<le> b" and "1 \<le> p" and "x = of_int m * of_nat b powi e" and "\<bar>m\<bar> \<le> int b ^ p"
  shows "round_sig b p x = x"
proof (cases "x = 0")
  case False
  obtain n where n: "x / quantum b p x = of_int n"
    using int_multiple_of_quantum [OF assms(1,2,3) False assms(4)] by blast
  then have "x = of_int n * quantum b p x"
    using quantum_pos [OF assms(1), of p x] by (simp add: field_simps)
  with False n show ?thesis by (simp add: round_sig_def)
qed simp

lemma round_sig_form:
  assumes b: "2 \<le> b" and p: "1 \<le> p"
  shows "\<exists>m e. round_sig b p x = of_int m * of_nat b powi e \<and> \<bar>m\<bar> \<le> int b ^ p"
proof -
  have pos: "\<exists>m e. round_sig b p y = of_int m * of_nat b powi e \<and> \<bar>m\<bar> \<le> int b ^ p" if y: "0 < y" for y
  proof -
    have "0 \<le> round_half_even (y / quantum b p y)"
      using round_half_even_ge_int [of 0] y quantum_pos [OF b, of p y] by simp
    then have "\<bar>round_half_even (y / quantum b p y)\<bar> \<le> int b ^ p"
      using round_sig_le_next(1) [OF b p y] by simp
    then show ?thesis using y unfolding round_sig_def quantum_def by auto
  qed
  consider "x = 0" | "0 < x" | "0 < - x" by linarith
  then show ?thesis
  proof cases
    case 1
    then show ?thesis by (intro exI [of _ 0]) simp
  next
    case 2
    then show ?thesis by (rule pos)
  next
    case 3
    then obtain m e where "round_sig b p (- x) = of_int m * of_nat b powi e" "\<bar>m\<bar> \<le> int b ^ p"
      using pos by blast
    then have "round_sig b p x = of_int (- m) * of_nat b powi e \<and> \<bar>- m\<bar> \<le> int b ^ p"
      by (simp add: round_sig_neg minus_equation_iff [of "round_sig b p x"])
    then show ?thesis by blast
  qed
qed

lemma round_sig_idem:
  assumes "2 \<le> b" and "1 \<le> p"
  shows "round_sig b p (round_sig b p x) = round_sig b p x"
  using round_sig_form [OF assms, of x] round_sig_exact [OF assms] by blast

text \<open>The relative error is at most half a unit in the last place.\<close>

lemma round_sig_error:
  assumes b: "2 \<le> b" and p: "1 \<le> p"
  shows "\<bar>round_sig b p x - x\<bar> \<le> \<bar>x\<bar> / (2 * of_nat b ^ (p - 1))"
proof (cases "x = 0")
  case False
  define q where "q = quantum b p x"
  have q: "0 < q" unfolding q_def by (rule quantum_pos [OF b])
  have "round_sig b p x - x = (of_int (round_half_even (x / q)) - x / q) * q"
    using False q by (simp add: round_sig_def q_def field_simps)
  then have "\<bar>round_sig b p x - x\<bar> = \<bar>of_int (round_half_even (x / q)) - x / q\<bar> * q"
    using q by (simp add: abs_mult)
  also have "\<dots> \<le> 1 / 2 * q"
    using round_half_even_error [of "x / q"] q by (intro mult_right_mono) auto
  also have "\<dots> \<le> \<bar>x\<bar> / (2 * of_nat b ^ (p - 1))"
    using ilog_bounds(1) [OF b, of "\<bar>x\<bar>"] quantum_lead(1) [OF b p, of x] False b
    by (simp add: q_def field_simps)
  finally show ?thesis .
qed simp

section \<open>What the clients rely on\<close>

text \<open>
  The laws of a rounding mode the program's arithmetic relies on. Everything a component proves
  about sums, products and quotients goes through this interface.
\<close>

locale rounding =
  fixes rnd :: "rat \<Rightarrow> rat"
  assumes rnd_mono: "x \<le> y \<Longrightarrow> rnd x \<le> rnd y"
    and rnd_neg: "rnd (- x) = - rnd x"
    and rnd_idem: "rnd (rnd x) = rnd x"
begin

lemma rnd_0: "rnd 0 = 0"
  using rnd_neg [of 0] by simp

lemma rnd_nonneg: "0 \<le> x \<Longrightarrow> 0 \<le> rnd x"
  using rnd_mono [of 0 x] by (simp add: rnd_0)

lemma rnd_nonpos: "x \<le> 0 \<Longrightarrow> rnd x \<le> 0"
  using rnd_mono [of x 0] by (simp add: rnd_0)

lemma rnd_le_fix: "rnd a = a \<Longrightarrow> x \<le> a \<Longrightarrow> rnd x \<le> a"
  using rnd_mono [of x a] by simp

lemma rnd_ge_fix: "rnd a = a \<Longrightarrow> a \<le> x \<Longrightarrow> a \<le> rnd x"
  using rnd_mono [of a x] by simp

lemma rnd_abs: "rnd \<bar>x\<bar> = \<bar>rnd x\<bar>"
  using rnd_nonneg [of x] rnd_nonpos [of x] by (cases "0 \<le> x") (auto simp: rnd_neg)

end

interpretation dec: rounding "round_sig 10 28"
  by unfold_locales (auto simp: round_sig_mono round_sig_neg round_sig_idem)

interpretation flt: rounding "round_sig 2 53"
  by unfold_locales (auto simp: round_sig_mono round_sig_neg round_sig_idem)

section \<open>Python's decimal arithmetic\<close>

type_synonym decimal = rat

text \<open>The result of an operation is its exact value rounded by the default context.\<close>

definition dctx :: "rat \<Rightarrow> decimal" where
  "dctx x = round_sig 10 28 x"

definition dadd :: "decimal \<Rightarrow> decimal \<Rightarrow> decimal" where
  "dadd x y = dctx (x + y)"

definition dsub :: "decimal \<Rightarrow> decimal \<Rightarrow> decimal" where
  "dsub x y = dctx (x - y)"

definition dmul :: "decimal \<Rightarrow> decimal \<Rightarrow> decimal" where
  "dmul x y = dctx (x * y)"

definition ddiv :: "decimal \<Rightarrow> decimal \<Rightarrow> decimal" where
  "ddiv x y = dctx (x / y)"

definition dneg :: "decimal \<Rightarrow> decimal" where
  "dneg x = dctx (- x)"

definition dabs :: "decimal \<Rightarrow> decimal" where
  "dabs x = dctx \<bar>x\<bar>"

text \<open>\<open>sum(xs, Decimal("0"))\<close> adds from the left.\<close>

definition dsum :: "decimal list \<Rightarrow> decimal" where
  "dsum xs = foldl dadd 0 xs"

lemmas dec_defs = dadd_def dsub_def dmul_def ddiv_def dneg_def dabs_def

lemma dctx_mono: "x \<le> y \<Longrightarrow> dctx x \<le> dctx y"
  by (simp add: dctx_def dec.rnd_mono)

lemma dctx_0 [simp]: "dctx 0 = 0"
  by (simp add: dctx_def)

lemma dctx_nonneg: "0 \<le> x \<Longrightarrow> 0 \<le> dctx x"
  by (simp add: dctx_def dec.rnd_nonneg)

lemma dctx_nonpos: "x \<le> 0 \<Longrightarrow> dctx x \<le> 0"
  by (simp add: dctx_def dec.rnd_nonpos)

lemma dctx_neg: "dctx (- x) = - dctx x"
  by (simp add: dctx_def dec.rnd_neg)

lemma dctx_idem [simp]: "dctx (dctx x) = dctx x"
  by (simp add: dctx_def dec.rnd_idem)

lemma dctx_le_fix: "dctx a = a \<Longrightarrow> x \<le> a \<Longrightarrow> dctx x \<le> a"
  unfolding dctx_def by (rule dec.rnd_le_fix)

lemma dctx_ge_fix: "dctx a = a \<Longrightarrow> a \<le> x \<Longrightarrow> a \<le> dctx x"
  unfolding dctx_def by (rule dec.rnd_ge_fix)

lemma dctx_error: "\<bar>dctx x - x\<bar> \<le> \<bar>x\<bar> / (2 * 10 ^ 27)"
  using round_sig_error [of 10 28 x] by (simp add: dctx_def)

subsection \<open>Numbers the context represents exactly\<close>

text \<open>
  \<open>on_grid k x\<close>: \<open>x\<close> is a multiple of \<open>10\<^sup>-\<^sup>k\<close> whose coefficient fits the 28 digits. Amounts of
  money and contract quantities are on such a grid, and sums and differences on it are exact.
\<close>

definition on_grid :: "nat \<Rightarrow> rat \<Rightarrow> bool" where
  "on_grid k x \<longleftrightarrow> of_int \<lfloor>x * 10 ^ k\<rfloor> = x * 10 ^ k \<and> \<bar>x\<bar> * 10 ^ k \<le> 10 ^ 28"

lemma on_gridE:
  assumes "on_grid k x"
  obtains n where "x = of_int n / 10 ^ k" and "\<bar>n\<bar> \<le> 10 ^ 28"
proof -
  have n: "x * 10 ^ k = of_int \<lfloor>x * 10 ^ k\<rfloor>" and a: "\<bar>x\<bar> * 10 ^ k \<le> 10 ^ 28"
    using assms by (auto simp: on_grid_def)
  have "\<bar>x\<bar> * 10 ^ k = \<bar>x * 10 ^ k\<bar>" by (simp add: abs_mult)
  also have "\<dots> = of_int \<bar>\<lfloor>x * 10 ^ k\<rfloor>\<bar>" using n by (metis of_int_abs)
  finally have "\<bar>\<lfloor>x * 10 ^ k\<rfloor>\<bar> \<le> 10 ^ 28" using a by (metis of_int_le_numeral_power_cancel_iff)
  with n show ?thesis by (intro that [of "\<lfloor>x * 10 ^ k\<rfloor>"]) (auto simp: field_simps)
qed

lemma on_gridI: "x = of_int n / 10 ^ k \<Longrightarrow> \<bar>n\<bar> \<le> 10 ^ 28 \<Longrightarrow> on_grid k x"
  by (auto simp: on_grid_def of_int_le_numeral_power_cancel_iff simp flip: of_int_abs)

lemma dctx_grid [simp]: "on_grid k x \<Longrightarrow> dctx x = x"
proof (elim on_gridE)
  fix n
  assume "x = of_int n / 10 ^ k" and "\<bar>n\<bar> \<le> 10 ^ 28"
  then show "dctx x = x"
    unfolding dctx_def
    by (intro round_sig_exact [of 10 28 x n "- int k"])
      (auto simp: power_int_minus power_int_of_nat field_simps)
qed

text \<open>
  Evaluation: a value with at most twelve decimals is returned as it is, without searching for
  its leading digit.
\<close>

lemma dctx_eval: "on_grid 12 x \<Longrightarrow> dctx x = x"
  by (rule dctx_grid)

lemma dctx_code [code]: "dctx x = (if on_grid 12 x then x else round_sig 10 28 x)"
  by (simp add: dctx_eval) (simp add: dctx_def)

lemma on_grid_0 [simp]: "on_grid k 0"
  by (simp add: on_grid_def)

lemma on_grid_uminus [simp]: "on_grid k (- x) = on_grid k x"
proof -
  have "on_grid k (- y)" if "on_grid k y" for y
  proof -
    obtain n where "y = of_int n / 10 ^ k" "\<bar>n\<bar> \<le> 10 ^ 28" using \<open>on_grid k y\<close> by (rule on_gridE)
    then show ?thesis by (intro on_gridI [of _ "- n"]) auto
  qed
  from this [of x] this [of "- x"] show ?thesis by auto
qed

lemma on_grid_add:
  assumes "on_grid k x" and "on_grid k y" and "\<bar>x + y\<bar> * 10 ^ k \<le> 10 ^ 28"
  shows "on_grid k (x + y)"
proof -
  obtain m n where mn: "x = of_int m / 10 ^ k" "y = of_int n / 10 ^ k"
    using assms(1,2) by (metis on_gridE)
  then have s: "x + y = of_int (m + n) / 10 ^ k" by (simp add: add_divide_distrib)
  then have "(x + y) * 10 ^ k = of_int (m + n)" by simp
  with assms(3) show ?thesis by (simp only: on_grid_def floor_of_int)
qed

lemma on_grid_between:
  assumes "on_grid k x" and "on_grid k y" and "0 \<le> y" and "y \<le> x"
  shows "on_grid k (x - y)"
proof -
  have "\<bar>x + - y\<bar> * 10 ^ k \<le> \<bar>x\<bar> * 10 ^ k" using assms by (intro mult_right_mono) auto
  also have "\<dots> \<le> 10 ^ 28" using assms(1) by (simp add: on_grid_def)
  finally show ?thesis using on_grid_add [of k x "- y"] assms(1,2) by simp
qed

lemma on_grid_min: "on_grid k x \<Longrightarrow> on_grid k y \<Longrightarrow> on_grid k (min x y)"
  by (simp add: min_def)

lemma dsub_grid [simp]:
  "on_grid k x \<Longrightarrow> on_grid k y \<Longrightarrow> 0 \<le> y \<Longrightarrow> y \<le> x \<Longrightarrow> dsub x y = x - y"
  unfolding dsub_def by (rule dctx_grid) (rule on_grid_between)

lemma dadd_grid:
  "on_grid k x \<Longrightarrow> on_grid k y \<Longrightarrow> \<bar>x + y\<bar> * 10 ^ k \<le> 10 ^ 28 \<Longrightarrow> dadd x y = x + y"
  unfolding dadd_def by (rule dctx_grid) (rule on_grid_add)

lemma on_grid_mult:
  assumes "on_grid j x" and "on_grid k y" and "\<bar>x * y\<bar> * 10 ^ (j + k) \<le> 10 ^ 28"
  shows "on_grid (j + k) (x * y)"
proof -
  obtain m n where mn: "x = of_int m / 10 ^ j" "y = of_int n / 10 ^ k"
    using assms(1,2) by (metis on_gridE)
  then have s: "x * y * 10 ^ (j + k) = of_int (m * n)" by (simp add: power_add)
  with assms(3) show ?thesis by (simp only: on_grid_def floor_of_int)
qed

lemma dmul_grid:
  "on_grid j x \<Longrightarrow> on_grid k y \<Longrightarrow> \<bar>x * y\<bar> * 10 ^ (j + k) \<le> 10 ^ 28 \<Longrightarrow> dmul x y = x * y"
  unfolding dmul_def by (rule dctx_grid) (rule on_grid_mult)

lemma on_grid_of_int: "\<bar>n\<bar> \<le> 10 ^ 28 \<Longrightarrow> on_grid 0 (of_int n)"
  by (rule on_gridI [where n = n]) auto

lemma grid_room:
  fixes t :: rat
  assumes "\<bar>t\<bar> \<le> 10 ^ m" and "m + n \<le> 28"
  shows "\<bar>t\<bar> * 10 ^ n \<le> 10 ^ 28"
proof -
  have "\<bar>t\<bar> * 10 ^ n \<le> 10 ^ m * 10 ^ n" using assms(1) by (intro mult_right_mono) auto
  also have "\<dots> = 10 ^ (m + n)" by (simp add: power_add)
  also have "\<dots> \<le> 10 ^ 28" using assms(2) by (rule power_increasing) simp
  finally show ?thesis .
qed

subsection \<open>Sign and order of the operations\<close>

lemma dadd_nonneg: "0 \<le> x \<Longrightarrow> 0 \<le> y \<Longrightarrow> 0 \<le> dadd x y"
  by (simp add: dadd_def dctx_nonneg)

lemma dmul_nonneg: "0 \<le> x \<Longrightarrow> 0 \<le> y \<Longrightarrow> 0 \<le> dmul x y"
  by (simp add: dmul_def dctx_nonneg)

lemma ddiv_nonneg: "0 \<le> x \<Longrightarrow> 0 \<le> y \<Longrightarrow> 0 \<le> ddiv x y"
  by (simp add: ddiv_def dctx_nonneg)

lemma dsub_nonneg: "y \<le> x \<Longrightarrow> 0 \<le> dsub x y"
  by (simp add: dsub_def dctx_nonneg)

lemma dsub_self [simp]: "dsub x x = 0"
  by (simp add: dsub_def)

lemma dadd_mono: "x \<le> x' \<Longrightarrow> y \<le> y' \<Longrightarrow> dadd x y \<le> dadd x' y'"
  by (simp add: dadd_def dctx_mono)

lemma dmul_0 [simp]: "dmul 0 x = 0" "dmul x 0 = 0"
  by (simp_all add: dmul_def)

lemma dsum_nonneg:
  assumes "\<And>x. x \<in> set xs \<Longrightarrow> 0 \<le> x"
  shows "0 \<le> dsum xs"
proof -
  have "0 \<le> acc \<Longrightarrow> 0 \<le> foldl dadd acc xs" for acc
    using assms by (induction xs arbitrary: acc) (auto intro: dadd_nonneg)
  then show ?thesis by (simp add: dsum_def)
qed

text \<open>On a grid, a sum of non-negative terms that stays within 28 digits is exact.\<close>

lemma foldl_dadd_grid:
  assumes "\<And>x. x \<in> set xs \<Longrightarrow> on_grid k x \<and> 0 \<le> x" and "on_grid k acc" and "0 \<le> acc"
    and "(acc + sum_list xs) * 10 ^ k \<le> 10 ^ 28"
  shows "foldl dadd acc xs = acc + sum_list xs \<and> on_grid k (acc + sum_list xs)"
  using assms
proof (induction xs arbitrary: acc)
  case (Cons x xs)
  have "0 \<le> sum_list xs" using Cons.prems(1) by (intro sum_list_nonneg) auto
  then have "(acc + x) * 10 ^ k \<le> (acc + sum_list (x # xs)) * 10 ^ k" by (intro mult_right_mono) auto
  also have "\<dots> \<le> 10 ^ 28" by (rule Cons.prems(4))
  finally have "(acc + x) * 10 ^ k \<le> 10 ^ 28" .
  moreover have x: "on_grid k x" "0 \<le> x" using Cons.prems(1) by auto
  ultimately have le: "\<bar>acc + x\<bar> * 10 ^ k \<le> 10 ^ 28"
    using Cons.prems(3) by (simp add: abs_of_nonneg)
  have "dadd acc x = acc + x" and "on_grid k (acc + x)"
    using dadd_grid [OF Cons.prems(2) x(1) le] on_grid_add [OF Cons.prems(2) x(1) le] by auto
  then show ?case
    using Cons.IH [of "acc + x"] Cons.prems x by (auto simp: add.assoc)
qed simp

lemma dsum_grid:
  assumes "\<And>x. x \<in> set xs \<Longrightarrow> on_grid k x \<and> 0 \<le> x" and "sum_list xs * 10 ^ k \<le> 10 ^ 28"
  shows "dsum xs = sum_list xs" and "on_grid k (sum_list xs)"
  using foldl_dadd_grid [of xs k 0] assms by (auto simp: dsum_def)

section \<open>Quantizing\<close>

text \<open>
  \<open>x.quantize(Decimal("1e-k"), rounding=mode)\<close> rounds to \<open>k\<close> decimals and raises when the
  coefficient does not fit the precision. \<open>to_integral_value\<close> rounds to an integer without limit.
\<close>

definition quantize :: "(rat \<Rightarrow> int) \<Rightarrow> nat \<Rightarrow> decimal \<Rightarrow> decimal result" where
  "quantize mode k x =
     (let n = mode (x * 10 ^ k)
      in if \<bar>n\<bar> < 10 ^ 28 then Inr (of_int n / 10 ^ k) else Inl InvalidOperation)"

definition round_ceiling :: "rat \<Rightarrow> int" where
  "round_ceiling x = \<lceil>x\<rceil>"

definition round_floor :: "rat \<Rightarrow> int" where
  "round_floor x = \<lfloor>x\<rfloor>"

text \<open>\<open>ROUND_HALF_UP\<close>: to nearest, ties away from zero.\<close>

definition round_half_up :: "rat \<Rightarrow> int" where
  "round_half_up x = (if 0 \<le> x then \<lfloor>x + 1 / 2\<rfloor> else - \<lfloor>1 / 2 - x\<rfloor>)"

end
