(* ===== verification/Validation.thy ===== *)
theory Validation
  imports Rounding
begin

text \<open>
  \<open>domain/validation.py\<close>, \<open>domain/ids.py\<close> and \<open>domain/latency.py\<close>: the invariant checks every
  domain constructor runs, client order ids, and execution priorities. A check is the exception it
  raises, or \<open>None\<close>.
\<close>

section \<open>Strings\<close>

text \<open>\<open>str.upper\<close> on the ASCII letters, which is what currency and country codes use.\<close>

definition ascii_upper_char :: "char \<Rightarrow> char" where
  "ascii_upper_char c =
     (if CHR ''a'' \<le> c \<and> c \<le> CHR ''z'' then char_of (of_char c - 32 :: nat) else c)"

definition str_upper :: "string \<Rightarrow> string" where
  "str_upper s = map ascii_upper_char s"

lemma length_str_upper [simp]: "length (str_upper s) = length s"
  by (simp add: str_upper_def)

lemma ascii_upper_char_idem: "ascii_upper_char (ascii_upper_char c) = ascii_upper_char c"
proof (cases "CHR ''a'' \<le> c \<and> c \<le> CHR ''z''")
  case True
  then have "97 \<le> (of_char c :: nat)" and "(of_char c :: nat) \<le> 122"
    by (simp_all add: less_eq_char_def)
  then have "\<not> (CHR ''a'' \<le> (char_of (of_char c - 32 :: nat) :: char))"
    by (simp add: less_eq_char_def)
  with True show ?thesis by (simp add: ascii_upper_char_def)
next
  case False
  have "ascii_upper_char c = c"
    unfolding ascii_upper_char_def using False by (rule if_not_P)
  then show ?thesis by simp
qed

lemma str_upper_idem [simp]: "str_upper (str_upper s) = str_upper s"
  by (simp add: str_upper_def ascii_upper_char_idem)

section \<open>Invariant checks\<close>

definition require_non_empty :: "string \<Rightarrow> string \<Rightarrow> py_error option" where
  "require_non_empty v field_name =
     check (v \<noteq> []) (ValueError (field_name @ '' must be non-empty''))"

definition require_aware_datetime :: "datetime \<Rightarrow> string \<Rightarrow> py_error option" where
  "require_aware_datetime v field_name =
     check (is_aware v) (ValueError (field_name @ '' must be timezone-aware''))"

definition require_utc_datetime :: "datetime \<Rightarrow> string \<Rightarrow> py_error option" where
  "require_utc_datetime v field_name =
     first_error
       [require_aware_datetime v field_name,
        check (utcoffset v = Some 0) (ValueError (field_name @ '' must be UTC''))]"

text \<open>\<open>wall\<close> is the reading of \<open>datetime.now(tz=UTC)\<close>, used when no \<open>now\<close> is passed.\<close>

definition require_not_future_datetime ::
  "datetime \<Rightarrow> datetime \<Rightarrow> string \<Rightarrow> datetime option \<Rightarrow> timedelta \<Rightarrow> py_error option" where
  "require_not_future_datetime wall v field_name now slack =
     (let reference = (case now of None \<Rightarrow> wall | Some n \<Rightarrow> n)
      in first_error
           [require_aware_datetime v field_name,
            require_aware_datetime reference ''now'',
            check (instant v \<le> instant reference + slack)
              (ValueError (field_name @ '' must not be in the future''))])"

definition require_optional_aware_datetime :: "datetime option \<Rightarrow> string \<Rightarrow> py_error option" where
  "require_optional_aware_datetime v field_name =
     (case v of None \<Rightarrow> None | Some t \<Rightarrow> require_aware_datetime t field_name)"

definition require_positive_decimal :: "decimal \<Rightarrow> string \<Rightarrow> py_error option" where
  "require_positive_decimal v field_name =
     check (\<not> v \<le> 0) (ValueError (field_name @ '' must be positive''))"

definition require_non_negative_decimal :: "decimal \<Rightarrow> string \<Rightarrow> py_error option" where
  "require_non_negative_decimal v field_name =
     check (\<not> v < 0) (ValueError (field_name @ '' must be non-negative''))"

definition require_probability_decimal :: "decimal \<Rightarrow> string \<Rightarrow> py_error option" where
  "require_probability_decimal v field_name =
     check (\<not> (v < 0 \<or> v > 1)) (ValueError (field_name @ '' must be between 0 and 1''))"

definition require_currency :: "string \<Rightarrow> string \<Rightarrow> py_error option" where
  "require_currency v field_name =
     first_error
       [require_non_empty v field_name,
        check (\<not> (length v < 3 \<or> length v > 8)) (ValueError (field_name @ '' must be a currency code'')),
        check (v = str_upper v) (ValueError (field_name @ '' must be uppercase''))]"

definition require_non_negative_int :: "int \<Rightarrow> string \<Rightarrow> py_error option" where
  "require_non_negative_int v field_name =
     check (\<not> v < 0) (ValueError (field_name @ '' must be non-negative''))"

definition require_positive_int :: "int \<Rightarrow> string \<Rightarrow> py_error option" where
  "require_positive_int v field_name =
     check (\<not> v \<le> 0) (ValueError (field_name @ '' must be positive''))"

text \<open>An optional string field is checked only when it is present.\<close>

definition require_optional_non_empty :: "string option \<Rightarrow> string \<Rightarrow> py_error option" where
  "require_optional_non_empty v field_name =
     (case v of None \<Rightarrow> None | Some s \<Rightarrow> require_non_empty s field_name)"

lemma require_iffs [simp]:
  "require_non_empty v f = None \<longleftrightarrow> v \<noteq> []"
  "require_aware_datetime t f = None \<longleftrightarrow> is_aware t"
  "require_utc_datetime t f = None \<longleftrightarrow> utcoffset t = Some 0"
  "require_optional_aware_datetime ot f = None \<longleftrightarrow> (\<forall>u. ot = Some u \<longrightarrow> is_aware u)"
  "require_positive_decimal x f = None \<longleftrightarrow> 0 < x"
  "require_non_negative_decimal x f = None \<longleftrightarrow> 0 \<le> x"
  "require_probability_decimal x f = None \<longleftrightarrow> 0 \<le> x \<and> x \<le> 1"
  "require_currency v f = None \<longleftrightarrow> 3 \<le> length v \<and> length v \<le> 8 \<and> v = str_upper v"
  "require_non_negative_int i f = None \<longleftrightarrow> 0 \<le> i"
  "require_positive_int i f = None \<longleftrightarrow> 0 < i"
  "require_optional_non_empty os f = None \<longleftrightarrow> os \<noteq> Some []"
  by (auto simp: require_non_empty_def require_aware_datetime_def require_utc_datetime_def
      require_optional_aware_datetime_def require_positive_decimal_def require_non_negative_decimal_def
      require_probability_decimal_def require_currency_def require_non_negative_int_def
      require_positive_int_def require_optional_non_empty_def is_aware_def split: option.splits)

section \<open>Client order ids\<close>

definition id_alnum :: "char \<Rightarrow> bool" where
  "id_alnum c \<longleftrightarrow>
     CHR ''A'' \<le> c \<and> c \<le> CHR ''Z'' \<or> CHR ''a'' \<le> c \<and> c \<le> CHR ''z'' \<or> CHR ''0'' \<le> c \<and> c \<le> CHR ''9''"

definition id_char :: "char \<Rightarrow> bool" where
  "id_char c \<longleftrightarrow> id_alnum c \<or> c \<in> set ''_.:-''"

text \<open>The language of \<open>_CLIENT_ORDER_ID_RE\<close>: an alphanumeric, then up to 63 id characters.\<close>

definition client_order_id_matches :: "string \<Rightarrow> bool" where
  "client_order_id_matches v \<longleftrightarrow>
     (case v of [] \<Rightarrow> False | c # cs \<Rightarrow> id_alnum c \<and> list_all id_char cs \<and> length cs \<le> 63)"

definition validate_client_order_id :: "string \<Rightarrow> string result" where
  "validate_client_order_id v =
     validated (check (client_order_id_matches v) (ValueError ''client_order_id must be 1-64 chars'')) v"

text \<open>\<open>re.sub(r"[^...]+", "-", s)\<close>: every maximal run of other characters becomes one dash.\<close>

fun sub_runs :: "bool \<Rightarrow> string \<Rightarrow> string" where
  "sub_runs in_run [] = []"
| "sub_runs in_run (c # cs) =
     (if id_char c then c # sub_runs False cs
      else if in_run then sub_runs True cs else CHR ''-'' # sub_runs True cs)"

definition strip_dashes :: "string \<Rightarrow> string" where
  "strip_dashes s = (let l = dropWhile (\<lambda>c. c = CHR ''-'') s in rev (dropWhile (\<lambda>c. c = CHR ''-'') (rev l)))"

text \<open>\<open>hex\<close> is \<open>uuid4().hex\<close>: 32 random hexadecimal digits, drawn by the caller.\<close>

definition new_client_order_id :: "string \<Rightarrow> string \<Rightarrow> string result" where
  "new_client_order_id hex pfx =
     (let stripped = strip_dashes (sub_runs False pfx);
          safe_prefix = take 16 (if stripped = [] then ''ec'' else stripped)
      in validate_client_order_id (safe_prefix @ '':'' @ take 24 hex))"

section \<open>Execution priority\<close>

datatype latency_tier = RELAXED | STANDARD | FAST | CRITICAL

record execution_priority =
  prio_tier :: latency_tier
  max_delay_ms :: "int option"
  expires_after_ms :: "int option"
  allow_rate_limit_borrow :: bool
  prio_reason :: string

definition execution_priority_check :: "execution_priority \<Rightarrow> py_error option" where
  "execution_priority_check p =
     first_error
       [(case max_delay_ms p of None \<Rightarrow> None | Some i \<Rightarrow> require_non_negative_int i ''max_delay_ms''),
        (case expires_after_ms p of None \<Rightarrow> None | Some i \<Rightarrow> require_non_negative_int i ''expires_after_ms'')]"

definition DEFAULT_EXECUTION_PRIORITY :: execution_priority where
  "DEFAULT_EXECUTION_PRIORITY =
     \<lparr>prio_tier = STANDARD, max_delay_ms = None, expires_after_ms = None,
      allow_rate_limit_borrow = False, prio_reason = ''''\<rparr>"

lemma default_priority_valid: "execution_priority_check DEFAULT_EXECUTION_PRIORITY = None"
  by (simp add: execution_priority_check_def DEFAULT_EXECUTION_PRIORITY_def)

section \<open>Generated ids are valid\<close>

lemma list_all_sub_runs: "list_all id_char (sub_runs r s)"
  by (induction s arbitrary: r) (auto simp: id_char_def)

lemma strip_dashes_subset: "set (strip_dashes s) \<subseteq> set s"
  by (auto simp: strip_dashes_def Let_def dest!: set_dropWhileD)

lemma strip_dashes_hd: "strip_dashes s = c # cs \<Longrightarrow> c \<noteq> CHR ''-''"
proof -
  assume a: "strip_dashes s = c # cs"
  define l where "l = dropWhile (\<lambda>c. c = CHR ''-'') s"
  define m where "m = dropWhile (\<lambda>c. c = CHR ''-'') (rev l)"
  have m: "rev m = c # cs" using a by (simp add: strip_dashes_def l_def m_def Let_def)
  obtain zs where "rev l = zs @ m" unfolding m_def by (metis takeWhile_dropWhile_id)
  then have "l = rev m @ rev zs" by (metis rev_append rev_rev_ident)
  then have "l = c # (cs @ rev zs)" using m by simp
  then have "l \<noteq> []" and "hd l = c" by simp_all
  then show "c \<noteq> CHR ''-''" using hd_dropWhile [of "\<lambda>c. c = CHR ''-''" s] unfolding l_def by simp
qed

lemma strip_dashes_id_chars: "list_all id_char s \<Longrightarrow> list_all id_char (strip_dashes s)"
  using strip_dashes_subset [of s] by (auto simp: list_all_iff)

end
