(* ===== verification/Metadata.thy ===== *)
theory Metadata
  imports Validation
begin

text \<open>
  \<open>domain/metadata.py\<close>: dynamically typed metadata values, their recursive freezing into hashable
  form and thawing back. A set is listed in the order of the \<open>repr\<close> of its frozen elements, which
  is the order \<open>sorted(\<dots>, key=repr)\<close> gives it.
\<close>

datatype pyval =
    PyNone
  | PyBool bool
  | PyInt int
  | PyDecimal decimal
  | PyFloat rat
  | PyStr string
  | PyTuple "pyval list"
  | PyList "pyval list"
  | PySet "pyval list"
  | PyDict "(string \<times> pyval) list"
  | PyFrozen "(string \<times> pyval) list"

type_synonym frozen_map = "(string \<times> pyval) list"

text \<open>\<open>FrozenMap.__init__\<close> sorts its items by key; the sort is stable.\<close>

fun freeze_value :: "pyval \<Rightarrow> pyval" where
  "freeze_value (PyFrozen items) = PyFrozen items"
| "freeze_value (PyDict items) = PyFrozen (sort_key fst (map (\<lambda>(k, v). (k, freeze_value v)) items))"
| "freeze_value (PyTuple xs) = PyTuple (map freeze_value xs)"
| "freeze_value (PyList xs) = PyTuple (map freeze_value xs)"
| "freeze_value (PySet xs) = PyTuple (map freeze_value xs)"
| "freeze_value v = v"

definition freeze_mapping :: "(string \<times> pyval) list \<Rightarrow> frozen_map" where
  "freeze_mapping values = sort_key fst (map (\<lambda>(k, v). (k, freeze_value v)) values)"

text \<open>\<open>FrozenMap.__getitem__\<close> scans the items in order; \<open>Mapping.get\<close> turns its KeyError into \<open>None\<close>.\<close>

fun frozen_getitem :: "frozen_map \<Rightarrow> string \<Rightarrow> pyval result" where
  "frozen_getitem [] key = Inl (KeyError key)"
| "frozen_getitem ((item_key, v) # items) key = (if item_key = key then Inr v else frozen_getitem items key)"

definition frozen_get :: "frozen_map \<Rightarrow> string \<Rightarrow> pyval option" where
  "frozen_get m key = (case frozen_getitem m key of Inl e \<Rightarrow> None | Inr v \<Rightarrow> Some v)"

definition frozen_keys :: "frozen_map \<Rightarrow> string list" where
  "frozen_keys m = map fst m"

definition frozen_len :: "frozen_map \<Rightarrow> nat" where
  "frozen_len m = length m"

text \<open>A dict comprehension over the items keeps the last value of a repeated key.\<close>

fun thaw_value :: "pyval \<Rightarrow> pyval" where
  "thaw_value (PyFrozen items) =
     PyDict (foldl (\<lambda>d (k, v). dict_set k v d) [] (map (\<lambda>(k, v). (k, thaw_value v)) items))"
| "thaw_value (PyTuple xs) = PyList (map thaw_value xs)"
| "thaw_value v = v"

text \<open>Python's truth value, as \<open>or\<close> tests it.\<close>

fun truthy :: "pyval \<Rightarrow> bool" where
  "truthy PyNone = False"
| "truthy (PyBool b) = b"
| "truthy (PyInt i) = (i \<noteq> 0)"
| "truthy (PyDecimal d) = (d \<noteq> 0)"
| "truthy (PyFloat f) = (f \<noteq> 0)"
| "truthy (PyStr s) = (s \<noteq> [])"
| "truthy (PyTuple xs) = (xs \<noteq> [])"
| "truthy (PyList xs) = (xs \<noteq> [])"
| "truthy (PySet xs) = (xs \<noteq> [])"
| "truthy (PyDict xs) = (xs \<noteq> [])"
| "truthy (PyFrozen xs) = (xs \<noteq> [])"

text \<open>The values freezing produces: no mutable container, maps sorted by distinct keys.\<close>

fun is_frozen :: "pyval \<Rightarrow> bool" where
  "is_frozen (PyFrozen items) = (sorted (map fst items) \<and> distinct (map fst items) \<and> (\<forall>(k, v) \<in> set items. is_frozen v))"
| "is_frozen (PyTuple xs) = (\<forall>x \<in> set xs. is_frozen x)"
| "is_frozen (PyList xs) = False"
| "is_frozen (PySet xs) = False"
| "is_frozen (PyDict items) = False"
| "is_frozen v = True"

text \<open>The values the program freezes: dictionaries have distinct keys, as Python's have.\<close>

fun wf_pyval :: "pyval \<Rightarrow> bool" where
  "wf_pyval (PyFrozen items) = (sorted (map fst items) \<and> distinct (map fst items) \<and> (\<forall>(k, v) \<in> set items. is_frozen v))"
| "wf_pyval (PyDict items) = (distinct (map fst items) \<and> (\<forall>(k, v) \<in> set items. wf_pyval v))"
| "wf_pyval (PyTuple xs) = (\<forall>x \<in> set xs. wf_pyval x)"
| "wf_pyval (PyList xs) = (\<forall>x \<in> set xs. wf_pyval x)"
| "wf_pyval (PySet xs) = (\<forall>x \<in> set xs. wf_pyval x)"
| "wf_pyval v = True"

section \<open>Freezing and thawing\<close>

lemma sorted_key_id: "sorted (map f xs) \<Longrightarrow> sort_key f xs = xs"
  by (induction xs) (auto simp: insort_is_Cons)

lemma distinct_sort_key_fst [simp]: "distinct (map fst (sort_key f xs)) = distinct (map fst xs)"
  by (rule mset_eq_imp_distinct_iff) simp

lemma keys_map_snd [simp]: "map fst (map (\<lambda>(k, v). (k, f v)) items) = map fst items"
  by (induction items) auto

lemma freeze_is_frozen: "wf_pyval v \<Longrightarrow> is_frozen (freeze_value v)"
proof (induction v rule: freeze_value.induct)
  case (2 items)
  have "sorted (map fst (sort_key fst (map (\<lambda>(k, v). (k, freeze_value v)) items)))"
    by (rule sorted_sort_key)
  moreover have "distinct (map fst (map (\<lambda>(k, v). (k, freeze_value v)) items))"
    using "2.prems" by (simp only: keys_map_snd) simp
  moreover have "\<forall>(k, v) \<in> set items. is_frozen (freeze_value v)"
    using 2 by fastforce
  ultimately show ?case by auto
qed auto

lemma freeze_frozen_id: "is_frozen v \<Longrightarrow> freeze_value v = v"
  by (induction v rule: freeze_value.induct) (auto intro: map_idI)

lemma foldl_set_fresh:
  "distinct (map fst (acc @ items)) \<Longrightarrow>
     foldl (\<lambda>d (k, v). dict_set k v d) acc items = acc @ items"
proof (induction items arbitrary: acc)
  case (Cons kv items)
  then show ?case by (cases kv) (auto simp: dict_set_fresh)
qed simp

lemma frozen_getitem_map_of: "frozen_getitem m key = (case map_of m key of None \<Rightarrow> Inl (KeyError key) | Some v \<Rightarrow> Inr v)"
  by (induction m key rule: frozen_getitem.induct) auto

lemma frozen_get_map_of [simp]: "frozen_get m = map_of m"
  by (auto simp: frozen_get_def frozen_getitem_map_of split: option.splits)

text \<open>Thawing a frozen value and freezing it again gives it back.\<close>

lemma freeze_thaw: "is_frozen v \<Longrightarrow> freeze_value (thaw_value v) = v"
proof (induction v rule: thaw_value.induct)
  case (1 items)
  have d: "distinct (map fst ([] @ map (\<lambda>(k, v). (k, thaw_value v)) items))"
    using "1.prems" by (simp only: append_Nil keys_map_snd) simp
  have "map (\<lambda>(k, v). (k, freeze_value (thaw_value v))) items = items"
    using 1 by (fastforce intro: map_idI)
  moreover have "map (\<lambda>(k, v). (k, freeze_value v)) (map (\<lambda>(k, v). (k, thaw_value v)) items)
      = map (\<lambda>(k, v). (k, freeze_value (thaw_value v))) items"
    by auto
  moreover have "sort_key fst items = items" using "1.prems" by (intro sorted_key_id) simp
  ultimately show ?case by (simp only: thaw_value.simps foldl_set_fresh [OF d] append_Nil freeze_value.simps)
next
  case (2 xs)
  then show ?case by (auto intro: map_idI)
qed auto

lemma freeze_mapping_get:
  assumes "distinct (map fst md)"
  shows "map_of (freeze_mapping md) k = map_option freeze_value (map_of md k)"
proof -
  have d: "distinct (map fst (map (\<lambda>(k, v). (k, freeze_value v)) md))"
    using assms by (simp only: keys_map_snd)
  have "map_of (freeze_mapping md) = map_of (map (\<lambda>(k, v). (k, freeze_value v)) md)"
    unfolding freeze_mapping_def
    using d by (subst map_of_inject_set) (simp_all only: distinct_sort_key_fst set_sort)
  then show ?thesis by (simp add: map_of_map)
qed

end
