(* ===== verification/Domain.thy ===== *)
theory Domain
  imports Metadata
begin

text \<open>
  The venue-neutral domain of \<open>domain/models.py\<close>, \<open>orders.py\<close>, \<open>fills.py\<close>, \<open>positions.py\<close>,
  \<open>lifecycle.py\<close> and \<open>fees.py\<close>: one record per frozen dataclass, its \<open>__post_init__\<close> as a
  \<open>_check\<close> (the exception it raises, if any) and, where \<open>__post_init__\<close> also normalises a field,
  a constructor \<open>mk_\<dots>\<close> that returns the normalised record or the exception.
\<close>

section \<open>Models\<close>

datatype venue = KALSHI | POLYMARKET_GLOBAL | POLYMARKET_US

datatype outcome_side = YES | NO

datatype market_status =
  STATUS_UNKNOWN | STATUS_OPEN | STATUS_PAUSED | STATUS_CLOSED | STATUS_DETERMINED | STATUS_DISPUTED | STATUS_FINALIZED

fun venue_value :: "venue \<Rightarrow> string" where
  "venue_value KALSHI = ''kalshi''"
| "venue_value POLYMARKET_GLOBAL = ''polymarket_global''"
| "venue_value POLYMARKET_US = ''polymarket_us''"

fun outcome_side_value :: "outcome_side \<Rightarrow> string" where
  "outcome_side_value YES = ''yes''"
| "outcome_side_value NO = ''no''"

definition probability_check :: "decimal \<Rightarrow> py_error option" where
  "probability_check v = require_probability_decimal v ''probability''"

record instrument_id =
  iid_venue :: venue
  market_id :: string
  outcome_id :: "string option"

definition instrument_id_check :: "instrument_id \<Rightarrow> py_error option" where
  [record_defs]: "instrument_id_check i =
     first_error
       [require_non_empty (market_id i) ''market_id'',
        require_optional_non_empty (outcome_id i) ''outcome_id'']"

record market =
  mkt_instrument_id :: instrument_id
  mkt_title :: string
  mkt_category :: "string option"
  mkt_status :: market_status
  opens_at :: "datetime option"
  closes_at :: "datetime option"
  settles_at :: "datetime option"
  mkt_metadata :: frozen_map

definition market_check :: "market \<Rightarrow> py_error option" where
  [record_defs]: "market_check m =
     first_error
       [require_non_empty (mkt_title m) ''title'',
        require_optional_aware_datetime (opens_at m) ''opens_at'',
        require_optional_aware_datetime (closes_at m) ''closes_at'',
        require_optional_aware_datetime (settles_at m) ''settles_at'',
        (case (opens_at m, closes_at m) of
           (Some o1, Some c1) \<Rightarrow>
             check (\<not> instant c1 \<le> instant o1) (ValueError ''closes_at must be after opens_at'')
         | _ \<Rightarrow> None)]"

definition mk_market :: "market \<Rightarrow> market result" where
  "mk_market m = validated (market_check m) (m\<lparr>mkt_metadata := freeze_mapping (mkt_metadata m)\<rparr>)"

record order_book_level =
  lvl_price :: decimal
  lvl_quantity :: decimal

definition order_book_level_check :: "order_book_level \<Rightarrow> py_error option" where
  [record_defs]: "order_book_level_check l =
     first_error
       [require_probability_decimal (lvl_price l) ''price'',
        require_positive_decimal (lvl_quantity l) ''quantity'']"

definition mk_level :: "decimal \<Rightarrow> decimal \<Rightarrow> order_book_level result" where
  "mk_level p q =
     (let l = \<lparr>lvl_price = p, lvl_quantity = q\<rparr> in validated (order_book_level_check l) l)"

record market_snapshot =
  snap_instrument_id :: instrument_id
  snap_side :: outcome_side
  snap_bid :: "order_book_level option"
  snap_ask :: "order_book_level option"
  snap_exchange_ts :: "datetime option"
  snap_received_at :: datetime
  snap_source :: string
  snap_source_sequence :: "string option"
  snap_sequence_gap :: bool
  snap_metadata :: frozen_map

definition market_snapshot_check :: "market_snapshot \<Rightarrow> py_error option" where
  [record_defs]: "market_snapshot_check s =
     first_error
       [require_non_empty (snap_source s) ''source'',
        require_optional_non_empty (snap_source_sequence s) ''source_sequence'',
        require_optional_aware_datetime (snap_exchange_ts s) ''exchange_ts'',
        require_aware_datetime (snap_received_at s) ''received_at'']"

definition mk_market_snapshot :: "market_snapshot \<Rightarrow> market_snapshot result" where
  "mk_market_snapshot s =
     validated (market_snapshot_check s) (s\<lparr>snap_metadata := freeze_mapping (snap_metadata s)\<rparr>)"

text \<open>
  \<open>timedelta.total_seconds()\<close> divides the microseconds by \<open>10\<^sup>6\<close> in binary floating point; the
  program then multiplies by 1000 and truncates towards zero. Both operations round to 53 bits.
\<close>

definition fctx :: "rat \<Rightarrow> rat" where
  "fctx x = round_sig 2 53 x"

definition trunc_rat :: "rat \<Rightarrow> int" where
  "trunc_rat x = (if 0 \<le> x then \<lfloor>x\<rfloor> else \<lceil>x\<rceil>)"

definition total_seconds :: "timedelta \<Rightarrow> rat" where
  "total_seconds d = fctx (of_int d / 1000000)"

definition delta_ms :: "timedelta \<Rightarrow> int" where
  "delta_ms d = trunc_rat (fctx (total_seconds d * 1000))"

definition age_ms :: "market_snapshot \<Rightarrow> datetime \<Rightarrow> int result" where
  "age_ms s t =
     validated (require_aware_datetime t ''at'') (delta_ms (dt_minus t (snap_received_at s)))"

definition snapshot_spread :: "market_snapshot \<Rightarrow> decimal option" where
  "snapshot_spread s =
     (case (snap_bid s, snap_ask s) of
        (Some b, Some a) \<Rightarrow> Some (dsub (lvl_price a) (lvl_price b))
      | _ \<Rightarrow> None)"

record quote =
  q_instrument_id :: instrument_id
  q_side :: outcome_side
  q_bid :: "order_book_level option"
  q_ask :: "order_book_level option"
  q_exchange_ts :: "datetime option"
  q_received_at :: datetime

definition quote_check :: "quote \<Rightarrow> py_error option" where
  [record_defs]: "quote_check q =
     first_error
       [require_optional_aware_datetime (q_exchange_ts q) ''exchange_ts'',
        require_aware_datetime (q_received_at q) ''received_at'']"

record order_book =
  bk_instrument_id :: instrument_id
  yes_bids :: "order_book_level list"
  yes_asks :: "order_book_level list"
  no_bids :: "order_book_level list"
  no_asks :: "order_book_level list"
  bk_exchange_ts :: "datetime option"
  bk_received_at :: datetime

definition order_book_check :: "order_book \<Rightarrow> py_error option" where
  [record_defs]: "order_book_check b =
     first_error
       [require_optional_aware_datetime (bk_exchange_ts b) ''exchange_ts'',
        require_aware_datetime (bk_received_at b) ''received_at'']"

record trade =
  tr_instrument_id :: instrument_id
  tr_side :: "outcome_side option"
  tr_price :: decimal
  tr_quantity :: decimal
  trade_id :: "string option"
  tr_exchange_ts :: "datetime option"
  tr_received_at :: datetime
  aggressor_side :: "outcome_side option"
  tr_metadata :: frozen_map

definition trade_check :: "trade \<Rightarrow> py_error option" where
  [record_defs]: "trade_check t =
     first_error
       [require_probability_decimal (tr_price t) ''price'',
        require_positive_decimal (tr_quantity t) ''quantity'',
        require_optional_aware_datetime (tr_exchange_ts t) ''exchange_ts'',
        require_aware_datetime (tr_received_at t) ''received_at'']"

definition mk_trade :: "trade \<Rightarrow> trade result" where
  "mk_trade t = validated (trade_check t) (t\<lparr>tr_metadata := freeze_mapping (tr_metadata t)\<rparr>)"

section \<open>Orders and fills\<close>

datatype order_side = BUY | SELL

datatype order_type = LIMIT | MARKET | POST_ONLY

datatype time_in_force = GTC | IOC | FOK | GTD

datatype liquidity = MAKER | TAKER | LIQ_UNKNOWN

datatype order_status = PENDING | OPEN | PARTIALLY_FILLED | FILLED | CANCELED | REJECTED | EXPIRED

fun order_side_value :: "order_side \<Rightarrow> string" where
  "order_side_value BUY = ''buy''"
| "order_side_value SELL = ''sell''"

fun order_type_value :: "order_type \<Rightarrow> string" where
  "order_type_value LIMIT = ''limit''"
| "order_type_value MARKET = ''market''"
| "order_type_value POST_ONLY = ''post_only''"

fun liquidity_value :: "liquidity \<Rightarrow> string" where
  "liquidity_value MAKER = ''maker''"
| "liquidity_value TAKER = ''taker''"
| "liquidity_value LIQ_UNKNOWN = ''unknown''"

record order =
  ord_client_order_id :: string
  ord_venue_order_id :: "string option"
  ord_instrument_id :: instrument_id
  ord_outcome_side :: outcome_side
  ord_order_side :: order_side
  ord_order_type :: order_type
  ord_time_in_force :: time_in_force
  ord_price :: "decimal option"
  ord_quantity :: decimal
  ord_filled_quantity :: decimal
  ord_status :: order_status
  ord_created_at :: datetime
  ord_updated_at :: datetime
  ord_correlation_id :: string
  ord_strategy_id :: string
  ord_sleeve_id :: string
  ord_expires_at :: "datetime option"
  ord_metadata :: frozen_map

definition order_check :: "order \<Rightarrow> py_error option" where
  [record_defs]: "order_check r =
     first_error
       [require_non_empty (ord_client_order_id r) ''client_order_id'',
        require_optional_non_empty (ord_venue_order_id r) ''venue_order_id'',
        (case ord_price r of None \<Rightarrow> None | Some p \<Rightarrow> require_probability_decimal p ''price''),
        require_positive_decimal (ord_quantity r) ''quantity'',
        require_non_negative_decimal (ord_filled_quantity r) ''filled_quantity'',
        check (\<not> ord_filled_quantity r > ord_quantity r) (ValueError ''filled_quantity cannot exceed quantity''),
        require_aware_datetime (ord_created_at r) ''created_at'',
        require_aware_datetime (ord_updated_at r) ''updated_at'',
        check (\<not> instant (ord_updated_at r) < instant (ord_created_at r))
          (ValueError ''updated_at cannot be before created_at''),
        require_non_empty (ord_correlation_id r) ''correlation_id'',
        require_non_empty (ord_strategy_id r) ''strategy_id'',
        require_non_empty (ord_sleeve_id r) ''sleeve_id'',
        require_optional_aware_datetime (ord_expires_at r) ''expires_at'']"

definition mk_order :: "order \<Rightarrow> order result" where
  "mk_order r = validated (order_check r) (r\<lparr>ord_metadata := freeze_mapping (ord_metadata r)\<rparr>)"

record order_reject =
  rej_client_order_id :: string
  rej_reason :: string
  rejected_at :: datetime
  venue_code :: "string option"

definition order_reject_check :: "order_reject \<Rightarrow> py_error option" where
  [record_defs]: "order_reject_check r =
     first_error
       [require_non_empty (rej_client_order_id r) ''client_order_id'',
        require_non_empty (rej_reason r) ''reason'',
        require_aware_datetime (rejected_at r) ''rejected_at'',
        require_optional_non_empty (venue_code r) ''venue_code'']"

record fill =
  fill_id :: string
  f_venue_order_id :: string
  f_client_order_id :: string
  f_instrument_id :: instrument_id
  f_outcome_side :: outcome_side
  f_order_side :: order_side
  f_price :: decimal
  f_quantity :: decimal
  f_liquidity :: liquidity
  fee_amount :: decimal
  fee_currency :: string
  filled_at :: datetime
  f_exchange_ts :: "datetime option"
  f_correlation_id :: string
  f_strategy_id :: string
  f_sleeve_id :: string
  f_metadata :: frozen_map

definition fill_check :: "fill \<Rightarrow> py_error option" where
  [record_defs]: "fill_check f =
     first_error
       [require_non_empty (fill_id f) ''fill_id'',
        require_non_empty (f_venue_order_id f) ''venue_order_id'',
        require_non_empty (f_client_order_id f) ''client_order_id'',
        require_probability_decimal (f_price f) ''price'',
        require_positive_decimal (f_quantity f) ''quantity'',
        require_non_negative_decimal (fee_amount f) ''fee_amount'',
        require_currency (fee_currency f) ''fee_currency'',
        require_aware_datetime (filled_at f) ''filled_at'',
        require_optional_aware_datetime (f_exchange_ts f) ''exchange_ts'',
        require_non_empty (f_correlation_id f) ''correlation_id'',
        require_non_empty (f_strategy_id f) ''strategy_id'',
        require_non_empty (f_sleeve_id f) ''sleeve_id'']"

definition mk_fill :: "fill \<Rightarrow> fill result" where
  "mk_fill f = validated (fill_check f) (f\<lparr>f_metadata := freeze_mapping (f_metadata f)\<rparr>)"

section \<open>Positions, cash, exposure and ledger entries\<close>

record position =
  pos_instrument_id :: instrument_id
  pos_outcome_side :: outcome_side
  pos_quantity :: decimal
  pos_average_price :: decimal
  pos_realized_pnl :: decimal
  pos_unrealized_pnl :: decimal
  pos_updated_at :: datetime

definition position_check :: "position \<Rightarrow> py_error option" where
  [record_defs]: "position_check p =
     first_error
       [require_non_negative_decimal (pos_quantity p) ''quantity'',
        require_non_negative_decimal (pos_average_price p) ''average_price'',
        require_aware_datetime (pos_updated_at p) ''updated_at'']"

definition mk_position :: "position \<Rightarrow> position result" where
  "mk_position p =
     validated (position_check p)
       (if pos_quantity p = 0 then p\<lparr>pos_average_price := 0, pos_unrealized_pnl := 0\<rparr> else p)"

record cash_balance =
  cash_currency :: string
  cash_total :: decimal
  cash_available :: decimal
  cash_held :: decimal
  cash_settling :: decimal
  cash_updated_at :: datetime

definition cash_balance_check :: "cash_balance \<Rightarrow> py_error option" where
  [record_defs]: "cash_balance_check c =
     first_error
       [require_currency (cash_currency c) ''currency'',
        require_non_negative_decimal (cash_total c) ''total'',
        require_non_negative_decimal (cash_available c) ''available'',
        require_non_negative_decimal (cash_held c) ''held_for_orders'',
        require_non_negative_decimal (cash_settling c) ''settling'',
        require_aware_datetime (cash_updated_at c) ''updated_at'']"

definition mk_cash :: "cash_balance \<Rightarrow> cash_balance result" where
  "mk_cash c = validated (cash_balance_check c) c"

record exposure =
  exp_sleeve_id :: string
  exp_currency :: string
  exp_gross_notional :: decimal
  exp_net_notional :: decimal
  exp_long_notional :: decimal
  exp_short_notional :: decimal
  exp_updated_at :: datetime

definition exposure_check :: "exposure \<Rightarrow> py_error option" where
  [record_defs]: "exposure_check e =
     first_error
       [require_non_empty (exp_sleeve_id e) ''sleeve_id'',
        require_currency (exp_currency e) ''currency'',
        require_non_negative_decimal (exp_gross_notional e) ''gross_notional'',
        require_non_negative_decimal (exp_long_notional e) ''long_notional'',
        require_non_negative_decimal (exp_short_notional e) ''short_notional'',
        require_aware_datetime (exp_updated_at e) ''updated_at'']"

record ledger_entry =
  entry_id :: string
  led_sleeve_id :: string
  led_timestamp :: datetime
  led_kind :: string
  led_instrument_id :: "instrument_id option"
  led_amount :: decimal
  led_currency :: string
  led_correlation_id :: "string option"
  led_notes :: string

definition ledger_entry_check :: "ledger_entry \<Rightarrow> py_error option" where
  [record_defs]: "ledger_entry_check e =
     first_error
       [require_non_empty (entry_id e) ''entry_id'',
        require_non_empty (led_sleeve_id e) ''sleeve_id'',
        require_aware_datetime (led_timestamp e) ''timestamp'',
        require_non_empty (led_kind e) ''kind'',
        require_currency (led_currency e) ''currency'',
        require_optional_non_empty (led_correlation_id e) ''correlation_id'']"

definition mk_ledger_entry :: "ledger_entry \<Rightarrow> ledger_entry result" where
  "mk_ledger_entry e = validated (ledger_entry_check e) e"

section \<open>Market lifecycle and settlement\<close>

datatype market_lifecycle_kind =
  LISTED | OPENED | PAUSED | RESUMED | METADATA_UPDATED | CLOSED | DETERMINED | DISPUTED | FINALIZED

record market_lifecycle_event =
  lc_instrument_id :: instrument_id
  lc_kind :: market_lifecycle_kind
  lc_exchange_ts :: "datetime option"
  lc_received_at :: datetime
  lc_reason :: "string option"
  lc_metadata :: frozen_map

definition market_lifecycle_event_check :: "market_lifecycle_event \<Rightarrow> py_error option" where
  [record_defs]: "market_lifecycle_event_check e =
     first_error
       [require_optional_aware_datetime (lc_exchange_ts e) ''exchange_ts'',
        require_aware_datetime (lc_received_at e) ''received_at'',
        require_optional_non_empty (lc_reason e) ''reason'']"

record settlement_event =
  set_instrument_id :: instrument_id
  resolved_side :: "outcome_side option"
  payout_per_contract :: decimal
  set_currency :: string
  settled_at :: datetime
  set_source :: string
  set_metadata :: frozen_map

definition settlement_event_check :: "settlement_event \<Rightarrow> py_error option" where
  [record_defs]: "settlement_event_check e =
     first_error
       [require_probability_decimal (payout_per_contract e) ''payout_per_contract'',
        require_utc_datetime (settled_at e) ''settled_at'',
        require_non_empty (set_source e) ''source'']"

section \<open>Fee estimates\<close>

record fee_estimate =
  est_amount :: decimal
  est_currency :: string
  est_model_name :: string
  est_notes :: "string list"

definition fee_estimate_check :: "fee_estimate \<Rightarrow> py_error option" where
  [record_defs]: "fee_estimate_check e =
     first_error
       [require_non_negative_decimal (est_amount e) ''amount'',
        require_currency (est_currency e) ''currency'',
        require_non_empty (est_model_name e) ''model_name'']"

record fill_context =
  fc_instrument_id :: instrument_id
  fc_side :: outcome_side
  fc_price :: decimal
  fc_quantity :: decimal
  fc_liquidity :: string
  market_category :: "string option"

definition fill_context_check :: "fill_context \<Rightarrow> py_error option" where
  [record_defs]: "fill_context_check c =
     first_error
       [require_probability_decimal (fc_price c) ''price'',
        require_positive_decimal (fc_quantity c) ''quantity'',
        require_non_empty (fc_liquidity c) ''liquidity'',
        require_optional_non_empty (market_category c) ''market_category'']"

definition mk_fill_context :: "fill_context \<Rightarrow> fill_context result" where
  "mk_fill_context c = validated (fill_context_check c) c"

text \<open>A fee model maps a validated fill context to an estimate, or raises.\<close>

type_synonym fee_model = "fill_context \<Rightarrow> fee_estimate result"

section \<open>Valid values\<close>

text \<open>What a constructed value satisfies, in the form the components use.\<close>

lemma level_check_iff:
  "order_book_level_check l = None \<longleftrightarrow> 0 \<le> lvl_price l \<and> lvl_price l \<le> 1 \<and> 0 < lvl_quantity l"
  by (simp add: record_defs)

lemma mk_level_Inr_iff:
  "mk_level p q = Inr l \<longleftrightarrow> 0 \<le> p \<and> p \<le> 1 \<and> 0 < q \<and> l = \<lparr>lvl_price = p, lvl_quantity = q\<rparr>"
  by (auto simp: mk_level_def Let_def level_check_iff)

lemma mk_fill_Inr_iff: "mk_fill f = Inr g \<longleftrightarrow>
     fill_check f = None \<and> g = f\<lparr>f_metadata := freeze_mapping (f_metadata f)\<rparr>"
  by (auto simp: mk_fill_def)

lemma fill_check_iff:
  "fill_check f = None \<longleftrightarrow>
     fill_id f \<noteq> [] \<and> f_venue_order_id f \<noteq> [] \<and> f_client_order_id f \<noteq> [] \<and>
     0 \<le> f_price f \<and> f_price f \<le> 1 \<and> 0 < f_quantity f \<and> 0 \<le> fee_amount f \<and>
     require_currency (fee_currency f) ''fee_currency'' = None \<and> is_aware (filled_at f) \<and>
     (\<forall>t. f_exchange_ts f = Some t \<longrightarrow> is_aware t) \<and>
     f_correlation_id f \<noteq> [] \<and> f_strategy_id f \<noteq> [] \<and> f_sleeve_id f \<noteq> []"
  by (simp add: record_defs)

text \<open>
  \<open>mk_order\<close> returns an order exactly when its invariant holds: quantities are ordered, prices
  are probabilities, times are aware and ordered, ids are present.
\<close>

lemma mk_order_Inr_iff:
  "(\<exists>r'. mk_order r = Inr r') \<longleftrightarrow>
     ord_client_order_id r \<noteq> [] \<and> ord_venue_order_id r \<noteq> Some [] \<and>
     (\<forall>p. ord_price r = Some p \<longrightarrow> 0 \<le> p \<and> p \<le> 1) \<and>
     0 < ord_quantity r \<and> 0 \<le> ord_filled_quantity r \<and> ord_filled_quantity r \<le> ord_quantity r \<and>
     is_aware (ord_created_at r) \<and> is_aware (ord_updated_at r) \<and>
     instant (ord_created_at r) \<le> instant (ord_updated_at r) \<and>
     ord_correlation_id r \<noteq> [] \<and> ord_strategy_id r \<noteq> [] \<and> ord_sleeve_id r \<noteq> [] \<and>
     (\<forall>t. ord_expires_at r = Some t \<longrightarrow> is_aware t)"
  by (auto simp: mk_order_def record_defs not_less split: option.splits)

text \<open>\<open>Position.__post_init__\<close>: a flat position has no average price and no unrealized profit.\<close>

lemma mk_position_flat:
  "mk_position p = Inr p' \<Longrightarrow> pos_quantity p' = 0 \<Longrightarrow> pos_average_price p' = 0 \<and> pos_unrealized_pnl p' = 0"
  by (auto simp: mk_position_def split: if_splits)

end
