(* ===== verification/Events.thy ===== *)
theory Events
  imports Domain
begin

text \<open>
  \<open>domain/decisions.py\<close>, \<open>domain/events.py\<close> and \<open>domain/spec.py\<close>: what a strategy returns, what
  it receives, and the static specs of strategies and sleeves. The closed sum types of the source
  are datatypes over the records of their dataclasses.
\<close>

section \<open>Decisions\<close>

datatype alert_severity = INFO | WARN | ERROR

record place_order =
  po_client_order_id :: string
  po_instrument_id :: instrument_id
  po_outcome_side :: outcome_side
  po_order_side :: order_side
  po_order_type :: order_type
  po_time_in_force :: time_in_force
  po_quantity :: decimal
  po_price :: "decimal option"
  po_expires_at :: "datetime option"
  po_market_snapshot :: "market_snapshot option"
  po_reason :: string
  po_expected_edge_bps :: "decimal option"
  po_priority :: "execution_priority option"
  po_metadata :: frozen_map

definition place_order_check :: "place_order \<Rightarrow> py_error option" where
  [record_defs]: "place_order_check d =
     first_error
       [require_non_empty (po_client_order_id d) ''client_order_id'',
        require_positive_decimal (po_quantity d) ''quantity'',
        require_optional_aware_datetime (po_expires_at d) ''expires_at'',
        check (\<not> (po_price d = None \<and> po_order_type d \<noteq> MARKET))
          (ValueError ''price is required for non-market orders''),
        (case po_price d of None \<Rightarrow> None | Some p \<Rightarrow> require_probability_decimal p ''price'')]"

definition mk_place_order :: "place_order \<Rightarrow> place_order result" where
  "mk_place_order d =
     validated (place_order_check d) (d\<lparr>po_metadata := freeze_mapping (po_metadata d)\<rparr>)"

record cancel_order =
  co_client_order_id :: string
  co_reason :: string
  co_priority :: "execution_priority option"

definition cancel_order_check :: "cancel_order \<Rightarrow> py_error option" where
  [record_defs]: "cancel_order_check d = require_non_empty (co_client_order_id d) ''client_order_id''"

record replace_order =
  ro_client_order_id :: string
  ro_new_price :: "decimal option"
  ro_new_quantity :: "decimal option"
  ro_market_snapshot :: "market_snapshot option"
  ro_reason :: string
  ro_priority :: "execution_priority option"

definition replace_order_check :: "replace_order \<Rightarrow> py_error option" where
  [record_defs]: "replace_order_check d =
     first_error
       [require_non_empty (ro_client_order_id d) ''client_order_id'',
        check (\<not> (ro_new_price d = None \<and> ro_new_quantity d = None))
          (ValueError ''replace order requires new_price or new_quantity''),
        (case ro_new_price d of None \<Rightarrow> None | Some p \<Rightarrow> require_probability_decimal p ''new_price''),
        (case ro_new_quantity d of None \<Rightarrow> None | Some q \<Rightarrow> require_positive_decimal q ''new_quantity'')]"

record alert =
  al_severity :: alert_severity
  al_message :: string
  al_tags :: frozen_map

definition alert_check :: "alert \<Rightarrow> py_error option" where
  [record_defs]: "alert_check a = require_non_empty (al_message a) ''message''"

datatype strategy_decision =
    PlaceOrder place_order
  | CancelOrder cancel_order
  | ReplaceOrder replace_order
  | Alert alert
  | NoAction string

record intent_envelope =
  env_decision :: strategy_decision
  env_strategy_id :: string
  env_sleeve_id :: string
  env_correlation_id :: string
  emitted_at :: datetime
  env_priority :: execution_priority
  triggered_by_event_id :: "string option"
  env_metadata :: frozen_map

definition intent_envelope_check :: "intent_envelope \<Rightarrow> py_error option" where
  [record_defs]: "intent_envelope_check e =
     first_error
       [require_non_empty (env_strategy_id e) ''strategy_id'',
        require_non_empty (env_sleeve_id e) ''sleeve_id'',
        require_non_empty (env_correlation_id e) ''correlation_id'',
        require_aware_datetime (emitted_at e) ''emitted_at'']"

definition mk_intent_envelope :: "intent_envelope \<Rightarrow> intent_envelope result" where
  "mk_intent_envelope e =
     validated (intent_envelope_check e) (e\<lparr>env_metadata := freeze_mapping (env_metadata e)\<rparr>)"

fun decision_kind :: "strategy_decision \<Rightarrow> string" where
  "decision_kind (PlaceOrder d) = ''place_order''"
| "decision_kind (CancelOrder d) = ''cancel_order''"
| "decision_kind (ReplaceOrder d) = ''replace_order''"
| "decision_kind (Alert a) = ''alert''"
| "decision_kind (NoAction r) = ''no_action''"

fun decision_priority :: "strategy_decision \<Rightarrow> execution_priority \<Rightarrow> execution_priority" where
  "decision_priority (PlaceOrder d) dflt = (case po_priority d of None \<Rightarrow> dflt | Some p \<Rightarrow> p)"
| "decision_priority (CancelOrder d) dflt = (case co_priority d of None \<Rightarrow> dflt | Some p \<Rightarrow> p)"
| "decision_priority (ReplaceOrder d) dflt = (case ro_priority d of None \<Rightarrow> dflt | Some p \<Rightarrow> p)"
| "decision_priority _ dflt = dflt"

section \<open>Normalized events\<close>

record event_provenance =
  prov_source :: string
  prov_channel :: string
  prov_schema_version :: string
  prov_venue :: "venue option"
  prov_source_sequence :: "string option"
  normalization_version :: string
  prov_metadata :: frozen_map

definition event_provenance_check :: "event_provenance \<Rightarrow> py_error option" where
  [record_defs]: "event_provenance_check p =
     first_error
       [require_non_empty (prov_source p) ''source'',
        require_non_empty (prov_channel p) ''channel'',
        require_non_empty (prov_schema_version p) ''schema_version'',
        require_non_empty (normalization_version p) ''normalization_version'',
        require_optional_non_empty (prov_source_sequence p) ''source_sequence'']"

definition default_provenance :: event_provenance where
  "default_provenance =
     \<lparr>prov_source = ''unknown'', prov_channel = ''unknown'', prov_schema_version = ''normalized-event-v1'',
      prov_venue = None, prov_source_sequence = None, normalization_version = ''normalizer-v1'',
      prov_metadata = []\<rparr>"

record external_signal =
  ext_source :: string
  ext_exchange_ts :: "datetime option"
  ext_received_at :: datetime
  ext_schema_version :: string
  ext_payload :: frozen_map

record timer =
  tm_timestamp :: datetime
  tm_label :: string

text \<open>Each variant carries its event id, its payload and its provenance, in that order.\<close>

datatype normalized_event =
    QuoteEvent string quote event_provenance
  | TradeEvent string trade event_provenance
  | OrderBookEvent string order_book event_provenance
  | LifecycleEvent string market_lifecycle_event event_provenance
  | SettlementResolvedEvent string settlement_event event_provenance
  | ExternalSignalEvent string external_signal event_provenance
  | TimerEvent string timer event_provenance
  | OwnFillEvent string fill event_provenance
  | OwnOrderUpdateEvent string order event_provenance
  | OwnOrderRejectEvent string order_reject event_provenance

fun event_id :: "normalized_event \<Rightarrow> string" where
  "event_id (QuoteEvent i _ _) = i"
| "event_id (TradeEvent i _ _) = i"
| "event_id (OrderBookEvent i _ _) = i"
| "event_id (LifecycleEvent i _ _) = i"
| "event_id (SettlementResolvedEvent i _ _) = i"
| "event_id (ExternalSignalEvent i _ _) = i"
| "event_id (TimerEvent i _ _) = i"
| "event_id (OwnFillEvent i _ _) = i"
| "event_id (OwnOrderUpdateEvent i _ _) = i"
| "event_id (OwnOrderRejectEvent i _ _) = i"

fun event_provenance_of :: "normalized_event \<Rightarrow> event_provenance" where
  "event_provenance_of (QuoteEvent _ _ p) = p"
| "event_provenance_of (TradeEvent _ _ p) = p"
| "event_provenance_of (OrderBookEvent _ _ p) = p"
| "event_provenance_of (LifecycleEvent _ _ p) = p"
| "event_provenance_of (SettlementResolvedEvent _ _ p) = p"
| "event_provenance_of (ExternalSignalEvent _ _ p) = p"
| "event_provenance_of (TimerEvent _ _ p) = p"
| "event_provenance_of (OwnFillEvent _ _ p) = p"
| "event_provenance_of (OwnOrderUpdateEvent _ _ p) = p"
| "event_provenance_of (OwnOrderRejectEvent _ _ p) = p"

definition validate_event_id :: "string \<Rightarrow> py_error option" where
  "validate_event_id i = require_non_empty i ''event_id''"

text \<open>The \<open>__post_init__\<close> of each event variant.\<close>

fun event_check :: "normalized_event \<Rightarrow> py_error option" where
  "event_check (ExternalSignalEvent i x p) =
     first_error
       [validate_event_id i,
        require_non_empty (ext_source x) ''source'',
        require_non_empty (ext_schema_version x) ''schema_version'',
        require_optional_aware_datetime (ext_exchange_ts x) ''exchange_ts'',
        require_aware_datetime (ext_received_at x) ''received_at'']"
| "event_check (TimerEvent i x p) =
     first_error
       [validate_event_id i,
        require_aware_datetime (tm_timestamp x) ''timestamp'',
        require_non_empty (tm_label x) ''label'']"
| "event_check e = validate_event_id (event_id e)"

definition EVENT_KINDS :: "string list" where
  "EVENT_KINDS =
     [''quote'', ''trade'', ''book'', ''lifecycle'', ''settlement'', ''external'', ''timer'',
      ''own_fill'', ''own_order_update'', ''own_order_reject'']"

fun event_kind :: "normalized_event \<Rightarrow> string" where
  "event_kind (QuoteEvent _ _ _) = ''quote''"
| "event_kind (TradeEvent _ _ _) = ''trade''"
| "event_kind (OrderBookEvent _ _ _) = ''book''"
| "event_kind (LifecycleEvent _ _ _) = ''lifecycle''"
| "event_kind (SettlementResolvedEvent _ _ _) = ''settlement''"
| "event_kind (ExternalSignalEvent _ _ _) = ''external''"
| "event_kind (TimerEvent _ _ _) = ''timer''"
| "event_kind (OwnFillEvent _ _ _) = ''own_fill''"
| "event_kind (OwnOrderUpdateEvent _ _ _) = ''own_order_update''"
| "event_kind (OwnOrderRejectEvent _ _ _) = ''own_order_reject''"

text \<open>\<open>bool(event.provenance.metadata.get("sequence_gap", False))\<close>\<close>

definition provenance_gap :: "event_provenance \<Rightarrow> bool" where
  "provenance_gap p =
     (case frozen_get (prov_metadata p) ''sequence_gap'' of None \<Rightarrow> False | Some v \<Rightarrow> truthy v)"

text \<open>The complement of a level: the same quantity at one minus the price.\<close>

definition complement_level :: "order_book_level option \<Rightarrow> order_book_level option result" where
  "complement_level l =
     (case l of
        None \<Rightarrow> Inr None
      | Some v \<Rightarrow> bind_result (mk_level (dsub 1 (lvl_price v)) (lvl_quantity v)) (\<lambda>c. Inr (Some c)))"

definition market_snapshot_from_quote_event ::
  "string \<Rightarrow> quote \<Rightarrow> event_provenance \<Rightarrow> outcome_side option \<Rightarrow> market_snapshot result" where
  "market_snapshot_from_quote_event eid q prov side =
     (let snapshot_side = (case side of None \<Rightarrow> q_side q | Some s \<Rightarrow> s);
          build = (\<lambda>bid ask. mk_market_snapshot
            \<lparr>snap_instrument_id = q_instrument_id q, snap_side = snapshot_side,
             snap_bid = bid, snap_ask = ask,
             snap_exchange_ts = q_exchange_ts q, snap_received_at = q_received_at q,
             snap_source = prov_source prov, snap_source_sequence = prov_source_sequence prov,
             snap_sequence_gap = provenance_gap prov,
             snap_metadata = [(''event_id'', PyStr eid), (''channel'', PyStr (prov_channel prov))]\<rparr>)
      in if snapshot_side \<noteq> q_side q
         then bind_result (complement_level (q_ask q)) (\<lambda>bid.
              bind_result (complement_level (q_bid q)) (\<lambda>ask. build bid ask))
         else build (q_bid q) (q_ask q))"

definition head_option :: "'a list \<Rightarrow> 'a option" where
  "head_option xs = (case xs of [] \<Rightarrow> None | x # _ \<Rightarrow> Some x)"

definition market_snapshot_from_book_event ::
  "string \<Rightarrow> order_book \<Rightarrow> event_provenance \<Rightarrow> outcome_side \<Rightarrow> market_snapshot result" where
  "market_snapshot_from_book_event eid book prov side =
     (let bids = (if side = YES then yes_bids book else no_bids book);
          asks = (if side = YES then yes_asks book else no_asks book)
      in mk_market_snapshot
           \<lparr>snap_instrument_id = bk_instrument_id book, snap_side = side,
            snap_bid = head_option bids, snap_ask = head_option asks,
            snap_exchange_ts = bk_exchange_ts book, snap_received_at = bk_received_at book,
            snap_source = prov_source prov, snap_source_sequence = prov_source_sequence prov,
            snap_sequence_gap = provenance_gap prov,
            snap_metadata = [(''event_id'', PyStr eid), (''channel'', PyStr (prov_channel prov))]\<rparr>)"

section \<open>Specs\<close>

record model_ref =
  mr_name :: string
  mr_version :: string
  artifact_uri :: string
  sha256 :: string

definition model_ref_check :: "model_ref \<Rightarrow> py_error option" where
  [record_defs]: "model_ref_check m =
     first_error
       [require_non_empty (mr_name m) ''model name'',
        require_non_empty (mr_version m) ''model version'',
        require_non_empty (artifact_uri m) ''artifact_uri'',
        require_non_empty (sha256 m) ''sha256'']"

record risk_profile =
  max_order_notional :: decimal
  max_position_notional :: decimal
  max_daily_loss :: decimal
  max_open_orders :: int
  max_gross_exposure :: decimal
  rp_currency :: string
  max_market_data_age_ms :: int
  max_spread :: decimal
  max_order_lifetime_ms :: int
  allow_market_orders :: bool
  allow_unbounded_gtc :: bool

definition risk_profile_check :: "risk_profile \<Rightarrow> py_error option" where
  [record_defs]: "risk_profile_check r =
     first_error
       [require_positive_decimal (max_order_notional r) ''max_order_notional'',
        require_positive_decimal (max_position_notional r) ''max_position_notional'',
        require_non_negative_decimal (max_daily_loss r) ''max_daily_loss'',
        require_positive_int (max_open_orders r) ''max_open_orders'',
        require_positive_decimal (max_gross_exposure r) ''max_gross_exposure'',
        require_currency (rp_currency r) ''currency'',
        require_positive_int (max_market_data_age_ms r) ''max_market_data_age_ms'',
        require_positive_decimal (max_spread r) ''max_spread'',
        require_positive_int (max_order_lifetime_ms r) ''max_order_lifetime_ms'']"

record event_subscription =
  sub_venues :: "venue list"
  instrument_patterns :: "string list"
  sub_event_kinds :: "string list"
  external_sources :: "string list"

definition event_subscription_check :: "event_subscription \<Rightarrow> py_error option" where
  [record_defs]: "event_subscription_check s =
     first_error
       ([check (sub_venues s \<noteq> []) (ValueError ''subscription venues must be non-empty''),
         check (instrument_patterns s \<noteq> []) (ValueError ''subscription instrument_patterns must be non-empty''),
         check (sub_event_kinds s \<noteq> []) (ValueError ''subscription event_kinds must be non-empty''),
         check (filter (\<lambda>k. k \<notin> set EVENT_KINDS) (sub_event_kinds s) = []) (ValueError ''unknown event kind(s)'')]
        @ map (\<lambda>p. require_non_empty p ''instrument pattern'') (instrument_patterns s)
        @ map (\<lambda>p. require_non_empty p ''external source'') (external_sources s))"

record strategy_spec =
  ss_strategy_id :: string
  ss_name :: string
  ss_version :: string
  ss_description :: string
  subscription :: event_subscription
  default_execution_priority :: execution_priority
  ss_parameters :: frozen_map
  ss_model :: "model_ref option"
  ss_feature_schema_id :: "string option"
  ss_tags :: frozen_map

definition strategy_spec_check :: "strategy_spec \<Rightarrow> py_error option" where
  [record_defs]: "strategy_spec_check s =
     first_error
       [require_non_empty (ss_strategy_id s) ''strategy_id'',
        require_non_empty (ss_name s) ''name'',
        require_non_empty (ss_version s) ''version'',
        require_optional_non_empty (ss_feature_schema_id s) ''feature_schema_id'']"

record sleeve_spec =
  sl_sleeve_id :: string
  sl_strategy_id :: string
  sl_strategy_version :: string
  sl_venue :: venue
  capital_allocation :: decimal
  sl_currency :: string
  sl_risk :: risk_profile
  sl_tags :: frozen_map

definition sleeve_spec_check :: "sleeve_spec \<Rightarrow> py_error option" where
  [record_defs]: "sleeve_spec_check s =
     first_error
       [require_non_empty (sl_sleeve_id s) ''sleeve_id'',
        require_non_empty (sl_strategy_id s) ''strategy_id'',
        require_non_empty (sl_strategy_version s) ''strategy_version'',
        require_positive_decimal (capital_allocation s) ''capital_allocation'',
        require_currency (sl_currency s) ''currency'']"

section \<open>Snapshots taken from quotes\<close>

lemma event_kind_known: "event_kind e \<in> set EVENT_KINDS"
  by (cases e) (simp_all add: EVENT_KINDS_def)

text \<open>
  The complement of a valid price is a valid price even after rounding, so taking the opposite side
  of a quote never raises and never leaves the unit interval.
\<close>

lemma one_on_grid [simp]:
  assumes "k \<le> 28"
  shows "on_grid k 1"
proof (rule on_gridI)
  show "(1::rat) = of_int (10 ^ k) / 10 ^ k" by simp
  have "(10::int) ^ k \<le> 10 ^ 28" using assms by (rule power_increasing) simp
  then show "\<bar>(10::int) ^ k\<bar> \<le> 10 ^ 28" by simp
qed

lemma dctx_1 [simp]: "dctx 1 = 1"
  by (rule dctx_grid [of 0]) simp

lemma complement_price_range:
  assumes "0 \<le> p" and "p \<le> 1"
  shows "0 \<le> dsub 1 p" and "dsub 1 p \<le> 1"
  using assms by (auto simp: dsub_def intro: dctx_nonneg dctx_le_fix)

lemma complement_level_valid:
  assumes "\<And>v. l = Some v \<Longrightarrow> order_book_level_check v = None"
  shows "complement_level l =
    Inr (map_option (\<lambda>v. \<lparr>lvl_price = dsub 1 (lvl_price v), lvl_quantity = lvl_quantity v\<rparr>) l)"
proof (cases l)
  case (Some v)
  then have "0 \<le> lvl_price v" "lvl_price v \<le> 1" "0 < lvl_quantity v"
    using assms by (auto simp: level_check_iff)
  then have "mk_level (dsub 1 (lvl_price v)) (lvl_quantity v)
      = Inr \<lparr>lvl_price = dsub 1 (lvl_price v), lvl_quantity = lvl_quantity v\<rparr>"
    by (simp add: mk_level_Inr_iff complement_price_range)
  with Some show ?thesis by (simp add: complement_level_def)
qed (simp add: complement_level_def)

end
