(* ===== verification/Fees.thy ===== *)
theory Fees
  imports Events
begin

text \<open>
  \<open>adapters/venues/kalshi/fees.py\<close> and \<open>adapters/venues/polymarket/fees.py\<close>: the venues' fee
  schedules, with the rounding the venue publishes.
\<close>

record kalshi_fee_model =
  kf_rate :: decimal
  kf_maker_rate :: decimal
  kf_currency :: string
  kf_name :: string

definition default_kalshi_fee_model :: kalshi_fee_model where
  "default_kalshi_fee_model =
     \<lparr>kf_rate = 7 / 100, kf_maker_rate = 175 / 10000, kf_currency = ''USD'', kf_name = ''kalshi-fill-level''\<rparr>"

definition kalshi_estimate :: "kalshi_fee_model \<Rightarrow> fee_model" where
  "kalshi_estimate m c =
     (let rate = (if fc_liquidity c = ''maker'' then kf_maker_rate m else kf_rate m);
          notional_per_contract = dmul (fc_price c) (dsub 1 (fc_price c));
          raw = dmul (dmul rate notional_per_contract) (fc_quantity c)
      in bind_result (quantize round_ceiling 2 raw) (\<lambda>fee.
         let e = \<lparr>est_amount = fee, est_currency = kf_currency m, est_model_name = kf_name m,
                  est_notes = (if fc_liquidity c = ''maker'' then [''maker-fee''] else [])\<rparr>
         in validated (fee_estimate_check e) e))"

record polymarket_fee_model =
  pm_maker_rate :: decimal
  pm_taker_rate :: decimal
  pm_currency :: string
  pm_name :: string

definition default_polymarket_fee_model :: polymarket_fee_model where
  "default_polymarket_fee_model =
     \<lparr>pm_maker_rate = 0, pm_taker_rate = 2 / 100, pm_currency = ''USD'', pm_name = ''polymarket-category-fill-level''\<rparr>"

definition polymarket_estimate :: "polymarket_fee_model \<Rightarrow> fee_model" where
  "polymarket_estimate m c =
     (let rate = (if fc_liquidity c = ''maker'' then pm_maker_rate m else pm_taker_rate m);
          notional = dmul (fc_price c) (fc_quantity c)
      in bind_result (quantize round_half_up 6 (dmul rate notional)) (\<lambda>fee.
         let e = \<lparr>est_amount = fee, est_currency = pm_currency m, est_model_name = pm_name m, est_notes = []\<rparr>
         in validated (fee_estimate_check e) e))"

section \<open>The Kalshi schedule\<close>

text \<open>On the price grid of four decimals the products of the formula are exact.\<close>

lemma kalshi_raw_exact:
  assumes r: "on_grid 4 rate" "0 \<le> rate" "rate \<le> 1"
    and p: "on_grid 4 p" "0 \<le> p" "p \<le> 1"
    and q: "on_grid 4 q" "0 \<le> q" "q \<le> 1000000000"
  shows "dmul (dmul rate (dmul p (dsub 1 p))) q = rate * (p * (1 - p)) * q"
proof -
  have s: "dsub 1 p = 1 - p" and s': "on_grid 4 (1 - p)"
    using p dsub_grid [of 4 1 p] on_grid_between [of 4 1 p] by auto
  have pp: "0 \<le> p * (1 - p)" "p * (1 - p) \<le> 1" using p by (auto intro: mult_le_one)
  have b1: "\<bar>p * (1 - p)\<bar> * 10 ^ (4 + 4) \<le> 10 ^ 28"
    by (rule grid_room [of _ 0]) (use pp in \<open>auto simp: abs_of_nonneg\<close>)
  note g1 = dmul_grid [OF p(1) s' b1] on_grid_mult [OF p(1) s' b1]
  have rp: "0 \<le> rate * (p * (1 - p))" "rate * (p * (1 - p)) \<le> 1"
    using r pp by (auto intro: mult_le_one)
  have b2: "\<bar>rate * (p * (1 - p))\<bar> * 10 ^ (4 + (4 + 4)) \<le> 10 ^ 28"
    by (rule grid_room [of _ 0]) (use rp in \<open>simp_all only: abs_of_nonneg, simp_all\<close>)
  note g2 = dmul_grid [OF r(1) g1(2) b2] on_grid_mult [OF r(1) g1(2) b2]
  have "rate * (p * (1 - p)) * q \<le> 1 * 1000000000" using rp q by (intro mult_mono) auto
  moreover have "0 \<le> rate * (p * (1 - p)) * q" using rp(1) q(2) by (rule mult_nonneg_nonneg)
  ultimately have "\<bar>rate * (p * (1 - p)) * q\<bar> \<le> 10 ^ 9" by (simp only: abs_of_nonneg) simp
  then have "\<bar>rate * (p * (1 - p)) * q\<bar> * 10 ^ (4 + (4 + 4) + 4) \<le> 10 ^ 28"
    by (rule grid_room) simp
  then have "dmul (rate * (p * (1 - p))) q = rate * (p * (1 - p)) * q"
    by (rule dmul_grid [OF g2(2) q(1)])
  with g1 g2 s show ?thesis by simp
qed

lemma quantize_ceiling_Inr:
  assumes "0 \<le> x" and "x \<le> 10 ^ 20"
  shows "quantize round_ceiling 2 x = Inr (of_int \<lceil>x * 100\<rceil> / 100)"
proof -
  have "0 \<le> \<lceil>x * 100\<rceil>" using assms(1) by simp
  moreover have "\<lceil>x * 100\<rceil> \<le> 10 ^ 22"
    using assms(2) by (intro ceiling_le) simp
  ultimately show ?thesis
    by (simp add: quantize_def round_ceiling_def)
qed

end
