(* ===== verification/Queues.thy ===== *)
theory Queues
  imports Events
begin

text \<open>
  \<open>execution/queue.py\<close> and \<open>execution/simulator.py\<close>: queue-position estimators, which say how
  much resting volume sits ahead of a passive order, and the executable order intent.
\<close>

section \<open>Queue position\<close>

record queue_estimate =
  ahead_quantity :: decimal
  qe_confidence :: decimal
  qe_source :: string

definition queue_estimate_check :: "queue_estimate \<Rightarrow> py_error option" where
  [record_defs]: "queue_estimate_check e =
     first_error
       [require_non_negative_decimal (ahead_quantity e) ''ahead_quantity'',
        check (\<not> (qe_confidence e < 0 \<or> qe_confidence e > 1)) (ValueError ''confidence must be between 0 and 1''),
        require_non_empty (qe_source e) ''source'']"

definition mk_queue_estimate :: "decimal \<Rightarrow> decimal \<Rightarrow> string \<Rightarrow> queue_estimate result" where
  "mk_queue_estimate ahead conf src =
     (let e = \<lparr>ahead_quantity = ahead, qe_confidence = conf, qe_source = src\<rparr>
      in validated (queue_estimate_check e) e)"

text \<open>
  The arguments of \<open>QueuePositionEstimator.estimate\<close>: instrument, outcome side, order side (its
  string value), price, quantity and the current book.
\<close>

type_synonym queue_estimator =
  "instrument_id \<Rightarrow> outcome_side \<Rightarrow> string \<Rightarrow> decimal \<Rightarrow> decimal \<Rightarrow> order_book option \<Rightarrow> queue_estimate result"

definition select_levels :: "order_book \<Rightarrow> outcome_side \<Rightarrow> string \<Rightarrow> order_book_level list" where
  "select_levels book side oside =
     (if side = YES then (if oside = ''buy'' then yes_bids book else yes_asks book)
      else (if oside = ''buy'' then no_bids book else no_asks book))"

definition ahead_at_price :: "order_book_level list \<Rightarrow> decimal \<Rightarrow> decimal" where
  "ahead_at_price levels p = dsum (map lvl_quantity (filter (\<lambda>l. lvl_price l = p) levels))"

definition depth_estimate :: "string \<Rightarrow> queue_estimator" where
  "depth_estimate name iid side oside p q book =
     (case book of
        None \<Rightarrow> mk_queue_estimate q 0 name
      | Some b \<Rightarrow> mk_queue_estimate (ahead_at_price (select_levels b side oside) p) (6 / 10) name)"

record fractional_queue_estimator =
  fq_fraction :: decimal
  fq_confidence :: decimal
  fq_name :: string

definition fractional_queue_estimator_check :: "fractional_queue_estimator \<Rightarrow> py_error option" where
  [record_defs]: "fractional_queue_estimator_check e =
     first_error
       [check (0 < fq_fraction e \<and> fq_fraction e \<le> 1) (ValueError ''fraction must be in (0, 1]''),
        check (0 \<le> fq_confidence e \<and> fq_confidence e \<le> 1) (ValueError ''confidence must be in [0, 1]'')]"

definition fractional_estimate :: "fractional_queue_estimator \<Rightarrow> queue_estimator" where
  "fractional_estimate e iid side oside p q book =
     (case book of
        None \<Rightarrow> mk_queue_estimate q 0 (fq_name e)
      | Some b \<Rightarrow>
          mk_queue_estimate (dmul (ahead_at_price (select_levels b side oside) p) (fq_fraction e))
            (fq_confidence e) (fq_name e))"

definition front_estimate :: "string \<Rightarrow> queue_estimator" where
  "front_estimate name iid side oside p q book = mk_queue_estimate 0 1 name"

section \<open>Order intents\<close>

record order_intent =
  oi_instrument_id :: instrument_id
  oi_side :: outcome_side
  oi_price :: decimal
  oi_quantity :: decimal
  oi_order_type :: string
  oi_order_side :: order_side
  oi_time_in_force :: time_in_force
  oi_post_only :: bool
  oi_metadata :: frozen_map

definition order_intent_check :: "order_intent \<Rightarrow> py_error option" where
  [record_defs]: "order_intent_check i =
     first_error
       [require_probability_decimal (oi_price i) ''price'',
        require_positive_decimal (oi_quantity i) ''quantity'',
        require_non_empty (oi_order_type i) ''order_type'']"

definition mk_order_intent :: "order_intent \<Rightarrow> order_intent result" where
  "mk_order_intent i =
     validated (order_intent_check i) (i\<lparr>oi_metadata := freeze_mapping (oi_metadata i)\<rparr>)"

definition intent_to_order :: "intent_envelope \<Rightarrow> order_intent option result" where
  "intent_to_order e =
     (case env_decision e of
        PlaceOrder d \<Rightarrow>
          (case po_price d of
             None \<Rightarrow> Inl (ValueError ''paper execution requires a price on PlaceOrder'')
           | Some p \<Rightarrow>
               bind_result (mk_order_intent
                 \<lparr>oi_instrument_id = po_instrument_id d, oi_side = po_outcome_side d, oi_price = p,
                  oi_quantity = po_quantity d, oi_order_type = order_type_value (po_order_type d),
                  oi_order_side = po_order_side d, oi_time_in_force = po_time_in_force d,
                  oi_post_only = (order_type_value (po_order_type d) = ''post_only''),
                  oi_metadata =
                    [(''client_order_id'', PyStr (po_client_order_id d)),
                     (''strategy_id'', PyStr (env_strategy_id e)),
                     (''sleeve_id'', PyStr (env_sleeve_id e)),
                     (''correlation_id'', PyStr (env_correlation_id e))]\<rparr>)
                 (\<lambda>i. Inr (Some i)))
      | _ \<Rightarrow> Inr None)"

record simulated_fill =
  sf_order :: order_intent
  sf_price :: decimal
  sf_quantity :: decimal
  sf_filled_at :: datetime
  sf_liquidity :: string
  sf_fee_amount :: decimal
  sf_fee_currency :: string

definition simulated_fill_check :: "simulated_fill \<Rightarrow> py_error option" where
  [record_defs]: "simulated_fill_check f =
     first_error
       [require_probability_decimal (sf_price f) ''price'',
        require_positive_decimal (sf_quantity f) ''quantity'',
        require_aware_datetime (sf_filled_at f) ''filled_at'',
        require_non_empty (sf_liquidity f) ''liquidity'',
        require_non_negative_decimal (sf_fee_amount f) ''fee_amount'',
        require_currency (sf_fee_currency f) ''fee_currency'']"

definition immediate_submit :: "datetime \<Rightarrow> string \<Rightarrow> order_intent \<Rightarrow> simulated_fill list result" where
  "immediate_submit at_time ccy i =
     (let f = \<lparr>sf_order = i, sf_price = oi_price i, sf_quantity = oi_quantity i, sf_filled_at = at_time,
               sf_liquidity = ''unknown'', sf_fee_amount = 0, sf_fee_currency = ccy\<rparr>
      in bind_result (validated (simulated_fill_check f) f) (\<lambda>f. Inr [f]))"

section \<open>What a queue estimator promises\<close>

lemma mk_queue_estimate_Inr_iff:
  "mk_queue_estimate a c n = Inr e \<longleftrightarrow>
     0 \<le> a \<and> 0 \<le> c \<and> c \<le> 1 \<and> n \<noteq> [] \<and> e = \<lparr>ahead_quantity = a, qe_confidence = c, qe_source = n\<rparr>"
  by (auto simp: mk_queue_estimate_def Let_def record_defs)

lemma mk_order_intent_Inr_iff:
  "mk_order_intent i = Inr j \<longleftrightarrow>
     0 \<le> oi_price i \<and> oi_price i \<le> 1 \<and> 0 < oi_quantity i \<and> oi_order_type i \<noteq> [] \<and>
     j = i\<lparr>oi_metadata := freeze_mapping (oi_metadata i)\<rparr>"
  by (auto simp: mk_order_intent_def record_defs)

text \<open>The contract the simulator relies on: a reported queue is never negative.\<close>

locale queue_model =
  fixes est :: queue_estimator
  assumes ahead_nonneg: "est iid side oside p q book = Inr e \<Longrightarrow> 0 \<le> ahead_quantity e"

interpretation depth: queue_model "depth_estimate name"
  by unfold_locales (auto simp: depth_estimate_def mk_queue_estimate_Inr_iff split: option.splits)

interpretation fractional: queue_model "fractional_estimate e"
  by unfold_locales (auto simp: fractional_estimate_def mk_queue_estimate_Inr_iff split: option.splits)

interpretation front: queue_model "front_estimate name"
  by unfold_locales (auto simp: front_estimate_def mk_queue_estimate_Inr_iff)

lemma ahead_at_price_nonneg:
  "(\<And>l. l \<in> set levels \<Longrightarrow> 0 \<le> lvl_quantity l) \<Longrightarrow> 0 \<le> ahead_at_price levels p"
  unfolding ahead_at_price_def by (rule dsum_nonneg) auto

end
