(* ===== verification/Simulator.thy ===== *)
theory Simulator
  imports Queues
begin

text \<open>
  \<open>execution/market_simulator.py\<close>: the stateful paper execution simulator. Its dictionaries of
  market states and pending orders, its id counters and its log of emitted fills are one record;
  every method is a function from that record to the new record and its result. The fee model, the
  queue estimator and the latency model are arguments of the constructor and so of the model; the
  latency model may be random, so it is the sequence of its draws.
\<close>

section \<open>State\<close>

record market_state =
  ms_instrument_id :: instrument_id
  ms_book :: "order_book option"
  ms_status :: market_lifecycle_kind
  last_trade_price :: "decimal option"
  last_trade_at :: "datetime option"

definition new_market_state :: "instrument_id \<Rightarrow> market_state" where
  "new_market_state iid =
     \<lparr>ms_instrument_id = iid, ms_book = None, ms_status = OPENED, last_trade_price = None, last_trade_at = None\<rparr>"

record pending_replace =
  pr_effective_at :: datetime
  pr_new_price :: "decimal option"
  pr_new_quantity :: "decimal option"

record pending_order =
  pd_intent :: order_intent
  pd_submitted_at :: datetime
  pd_effective_at :: datetime
  pd_venue_order_id :: string
  pd_queue_ahead :: decimal
  pd_filled_quantity :: decimal
  pd_status :: order_status
  pd_active :: bool
  pd_cancel_effective_at :: "datetime option"
  pd_replace_request :: "pending_replace option"

definition pd_remaining :: "pending_order \<Rightarrow> decimal" where
  "pd_remaining p = dsub (oi_quantity (pd_intent p)) (pd_filled_quantity p)"

record sim_config =
  sc_fee_model :: fee_model
  sc_latency :: "nat \<Rightarrow> string \<Rightarrow> timedelta"
  sc_queue_estimator :: queue_estimator
  sc_strategy_id :: string
  sc_sleeve_id :: string

record simulator =
  sim_states :: "(instrument_id, market_state) dict"
  sim_pending :: "(string, pending_order) dict"
  sim_fill_seq :: nat
  sim_order_seq :: nat
  sim_draws :: nat
  sim_fill_log :: "fill list"

definition new_simulator :: simulator where
  "new_simulator =
     \<lparr>sim_states = [], sim_pending = [], sim_fill_seq = 0, sim_order_seq = 0, sim_draws = 0, sim_fill_log = []\<rparr>"

text \<open>An order is live while its status is OPEN or PARTIALLY_FILLED.\<close>

definition is_live :: "order_status \<Rightarrow> bool" where
  "is_live st \<longleftrightarrow> st = OPEN \<or> st = PARTIALLY_FILLED"

section \<open>Book helpers\<close>

definition opposite_levels :: "order_book \<Rightarrow> outcome_side \<Rightarrow> order_side \<Rightarrow> order_book_level list" where
  "opposite_levels book side oside =
     (if side = YES then (if oside = BUY then yes_asks book else yes_bids book)
      else (if oside = BUY then no_asks book else no_bids book))"

definition same_side_levels :: "order_book \<Rightarrow> outcome_side \<Rightarrow> order_side \<Rightarrow> order_book_level list" where
  "same_side_levels book side oside =
     (if side = YES then (if oside = BUY then yes_bids book else yes_asks book)
      else (if oside = BUY then no_bids book else no_asks book))"

fun debit_levels :: "nat \<Rightarrow> order_book_level list \<Rightarrow> (nat, decimal) dict \<Rightarrow> order_book_level list result" where
  "debit_levels index [] consumed = Inr []"
| "debit_levels index (l # ls) consumed =
     (let rest = dsub (lvl_quantity l) (dict_get_default consumed index 0)
      in if rest > 0
         then bind_result (mk_level (lvl_price l) rest) (\<lambda>l'.
              bind_result (debit_levels (Suc index) ls consumed) (\<lambda>ls'. Inr (l' # ls')))
         else debit_levels (Suc index) ls consumed)"

definition with_opposite_levels_debited ::
  "order_book \<Rightarrow> outcome_side \<Rightarrow> order_side \<Rightarrow> (nat, decimal) dict \<Rightarrow> order_book result" where
  "with_opposite_levels_debited book side oside consumed =
     bind_result (debit_levels 0 (opposite_levels book side oside) consumed) (\<lambda>new_levels.
       let book' =
         (if side = YES
          then book\<lparr>yes_asks := (if oside = BUY then new_levels else yes_asks book),
                    yes_bids := (if oside = SELL then new_levels else yes_bids book)\<rparr>
          else book\<lparr>no_asks := (if oside = BUY then new_levels else no_asks book),
                    no_bids := (if oside = SELL then new_levels else no_bids book)\<rparr>)
       in validated (order_book_check book') book')"

text \<open>\<open>metadata.get(key) or default\<close>, for the string ids the runner puts there.\<close>

definition meta_or :: "frozen_map \<Rightarrow> string \<Rightarrow> string \<Rightarrow> string" where
  "meta_or md key dflt =
     (case frozen_get md key of Some (PyStr s) \<Rightarrow> (if s \<noteq> [] then s else dflt) | _ \<Rightarrow> dflt)"

definition client_order_id_of :: "order_intent \<Rightarrow> string \<Rightarrow> string" where
  "client_order_id_of i void = meta_or (oi_metadata i) ''client_order_id'' (''sim-'' @ void)"

definition is_marketable :: "order_intent \<Rightarrow> order_book option \<Rightarrow> bool" where
  "is_marketable i book =
     (case book of
        None \<Rightarrow> False
      | Some b \<Rightarrow>
          if oi_post_only i then False
          else if oi_order_type i = ''market'' then True
          else (case opposite_levels b (oi_side i) (oi_order_side i) of
                  [] \<Rightarrow> False
                | best # _ \<Rightarrow>
                    if oi_order_side i = BUY then oi_price i \<ge> lvl_price best
                    else oi_price i \<le> lvl_price best))"

definition passive_fill_price :: "trade \<Rightarrow> order_intent \<Rightarrow> decimal option" where
  "passive_fill_price t i =
     (if tr_side t = Some (oi_side i) \<and> oi_price i = tr_price t
      then (if aggressor_side t = Some (oi_side i)
            then (if oi_order_side i = SELL then Some (oi_price i) else None)
            else if aggressor_side t \<noteq> None
            then (if oi_order_side i = BUY then Some (oi_price i) else None)
            else Some (oi_price i))
      else if tr_side t \<noteq> None \<and> tr_side t \<noteq> Some (oi_side i)
      then (if oi_price i \<noteq> dsub 1 (tr_price t) then None
            else if aggressor_side t = tr_side t
            then (if oi_order_side i = BUY then Some (oi_price i) else None)
            else if aggressor_side t = Some (oi_side i)
            then (if oi_order_side i = SELL then Some (oi_price i) else None)
            else Some (oi_price i))
      else if oi_price i = tr_price t \<or> oi_price i = dsub 1 (tr_price t)
      then Some (oi_price i)
      else None)"

section \<open>Internal helpers\<close>

text \<open>\<open>_state\<close> creates the market state of an instrument on first use.\<close>

definition state_of :: "simulator \<Rightarrow> instrument_id \<Rightarrow> market_state" where
  "state_of s iid = (case dict_get (sim_states s) iid of None \<Rightarrow> new_market_state iid | Some st \<Rightarrow> st)"

definition set_state :: "instrument_id \<Rightarrow> market_state \<Rightarrow> simulator \<Rightarrow> simulator" where
  "set_state iid st s = s\<lparr>sim_states := dict_set iid st (sim_states s)\<rparr>"

definition ensure_state :: "instrument_id \<Rightarrow> simulator \<Rightarrow> simulator" where
  "ensure_state iid s = (case dict_get (sim_states s) iid of None \<Rightarrow> set_state iid (new_market_state iid) s | Some _ \<Rightarrow> s)"

definition set_pending :: "string \<Rightarrow> pending_order \<Rightarrow> simulator \<Rightarrow> simulator" where
  "set_pending k p s = s\<lparr>sim_pending := dict_set k p (sim_pending s)\<rparr>"

definition next_fill_id :: "simulator \<Rightarrow> string \<times> simulator" where
  "next_fill_id s =
     (let n = Suc (sim_fill_seq s) in (''sim-fill-'' @ zero_pad 9 (str_nat n), s\<lparr>sim_fill_seq := n\<rparr>))"

definition next_venue_order_id :: "simulator \<Rightarrow> string \<times> simulator" where
  "next_venue_order_id s =
     (let n = Suc (sim_order_seq s) in (''sim-ord-'' @ zero_pad 9 (str_nat n), s\<lparr>sim_order_seq := n\<rparr>))"

definition draw_latency :: "sim_config \<Rightarrow> string \<Rightarrow> simulator \<Rightarrow> timedelta \<times> simulator" where
  "draw_latency cfg kind s = (sc_latency cfg (sim_draws s) kind, s\<lparr>sim_draws := Suc (sim_draws s)\<rparr>)"

definition fee_for ::
  "sim_config \<Rightarrow> order_intent \<Rightarrow> decimal \<Rightarrow> decimal \<Rightarrow> liquidity \<Rightarrow> (decimal \<times> string) result" where
  "fee_for cfg i price qty liq =
     bind_result
       (mk_fill_context
          \<lparr>fc_instrument_id = oi_instrument_id i, fc_side = oi_side i, fc_price = price, fc_quantity = qty,
           fc_liquidity = liquidity_value liq, market_category = None\<rparr>)
       (\<lambda>ctx. bind_result (sc_fee_model cfg ctx) (\<lambda>est. Inr (est_amount est, est_currency est)))"

definition emit_fill ::
  "sim_config \<Rightarrow> order_intent \<Rightarrow> decimal \<Rightarrow> decimal \<Rightarrow> datetime \<Rightarrow> liquidity \<Rightarrow> string \<Rightarrow> simulator \<Rightarrow>
   (fill \<times> simulator) result" where
  "emit_fill cfg i price qty at_time liq void s =
     bind_result (fee_for cfg i price qty liq) (\<lambda>(fee, ccy).
       let coid = meta_or (oi_metadata i) ''client_order_id'' (''sim-'' @ str_nat (sim_fill_seq s));
           correlation = meta_or (oi_metadata i) ''correlation_id'' ''sim-corr'';
           (fid, s1) = next_fill_id s
       in bind_result
            (mk_fill
               \<lparr>fill_id = fid, f_venue_order_id = void, f_client_order_id = coid,
                f_instrument_id = oi_instrument_id i, f_outcome_side = oi_side i,
                f_order_side = oi_order_side i, f_price = price, f_quantity = qty, f_liquidity = liq,
                fee_amount = fee, fee_currency = ccy, filled_at = at_time, f_exchange_ts = Some at_time,
                f_correlation_id = correlation, f_strategy_id = sc_strategy_id cfg,
                f_sleeve_id = sc_sleeve_id cfg, f_metadata = []\<rparr>)
            (\<lambda>f. Inr (f, s1\<lparr>sim_fill_log := sim_fill_log s1 @ [f]\<rparr>)))"

section \<open>Taker fills\<close>

text \<open>The limit test that ends the walk: the level is worse than the order's limit.\<close>

definition beyond_limit :: "order_intent \<Rightarrow> order_book_level \<Rightarrow> bool" where
  "beyond_limit i l \<longleftrightarrow>
     oi_order_type i \<noteq> ''market'' \<and>
     (oi_order_side i = BUY \<and> oi_price i < lvl_price l \<or> oi_order_side i = SELL \<and> oi_price i > lvl_price l)"

fun marketable_quantity_from :: "order_intent \<Rightarrow> order_book_level list \<Rightarrow> decimal \<Rightarrow> decimal" where
  "marketable_quantity_from i [] q = q"
| "marketable_quantity_from i (l # ls) q =
     (if beyond_limit i l then q
      else let q' = dadd q (lvl_quantity l)
           in if q' \<ge> oi_quantity i then q' else marketable_quantity_from i ls q')"

definition marketable_quantity :: "order_intent \<Rightarrow> order_book_level list \<Rightarrow> decimal" where
  "marketable_quantity i opposite = marketable_quantity_from i opposite 0"

fun walk_levels ::
  "sim_config \<Rightarrow> order_intent \<Rightarrow> datetime \<Rightarrow> string \<Rightarrow> nat \<Rightarrow> order_book_level list \<Rightarrow> decimal \<Rightarrow>
   (nat, decimal) dict \<Rightarrow> fill list \<Rightarrow> simulator \<Rightarrow>
   (decimal \<times> (nat, decimal) dict \<times> fill list \<times> simulator) result" where
  "walk_levels cfg i at_time void index [] rem consumed fills s = Inr (rem, consumed, fills, s)"
| "walk_levels cfg i at_time void index (l # ls) rem consumed fills s =
     (if rem \<le> 0 then Inr (rem, consumed, fills, s)
      else if beyond_limit i l then Inr (rem, consumed, fills, s)
      else let tk = min rem (lvl_quantity l)
           in bind_result (emit_fill cfg i (lvl_price l) tk at_time TAKER void s) (\<lambda>(f, s').
              walk_levels cfg i at_time void (Suc index) ls (dsub rem tk)
                (dict_set index (dadd (dict_get_default consumed index 0) tk) consumed) (fills @ [f]) s'))"

text \<open>Debiting the consumed depth from the stored book; nothing consumed leaves it as it is.\<close>

definition commit_book ::
  "order_intent \<Rightarrow> order_book \<Rightarrow> (nat, decimal) dict \<Rightarrow> simulator \<Rightarrow> (order_book \<times> simulator) result" where
  "commit_book i book consumed s =
     (if consumed \<noteq> []
      then bind_result (with_opposite_levels_debited book (oi_side i) (oi_order_side i) consumed)
             (\<lambda>book'. Inr (book', set_state (oi_instrument_id i)
                 ((state_of s (oi_instrument_id i))\<lparr>ms_book := Some book'\<rparr>) s))
      else Inr (book, s))"

text \<open>The remainder of a taker order rests when there is one and its type and time in force allow it.\<close>

definition remainder_rests :: "order_intent \<Rightarrow> decimal \<Rightarrow> bool" where
  "remainder_rests i rem \<longleftrightarrow>
     rem > 0 \<and> oi_order_type i \<noteq> ''market'' \<and> \<not> oi_post_only i
     \<and> oi_time_in_force i \<noteq> IOC \<and> oi_time_in_force i \<noteq> FOK"

definition resting_order :: "order_intent \<Rightarrow> datetime \<Rightarrow> string \<Rightarrow> decimal \<Rightarrow> bool \<Rightarrow> pending_order" where
  "resting_order i at_time void ahead partial =
     \<lparr>pd_intent = i, pd_submitted_at = at_time, pd_effective_at = at_time, pd_venue_order_id = void,
      pd_queue_ahead = ahead, pd_filled_quantity = 0,
      pd_status = (if partial then PARTIALLY_FILLED else OPEN), pd_active = True,
      pd_cancel_effective_at = None, pd_replace_request = None\<rparr>"

definition rest_remainder ::
  "sim_config \<Rightarrow> order_intent \<Rightarrow> datetime \<Rightarrow> string \<Rightarrow> order_book \<Rightarrow> decimal \<Rightarrow> fill list \<Rightarrow> simulator \<Rightarrow>
   (fill list \<times> simulator) result" where
  "rest_remainder cfg i at_time void book rem fills s =
     (if remainder_rests i rem
      then bind_result
             (sc_queue_estimator cfg (oi_instrument_id i) (oi_side i)
                (order_side_value (oi_order_side i)) (oi_price i) rem (Some book))
             (\<lambda>qe.
           bind_result (mk_order_intent (i\<lparr>oi_quantity := rem\<rparr>)) (\<lambda>rest_intent.
             Inr (fills, set_pending (client_order_id_of i void)
               (resting_order rest_intent at_time void (ahead_quantity qe) (fills \<noteq> [])) s)))
      else Inr (fills, s))"

definition fill_marketable ::
  "sim_config \<Rightarrow> order_intent \<Rightarrow> datetime \<Rightarrow> string \<Rightarrow> simulator \<Rightarrow> (fill list \<times> simulator) result" where
  "fill_marketable cfg i at_time void s =
     (case ms_book (state_of s (oi_instrument_id i)) of
        None \<Rightarrow> Inl (AssertionError ''state.book is not None'')
      | Some book \<Rightarrow>
          let opposite = opposite_levels book (oi_side i) (oi_order_side i)
          in if oi_time_in_force i = FOK \<and> marketable_quantity i opposite < oi_quantity i
             then Inr ([], s)
             else
               bind_result (walk_levels cfg i at_time void 0 opposite (oi_quantity i) [] [] s)
                 (\<lambda>(rem, consumed, fills, s1).
               bind_result (commit_book i book consumed s1) (\<lambda>(book', s2).
                 rest_remainder cfg i at_time void book' rem fills s2)))"

section \<open>Trades against resting orders\<close>

text \<open>
  One resting order against the remaining volume of a trade: burn the queue ahead of it, then take.
\<close>

definition burn_queue :: "pending_order \<Rightarrow> decimal \<Rightarrow> pending_order \<times> decimal" where
  "burn_queue p vol =
     (if pd_queue_ahead p > 0
      then let burn = min (pd_queue_ahead p) vol
           in (p\<lparr>pd_queue_ahead := dsub (pd_queue_ahead p) burn\<rparr>, dsub vol burn)
      else (p, vol))"

definition take_passive ::
  "sim_config \<Rightarrow> trade \<Rightarrow> string \<Rightarrow> decimal \<Rightarrow> pending_order \<Rightarrow> decimal \<Rightarrow> fill list \<Rightarrow> simulator \<Rightarrow>
   (decimal \<times> fill list \<times> simulator) result" where
  "take_passive cfg t k price p vol fills s =
     (let tk = min (pd_remaining p) vol
      in if tk \<le> 0 then Inr (vol, fills, s)
         else bind_result
           (emit_fill cfg (pd_intent p) price tk (tr_received_at t) MAKER (pd_venue_order_id p) s)
           (\<lambda>(f, s').
              let filled = dadd (pd_filled_quantity p) tk
              in Inr (dsub vol tk, fills @ [f],
                   set_pending k
                     (p\<lparr>pd_filled_quantity := filled,
                        pd_status := (if filled = oi_quantity (pd_intent p) then FILLED else PARTIALLY_FILLED)\<rparr>) s')))"

definition apply_trade_to ::
  "sim_config \<Rightarrow> trade \<Rightarrow> string \<Rightarrow> decimal \<times> fill list \<times> simulator \<Rightarrow>
   (decimal \<times> fill list \<times> simulator) result" where
  "apply_trade_to cfg t k acc =
     (case acc of (vol, fills, s) \<Rightarrow>
      if vol \<le> 0 then Inr acc
      else case dict_get (sim_pending s) k of
        None \<Rightarrow> Inr acc
      | Some p \<Rightarrow>
          if \<not> is_live (pd_status p) then Inr acc
          else if \<not> pd_active p \<or> instant (tr_received_at t) < instant (pd_effective_at p) then Inr acc
          else case passive_fill_price t (pd_intent p) of
            None \<Rightarrow> Inr acc
          | Some price \<Rightarrow>
              let (p1, vol1) = burn_queue p vol;
                  s1 = set_pending k p1 s
              in if pd_queue_ahead p1 > 0 then Inr (vol1, fills, s1)
                 else take_passive cfg t k price p1 vol1 fills s1)"

text \<open>The resting orders of the traded instrument, oldest submission first.\<close>

definition resting_keys :: "simulator \<Rightarrow> instrument_id \<Rightarrow> string list" where
  "resting_keys s iid =
     map fst (sort_key (\<lambda>kp. instant (pd_submitted_at (snd kp)))
       (filter (\<lambda>kp. oi_instrument_id (pd_intent (snd kp)) = iid) (sim_pending s)))"

definition apply_trade :: "sim_config \<Rightarrow> trade \<Rightarrow> simulator \<Rightarrow> (fill list \<times> simulator) result" where
  "apply_trade cfg t s =
     (let iid = tr_instrument_id t;
          st = (state_of s iid)\<lparr>last_trade_price := Some (tr_price t), last_trade_at := Some (tr_received_at t)\<rparr>;
          s1 = set_state iid st s
      in bind_result
           (fold_result (apply_trade_to cfg t) (resting_keys s1 iid) (tr_quantity t, [], s1))
           (\<lambda>(vol, fills, s2). Inr (fills, s2)))"

section \<open>Cancels and replaces\<close>

definition apply_replace_immediate ::
  "sim_config \<Rightarrow> string \<Rightarrow> decimal option \<Rightarrow> decimal option \<Rightarrow> datetime \<Rightarrow> simulator \<Rightarrow>
   (bool \<times> simulator) result" where
  "apply_replace_immediate cfg k new_price new_quantity now s =
     (case dict_get (sim_pending s) k of
        None \<Rightarrow> Inr (False, s)
      | Some p \<Rightarrow>
          if \<not> is_live (pd_status p) then Inr (False, s)
          else
            let i = pd_intent p;
                price_changed = (case new_price of None \<Rightarrow> False | Some np \<Rightarrow> np \<noteq> oi_price i);
                price = (case new_price of None \<Rightarrow> oi_price i | Some np \<Rightarrow> np);
                qty = (case new_quantity of None \<Rightarrow> oi_quantity i | Some nq \<Rightarrow> nq)
            in if qty \<le> pd_filled_quantity p then Inr (True, set_pending k (p\<lparr>pd_status := CANCELED\<rparr>) s)
               else
                 bind_result
                   (if price_changed \<or> qty > oi_quantity i
                    then let s1 = ensure_state (oi_instrument_id i) s
                         in bind_result
                              (sc_queue_estimator cfg (oi_instrument_id i) (oi_side i)
                                 (order_side_value (oi_order_side i)) price qty
                                 (ms_book (state_of s1 (oi_instrument_id i))))
                              (\<lambda>qe. Inr (p\<lparr>pd_queue_ahead := ahead_quantity qe, pd_submitted_at := now\<rparr>, s1))
                    else Inr (p, s))
                   (\<lambda>(p1, s1).
                 bind_result (mk_order_intent (i\<lparr>oi_price := price, oi_quantity := qty\<rparr>)) (\<lambda>i'.
                   Inr (True, set_pending k (p1\<lparr>pd_intent := i', pd_replace_request := None\<rparr>) s1))))"

definition clear_request :: "string \<Rightarrow> simulator \<Rightarrow> simulator" where
  "clear_request k s =
     (case dict_get (sim_pending s) k of
        None \<Rightarrow> s
      | Some p \<Rightarrow> set_pending k (p\<lparr>pd_replace_request := None\<rparr>) s)"

text \<open>The body of the \<open>_apply_due_controls\<close> loop for one pending order.\<close>

definition due_control :: "sim_config \<Rightarrow> datetime \<Rightarrow> string \<Rightarrow> simulator \<Rightarrow> simulator result" where
  "due_control cfg now k s =
     (case dict_get (sim_pending s) k of
        None \<Rightarrow> Inr s
      | Some p \<Rightarrow>
          if \<not> is_live (pd_status p) then Inr s
          else if (case pd_cancel_effective_at p of None \<Rightarrow> False | Some c \<Rightarrow> instant c \<le> instant now)
          then Inr (set_pending k (p\<lparr>pd_status := CANCELED, pd_cancel_effective_at := None\<rparr>) s)
          else case pd_replace_request p of
            None \<Rightarrow> Inr s
          | Some r \<Rightarrow>
              if instant (pr_effective_at r) \<le> instant now
              then bind_result
                     (apply_replace_immediate cfg k (pr_new_price r) (pr_new_quantity r) (pr_effective_at r) s)
                     (\<lambda>(_, s'). Inr (clear_request k s'))
              else Inr s)"

definition apply_due_controls :: "sim_config \<Rightarrow> datetime \<Rightarrow> simulator \<Rightarrow> simulator result" where
  "apply_due_controls cfg now s = fold_result (due_control cfg now) (map fst (sim_pending s)) s"

section \<open>Activating in-flight orders\<close>

definition in_flight :: "pending_order \<Rightarrow> bool" where
  "in_flight p \<longleftrightarrow> \<not> pd_active p \<and> is_live (pd_status p)"

definition due_ids :: "datetime \<Rightarrow> simulator \<Rightarrow> string list" where
  "due_ids now s =
     map fst (filter (\<lambda>kp. in_flight (snd kp) \<and> instant (pd_effective_at (snd kp)) \<le> instant now) (sim_pending s))"

definition activate_order ::
  "sim_config \<Rightarrow> string \<Rightarrow> fill list \<times> simulator \<Rightarrow> (fill list \<times> simulator) result" where
  "activate_order cfg k acc =
     (case acc of (fills, s) \<Rightarrow>
      case dict_get (sim_pending s) k of
        None \<Rightarrow> Inr acc
      | Some p \<Rightarrow>
          let i = pd_intent p;
              s1 = ensure_state (oi_instrument_id i) s;
              book = ms_book (state_of s1 (oi_instrument_id i))
          in if is_marketable i book
             then bind_result
                    (fill_marketable cfg i (pd_effective_at p) (pd_venue_order_id p)
                       (s1\<lparr>sim_pending := dict_pop k (sim_pending s1)\<rparr>))
                    (\<lambda>(fs, s2). Inr (fills @ fs, s2))
             else if oi_order_type i = ''market'' \<or> oi_time_in_force i = IOC \<or> oi_time_in_force i = FOK
             then Inr (fills, set_pending k (p\<lparr>pd_status := CANCELED\<rparr>) s1)
             else bind_result
                    (sc_queue_estimator cfg (oi_instrument_id i) (oi_side i) (order_side_value (oi_order_side i))
                       (oi_price i) (pd_remaining p) book)
                    (\<lambda>qe. Inr (fills, set_pending k
                       (p\<lparr>pd_queue_ahead := ahead_quantity qe, pd_submitted_at := pd_effective_at p, pd_active := True\<rparr>) s1)))"

definition activate_due_orders :: "sim_config \<Rightarrow> datetime \<Rightarrow> simulator \<Rightarrow> (fill list \<times> simulator) result" where
  "activate_due_orders cfg now s = fold_result (activate_order cfg) (due_ids now s) ([], s)"

section \<open>Market data\<close>

definition cancel_all_for :: "instrument_id \<Rightarrow> simulator \<Rightarrow> simulator" where
  "cancel_all_for iid s =
     s\<lparr>sim_pending := dict_map
         (\<lambda>k p. if oi_instrument_id (pd_intent p) = iid \<and> is_live (pd_status p)
                then p\<lparr>pd_status := CANCELED\<rparr> else p) (sim_pending s)\<rparr>"

text \<open>Time advances: due controls first, then due activations.\<close>

definition advance_time :: "sim_config \<Rightarrow> datetime \<Rightarrow> simulator \<Rightarrow> (fill list \<times> simulator) result" where
  "advance_time cfg now s = bind_result (apply_due_controls cfg now s) (activate_due_orders cfg now)"

definition set_book :: "order_book \<Rightarrow> simulator \<Rightarrow> simulator" where
  "set_book b s =
     set_state (bk_instrument_id b) ((state_of s (bk_instrument_id b))\<lparr>ms_book := Some b\<rparr>) s"

fun sim_on_event :: "sim_config \<Rightarrow> normalized_event \<Rightarrow> simulator \<Rightarrow> (fill list \<times> simulator) result" where
  "sim_on_event cfg (OrderBookEvent eid b prov) s =
     (let iid = bk_instrument_id b;
          s1 = ensure_state iid s
      in bind_result (apply_due_controls cfg (bk_received_at b) s1) (\<lambda>s2.
         if ms_book (state_of s2 iid) = None
         then activate_due_orders cfg (bk_received_at b) (set_book b s2)
         else bind_result (activate_due_orders cfg (bk_received_at b) s2) (\<lambda>(fills, s3).
              Inr (fills, set_book b s3))))"
| "sim_on_event cfg (QuoteEvent eid q prov) s = advance_time cfg (q_received_at q) s"
| "sim_on_event cfg (LifecycleEvent eid lc prov) s =
     (let iid = lc_instrument_id lc;
          s1 = ensure_state iid s
      in if lc_kind lc = METADATA_UPDATED then Inr ([], s1)
         else let s2 = set_state iid ((state_of s1 iid)\<lparr>ms_status := lc_kind lc\<rparr>) s1
              in Inr ([], if lc_kind lc \<in> {CLOSED, DETERMINED, FINALIZED} then cancel_all_for iid s2 else s2))"
| "sim_on_event cfg (TradeEvent eid t prov) s =
     bind_result (advance_time cfg (tr_received_at t) s) (\<lambda>(fills, s1).
     bind_result (apply_trade cfg t s1) (\<lambda>(fills', s2). Inr (fills @ fills', s2)))"
| "sim_on_event cfg _ s = Inr ([], s)"

section \<open>Intent processing\<close>

definition blocked_kind :: "market_lifecycle_kind \<Rightarrow> bool" where
  "blocked_kind k \<longleftrightarrow> k \<in> {PAUSED, CLOSED, DETERMINED, DISPUTED, FINALIZED}"

definition sim_submit :: "sim_config \<Rightarrow> order_intent \<Rightarrow> datetime \<Rightarrow> simulator \<Rightarrow> (fill list \<times> simulator) result" where
  "sim_submit cfg i now s =
     (let s1 = ensure_state (oi_instrument_id i) s;
          st = state_of s1 (oi_instrument_id i)
      in if blocked_kind (ms_status st) then Inl (ValueError ''market is not open'')
         else
           let (latency, s2) = draw_latency cfg ''submit'' s1;
               effective_at = dt_plus now latency;
               (void, s3) = next_venue_order_id s2;
               coid = client_order_id_of i void;
               new_pending = (\<lambda>q act.
                 \<lparr>pd_intent = i, pd_submitted_at = now, pd_effective_at = effective_at, pd_venue_order_id = void,
                  pd_queue_ahead = q, pd_filled_quantity = 0, pd_status = OPEN, pd_active = act,
                  pd_cancel_effective_at = None, pd_replace_request = None\<rparr>)
           in if instant effective_at > instant now
              then Inr ([], set_pending coid (new_pending 0 False) s3)
              else if is_marketable i (ms_book st)
              then fill_marketable cfg i effective_at void s3
              else bind_result
                     (sc_queue_estimator cfg (oi_instrument_id i) (oi_side i) (order_side_value (oi_order_side i))
                        (oi_price i) (oi_quantity i) (ms_book st))
                     (\<lambda>qe. Inr ([], set_pending coid (new_pending (ahead_quantity qe) True) s3)))"

definition sim_cancel :: "sim_config \<Rightarrow> string \<Rightarrow> datetime option \<Rightarrow> simulator \<Rightarrow> bool \<times> simulator" where
  "sim_cancel cfg k now s =
     (case dict_get (sim_pending s) k of
        None \<Rightarrow> (False, s)
      | Some p \<Rightarrow>
          if \<not> is_live (pd_status p) then (False, s)
          else case now of
            None \<Rightarrow> (True, set_pending k (p\<lparr>pd_status := CANCELED\<rparr>) s)
          | Some t \<Rightarrow>
              let (latency, s1) = draw_latency cfg ''cancel'' s;
                  effective_at = dt_plus t latency
              in if instant effective_at > instant t
                 then (True, set_pending k (p\<lparr>pd_cancel_effective_at := Some effective_at\<rparr>) s1)
                 else (True, set_pending k (p\<lparr>pd_status := CANCELED\<rparr>) s1))"

definition sim_replace ::
  "sim_config \<Rightarrow> string \<Rightarrow> decimal option \<Rightarrow> decimal option \<Rightarrow> datetime \<Rightarrow> simulator \<Rightarrow> (bool \<times> simulator) result" where
  "sim_replace cfg k new_price new_quantity now s =
     (case dict_get (sim_pending s) k of
        None \<Rightarrow> Inr (False, s)
      | Some p \<Rightarrow>
          if \<not> is_live (pd_status p) then Inr (False, s)
          else
            let (latency, s1) = draw_latency cfg ''replace'' s;
                effective_at = dt_plus now latency
            in if instant effective_at > instant now
               then Inr (True, set_pending k
                      (p\<lparr>pd_replace_request := Some \<lparr>pr_effective_at = effective_at, pr_new_price = new_price,
                                                      pr_new_quantity = new_quantity\<rparr>\<rparr>) s1)
               else apply_replace_immediate cfg k new_price new_quantity effective_at s1)"

definition submit_envelope :: "sim_config \<Rightarrow> intent_envelope \<Rightarrow> simulator \<Rightarrow> (fill list \<times> simulator) result" where
  "submit_envelope cfg e s =
     (case env_decision e of
        PlaceOrder d \<Rightarrow>
          bind_result (intent_to_order e) (\<lambda>oi.
            case oi of None \<Rightarrow> Inr ([], s) | Some i \<Rightarrow> sim_submit cfg i (emitted_at e) s)
      | CancelOrder d \<Rightarrow> Inr ([], snd (sim_cancel cfg (co_client_order_id d) (Some (emitted_at e)) s))
      | ReplaceOrder d \<Rightarrow>
          bind_result (sim_replace cfg (ro_client_order_id d) (ro_new_price d) (ro_new_quantity d) (emitted_at e) s)
            (\<lambda>(_, s'). Inr ([], s'))
      | _ \<Rightarrow> Inr ([], s))"

definition sim_open_orders :: "simulator \<Rightarrow> pending_order list" where
  "sim_open_orders s = filter (\<lambda>p. is_live (pd_status p)) (map snd (sim_pending s))"

section \<open>Draining the in-flight queue\<close>

text \<open>The times \<open>flush_inflight\<close> collects: activations, then cancels, then replaces.\<close>

definition due_times :: "simulator \<Rightarrow> int list" where
  "due_times s =
     map (\<lambda>p. instant (pd_effective_at p)) (filter in_flight (map snd (sim_pending s)))
     @ List.map_filter
         (\<lambda>p. if is_live (pd_status p) then map_option instant (pd_cancel_effective_at p) else None)
         (map snd (sim_pending s))
     @ List.map_filter
         (\<lambda>p. if is_live (pd_status p) then map_option (\<lambda>r. instant (pr_effective_at r)) (pd_replace_request p) else None)
         (map snd (sim_pending s))"

text \<open>
  One turn of the \<open>while True\<close> loop at the earliest due time; the loop itself counts its turns
  down from a fuel and answers \<open>None\<close> if they run out. \<open>flush_inflight\<close> starts with one turn more
  than there are outstanding activations and requests, which is always enough.
\<close>

definition flush_step :: "sim_config \<Rightarrow> simulator \<Rightarrow> (fill list \<times> simulator) result" where
  "flush_step cfg s = advance_time cfg (utc (Min (set (due_times s)))) s"

fun flush_loop :: "sim_config \<Rightarrow> nat \<Rightarrow> fill list \<Rightarrow> simulator \<Rightarrow> (fill list \<times> simulator) result option" where
  "flush_loop cfg 0 fills s = None"
| "flush_loop cfg (Suc n) fills s =
     (if due_times s = [] then Some (Inr (fills, s))
      else case flush_step cfg s of
             Inl e \<Rightarrow> Some (Inl e)
           | Inr (fs, s') \<Rightarrow> flush_loop cfg n (fills @ fs) s')"

definition outstanding :: "pending_order \<Rightarrow> nat" where
  "outstanding p =
     (if is_live (pd_status p)
      then (if pd_active p then 0 else 1) + (if pd_cancel_effective_at p = None then 0 else 1)
           + (if pd_replace_request p = None then 0 else 1)
      else 0)"

definition inflight_weight :: "simulator \<Rightarrow> nat" where
  "inflight_weight s = sum_list (map (\<lambda>kp. outstanding (snd kp)) (sim_pending s))"

definition flush_inflight :: "sim_config \<Rightarrow> simulator \<Rightarrow> (fill list \<times> simulator) result option" where
  "flush_inflight cfg s = flush_loop cfg (Suc (inflight_weight s)) [] s"

section \<open>Runs\<close>

text \<open>The calls a sleeve makes on its simulator, in any order.\<close>

datatype sim_call =
    CallEvent normalized_event
  | CallSubmit order_intent datetime
  | CallCancel string "datetime option"
  | CallReplace string "decimal option" "decimal option" datetime
  | CallEnvelope intent_envelope

fun run_call :: "sim_config \<Rightarrow> sim_call \<Rightarrow> simulator \<Rightarrow> (fill list \<times> simulator) result" where
  "run_call cfg (CallEvent e) s = sim_on_event cfg e s"
| "run_call cfg (CallSubmit i now) s = sim_submit cfg i now s"
| "run_call cfg (CallCancel k now) s = Inr ([], snd (sim_cancel cfg k now s))"
| "run_call cfg (CallReplace k np nq now) s =
     bind_result (sim_replace cfg k np nq now s) (\<lambda>(_, s'). Inr ([], s'))"
| "run_call cfg (CallEnvelope e) s = submit_envelope cfg e s"

inductive sim_step :: "sim_config \<Rightarrow> simulator \<Rightarrow> sim_call \<Rightarrow> fill list \<Rightarrow> simulator \<Rightarrow> bool" for cfg where
  sim_stepI: "run_call cfg c s = Inr (fs, s') \<Longrightarrow> sim_step cfg s c fs s'"

inductive_simps sim_step_iff: "sim_step cfg s c fs s'"

text \<open>A run: the calls made so far, the fills they returned, and the state reached.\<close>

inductive sim_run :: "sim_config \<Rightarrow> simulator \<Rightarrow> sim_call list \<Rightarrow> fill list \<Rightarrow> simulator \<Rightarrow> bool" for cfg s0 where
  run_start: "sim_run cfg s0 [] [] s0"
| run_step: "sim_run cfg s0 cs fs s \<Longrightarrow> sim_step cfg s c gs s' \<Longrightarrow> sim_run cfg s0 (cs @ [c]) (fs @ gs) s'"

end
