(* ===== verification/SimulatorFrame.thy ===== *)
theory SimulatorFrame
  imports Simulator
begin

text \<open>
  Frame lemmas of the simulator: what each helper leaves alone, in the form the invariant proofs
  use; and the termination of \<open>flush_inflight\<close>.
\<close>

section \<open>Elementary updates\<close>

lemma set_pending_simps [simp]:
  "sim_pending (set_pending k p s) = dict_set k p (sim_pending s)"
  "sim_states (set_pending k p s) = sim_states s"
  "sim_fill_log (set_pending k p s) = sim_fill_log s"
  "sim_fill_seq (set_pending k p s) = sim_fill_seq s"
  "state_of (set_pending k p s) iid = state_of s iid"
  by (simp_all add: set_pending_def state_of_def)

lemma set_state_simps [simp]:
  "sim_pending (set_state iid st s) = sim_pending s"
  "sim_states (set_state iid st s) = dict_set iid st (sim_states s)"
  "sim_fill_log (set_state iid st s) = sim_fill_log s"
  "sim_fill_seq (set_state iid st s) = sim_fill_seq s"
  "state_of (set_state iid st s) jid = (if jid = iid then st else state_of s jid)"
  by (simp_all add: set_state_def state_of_def)

lemma ensure_state_simps [simp]:
  "sim_pending (ensure_state iid s) = sim_pending s"
  "sim_fill_log (ensure_state iid s) = sim_fill_log s"
  "sim_fill_seq (ensure_state iid s) = sim_fill_seq s"
  "state_of (ensure_state iid s) jid = state_of s jid"
  by (auto simp: ensure_state_def set_state_def state_of_def split: option.splits)

lemma state_of_update_pending [simp]: "state_of (s\<lparr>sim_pending := d\<rparr>) iid = state_of s iid"
  by (simp add: state_of_def)

lemma clear_request_simps [simp]:
  "sim_states (clear_request k s) = sim_states s"
  "sim_fill_log (clear_request k s) = sim_fill_log s"
  "state_of (clear_request k s) iid = state_of s iid"
  by (simp_all add: clear_request_def split: option.splits)

lemma next_fill_id_simps [simp]:
  "sim_pending (snd (next_fill_id s)) = sim_pending s"
  "sim_states (snd (next_fill_id s)) = sim_states s"
  "sim_fill_log (snd (next_fill_id s)) = sim_fill_log s"
  by (simp_all add: next_fill_id_def Let_def)

lemma emit_fill_frame:
  assumes "emit_fill cfg i price qty t liq void s = Inr (f, s')"
  shows "sim_pending s' = sim_pending s" and "sim_states s' = sim_states s"
    and "sim_fill_log s' = sim_fill_log s @ [f]"
    and "f_price f = price" and "f_quantity f = qty" and "f_liquidity f = liq"
    and "f_instrument_id f = oi_instrument_id i" and "f_outcome_side f = oi_side i"
    and "f_order_side f = oi_order_side i" and "filled_at f = t" and "f_venue_order_id f = void"
    and "fill_check f = None"
  using assms
  by (auto simp: emit_fill_def bind_result_Inr_iff mk_fill_Inr_iff next_fill_id_def Let_def fill_check_iff)

lemma emit_fill_state_of [simp]:
  "emit_fill cfg i price qty t liq void s = Inr (f, s') \<Longrightarrow> state_of s' iid = state_of s iid"
  by (simp add: state_of_def emit_fill_frame(2))

lemma walk_levels_frame:
  assumes "walk_levels cfg i t void n ls rem consumed fills s = Inr (rem', consumed', fills', s')"
  shows "sim_pending s' = sim_pending s \<and> sim_states s' = sim_states s \<and>
         (\<exists>gs. fills' = fills @ gs \<and> sim_fill_log s' = sim_fill_log s @ gs)"
  using assms
proof (induction ls arbitrary: n rem consumed fills s)
  case (Cons l ls)
  show ?case
  proof (cases "rem \<le> 0 \<or> beyond_limit i l")
    case True
    with Cons.prems show ?thesis by (auto split: if_splits)
  next
    case False
    then obtain f s1 where
      e: "emit_fill cfg i (lvl_price l) (min rem (lvl_quantity l)) t TAKER void s = Inr (f, s1)"
      and w: "walk_levels cfg i t void (Suc n) ls (dsub rem (min rem (lvl_quantity l)))
         (dict_set n (dadd (dict_get_default consumed n 0) (min rem (lvl_quantity l))) consumed)
         (fills @ [f]) s1 = Inr (rem', consumed', fills', s')"
      using Cons.prems by (auto simp: bind_result_Inr_iff Let_def)
    from Cons.IH [OF w] emit_fill_frame(1-3) [OF e] show ?thesis by auto
  qed
qed auto

text \<open>What \<open>fill_marketable\<close> does to the pending orders: nothing, or one new active order.\<close>

definition fresh_rest :: "pending_order \<Rightarrow> bool" where
  "fresh_rest p \<longleftrightarrow> pd_active p \<and> is_live (pd_status p) \<and> pd_cancel_effective_at p = None
     \<and> pd_replace_request p = None \<and> pd_filled_quantity p = 0"

lemma commit_book_frame:
  assumes "commit_book i book consumed s = Inr (book', s')"
  shows "sim_pending s' = sim_pending s" and "sim_fill_log s' = sim_fill_log s"
    and "iid \<noteq> oi_instrument_id i \<Longrightarrow> state_of s' iid = state_of s iid"
    and "ms_status (state_of s' iid) = ms_status (state_of s iid)"
  using assms by (auto simp: commit_book_def bind_result_Inr_iff split: if_splits)

lemma fresh_resting_order [simp]: "fresh_rest (resting_order i t void q partial)"
  by (simp add: fresh_rest_def resting_order_def is_live_def)

lemma resting_order_simps [simp]:
  "pd_intent (resting_order i t void q partial) = i"
  "pd_queue_ahead (resting_order i t void q partial) = q"
  "pd_filled_quantity (resting_order i t void q partial) = 0"
  by (simp_all add: resting_order_def)

lemma rest_remainder_cases:
  assumes "rest_remainder cfg i t void book rem fills s = Inr (fs, s')"
  shows "fs = fills"
    and "(\<not> remainder_rests i rem \<and> s' = s) \<or>
      (remainder_rests i rem \<and> (\<exists>qe j. sc_queue_estimator cfg (oi_instrument_id i) (oi_side i)
           (order_side_value (oi_order_side i)) (oi_price i) rem (Some book) = Inr qe \<and>
         mk_order_intent (i\<lparr>oi_quantity := rem\<rparr>) = Inr j \<and>
         s' = set_pending (client_order_id_of i void)
                (resting_order j t void (ahead_quantity qe) (fills \<noteq> [])) s))"
  using assms by (auto simp: rest_remainder_def bind_result_Inr_iff split: if_splits)

text \<open>The two ways \<open>fill_marketable\<close> returns: a killed FOK order, or a walk of the book.\<close>

lemma fill_marketable_cases:
  assumes "fill_marketable cfg i t void s = Inr (fs, s')"
  obtains (killed) book where "ms_book (state_of s (oi_instrument_id i)) = Some book"
      and "oi_time_in_force i = FOK"
      and "marketable_quantity i (opposite_levels book (oi_side i) (oi_order_side i)) < oi_quantity i"
      and "fs = []" and "s' = s"
  | (walked) book rem consumed s1 book' s2
    where "ms_book (state_of s (oi_instrument_id i)) = Some book"
      and "oi_time_in_force i = FOK \<Longrightarrow>
        oi_quantity i \<le> marketable_quantity i (opposite_levels book (oi_side i) (oi_order_side i))"
      and "walk_levels cfg i t void 0 (opposite_levels book (oi_side i) (oi_order_side i))
             (oi_quantity i) [] [] s = Inr (rem, consumed, fs, s1)"
      and "commit_book i book consumed s1 = Inr (book', s2)"
      and "rest_remainder cfg i t void book' rem fs s2 = Inr (fs, s')"
proof -
  from assms obtain book where b: "ms_book (state_of s (oi_instrument_id i)) = Some book"
    by (auto simp: fill_marketable_def split: option.splits)
  show thesis
  proof (cases "oi_time_in_force i = FOK \<and>
      marketable_quantity i (opposite_levels book (oi_side i) (oi_order_side i)) < oi_quantity i")
    case True
    with assms b show thesis by (intro killed) (auto simp: fill_marketable_def)
  next
    case False
    with assms b obtain rem consumed fills s1 book' s2 where
      w: "walk_levels cfg i t void 0 (opposite_levels book (oi_side i) (oi_order_side i))
             (oi_quantity i) [] [] s = Inr (rem, consumed, fills, s1)"
      and c: "commit_book i book consumed s1 = Inr (book', s2)"
      and r: "rest_remainder cfg i t void book' rem fills s2 = Inr (fs, s')"
      unfolding fill_marketable_def Let_def by (auto simp: bind_result_Inr_iff)
    from rest_remainder_cases(1) [OF r] w r b c False show thesis by (intro walked) auto
  qed
qed

lemma fill_marketable_pending:
  assumes "fill_marketable cfg i t void s = Inr (fs, s')"
  shows "sim_pending s' = sim_pending s \<or>
      (\<exists>p. fresh_rest p \<and> oi_instrument_id (pd_intent p) = oi_instrument_id i \<and>
         sim_pending s' = dict_set (client_order_id_of i void) p (sim_pending s))"
  using assms
proof (cases rule: fill_marketable_cases)
  case (walked book rem consumed s1 book' s2)
  have s2: "sim_pending s2 = sim_pending s"
    using walk_levels_frame [OF walked(3)] commit_book_frame(1) [OF walked(4)] by simp
  consider "s' = s2"
    | q partial j where "mk_order_intent (i\<lparr>oi_quantity := rem\<rparr>) = Inr j"
        and "s' = set_pending (client_order_id_of i void) (resting_order j t void q partial) s2"
    using rest_remainder_cases(2) [OF walked(5)] by blast
  then show ?thesis
  proof cases
    case 1
    with s2 show ?thesis by simp
  next
    case 2
    then have "oi_instrument_id j = oi_instrument_id i" by (simp add: mk_order_intent_Inr_iff)
    with 2 s2 show ?thesis
      by (intro disjI2 exI [of _ "resting_order j t void q partial"]) simp
  qed
qed simp

lemma fill_marketable_log:
  assumes "fill_marketable cfg i t void s = Inr (fs, s')"
  shows "sim_fill_log s' = sim_fill_log s @ fs"
  using assms
proof (cases rule: fill_marketable_cases)
  case (walked book rem consumed s1 book' s2)
  have "sim_fill_log s2 = sim_fill_log s @ fs"
    using walk_levels_frame [OF walked(3)] commit_book_frame(2) [OF walked(4)] by simp
  with rest_remainder_cases(2) [OF walked(5)] show ?thesis by auto
qed simp

lemma fill_marketable_status:
  assumes "fill_marketable cfg i t void s = Inr (fs, s')"
  shows "ms_status (state_of s' iid) = ms_status (state_of s iid)"
  using assms
proof (cases rule: fill_marketable_cases)
  case (walked book rem consumed s1 book' s2)
  have "ms_status (state_of s2 iid) = ms_status (state_of s iid)"
    using walk_levels_frame [OF walked(3)] commit_book_frame(4) [OF walked(4)]
    by (simp add: state_of_def)
  with rest_remainder_cases(2) [OF walked(5)] show ?thesis by auto
qed simp

section \<open>Draining the in-flight queue terminates\<close>

lemma sum_list_dict_set:
  fixes f :: "'v \<Rightarrow> nat"
  assumes "wf_dict d"
  shows "sum_list (map (\<lambda>kv. f (snd kv)) (dict_set k v d)) +
      (case dict_get d k of None \<Rightarrow> 0 | Some w \<Rightarrow> f w)
    = sum_list (map (\<lambda>kv. f (snd kv)) d) + f v"
  using assms by (induction d) (auto simp: wf_dict_def split: option.splits)

lemma sum_list_dict_pop:
  fixes f :: "'v \<Rightarrow> nat"
  assumes "wf_dict d"
  shows "sum_list (map (\<lambda>kv. f (snd kv)) (dict_pop k d)) +
      (case dict_get d k of None \<Rightarrow> 0 | Some w \<Rightarrow> f w)
    = sum_list (map (\<lambda>kv. f (snd kv)) d)"
  using assms
proof (induction d)
  case (Cons kv d)
  then have "k = fst kv \<Longrightarrow> dict_get d k = None" by (auto simp: wf_dict_def map_of_eq_None_iff)
  with Cons show ?case by (auto simp: wf_dict_def dict_pop_def)
qed (simp add: dict_pop_def)

lemma weight_set_pending:
  assumes "wf_dict (sim_pending s)" and "dict_get (sim_pending s) k = Some p"
  shows "inflight_weight (set_pending k p' s) + outstanding p = inflight_weight s + outstanding p'"
  using sum_list_dict_set [OF assms(1), of outstanding k p'] assms(2)
  by (simp add: inflight_weight_def)

lemma weight_cong: "sim_pending s' = sim_pending s \<Longrightarrow> inflight_weight s' = inflight_weight s"
  by (simp add: inflight_weight_def)

definition control_due :: "datetime \<Rightarrow> pending_order \<Rightarrow> bool" where
  "control_due now p \<longleftrightarrow> is_live (pd_status p) \<and>
     ((\<exists>c. pd_cancel_effective_at p = Some c \<and> instant c \<le> instant now) \<or>
      (\<exists>r. pd_replace_request p = Some r \<and> instant (pr_effective_at r) \<le> instant now))"

text \<open>What a replacement may change of the order it is for.\<close>

definition replaced :: "pending_order \<Rightarrow> pending_order \<Rightarrow> bool" where
  "replaced p q \<longleftrightarrow> pd_active q = pd_active p \<and> pd_cancel_effective_at q = pd_cancel_effective_at p \<and>
     (pd_status q = pd_status p \<or> pd_status q = CANCELED) \<and>
     oi_instrument_id (pd_intent q) = oi_instrument_id (pd_intent p) \<and>
     pd_filled_quantity q = pd_filled_quantity p"

lemma replaced_refl [simp]: "replaced p p"
  by (simp add: replaced_def)

lemma apply_replace_frame:
  assumes "apply_replace_immediate cfg k np nq now s = Inr (b, s')"
  shows "sim_fill_log s' = sim_fill_log s" and "state_of s' iid = state_of s iid"
    and "dict_get (sim_pending s) k = None \<Longrightarrow> sim_pending s' = sim_pending s"
  using assms
  by (auto simp: apply_replace_immediate_def Let_def bind_result_Inr_iff split: option.splits if_splits)

lemma apply_replace_pending:
  assumes "apply_replace_immediate cfg k np nq now s = Inr (b, s')" and "dict_get (sim_pending s) k = Some p"
  obtains q where "replaced p q" and "sim_pending s' = dict_set k q (sim_pending s)"
proof (rule that [of "the (dict_get (sim_pending s') k)"])
  show "replaced p (the (dict_get (sim_pending s') k))"
    using assms unfolding apply_replace_immediate_def Let_def
    by (auto simp: bind_result_Inr_iff replaced_def mk_order_intent_Inr_iff split: if_splits)
  show "sim_pending s' = dict_set k (the (dict_get (sim_pending s') k)) (sim_pending s)"
    using assms unfolding apply_replace_immediate_def Let_def
    by (auto simp: bind_result_Inr_iff update_triv split: if_splits)
qed

lemma outstanding_pos: "control_due now p \<Longrightarrow> 0 < outstanding p"
  by (auto simp: control_due_def outstanding_def)

text \<open>
  Handling one pending order either leaves the orders as they are, and then nothing was due for it,
  or strictly reduces the outstanding work.
\<close>

lemma due_control_progress:
  assumes "due_control cfg now k s = Inr s'" and "wf_dict (sim_pending s)"
  shows "wf_dict (sim_pending s') \<and>
    (sim_pending s' = sim_pending s \<and> (\<forall>p. dict_get (sim_pending s) k = Some p \<longrightarrow> \<not> control_due now p)
     \<or> inflight_weight s' < inflight_weight s)"
proof (cases "dict_get (sim_pending s) k")
  case None
  with assms show ?thesis by (simp add: due_control_def)
next
  case (Some p)
  show ?thesis
  proof (cases "control_due now p")
    case False
    with assms Some have "s' = s"
      by (auto simp: due_control_def control_due_def split: if_splits option.splits)
    with False Some assms(2) show ?thesis by simp
  next
    case due: True
    have "\<exists>p'. sim_pending s' = dict_set k p' (sim_pending s) \<and> outstanding p' < outstanding p"
    proof (cases "\<exists>c. pd_cancel_effective_at p = Some c \<and> instant c \<le> instant now")
      case True
      have "s' = set_pending k (p\<lparr>pd_status := CANCELED, pd_cancel_effective_at := None\<rparr>) s"
        using True assms(1) Some due by (auto simp: due_control_def control_due_def)
      moreover have "outstanding (p\<lparr>pd_status := CANCELED, pd_cancel_effective_at := None\<rparr>) < outstanding p"
        using outstanding_pos [OF due] by (simp add: outstanding_def is_live_def)
      ultimately show ?thesis by (auto simp del: less_nat_zero_code)
    next
      case False
      with due obtain r where r: "pd_replace_request p = Some r" "instant (pr_effective_at r) \<le> instant now"
        by (auto simp: control_due_def)
      from False due assms(1) Some r obtain b s1 where
        a: "apply_replace_immediate cfg k (pr_new_price r) (pr_new_quantity r) (pr_effective_at r) s = Inr (b, s1)"
        and s': "s' = clear_request k s1"
        by (auto simp: due_control_def control_due_def bind_result_Inr_iff split: option.splits if_splits)
      obtain q where q: "replaced p q" and eq: "sim_pending s1 = dict_set k q (sim_pending s)"
        by (rule apply_replace_pending [OF a Some])
      have "sim_pending s' = dict_set k (q\<lparr>pd_replace_request := None\<rparr>) (sim_pending s)"
        using s' eq by (simp add: clear_request_def)
      moreover have "outstanding (q\<lparr>pd_replace_request := None\<rparr>) < outstanding p"
        using q r(1) due by (auto simp: replaced_def outstanding_def control_due_def is_live_def)
      ultimately show ?thesis by blast
    qed
    then obtain p' where p': "sim_pending s' = dict_set k p' (sim_pending s)" "outstanding p' < outstanding p"
      by blast
    then have "inflight_weight s' = inflight_weight (set_pending k p' s)" by (intro weight_cong) simp
    with p' weight_set_pending [OF assms(2) Some, of p'] assms(2) show ?thesis by simp
  qed
qed

lemma apply_due_controls_progress:
  assumes "apply_due_controls cfg now s = Inr s'" and "wf_dict (sim_pending s)"
  shows "wf_dict (sim_pending s')"
    and "sim_pending s' = sim_pending s \<and> (\<forall>p \<in> snd ` set (sim_pending s). \<not> control_due now p)
      \<or> inflight_weight s' < inflight_weight s"
proof -
  have fold: "wf_dict (sim_pending t') \<and>
      (sim_pending t' = sim_pending t \<and>
         (\<forall>k \<in> set ks. \<forall>p. dict_get (sim_pending t) k = Some p \<longrightarrow> \<not> control_due now p)
       \<or> inflight_weight t' < inflight_weight t)"
    if "fold_result (due_control cfg now) ks t = Inr t'" and "wf_dict (sim_pending t)" for ks t t'
    using that
  proof (induction ks arbitrary: t)
    case (Cons k ks)
    then obtain u where u: "due_control cfg now k t = Inr u" "fold_result (due_control cfg now) ks u = Inr t'"
      by (auto simp: bind_result_Inr_iff)
    note d = due_control_progress [OF u(1) Cons.prems(2)]
    note ih = Cons.IH [OF u(2) conjunct1 [OF d]]
    show ?case using d ih weight_cong [of u t] weight_cong [of t' u] by (auto simp: less_le_trans)
  qed simp
  note f = fold [OF assms(1) [unfolded apply_due_controls_def] assms(2)]
  show "wf_dict (sim_pending s')" using f by simp
  show "sim_pending s' = sim_pending s \<and> (\<forall>p \<in> snd ` set (sim_pending s). \<not> control_due now p)
      \<or> inflight_weight s' < inflight_weight s"
    using f assms(2) by (fastforce simp: wf_dict_def)
qed

lemma fill_marketable_weight:
  assumes "fill_marketable cfg i t void s = Inr (fs, s')" and "wf_dict (sim_pending s)"
  shows "wf_dict (sim_pending s')" and "inflight_weight s' \<le> inflight_weight s"
proof -
  from fill_marketable_pending [OF assms(1)] assms(2) show "wf_dict (sim_pending s')" by auto
  have o: "outstanding p = 0" if "fresh_rest p" for p
    using that by (simp add: fresh_rest_def outstanding_def)
  from fill_marketable_pending [OF assms(1)] show "inflight_weight s' \<le> inflight_weight s"
  proof (elim disjE exE conjE)
    fix p assume "fresh_rest p" and "sim_pending s' = dict_set (client_order_id_of i void) p (sim_pending s)"
    with sum_list_dict_set [OF assms(2), of outstanding "client_order_id_of i void" p] o
    show ?thesis by (simp add: inflight_weight_def)
  qed (simp add: inflight_weight_def)
qed

lemma activate_order_weight:
  assumes "activate_order cfg k (fs, s) = Inr (fs', s')" and "wf_dict (sim_pending s)"
  shows "wf_dict (sim_pending s')" and "inflight_weight s' \<le> inflight_weight s"
    and "dict_get (sim_pending s) k = Some p \<Longrightarrow> in_flight p \<Longrightarrow> inflight_weight s' < inflight_weight s"
proof -
  have main: "wf_dict (sim_pending s') \<and> inflight_weight s' \<le> inflight_weight s \<and>
      (\<forall>p. dict_get (sim_pending s) k = Some p \<longrightarrow> in_flight p \<longrightarrow> inflight_weight s' < inflight_weight s)"
  proof (cases "dict_get (sim_pending s) k")
    case None
    with assms show ?thesis by (simp add: activate_order_def)
  next
    case (Some p)
    let ?i = "pd_intent p"
    let ?s1 = "ensure_state (oi_instrument_id ?i) s"
    show ?thesis
    proof (cases "is_marketable ?i (ms_book (state_of ?s1 (oi_instrument_id ?i)))")
      case True
      let ?s2 = "?s1\<lparr>sim_pending := dict_pop k (sim_pending ?s1)\<rparr>"
      from True assms(1) Some obtain gs where
        f: "fill_marketable cfg ?i (pd_effective_at p) (pd_venue_order_id p) ?s2 = Inr (gs, s')"
        by (auto simp: activate_order_def Let_def bind_result_Inr_iff)
      have wf: "wf_dict (sim_pending ?s2)" using assms(2) by simp
      have "inflight_weight ?s2 + outstanding p = inflight_weight s"
        using sum_list_dict_pop [OF assms(2), of outstanding k] Some by (simp add: inflight_weight_def)
      with fill_marketable_weight [OF f wf] Some show ?thesis
        by (auto simp: in_flight_def outstanding_def)
    next
      case False
      then obtain p' where s': "s' = set_pending k p' ?s1" and p': "outstanding p' \<le> outstanding p"
          "in_flight p \<longrightarrow> outstanding p' < outstanding p"
        using assms(1) Some
        by (auto simp: activate_order_def Let_def bind_result_Inr_iff outstanding_def in_flight_def is_live_def
            split: if_splits)
      have "inflight_weight s' = inflight_weight (set_pending k p' s)" using s' by (intro weight_cong) simp
      with weight_set_pending [OF assms(2) Some, of p'] p' s' Some assms(2) show ?thesis by auto
    qed
  qed
  then show "wf_dict (sim_pending s')" and "inflight_weight s' \<le> inflight_weight s"
    and "dict_get (sim_pending s) k = Some p \<Longrightarrow> in_flight p \<Longrightarrow> inflight_weight s' < inflight_weight s"
    by auto
qed

lemma activate_due_orders_weight:
  assumes "activate_due_orders cfg now s = Inr (fs, s')" and "wf_dict (sim_pending s)"
  shows "wf_dict (sim_pending s')" and "inflight_weight s' \<le> inflight_weight s"
    and "due_ids now s \<noteq> [] \<Longrightarrow> inflight_weight s' < inflight_weight s"
proof -
  have fold: "wf_dict (sim_pending t') \<and> inflight_weight t' \<le> inflight_weight t"
    if "fold_result (activate_order cfg) ks (gs, t) = Inr (gs', t')" and "wf_dict (sim_pending t)"
    for ks gs t gs' t'
    using that
  proof (induction ks arbitrary: gs t)
    case (Cons k ks)
    then obtain hs u where u: "activate_order cfg k (gs, t) = Inr (hs, u)"
        "fold_result (activate_order cfg) ks (hs, u) = Inr (gs', t')"
      by (auto simp: bind_result_Inr_iff)
    note a = activate_order_weight(1,2) [OF u(1) Cons.prems(2)]
    from Cons.IH [OF u(2) a(1)] a(2) show ?case by simp
  qed simp
  from fold [OF assms(1) [unfolded activate_due_orders_def] assms(2)]
  show "wf_dict (sim_pending s')" and "inflight_weight s' \<le> inflight_weight s" by auto
  assume "due_ids now s \<noteq> []"
  then obtain k ks where ks: "due_ids now s = k # ks" by (cases "due_ids now s") auto
  then obtain p where p: "(k, p) \<in> set (sim_pending s)" "in_flight p"
  proof -
    have "k \<in> set (due_ids now s)" using ks by simp
    with that show thesis by (auto simp: due_ids_def)
  qed
  from assms(1) ks obtain hs u where u: "activate_order cfg k ([], s) = Inr (hs, u)"
      "fold_result (activate_order cfg) ks (hs, u) = Inr (fs, s')"
    by (auto simp: activate_due_orders_def bind_result_Inr_iff)
  note a = activate_order_weight [OF u(1) assms(2)]
  have "inflight_weight u < inflight_weight s"
    using a(3) p assms(2) by (auto simp: wf_dict_def)
  with fold [OF u(2) a(1)] show "inflight_weight s' < inflight_weight s" by simp
qed

lemma due_times_nonempty:
  assumes "due_times s \<noteq> []" and "now = utc (Min (set (due_times s)))"
  shows "(\<exists>p \<in> snd ` set (sim_pending s). control_due now p) \<or> due_ids now s \<noteq> []"
proof -
  have "Min (set (due_times s)) \<in> set (due_times s)" using assms(1) by (intro Min_in) auto
  then show ?thesis unfolding assms(2)
    by (auto simp: due_times_def List.map_filter_def control_due_def due_ids_def filter_empty_conv
        split: if_splits)
qed

lemma flush_step_weight:
  assumes "flush_step cfg s = Inr (fs, s')" and "wf_dict (sim_pending s)" and "due_times s \<noteq> []"
  shows "wf_dict (sim_pending s') \<and> inflight_weight s' < inflight_weight s"
proof -
  define now where "now = utc (Min (set (due_times s)))"
  from assms(1) obtain s1 where c: "apply_due_controls cfg now s = Inr s1"
    and a: "activate_due_orders cfg now s1 = Inr (fs, s')"
    by (auto simp: flush_step_def advance_time_def bind_result_Inr_iff now_def)
  note cw = apply_due_controls_progress [OF c assms(2)]
  note aw = activate_due_orders_weight [OF a cw(1)]
  have "inflight_weight s' < inflight_weight s"
  proof (cases "inflight_weight s1 < inflight_weight s")
    case False
    with cw(2) due_times_nonempty [OF assms(3) now_def]
    have "sim_pending s1 = sim_pending s" and "due_ids now s \<noteq> []" by auto
    then have "due_ids now s1 \<noteq> []" by (simp add: due_ids_def)
    with aw(3) weight_cong [OF \<open>sim_pending s1 = sim_pending s\<close>] show ?thesis by simp
  qed (use aw(2) in simp)
  with aw(1) show ?thesis by simp
qed

lemma flush_loop_terminates:
  assumes "wf_dict (sim_pending s)" and "inflight_weight s < n"
  shows "\<exists>r. flush_loop cfg n fills s = Some r \<and> (\<forall>fs s'. r = Inr (fs, s') \<longrightarrow> due_times s' = [])"
  using assms
proof (induction n arbitrary: fills s)
  case (Suc n)
  show ?case
  proof (cases "due_times s = []")
    case False
    show ?thesis
    proof (cases "flush_step cfg s")
      case (Inr r)
      then obtain fs s' where "flush_step cfg s = Inr (fs, s')" by (cases r) auto
      with flush_step_weight [OF this Suc.prems(1) False] Suc.prems(2) False show ?thesis
        by (auto intro!: Suc.IH)
    qed (use False in simp)
  qed simp
qed simp

end
