(* ===== verification/TakerFills.thy ===== *)
theory TakerFills
  imports SimulatorFrame
begin

text \<open>
  The taker path of the simulator against a reference: the greedy walk of the opposite side of the
  book in exact arithmetic. On any decimal grid \<open>_fill_marketable\<close> takes exactly the greedy
  amounts, debits exactly what it took, and fills a fill-or-kill order completely or not at all.
\<close>

section \<open>Valid books and intents\<close>

definition level_ok :: "nat \<Rightarrow> order_book_level \<Rightarrow> bool" where
  "level_ok k l \<longleftrightarrow> 0 \<le> lvl_price l \<and> lvl_price l \<le> 1 \<and> 0 < lvl_quantity l \<and> on_grid k (lvl_quantity l)"

definition levels_ok :: "nat \<Rightarrow> order_book_level list \<Rightarrow> bool" where
  "levels_ok k ls \<longleftrightarrow> list_all (level_ok k) ls"

text \<open>One side of a book: valid levels whose total depth also fits the grid.\<close>

definition total_quantity :: "order_book_level list \<Rightarrow> decimal" where
  "total_quantity ls = sum_list (map lvl_quantity ls)"

definition side_ok :: "nat \<Rightarrow> order_book_level list \<Rightarrow> bool" where
  "side_ok k ls \<longleftrightarrow> levels_ok k ls \<and> total_quantity ls * 10 ^ k \<le> 10 ^ 28"

definition book_ok :: "nat \<Rightarrow> order_book \<Rightarrow> bool" where
  "book_ok k b \<longleftrightarrow> side_ok k (yes_bids b) \<and> side_ok k (yes_asks b) \<and>
     side_ok k (no_bids b) \<and> side_ok k (no_asks b)"

definition intent_ok :: "nat \<Rightarrow> order_intent \<Rightarrow> bool" where
  "intent_ok k i \<longleftrightarrow> 0 \<le> oi_price i \<and> oi_price i \<le> 1 \<and> 0 < oi_quantity i \<and> on_grid k (oi_quantity i)"

lemma levels_ok_simps [simp]:
  "levels_ok k []"
  "levels_ok k (l # ls) \<longleftrightarrow> level_ok k l \<and> levels_ok k ls"
  "levels_ok k (ls @ ms) \<longleftrightarrow> levels_ok k ls \<and> levels_ok k ms"
  by (simp_all add: levels_ok_def)

lemma opposite_levels_ok [simp]:
  "book_ok k b \<Longrightarrow> levels_ok k (opposite_levels b side oside)"
  "book_ok k b \<Longrightarrow> side_ok k (opposite_levels b side oside)"
  by (simp_all add: book_ok_def side_ok_def opposite_levels_def)

section \<open>The greedy reference\<close>

fun greedy :: "order_intent \<Rightarrow> decimal \<Rightarrow> order_book_level list \<Rightarrow> decimal list" where
  "greedy i rem [] = []"
| "greedy i rem (l # ls) =
     (if rem \<le> 0 \<or> beyond_limit i l then []
      else min rem (lvl_quantity l) # greedy i (rem - min rem (lvl_quantity l)) ls)"

fun debited :: "order_book_level list \<Rightarrow> decimal list \<Rightarrow> order_book_level list" where
  "debited ls [] = ls"
| "debited [] ts = []"
| "debited (l # ls) (t # ts) =
     (if lvl_quantity l > t then [l\<lparr>lvl_quantity := lvl_quantity l - t\<rparr>] else []) @ debited ls ts"

definition filled_total :: "fill list \<Rightarrow> decimal" where
  "filled_total fs = sum_list (map f_quantity fs)"

lemma filled_total_simps [simp]:
  "filled_total [] = 0"
  "filled_total (f # fs) = f_quantity f + filled_total fs"
  "filled_total (fs @ gs) = filled_total fs + filled_total gs"
  by (simp_all add: filled_total_def)

lemma greedy_none [simp]: "rem \<le> 0 \<Longrightarrow> greedy i rem ls = []"
  by (cases ls) auto

lemma greedy_le: "0 \<le> rem \<Longrightarrow> sum_list (greedy i rem ls) \<le> rem"
proof (induction ls arbitrary: rem)
  case (Cons l ls)
  have "sum_list (greedy i (rem - min rem (lvl_quantity l)) ls) \<le> rem - min rem (lvl_quantity l)"
    by (rule Cons.IH) simp
  with Cons.prems show ?case by simp
qed simp

lemma greedy_grid:
  "levels_ok k ls \<Longrightarrow> 0 \<le> rem \<Longrightarrow> on_grid k rem \<Longrightarrow> on_grid k (rem - sum_list (greedy i rem ls))"
proof (induction ls arbitrary: rem)
  case (Cons l ls)
  let ?t = "min rem (lvl_quantity l)"
  have "on_grid k (rem - ?t)"
    using Cons.prems by (auto simp: level_ok_def min_def intro!: on_grid_between)
  with Cons.prems Cons.IH [of "rem - ?t"] show ?case by (auto simp: diff_diff_eq)
qed simp

lemma greedy_pos: "levels_ok k ls \<Longrightarrow> x \<in> set (greedy i rem ls) \<Longrightarrow> 0 < x"
  by (induction ls arbitrary: rem) (auto simp: level_ok_def split: if_splits)

lemma greedy_length: "length (greedy i rem ls) \<le> length ls"
  by (induction ls arbitrary: rem) auto

lemma greedy_within: "l \<in> set (take (length (greedy i rem ls)) ls) \<Longrightarrow> \<not> beyond_limit i l"
  by (induction ls arbitrary: rem) (auto split: if_splits)

lemma debited_total:
  "total_quantity (debited ls (greedy i rem ls)) = total_quantity ls - sum_list (greedy i rem ls)"
  by (induction ls arbitrary: rem) (auto simp: total_quantity_def min_def)

lemma debited_ok:
  "levels_ok k ls \<Longrightarrow> 0 \<le> rem \<Longrightarrow> on_grid k rem \<Longrightarrow> levels_ok k (debited ls (greedy i rem ls))"
proof (induction ls arbitrary: rem)
  case (Cons l ls)
  let ?t = "min rem (lvl_quantity l)"
  have "on_grid k (rem - ?t)" and "rem < lvl_quantity l \<Longrightarrow> on_grid k (lvl_quantity l - rem)"
    using Cons.prems by (auto simp: level_ok_def min_def intro!: on_grid_between)
  with Cons.prems Cons.IH [of "rem - ?t"] show ?case by (auto simp: level_ok_def min_def)
qed simp

lemma debited_side_ok:
  assumes "side_ok k ls" and "0 \<le> rem" and "on_grid k rem"
  shows "side_ok k (debited ls (greedy i rem ls))"
proof -
  have "0 \<le> sum_list (greedy i rem ls)"
    using assms(1) by (intro sum_list_nonneg) (auto simp: side_ok_def dest!: greedy_pos [rotated] intro: less_imp_le)
  then have "total_quantity (debited ls (greedy i rem ls)) * 10 ^ k \<le> total_quantity ls * 10 ^ k"
    by (intro mult_right_mono) (auto simp: debited_total)
  also have "\<dots> \<le> 10 ^ 28" using assms(1) by (simp only: side_ok_def)
  finally show ?thesis using assms debited_ok [of k ls rem i] by (simp only: side_ok_def)
qed

section \<open>The walk is greedy\<close>

lemma walk_levels_greedy:
  assumes "walk_levels cfg i t void n ls rem consumed fills s = Inr (rem', consumed', fills', s')"
    and "levels_ok k ls" and "on_grid k rem" and "0 \<le> rem" and "\<forall>j \<in> fst ` set consumed. j < n"
  shows "rem' = rem - sum_list (greedy i rem ls) \<and>
    consumed' = consumed @ List.enumerate n (greedy i rem ls) \<and>
    (\<exists>gs. fills' = fills @ gs \<and> map f_quantity gs = greedy i rem ls \<and>
      map f_price gs = map lvl_price (take (length (greedy i rem ls)) ls) \<and>
      (\<forall>f \<in> set gs. f_liquidity f = TAKER \<and> fill_check f = None \<and> f_outcome_side f = oi_side i \<and>
         f_order_side f = oi_order_side i \<and> f_instrument_id f = oi_instrument_id i))"
  using assms
proof (induction ls arbitrary: n rem consumed fills s)
  case (Cons l ls)
  show ?case
  proof (cases "rem \<le> 0 \<or> beyond_limit i l")
    case True
    with Cons.prems(1) show ?thesis by (auto split: if_splits)
  next
    case False
    let ?t = "min rem (lvl_quantity l)"
    have tk: "on_grid k ?t" "0 < ?t" "?t \<le> rem" "dadd 0 ?t = ?t" "dsub rem ?t = rem - ?t"
      "on_grid k (rem - ?t)"
      using Cons.prems(2,3) False
      by (auto simp: level_ok_def dadd_def dsub_grid on_grid_min on_grid_between min_def)
    have fresh: "n \<notin> fst ` set consumed" using Cons.prems(5) by auto
    from False Cons.prems(1) tk obtain f s1 where
      e: "emit_fill cfg i (lvl_price l) ?t t TAKER void s = Inr (f, s1)"
      and w: "walk_levels cfg i t void (Suc n) ls (rem - ?t) (consumed @ [(n, ?t)]) (fills @ [f]) s1
        = Inr (rem', consumed', fills', s')"
      using fresh map_of_eq_None_iff [of consumed n]
      by (auto simp: bind_result_Inr_iff Let_def dict_set_fresh)
    have "rem' = (rem - ?t) - sum_list (greedy i (rem - ?t) ls) \<and>
      consumed' = (consumed @ [(n, ?t)]) @ List.enumerate (Suc n) (greedy i (rem - ?t) ls) \<and>
      (\<exists>gs. fills' = (fills @ [f]) @ gs \<and> map f_quantity gs = greedy i (rem - ?t) ls \<and>
        map f_price gs = map lvl_price (take (length (greedy i (rem - ?t) ls)) ls) \<and>
        (\<forall>f \<in> set gs. f_liquidity f = TAKER \<and> fill_check f = None \<and> f_outcome_side f = oi_side i \<and>
           f_order_side f = oi_order_side i \<and> f_instrument_id f = oi_instrument_id i))"
      using Cons.prems(2,5) tk by (intro Cons.IH [OF w]) auto
    then obtain gs where gs: "fills' = fills @ f # gs" "map f_quantity gs = greedy i (rem - ?t) ls"
        "map f_price gs = map lvl_price (take (length (greedy i (rem - ?t) ls)) ls)"
        "\<forall>f \<in> set gs. f_liquidity f = TAKER \<and> fill_check f = None \<and> f_outcome_side f = oi_side i \<and>
           f_order_side f = oi_order_side i \<and> f_instrument_id f = oi_instrument_id i"
      and r: "rem' = rem - ?t - sum_list (greedy i (rem - ?t) ls)"
        "consumed' = consumed @ (n, ?t) # List.enumerate (Suc n) (greedy i (rem - ?t) ls)"
      by auto
    from False have "greedy i rem (l # ls) = ?t # greedy i (rem - ?t) ls" by simp
    with gs r emit_fill_frame [OF e] show ?thesis
      by (simp del: greedy.simps)
  qed
qed simp

section \<open>Debiting the book\<close>

lemma mk_level_ok [simp]:
  "0 \<le> p \<Longrightarrow> p \<le> 1 \<Longrightarrow> 0 < q \<Longrightarrow> mk_level p q = Inr \<lparr>lvl_price = p, lvl_quantity = q\<rparr>"
  by (simp add: mk_level_Inr_iff)

lemma level_eta [simp]: "\<lparr>lvl_price = lvl_price l, lvl_quantity = lvl_quantity l\<rparr> = l"
  by (cases l) simp

lemma level_with_quantity: "\<lparr>lvl_price = lvl_price l, lvl_quantity = q\<rparr> = l\<lparr>lvl_quantity := q\<rparr>"
  by (cases l) simp

lemma enumerate_get:
  "dict_get (List.enumerate n ts) (n + m) = (if m < length ts then Some (ts ! m) else None)"
proof (induction ts arbitrary: n m)
  case (Cons t ts)
  then show ?case by (cases m) (auto simp: Cons.IH [of "Suc n", simplified])
qed simp

lemma debit_levels_none:
  assumes "levels_ok k ls" and "\<forall>m. dict_get consumed (n + m) = None"
  shows "debit_levels n ls consumed = Inr ls"
  using assms
proof (induction ls arbitrary: n)
  case (Cons l ls)
  have "dict_get consumed n = None" using Cons.prems(2) [rule_format, of 0] by simp
  moreover have "dict_get consumed (Suc n + m) = None" for m
    using Cons.prems(2) [rule_format, of "Suc m"] by simp
  moreover have "dsub (lvl_quantity l) 0 = lvl_quantity l"
    using Cons.prems(1) by (auto simp: level_ok_def dsub_def)
  ultimately show ?case
    using Cons.prems(1) Cons.IH [of "Suc n"]
    by (simp add: level_ok_def Let_def)
qed simp

lemma debit_levels_greedy:
  assumes "levels_ok k ls" and "on_grid k rem" and "0 \<le> rem" and "ts = greedy i rem ls"
    and "\<forall>m. dict_get consumed (n + m) = (if m < length ts then Some (ts ! m) else None)"
  shows "debit_levels n ls consumed = Inr (debited ls ts)"
  using assms
proof (induction ls arbitrary: n rem ts)
  case (Cons l ls)
  show ?case
  proof (cases "rem \<le> 0 \<or> beyond_limit i l")
    case True
    then have "ts = []" using Cons.prems(4) by auto
    moreover from this have "debit_levels n (l # ls) consumed = Inr (l # ls)"
      using Cons.prems(1,5) by (intro debit_levels_none) auto
    ultimately show ?thesis by simp
  next
    case False
    let ?t = "min rem (lvl_quantity l)" and ?ts = "greedy i (rem - min rem (lvl_quantity l)) ls"
    have ts: "ts = ?t # ?ts" using False Cons.prems(4) by simp
    have tk: "on_grid k ?t" "0 \<le> ?t" "?t \<le> lvl_quantity l" "on_grid k (rem - ?t)" "?t \<le> rem"
      using Cons.prems(1-3) by (auto simp: level_ok_def on_grid_min on_grid_between min_def)
    have get: "dict_get consumed n = Some ?t"
      using Cons.prems(5) [rule_format, of 0] ts by simp
    have tl: "debit_levels (Suc n) ls consumed = Inr (debited ls ?ts)"
    proof (rule Cons.IH [of "rem - ?t"])
      show "\<forall>m. dict_get consumed (Suc n + m) = (if m < length ?ts then Some (?ts ! m) else None)"
        using Cons.prems(5) [rule_format, of "Suc _"] ts by simp
    qed (use Cons.prems tk in auto)
    have "dsub (lvl_quantity l) ?t = lvl_quantity l - ?t"
      using tk Cons.prems(1) by (intro dsub_grid) (auto simp: level_ok_def)
    with get tl ts Cons.prems(1) show ?thesis
      by (auto simp: Let_def level_ok_def level_with_quantity)
  qed
qed simp

lemma opposite_levels_debited:
  assumes "with_opposite_levels_debited b side oside consumed = Inr b'"
    and "debit_levels 0 (opposite_levels b side oside) consumed = Inr ls"
  shows "opposite_levels b' side oside = ls" and "same_side_levels b' side oside = same_side_levels b side oside"
    and "book_ok k b \<Longrightarrow> side_ok k ls \<Longrightarrow> book_ok k b'"
  using assms
  by (cases side; cases oside;
      auto simp: with_opposite_levels_debited_def Let_def opposite_levels_def same_side_levels_def book_ok_def)+

section \<open>The outcome of \<open>_fill_marketable\<close>\<close>

text \<open>
  On a grid the call walks the book greedily: quantities, prices, the debited book and the
  remaining quantity are those of the reference.
\<close>

lemma fill_marketable_greedy:
  assumes "fill_marketable cfg i t void s = Inr (fs, s')" and "ms_book (state_of s (oi_instrument_id i)) = Some b"
    and "book_ok k b" and "intent_ok k i"
    and "\<not> (oi_time_in_force i = FOK \<and>
           marketable_quantity i (opposite_levels b (oi_side i) (oi_order_side i)) < oi_quantity i)"
  defines "ls \<equiv> opposite_levels b (oi_side i) (oi_order_side i)"
  obtains rem book' s2 where "map f_quantity fs = greedy i (oi_quantity i) ls"
    and "map f_price fs = map lvl_price (take (length fs) ls)"
    and "\<forall>f \<in> set fs. f_liquidity f = TAKER \<and> fill_check f = None \<and> f_outcome_side f = oi_side i \<and>
           f_order_side f = oi_order_side i \<and> f_instrument_id f = oi_instrument_id i"
    and "rem = oi_quantity i - filled_total fs" and "on_grid k rem" and "0 \<le> rem"
    and "book_ok k book'" and "opposite_levels book' (oi_side i) (oi_order_side i) = debited ls (greedy i (oi_quantity i) ls)"
    and "same_side_levels book' (oi_side i) (oi_order_side i) = same_side_levels b (oi_side i) (oi_order_side i)"
    and "ms_book (state_of s2 (oi_instrument_id i)) = Some book'"
    and "\<And>iid. iid \<noteq> oi_instrument_id i \<Longrightarrow> state_of s2 iid = state_of s iid"
    and "sim_pending s2 = sim_pending s"
    and "sim_states s2 = sim_states s \<or>
           sim_states s2 = dict_set (oi_instrument_id i) (state_of s2 (oi_instrument_id i)) (sim_states s)"
    and "rest_remainder cfg i t void book' rem fs s2 = Inr (fs, s')"
  using assms(1)
proof (cases rule: fill_marketable_cases)
  case (killed book)
  with assms(2,5) show thesis by simp
next
  case (walked book rem consumed s1 book' s2)
  let ?ts = "greedy i (oi_quantity i) ls"
  have q: "on_grid k (oi_quantity i)" "0 \<le> oi_quantity i" and ls: "levels_ok k ls"
    using assms(3,4) by (auto simp: intent_ok_def ls_def)
  have b: "book = b" using walked(1) assms(2) by simp
  note w = walk_levels_greedy [OF walked(3) [unfolded b, folded ls_def] ls q, simplified]
  note fr = walk_levels_frame [OF walked(3)] and cf = commit_book_frame [OF walked(4)]
  have len: "length fs = length ?ts" using w by (metis length_map)
  have tot: "filled_total fs = sum_list ?ts" using w by (simp add: filled_total_def)
  have book': "book_ok k book' \<and> opposite_levels book' (oi_side i) (oi_order_side i) = debited ls ?ts \<and>
      same_side_levels book' (oi_side i) (oi_order_side i) = same_side_levels b (oi_side i) (oi_order_side i)
      \<and> ms_book (state_of s2 (oi_instrument_id i)) = Some book'"
  proof (cases "?ts = []")
    case True
    with walked(4) w b assms(2,3) fr show ?thesis by (simp add: commit_book_def ls_def state_of_def)
  next
    case False
    then have "length consumed \<noteq> 0" using w by simp
    then have c: "consumed \<noteq> []" by simp
    have d: "debit_levels 0 ls consumed = Inr (debited ls ?ts)"
      using w enumerate_get [of 0 ?ts] by (intro debit_levels_greedy [OF ls q refl]) auto
    from walked(4) c obtain b' where b': "with_opposite_levels_debited b (oi_side i) (oi_order_side i) consumed = Inr b'"
        "book' = b'" "s2 = set_state (oi_instrument_id i) ((state_of s1 (oi_instrument_id i))\<lparr>ms_book := Some b'\<rparr>) s1"
      by (auto simp: commit_book_def bind_result_Inr_iff b)
    note o = opposite_levels_debited [OF b'(1) d [unfolded ls_def], folded ls_def]
    have "side_ok k ls" using assms(3) by (simp add: ls_def)
    from o(1,2) o(3) [OF assms(3) debited_side_ok [OF this q(2,1)]] b' show ?thesis by simp
  qed
  have st: "sim_states s2 = sim_states s \<or>
      sim_states s2 = dict_set (oi_instrument_id i) (state_of s2 (oi_instrument_id i)) (sim_states s)"
    using walked(4) fr by (auto simp: commit_book_def bind_result_Inr_iff split: if_splits)
  show thesis
  proof (rule that)
    show "on_grid k rem" "0 \<le> rem" "rem = oi_quantity i - filled_total fs"
      using w tot greedy_le [OF q(2), of i ls] greedy_grid [OF ls q(2,1), of i] by auto
  qed (use w len book' fr cf st walked(5) in \<open>auto simp: state_of_def\<close>)
qed

section \<open>Fill or kill\<close>

lemma marketable_quantity_covers:
  assumes "levels_ok k ls" and "on_grid k (oi_quantity i)" and "on_grid k q" and "0 \<le> q" and "q < oi_quantity i"
    and "oi_quantity i \<le> marketable_quantity_from i ls q"
  shows "sum_list (greedy i (oi_quantity i - q) ls) = oi_quantity i - q"
  using assms
proof (induction ls arbitrary: q)
  case (Cons l ls)
  let ?Q = "oi_quantity i" and ?q = "lvl_quantity l"
  have l: "on_grid k ?q" "0 < ?q" "\<not> beyond_limit i l"
    using Cons.prems by (auto simp: level_ok_def split: if_splits)
  show ?case
  proof (cases "?Q \<le> q + ?q")
    case True
    then have "min (?Q - q) ?q = ?Q - q" by simp
    with Cons.prems(5) l show ?thesis by simp
  next
    case False
    have "\<bar>q + ?q\<bar> * 10 ^ k \<le> \<bar>?Q\<bar> * 10 ^ k" using False l Cons.prems(4) by (intro mult_right_mono) auto
    also have "\<dots> \<le> 10 ^ 28" using Cons.prems(2) by (simp add: on_grid_def)
    finally have g: "on_grid k (q + ?q)" using Cons.prems(3) l(1) by (intro on_grid_add)
    then have d: "dadd q ?q = q + ?q" by (simp add: dadd_def)
    with Cons.prems(6) False l have "?Q \<le> marketable_quantity_from i ls (q + ?q)"
      by (simp add: Let_def)
    with Cons.IH [of "q + ?q"] Cons.prems g l False
    have "sum_list (greedy i (?Q - (q + ?q)) ls) = ?Q - (q + ?q)" by simp
    moreover have "min (?Q - q) ?q = ?q" using False by simp
    ultimately show ?thesis using l False by (simp add: diff_diff_eq add.commute)
  qed
qed simp

lemma fok_fills_completely:
  assumes "levels_ok k ls" and "intent_ok k i" and "oi_quantity i \<le> marketable_quantity i ls"
  shows "sum_list (greedy i (oi_quantity i) ls) = oi_quantity i"
  using marketable_quantity_covers [of k ls i 0] assms by (simp add: intent_ok_def marketable_quantity_def)

lemma greedy_prices:
  assumes "map f_price fs = map lvl_price (take (length fs) ls)"
    and "map f_quantity fs = greedy i q ls" and "f \<in> set fs" and "oi_order_type i \<noteq> ''market''"
  shows "oi_order_side i = BUY \<Longrightarrow> f_price f \<le> oi_price i" and "oi_order_side i = SELL \<Longrightarrow> oi_price i \<le> f_price f"
proof -
  have "length fs = length (greedy i q ls)" using assms(2) by (metis length_map)
  moreover have "f_price f \<in> set (map lvl_price (take (length fs) ls))" using assms(1,3) by (metis image_eqI set_map)
  ultimately obtain l where "l \<in> set (take (length (greedy i q ls)) ls)" and "f_price f = lvl_price l" by auto
  with greedy_within [of l i q ls] assms(4)
  show "oi_order_side i = BUY \<Longrightarrow> f_price f \<le> oi_price i" and "oi_order_side i = SELL \<Longrightarrow> oi_price i \<le> f_price f"
    by (auto simp: beyond_limit_def)
qed

end
