(* ===== verification/SimulatorInvariant.thy ===== *)
theory SimulatorInvariant
  imports TakerFills
begin

text \<open>
  The state invariant of the simulator on a decimal grid: every pending order has been filled by at
  most its quantity, the live ones by less, the FILLED ones exactly; every stored book is valid.
  Every call keeps it. The queue estimator is used through the interface \<open>grid_queue_model\<close>.
\<close>

section \<open>The queue estimator's contract\<close>

text \<open>Asked about a valid book and a quantity on the grid, an estimator answers on the grid.\<close>

locale grid_queue_model = queue_model +
  fixes k :: nat
  assumes ahead_on_grid:
    "est iid side oside p q book = Inr e \<Longrightarrow> (\<And>b. book = Some b \<Longrightarrow> book_ok k b) \<Longrightarrow> on_grid k q \<Longrightarrow> 0 \<le> q
     \<Longrightarrow> on_grid k (ahead_quantity e)"

lemma ahead_at_price_grid:
  assumes "side_ok k ls"
  shows "on_grid k (ahead_at_price ls p)"
proof -
  let ?qs = "map lvl_quantity (filter (\<lambda>l. lvl_price l = p) ls)"
  have g: "on_grid k x \<and> 0 \<le> x" if "x \<in> set ?qs" for x
    using that assms by (auto simp: side_ok_def levels_ok_def list_all_iff level_ok_def intro: less_imp_le)
  have "sum_list ?qs \<le> total_quantity ls"
    unfolding total_quantity_def
    using assms by (intro sum_list_filter_le)
      (auto simp: side_ok_def levels_ok_def list_all_iff level_ok_def intro: less_imp_le)
  then have "sum_list ?qs * 10 ^ k \<le> total_quantity ls * 10 ^ k" by (rule mult_right_mono) simp
  also have "\<dots> \<le> 10 ^ 28" using assms by (simp only: side_ok_def)
  finally have le: "sum_list ?qs * 10 ^ k \<le> 10 ^ 28" .
  from dsum_grid [of ?qs k, OF g le] show ?thesis by (simp add: ahead_at_price_def)
qed

lemma select_levels_ok: "book_ok k b \<Longrightarrow> side_ok k (select_levels b side oside)"
  by (simp add: book_ok_def select_levels_def)

interpretation depth_grid: grid_queue_model "depth_estimate name" k
  by unfold_locales
    (auto simp: depth_estimate_def mk_queue_estimate_Inr_iff ahead_at_price_grid select_levels_ok
      split: option.splits)

interpretation front_grid: grid_queue_model "front_estimate name" k
  by unfold_locales (auto simp: front_estimate_def mk_queue_estimate_Inr_iff)

section \<open>The invariant\<close>

definition request_ok :: "nat \<Rightarrow> pending_replace option \<Rightarrow> bool" where
  "request_ok k r \<longleftrightarrow> (case r of None \<Rightarrow> True | Some r \<Rightarrow>
     (case pr_new_quantity r of None \<Rightarrow> True | Some q \<Rightarrow> on_grid k q))"

definition pending_ok :: "nat \<Rightarrow> pending_order \<Rightarrow> bool" where
  "pending_ok k p \<longleftrightarrow> intent_ok k (pd_intent p) \<and>
     0 \<le> pd_queue_ahead p \<and> on_grid k (pd_queue_ahead p) \<and>
     0 \<le> pd_filled_quantity p \<and> on_grid k (pd_filled_quantity p) \<and>
     pd_filled_quantity p \<le> oi_quantity (pd_intent p) \<and>
     (is_live (pd_status p) \<longrightarrow> pd_filled_quantity p < oi_quantity (pd_intent p)) \<and>
     (pd_status p = FILLED \<longrightarrow> pd_filled_quantity p = oi_quantity (pd_intent p)) \<and>
     request_ok k (pd_replace_request p)"

definition state_ok :: "nat \<Rightarrow> market_state \<Rightarrow> bool" where
  "state_ok k st \<longleftrightarrow> (case ms_book st of None \<Rightarrow> True | Some b \<Rightarrow> book_ok k b)"

definition sim_ok :: "nat \<Rightarrow> simulator \<Rightarrow> bool" where
  "sim_ok k s \<longleftrightarrow> wf_dict (sim_pending s) \<and> list_all (pending_ok k \<circ> snd) (sim_pending s)
     \<and> wf_dict (sim_states s) \<and> list_all (state_ok k \<circ> snd) (sim_states s)"

lemma list_all_dict_set:
  "list_all (P \<circ> snd) d \<Longrightarrow> P v \<Longrightarrow> list_all (P \<circ> snd) (dict_set k v d)"
  by (induction d) auto

lemma list_all_dict_pop: "list_all (P \<circ> snd) d \<Longrightarrow> list_all (P \<circ> snd) (dict_pop k d)"
  by (auto simp: dict_pop_def list_all_iff)

lemma list_all_dict_get: "list_all (P \<circ> snd) d \<Longrightarrow> dict_get d k = Some v \<Longrightarrow> P v"
  by (auto simp: list_all_iff dest!: map_of_SomeD)

lemma new_simulator_ok: "sim_ok k new_simulator"
  by (simp add: sim_ok_def new_simulator_def)

lemma sim_ok_pending: "sim_ok k s \<Longrightarrow> dict_get (sim_pending s) c = Some p \<Longrightarrow> pending_ok k p"
  unfolding sim_ok_def by (rule list_all_dict_get) auto

lemma new_market_state_ok [simp]: "state_ok k (new_market_state iid)"
  by (simp add: state_ok_def new_market_state_def)

lemma sim_ok_state: "sim_ok k s \<Longrightarrow> state_ok k (state_of s iid)"
  by (auto simp: state_of_def sim_ok_def split: option.splits intro: list_all_dict_get)

lemma sim_ok_book: "sim_ok k s \<Longrightarrow> ms_book (state_of s iid) = Some b \<Longrightarrow> book_ok k b"
  using sim_ok_state [of k s iid] by (simp add: state_ok_def)

lemma set_pending_ok [keeps]: "sim_ok k s \<Longrightarrow> pending_ok k p \<Longrightarrow> sim_ok k (set_pending c p s)"
  by (simp add: sim_ok_def list_all_dict_set)

lemma set_state_ok [keeps]: "sim_ok k s \<Longrightarrow> state_ok k st \<Longrightarrow> sim_ok k (set_state iid st s)"
  by (simp add: sim_ok_def list_all_dict_set)

lemma ensure_state_ok [keeps]: "sim_ok k s \<Longrightarrow> sim_ok k (ensure_state iid s)"
  by (auto simp: ensure_state_def set_state_ok split: option.splits)

lemma pop_ok [keeps]: "sim_ok k s \<Longrightarrow> sim_ok k (s\<lparr>sim_pending := dict_pop c (sim_pending s)\<rparr>)"
  by (simp add: sim_ok_def list_all_dict_pop)

lemma sim_ok_cong:
  "sim_pending s' = sim_pending s \<Longrightarrow> sim_states s' = sim_states s \<Longrightarrow> sim_ok k s' = sim_ok k s"
  by (simp add: sim_ok_def)

lemma pending_remaining:
  "pending_ok k p \<Longrightarrow> pd_remaining p = oi_quantity (pd_intent p) - pd_filled_quantity p"
  unfolding pd_remaining_def by (rule dsub_grid [of k]) (auto simp: pending_ok_def intent_ok_def)

lemma remaining_grid: "pending_ok k p \<Longrightarrow> on_grid k (pd_remaining p) \<and> 0 \<le> pd_remaining p"
  by (simp add: pending_remaining) (auto simp: pending_ok_def intent_ok_def on_grid_between)

lemma canceled_ok: "pending_ok k p \<Longrightarrow> pending_ok k (p\<lparr>pd_status := CANCELED\<rparr>)"
  by (simp add: pending_ok_def is_live_def)

lemma grid_bound: "on_grid k x \<Longrightarrow> \<bar>x\<bar> * 10 ^ k \<le> 10 ^ 28"
  by (simp add: on_grid_def)

lemma grid_add_below:
  "on_grid k x \<Longrightarrow> on_grid k y \<Longrightarrow> 0 \<le> x \<Longrightarrow> 0 \<le> y \<Longrightarrow> x + y \<le> z \<Longrightarrow> on_grid k z \<Longrightarrow>
     on_grid k (x + y) \<and> dadd x y = x + y"
proof -
  assume a: "on_grid k x" "on_grid k y" "0 \<le> x" "0 \<le> y" "x + y \<le> z" "on_grid k z"
  have "\<bar>x + y\<bar> * 10 ^ k \<le> \<bar>z\<bar> * 10 ^ k" using a by (intro mult_right_mono) auto
  also have "\<dots> \<le> 10 ^ 28" using a(6) by (rule grid_bound)
  finally show ?thesis using a on_grid_add [of k x y] dadd_grid [of k x y] by blast
qed

section \<open>Preservation\<close>

text \<open>The configuration's estimator keeps its contract on the grid.\<close>

definition cfg_ok :: "nat \<Rightarrow> sim_config \<Rightarrow> bool" where
  "cfg_ok k cfg \<longleftrightarrow> grid_queue_model (sc_queue_estimator cfg) k"

lemma estimate_ok:
  assumes "cfg_ok k cfg" and "sc_queue_estimator cfg iid side oside p q book = Inr e"
    and "\<And>b. book = Some b \<Longrightarrow> book_ok k b" and "on_grid k q" and "0 \<le> q"
  shows "0 \<le> ahead_quantity e \<and> on_grid k (ahead_quantity e)"
  using assms grid_queue_model.ahead_on_grid [of "sc_queue_estimator cfg" k]
    queue_model.ahead_nonneg [of "sc_queue_estimator cfg"]
  unfolding cfg_ok_def by (auto simp: grid_queue_model_def)

lemma rest_remainder_ok:
  assumes "rest_remainder cfg i t void book rem fills s = Inr (fs, s')"
    and "sim_ok k s" and "cfg_ok k cfg" and "book_ok k book" and "on_grid k rem"
  shows "sim_ok k s'"
proof -
  consider "s' = s" | qe j where "remainder_rests i rem" "sc_queue_estimator cfg (oi_instrument_id i) (oi_side i)
           (order_side_value (oi_order_side i)) (oi_price i) rem (Some book) = Inr qe"
         "mk_order_intent (i\<lparr>oi_quantity := rem\<rparr>) = Inr j"
         "s' = set_pending (client_order_id_of i void)
                (resting_order j t void (ahead_quantity qe) (fills \<noteq> [])) s"
    using rest_remainder_cases(2) [OF assms(1)] by blast
  then show ?thesis
  proof cases
    case 2
    have "0 \<le> ahead_quantity qe \<and> on_grid k (ahead_quantity qe)"
      using 2(1) assms(4,5) by (intro estimate_ok [OF assms(3) 2(2)]) (auto simp: remainder_rests_def)
    then have "pending_ok k (resting_order j t void (ahead_quantity qe) (fills \<noteq> []))"
      using 2(3) assms(5)
      by (auto simp: mk_order_intent_Inr_iff pending_ok_def intent_ok_def resting_order_def request_ok_def)
    with assms(2) 2(4) show ?thesis by (simp add: set_pending_ok)
  qed (use assms(2) in simp)
qed

lemma fill_marketable_ok [keeps]:
  assumes "fill_marketable cfg i t void s = Inr (fs, s')"
    and ok: "sim_ok k s" and cfg: "cfg_ok k cfg" and i: "intent_ok k i"
  shows "sim_ok k s'"
  using assms(1)
proof (cases rule: fill_marketable_cases)
  case (walked book rem consumed s1 book' s2)
  have b: "book_ok k book" by (rule sim_ok_book [OF ok walked(1)])
  have "\<not> (oi_time_in_force i = FOK \<and>
      marketable_quantity i (opposite_levels book (oi_side i) (oi_order_side i)) < oi_quantity i)"
    using walked(2) by auto
  from fill_marketable_greedy [OF assms(1) walked(1) b i this]
  obtain rem' bk s2' where g: "book_ok k bk" "on_grid k rem'"
    "ms_book (state_of s2' (oi_instrument_id i)) = Some bk" "sim_pending s2' = sim_pending s"
    "sim_states s2' = sim_states s \<or>
       sim_states s2' = dict_set (oi_instrument_id i) (state_of s2' (oi_instrument_id i)) (sim_states s)"
    "rest_remainder cfg i t void bk rem' fs s2' = Inr (fs, s')" by metis
  have "sim_ok k s2'"
    using ok g(1,3,4,5) by (auto simp: sim_ok_def state_ok_def list_all_dict_set)
  from rest_remainder_ok [OF g(6) this cfg g(1,2)] show ?thesis .
qed (use ok in simp)

section \<open>Trades against resting orders\<close>

lemma burn_queue_ok:
  assumes "pending_ok k p" and "on_grid k vol" and "0 \<le> vol" and "burn_queue p vol = (p1, vol1)"
  shows "pending_ok k p1" and "on_grid k vol1" and "0 \<le> vol1" and "vol1 = vol - min (pd_queue_ahead p) vol"
    and "p1 = p\<lparr>pd_queue_ahead := pd_queue_ahead p - min (pd_queue_ahead p) vol\<rparr>"
proof -
  let ?b = "min (pd_queue_ahead p) vol"
  have b: "on_grid k ?b" "0 \<le> ?b" "?b \<le> vol" "?b \<le> pd_queue_ahead p" "on_grid k (pd_queue_ahead p)"
    using assms(1-3) by (auto simp: pending_ok_def on_grid_min)
  have d: "dsub (pd_queue_ahead p) ?b = pd_queue_ahead p - ?b" "dsub vol ?b = vol - ?b"
    using b assms(2) by (auto intro: dsub_grid [of k])
  have g: "on_grid k (pd_queue_ahead p - ?b)" "on_grid k (vol - ?b)"
    using b assms(2) by (auto intro!: on_grid_between)
  have z: "\<not> 0 < pd_queue_ahead p \<Longrightarrow> ?b = 0"
    using assms(1,3) by (auto simp: pending_ok_def min_def)
  show v: "vol1 = vol - ?b" and p: "p1 = p\<lparr>pd_queue_ahead := pd_queue_ahead p - ?b\<rparr>"
    using assms(4) d z by (auto simp: burn_queue_def Let_def split: if_splits)
  from v b g(2) show "on_grid k vol1" "0 \<le> vol1" by auto
  from p g(1) b assms(1) show "pending_ok k p1" by (auto simp: pending_ok_def)
qed

lemma take_passive_ok:
  assumes "take_passive cfg t c price p vol fills s = Inr (vol', fills', s')"
    and p: "pending_ok k p" "is_live (pd_status p)" and v: "on_grid k vol" "0 \<le> vol"
    and ok: "sim_ok k s" and get: "dict_get (sim_pending s) c = Some p"
  obtains p' gs where "sim_ok k s'" and "on_grid k vol'" and "0 \<le> vol'" and "\<forall>iid. state_of s' iid = state_of s iid"
    and "sim_pending s' = dict_set c p' (sim_pending s)" and "sim_fill_log s' = sim_fill_log s @ gs"
    and "fills' = fills @ gs" and "pd_intent p' = pd_intent p" and "pd_active p' = pd_active p"
    and "pd_queue_ahead p' = pd_queue_ahead p"
    and "pd_filled_quantity p' = pd_filled_quantity p + filled_total gs" and "vol' + filled_total gs = vol"
    and "\<forall>f \<in> set gs. f_liquidity f = MAKER \<and> f_instrument_id f = oi_instrument_id (pd_intent p) \<and>
           f_order_side f = oi_order_side (pd_intent p) \<and> f_outcome_side f = oi_side (pd_intent p) \<and> f_price f = price"
proof (cases "min (pd_remaining p) vol \<le> 0")
  case True
  with assms(1) have "s' = s" "fills' = fills" "vol' = vol" by (auto simp: take_passive_def Let_def)
  with that [of p "[]"] ok v get show thesis by (simp add: update_triv)
next
  case False
  let ?t = "min (pd_remaining p) vol"
  let ?filled = "pd_filled_quantity p + ?t"
  let ?p = "p\<lparr>pd_filled_quantity := ?filled,
      pd_status := (if ?filled = oi_quantity (pd_intent p) then FILLED else PARTIALLY_FILLED)\<rparr>"
  note r = pending_remaining [OF p(1)] remaining_grid [OF p(1)]
  have t: "on_grid k ?t" "0 < ?t" "?t \<le> vol" "?filled \<le> oi_quantity (pd_intent p)"
    using r v False by (auto simp: on_grid_min min_def)
  have f: "on_grid k ?filled" "dadd (pd_filled_quantity p) ?t = ?filled"
    using grid_add_below [of k "pd_filled_quantity p" ?t "oi_quantity (pd_intent p)"] p t
    by (auto simp: pending_ok_def intent_ok_def)
  have d: "dsub vol ?t = vol - ?t" "on_grid k (vol - ?t)"
    using t v by (auto intro!: dsub_grid [of k] on_grid_between)
  from assms(1) False f d obtain g s1 where
    e: "emit_fill cfg (pd_intent p) price ?t (tr_received_at t) MAKER (pd_venue_order_id p) s = Inr (g, s1)"
    and res: "vol' = vol - ?t" "fills' = fills @ [g]" "s' = set_pending c ?p s1"
    by (auto simp: take_passive_def Let_def bind_result_Inr_iff)
  note e' = emit_fill_frame [OF e]
  have "pending_ok k ?p"
    using p t f by (auto simp: pending_ok_def is_live_def)
  then have "sim_ok k s'"
    using res(3) ok e'(1,2) sim_ok_cong [of s1 s] by (simp add: set_pending_ok)
  with that [of ?p "[g]"] res e' d t emit_fill_state_of [OF e] show thesis by simp
qed

text \<open>
  One resting order of a trade's loop: either untouched, or its queue is burned first and then the
  order is filled, and volume left, queue burned and quantity filled add up to the volume before.
\<close>

lemma apply_trade_to_cases:
  assumes "apply_trade_to cfg t c (vol, fills, s) = Inr (vol', fills', s')"
    and ok: "sim_ok k s" and v: "on_grid k vol" "0 \<le> vol"
  obtains (skip) "vol' = vol" and "fills' = fills" and "s' = s"
  | (hit) p p' gs burn where "dict_get (sim_pending s) c = Some p" and "is_live (pd_status p)" and "pd_active p"
      and "sim_ok k s'" and "on_grid k vol'" and "0 \<le> vol'" and "\<forall>iid. state_of s' iid = state_of s iid"
      and "sim_pending s' = dict_set c p' (sim_pending s)" and "sim_fill_log s' = sim_fill_log s @ gs"
      and "fills' = fills @ gs" and "pd_intent p' = pd_intent p" and "pd_active p'"
      and "0 \<le> burn" and "pd_queue_ahead p' = pd_queue_ahead p - burn"
      and "pd_filled_quantity p' = pd_filled_quantity p + filled_total gs"
      and "vol' + burn + filled_total gs = vol"
      and "gs \<noteq> [] \<Longrightarrow> pd_queue_ahead p' = 0"
      and "\<forall>f \<in> set gs. f_liquidity f = MAKER \<and> f_instrument_id f = oi_instrument_id (pd_intent p) \<and>
           f_order_side f = oi_order_side (pd_intent p) \<and> f_outcome_side f = oi_side (pd_intent p) \<and>
           passive_fill_price t (pd_intent p) = Some (f_price f)"
proof (cases "\<exists>p price. \<not> vol \<le> 0 \<and> dict_get (sim_pending s) c = Some p \<and> is_live (pd_status p) \<and> pd_active p \<and>
    \<not> instant (tr_received_at t) < instant (pd_effective_at p) \<and> passive_fill_price t (pd_intent p) = Some price")
  case False
  with assms(1) show thesis
    by (intro skip) (auto simp: apply_trade_to_def split: if_splits option.splits)
next
  case True
  then obtain p price where h: "\<not> vol \<le> 0" "dict_get (sim_pending s) c = Some p" "is_live (pd_status p)" "pd_active p"
    "\<not> instant (tr_received_at t) < instant (pd_effective_at p)" "passive_fill_price t (pd_intent p) = Some price"
    by blast
  obtain p1 vol1 where bq: "burn_queue p vol = (p1, vol1)" by fastforce
  note b = burn_queue_ok [OF sim_ok_pending [OF ok h(2)] v bq]
  let ?s1 = "set_pending c p1 s"
  have s1: "sim_ok k ?s1" by (rule set_pending_ok [OF ok b(1)])
  have bn: "0 \<le> min (pd_queue_ahead p) vol" using sim_ok_pending [OF ok h(2)] v by (auto simp: pending_ok_def)
  show thesis
  proof (cases "pd_queue_ahead p1 > 0")
    case True
    with assms(1) h bq have r: "vol' = vol1" "fills' = fills" "s' = ?s1" by (auto simp: apply_trade_to_def)
    show thesis
      by (rule hit [of p p1 "[]" "min (pd_queue_ahead p) vol"]) (use h b r s1 bn in auto)
  next
    case False
    with assms(1) h bq have tp: "take_passive cfg t c price p1 vol1 fills ?s1 = Inr (vol', fills', s')"
      by (auto simp: apply_trade_to_def)
    have live: "is_live (pd_status p1)" using b(5) h(3) by simp
    have get: "dict_get (sim_pending ?s1) c = Some p1" by simp
    obtain p' gs where g: "sim_ok k s'" "on_grid k vol'" "0 \<le> vol'" "\<forall>iid. state_of s' iid = state_of ?s1 iid"
        "sim_pending s' = dict_set c p' (sim_pending ?s1)" "sim_fill_log s' = sim_fill_log ?s1 @ gs"
        "fills' = fills @ gs" "pd_intent p' = pd_intent p1" "pd_active p' = pd_active p1"
        "pd_queue_ahead p' = pd_queue_ahead p1"
        "pd_filled_quantity p' = pd_filled_quantity p1 + filled_total gs" "vol' + filled_total gs = vol1"
        "\<forall>f \<in> set gs. f_liquidity f = MAKER \<and> f_instrument_id f = oi_instrument_id (pd_intent p1) \<and>
           f_order_side f = oi_order_side (pd_intent p1) \<and> f_outcome_side f = oi_side (pd_intent p1) \<and> f_price f = price"
      by (rule take_passive_ok [OF tp b(1) live b(2,3) s1 get])
    have q0: "pd_queue_ahead p1 = 0" using False b(1) by (simp add: pending_ok_def)
    show thesis
      by (rule hit [of p p' gs "min (pd_queue_ahead p) vol"]) (use h b(4,5) g bn q0 in auto)
  qed
qed

text \<open>A trade only ever prints at its own price, or at the complement for the opposite outcome.\<close>

lemma passive_fill_price_cases:
  assumes "passive_fill_price t i = Some price"
  shows "price = oi_price i" and "price = tr_price t \<or> price = dsub 1 (tr_price t)"
  using assms by (auto simp: passive_fill_price_def split: if_splits)

definition trade_fill :: "trade \<Rightarrow> fill \<Rightarrow> bool" where
  "trade_fill t f \<longleftrightarrow> f_liquidity f = MAKER \<and> f_instrument_id f = tr_instrument_id t \<and>
     (f_price f = tr_price t \<or> f_price f = dsub 1 (tr_price t))"

definition only_instrument :: "string set \<Rightarrow> instrument_id \<Rightarrow> simulator \<Rightarrow> bool" where
  "only_instrument ks iid s \<longleftrightarrow>
     (\<forall>c \<in> ks. \<forall>p. dict_get (sim_pending s) c = Some p \<longrightarrow> oi_instrument_id (pd_intent p) = iid)"

lemma apply_trade_fold:
  assumes "fold_result (apply_trade_to cfg t) ks (vol, fills, s) = Inr (vol', fills', s')"
    and "sim_ok k s" and "on_grid k vol" and "0 \<le> vol"
    and "only_instrument (set ks) (tr_instrument_id t) s"
  shows "sim_ok k s' \<and> 0 \<le> vol' \<and> (\<exists>gs burned. fills' = fills @ gs \<and> sim_fill_log s' = sim_fill_log s @ gs \<and>
     0 \<le> burned \<and> vol' + burned + filled_total gs = vol \<and> (\<forall>f \<in> set gs. trade_fill t f))"
  using assms
proof (induction ks arbitrary: vol fills s)
  case (Cons c ks)
  then obtain vol1 fills1 s1 where
    one: "apply_trade_to cfg t c (vol, fills, s) = Inr (vol1, fills1, s1)"
    and rest: "fold_result (apply_trade_to cfg t) ks (vol1, fills1, s1) = Inr (vol', fills', s')"
    by (auto simp: bind_result_Inr_iff)
  from one Cons.prems(2-4) show ?case
  proof (cases rule: apply_trade_to_cases)
    case skip
    with Cons.IH [OF rest] Cons.prems show ?thesis by (auto simp: only_instrument_def)
  next
    case (hit p p' gs burn)
    have inst: "oi_instrument_id (pd_intent p) = tr_instrument_id t"
      using Cons.prems(5) hit(1) by (auto simp: only_instrument_def)
    then have "only_instrument (set ks) (tr_instrument_id t) s1"
      using Cons.prems(5) hit(8,11) by (auto simp: only_instrument_def)
    from Cons.IH [OF rest hit(4-6) this] obtain hs burned where
      ih: "sim_ok k s'" "0 \<le> vol'" "fills' = fills1 @ hs" "sim_fill_log s' = sim_fill_log s1 @ hs"
        "0 \<le> burned" "vol' + burned + filled_total hs = vol1" "\<forall>f \<in> set hs. trade_fill t f"
      by blast
    have "\<forall>f \<in> set gs. trade_fill t f"
      using hit(18) inst passive_fill_price_cases(2) [of t "pd_intent p"] unfolding trade_fill_def by simp
    with ih hit(9,10,13,16) show ?thesis
      by (auto intro!: exI [of _ "gs @ hs"] exI [of _ "burn + burned"])
  qed
qed simp

lemma resting_keys_only: "wf_dict (sim_pending s) \<Longrightarrow> only_instrument (set (resting_keys s iid)) iid s"
  by (auto simp: only_instrument_def resting_keys_def wf_dict_def dest: eq_key_imp_eq_value)

lemma apply_trade_cases:
  assumes "apply_trade cfg t s = Inr (fs, s')" and "sim_ok k s"
    and "on_grid k (tr_quantity t)" and "0 \<le> tr_quantity t"
  shows "sim_ok k s'" and "sim_fill_log s' = sim_fill_log s @ fs" and "filled_total fs \<le> tr_quantity t"
    and "\<forall>f \<in> set fs. trade_fill t f"
proof -
  let ?s1 = "set_state (tr_instrument_id t)
    ((state_of s (tr_instrument_id t))\<lparr>last_trade_price := Some (tr_price t), last_trade_at := Some (tr_received_at t)\<rparr>) s"
  from assms(1) obtain vol where
    f: "fold_result (apply_trade_to cfg t) (resting_keys ?s1 (tr_instrument_id t)) (tr_quantity t, [], ?s1) = Inr (vol, fs, s')"
    by (auto simp: apply_trade_def Let_def bind_result_Inr_iff)
  have "sim_ok k ?s1"
    using assms(2) sim_ok_state [OF assms(2)] by (intro set_state_ok) (auto simp: state_ok_def)
  moreover have "only_instrument (set (resting_keys ?s1 (tr_instrument_id t))) (tr_instrument_id t) ?s1"
    using assms(2) by (intro resting_keys_only) (simp add: sim_ok_def)
  ultimately have "sim_ok k s' \<and> 0 \<le> vol \<and> (\<exists>gs burned. fs = [] @ gs \<and> sim_fill_log s' = sim_fill_log ?s1 @ gs \<and>
     0 \<le> burned \<and> vol + burned + filled_total gs = tr_quantity t \<and> (\<forall>f \<in> set gs. trade_fill t f))"
    using assms(3,4) by (intro apply_trade_fold [OF f])
  then show "sim_ok k s'" "sim_fill_log s' = sim_fill_log s @ fs" "filled_total fs \<le> tr_quantity t"
      "\<forall>f \<in> set fs. trade_fill t f"
    by auto
qed

section \<open>Controls, activation and events\<close>

lemma apply_replace_ok [keeps]:
  assumes "apply_replace_immediate cfg c np nq now s = Inr (b, s')"
    and ok: "sim_ok k s" and cfg: "cfg_ok k cfg" and nq: "\<And>q. nq = Some q \<Longrightarrow> on_grid k q"
  shows "sim_ok k s'"
proof (cases "\<exists>p. dict_get (sim_pending s) c = Some p \<and> is_live (pd_status p)")
  case False
  with assms(1) ok show ?thesis by (auto simp: apply_replace_immediate_def split: option.splits)
next
  case True
  then obtain p where p: "dict_get (sim_pending s) c = Some p" "is_live (pd_status p)" by blast
  note pok = sim_ok_pending [OF ok p(1)]
  let ?i = "pd_intent p"
  let ?q = "case nq of None \<Rightarrow> oi_quantity ?i | Some q \<Rightarrow> q" and ?pr = "case np of None \<Rightarrow> oi_price ?i | Some x \<Rightarrow> x"
  have gq: "on_grid k ?q" using nq pok by (auto simp: pending_ok_def intent_ok_def split: option.splits)
  show ?thesis
  proof (cases "?q \<le> pd_filled_quantity p")
    case True
    with assms(1) p have "s' = set_pending c (p\<lparr>pd_status := CANCELED\<rparr>) s"
      by (auto simp: apply_replace_immediate_def Let_def)
    with ok canceled_ok [OF pok] show ?thesis by (simp add: set_pending_ok)
  next
    case False
    with assms(1) p obtain p1 s1 j where
      p1: "(p1, s1) = (p, s) \<or> (\<exists>qe. sc_queue_estimator cfg (oi_instrument_id ?i) (oi_side ?i)
          (order_side_value (oi_order_side ?i)) ?pr ?q (ms_book (state_of s (oi_instrument_id ?i))) = Inr qe \<and>
          p1 = p\<lparr>pd_queue_ahead := ahead_quantity qe, pd_submitted_at := now\<rparr> \<and>
          s1 = ensure_state (oi_instrument_id ?i) s)"
      and j: "mk_order_intent (?i\<lparr>oi_price := ?pr, oi_quantity := ?q\<rparr>) = Inr j"
      and s': "s' = set_pending c (p1\<lparr>pd_intent := j, pd_replace_request := None\<rparr>) s1"
      unfolding apply_replace_immediate_def Let_def
      by (auto simp: bind_result_Inr_iff split: if_splits)
    have "sim_ok k s1" using p1 ok by (auto simp: ensure_state_ok)
    have q0: "0 \<le> ?q" using j by (simp add: mk_order_intent_Inr_iff)
    from p1 have "0 \<le> pd_queue_ahead p1 \<and> on_grid k (pd_queue_ahead p1)"
    proof (elim disjE exE conjE)
      fix qe
      assume e: "sc_queue_estimator cfg (oi_instrument_id ?i) (oi_side ?i)
          (order_side_value (oi_order_side ?i)) ?pr ?q (ms_book (state_of s (oi_instrument_id ?i))) = Inr qe"
        and "p1 = p\<lparr>pd_queue_ahead := ahead_quantity qe, pd_submitted_at := now\<rparr>"
      with estimate_ok [OF cfg e sim_ok_book [OF ok] gq q0] show ?thesis by simp
    qed (use pok in \<open>simp add: pending_ok_def\<close>)
    moreover have "pd_filled_quantity p1 = pd_filled_quantity p" "pd_status p1 = pd_status p"
      using p1 by auto
    moreover have "intent_ok k j" "oi_quantity j = ?q"
      using j gq by (auto simp: intent_ok_def mk_order_intent_Inr_iff)
    ultimately have "pending_ok k (p1\<lparr>pd_intent := j, pd_replace_request := None\<rparr>)"
      using False pok p(2) unfolding pending_ok_def by (simp add: request_ok_def is_live_def) auto
    with \<open>sim_ok k s1\<close> s' show ?thesis by (simp add: set_pending_ok)
  qed
qed

lemma clear_request_ok [keeps]: "sim_ok k s \<Longrightarrow> sim_ok k (clear_request c s)"
  using sim_ok_pending [of k s c]
  by (auto simp: clear_request_def pending_ok_def request_ok_def split: option.splits intro!: set_pending_ok)

lemma due_control_ok [keeps]:
  assumes "due_control cfg now c s = Inr s'" and "sim_ok k s" and "cfg_ok k cfg"
  shows "sim_ok k s'"
proof (cases "dict_get (sim_pending s) c")
  case (Some p)
  note pok = sim_ok_pending [OF assms(2) Some]
  have c: "pending_ok k (p\<lparr>pd_status := CANCELED, pd_cancel_effective_at := None\<rparr>)"
    using pok by (simp add: pending_ok_def is_live_def)
  consider "s' = s" | "s' = set_pending c (p\<lparr>pd_status := CANCELED, pd_cancel_effective_at := None\<rparr>) s"
    | r b s1 where "pd_replace_request p = Some r"
        "apply_replace_immediate cfg c (pr_new_price r) (pr_new_quantity r) (pr_effective_at r) s = Inr (b, s1)"
        "s' = clear_request c s1"
    using assms(1) Some
    by (auto simp: due_control_def bind_result_Inr_iff split: if_splits option.splits)
  then show ?thesis
  proof cases
    case 3
    then have "sim_ok k s1"
      using pok assms by (intro apply_replace_ok [OF 3(2)]) (auto simp: pending_ok_def request_ok_def)
    with 3 show ?thesis by (simp add: clear_request_ok)
  qed (use assms c in \<open>auto simp: set_pending_ok\<close>)
qed (use assms in \<open>auto simp: due_control_def\<close>)

lemma apply_due_controls_ok [keeps]:
  "apply_due_controls cfg now s = Inr s' \<Longrightarrow> sim_ok k s \<Longrightarrow> cfg_ok k cfg \<Longrightarrow> sim_ok k s'"
  unfolding apply_due_controls_def
  by (erule fold_result_invariant) (auto intro: due_control_ok)

lemma activate_order_ok [keeps]:
  assumes "activate_order cfg c (fs, s) = Inr (fs', s')" and ok: "sim_ok k s" and cfg: "cfg_ok k cfg"
  shows "sim_ok k s'"
proof (cases "dict_get (sim_pending s) c")
  case (Some p)
  note pok = sim_ok_pending [OF ok Some]
  let ?i = "pd_intent p" and ?s1 = "ensure_state (oi_instrument_id (pd_intent p)) s"
  have i: "intent_ok k ?i" using pok by (simp add: pending_ok_def)
  have s1: "sim_ok k ?s1" by (rule ensure_state_ok [OF ok])
  consider gs where "fill_marketable cfg ?i (pd_effective_at p) (pd_venue_order_id p)
      (?s1\<lparr>sim_pending := dict_pop c (sim_pending ?s1)\<rparr>) = Inr (gs, s')"
    | "s' = set_pending c (p\<lparr>pd_status := CANCELED\<rparr>) ?s1"
    | qe where "sc_queue_estimator cfg (oi_instrument_id ?i) (oi_side ?i) (order_side_value (oi_order_side ?i))
         (oi_price ?i) (pd_remaining p) (ms_book (state_of ?s1 (oi_instrument_id ?i))) = Inr qe"
        "s' = set_pending c
           (p\<lparr>pd_queue_ahead := ahead_quantity qe, pd_submitted_at := pd_effective_at p, pd_active := True\<rparr>) ?s1"
    using assms(1) Some by (auto simp: activate_order_def Let_def bind_result_Inr_iff split: if_splits)
  then show ?thesis
  proof cases
    case 1
    show ?thesis by (rule fill_marketable_ok [OF 1 pop_ok [OF s1] cfg i])
  next
    case 2
    with canceled_ok [OF pok] s1 show ?thesis by (simp add: set_pending_ok)
  next
    case 3
    have "0 \<le> ahead_quantity qe \<and> on_grid k (ahead_quantity qe)"
      using remaining_grid [OF pok] sim_ok_book [OF s1] by (intro estimate_ok [OF cfg 3(1)]) auto
    with pok have "pending_ok k (p\<lparr>pd_queue_ahead := ahead_quantity qe, pd_submitted_at := pd_effective_at p, pd_active := True\<rparr>)"
      by (simp add: pending_ok_def)
    with 3(2) s1 show ?thesis by (simp add: set_pending_ok)
  qed
qed (use assms in \<open>auto simp: activate_order_def\<close>)

lemma activate_due_orders_ok [keeps]:
  assumes "activate_due_orders cfg now s = Inr (fs, s')" and "sim_ok k s" and "cfg_ok k cfg"
  shows "sim_ok k s'"
proof -
  have "sim_ok k (snd (fs, s'))"
    using assms(1) unfolding activate_due_orders_def
    by (rule fold_result_invariant) (use assms(2,3) in \<open>auto intro: activate_order_ok\<close>)
  then show ?thesis by simp
qed

lemma advance_time_ok [keeps]:
  "advance_time cfg now s = Inr (fs, s') \<Longrightarrow> sim_ok k s \<Longrightarrow> cfg_ok k cfg \<Longrightarrow> sim_ok k s'"
  by (auto simp: advance_time_def bind_result_Inr_iff intro: apply_due_controls_ok activate_due_orders_ok)

lemma cancel_all_ok [keeps]: "sim_ok k s \<Longrightarrow> sim_ok k (cancel_all_for iid s)"
  by (auto simp: sim_ok_def cancel_all_for_def list_all_iff dict_map_def canceled_ok
      intro!: canceled_ok split: if_splits)
    (auto simp: wf_dict_def comp_def case_prod_unfold)

lemma set_book_ok [keeps]: "sim_ok k s \<Longrightarrow> book_ok k b \<Longrightarrow> sim_ok k (set_book b s)"
  by (simp add: set_book_def set_state_ok state_ok_def)

lemma status_update_ok:
  "sim_ok k s \<Longrightarrow> sim_ok k (set_state iid ((state_of s iid)\<lparr>ms_status := st\<rparr>) (ensure_state iid s))"
  using sim_ok_state [of k s iid] by (simp add: set_state_ok ensure_state_ok state_ok_def)

text \<open>What an event has to satisfy: its book or its trade volume is on the grid.\<close>

fun event_ok :: "nat \<Rightarrow> normalized_event \<Rightarrow> bool" where
  "event_ok k (OrderBookEvent eid b prov) = book_ok k b"
| "event_ok k (TradeEvent eid t prov) = (0 \<le> tr_quantity t \<and> on_grid k (tr_quantity t))"
| "event_ok k _ = True"

lemma sim_on_event_ok [keeps]:
  assumes "sim_on_event cfg e s = Inr (fs, s')" and "sim_ok k s" and "cfg_ok k cfg" and "event_ok k e"
  shows "sim_ok k s'"
proof (cases e)
  case (OrderBookEvent eid b prov)
  with assms show ?thesis
    by (auto simp: Let_def bind_result_Inr_iff split: if_splits
        dest!: apply_due_controls_ok [OF _ ensure_state_ok] activate_due_orders_ok intro!: set_book_ok)
next
  case (TradeEvent eid t prov)
  with assms show ?thesis
    by (auto simp: bind_result_Inr_iff dest!: advance_time_ok apply_trade_cases(1) [where k = k])
next
  case (LifecycleEvent eid lc prov)
  with assms show ?thesis
    by (auto simp: Let_def intro!: cancel_all_ok status_update_ok ensure_state_ok split: if_splits)
qed (use assms in \<open>auto intro: advance_time_ok\<close>)

section \<open>Orders and runs\<close>

lemma draw_latency_frame:
  assumes "draw_latency cfg kind s = (d, s')"
  shows "sim_pending s' = sim_pending s" and "sim_states s' = sim_states s" and "sim_fill_log s' = sim_fill_log s"
    and "state_of s' iid = state_of s iid" and "sim_ok k s' = sim_ok k s"
  using assms by (auto simp: draw_latency_def state_of_def sim_ok_def)

lemma next_venue_order_id_frame:
  assumes "next_venue_order_id s = (v, s')"
  shows "sim_pending s' = sim_pending s" and "sim_states s' = sim_states s" and "sim_fill_log s' = sim_fill_log s"
    and "state_of s' iid = state_of s iid" and "sim_ok k s' = sim_ok k s"
  using assms by (auto simp: next_venue_order_id_def Let_def state_of_def sim_ok_def)

text \<open>The three outcomes of an accepted submission: in flight, filled as a taker, or resting.\<close>

definition submitted_order :: "order_intent \<Rightarrow> datetime \<Rightarrow> datetime \<Rightarrow> string \<Rightarrow> decimal \<Rightarrow> bool \<Rightarrow> pending_order" where
  "submitted_order i now eff void q act =
     \<lparr>pd_intent = i, pd_submitted_at = now, pd_effective_at = eff, pd_venue_order_id = void,
      pd_queue_ahead = q, pd_filled_quantity = 0, pd_status = OPEN, pd_active = act,
      pd_cancel_effective_at = None, pd_replace_request = None\<rparr>"

lemma sim_submit_cases:
  assumes "sim_submit cfg i now s = Inr (fs, s')"
  obtains s1 where "\<not> blocked_kind (ms_status (state_of s (oi_instrument_id i)))"
      and "sim_pending s1 = sim_pending s" and "sim_fill_log s1 = sim_fill_log s"
      and "\<forall>iid. state_of s1 iid = state_of s iid" and "\<forall>k. sim_ok k s \<longrightarrow> sim_ok k s1"
      and "(\<exists>eff void. fs = [] \<and>
             s' = set_pending (client_order_id_of i void) (submitted_order i now eff void 0 False) s1)
        \<or> (\<exists>eff void. fill_marketable cfg i eff void s1 = Inr (fs, s'))
        \<or> (\<exists>eff void qe. sc_queue_estimator cfg (oi_instrument_id i) (oi_side i) (order_side_value (oi_order_side i))
               (oi_price i) (oi_quantity i) (ms_book (state_of s (oi_instrument_id i))) = Inr qe \<and> fs = [] \<and>
             s' = set_pending (client_order_id_of i void) (submitted_order i now eff void (ahead_quantity qe) True) s1)"
proof -
  let ?s0 = "ensure_state (oi_instrument_id i) s"
  obtain d s2 where d: "draw_latency cfg ''submit'' ?s0 = (d, s2)" by fastforce
  obtain v s3 where v: "next_venue_order_id s2 = (v, s3)" by fastforce
  note fr = draw_latency_frame [OF d] next_venue_order_id_frame [OF v]
  let ?eff = "dt_plus now d"
  have nb: "\<not> blocked_kind (ms_status (state_of s (oi_instrument_id i)))"
    using assms by (auto simp: sim_submit_def Let_def split: if_splits)
  have "fs = [] \<and> s' = set_pending (client_order_id_of i v) (submitted_order i now ?eff v 0 False) s3
      \<or> fill_marketable cfg i ?eff v s3 = Inr (fs, s')
      \<or> (\<exists>qe. sc_queue_estimator cfg (oi_instrument_id i) (oi_side i) (order_side_value (oi_order_side i))
             (oi_price i) (oi_quantity i) (ms_book (state_of s (oi_instrument_id i))) = Inr qe \<and> fs = [] \<and>
           s' = set_pending (client_order_id_of i v) (submitted_order i now ?eff v (ahead_quantity qe) True) s3)"
    using assms d v nb
    by (auto simp: sim_submit_def Let_def submitted_order_def bind_result_Inr_iff split: if_splits)
  then show thesis
    using fr nb ensure_state_ok by (intro that [of s3]) (auto, blast+)
qed

lemma submitted_order_ok:
  "intent_ok k i \<Longrightarrow> 0 \<le> q \<Longrightarrow> on_grid k q \<Longrightarrow> pending_ok k (submitted_order i now eff void q act)"
  by (simp add: pending_ok_def submitted_order_def intent_ok_def request_ok_def)

lemma sim_submit_ok [keeps]:
  assumes "sim_submit cfg i now s = Inr (fs, s')" and "sim_ok k s" and "cfg_ok k cfg" and "intent_ok k i"
  shows "sim_ok k s'"
  using assms(1)
proof (cases rule: sim_submit_cases)
  case (1 s1)
  then have ok1: "sim_ok k s1" using assms(2) by blast
  from 1(6) show ?thesis
  proof (elim disjE exE conjE)
    fix eff void qe
    assume e: "sc_queue_estimator cfg (oi_instrument_id i) (oi_side i) (order_side_value (oi_order_side i))
        (oi_price i) (oi_quantity i) (ms_book (state_of s (oi_instrument_id i))) = Inr qe"
      and s': "s' = set_pending (client_order_id_of i void) (submitted_order i now eff void (ahead_quantity qe) True) s1"
    have "0 \<le> ahead_quantity qe \<and> on_grid k (ahead_quantity qe)"
      using assms(4) sim_ok_book [OF assms(2)] by (intro estimate_ok [OF assms(3) e]) (auto simp: intent_ok_def)
    with s' ok1 assms(4) show ?thesis by (simp add: set_pending_ok submitted_order_ok)
  qed (use ok1 assms(3,4) in
      \<open>auto intro: fill_marketable_ok simp: set_pending_ok submitted_order_ok\<close>)
qed

lemma sim_cancel_cases:
  obtains "snd (sim_cancel cfg c now s) = s"
  | p d s1 where "dict_get (sim_pending s) c = Some p" and "is_live (pd_status p)" and "s1 = s \<or> draw_latency cfg ''cancel'' s = (d, s1)"
      and "snd (sim_cancel cfg c now s) = set_pending c (p\<lparr>pd_status := CANCELED\<rparr>) s1 \<or>
        (\<exists>eff. snd (sim_cancel cfg c now s) = set_pending c (p\<lparr>pd_cancel_effective_at := Some eff\<rparr>) s1)"
proof (cases "\<exists>p. dict_get (sim_pending s) c = Some p \<and> is_live (pd_status p)")
  case False
  then show thesis by (intro that(1)) (auto simp: sim_cancel_def split: option.splits)
next
  case True
  then obtain p where p: "dict_get (sim_pending s) c = Some p" "is_live (pd_status p)" by blast
  show thesis
  proof (cases now)
    case None
    with p show thesis by (intro that(2) [of p s]) (auto simp: sim_cancel_def)
  next
    case (Some t)
    obtain d s1 where d: "draw_latency cfg ''cancel'' s = (d, s1)" by fastforce
    with p Some show thesis by (intro that(2) [of p s1 d]) (auto simp: sim_cancel_def Let_def)
  qed
qed

lemma sim_cancel_ok [keeps]:
  assumes "sim_ok k s"
  shows "sim_ok k (snd (sim_cancel cfg c now s))"
proof (cases rule: sim_cancel_cases [of cfg c now s])
  case (2 p d s1)
  have "sim_ok k s1" using 2(3) assms draw_latency_frame(5) by blast
  moreover have "pending_ok k p" by (rule sim_ok_pending [OF assms 2(1)])
  moreover from this have "pending_ok k (p\<lparr>pd_cancel_effective_at := x\<rparr>)" for x by (simp add: pending_ok_def)
  ultimately have "sim_ok k (set_pending c (p\<lparr>pd_status := CANCELED\<rparr>) s1)"
    and "\<And>x. sim_ok k (set_pending c (p\<lparr>pd_cancel_effective_at := x\<rparr>) s1)"
    by (auto intro!: set_pending_ok canceled_ok)
  then show ?thesis using 2(4) by metis
qed (use assms in simp)

lemma sim_replace_ok [keeps]:
  assumes "sim_replace cfg c np nq now s = Inr (b, s')" and "sim_ok k s" and "cfg_ok k cfg"
    and nq: "\<And>q. nq = Some q \<Longrightarrow> on_grid k q"
  shows "sim_ok k s'"
proof (cases "\<exists>p. dict_get (sim_pending s) c = Some p \<and> is_live (pd_status p)")
  case False
  with assms(1,2) show ?thesis by (auto simp: sim_replace_def split: option.splits if_splits)
next
  case True
  then obtain p where p: "dict_get (sim_pending s) c = Some p" "is_live (pd_status p)" by blast
  obtain d s1 where d: "draw_latency cfg ''replace'' s = (d, s1)" by fastforce
  have s1: "sim_ok k s1" using draw_latency_frame(5) [OF d] assms(2) by simp
  let ?r = "\<lparr>pr_effective_at = dt_plus now d, pr_new_price = np, pr_new_quantity = nq\<rparr>"
  have "pending_ok k (p\<lparr>pd_replace_request := Some ?r\<rparr>)"
    using sim_ok_pending [OF assms(2) p(1)] nq
    by (auto simp: pending_ok_def request_ok_def split: option.splits)
  then have "sim_ok k (set_pending c (p\<lparr>pd_replace_request := Some ?r\<rparr>) s1)" by (rule set_pending_ok [OF s1])
  with assms(1) p d show ?thesis
    by (auto simp: sim_replace_def Let_def split: if_splits intro: apply_replace_ok [OF _ s1 assms(3) nq])
qed

text \<open>What a call has to satisfy: its quantities are on the grid.\<close>

definition decision_ok :: "nat \<Rightarrow> strategy_decision \<Rightarrow> bool" where
  "decision_ok k d = (case d of
       PlaceOrder p \<Rightarrow> on_grid k (po_quantity p)
     | ReplaceOrder r \<Rightarrow> (case ro_new_quantity r of None \<Rightarrow> True | Some q \<Rightarrow> on_grid k q)
     | _ \<Rightarrow> True)"

fun call_ok :: "nat \<Rightarrow> sim_call \<Rightarrow> bool" where
  "call_ok k (CallEvent e) = event_ok k e"
| "call_ok k (CallSubmit i now) = intent_ok k i"
| "call_ok k (CallCancel c now) = True"
| "call_ok k (CallReplace c np nq now) = (case nq of None \<Rightarrow> True | Some q \<Rightarrow> on_grid k q)"
| "call_ok k (CallEnvelope e) = decision_ok k (env_decision e)"

lemma intent_to_order_ok:
  assumes "intent_to_order e = Inr (Some i)" and "decision_ok k (env_decision e)"
  shows "intent_ok k i"
  using assms
  by (auto simp: intent_to_order_def bind_result_Inr_iff mk_order_intent_Inr_iff intent_ok_def decision_ok_def
      split: strategy_decision.splits option.splits)

lemma submit_envelope_ok [keeps]:
  assumes "submit_envelope cfg e s = Inr (fs, s')" and "sim_ok k s" and "cfg_ok k cfg" and "decision_ok k (env_decision e)"
  shows "sim_ok k s'"
proof (cases "env_decision e")
  case (PlaceOrder d)
  from assms(1) PlaceOrder obtain oi where o: "intent_to_order e = Inr oi"
    "(case oi of None \<Rightarrow> Inr ([], s) | Some i \<Rightarrow> sim_submit cfg i (emitted_at e) s) = Inr (fs, s')"
    by (auto simp: submit_envelope_def bind_result_Inr_iff)
  show ?thesis
  proof (cases oi)
    case (Some i)
    with o sim_submit_ok [OF _ assms(2,3) intent_to_order_ok [OF _ assms(4)]] show ?thesis by simp
  qed (use o assms in simp)
next
  case (ReplaceOrder d)
  with assms show ?thesis
    by (auto simp: submit_envelope_def bind_result_Inr_iff decision_ok_def split: option.splits
        intro: sim_replace_ok)
qed (use assms in \<open>auto simp: submit_envelope_def intro: sim_cancel_ok\<close>)

lemma run_call_ok [keeps]:
  assumes "run_call cfg c s = Inr (fs, s')" and "sim_ok k s" and "cfg_ok k cfg" and "call_ok k c"
  shows "sim_ok k s'"
  using assms
  by (cases c) (auto simp: bind_result_Inr_iff split: option.splits
      intro: sim_on_event_ok sim_submit_ok sim_cancel_ok sim_replace_ok submit_envelope_ok)

lemma sim_run_keeps_ok:
  assumes "sim_run cfg s0 cs fs s" and "sim_ok k s0" and "cfg_ok k cfg" and "\<forall>c \<in> set cs. call_ok k c"
  shows "sim_ok k s"
  using assms by (induction rule: sim_run.induct) (auto simp: sim_step_iff intro: run_call_ok)

end
