(* ===== verification/SimulatorProps.thy ===== *)
theory SimulatorProps
  imports SimulatorInvariant
begin

text \<open>
  What the simulator guarantees over whole calls and runs: the log of fills, the silence of a
  closed market, and a small concrete scenario on which the guarantees are exercised.
\<close>

section \<open>The fill log\<close>

lemma activate_order_log:
  "activate_order cfg c (fs, s) = Inr (fs', s') \<Longrightarrow> \<exists>gs. fs' = fs @ gs \<and> sim_fill_log s' = sim_fill_log s @ gs"
  by (auto simp: activate_order_def Let_def bind_result_Inr_iff split: option.splits if_splits
      dest: fill_marketable_log)

lemma due_control_log: "due_control cfg now c s = Inr s' \<Longrightarrow> sim_fill_log s' = sim_fill_log s"
  by (auto simp: due_control_def bind_result_Inr_iff apply_replace_frame(1) split: option.splits if_splits)

lemma apply_due_controls_log:
  assumes "apply_due_controls cfg now s = Inr s'"
  shows "sim_fill_log s' = sim_fill_log s"
  using assms unfolding apply_due_controls_def
  by (rule fold_result_invariant) (auto dest: due_control_log)

lemma activate_due_orders_log:
  assumes "activate_due_orders cfg now s = Inr (fs, s')"
  shows "sim_fill_log s' = sim_fill_log s @ fs"
proof -
  have "case (fs, s') of (fs, s') \<Rightarrow> sim_fill_log s' = sim_fill_log s @ fs"
    using assms unfolding activate_due_orders_def
    by (rule fold_result_invariant) (auto dest!: activate_order_log)
  then show ?thesis by simp
qed

lemma advance_time_log: "advance_time cfg now s = Inr (fs, s') \<Longrightarrow> sim_fill_log s' = sim_fill_log s @ fs"
  by (auto simp: advance_time_def bind_result_Inr_iff dest!: apply_due_controls_log activate_due_orders_log)

lemma apply_trade_to_log:
  "apply_trade_to cfg t c (v, fs, s) = Inr (v', fs', s') \<Longrightarrow>
     \<exists>gs. fs' = fs @ gs \<and> sim_fill_log s' = sim_fill_log s @ gs"
  by (auto simp: apply_trade_to_def take_passive_def Let_def bind_result_Inr_iff
      split: option.splits if_splits prod.splits dest: emit_fill_frame(3))

lemma apply_trade_log:
  assumes "apply_trade cfg t s = Inr (fs, s')"
  shows "sim_fill_log s' = sim_fill_log s @ fs"
proof -
  let ?s1 = "set_state (tr_instrument_id t)
    ((state_of s (tr_instrument_id t))\<lparr>last_trade_price := Some (tr_price t), last_trade_at := Some (tr_received_at t)\<rparr>) s"
  from assms obtain vol where
    f: "fold_result (apply_trade_to cfg t) (resting_keys ?s1 (tr_instrument_id t)) (tr_quantity t, [], ?s1) = Inr (vol, fs, s')"
    by (auto simp: apply_trade_def Let_def bind_result_Inr_iff)
  have "case (vol, fs, s') of (_, fs, s') \<Rightarrow> sim_fill_log s' = sim_fill_log ?s1 @ fs"
    using f by (rule fold_result_invariant) (auto dest!: apply_trade_to_log)
  then show ?thesis by simp
qed

lemma sim_on_event_log: "sim_on_event cfg e s = Inr (fs, s') \<Longrightarrow> sim_fill_log s' = sim_fill_log s @ fs"
  by (cases e) (auto simp: Let_def bind_result_Inr_iff set_book_def cancel_all_for_def split: if_splits
      dest!: apply_due_controls_log activate_due_orders_log advance_time_log apply_trade_log)

lemma sim_submit_log: "sim_submit cfg i now s = Inr (fs, s') \<Longrightarrow> sim_fill_log s' = sim_fill_log s @ fs"
  by (erule sim_submit_cases) (auto dest: fill_marketable_log)

lemma sim_cancel_log: "sim_fill_log (snd (sim_cancel cfg c now s)) = sim_fill_log s"
  by (rule sim_cancel_cases [of cfg c now s]) (auto dest: draw_latency_frame(3))

lemma sim_replace_log:
  "sim_replace cfg c np nq now s = Inr (b, s') \<Longrightarrow> sim_fill_log s' = sim_fill_log s"
  by (auto simp: sim_replace_def Let_def draw_latency_def apply_replace_frame(1) split: option.splits if_splits)

lemma submit_envelope_log: "submit_envelope cfg e s = Inr (fs, s') \<Longrightarrow> sim_fill_log s' = sim_fill_log s @ fs"
  by (auto simp: submit_envelope_def bind_result_Inr_iff sim_cancel_log sim_replace_log
      split: strategy_decision.splits option.splits dest: sim_submit_log)

lemma run_call_log: "run_call cfg c s = Inr (fs, s') \<Longrightarrow> sim_fill_log s' = sim_fill_log s @ fs"
  by (cases c) (auto simp: bind_result_Inr_iff sim_cancel_log sim_replace_log
      dest: sim_on_event_log sim_submit_log submit_envelope_log)

section \<open>A closed market is silent\<close>

definition dead :: "instrument_id \<Rightarrow> pending_order \<Rightarrow> bool" where
  "dead iid p \<longleftrightarrow> (oi_instrument_id (pd_intent p) = iid \<longrightarrow> \<not> is_live (pd_status p))"

definition all_dead :: "instrument_id \<Rightarrow> simulator \<Rightarrow> bool" where
  "all_dead iid s \<longleftrightarrow> list_all (dead iid \<circ> snd) (sim_pending s)"

definition market_closed :: "instrument_id \<Rightarrow> simulator \<Rightarrow> bool" where
  "market_closed iid s \<longleftrightarrow> ms_status (state_of s iid) \<in> {CLOSED, DETERMINED, FINALIZED} \<and> all_dead iid s"

definition silent :: "instrument_id \<Rightarrow> fill list \<Rightarrow> bool" where
  "silent iid fs \<longleftrightarrow> list_all (\<lambda>f. f_instrument_id f \<noteq> iid) fs"

lemma silent_simps [simp]: "silent iid []" "silent iid (fs @ gs) \<longleftrightarrow> silent iid fs \<and> silent iid gs"
  "silent iid (f # fs) \<longleftrightarrow> f_instrument_id f \<noteq> iid \<and> silent iid fs"
  by (auto simp: silent_def)

lemma all_dead_get: "all_dead iid s \<Longrightarrow> dict_get (sim_pending s) c = Some p \<Longrightarrow> dead iid p"
  unfolding all_dead_def by (rule list_all_dict_get)

lemma all_dead_set: "sim_pending s' = dict_set c p (sim_pending s) \<Longrightarrow> all_dead iid s \<Longrightarrow> dead iid p \<Longrightarrow> all_dead iid s'"
  by (simp add: all_dead_def list_all_dict_set)

lemma all_dead_set_pending: "all_dead iid s \<Longrightarrow> dead iid p \<Longrightarrow> all_dead iid (set_pending c p s)"
  by (rule all_dead_set [OF set_pending_simps(1)])

lemma all_dead_cong: "sim_pending s' = sim_pending s \<Longrightarrow> all_dead iid s' = all_dead iid s"
  by (simp add: all_dead_def)

lemma walk_levels_instrument:
  "walk_levels cfg i t void n ls rem consumed fills s = Inr (rem', consumed', fills', s') \<Longrightarrow>
     oi_instrument_id i \<noteq> iid \<Longrightarrow> silent iid fills \<Longrightarrow> silent iid fills'"
proof (induction ls arbitrary: n rem consumed fills s)
  case (Cons l ls)
  then show ?case
    by (fastforce simp: bind_result_Inr_iff Let_def split: if_splits dest: emit_fill_frame(7))
qed simp

lemma fill_marketable_silent:
  assumes "fill_marketable cfg i t void s = Inr (fs, s')" and "oi_instrument_id i \<noteq> iid" and "all_dead iid s"
  shows "silent iid fs" and "all_dead iid s'"
proof -
  from assms(1) show "silent iid fs"
    by (cases rule: fill_marketable_cases) (auto dest: walk_levels_instrument [OF _ assms(2)])
  from fill_marketable_pending [OF assms(1)] show "all_dead iid s'"
  proof (elim disjE exE conjE)
    fix p assume "oi_instrument_id (pd_intent p) = oi_instrument_id i"
      and eq: "sim_pending s' = dict_set (client_order_id_of i void) p (sim_pending s)"
    with assms(2) have "dead iid p" by (simp add: dead_def)
    then show ?thesis by (rule all_dead_set [OF eq assms(3)])
  qed (use assms(3) all_dead_cong in blast)
qed

lemma apply_replace_dead:
  assumes "apply_replace_immediate cfg c np nq now s = Inr (b, s')" and "all_dead iid s"
  shows "all_dead iid s'"
proof (cases "dict_get (sim_pending s) c")
  case None
  with apply_replace_frame(3) [OF assms(1)] assms(2) show ?thesis by (simp add: all_dead_def)
next
  case (Some p)
  from assms(1) Some obtain q where q: "replaced p q" "sim_pending s' = dict_set c q (sim_pending s)"
    by (rule apply_replace_pending)
  with all_dead_get [OF assms(2) Some] have "dead iid q"
    by (auto simp: replaced_def dead_def is_live_def)
  then show ?thesis by (rule all_dead_set [OF q(2) assms(2)])
qed

lemma clear_request_dead: "all_dead iid s \<Longrightarrow> all_dead iid (clear_request c s)"
  using all_dead_get [of iid s c]
  by (auto simp: clear_request_def dead_def split: option.splits intro!: all_dead_set_pending)

lemma due_control_dead:
  assumes "due_control cfg now c s = Inr s'" and "all_dead iid s"
  shows "all_dead iid s'"
proof -
  have c: "all_dead iid (set_pending c (p\<lparr>pd_status := CANCELED, pd_cancel_effective_at := None\<rparr>) s)" for p
    using assms(2) by (intro all_dead_set_pending) (auto simp: dead_def is_live_def)
  show ?thesis
    using assms c
    by (auto simp: due_control_def bind_result_Inr_iff split: option.splits if_splits
        intro: clear_request_dead apply_replace_dead)
qed

lemma due_control_status: "due_control cfg now c s = Inr s' \<Longrightarrow> state_of s' iid = state_of s iid"
  by (auto simp: due_control_def bind_result_Inr_iff apply_replace_frame(2) split: option.splits if_splits)

lemma apply_due_controls_closed:
  assumes "apply_due_controls cfg now s = Inr s'"
  shows "all_dead iid s \<Longrightarrow> all_dead iid s'" and "state_of s' jid = state_of s jid"
proof -
  show "all_dead iid s'" if "all_dead iid s"
    using assms that unfolding apply_due_controls_def
    by (rule fold_result_invariant) (rule due_control_dead)
  show "state_of s' jid = state_of s jid"
    using assms unfolding apply_due_controls_def
    by (rule fold_result_invariant) (auto simp: due_control_status)
qed

text \<open>Activation touches only in-flight orders, so none of a closed market.\<close>

definition elsewhere :: "string list \<Rightarrow> instrument_id \<Rightarrow> simulator \<Rightarrow> bool" where
  "elsewhere ks iid s \<longleftrightarrow>
     (\<forall>c \<in> set ks. \<forall>p. dict_get (sim_pending s) c = Some p \<longrightarrow> oi_instrument_id (pd_intent p) \<noteq> iid)"

lemma activate_order_silent:
  assumes "activate_order cfg c (fs, s) = Inr (fs', s')" and "all_dead iid s" and "elsewhere ks iid s"
    and "c \<in> set ks" and "silent iid fs"
  shows "all_dead iid s' \<and> elsewhere ks iid s' \<and> silent iid fs'
    \<and> ms_status (state_of s' jid) = ms_status (state_of s jid)"
proof (cases "dict_get (sim_pending s) c")
  case None
  with assms show ?thesis by (simp add: activate_order_def)
next
  case (Some p)
  let ?i = "pd_intent p" and ?s1 = "ensure_state (oi_instrument_id (pd_intent p)) s"
  let ?s2 = "?s1\<lparr>sim_pending := dict_pop c (sim_pending ?s1)\<rparr>"
  have i: "oi_instrument_id ?i \<noteq> iid" using assms(3,4) Some by (auto simp: elsewhere_def)
  have pop: "all_dead iid ?s2" using assms(2) by (simp add: all_dead_def list_all_dict_pop)
  consider gs where "fill_marketable cfg ?i (pd_effective_at p) (pd_venue_order_id p) ?s2 = Inr (gs, s')" "fs' = fs @ gs"
    | q where "pd_intent q = ?i" "s' = set_pending c q ?s1" "fs' = fs"
  proof (cases "is_marketable ?i (ms_book (state_of ?s1 (oi_instrument_id ?i)))")
    case True
    with assms(1) Some that(1) show thesis by (auto simp: activate_order_def Let_def bind_result_Inr_iff)
  next
    case False
    with assms(1) Some that(2) [of "p\<lparr>pd_status := CANCELED\<rparr>"]
      that(2) [of "p\<lparr>pd_queue_ahead := x, pd_submitted_at := pd_effective_at p, pd_active := True\<rparr>" for x]
    show thesis by (auto simp: activate_order_def Let_def bind_result_Inr_iff split: if_splits)
  qed
  then show ?thesis
  proof cases
    case 1
    have "elsewhere ks iid s'"
      using fill_marketable_pending [OF 1(1)] i assms(3) by (auto simp: elsewhere_def split: if_splits)
    with fill_marketable_silent [OF 1(1) i pop] fill_marketable_status [OF 1(1)] 1(2) assms(5)
    show ?thesis by simp
  next
    case 2
    have "dead iid q" using i 2(1) by (simp add: dead_def)
    then have "all_dead iid s'"
      using 2(2) assms(2) all_dead_cong [of ?s1 s] by (simp add: all_dead_set_pending)
    with 2 i assms(3,5) show ?thesis by (auto simp: elsewhere_def)
  qed
qed

lemma activate_due_orders_silent:
  assumes "activate_due_orders cfg now s = Inr (fs, s')" and "all_dead iid s" and "wf_dict (sim_pending s)"
  shows "all_dead iid s'" and "silent iid fs" and "ms_status (state_of s' jid) = ms_status (state_of s jid)"
proof -
  let ?ks = "due_ids now s"
  have el: "elsewhere ?ks iid s"
  proof -
    have "oi_instrument_id (pd_intent p) \<noteq> iid" if "(c, p) \<in> set (sim_pending s)" "in_flight p" for c p
      using assms(2) that by (force simp: all_dead_def list_all_iff dead_def in_flight_def)
    then show ?thesis
      using assms(3) by (auto simp: elsewhere_def due_ids_def wf_dict_def dest: eq_key_imp_eq_value)
  qed
  have "case (fs, s') of (fs, s') \<Rightarrow> all_dead iid s' \<and> elsewhere ?ks iid s' \<and> silent iid fs \<and>
      ms_status (state_of s' jid) = ms_status (state_of s jid)"
    using assms(1) unfolding activate_due_orders_def
  proof (rule fold_result_invariant)
    fix c a b
    assume "c \<in> set ?ks" and "case a of (fs, s') \<Rightarrow> all_dead iid s' \<and> elsewhere ?ks iid s' \<and> silent iid fs \<and>
        ms_status (state_of s' jid) = ms_status (state_of s jid)" and "activate_order cfg c a = Inr b"
    then show "case b of (fs, s') \<Rightarrow> all_dead iid s' \<and> elsewhere ?ks iid s' \<and> silent iid fs \<and>
        ms_status (state_of s' jid) = ms_status (state_of s jid)"
      using activate_order_silent [of cfg c "fst a" "snd a" "fst b" "snd b" iid ?ks jid] by (cases a; cases b) auto
  qed (use assms(2) el in simp)
  then show "all_dead iid s'" and "silent iid fs" and "ms_status (state_of s' jid) = ms_status (state_of s jid)" by auto
qed

text \<open>The keys of the pending orders stay distinct through every call.\<close>

abbreviation wf_pending :: "simulator \<Rightarrow> bool" where
  "wf_pending s \<equiv> wf_dict (sim_pending s)"

lemma advance_time_wf: "advance_time cfg now s = Inr (fs, s') \<Longrightarrow> wf_pending s \<Longrightarrow> wf_pending s'"
  by (auto simp: advance_time_def bind_result_Inr_iff
      dest: apply_due_controls_progress(1) activate_due_orders_weight(1))

lemma apply_trade_to_effect:
  assumes "apply_trade_to cfg t c (v, fs, s) = Inr (v', fs', s')"
  shows "\<exists>gs. fs' = fs @ gs \<and> (\<forall>iid. state_of s' iid = state_of s iid) \<and>
    (wf_pending s \<longrightarrow> wf_pending s') \<and> (all_dead iid s \<longrightarrow> all_dead iid s' \<and> silent iid gs)"
proof (cases "\<exists>p price. dict_get (sim_pending s) c = Some p \<and> is_live (pd_status p) \<and>
    passive_fill_price t (pd_intent p) = Some price \<and> v > 0 \<and> pd_active p \<and>
    \<not> instant (tr_received_at t) < instant (pd_effective_at p)")
  case False
  with assms show ?thesis by (auto simp: apply_trade_to_def split: if_splits option.splits)
next
  case True
  then obtain p price where p: "dict_get (sim_pending s) c = Some p" "is_live (pd_status p)"
    "passive_fill_price t (pd_intent p) = Some price" "v > 0" "pd_active p"
    "\<not> instant (tr_received_at t) < instant (pd_effective_at p)" by blast
  obtain p1 v1 where b: "burn_queue p v = (p1, v1)" by fastforce
  have i: "pd_intent p1 = pd_intent p" "pd_status p1 = pd_status p"
    using b by (auto simp: burn_queue_def Let_def split: if_splits)
  have d: "dead iid q" if "all_dead iid s" "pd_intent q = pd_intent p" for q
    using all_dead_get [OF that(1) p(1)] that(2) p(2) by (simp add: dead_def)
  have f: "silent iid [f]" if "all_dead iid s" "f_instrument_id f = oi_instrument_id (pd_intent p)" for f
    using all_dead_get [OF that(1) p(1)] that(2) p(2) by (auto simp: dead_def)
  show ?thesis
  proof (cases "pd_queue_ahead p1 > 0 \<or> min (pd_remaining p1) v1 \<le> 0")
    case True
    with assms p b have "fs' = fs" "s' = set_pending c p1 s"
      by (auto simp: apply_trade_to_def take_passive_def Let_def split: if_splits)
    with d i show ?thesis by (auto intro: all_dead_set_pending)
  next
    case False
    with assms p b obtain g s1 q where
      e: "emit_fill cfg (pd_intent p1) price (min (pd_remaining p1) v1) (tr_received_at t) MAKER
         (pd_venue_order_id p1) (set_pending c p1 s) = Inr (g, s1)"
      and r: "fs' = fs @ [g]" "s' = set_pending c q s1" "pd_intent q = pd_intent p"
      using i by (auto simp: apply_trade_to_def take_passive_def Let_def bind_result_Inr_iff)
    note e' = emit_fill_frame [OF e]
    have "all_dead iid s'" if "all_dead iid s"
    proof (rule all_dead_set)
      show "sim_pending s' = dict_set c q (sim_pending s)" using r(2) e'(1) by simp
      show "dead iid q" by (rule d [OF that r(3)])
    qed (rule that)
    with r e' f i emit_fill_state_of [OF e] show ?thesis by auto
  qed
qed

lemma apply_trade_effect:
  assumes "apply_trade cfg t s = Inr (fs, s')"
  shows "ms_status (state_of s' jid) = ms_status (state_of s jid)"
    and "wf_pending s \<Longrightarrow> wf_pending s'" and "all_dead iid s \<Longrightarrow> all_dead iid s' \<and> silent iid fs"
proof -
  let ?s1 = "set_state (tr_instrument_id t)
    ((state_of s (tr_instrument_id t))\<lparr>last_trade_price := Some (tr_price t), last_trade_at := Some (tr_received_at t)\<rparr>) s"
  from assms obtain vol where
    f: "fold_result (apply_trade_to cfg t) (resting_keys ?s1 (tr_instrument_id t)) (tr_quantity t, [], ?s1) = Inr (vol, fs, s')"
    by (auto simp: apply_trade_def Let_def bind_result_Inr_iff)
  have "case (vol, fs, s') of (_, fs, s') \<Rightarrow> ms_status (state_of s' jid) = ms_status (state_of s jid) \<and>
      (wf_pending s \<longrightarrow> wf_pending s') \<and> (all_dead iid s \<longrightarrow> all_dead iid s' \<and> silent iid fs)"
    using f
  proof (rule fold_result_invariant)
    show "case (tr_quantity t, [], ?s1) of (_, fs, s') \<Rightarrow> ms_status (state_of s' jid) = ms_status (state_of s jid) \<and>
        (wf_pending s \<longrightarrow> wf_pending s') \<and> (all_dead iid s \<longrightarrow> all_dead iid s' \<and> silent iid fs)"
      using all_dead_cong [of ?s1 s] by auto
  next
    fix c a b
    assume "case a of (_, fs, s') \<Rightarrow> ms_status (state_of s' jid) = ms_status (state_of s jid) \<and>
        (wf_pending s \<longrightarrow> wf_pending s') \<and> (all_dead iid s \<longrightarrow> all_dead iid s' \<and> silent iid fs)"
      and "apply_trade_to cfg t c a = Inr b"
    then show "case b of (_, fs, s') \<Rightarrow> ms_status (state_of s' jid) = ms_status (state_of s jid) \<and>
        (wf_pending s \<longrightarrow> wf_pending s') \<and> (all_dead iid s \<longrightarrow> all_dead iid s' \<and> silent iid fs)"
      using apply_trade_to_effect [of cfg t c "fst a" "fst (snd a)" "snd (snd a)" "fst b" "fst (snd b)" "snd (snd b)" iid]
      by (cases a; cases b) auto
  qed
  then show "ms_status (state_of s' jid) = ms_status (state_of s jid)"
    and "wf_pending s \<Longrightarrow> wf_pending s'" and "all_dead iid s \<Longrightarrow> all_dead iid s' \<and> silent iid fs" by auto
qed

text \<open>Every call but a lifecycle event of the instrument keeps its market closed and silent.\<close>

fun about_lifecycle :: "instrument_id \<Rightarrow> sim_call \<Rightarrow> bool" where
  "about_lifecycle iid (CallEvent (LifecycleEvent eid lc prov)) = (lc_instrument_id lc = iid)"
| "about_lifecycle iid _ = False"

lemma market_closedI:
  "market_closed iid s \<Longrightarrow> ms_status (state_of s' iid) = ms_status (state_of s iid) \<Longrightarrow> all_dead iid s' \<Longrightarrow> market_closed iid s'"
  by (simp add: market_closed_def)

lemma advance_time_closed:
  assumes "advance_time cfg now s = Inr (fs, s')" and "market_closed iid s" and "wf_pending s"
  shows "market_closed iid s' \<and> silent iid fs"
proof -
  from assms(1) obtain s1 where c: "apply_due_controls cfg now s = Inr s1" "activate_due_orders cfg now s1 = Inr (fs, s')"
    by (auto simp: advance_time_def bind_result_Inr_iff)
  note k = apply_due_controls_closed [OF c(1)] and w = apply_due_controls_progress(1) [OF c(1) assms(3)]
  have "all_dead iid s1" using k(1) assms(2) by (simp add: market_closed_def)
  note a = activate_due_orders_silent [OF c(2) this w]
  show ?thesis using a k(2) assms(2) by (auto intro: market_closedI)
qed

lemma all_dead_simps [simp]:
  "all_dead iid (set_state jid st s) = all_dead iid s"
  "all_dead iid (ensure_state jid s) = all_dead iid s"
  "all_dead iid (set_book b s) = all_dead iid s"
  by (simp_all add: all_dead_def set_book_def)

lemma cancel_all_dead: "all_dead iid s \<Longrightarrow> all_dead iid (cancel_all_for jid s)"
  by (auto simp: all_dead_def cancel_all_for_def dict_map_def list_all_iff dead_def is_live_def split: if_splits)

lemma cancel_all_kills: "all_dead iid (cancel_all_for iid s)"
  by (auto simp: all_dead_def cancel_all_for_def dict_map_def list_all_iff dead_def is_live_def split: if_splits)

lemma cancel_all_simps [simp]:
  "state_of (cancel_all_for jid s) iid = state_of s iid"
  "wf_pending (cancel_all_for jid s) = wf_pending s"
  by (simp_all add: cancel_all_for_def)

lemma set_book_simps [simp]:
  "ms_status (state_of (set_book b s) iid) = ms_status (state_of s iid)"
  "sim_pending (set_book b s) = sim_pending s"
  by (simp_all add: set_book_def)

lemma book_event_closed:
  assumes "sim_on_event cfg (OrderBookEvent eid b prov) s = Inr (fs, s')" and "wf_pending s"
  shows "wf_pending s'" and "market_closed iid s \<Longrightarrow> market_closed iid s' \<and> silent iid fs"
proof -
  let ?i = "bk_instrument_id b"
  from assms(1) obtain s2 where c: "apply_due_controls cfg (bk_received_at b) (ensure_state ?i s) = Inr s2"
    and r: "activate_due_orders cfg (bk_received_at b) (set_book b s2) = Inr (fs, s') \<or>
      (\<exists>s3. activate_due_orders cfg (bk_received_at b) s2 = Inr (fs, s3) \<and> s' = set_book b s3)"
    by (auto simp: Let_def bind_result_Inr_iff split: if_splits)
  have w: "wf_pending s2" using apply_due_controls_progress(1) [OF c] assms(2) by simp
  note k = apply_due_controls_closed [OF c]
  show "wf_pending s'" using r w activate_due_orders_weight(1) by fastforce
  assume m: "market_closed iid s"
  then have d: "all_dead iid s2" using k(1) by (simp add: market_closed_def)
  from r show "market_closed iid s' \<and> silent iid fs"
  proof (elim disjE exE conjE)
    assume a: "activate_due_orders cfg (bk_received_at b) (set_book b s2) = Inr (fs, s')"
    show ?thesis
      using activate_due_orders_silent(1,2) [OF a, of iid] activate_due_orders_silent(3) [OF a, of iid iid] d w k(2) m
      by (auto intro: market_closedI)
  next
    fix s3
    assume a: "activate_due_orders cfg (bk_received_at b) s2 = Inr (fs, s3)" and "s' = set_book b s3"
    then show ?thesis
      using activate_due_orders_silent [OF a d w] k(2) m by (auto intro: market_closedI)
  qed
qed

lemma sim_on_event_closed:
  assumes "sim_on_event cfg e s = Inr (fs, s')" and "wf_pending s"
  shows "wf_pending s'"
    and "market_closed iid s \<Longrightarrow> \<not> about_lifecycle iid (CallEvent e) \<Longrightarrow> market_closed iid s' \<and> silent iid fs"
proof -
  have "wf_pending s' \<and> (market_closed iid s \<longrightarrow> \<not> about_lifecycle iid (CallEvent e) \<longrightarrow> market_closed iid s' \<and> silent iid fs)"
  proof (cases e)
    case (OrderBookEvent eid b prov)
    with book_event_closed assms show ?thesis by metis
  next
    case (QuoteEvent eid q prov)
    with assms show ?thesis by (auto dest: advance_time_wf advance_time_closed)
  next
    case (TradeEvent eid t prov)
    with assms obtain f1 f2 s1 where a: "advance_time cfg (tr_received_at t) s = Inr (f1, s1)"
      and t: "apply_trade cfg t s1 = Inr (f2, s')" and fs: "fs = f1 @ f2"
      by (auto simp: bind_result_Inr_iff)
    have w: "wf_pending s1" by (rule advance_time_wf [OF a assms(2)])
    have "market_closed iid s' \<and> silent iid fs" if m: "market_closed iid s"
      using advance_time_closed [OF a m assms(2)] apply_trade_effect(1) [OF t, of iid] apply_trade_effect(3) [OF t, of iid] fs
      by (auto simp: market_closed_def)
    with apply_trade_effect(2) [OF t w] show ?thesis by blast
  next
    case (LifecycleEvent eid lc prov)
    with assms show ?thesis
      by (auto simp: Let_def market_closed_def split: if_splits intro: cancel_all_dead)
  qed (use assms in auto)
  then show "wf_pending s'"
    and "market_closed iid s \<Longrightarrow> \<not> about_lifecycle iid (CallEvent e) \<Longrightarrow> market_closed iid s' \<and> silent iid fs" by auto
qed

lemma sim_submit_closed:
  assumes "sim_submit cfg i now s = Inr (fs, s')" and "wf_pending s"
  shows "wf_pending s' \<and> (market_closed iid s \<longrightarrow> market_closed iid s' \<and> silent iid fs)"
  using assms(1)
proof (cases rule: sim_submit_cases)
  case (1 s1)
  have w: "wf_pending s1" using 1(2) assms(2) by simp
  have m: "market_closed iid s1 \<and> oi_instrument_id i \<noteq> iid" if "market_closed iid s"
    using that 1(1,2,4) all_dead_cong [of s1 s] by (auto simp: market_closed_def blocked_kind_def)
  have d: "oi_instrument_id i \<noteq> iid \<Longrightarrow> dead iid (submitted_order i now eff void q act)" for eff void q act
    by (simp add: dead_def submitted_order_def)
  have p: "wf_pending (set_pending c (submitted_order i now eff void q act) s1) \<and>
      (market_closed iid s \<longrightarrow> market_closed iid (set_pending c (submitted_order i now eff void q act) s1))" for c eff void q act
    using w m d by (auto simp: market_closed_def intro: all_dead_set_pending)
  have f: "wf_pending s' \<and> (market_closed iid s \<longrightarrow> market_closed iid s' \<and> silent iid fs)"
    if "fill_marketable cfg i eff void s1 = Inr (fs, s')" for eff void
    using fill_marketable_weight(1) [OF that w] fill_marketable_silent [OF that, of iid] fill_marketable_status [OF that, of iid] m
    by (auto simp: market_closed_def)
  from 1(6) p f show ?thesis by (elim disjE exE conjE) auto
qed

lemma sim_cancel_closed:
  "wf_pending s \<Longrightarrow> wf_pending (snd (sim_cancel cfg c now s))"
  "market_closed iid s \<Longrightarrow> market_closed iid (snd (sim_cancel cfg c now s))"
proof -
  show "wf_pending (snd (sim_cancel cfg c now s))" if "wf_pending s"
    by (rule sim_cancel_cases [of cfg c now s]) (use that draw_latency_frame(1) in \<open>force+\<close>)
  assume m: "market_closed iid s"
  show "market_closed iid (snd (sim_cancel cfg c now s))"
  proof (cases rule: sim_cancel_cases [of cfg c now s])
    case (2 p d s1)
    have s1: "market_closed iid s1"
      using 2(3) m draw_latency_frame(1) [of cfg "''cancel''" s d s1]
        draw_latency_frame(4) [of cfg "''cancel''" s d s1] all_dead_cong [of s1 s] by (auto simp: market_closed_def)
    have "dead iid p" using all_dead_get [OF _ 2(1)] m by (simp add: market_closed_def)
    then have "market_closed iid (set_pending c (p\<lparr>pd_status := CANCELED\<rparr>) s1)"
      "\<And>x. market_closed iid (set_pending c (p\<lparr>pd_cancel_effective_at := x\<rparr>) s1)"
      using s1 by (auto simp: market_closed_def dead_def is_live_def intro!: all_dead_set_pending)
    with 2(4) show ?thesis by metis
  qed (use m in simp)
qed

lemma apply_replace_wf:
  assumes "apply_replace_immediate cfg c np nq now s = Inr (b, s')" and "wf_pending s"
  shows "wf_pending s'"
proof (cases "dict_get (sim_pending s) c")
  case None
  with apply_replace_frame(3) [OF assms(1)] assms(2) show ?thesis by simp
next
  case (Some p)
  from assms(1) Some obtain q where "sim_pending s' = dict_set c q (sim_pending s)"
    by (rule apply_replace_pending)
  with assms(2) show ?thesis by simp
qed

lemma sim_replace_closed:
  assumes "sim_replace cfg c np nq now s = Inr (b, s')"
  shows "wf_pending s \<Longrightarrow> wf_pending s'" and "market_closed iid s \<Longrightarrow> market_closed iid s'"
proof -
  obtain d s1 where d: "draw_latency cfg ''replace'' s = (d, s1)" by fastforce
  note fr = draw_latency_frame [OF d]
  have "s' = s \<or> (\<exists>p. dict_get (sim_pending s) c = Some p \<and>
      s' = set_pending c (p\<lparr>pd_replace_request := Some \<lparr>pr_effective_at = dt_plus now d, pr_new_price = np,
                                                        pr_new_quantity = nq\<rparr>\<rparr>) s1)
      \<or> apply_replace_immediate cfg c np nq (dt_plus now d) s1 = Inr (b, s')"
    using assms d by (auto simp: sim_replace_def Let_def split: option.splits if_splits)
  then consider "s' = s"
    | p r where "dict_get (sim_pending s) c = Some p" "s' = set_pending c (p\<lparr>pd_replace_request := r\<rparr>) s1"
    | eff where "apply_replace_immediate cfg c np nq eff s1 = Inr (b, s')"
    by (elim disjE exE conjE) (rule that, assumption+)+
  note cs = this
  show "wf_pending s'" if "wf_pending s"
  proof (cases rule: cs)
    case 3
    with apply_replace_wf [OF 3] fr(1) that show ?thesis by simp
  qed (use that fr(1) in auto)
  assume m: "market_closed iid s"
  then have m1: "market_closed iid s1" using fr(1,4) all_dead_cong [of s1 s] by (auto simp: market_closed_def)
  show "market_closed iid s'"
  proof (cases rule: cs)
    case (2 p r)
    have "dead iid p" using all_dead_get [OF _ 2(1)] m by (simp add: market_closed_def)
    with 2(2) m1 show ?thesis by (auto simp: market_closed_def dead_def intro!: all_dead_set_pending)
  next
    case (3 eff)
    with m1 apply_replace_frame(2) [OF 3] apply_replace_dead [OF 3] show ?thesis by (simp add: market_closed_def)
  qed (use m in simp)
qed

lemma run_call_closed:
  assumes "run_call cfg c s = Inr (fs, s')" and "wf_pending s"
  shows "wf_pending s'" and "market_closed iid s \<Longrightarrow> \<not> about_lifecycle iid c \<Longrightarrow> market_closed iid s' \<and> silent iid fs"
proof -
  have env: "wf_pending s' \<and> (market_closed iid s \<longrightarrow> market_closed iid s' \<and> silent iid fs)"
    if "submit_envelope cfg e s = Inr (fs, s')" for e
  proof (cases "env_decision e")
    case (PlaceOrder d)
    with that assms(2) sim_submit_closed [OF _ assms(2), of cfg _ "emitted_at e" fs s' iid] show ?thesis
      by (auto simp: submit_envelope_def bind_result_Inr_iff split: option.splits)
  next
    case (ReplaceOrder d)
    with that assms(2) sim_replace_closed show ?thesis
      by (fastforce simp: submit_envelope_def bind_result_Inr_iff)
  qed (use that assms(2) sim_cancel_closed in \<open>auto simp: submit_envelope_def\<close>)
  have "wf_pending s' \<and> (market_closed iid s \<longrightarrow> \<not> about_lifecycle iid c \<longrightarrow> market_closed iid s' \<and> silent iid fs)"
  proof (cases c)
    case (CallEvent e)
    with assms sim_on_event_closed [of cfg e s fs s'] show ?thesis by auto
  next
    case (CallSubmit i now)
    with assms sim_submit_closed [of cfg i now s fs s' iid] show ?thesis by auto
  next
    case (CallReplace k np nq now)
    with assms sim_replace_closed show ?thesis by (fastforce simp: bind_result_Inr_iff)
  qed (use assms env sim_cancel_closed in auto)
  then show "wf_pending s'"
    and "market_closed iid s \<Longrightarrow> \<not> about_lifecycle iid c \<Longrightarrow> market_closed iid s' \<and> silent iid fs" by auto
qed

lemma sim_run_wf: "sim_run cfg s0 cs fs s \<Longrightarrow> wf_pending s0 \<Longrightarrow> wf_pending s"
  by (induction rule: sim_run.induct) (auto simp: sim_step_iff intro: run_call_closed(1))

lemma sim_run_closed:
  assumes "sim_run cfg s0 cs fs s" and "market_closed iid s0" and "wf_pending s0"
    and "\<forall>c \<in> set cs. \<not> about_lifecycle iid c"
  shows "market_closed iid s \<and> silent iid fs"
  using assms
proof (induction rule: sim_run.induct)
  case (run_step cs fs s c gs s')
  then have "market_closed iid s \<and> silent iid fs" and "wf_pending s" by (auto intro: sim_run_wf)
  with run_step run_call_closed(2) [of cfg c s gs s' iid] show ?case by (auto simp: sim_step_iff)
qed simp

section \<open>A concrete scenario\<close>

definition demo_iid :: instrument_id where
  "demo_iid = \<lparr>iid_venue = KALSHI, market_id = ''RAIN-NYC'', outcome_id = None\<rparr>"

definition demo_cfg :: "timedelta \<Rightarrow> sim_config" where
  "demo_cfg lat = \<lparr>sc_fee_model = (\<lambda>c. Inr \<lparr>est_amount = 0, est_currency = ''USD'', est_model_name = ''zero'', est_notes = []\<rparr>),
     sc_latency = (\<lambda>n kind. lat), sc_queue_estimator = depth_estimate ''depth'',
     sc_strategy_id = ''strategy'', sc_sleeve_id = ''sleeve''\<rparr>"

definition demo_book :: order_book where
  "demo_book = \<lparr>bk_instrument_id = demo_iid, yes_bids = [\<lparr>lvl_price = 45 / 100, lvl_quantity = 3\<rparr>],
     yes_asks = [\<lparr>lvl_price = 1 / 2, lvl_quantity = 10\<rparr>, \<lparr>lvl_price = 55 / 100, lvl_quantity = 20\<rparr>],
     no_bids = [], no_asks = [], bk_exchange_ts = None, bk_received_at = utc 0\<rparr>"

definition demo_intent :: "decimal \<Rightarrow> decimal \<Rightarrow> time_in_force \<Rightarrow> order_intent" where
  "demo_intent p q tif = \<lparr>oi_instrument_id = demo_iid, oi_side = YES, oi_price = p, oi_quantity = q,
     oi_order_type = ''limit'', oi_order_side = BUY, oi_time_in_force = tif, oi_post_only = False, oi_metadata = []\<rparr>"

definition demo_sim :: simulator where
  "demo_sim = set_book demo_book new_simulator"

definition demo_trade :: "decimal \<Rightarrow> decimal \<Rightarrow> trade" where
  "demo_trade p q = \<lparr>tr_instrument_id = demo_iid, tr_side = Some YES, tr_price = p, tr_quantity = q, trade_id = None,
     tr_exchange_ts = None, tr_received_at = utc 9, aggressor_side = Some NO, tr_metadata = []\<rparr>"

definition demo_close :: normalized_event where
  "demo_close = LifecycleEvent ''e1'' \<lparr>lc_instrument_id = demo_iid, lc_kind = CLOSED, lc_exchange_ts = None,
     lc_received_at = utc 9, lc_reason = None, lc_metadata = []\<rparr> default_provenance"

text \<open>The state a successful call returns.\<close>

definition state_after :: "(fill list \<times> simulator) result \<Rightarrow> simulator" where
  "state_after r = (case r of Inr (fs, s) \<Rightarrow> s | Inl e \<Rightarrow> new_simulator)"

definition fills_of :: "(fill list \<times> simulator) result \<Rightarrow> fill list" where
  "fills_of r = (case r of Inr (fs, s) \<Rightarrow> fs | Inl e \<Rightarrow> [])"

definition succeeds :: "'a result \<Rightarrow> bool" where
  "succeeds r = (case r of Inr x \<Rightarrow> True | Inl e \<Rightarrow> False)"

lemma succeedsD: "succeeds r \<Longrightarrow> r = Inr (fills_of r, state_after r)"
  by (auto simp: succeeds_def fills_of_def state_after_def split: sum.splits prod.splits)

text \<open>A list of calls, run in order.\<close>

definition run_calls :: "sim_config \<Rightarrow> sim_call list \<Rightarrow> simulator \<Rightarrow> (fill list \<times> simulator) result" where
  "run_calls cfg cs s =
     fold_result (\<lambda>c (fs, s). bind_result (run_call cfg c s) (\<lambda>(gs, s'). Inr (fs @ gs, s'))) cs ([], s)"

lemma run_calls_sim_run:
  "run_calls cfg cs s = Inr (fs, s') \<Longrightarrow> sim_run cfg s cs fs s'"
proof (induction cs arbitrary: fs s' rule: rev_induct)
  case (snoc c cs)
  then show ?case
    by (auto simp: run_calls_def fold_result_append bind_result_Inr_iff sim_step_iff intro!: run_step)
qed (auto simp: run_calls_def intro: run_start)

definition demo_calls :: "sim_call list" where
  "demo_calls =
     [CallEvent (OrderBookEvent ''e0'' demo_book default_provenance),
      CallSubmit (demo_intent (45 / 100) 5 GTC) (utc 5),
      CallEvent (TradeEvent ''e1'' (demo_trade (45 / 100) 6) default_provenance)]"

definition demo_resting :: simulator where
  "demo_resting = state_after (sim_submit (demo_cfg 0) (demo_intent (45 / 100) 5 GTC) (utc 5) demo_sim)"

definition demo_closed :: simulator where
  "demo_closed = state_after (sim_on_event (demo_cfg 0) demo_close demo_resting)"

definition demo_flying :: simulator where
  "demo_flying = state_after (sim_submit (demo_cfg 7) (demo_intent (55 / 100) 15 GTC) (utc 5) demo_sim)"

lemma demo_cfg_ok: "cfg_ok k (demo_cfg lat)"
  unfolding cfg_ok_def demo_cfg_def by (simp add: depth_grid.grid_queue_model_axioms)

lemma demo_book_ok: "book_ok 0 demo_book"
  by code_simp

section \<open>Guarantees\<close>

text \<open>
  C17: A marketable order takes at most its quantity, every taker fill respects the order's limit,
  the depth of the consumed side of the book falls by exactly the quantity filled while the other
  side is untouched, and an unfilled remainder that rests does so with exactly the rest of the
  quantity.
\<close>

theorem taker_fill_conservation:
  assumes "fill_marketable cfg i t void s = Inr (fs, s')"
    and "ms_book (state_of s (oi_instrument_id i)) = Some b" and "book_ok k b" and "intent_ok k i"
  shows "filled_total fs \<le> oi_quantity i
    \<and> (\<forall>f \<in> set fs. f_liquidity f = TAKER \<and> 0 < f_quantity f \<and>
        (oi_order_type i \<noteq> ''market'' \<longrightarrow>
          (oi_order_side i = BUY \<longrightarrow> f_price f \<le> oi_price i) \<and> (oi_order_side i = SELL \<longrightarrow> oi_price i \<le> f_price f)))
    \<and> (\<exists>b'. ms_book (state_of s' (oi_instrument_id i)) = Some b' \<and>
        total_quantity (opposite_levels b' (oi_side i) (oi_order_side i))
          = total_quantity (opposite_levels b (oi_side i) (oi_order_side i)) - filled_total fs \<and>
        same_side_levels b' (oi_side i) (oi_order_side i) = same_side_levels b (oi_side i) (oi_order_side i))
    \<and> (remainder_rests i (oi_quantity i - filled_total fs) \<longrightarrow>
        (\<exists>p. dict_get (sim_pending s') (client_order_id_of i void) = Some p \<and>
          oi_quantity (pd_intent p) = oi_quantity i - filled_total fs \<and> pd_filled_quantity p = 0))"
    (is "_ \<and> ?lim \<and> _ \<and> _")
proof (cases "oi_time_in_force i = FOK \<and>
    marketable_quantity i (opposite_levels b (oi_side i) (oi_order_side i)) < oi_quantity i")
  case True
  with assms have "fs = []" "s' = s" by (auto simp: fill_marketable_def)
  with True assms(2,4) show ?thesis by (auto simp: intent_ok_def remainder_rests_def)
next
  case False
  let ?ls = "opposite_levels b (oi_side i) (oi_order_side i)"
  from fill_marketable_greedy [OF assms False] obtain rem b' s2 where
    g: "map f_quantity fs = greedy i (oi_quantity i) ?ls" "map f_price fs = map lvl_price (take (length fs) ?ls)"
    and fs: "\<forall>f \<in> set fs. f_liquidity f = TAKER \<and> fill_check f = None \<and> f_outcome_side f = oi_side i \<and>
           f_order_side f = oi_order_side i \<and> f_instrument_id f = oi_instrument_id i"
    and rem: "rem = oi_quantity i - filled_total fs" "0 \<le> rem"
    and b': "opposite_levels b' (oi_side i) (oi_order_side i) = debited ?ls (greedy i (oi_quantity i) ?ls)"
      "same_side_levels b' (oi_side i) (oi_order_side i) = same_side_levels b (oi_side i) (oi_order_side i)"
      "ms_book (state_of s2 (oi_instrument_id i)) = Some b'"
    and rest: "rest_remainder cfg i t void b' rem fs s2 = Inr (fs, s')" by metis
  have tot: "filled_total fs = sum_list (greedy i (oi_quantity i) ?ls)" using g(1) by (simp add: filled_total_def)
  have lim: ?lim using greedy_prices [OF g(2,1)] fs by (simp add: fill_check_iff)
  have book: "ms_book (state_of s' (oi_instrument_id i)) = Some b'"
    using rest_remainder_cases(2) [OF rest] b'(3) by auto
  have "remainder_rests i rem \<Longrightarrow> \<exists>p. dict_get (sim_pending s') (client_order_id_of i void) = Some p \<and>
      oi_quantity (pd_intent p) = rem \<and> pd_filled_quantity p = 0"
    using rest_remainder_cases(2) [OF rest] by (auto simp: mk_order_intent_Inr_iff)
  with rem lim book b'(1,2) tot debited_total [of ?ls i "oi_quantity i"] show ?thesis by auto
qed

theorem taker_fill_conservation_witness:
  "succeeds (fill_marketable (demo_cfg 0) (demo_intent (55 / 100) 35 GTC) (utc 5) ''v1'' demo_sim)
   \<and> filled_total (fills_of (fill_marketable (demo_cfg 0) (demo_intent (55 / 100) 35 GTC) (utc 5) ''v1'' demo_sim)) \<le> 35
   \<and> map f_quantity (fills_of (fill_marketable (demo_cfg 0) (demo_intent (55 / 100) 35 GTC) (utc 5) ''v1'' demo_sim)) = [10, 20]"
proof -
  have r: "succeeds (fill_marketable (demo_cfg 0) (demo_intent (55 / 100) 35 GTC) (utc 5) ''v1'' demo_sim)"
    by code_simp
  have b: "ms_book (state_of demo_sim (oi_instrument_id (demo_intent (55 / 100) 35 GTC))) = Some demo_book"
    by code_simp
  have i: "intent_ok 0 (demo_intent (55 / 100) 35 GTC)" by code_simp
  have q: "map f_quantity (fills_of (fill_marketable (demo_cfg 0) (demo_intent (55 / 100) 35 GTC) (utc 5) ''v1'' demo_sim)) = [10, 20]"
    by code_simp
  from taker_fill_conservation [OF succeedsD [OF r] b demo_book_ok i] r q show ?thesis
    by (simp add: demo_intent_def)
qed

text \<open>A fill-or-kill order that reaches the matching is filled completely or not at all.\<close>

lemma fok_fills_or_nothing:
  assumes "fill_marketable cfg i t void s = Inr (fs, s')" and "oi_time_in_force i = FOK"
    and "ms_book (state_of s (oi_instrument_id i)) = Some b" and "book_ok k b" and "intent_ok k i"
  shows "(fs = [] \<or> filled_total fs = oi_quantity i) \<and> sim_pending s' = sim_pending s"
proof (cases "marketable_quantity i (opposite_levels b (oi_side i) (oi_order_side i)) < oi_quantity i")
  case True
  with assms show ?thesis by (auto simp: fill_marketable_def)
next
  case False
  let ?ls = "opposite_levels b (oi_side i) (oi_order_side i)"
  from fill_marketable_greedy [OF assms(1,3,4,5)] False obtain rem b' s2 where
    g: "map f_quantity fs = greedy i (oi_quantity i) ?ls" and p: "sim_pending s2 = sim_pending s"
    and rest: "rest_remainder cfg i t void b' rem fs s2 = Inr (fs, s')" by metis
  have "filled_total fs = oi_quantity i"
    using g fok_fills_completely [of k ?ls i] False assms(4,5) by (simp add: filled_total_def)
  moreover have "s' = s2" using rest_remainder_cases(2) [OF rest] assms(2) by (auto simp: remainder_rests_def)
  ultimately show ?thesis using p by simp
qed

lemma ensure_state_fields [simp]:
  "sim_pending (ensure_state iid s) = sim_pending s" "sim_draws (ensure_state iid s) = sim_draws s"
  "state_of (ensure_state iid s) iid = state_of s iid"
  by (auto simp: ensure_state_def set_state_def state_of_def split: option.splits)

lemma is_marketable_book: "is_marketable i book \<Longrightarrow> \<exists>b. book = Some b"
  by (auto simp: is_marketable_def split: option.splits)


text \<open>Crossing the book it fills ten and fifteen; below the best ask it stays open; after a latency it is canceled.\<close>

definition fok_below :: order_intent where
  "fok_below = demo_intent (45 / 100) 5 FOK"


text \<open>
  C1: In every run of calls from a fresh simulator, with quantities and books on a decimal grid,
  the pending orders stay consistent: filled at most their quantity, the live ones less, the
  FILLED ones exactly, with a non-negative queue ahead, and the stored books stay valid.
\<close>

theorem sim_run_invariant:
  assumes "sim_run cfg new_simulator cs fs s" and "cfg_ok k cfg" and "\<forall>c \<in> set cs. call_ok k c"
  shows "sim_ok k s"
  by (rule sim_run_keeps_ok [OF assms(1) new_simulator_ok assms(2,3)])

theorem sim_run_invariant_witness:
  "sim_ok 0 (state_after (run_calls (demo_cfg 0) demo_calls new_simulator)) \<and>
   map (\<lambda>p. (pd_filled_quantity p, pd_status p)) (dict_values (sim_pending (state_after (run_calls (demo_cfg 0) demo_calls new_simulator))))
     = [(3, PARTIALLY_FILLED)]"
proof -
  have r: "succeeds (run_calls (demo_cfg 0) demo_calls new_simulator)" by code_simp
  have c: "\<forall>c \<in> set demo_calls. call_ok 0 c" by code_simp
  have p: "map (\<lambda>p. (pd_filled_quantity p, pd_status p)) (dict_values (sim_pending (state_after (run_calls (demo_cfg 0) demo_calls new_simulator))))
     = [(3, PARTIALLY_FILLED)]" by code_simp
  from sim_run_invariant [OF run_calls_sim_run [OF succeedsD [OF r]] demo_cfg_ok c] p show ?thesis by simp
qed

text \<open>
  The fills a trade gives to the resting orders never add up to more than the volume traded; they
  are maker fills of the traded instrument at the trade's price or its complement.
\<close>

theorem trade_fills_bounded:
  assumes "apply_trade cfg t s = Inr (fs, s')" and "sim_ok k s"
    and "on_grid k (tr_quantity t)" and "0 \<le> tr_quantity t"
  shows "filled_total fs \<le> tr_quantity t \<and> list_all (trade_fill t) fs \<and> sim_ok k s'"
  using apply_trade_cases [OF assms] by (simp add: list_all_iff)

theorem trade_fills_bounded_witness:
  "filled_total (fills_of (apply_trade (demo_cfg 0) (demo_trade (45 / 100) 6) demo_resting)) \<le> 6 \<and>
   map f_quantity (fills_of (apply_trade (demo_cfg 0) (demo_trade (45 / 100) 6) demo_resting)) = [3]"
proof -
  have r: "succeeds (apply_trade (demo_cfg 0) (demo_trade (45 / 100) 6) demo_resting)" by code_simp
  have ok: "sim_ok 0 demo_resting" and g: "on_grid 0 (tr_quantity (demo_trade (45 / 100) 6))"
    and n: "0 \<le> tr_quantity (demo_trade (45 / 100) 6)" by code_simp+
  have m: "map f_quantity (fills_of (apply_trade (demo_cfg 0) (demo_trade (45 / 100) 6) demo_resting)) = [3]"
    by code_simp
  from trade_fills_bounded [OF succeedsD [OF r] ok g n] m show ?thesis by (simp add: demo_trade_def)
qed

text \<open>
  The fills returned by the calls of a run are exactly the fills the simulator logged, in order.
\<close>

theorem fill_log_complete:
  assumes "sim_run cfg s0 cs fs s"
  shows "sim_fill_log s = sim_fill_log s0 @ fs"
  using assms by (induction rule: sim_run.induct) (auto simp: sim_step_iff dest: run_call_log)

theorem fill_log_complete_witness:
  "sim_fill_log (state_after (run_calls (demo_cfg 0) demo_calls new_simulator))
     = fills_of (run_calls (demo_cfg 0) demo_calls new_simulator)
   \<and> length (fills_of (run_calls (demo_cfg 0) demo_calls new_simulator)) = 1"
proof -
  have r: "succeeds (run_calls (demo_cfg 0) demo_calls new_simulator)" by code_simp
  have l: "length (fills_of (run_calls (demo_cfg 0) demo_calls new_simulator)) = 1" by code_simp
  from fill_log_complete [OF run_calls_sim_run [OF succeedsD [OF r]]] l show ?thesis
    by (simp add: new_simulator_def)
qed

text \<open>
  Once a market is closed, determined or finalized and its orders are canceled, no sequence of
  calls without a lifecycle event of that market fills an order of it, and it stays closed.
\<close>

theorem closed_market_silent:
  assumes "sim_run cfg s0 cs fs s" and "market_closed iid s0" and "wf_dict (sim_pending s0)"
    and "\<forall>c \<in> set cs. \<not> about_lifecycle iid c"
  shows "market_closed iid s \<and> list_all (\<lambda>f. f_instrument_id f \<noteq> iid) fs"
  using sim_run_closed [OF assms] by (simp add: silent_def)

theorem closed_market_silent_witness:
  "list_all (\<lambda>f. f_instrument_id f \<noteq> demo_iid) (fills_of (run_calls (demo_cfg 0) [CallEvent (TradeEvent ''e2'' (demo_trade (45 / 100) 6) default_provenance)] demo_closed))
   \<and> market_closed demo_iid demo_closed"
proof -
  let ?r = "run_calls (demo_cfg 0) [CallEvent (TradeEvent ''e2'' (demo_trade (45 / 100) 6) default_provenance)] demo_closed"
  have r: "succeeds ?r" and m: "market_closed demo_iid demo_closed" and w: "wf_dict (sim_pending demo_closed)"
    by code_simp+
  from closed_market_silent [OF run_calls_sim_run [OF succeedsD [OF r]] m w] m show ?thesis by simp
qed

text \<open>
  C22: The \<open>while True\<close> loop of \<open>flush_inflight\<close> ends: with distinct client order ids it returns
  (or raises) within the turns it is given, and when it returns no activation, cancel or replace
  is left in flight.
\<close>

theorem flush_inflight_terminates:
  assumes "wf_dict (sim_pending s)"
  shows "\<exists>r. flush_inflight cfg s = Some r \<and> (\<forall>fs s'. r = Inr (fs, s') \<longrightarrow> due_times s' = [])"
  unfolding flush_inflight_def by (rule flush_loop_terminates [OF assms]) simp

theorem flush_inflight_terminates_witness:
  "(\<exists>r. flush_inflight (demo_cfg 7) demo_flying = Some r) \<and> due_times demo_flying = [12]"
proof -
  have w: "wf_dict (sim_pending demo_flying)" and d: "due_times demo_flying = [12]" by code_simp+
  from flush_inflight_terminates [OF w, of "demo_cfg 7"] d show ?thesis by blast
qed

text \<open>
  An immediate-or-cancel order that finds nothing to take is treated differently by the two
  paths. Submitted without latency it rests in the book as a live, active order; activated after a
  latency it is canceled.
\<close>

theorem ioc_rests_only_without_latency:
  assumes "oi_time_in_force i = IOC" and "\<not> is_marketable i (ms_book (state_of s (oi_instrument_id i)))"
  shows "(sc_latency cfg (sim_draws s) ''submit'' \<le> 0 \<longrightarrow> sim_submit cfg i now s = Inr (fs, s') \<longrightarrow>
      (\<exists>c p. dict_get (sim_pending s') c = Some p \<and> pd_intent p = i \<and> pd_status p = OPEN \<and> pd_active p))
    \<and> (dict_get (sim_pending s) c = Some p \<longrightarrow> pd_intent p = i \<longrightarrow>
      (\<exists>t. activate_order cfg c ([], s) = Inr ([], t) \<and>
         dict_get (sim_pending t) c = Some (p\<lparr>pd_status := CANCELED\<rparr>)))"
proof (intro conjI impI)
  assume l: "sc_latency cfg (sim_draws s) ''submit'' \<le> 0" and r: "sim_submit cfg i now s = Inr (fs, s')"
  let ?s1 = "(ensure_state (oi_instrument_id i) s)\<lparr>sim_draws := Suc (sim_draws s)\<rparr>"
  obtain v s3 where v: "next_venue_order_id ?s1 = (v, s3)" by fastforce
  have d: "sim_draws (ensure_state (oi_instrument_id i) s) = sim_draws s"
    by (auto simp: ensure_state_def set_state_def split: option.splits)
  have "\<exists>p. dict_get (sim_pending s') (client_order_id_of i v) = Some p \<and>
      pd_intent p = i \<and> pd_status p = OPEN \<and> pd_active p"
    using l r assms(2) v d
    by (auto simp: sim_submit_def Let_def draw_latency_def bind_result_Inr_iff split: if_splits)
  then show "\<exists>c p. dict_get (sim_pending s') c = Some p \<and> pd_intent p = i \<and> pd_status p = OPEN \<and> pd_active p"
    by blast
next
  assume "dict_get (sim_pending s) c = Some p" and "pd_intent p = i"
  then show "\<exists>t. activate_order cfg c ([], s) = Inr ([], t) \<and>
         dict_get (sim_pending t) c = Some (p\<lparr>pd_status := CANCELED\<rparr>)"
    using assms by (auto simp: activate_order_def Let_def)
qed

theorem ioc_rests_only_without_latency_witness:
  "\<exists>c p. dict_get (sim_pending (state_after (sim_submit (demo_cfg 0) (demo_intent (45 / 100) 5 IOC) (utc 5) demo_sim))) c = Some p
     \<and> pd_intent p = demo_intent (45 / 100) 5 IOC \<and> pd_status p = OPEN \<and> pd_active p"
proof -
  let ?i = "demo_intent (45 / 100) 5 IOC"
  have r: "succeeds (sim_submit (demo_cfg 0) ?i (utc 5) demo_sim)" by code_simp
  have t: "oi_time_in_force ?i = IOC" by (simp add: demo_intent_def)
  have m: "\<not> is_marketable ?i (ms_book (state_of demo_sim (oi_instrument_id ?i)))" by code_simp
  have l: "sc_latency (demo_cfg 0) (sim_draws demo_sim) ''submit'' \<le> 0" by (simp add: demo_cfg_def)
  show ?thesis
    using ioc_rests_only_without_latency [OF t m, THEN conjunct1, rule_format, OF l succeedsD [OF r]] .
qed

end
