(* ===== verification/Numerals.thy ===== *)
theory Numerals
  imports Metadata
begin

text \<open>
  Reading numbers from text, as the risk limits and the strategies do with metadata and parameters:
  \<open>Decimal(str(x))\<close> and \<open>int(str(x))\<close> for a metadata value \<open>x\<close>. Digits are the ASCII digits.
\<close>

section \<open>Digits\<close>

definition is_digit :: "char \<Rightarrow> bool" where
  "is_digit c \<longleftrightarrow> 48 \<le> (of_char c :: nat) \<and> (of_char c :: nat) \<le> 57"

definition is_space :: "char \<Rightarrow> bool" where
  "is_space c \<longleftrightarrow> (of_char c :: nat) = 32 \<or> 9 \<le> (of_char c :: nat) \<and> (of_char c :: nat) \<le> 13"

definition str_strip :: "string \<Rightarrow> string" where
  "str_strip s = rev (dropWhile is_space (rev (dropWhile is_space s)))"

definition digits_value :: "string \<Rightarrow> nat" where
  "digits_value ds = foldl (\<lambda>n c. 10 * n + ((of_char c :: nat) - 48)) 0 ds"

definition ascii_lower_char :: "char \<Rightarrow> char" where
  "ascii_lower_char c =
     (if 65 \<le> (of_char c :: nat) \<and> (of_char c :: nat) \<le> 90 then char_of ((of_char c :: nat) + 32) else c)"

definition str_lower :: "string \<Rightarrow> string" where
  "str_lower s = map ascii_lower_char s"

text \<open>An optional leading sign: whether the number is negative, and the rest.\<close>

fun split_sign :: "string \<Rightarrow> bool \<times> string" where
  "split_sign [] = (False, [])"
| "split_sign (c # cs) = (if c = CHR ''-'' then (True, cs) else if c = CHR ''+'' then (False, cs) else (False, c # cs))"

definition signed :: "bool \<Rightarrow> rat \<Rightarrow> rat" where
  "signed neg x = (if neg then - x else x)"

section \<open>Decimal literals\<close>

datatype dec_literal = Finite rat | Infinite bool | NaN

definition parse_exponent :: "string \<Rightarrow> int option" where
  "parse_exponent e =
     (let (neg, ds) = split_sign e
      in if ds \<noteq> [] \<and> list_all is_digit ds
         then Some (if neg then - int (digits_value ds) else int (digits_value ds)) else None)"

definition parse_special :: "bool \<Rightarrow> string \<Rightarrow> dec_literal option" where
  "parse_special neg u =
     (let l = str_lower u
      in if l = ''inf'' \<or> l = ''infinity'' then Some (Infinite neg)
         else if take 3 l = ''nan'' \<and> list_all is_digit (drop 3 l) then Some NaN
         else if take 4 l = ''snan'' \<and> list_all is_digit (drop 4 l) then Some NaN
         else None)"

definition parse_finite :: "bool \<Rightarrow> string \<Rightarrow> dec_literal option" where
  "parse_finite neg u =
     (let i = takeWhile is_digit u;
          r = dropWhile is_digit u;
          f = (case r of [] \<Rightarrow> [] | c # cs \<Rightarrow> if c = CHR ''.'' then takeWhile is_digit cs else []);
          r' = (case r of [] \<Rightarrow> [] | c # cs \<Rightarrow> if c = CHR ''.'' then dropWhile is_digit cs else c # cs);
          m = rat_of_nat (digits_value (i @ f)) / 10 ^ length f
      in if i = [] \<and> f = [] then None
         else case r' of
           [] \<Rightarrow> Some (Finite (signed neg m))
         | c # cs \<Rightarrow>
             if c = CHR ''e'' \<or> c = CHR ''E''
             then map_option (\<lambda>e. Finite (signed neg (m * 10 powi e))) (parse_exponent cs)
             else None)"

text \<open>\<open>Decimal(s)\<close>; \<open>None\<close> is the \<open>InvalidOperation\<close> of a malformed literal.\<close>

definition parse_decimal :: "string \<Rightarrow> dec_literal option" where
  "parse_decimal s =
     (let (neg, u) = split_sign (filter (\<lambda>c. c \<noteq> CHR ''_'') (str_strip s))
      in case parse_special neg u of Some d \<Rightarrow> Some d | None \<Rightarrow> parse_finite neg u)"

text \<open>\<open>int(s)\<close>: digits with single underscores between them; \<open>None\<close> is the \<open>ValueError\<close>.\<close>

fun digit_groups :: "string \<Rightarrow> bool" where
  "digit_groups [] = False"
| "digit_groups [c] = is_digit c"
| "digit_groups (c # d # cs) = (is_digit c \<and> (if d = CHR ''_'' then digit_groups cs else digit_groups (d # cs)))"

definition parse_int :: "string \<Rightarrow> int option" where
  "parse_int s =
     (let (neg, u) = split_sign (str_strip s);
          n = int (digits_value (filter (\<lambda>c. c \<noteq> CHR ''_'') u))
      in if digit_groups u then Some (if neg then - n else n) else None)"

section \<open>Metadata values as numbers\<close>

text \<open>
  \<open>str(x)\<close> of a float is the shortest decimal that reads back as the same float; as a
  \<open>Decimal\<close> it is that number. Containers and \<open>None\<close> never read as a number.
\<close>

definition float_decimal :: "rat \<Rightarrow> rat" where
  "float_decimal x =
     (case filter (\<lambda>n. round_sig 2 53 (round_sig 10 n x) = x) [1..<18] of
        [] \<Rightarrow> x
      | n # _ \<Rightarrow> round_sig 10 n x)"

fun decimal_of_pyval :: "pyval \<Rightarrow> dec_literal option" where
  "decimal_of_pyval (PyStr s) = parse_decimal s"
| "decimal_of_pyval (PyInt n) = Some (Finite (of_int n))"
| "decimal_of_pyval (PyDecimal d) = Some (Finite d)"
| "decimal_of_pyval (PyFloat f) = Some (Finite (float_decimal f))"
| "decimal_of_pyval _ = None"

text \<open>A \<open>Decimal\<close> reads as an int when it is integral and written without exponent or fraction.\<close>

fun int_of_pyval :: "pyval \<Rightarrow> int option" where
  "int_of_pyval (PyStr s) = parse_int s"
| "int_of_pyval (PyInt n) = Some n"
| "int_of_pyval (PyDecimal d) = (if of_int \<lfloor>d\<rfloor> = d then Some \<lfloor>d\<rfloor> else None)"
| "int_of_pyval _ = None"

section \<open>Printing and reading back\<close>

lemma digits_value_append: "digits_value (xs @ [c]) = 10 * digits_value xs + ((of_char c :: nat) - 48)"
  by (simp add: digits_value_def)

lemma of_char_digit: "n < 10 \<Longrightarrow> (of_char (char_of (48 + n) :: char) :: nat) = 48 + n"
  by simp

lemma digits_value_str_nat: "digits_value (str_nat n) = n"
proof (induction n rule: str_nat.induct)
  case (1 n)
  show ?case
  proof (cases "n < 10")
    case True
    then show ?thesis by (subst str_nat.simps) (simp add: digits_value_def)
  next
    case False
    have "digits_value (str_nat n) = 10 * digits_value (str_nat (n div 10)) + n mod 10"
      by (subst str_nat.simps) (use False in \<open>simp add: digits_value_append\<close>)
    with 1 [OF False] show ?thesis by simp
  qed
qed

lemma is_digit_char: "(n :: nat) < 10 \<Longrightarrow> is_digit (char_of (48 + n))"
  by (simp add: is_digit_def)

lemma str_nat_digits: "list_all is_digit (str_nat n)"
proof (induction n rule: str_nat.induct)
  case (1 n)
  show ?case
  proof (cases "n < 10")
    case True
    then show ?thesis by (subst str_nat.simps) (simp add: is_digit_def)
  next
    case False
    moreover have "is_digit (char_of (48 + n mod 10))" by (rule is_digit_char) simp
    ultimately show ?thesis
      by (subst str_nat.simps) (use 1 False in simp)
  qed
qed

lemma str_nat_inj: "str_nat m = str_nat n \<Longrightarrow> m = n"
  by (metis digits_value_str_nat)

end
