(* ===== verification/RiskState.thy ===== *)
theory RiskState
  imports Events
begin

text \<open>
  \<open>risk/state.py\<close>: the daily loss ledger, the auto-clearing drawdown halt and the one-way kill
  switch. A UTC date is the number of days since the epoch.
\<close>

section \<open>State\<close>

record daily_loss_ledger =
  net_pnl_by_day :: "(int, decimal) dict"
  unrealized_pnl_by_day :: "(int, decimal) dict"

definition new_ledger :: daily_loss_ledger where
  "new_ledger = \<lparr>net_pnl_by_day = [], unrealized_pnl_by_day = []\<rparr>"

definition day_of :: "datetime \<Rightarrow> int" where
  "day_of t = instant t div 86400000000"

definition utc_day :: "datetime \<Rightarrow> int result" where
  "utc_day t = validated (require_aware_datetime t ''at'') (day_of t)"

definition record_realized_pnl :: "decimal \<Rightarrow> datetime \<Rightarrow> daily_loss_ledger \<Rightarrow> daily_loss_ledger result" where
  "record_realized_pnl pnl t l =
     bind_result (utc_day t) (\<lambda>day.
       Inr (l\<lparr>net_pnl_by_day :=
         dict_set day (dadd (dict_get_default (net_pnl_by_day l) day 0) pnl) (net_pnl_by_day l)\<rparr>))"

definition net_pnl_for :: "daily_loss_ledger \<Rightarrow> datetime \<Rightarrow> decimal result" where
  "net_pnl_for l t = bind_result (utc_day t) (\<lambda>day. Inr (dict_get_default (net_pnl_by_day l) day 0))"

definition record_unrealized_pnl :: "decimal \<Rightarrow> datetime \<Rightarrow> daily_loss_ledger \<Rightarrow> daily_loss_ledger result" where
  "record_unrealized_pnl pnl t l =
     bind_result (utc_day t) (\<lambda>day.
       Inr (l\<lparr>unrealized_pnl_by_day := dict_set day pnl (unrealized_pnl_by_day l)\<rparr>))"

definition unrealized_pnl_for :: "daily_loss_ledger \<Rightarrow> datetime \<Rightarrow> decimal result" where
  "unrealized_pnl_for l t =
     bind_result (utc_day t) (\<lambda>day. Inr (dict_get_default (unrealized_pnl_by_day l) day 0))"

definition unrealized_drawdown_for :: "daily_loss_ledger \<Rightarrow> datetime \<Rightarrow> decimal result" where
  "unrealized_drawdown_for l t =
     bind_result (unrealized_pnl_for l t) (\<lambda>u. Inr (if u < 0 then dneg u else 0))"

definition loss_for :: "daily_loss_ledger \<Rightarrow> datetime \<Rightarrow> decimal result" where
  "loss_for l t = bind_result (net_pnl_for l t) (\<lambda>net. Inr (if net < 0 then dneg net else 0))"

definition total_loss_for :: "daily_loss_ledger \<Rightarrow> datetime \<Rightarrow> decimal result" where
  "total_loss_for l t =
     bind_result (loss_for l t) (\<lambda>a. bind_result (unrealized_drawdown_for l t) (\<lambda>b. Inr (dadd a b)))"

definition ledger_reset :: "daily_loss_ledger \<Rightarrow> daily_loss_ledger" where
  "ledger_reset l = new_ledger"

record drawdown_halt =
  dh_engaged :: bool
  dh_clear_fraction :: decimal

definition default_halt :: drawdown_halt where
  "default_halt = \<lparr>dh_engaged = False, dh_clear_fraction = 8 / 10\<rparr>"

definition halt_update :: "decimal \<Rightarrow> decimal \<Rightarrow> drawdown_halt \<Rightarrow> drawdown_halt" where
  "halt_update drawdown limit h =
     (if limit \<le> 0 then h\<lparr>dh_engaged := False\<rparr>
      else if drawdown \<ge> limit then h\<lparr>dh_engaged := True\<rparr>
      else if drawdown < dmul limit (dh_clear_fraction h) then h\<lparr>dh_engaged := False\<rparr>
      else h)"

record kill_switch =
  ks_tripped :: bool
  ks_reason :: "string option"
  ks_tripped_at :: "datetime option"

definition new_kill_switch :: kill_switch where
  "new_kill_switch = \<lparr>ks_tripped = False, ks_reason = None, ks_tripped_at = None\<rparr>"

definition trip :: "string \<Rightarrow> datetime \<Rightarrow> kill_switch \<Rightarrow> kill_switch" where
  "trip reason t k =
     (if ks_tripped k then k else \<lparr>ks_tripped = True, ks_reason = Some reason, ks_tripped_at = Some t\<rparr>)"

definition kill_reset :: "kill_switch \<Rightarrow> kill_switch" where
  "kill_reset k = new_kill_switch"

section \<open>Ledger\<close>

lemma utc_day_aware [simp]: "is_aware t \<Longrightarrow> utc_day t = Inr (day_of t)"
  by (simp add: utc_day_def)

lemma utc_day_Inr_iff: "utc_day t = Inr d \<longleftrightarrow> is_aware t \<and> d = day_of t"
  by (auto simp: utc_day_def)

lemma record_realized_get:
  assumes "record_realized_pnl pnl t l = Inr l'" and "is_aware u"
  shows "net_pnl_for l' u =
    (if day_of u = day_of t then Inr (dadd (dict_get_default (net_pnl_by_day l) (day_of t) 0) pnl) else net_pnl_for l u)"
  using assms by (auto simp: record_realized_pnl_def net_pnl_for_def bind_result_Inr_iff utc_day_Inr_iff dict_get_default_def)

lemma loss_nonneg: "loss_for l t = Inr x \<Longrightarrow> 0 \<le> x"
  by (auto simp: loss_for_def bind_result_Inr_iff dneg_def dctx_nonneg)

lemma drawdown_nonneg: "unrealized_drawdown_for l t = Inr x \<Longrightarrow> 0 \<le> x"
  by (auto simp: unrealized_drawdown_for_def bind_result_Inr_iff dneg_def dctx_nonneg)

text \<open>A sequence of realized amounts, recorded in order.\<close>

definition record_all :: "(decimal \<times> datetime) list \<Rightarrow> daily_loss_ledger \<Rightarrow> daily_loss_ledger result" where
  "record_all es l = fold_result (\<lambda>(pnl, t). record_realized_pnl pnl t) es l"

definition day_total :: "int \<Rightarrow> decimal \<Rightarrow> (decimal \<times> datetime) list \<Rightarrow> decimal" where
  "day_total day start es = foldl dadd start (map fst (filter (\<lambda>(pnl, t). day_of t = day) es))"

lemma record_all_get:
  assumes "record_all es l = Inr l'" and "is_aware u"
  shows "net_pnl_for l' u = Inr (day_total (day_of u) (dict_get_default (net_pnl_by_day l) (day_of u) 0) es)"
  using assms(1)
proof (induction es arbitrary: l)
  case Nil
  then show ?case using assms(2) by (simp add: record_all_def day_total_def net_pnl_for_def)
next
  case (Cons e es)
  obtain pnl t where e: "e = (pnl, t)" by fastforce
  from Cons.prems e obtain l1 where r: "record_realized_pnl pnl t l = Inr l1" "record_all es l1 = Inr l'"
    by (auto simp: record_all_def bind_result_Inr_iff)
  from record_realized_get [OF r(1) assms(2)] assms(2)
  have "dict_get_default (net_pnl_by_day l1) (day_of u) 0 =
      (if day_of u = day_of t then dadd (dict_get_default (net_pnl_by_day l) (day_of t) 0) pnl
       else dict_get_default (net_pnl_by_day l) (day_of u) 0)"
    by (simp add: net_pnl_for_def split: if_splits)
  with Cons.IH [OF r(2)] e show ?case by (auto simp: day_total_def)
qed

section \<open>Halt and kill switch\<close>

lemma trip_tripped [simp]: "ks_tripped (trip r t k)"
  by (simp add: trip_def)

lemma trip_first_reason: "ks_tripped k \<Longrightarrow> trip r t k = k"
  by (simp add: trip_def)

text \<open>The hysteresis band of the halt over a sequence of drawdown readings.\<close>

definition halt_run :: "decimal \<Rightarrow> decimal list \<Rightarrow> drawdown_halt \<Rightarrow> drawdown_halt" where
  "halt_run limit ds h = foldl (\<lambda>h d. halt_update d limit h) h ds"

lemma halt_update_fraction [simp]: "dh_clear_fraction (halt_update d limit h) = dh_clear_fraction h"
  by (simp add: halt_update_def)

lemma halt_stays_engaged:
  assumes "0 < limit" and "dh_engaged h" and "\<forall>d \<in> set ds. dmul limit (dh_clear_fraction h) \<le> d"
  shows "dh_engaged (halt_run limit ds h)"
  using assms
proof (induction ds arbitrary: h)
  case (Cons d ds)
  then have "dh_engaged (halt_update d limit h)" by (auto simp: halt_update_def)
  with Cons show ?case by (simp add: halt_run_def)
qed (simp add: halt_run_def)

lemma halt_stays_clear:
  assumes "\<not> dh_engaged h" and "\<forall>d \<in> set ds. d < limit \<or> limit \<le> 0"
  shows "\<not> dh_engaged (halt_run limit ds h)"
  using assms
proof (induction ds arbitrary: h)
  case (Cons d ds)
  then have "\<not> dh_engaged (halt_update d limit h)" by (auto simp: halt_update_def)
  with Cons show ?case by (simp add: halt_run_def)
qed (simp add: halt_run_def)

text \<open>
  The loss the ledger reports for a day is the loss implied by the net of everything realized on that
  UTC day, wins offsetting losses, whatever was recorded on other days.
\<close>

theorem daily_loss_is_net_of_day:
  assumes "record_all es new_ledger = Inr l" and "is_aware u"
  shows "loss_for l u = Inr (if day_total (day_of u) 0 es < 0 then dneg (day_total (day_of u) 0 es) else 0)"
  using record_all_get [OF assms] by (simp add: loss_for_def new_ledger_def)

theorem daily_loss_is_net_of_day_witness:
  "\<exists>l. record_all [(- 5, utc 10), (2, utc 20), (- 9, utc 86400000001)] new_ledger = Inr l \<and> loss_for l (utc 30) = Inr 3"
proof -
  let ?es = "[(- 5, utc 10), (2, utc 20), (- 9, utc 86400000001)]"
  have "isl (record_all ?es new_ledger) = False" by code_simp
  then obtain l where l: "record_all ?es new_ledger = Inr l" by (cases "record_all ?es new_ledger") auto
  have "(if day_total (day_of (utc 30)) 0 ?es < 0 then dneg (day_total (day_of (utc 30)) 0 ?es) else 0) = 3" by code_simp
  with daily_loss_is_net_of_day [OF l, of "utc 30"] l show ?thesis by auto
qed

text \<open>
  The drawdown halt has no flapping inside its band: once engaged it stays engaged while every
  reading is at or above the clearing level, and once clear it stays clear while every reading is
  below the limit.
\<close>

theorem drawdown_halt_hysteresis:
  assumes "0 < limit"
  shows "(dh_engaged h \<longrightarrow> (\<forall>d \<in> set ds. dmul limit (dh_clear_fraction h) \<le> d) \<longrightarrow> dh_engaged (halt_run limit ds h))
    \<and> (\<not> dh_engaged h \<longrightarrow> (\<forall>d \<in> set ds. d < limit) \<longrightarrow> \<not> dh_engaged (halt_run limit ds h))"
  using halt_stays_engaged [OF assms] halt_stays_clear [of h ds limit] by blast

theorem drawdown_halt_hysteresis_witness:
  "dh_engaged (halt_run 100 [80, 95, 81] (default_halt\<lparr>dh_engaged := True\<rparr>))
   \<and> \<not> dh_engaged (halt_run 100 [80, 95, 99] default_halt)"
proof -
  have "\<forall>d \<in> set [80, 95, 81]. dmul 100 (dh_clear_fraction (default_halt\<lparr>dh_engaged := True\<rparr>)) \<le> d"
    and "dh_engaged (default_halt\<lparr>dh_engaged := True\<rparr>)" and "\<not> dh_engaged default_halt"
    and "\<forall>d \<in> set [80, 95, 99 :: decimal]. d < 100"
    by code_simp+
  with drawdown_halt_hysteresis [of 100 "default_halt\<lparr>dh_engaged := True\<rparr>" "[80, 95, 81]"]
    drawdown_halt_hysteresis [of 100 default_halt "[80, 95, 99]"]
  show ?thesis by simp
qed

end
