(* ===== verification/RiskGate.thy ===== *)
theory RiskGate
  imports Queues Numerals RiskState
begin

text \<open>
  \<open>risk/limits.py\<close>, \<open>risk/policy.py\<close> and \<open>risk/compliance.py\<close>: the pre-trade checks, the sleeve's
  risk gate with its ledger, kill switch and drawdown halt, the gateway-side policy service and the
  eligibility policy.
\<close>

section \<open>The view of the world a gate reads\<close>

record strategy_view =
  cx_now :: datetime
  cx_positions :: "position list"
  cx_open_orders :: "order list"
  cx_exposure :: "exposure option"
  cx_cash :: "string \<Rightarrow> cash_balance"

record risk_decision =
  rd_allowed :: bool
  rd_reasons :: "string list"

section \<open>Limits\<close>

definition order_notional :: "place_order \<Rightarrow> decimal" where
  "order_notional d = dmul (case po_price d of None \<Rightarrow> 1 | Some p \<Rightarrow> p) (po_quantity d)"

definition check_order_notional :: "place_order \<Rightarrow> risk_profile \<Rightarrow> string list" where
  "check_order_notional d r = (if order_notional d > max_order_notional r then [''max_order_notional''] else [])"

text \<open>The last position of the list with the order's key, or quantity and price zero.\<close>

definition current_position :: "place_order \<Rightarrow> position list \<Rightarrow> decimal \<times> decimal" where
  "current_position d ps =
     foldl (\<lambda>acc p. if pos_instrument_id p = po_instrument_id d \<and> pos_outcome_side p = po_outcome_side d
                    then (pos_quantity p, pos_average_price p) else acc) (0, 0) ps"

definition check_position_notional :: "place_order \<Rightarrow> risk_profile \<Rightarrow> position list \<Rightarrow> string list" where
  "check_position_notional d r ps =
     (let (current_quantity, current_avg) = current_position d ps;
          delta = (if po_order_side d = BUY then po_quantity d else dneg (po_quantity d));
          projected = dadd current_quantity delta;
          price = (case po_price d of None \<Rightarrow> 1 | Some p \<Rightarrow> p);
          projected_quantity = (if projected < 0 then 0 else projected);
          avg = (if current_quantity > 0 then current_avg else price)
      in if dmul projected_quantity avg > max_position_notional r then [''max_position_notional''] else [])"

definition check_open_orders :: "order list \<Rightarrow> risk_profile \<Rightarrow> string list" where
  "check_open_orders os r = (if int (length os) \<ge> max_open_orders r then [''max_open_orders''] else [])"

definition check_gross_exposure :: "place_order \<Rightarrow> risk_profile \<Rightarrow> exposure option \<Rightarrow> string list" where
  "check_gross_exposure d r ex =
     (if po_order_side d \<noteq> BUY then []
      else case ex of
        None \<Rightarrow> []
      | Some e \<Rightarrow>
          if dadd (exp_gross_notional e) (order_notional d) > max_gross_exposure r
          then [''max_gross_exposure''] else [])"

definition check_available_cash :: "place_order \<Rightarrow> cash_balance \<Rightarrow> string list" where
  "check_available_cash d c =
     (if po_order_side d \<noteq> BUY then []
      else if order_notional d > cash_available c then [''available_cash''] else [])"

definition kalshi_fee_per_contract :: "decimal \<Rightarrow> decimal \<Rightarrow> int \<Rightarrow> decimal result" where
  "kalshi_fee_per_contract price quantity rate_bps =
     (if quantity \<le> 0 \<or> rate_bps \<le> 0 then Inr 0
      else let rate = ddiv (of_int rate_bps) 10000;
               raw = dmul (dmul (dmul rate price) (dsub 1 price)) quantity
           in bind_result (quantize round_ceiling 2 raw) (\<lambda>total_fee. Inr (ddiv total_fee quantity)))"

text \<open>
  \<open>gross_edge - fee < minimum\<close> where the fair value may be any \<open>Decimal\<close>: an infinite edge compares
  as expected, a NaN makes the comparison raise.
\<close>

definition edge_below :: "order_side \<Rightarrow> dec_literal \<Rightarrow> decimal \<Rightarrow> decimal \<Rightarrow> decimal \<Rightarrow> bool result" where
  "edge_below side fair price fee minimum =
     (case fair of
        Finite v \<Rightarrow>
          Inr (dsub (if side = BUY then dsub v price else dsub price v) fee < minimum)
      | Infinite neg \<Rightarrow> Inr (if side = BUY then neg else \<not> neg)
      | NaN \<Rightarrow> Inl InvalidOperation)"

definition check_fee_adjusted_edge :: "place_order \<Rightarrow> string list result" where
  "check_fee_adjusted_edge d =
     (let md = po_metadata d;
          int_or = (\<lambda>key dflt. case frozen_get md key of None \<Rightarrow> Some dflt | Some v \<Rightarrow> int_of_pyval v)
      in case frozen_get md ''fair_price'' of
           None \<Rightarrow> Inr []
         | Some PyNone \<Rightarrow> Inr []
         | Some fair_raw \<Rightarrow>
             (case po_price d of
                None \<Rightarrow> Inr [''negative_edge_after_fees'']
              | Some price \<Rightarrow>
                  (case (decimal_of_pyval fair_raw, int_or ''min_executable_edge_ticks'' 0, int_or ''fee_rate_bps'' 700) of
                     (Some fair, Some ticks, Some bps) \<Rightarrow>
                       bind_result (kalshi_fee_per_contract price (po_quantity d) bps) (\<lambda>fee.
                       bind_result (edge_below (po_order_side d) fair price fee (ddiv (of_int ticks) 10000)) (\<lambda>below.
                         Inr (if below then [''negative_edge_after_fees''] else [])))
                   | _ \<Rightarrow> Inr [''invalid_edge_metadata''])))"

definition check_execution_bounds :: "place_order \<Rightarrow> risk_profile \<Rightarrow> datetime \<Rightarrow> string list" where
  "check_execution_bounds d r now =
     (if po_order_type d = MARKET \<and> \<not> allow_market_orders r then [''market_orders_disabled''] else [])
     @ (if po_order_type d = MARKET \<and> po_price d = None then [''unpriced_market_order''] else [])
     @ (if po_time_in_force d = GTC \<and> po_expires_at d = None \<and> \<not> allow_unbounded_gtc r
        then [''unbounded_gtc_order''] else [])
     @ (if po_time_in_force d = GTD \<and> po_expires_at d = None then [''missing_order_expiry''] else [])
     @ (case po_expires_at d of
          None \<Rightarrow> []
        | Some e \<Rightarrow>
            let lifetime_ms = delta_ms (dt_minus e now)
            in if lifetime_ms \<le> 0 then [''expired_order_intent'']
               else if lifetime_ms > max_order_lifetime_ms r then [''order_ttl_too_long''] else [])"

definition executable_depth :: "place_order \<Rightarrow> order_book_level \<Rightarrow> order_book_level \<Rightarrow> decimal option" where
  "executable_depth d bid ask =
     (if po_order_type d = MARKET
      then Some (if po_order_side d = BUY then lvl_quantity ask else lvl_quantity bid)
      else case po_price d of
        None \<Rightarrow> None
      | Some p \<Rightarrow>
          if po_order_side d = BUY \<and> p \<ge> lvl_price ask then Some (lvl_quantity ask)
          else if po_order_side d = SELL \<and> p \<le> lvl_price bid then Some (lvl_quantity bid)
          else None)"

definition bbo_reasons :: "place_order \<Rightarrow> risk_profile \<Rightarrow> market_snapshot \<Rightarrow> string list" where
  "bbo_reasons d r s =
     (case (snap_bid s, snap_ask s) of
        (Some bid, Some ask) \<Rightarrow>
          let spread = dsub (lvl_price ask) (lvl_price bid)
          in (if spread < 0 then [''market_snapshot_crossed_bbo'']
              else if spread > max_spread r then [''market_snapshot_spread_too_wide''] else [])
             @ (case executable_depth d bid ask of
                  None \<Rightarrow> []
                | Some depth \<Rightarrow> if po_quantity d > depth then [''order_quantity_exceeds_l1_depth''] else [])
      | _ \<Rightarrow> [''market_snapshot_missing_bbo''])"

definition check_market_snapshot :: "place_order \<Rightarrow> risk_profile \<Rightarrow> datetime \<Rightarrow> string list result" where
  "check_market_snapshot d r now =
     (case po_market_snapshot d of
        None \<Rightarrow> Inr [''missing_market_snapshot'']
      | Some s \<Rightarrow>
          bind_result (age_ms s now) (\<lambda>age.
            Inr ((if snap_instrument_id s \<noteq> po_instrument_id d then [''market_snapshot_instrument_mismatch''] else [])
              @ (if snap_side s \<noteq> po_outcome_side d then [''market_snapshot_side_mismatch''] else [])
              @ (if snap_exchange_ts s = None then [''market_snapshot_missing_exchange_ts''] else [])
              @ (if snap_source_sequence s = None then [''market_snapshot_missing_sequence''] else [])
              @ (if snap_sequence_gap s then [''market_snapshot_sequence_gap''] else [])
              @ bbo_reasons d r s
              @ (if age < 0 then [''market_snapshot_from_future'']
                 else if age > max_market_data_age_ms r then [''stale_market_snapshot''] else []))))"

definition check_daily_loss :: "risk_profile \<Rightarrow> decimal \<Rightarrow> string list" where
  "check_daily_loss r loss = (if max_daily_loss r > 0 \<and> loss \<ge> max_daily_loss r then [''max_daily_loss''] else [])"

section \<open>The sleeve gate\<close>

record gate_state =
  gt_ledger :: daily_loss_ledger
  gt_kill :: kill_switch
  gt_halt :: drawdown_halt

definition new_gate :: gate_state where
  "new_gate = \<lparr>gt_ledger = new_ledger, gt_kill = new_kill_switch, gt_halt = default_halt\<rparr>"

definition decide :: "string list \<Rightarrow> risk_decision" where
  "decide reasons = \<lparr>rd_allowed = (reasons = []), rd_reasons = reasons\<rparr>"

text \<open>The reasons that do not depend on the gate's own state.\<close>

definition limit_reasons ::
  "sleeve_spec \<Rightarrow> place_order \<Rightarrow> strategy_view \<Rightarrow> datetime \<Rightarrow> bool \<Rightarrow> string list result" where
  "limit_reasons sl d cx now count_open =
     (let r = sl_risk sl in
      bind_result (check_market_snapshot d r now) (\<lambda>snapshot_reasons.
      bind_result (check_fee_adjusted_edge d) (\<lambda>edge_reasons.
        Inr (check_execution_bounds d r now @ snapshot_reasons @ check_order_notional d r @ edge_reasons
          @ check_position_notional d r (cx_positions cx)
          @ (if count_open then check_open_orders (cx_open_orders cx) r else [])
          @ check_gross_exposure d r (cx_exposure cx)
          @ check_available_cash d (cx_cash cx (sl_currency sl))))))"

definition evaluate_place_order ::
  "sleeve_spec \<Rightarrow> place_order \<Rightarrow> strategy_view \<Rightarrow> datetime \<Rightarrow> bool \<Rightarrow> gate_state \<Rightarrow> (risk_decision \<times> gate_state) result" where
  "evaluate_place_order sl d cx now count_open g =
     bind_result (limit_reasons sl d cx now count_open) (\<lambda>limits.
     bind_result (loss_for (gt_ledger g) now) (\<lambda>realized_loss.
     bind_result (total_loss_for (gt_ledger g) now) (\<lambda>total_drawdown.
       let breached = check_daily_loss (sl_risk sl) realized_loss \<noteq> [];
           kill = (if breached then trip ''max_daily_loss'' now (gt_kill g) else gt_kill g);
           halt = halt_update total_drawdown (max_daily_loss (sl_risk sl)) (gt_halt g);
           reasons = limits @ (if breached then [''max_daily_loss''] else [])
             @ (if dh_engaged halt \<and> po_order_side d = BUY then [''unrealized_drawdown_halt''] else [])
       in Inr (decide reasons, g\<lparr>gt_kill := kill, gt_halt := halt\<rparr>))))"

text \<open>\<open>_replacement_as_place_order\<close>: the first open order with the id, with the new terms.\<close>

definition replacement_as_place_order :: "replace_order \<Rightarrow> strategy_view \<Rightarrow> place_order option result" where
  "replacement_as_place_order ro cx =
     (case filter (\<lambda>r. ord_client_order_id r = ro_client_order_id ro) (cx_open_orders cx) of
        [] \<Rightarrow> Inr None
      | r # _ \<Rightarrow>
          (case (case ro_new_price ro of Some p \<Rightarrow> Some p | None \<Rightarrow> ord_price r) of
             None \<Rightarrow> Inr None
           | Some price \<Rightarrow>
               bind_result (mk_place_order
                 \<lparr>po_client_order_id = ro_client_order_id ro, po_instrument_id = ord_instrument_id r,
                  po_outcome_side = ord_outcome_side r, po_order_side = ord_order_side r,
                  po_order_type = ord_order_type r, po_time_in_force = ord_time_in_force r,
                  po_quantity = (case ro_new_quantity ro of Some q \<Rightarrow> q | None \<Rightarrow> ord_quantity r),
                  po_price = Some price, po_expires_at = ord_expires_at r,
                  po_market_snapshot = ro_market_snapshot ro, po_reason = ro_reason ro,
                  po_expected_edge_bps = None, po_priority = ro_priority ro, po_metadata = ord_metadata r\<rparr>)
                 (\<lambda>d. Inr (Some d))))"

definition gate_evaluate ::
  "sleeve_spec \<Rightarrow> intent_envelope \<Rightarrow> strategy_view \<Rightarrow> gate_state \<Rightarrow> (risk_decision \<times> gate_state) result" where
  "gate_evaluate sl e cx g =
     (if ks_tripped (gt_kill g) then Inr (\<lparr>rd_allowed = False, rd_reasons = [''kill_switch'']\<rparr>, g)
      else case env_decision e of
        CancelOrder c \<Rightarrow> Inr (decide [], g)
      | ReplaceOrder ro \<Rightarrow>
          bind_result (replacement_as_place_order ro cx) (\<lambda>rep.
            case rep of
              None \<Rightarrow> Inr (\<lparr>rd_allowed = False, rd_reasons = [''replace_order_not_found'']\<rparr>, g)
            | Some d \<Rightarrow> evaluate_place_order sl d cx (emitted_at e) False g)
      | PlaceOrder d \<Rightarrow> evaluate_place_order sl d cx (emitted_at e) True g
      | _ \<Rightarrow> Inr (decide [], g))"

definition policy_evaluate :: "sleeve_spec \<Rightarrow> order_intent \<Rightarrow> risk_decision" where
  "policy_evaluate sl i =
     decide (if dmul (oi_price i) (oi_quantity i) > max_order_notional (sl_risk sl) then [''max_order_notional''] else [])"

section \<open>Eligibility\<close>

record eligibility_context =
  el_account_id :: string
  el_country :: string
  el_region :: "string option"
  el_venue :: string
  el_market_category :: "string option"

record eligibility_policy =
  allowed_countries :: "string list"
  blocked_countries :: "string list"
  blackout_start :: "datetime option"
  blackout_end :: "datetime option"

text \<open>\<open>is_eligible\<close> reads the wall clock; \<open>now\<close> is its reading.\<close>

definition is_eligible :: "eligibility_policy \<Rightarrow> datetime \<Rightarrow> eligibility_context \<Rightarrow> bool" where
  "is_eligible pol now c =
     (let country = str_upper (el_country c)
      in if allowed_countries pol \<noteq> [] \<and> country \<notin> set (map str_upper (allowed_countries pol)) then False
         else if country \<in> set (map str_upper (blocked_countries pol)) then False
         else case (blackout_start pol, blackout_end pol) of
           (Some a, Some b) \<Rightarrow> \<not> (instant a \<le> instant now \<and> instant now \<le> instant b)
         | _ \<Rightarrow> True)"

definition no_op_eligibility_policy :: eligibility_policy where
  "no_op_eligibility_policy =
     \<lparr>allowed_countries = [], blocked_countries = [], blackout_start = None, blackout_end = None\<rparr>"

section \<open>What the checks mean\<close>

lemma decide_allowed [simp]: "rd_allowed (decide rs) \<longleftrightarrow> rs = []"
  by (simp add: decide_def)

lemma check_Nil_iffs [simp]:
  "check_order_notional d r = [] \<longleftrightarrow> order_notional d \<le> max_order_notional r"
  "check_open_orders os r = [] \<longleftrightarrow> int (length os) < max_open_orders r"
  "check_available_cash d c = [] \<longleftrightarrow> (po_order_side d = BUY \<longrightarrow> order_notional d \<le> cash_available c)"
  "check_daily_loss r loss = [] \<longleftrightarrow> (max_daily_loss r > 0 \<longrightarrow> loss < max_daily_loss r)"
  by (auto simp: check_order_notional_def check_open_orders_def check_available_cash_def check_daily_loss_def)

lemma check_gross_exposure_Nil [simp]:
  "check_gross_exposure d r ex = [] \<longleftrightarrow>
     (po_order_side d = BUY \<longrightarrow> (\<forall>e. ex = Some e \<longrightarrow> dadd (exp_gross_notional e) (order_notional d) \<le> max_gross_exposure r))"
  by (auto simp: check_gross_exposure_def split: option.splits)

lemma bbo_reasons_Nil:
  "bbo_reasons d r s = [] \<longleftrightarrow>
     (\<exists>bid ask. snap_bid s = Some bid \<and> snap_ask s = Some ask \<and>
       0 \<le> dsub (lvl_price ask) (lvl_price bid) \<and> dsub (lvl_price ask) (lvl_price bid) \<le> max_spread r \<and>
       (\<forall>depth. executable_depth d bid ask = Some depth \<longrightarrow> po_quantity d \<le> depth))"
  by (auto simp: bbo_reasons_def Let_def split: option.splits)

lemma check_market_snapshot_Nil:
  "check_market_snapshot d r now = Inr [] \<longleftrightarrow>
     (\<exists>s age. po_market_snapshot d = Some s \<and> age_ms s now = Inr age \<and> 0 \<le> age \<and> age \<le> max_market_data_age_ms r \<and>
       snap_instrument_id s = po_instrument_id d \<and> snap_side s = po_outcome_side d \<and>
       snap_exchange_ts s \<noteq> None \<and> snap_source_sequence s \<noteq> None \<and> \<not> snap_sequence_gap s \<and> bbo_reasons d r s = [])"
proof (cases "po_market_snapshot d")
  case (Some s)
  show ?thesis
  proof (cases "age_ms s now")
    case (Inr age)
    with Some show ?thesis by (auto simp: check_market_snapshot_def)
  qed (use Some in \<open>simp add: check_market_snapshot_def\<close>)
qed (simp add: check_market_snapshot_def)

lemma limit_reasons_Nil:
  assumes "limit_reasons sl d cx now count_open = Inr []"
  shows "check_execution_bounds d (sl_risk sl) now = []" and "check_market_snapshot d (sl_risk sl) now = Inr []"
    and "order_notional d \<le> max_order_notional (sl_risk sl)" and "check_fee_adjusted_edge d = Inr []"
    and "check_position_notional d (sl_risk sl) (cx_positions cx) = []"
    and "count_open \<Longrightarrow> int (length (cx_open_orders cx)) < max_open_orders (sl_risk sl)"
    and "check_gross_exposure d (sl_risk sl) (cx_exposure cx) = []"
    and "check_available_cash d (cx_cash cx (sl_currency sl)) = []"
  using assms by (auto simp: limit_reasons_def Let_def bind_result_Inr_iff)

lemma evaluate_place_order_cases:
  assumes "evaluate_place_order sl d cx now count_open g = Inr (dec, g')"
  obtains limits loss dd where "limit_reasons sl d cx now count_open = Inr limits"
    and "loss_for (gt_ledger g) now = Inr loss" and "total_loss_for (gt_ledger g) now = Inr dd"
    and "gt_ledger g' = gt_ledger g"
    and "gt_halt g' = halt_update dd (max_daily_loss (sl_risk sl)) (gt_halt g)"
    and "gt_kill g' = (if check_daily_loss (sl_risk sl) loss \<noteq> [] then trip ''max_daily_loss'' now (gt_kill g) else gt_kill g)"
    and "dec = decide (limits @ (if check_daily_loss (sl_risk sl) loss \<noteq> [] then [''max_daily_loss''] else [])
             @ (if dh_engaged (gt_halt g') \<and> po_order_side d = BUY then [''unrealized_drawdown_halt''] else []))"
  using assms by (auto simp: evaluate_place_order_def Let_def bind_result_Inr_iff)

text \<open>What an allowed order satisfies.\<close>

definition within_limits :: "sleeve_spec \<Rightarrow> place_order \<Rightarrow> strategy_view \<Rightarrow> datetime \<Rightarrow> bool" where
  "within_limits sl d cx now \<longleftrightarrow>
     order_notional d \<le> max_order_notional (sl_risk sl) \<and>
     check_position_notional d (sl_risk sl) (cx_positions cx) = [] \<and>
     check_execution_bounds d (sl_risk sl) now = [] \<and>
     check_fee_adjusted_edge d = Inr [] \<and>
     (po_order_side d = BUY \<longrightarrow> order_notional d \<le> cash_available (cx_cash cx (sl_currency sl)) \<and>
        (\<forall>e. cx_exposure cx = Some e \<longrightarrow> dadd (exp_gross_notional e) (order_notional d) \<le> max_gross_exposure (sl_risk sl))) \<and>
     (\<exists>s age. po_market_snapshot d = Some s \<and> age_ms s now = Inr age \<and> 0 \<le> age \<and>
        age \<le> max_market_data_age_ms (sl_risk sl) \<and> snap_instrument_id s = po_instrument_id d \<and>
        snap_side s = po_outcome_side d \<and> \<not> snap_sequence_gap s \<and> bbo_reasons d (sl_risk sl) s = [])"

lemma evaluate_allowed:
  assumes "evaluate_place_order sl d cx now count_open g = Inr (dec, g')" and "rd_allowed dec"
  shows "within_limits sl d cx now" and "count_open \<Longrightarrow> int (length (cx_open_orders cx)) < max_open_orders (sl_risk sl)"
    and "po_order_side d = BUY \<Longrightarrow> \<not> dh_engaged (gt_halt g')"
    and "loss_for (gt_ledger g) now = Inr loss \<Longrightarrow> max_daily_loss (sl_risk sl) > 0 \<Longrightarrow> loss < max_daily_loss (sl_risk sl)"
    and "gt_kill g' = gt_kill g"
proof -
  from assms(1) obtain limits l dd where
    e: "limit_reasons sl d cx now count_open = Inr limits" "loss_for (gt_ledger g) now = Inr l"
      "gt_kill g' = (if check_daily_loss (sl_risk sl) l \<noteq> [] then trip ''max_daily_loss'' now (gt_kill g) else gt_kill g)"
      "dec = decide (limits @ (if check_daily_loss (sl_risk sl) l \<noteq> [] then [''max_daily_loss''] else [])
             @ (if dh_engaged (gt_halt g') \<and> po_order_side d = BUY then [''unrealized_drawdown_halt''] else []))"
    by (rule evaluate_place_order_cases)
  with assms(2) have z: "limits = []" "check_daily_loss (sl_risk sl) l = []" "\<not> (dh_engaged (gt_halt g') \<and> po_order_side d = BUY)"
    by (auto split: if_splits)
  note n = limit_reasons_Nil [OF e(1) [unfolded z(1)]]
  show "within_limits sl d cx now"
    using n(1,3,4,5,7,8) n(2) [unfolded check_market_snapshot_Nil] by (auto simp: within_limits_def)
  show "count_open \<Longrightarrow> int (length (cx_open_orders cx)) < max_open_orders (sl_risk sl)" by (rule n(6))
  show "po_order_side d = BUY \<Longrightarrow> \<not> dh_engaged (gt_halt g')" using z(3) by simp
  show "loss_for (gt_ledger g) now = Inr loss \<Longrightarrow> max_daily_loss (sl_risk sl) > 0 \<Longrightarrow> loss < max_daily_loss (sl_risk sl)"
    using z(2) e(2) by simp
  show "gt_kill g' = gt_kill g" using e(3) z(2) by simp
qed

section \<open>Sequences of evaluations\<close>

text \<open>
  The gate's evaluations in order, interleaved with the profit and loss the accountant records in
  its ledger.
\<close>

datatype gate_input = Evaluate intent_envelope strategy_view | RecordPnl decimal datetime | RecordMark decimal datetime

fun gate_step :: "sleeve_spec \<Rightarrow> gate_input \<Rightarrow> gate_state \<Rightarrow> (risk_decision list \<times> gate_state) result" where
  "gate_step sl (Evaluate e cx) g = bind_result (gate_evaluate sl e cx g) (\<lambda>(d, g'). Inr ([d], g'))"
| "gate_step sl (RecordPnl x t) g = bind_result (record_realized_pnl x t (gt_ledger g)) (\<lambda>l. Inr ([], g\<lparr>gt_ledger := l\<rparr>))"
| "gate_step sl (RecordMark x t) g = bind_result (record_unrealized_pnl x t (gt_ledger g)) (\<lambda>l. Inr ([], g\<lparr>gt_ledger := l\<rparr>))"

inductive gate_run :: "sleeve_spec \<Rightarrow> gate_state \<Rightarrow> risk_decision list \<Rightarrow> gate_state \<Rightarrow> bool" for sl g0 where
  gate_start: "gate_run sl g0 [] g0"
| gate_next: "gate_run sl g0 ds g \<Longrightarrow> gate_step sl i g = Inr (es, g') \<Longrightarrow> gate_run sl g0 (ds @ es) g'"

lemma gate_step_tripped:
  assumes "gate_step sl i g = Inr (es, g')" and "ks_tripped (gt_kill g)"
  shows "ks_tripped (gt_kill g') \<and> gt_kill g' = gt_kill g \<and> list_all (\<lambda>d. \<not> rd_allowed d \<and> rd_reasons d = [''kill_switch'']) es"
  using assms by (cases i) (auto simp: bind_result_Inr_iff gate_evaluate_def)

lemma breach_trips:
  assumes "evaluate_place_order sl d cx now count_open g = Inr (dec, g')"
    and "loss_for (gt_ledger g) now = Inr loss" and "0 < max_daily_loss (sl_risk sl)" and "max_daily_loss (sl_risk sl) \<le> loss"
  shows "\<not> rd_allowed dec \<and> ks_tripped (gt_kill g')"
proof -
  from assms(1) obtain limits l dd where
    e: "loss_for (gt_ledger g) now = Inr l"
      "gt_kill g' = (if check_daily_loss (sl_risk sl) l \<noteq> [] then trip ''max_daily_loss'' now (gt_kill g) else gt_kill g)"
      "dec = decide (limits @ (if check_daily_loss (sl_risk sl) l \<noteq> [] then [''max_daily_loss''] else [])
             @ (if dh_engaged (gt_halt g') \<and> po_order_side d = BUY then [''unrealized_drawdown_halt''] else []))"
    by (rule evaluate_place_order_cases)
  have "check_daily_loss (sl_risk sl) l \<noteq> []" using assms(2-4) e(1) by simp
  with e show ?thesis by simp
qed

section \<open>A concrete sleeve\<close>

definition gate_iid :: instrument_id where
  "gate_iid = \<lparr>iid_venue = KALSHI, market_id = ''RAIN-NYC'', outcome_id = None\<rparr>"

definition gate_profile :: risk_profile where
  "gate_profile =
     \<lparr>max_order_notional = 100, max_position_notional = 200, max_daily_loss = 50, max_open_orders = 5,
      max_gross_exposure = 300, rp_currency = ''USD'', max_market_data_age_ms = 1000, max_spread = 1 / 10,
      max_order_lifetime_ms = 60000, allow_market_orders = False, allow_unbounded_gtc = False\<rparr>"

definition gate_sleeve :: sleeve_spec where
  "gate_sleeve =
     \<lparr>sl_sleeve_id = ''sleeve'', sl_strategy_id = ''strategy'', sl_strategy_version = ''1'', sl_venue = KALSHI,
      capital_allocation = 1000, sl_currency = ''USD'', sl_risk = gate_profile, sl_tags = []\<rparr>"

definition gate_snapshot :: market_snapshot where
  "gate_snapshot =
     \<lparr>snap_instrument_id = gate_iid, snap_side = YES,
      snap_bid = Some \<lparr>lvl_price = 45 / 100, lvl_quantity = 100\<rparr>,
      snap_ask = Some \<lparr>lvl_price = 50 / 100, lvl_quantity = 100\<rparr>,
      snap_exchange_ts = Some (utc 0), snap_received_at = utc 0, snap_source = ''ws'',
      snap_source_sequence = Some ''7'', snap_sequence_gap = False, snap_metadata = []\<rparr>"

definition gate_order :: "order_side \<Rightarrow> decimal \<Rightarrow> decimal \<Rightarrow> place_order" where
  "gate_order side p q =
     \<lparr>po_client_order_id = ''c1'', po_instrument_id = gate_iid, po_outcome_side = YES, po_order_side = side,
      po_order_type = LIMIT, po_time_in_force = IOC, po_quantity = q, po_price = Some p, po_expires_at = None,
      po_market_snapshot = Some gate_snapshot, po_reason = ''edge'', po_expected_edge_bps = None,
      po_priority = None, po_metadata = []\<rparr>"

definition gate_view :: strategy_view where
  "gate_view =
     \<lparr>cx_now = utc 500000, cx_positions = [], cx_open_orders = [], cx_exposure = None,
      cx_cash = (\<lambda>ccy. \<lparr>cash_currency = ccy, cash_total = 500, cash_available = 500, cash_held = 0, cash_settling = 0,
                          cash_updated_at = utc 0\<rparr>)\<rparr>"

definition gate_envelope :: "strategy_decision \<Rightarrow> intent_envelope" where
  "gate_envelope d =
     \<lparr>env_decision = d, env_strategy_id = ''strategy'', env_sleeve_id = ''sleeve'', env_correlation_id = ''x'',
      emitted_at = utc 500000, env_priority = DEFAULT_EXECUTION_PRIORITY, triggered_by_event_id = None, env_metadata = []\<rparr>"

section \<open>Guarantees\<close>



text \<open>
  The kill switch latches: the evaluation that sees the day's realized loss at its limit rejects the
  order and trips the switch, and after that every evaluation in any later sequence of evaluations and
  ledger updates is rejected with the kill switch as its reason.
\<close>

theorem kill_switch_latches:
  assumes "evaluate_place_order sl d cx now count_open g = Inr (dec, g1)"
    and "loss_for (gt_ledger g) now = Inr loss" and "0 < max_daily_loss (sl_risk sl)" and "max_daily_loss (sl_risk sl) \<le> loss"
    and "gate_run sl g1 ds g'"
  shows "\<not> rd_allowed dec \<and> ks_tripped (gt_kill g')
    \<and> list_all (\<lambda>d. \<not> rd_allowed d \<and> rd_reasons d = [''kill_switch'']) ds"
proof -
  from breach_trips [OF assms(1-4)] have t: "\<not> rd_allowed dec" "ks_tripped (gt_kill g1)" by auto
  from assms(5) t(2) have "ks_tripped (gt_kill g') \<and> list_all (\<lambda>d. \<not> rd_allowed d \<and> rd_reasons d = [''kill_switch'']) ds"
  proof (induction rule: gate_run.induct)
    case (gate_next ds g i es g')
    with gate_step_tripped [of sl i g es g'] show ?case by simp
  qed simp
  with t(1) show ?thesis by simp
qed

definition losing_gate :: gate_state where
  "losing_gate = new_gate\<lparr>gt_ledger := \<lparr>net_pnl_by_day = [(0, - 60)], unrealized_pnl_by_day = []\<rparr>\<rparr>"

theorem kill_switch_latches_witness:
  "\<exists>dec g1. evaluate_place_order gate_sleeve (gate_order SELL (1 / 2) 20) gate_view (utc 500000) True losing_gate = Inr (dec, g1)
     \<and> \<not> rd_allowed dec \<and> ks_tripped (gt_kill g1)"
proof -
  let ?r = "evaluate_place_order gate_sleeve (gate_order SELL (1 / 2) 20) gate_view (utc 500000) True losing_gate"
  have "\<not> isl ?r" by code_simp
  then obtain dec g1 where r: "?r = Inr (dec, g1)" by (cases ?r) auto
  have l: "loss_for (gt_ledger losing_gate) (utc 500000) = Inr 60" by code_simp
  have m: "0 < max_daily_loss (sl_risk gate_sleeve)" "max_daily_loss (sl_risk gate_sleeve) \<le> 60" by code_simp+
  from kill_switch_latches [OF r l m gate_start] r show ?thesis by blast
qed

text \<open>
  A sell is never blocked by money: its evaluation does not depend on the cash, the gross exposure or
  the state of the drawdown halt, so a sleeve under water can always reduce its position.
\<close>

theorem sell_independent_of_cash_exposure_and_halt:
  assumes "po_order_side d = SELL"
  shows "map_sum id fst (evaluate_place_order sl d cx now count_open g)
    = map_sum id fst (evaluate_place_order sl d (cx\<lparr>cx_cash := cash, cx_exposure := ex\<rparr>) now count_open (g\<lparr>gt_halt := h\<rparr>))"
proof -
  have "limit_reasons sl d (cx\<lparr>cx_cash := cash, cx_exposure := ex\<rparr>) now count_open = limit_reasons sl d cx now count_open"
    using assms by (cases count_open) (simp_all add: limit_reasons_def check_available_cash_def check_gross_exposure_def)
  then show ?thesis
    using assms by (auto simp: evaluate_place_order_def Let_def bind_result_def split: sum.splits)
qed

theorem sell_independent_of_cash_exposure_and_halt_witness:
  "map_sum id fst (evaluate_place_order gate_sleeve (gate_order SELL (1 / 2) 20) gate_view (utc 500000) True new_gate)
   = map_sum id fst (evaluate_place_order gate_sleeve (gate_order SELL (1 / 2) 20)
       (gate_view\<lparr>cx_cash := (\<lambda>ccy. \<lparr>cash_currency = ccy, cash_total = 0, cash_available = 0, cash_held = 0,
            cash_settling = 0, cash_updated_at = utc 0\<rparr>), cx_exposure := None\<rparr>) (utc 500000) True (new_gate\<lparr>gt_halt := \<lparr>dh_engaged = True, dh_clear_fraction = 1\<rparr>\<rparr>))"
  by (rule sell_independent_of_cash_exposure_and_halt) (simp add: gate_order_def)

text \<open>
  The position check values an add to an open position at the old average price, not at the order's: a
  position of 100 contracts bought at 0.01 may grow by 200 contracts at 0.99, to a cost of 199, and
  still pass a limit of 10.
\<close>

theorem position_check_ignores_order_price:
  "\<exists>d r ps. po_order_side d = BUY \<and> check_position_notional d r ps = [] \<and>
     dadd (dmul (fst (current_position d ps)) (snd (current_position d ps))) (order_notional d) > 10 * max_position_notional r"
proof -
  let ?d = "gate_order BUY (99 / 100) 200"
  let ?r = "gate_profile\<lparr>max_position_notional := 10\<rparr>"
  let ?p = "\<lparr>pos_instrument_id = gate_iid, pos_outcome_side = YES, pos_quantity = 100, pos_average_price = 1 / 100,
      pos_realized_pnl = 0, pos_unrealized_pnl = 0, pos_updated_at = utc 0\<rparr>"
  have "po_order_side ?d = BUY \<and> check_position_notional ?d ?r [?p] = [] \<and>
     dadd (dmul (fst (current_position ?d [?p])) (snd (current_position ?d [?p]))) (order_notional ?d) > 10 * max_position_notional ?r"
    by code_simp
  then show ?thesis by blast
qed

text \<open>
  A replacement is judged as a new order: when the gate allows it, the open order it names exists, and the
  order it would become, with that order's instrument, sides, type and expiry and the new price and
  quantity, is within the sleeve's limits.
\<close>

theorem gate_replacement_within_limits:
  assumes "gate_evaluate sl e cx g = Inr (dec, g')" and "env_decision e = ReplaceOrder ro" and "rd_allowed dec"
  shows "\<exists>r d. r \<in> set (cx_open_orders cx) \<and> ord_client_order_id r = ro_client_order_id ro
    \<and> po_instrument_id d = ord_instrument_id r \<and> po_outcome_side d = ord_outcome_side r \<and> po_order_side d = ord_order_side r
    \<and> po_quantity d = (case ro_new_quantity ro of Some q \<Rightarrow> q | None \<Rightarrow> ord_quantity r)
    \<and> po_price d = (case ro_new_price ro of Some p \<Rightarrow> Some p | None \<Rightarrow> ord_price r)
    \<and> within_limits sl d cx (emitted_at e)"
proof -
  from assms obtain d where rep: "replacement_as_place_order ro cx = Inr (Some d)"
    and ev: "evaluate_place_order sl d cx (emitted_at e) False g = Inr (dec, g')"
    by (auto simp: gate_evaluate_def bind_result_Inr_iff split: if_splits option.splits)
  from rep obtain r rs price where f: "filter (\<lambda>r. ord_client_order_id r = ro_client_order_id ro) (cx_open_orders cx) = r # rs"
    and p: "(case ro_new_price ro of Some p \<Rightarrow> Some p | None \<Rightarrow> ord_price r) = Some price"
    and d: "po_instrument_id d = ord_instrument_id r" "po_outcome_side d = ord_outcome_side r" "po_order_side d = ord_order_side r"
      "po_quantity d = (case ro_new_quantity ro of Some q \<Rightarrow> q | None \<Rightarrow> ord_quantity r)" "po_price d = Some price"
    by (auto simp: replacement_as_place_order_def bind_result_Inr_iff mk_place_order_def split: list.splits option.splits)
  have "r \<in> set (filter (\<lambda>r. ord_client_order_id r = ro_client_order_id ro) (cx_open_orders cx))" using f by simp
  then have "r \<in> set (cx_open_orders cx)" "ord_client_order_id r = ro_client_order_id ro" by auto
  with d p evaluate_allowed(1) [OF ev assms(3)] show ?thesis by metis
qed

definition gate_open_order :: order where
  "gate_open_order =
     \<lparr>ord_client_order_id = ''c1'', ord_venue_order_id = None, ord_instrument_id = gate_iid, ord_outcome_side = YES,
      ord_order_side = BUY, ord_order_type = LIMIT, ord_time_in_force = IOC, ord_price = Some (1 / 4), ord_quantity = 10,
      ord_filled_quantity = 0, ord_status = OPEN, ord_created_at = utc 0, ord_updated_at = utc 0,
      ord_correlation_id = ''x'', ord_strategy_id = ''strategy'', ord_sleeve_id = ''sleeve'', ord_expires_at = None,
      ord_metadata = []\<rparr>"

definition gate_replace :: replace_order where
  "gate_replace = \<lparr>ro_client_order_id = ''c1'', ro_new_price = Some (1 / 2), ro_new_quantity = None,
    ro_market_snapshot = Some gate_snapshot, ro_reason = ''reprice'', ro_priority = None\<rparr>"

theorem gate_replacement_within_limits_witness:
  "\<exists>d. po_price d = Some (1 / 2) \<and> po_quantity d = 10 \<and>
     within_limits gate_sleeve d (gate_view\<lparr>cx_open_orders := [gate_open_order]\<rparr>) (utc 500000)"
proof -
  let ?e = "gate_envelope (ReplaceOrder gate_replace)" and ?cx = "gate_view\<lparr>cx_open_orders := [gate_open_order]\<rparr>"
  have "case gate_evaluate gate_sleeve ?e ?cx new_gate of Inr (dec, g') \<Rightarrow> rd_allowed dec | Inl _ \<Rightarrow> False"
    by code_simp
  then obtain dec g' where r: "gate_evaluate gate_sleeve ?e ?cx new_gate = Inr (dec, g')" "rd_allowed dec"
    by (auto split: sum.splits prod.splits)
  have "env_decision ?e = ReplaceOrder gate_replace" by (simp add: gate_envelope_def)
  from gate_replacement_within_limits [OF r(1) this r(2)] show ?thesis
    by (auto simp: gate_replace_def gate_open_order_def gate_envelope_def)
qed

text \<open>
  A country on the block list is never eligible, whatever its spelling in upper or lower case and whatever
  the allow list says; with no constraint configured everything is eligible.
\<close>

theorem eligibility_block_list:
  "(str_upper (el_country c) \<in> set (map str_upper (blocked_countries pol)) \<longrightarrow> \<not> is_eligible pol now c)
   \<and> is_eligible no_op_eligibility_policy now c
   \<and> (is_eligible pol now c \<longrightarrow> allowed_countries pol \<noteq> [] \<longrightarrow>
        str_upper (el_country c) \<in> set (map str_upper (allowed_countries pol)))"
  by (auto simp: is_eligible_def Let_def no_op_eligibility_policy_def split: option.splits if_splits)

definition us_context :: eligibility_context where
  "us_context = \<lparr>el_account_id = ''a'', el_country = ''us'', el_region = None, el_venue = ''kalshi'', el_market_category = None\<rparr>"

theorem eligibility_block_list_witness:
  "str_upper (el_country us_context) = ''US''
   \<and> \<not> is_eligible (no_op_eligibility_policy\<lparr>blocked_countries := [''Us'']\<rparr>) (utc 0)
        us_context"
proof -
  have "str_upper ''us'' = ''US''" "str_upper ''Us'' = ''US''" by code_simp+
  then show ?thesis unfolding us_context_def
    using eligibility_block_list [of us_context
      "no_op_eligibility_policy\<lparr>blocked_countries := [''Us'']\<rparr>" "utc 0"] by (simp add: us_context_def)
qed

end
