(* ===== verification/Pnl.thy ===== *)
theory Pnl
  imports RiskState
begin

text \<open>
  \<open>execution/pnl.py\<close>: the in-process accountant. It keeps a weighted-average position per
  instrument and outcome, realizes profit on closing fills and settlements, marks positions to
  quotes and feeds the daily loss ledger it shares with the risk gate.
\<close>

section \<open>Positions\<close>

record position_record =
  ps_instrument_id :: instrument_id
  ps_outcome_side :: outcome_side
  ps_quantity :: decimal
  ps_average_price :: decimal
  ps_realized_pnl :: decimal
  ps_mark_price :: "decimal option"
  ps_liquidation_mark :: "decimal option"
  ps_updated_at :: "datetime option"

definition new_position_record :: "instrument_id \<Rightarrow> outcome_side \<Rightarrow> position_record" where
  "new_position_record iid side =
     \<lparr>ps_instrument_id = iid, ps_outcome_side = side, ps_quantity = 0, ps_average_price = 0, ps_realized_pnl = 0,
      ps_mark_price = None, ps_liquidation_mark = None, ps_updated_at = None\<rparr>"

definition mark_or_average :: "decimal option \<Rightarrow> position_record \<Rightarrow> decimal" where
  "mark_or_average m r = (case m of None \<Rightarrow> ps_average_price r | Some x \<Rightarrow> x)"

definition to_position :: "position_record \<Rightarrow> datetime \<Rightarrow> position result" where
  "to_position r now =
     mk_position
       \<lparr>pos_instrument_id = ps_instrument_id r, pos_outcome_side = ps_outcome_side r, pos_quantity = ps_quantity r,
        pos_average_price = ps_average_price r, pos_realized_pnl = ps_realized_pnl r,
        pos_unrealized_pnl =
          (if ps_quantity r > 0
           then dmul (dsub (mark_or_average (ps_mark_price r) r) (ps_average_price r)) (ps_quantity r) else 0),
        pos_updated_at = (case ps_updated_at r of None \<Rightarrow> now | Some t \<Rightarrow> t)\<rparr>"

definition record_unrealized :: "string \<Rightarrow> position_record \<Rightarrow> decimal" where
  "record_unrealized mode r =
     (if ps_quantity r \<le> 0 then 0
      else dmul (dsub (mark_or_average (if mode = ''liquidation'' then ps_liquidation_mark r else ps_mark_price r) r)
                   (ps_average_price r)) (ps_quantity r))"

section \<open>The tracker\<close>

type_synonym position_key = "instrument_id \<times> outcome_side"

record pnl_tracker =
  pt_ledger :: "daily_loss_ledger option"
  pt_fee_model :: "fee_model option"
  pt_mark_mode :: string
  pt_records :: "(position_key, position_record) dict"
  pt_fees_paid :: decimal
  pt_realized :: decimal

definition pnl_tracker_check :: "pnl_tracker \<Rightarrow> py_error option" where
  "pnl_tracker_check t =
     check (pt_mark_mode t \<in> {''mid'', ''liquidation''}) (ValueError ''mark_mode must be mid or liquidation'')"

definition new_tracker :: "daily_loss_ledger option \<Rightarrow> pnl_tracker" where
  "new_tracker l =
     \<lparr>pt_ledger = l, pt_fee_model = None, pt_mark_mode = ''mid'', pt_records = [], pt_fees_paid = 0, pt_realized = 0\<rparr>"

definition record_of :: "pnl_tracker \<Rightarrow> position_key \<Rightarrow> position_record" where
  "record_of t k = (case dict_get (pt_records t) k of None \<Rightarrow> new_position_record (fst k) (snd k) | Some r \<Rightarrow> r)"

definition set_record :: "position_key \<Rightarrow> position_record \<Rightarrow> pnl_tracker \<Rightarrow> pnl_tracker" where
  "set_record k r t = t\<lparr>pt_records := dict_set k r (pt_records t)\<rparr>"

text \<open>\<open>if self.daily_loss_ledger is not None: self.daily_loss_ledger.record_realized_pnl(...)\<close>\<close>

definition note_realized :: "decimal \<Rightarrow> datetime \<Rightarrow> pnl_tracker \<Rightarrow> pnl_tracker result" where
  "note_realized x at_time t =
     (case pt_ledger t of
        None \<Rightarrow> Inr t
      | Some l \<Rightarrow> bind_result (record_realized_pnl x at_time l) (\<lambda>l'. Inr (t\<lparr>pt_ledger := Some l'\<rparr>)))"

definition buy_average :: "position_record \<Rightarrow> fill \<Rightarrow> decimal" where
  "buy_average r f =
     (let new_qty = dadd (ps_quantity r) (f_quantity f)
      in if new_qty > 0
         then ddiv (dadd (dmul (ps_quantity r) (ps_average_price r)) (dmul (f_quantity f) (f_price f))) new_qty
         else ps_average_price r)"

definition pnl_on_fill :: "fill \<Rightarrow> pnl_tracker \<Rightarrow> pnl_tracker result" where
  "pnl_on_fill f t =
     (let k = (f_instrument_id f, f_outcome_side f);
          r = record_of t k;
          t1 = t\<lparr>pt_fees_paid := dadd (pt_fees_paid t) (fee_amount f)\<rparr>
      in if f_order_side f = BUY
         then
           let r1 = r\<lparr>ps_average_price := buy_average r f, ps_quantity := dadd (ps_quantity r) (f_quantity f),
                      ps_realized_pnl := dsub (ps_realized_pnl r) (fee_amount f), ps_updated_at := Some (filled_at f)\<rparr>;
               t2 = set_record k r1 (t1\<lparr>pt_realized := dsub (pt_realized t1) (fee_amount f)\<rparr>)
           in if fee_amount f > 0 then note_realized (dneg (fee_amount f)) (filled_at f) t2 else Inr t2
         else
           let close_qty = min (ps_quantity r) (f_quantity f);
               realized = dmul (dsub (f_price f) (ps_average_price r)) close_qty;
               net = dsub realized (fee_amount f);
               r1 = r\<lparr>ps_realized_pnl := dadd (ps_realized_pnl r) net,
                      ps_quantity := dsub (ps_quantity r) close_qty, ps_updated_at := Some (filled_at f)\<rparr>
           in note_realized net (filled_at f) (set_record k r1 (t1\<lparr>pt_realized := dadd (pt_realized t1) net\<rparr>)))"

definition pnl_unrealized :: "string \<Rightarrow> pnl_tracker \<Rightarrow> decimal" where
  "pnl_unrealized mode t =
     dsum (map (record_unrealized mode) (filter (\<lambda>r. ps_quantity r > 0) (dict_values (pt_records t))))"

definition quote_marks :: "quote \<Rightarrow> decimal option \<times> decimal option" where
  "quote_marks q =
     (case (q_bid q, q_ask q) of
        (Some b, Some a) \<Rightarrow> (Some (ddiv (dadd (lvl_price b) (lvl_price a)) 2), Some (lvl_price b))
      | (Some b, None) \<Rightarrow> (Some (lvl_price b), Some (lvl_price b))
      | (None, Some a) \<Rightarrow> (Some (lvl_price a), Some (lvl_price a))
      | (None, None) \<Rightarrow> (None, None))"

definition pnl_on_quote :: "quote \<Rightarrow> pnl_tracker \<Rightarrow> pnl_tracker result" where
  "pnl_on_quote q t =
     (let k = (q_instrument_id q, q_side q)
      in case dict_get (pt_records t) k of
           None \<Rightarrow> Inr t
         | Some r \<Rightarrow>
             let (mid_mark, liquidation_mark) = quote_marks q;
                 r1 = r\<lparr>ps_mark_price := (if pt_mark_mode t = ''liquidation'' then liquidation_mark else mid_mark),
                        ps_liquidation_mark := liquidation_mark, ps_updated_at := Some (q_received_at q)\<rparr>;
                 t1 = set_record k r1 t
             in case pt_ledger t1 of
                  None \<Rightarrow> Inr t1
                | Some l \<Rightarrow>
                    bind_result (record_unrealized_pnl (pnl_unrealized ''liquidation'' t1) (q_received_at q) l)
                      (\<lambda>l'. Inr (t1\<lparr>pt_ledger := Some l'\<rparr>)))"

definition settlement_fee :: "pnl_tracker \<Rightarrow> instrument_id \<Rightarrow> outcome_side \<Rightarrow> decimal \<Rightarrow> decimal \<Rightarrow> decimal result" where
  "settlement_fee t iid side payout quantity =
     (case pt_fee_model t of
        None \<Rightarrow> Inr 0
      | Some m \<Rightarrow>
          bind_result (mk_fill_context
            \<lparr>fc_instrument_id = iid, fc_side = side, fc_price = payout, fc_quantity = quantity,
             fc_liquidity = ''settlement'', market_category = None\<rparr>)
            (\<lambda>c. bind_result (m c) (\<lambda>est. Inr (est_amount est))))"

definition settle_side :: "settlement_event \<Rightarrow> outcome_side \<Rightarrow> pnl_tracker \<Rightarrow> pnl_tracker result" where
  "settle_side st side t =
     (let k = (set_instrument_id st, side)
      in case dict_get (pt_records t) k of
           None \<Rightarrow> Inr t
         | Some r \<Rightarrow>
             if ps_quantity r \<le> 0 then Inr t
             else
               let payout = (if resolved_side st = Some side then payout_per_contract st else 0)
               in bind_result (settlement_fee t (set_instrument_id st) side payout (ps_quantity r)) (\<lambda>fee.
                  let realized = dsub (dmul (dsub payout (ps_average_price r)) (ps_quantity r)) fee;
                      t1 = t\<lparr>pt_realized := dadd (pt_realized t) realized, pt_fees_paid := dadd (pt_fees_paid t) fee\<rparr>;
                      r1 = r\<lparr>ps_realized_pnl := dadd (ps_realized_pnl r) realized, ps_quantity := 0,
                             ps_average_price := 0, ps_mark_price := Some payout, ps_updated_at := Some (settled_at st)\<rparr>
                  in note_realized realized (settled_at st) (set_record k r1 t1)))"

definition pnl_on_settlement :: "settlement_event \<Rightarrow> pnl_tracker \<Rightarrow> pnl_tracker result" where
  "pnl_on_settlement st t =
     (if resolved_side st = None then Inr t
      else bind_result (settle_side st YES t) (settle_side st NO))"

fun pnl_on_event :: "normalized_event \<Rightarrow> pnl_tracker \<Rightarrow> pnl_tracker result" where
  "pnl_on_event (QuoteEvent eid q prov) t = pnl_on_quote q t"
| "pnl_on_event (SettlementResolvedEvent eid st prov) t = pnl_on_settlement st t"
| "pnl_on_event _ t = Inr t"

definition pnl_position :: "pnl_tracker \<Rightarrow> instrument_id \<Rightarrow> outcome_side \<Rightarrow> datetime \<Rightarrow> position option result" where
  "pnl_position t iid side now =
     (case dict_get (pt_records t) (iid, side) of
        None \<Rightarrow> Inr None
      | Some r \<Rightarrow> if ps_quantity r \<le> 0 then Inr None else bind_result (to_position r now) (\<lambda>p. Inr (Some p)))"

definition pnl_positions :: "pnl_tracker \<Rightarrow> datetime \<Rightarrow> position list result" where
  "pnl_positions t now =
     fold_result (\<lambda>r ps. bind_result (to_position r now) (\<lambda>p. Inr (ps @ [p])))
       (filter (\<lambda>r. ps_quantity r > 0) (dict_values (pt_records t))) []"

definition total_pnl :: "pnl_tracker \<Rightarrow> decimal" where
  "total_pnl t = dadd (pt_realized t) (pnl_unrealized (pt_mark_mode t) t)"

section \<open>Invariant\<close>

text \<open>Quantities are representable and never negative; average prices are probabilities.\<close>

definition record_ok :: "position_record \<Rightarrow> bool" where
  "record_ok r \<longleftrightarrow> 0 \<le> ps_quantity r \<and> dctx (ps_quantity r) = ps_quantity r \<and>
     0 \<le> ps_average_price r \<and> ps_average_price r \<le> 1"

definition tracker_ok :: "pnl_tracker \<Rightarrow> bool" where
  "tracker_ok t \<longleftrightarrow> wf_dict (pt_records t) \<and> list_all (record_ok \<circ> snd) (pt_records t)"

definition fill_ok :: "fill \<Rightarrow> bool" where
  "fill_ok f \<longleftrightarrow> fill_check f = None \<and> dctx (f_quantity f) = f_quantity f"

lemma list_all_update: "list_all (P \<circ> snd) d \<Longrightarrow> P v \<Longrightarrow> list_all (P \<circ> snd) (dict_set k v d)"
  by (induction d) auto

lemma list_all_lookup: "list_all (P \<circ> snd) d \<Longrightarrow> dict_get d k = Some v \<Longrightarrow> P v"
  by (auto simp: list_all_iff dest!: map_of_SomeD)

lemma record_of_ok: "tracker_ok t \<Longrightarrow> record_ok (record_of t k)"
  by (auto simp: record_of_def tracker_ok_def new_position_record_def record_ok_def split: option.splits
      dest: list_all_lookup [where P = record_ok])

lemma set_record_ok: "tracker_ok t \<Longrightarrow> record_ok r \<Longrightarrow> tracker_ok (set_record k r t)"
  by (simp add: tracker_ok_def set_record_def list_all_update)

lemma tracker_ok_records: "pt_records t' = pt_records t \<Longrightarrow> tracker_ok t' = tracker_ok t"
  by (simp add: tracker_ok_def)

lemma note_realized_records: "note_realized x u t = Inr t' \<Longrightarrow> pt_records t' = pt_records t"
  by (auto simp: note_realized_def bind_result_Inr_iff split: option.splits)

lemma note_realized_ok: "note_realized x u t = Inr t' \<Longrightarrow> tracker_ok t' = tracker_ok t"
  by (rule tracker_ok_records) (rule note_realized_records)

lemma buy_average_range:
  assumes "record_ok r" and "fill_ok f"
  shows "0 \<le> buy_average r f \<and> buy_average r f \<le> 1"
proof -
  let ?q = "ps_quantity r" and ?a = "ps_average_price r" and ?fq = "f_quantity f" and ?p = "f_price f"
  have f: "0 < ?fq" "0 \<le> ?p" "?p \<le> 1" "dctx ?fq = ?fq" using assms(2) by (auto simp: fill_ok_def fill_check_iff)
  have r: "0 \<le> ?q" "dctx ?q = ?q" "0 \<le> ?a" "?a \<le> 1" using assms(1) by (auto simp: record_ok_def)
  have le1: "dmul ?q ?a \<le> ?q" unfolding dmul_def
    using r by (intro dctx_le_fix) (auto simp: mult_left_le)
  have le2: "dmul ?fq ?p \<le> ?fq" unfolding dmul_def
    using f by (intro dctx_le_fix) (auto simp: mult_left_le)
  have num: "dadd (dmul ?q ?a) (dmul ?fq ?p) \<le> dadd ?q ?fq" using le1 le2 by (rule dadd_mono)
  have nn: "0 \<le> dadd (dmul ?q ?a) (dmul ?fq ?p)"
    using r f by (intro dadd_nonneg dmul_nonneg) auto
  show ?thesis
  proof (cases "dadd ?q ?fq > 0")
    case True
    then have "dadd (dmul ?q ?a) (dmul ?fq ?p) / dadd ?q ?fq \<le> 1" using num by simp
    then have "ddiv (dadd (dmul ?q ?a) (dmul ?fq ?p)) (dadd ?q ?fq) \<le> 1"
      unfolding ddiv_def by (intro dctx_le_fix) auto
    moreover have "0 \<le> ddiv (dadd (dmul ?q ?a) (dmul ?fq ?p)) (dadd ?q ?fq)"
      using nn True by (intro ddiv_nonneg) auto
    ultimately show ?thesis using True by (simp add: buy_average_def)
  qed (use r in \<open>simp add: buy_average_def Let_def\<close>)
qed

lemma pnl_on_fill_ok [keeps]:
  assumes "pnl_on_fill f t = Inr t'" and "tracker_ok t" and "fill_ok f"
  shows "tracker_ok t'"
proof -
  let ?k = "(f_instrument_id f, f_outcome_side f)"
  let ?r = "record_of t ?k"
  let ?t1 = "t\<lparr>pt_fees_paid := dadd (pt_fees_paid t) (fee_amount f)\<rparr>"
  have r: "record_ok ?r" by (rule record_of_ok [OF assms(2)])
  have f: "0 < f_quantity f" using assms(3) by (simp add: fill_ok_def fill_check_iff)
  have t1: "tracker_ok (?t1\<lparr>pt_realized := x\<rparr>)" for x using assms(2) by (simp add: tracker_ok_def)
  show ?thesis
  proof (cases "f_order_side f = BUY")
    case True
    let ?r1 = "?r\<lparr>ps_average_price := buy_average ?r f, ps_quantity := dadd (ps_quantity ?r) (f_quantity f),
        ps_realized_pnl := dsub (ps_realized_pnl ?r) (fee_amount f), ps_updated_at := Some (filled_at f)\<rparr>"
    have "record_ok ?r1"
      using buy_average_range [OF r assms(3)] r f by (simp add: record_ok_def dadd_nonneg) (simp add: dadd_def)
    then have "tracker_ok (set_record ?k ?r1 (?t1\<lparr>pt_realized := dsub (pt_realized ?t1) (fee_amount f)\<rparr>))"
      by (rule set_record_ok [OF t1])
    with assms(1) True show ?thesis by (auto simp: pnl_on_fill_def Let_def note_realized_ok split: if_splits)
  next
    case False
    let ?c = "min (ps_quantity ?r) (f_quantity f)"
    let ?net = "dsub (dmul (dsub (f_price f) (ps_average_price ?r)) ?c) (fee_amount f)"
    let ?r1 = "?r\<lparr>ps_realized_pnl := dadd (ps_realized_pnl ?r) ?net,
        ps_quantity := dsub (ps_quantity ?r) ?c, ps_updated_at := Some (filled_at f)\<rparr>"
    have "record_ok ?r1" using r by (simp add: record_ok_def dsub_nonneg) (simp add: dsub_def)
    then have "tracker_ok (set_record ?k ?r1 (?t1\<lparr>pt_realized := dadd (pt_realized ?t1) ?net\<rparr>))"
      by (rule set_record_ok [OF t1])
    with assms(1) False show ?thesis by (simp add: pnl_on_fill_def Let_def note_realized_ok)
  qed
qed

lemma pnl_on_quote_ok [keeps]:
  assumes "pnl_on_quote q t = Inr t'" and "tracker_ok t"
  shows "tracker_ok t'"
proof (cases "dict_get (pt_records t) (q_instrument_id q, q_side q)")
  case (Some r)
  have r: "record_ok r" using assms(2) Some by (auto simp: tracker_ok_def intro: list_all_lookup)
  obtain m l where m: "quote_marks q = (m, l)" by fastforce
  let ?r1 = "r\<lparr>ps_mark_price := (if pt_mark_mode t = ''liquidation'' then l else m),
                        ps_liquidation_mark := l, ps_updated_at := Some (q_received_at q)\<rparr>"
  have "tracker_ok (set_record (q_instrument_id q, q_side q) ?r1 t)"
    using r by (intro set_record_ok [OF assms(2)]) (simp add: record_ok_def)
  moreover have "pt_records t' = pt_records (set_record (q_instrument_id q, q_side q) ?r1 t)"
    using assms(1) Some m by (auto simp: pnl_on_quote_def Let_def bind_result_Inr_iff split: option.splits)
  ultimately show ?thesis using tracker_ok_records by blast
qed (use assms in \<open>simp add: pnl_on_quote_def\<close>)

text \<open>Settling one side leaves the other alone and flattens its own.\<close>

lemma settle_side_cases:
  assumes "settle_side st side t = Inr t'"
  obtains (skip) "t' = t" and "\<And>r. dict_get (pt_records t) (set_instrument_id st, side) = Some r \<Longrightarrow> ps_quantity r \<le> 0"
  | (flat) r r1 where "dict_get (pt_records t) (set_instrument_id st, side) = Some r" and "0 < ps_quantity r"
      and "ps_quantity r1 = 0" and "ps_average_price r1 = 0"
      and "pt_records t' = dict_set (set_instrument_id st, side) r1 (pt_records t)"
proof (cases "\<exists>r. dict_get (pt_records t) (set_instrument_id st, side) = Some r \<and> 0 < ps_quantity r")
  case False
  with assms show thesis by (intro skip) (auto simp: settle_side_def Let_def not_less split: option.splits)
next
  case True
  then obtain r where r: "dict_get (pt_records t) (set_instrument_id st, side) = Some r" "0 < ps_quantity r" by blast
  let ?payout = "if resolved_side st = Some side then payout_per_contract st else 0"
  from assms r obtain fee where fee: "settlement_fee t (set_instrument_id st) side ?payout (ps_quantity r) = Inr fee"
    by (auto simp: settle_side_def Let_def bind_result_Inr_iff)
  let ?real = "dsub (dmul (dsub ?payout (ps_average_price r)) (ps_quantity r)) fee"
  let ?t1 = "t\<lparr>pt_realized := dadd (pt_realized t) ?real, pt_fees_paid := dadd (pt_fees_paid t) fee\<rparr>"
  let ?r1 = "r\<lparr>ps_realized_pnl := dadd (ps_realized_pnl r) ?real, ps_quantity := 0,
       ps_average_price := 0, ps_mark_price := Some ?payout, ps_updated_at := Some (settled_at st)\<rparr>"
  have "note_realized ?real (settled_at st) (set_record (set_instrument_id st, side) ?r1 ?t1) = Inr t'"
    using assms r fee by (simp add: settle_side_def Let_def)
  then have "pt_records t' = dict_set (set_instrument_id st, side) ?r1 (pt_records t)"
    by (simp add: note_realized_records set_record_def)
  with r show thesis by (intro flat [of r ?r1]) auto
qed

lemma settle_side_ok: "settle_side st side t = Inr t' \<Longrightarrow> tracker_ok t \<Longrightarrow> tracker_ok t'"
  by (erule settle_side_cases) (auto simp: tracker_ok_def record_ok_def intro!: list_all_update)

lemma pnl_on_event_ok [keeps]: "pnl_on_event e t = Inr t' \<Longrightarrow> tracker_ok t \<Longrightarrow> tracker_ok t'"
  by (cases e) (auto simp: pnl_on_settlement_def bind_result_Inr_iff pnl_on_quote_ok split: if_splits
      intro: settle_side_ok)

text \<open>The tracker's inputs in order.\<close>

datatype pnl_input = FillInput fill | EventInput normalized_event

fun pnl_step :: "pnl_input \<Rightarrow> pnl_tracker \<Rightarrow> pnl_tracker result" where
  "pnl_step (FillInput f) t = pnl_on_fill f t"
| "pnl_step (EventInput e) t = pnl_on_event e t"

definition pnl_run :: "pnl_input list \<Rightarrow> pnl_tracker \<Rightarrow> pnl_tracker result" where
  "pnl_run = fold_result pnl_step"

lemma pnl_run_ok:
  assumes "pnl_run xs t = Inr t'" and "tracker_ok t" and "\<forall>f. FillInput f \<in> set xs \<longrightarrow> fill_ok f"
  shows "tracker_ok t'"
  using assms(1) unfolding pnl_run_def
proof (rule fold_result_invariant)
  fix x s u
  assume h: "x \<in> set xs" "tracker_ok s" "pnl_step x s = Inr u"
  show "tracker_ok u"
    by (cases x) (use h assms(3) in \<open>auto intro: pnl_on_fill_ok pnl_on_event_ok\<close>)
qed (rule assms(2))

section \<open>Guarantees\<close>

definition pnl_iid :: instrument_id where
  "pnl_iid = \<lparr>iid_venue = KALSHI, market_id = ''RAIN-NYC'', outcome_id = None\<rparr>"

definition pnl_fill :: "order_side \<Rightarrow> decimal \<Rightarrow> decimal \<Rightarrow> decimal \<Rightarrow> fill" where
  "pnl_fill side p q fee =
     \<lparr>fill_id = ''f1'', f_venue_order_id = ''v1'', f_client_order_id = ''c1'', f_instrument_id = pnl_iid, f_outcome_side = YES,
      f_order_side = side, f_price = p, f_quantity = q, f_liquidity = TAKER, fee_amount = fee, fee_currency = ''USD'',
      filled_at = utc 5, f_exchange_ts = None, f_correlation_id = ''x'', f_strategy_id = ''s'', f_sleeve_id = ''sl'', f_metadata = []\<rparr>"

text \<open>
  C26: Whatever fills, quotes and settlements arrive, no position of the accountant is ever negative and every
  average price stays a probability, rounding included.
\<close>

theorem pnl_positions_long_only:
  assumes "pnl_run xs (new_tracker l) = Inr t" and "\<forall>f. FillInput f \<in> set xs \<longrightarrow> fill_ok f"
    and "dict_get (pt_records t) k = Some r"
  shows "0 \<le> ps_quantity r \<and> 0 \<le> ps_average_price r \<and> ps_average_price r \<le> 1"
proof -
  have "tracker_ok (new_tracker l)" by (simp add: tracker_ok_def new_tracker_def)
  from pnl_run_ok [OF assms(1) this assms(2)] have "record_ok r"
    using assms(3) by (auto simp: tracker_ok_def intro: list_all_lookup)
  then show ?thesis by (simp add: record_ok_def)
qed

theorem pnl_positions_long_only_witness:
  "\<exists>t r. pnl_run [FillInput (pnl_fill BUY (1 / 4) 10 0), FillInput (pnl_fill SELL (1 / 2) 25 0)] (new_tracker None) = Inr t
     \<and> dict_get (pt_records t) (pnl_iid, YES) = Some r \<and> 0 \<le> ps_quantity r"
proof -
  let ?xs = "[FillInput (pnl_fill BUY (1 / 4) 10 0), FillInput (pnl_fill SELL (1 / 2) 25 0)]"
  have "case pnl_run ?xs (new_tracker None) of Inr t \<Rightarrow> dict_get (pt_records t) (pnl_iid, YES) \<noteq> None | Inl e \<Rightarrow> False"
    by code_simp
  then obtain t r where t: "pnl_run ?xs (new_tracker None) = Inr t" "dict_get (pt_records t) (pnl_iid, YES) = Some r"
    by (auto split: sum.splits)
  have "fill_ok (pnl_fill BUY (1 / 4) 10 0)" "fill_ok (pnl_fill SELL (1 / 2) 25 0)" by code_simp+
  then have "\<forall>f. FillInput f \<in> set ?xs \<longrightarrow> fill_ok f" by simp
  from pnl_positions_long_only [OF t(1) this t(2)] t show ?thesis by blast
qed

text \<open>
  Settling a resolved market closes it: afterwards neither outcome of the instrument has a position, and
  settling it again changes nothing.
\<close>

theorem settlement_flattens:
  assumes "pnl_on_settlement st t = Inr t'" and "resolved_side st \<noteq> None"
  shows "(\<forall>side r. dict_get (pt_records t') (set_instrument_id st, side) = Some r \<longrightarrow> ps_quantity r \<le> 0)
    \<and> pnl_on_settlement st t' = Inr t'"
proof -
  from assms obtain t1 where y: "settle_side st YES t = Inr t1" and n: "settle_side st NO t1 = Inr t'"
    by (auto simp: pnl_on_settlement_def bind_result_Inr_iff)
  have yes1: "\<And>r. dict_get (pt_records t1) (set_instrument_id st, YES) = Some r \<Longrightarrow> ps_quantity r \<le> 0"
    using y by (cases rule: settle_side_cases) auto
  have yes: "\<And>r. dict_get (pt_records t') (set_instrument_id st, YES) = Some r \<Longrightarrow> ps_quantity r \<le> 0"
    using n yes1 by (cases rule: settle_side_cases) auto
  have no: "\<And>r. dict_get (pt_records t') (set_instrument_id st, NO) = Some r \<Longrightarrow> ps_quantity r \<le> 0"
    using n by (cases rule: settle_side_cases) auto
  have fl: "\<forall>side r. dict_get (pt_records t') (set_instrument_id st, side) = Some r \<longrightarrow> ps_quantity r \<le> 0"
  proof (intro allI impI)
    fix side r
    assume "dict_get (pt_records t') (set_instrument_id st, side) = Some r"
    with yes no show "ps_quantity r \<le> 0" by (cases side) auto
  qed
  have "settle_side st side t' = Inr t'" for side
    using fl by (auto simp: settle_side_def Let_def split: option.splits)
  with fl assms(2) show ?thesis by (simp add: pnl_on_settlement_def)
qed

definition pnl_settlement :: settlement_event where
  "pnl_settlement = \<lparr>set_instrument_id = pnl_iid, resolved_side = Some YES, payout_per_contract = 1, set_currency = ''USD'',
     settled_at = utc 9, set_source = ''venue'', set_metadata = []\<rparr>"

theorem settlement_flattens_witness:
  "\<exists>t t'. pnl_on_fill (pnl_fill BUY (1 / 4) 10 0) (new_tracker None) = Inr t \<and> pnl_on_settlement pnl_settlement t = Inr t'
     \<and> pnl_on_settlement pnl_settlement t' = Inr t' \<and> pt_realized t' = 15 / 2"
proof -
  let ?r = "bind_result (pnl_on_fill (pnl_fill BUY (1 / 4) 10 0) (new_tracker None)) (pnl_on_settlement pnl_settlement)"
  have "case ?r of Inr t' \<Rightarrow> pt_realized t' = 15 / 2 | Inl e \<Rightarrow> False" by code_simp
  then obtain t t' where t: "pnl_on_fill (pnl_fill BUY (1 / 4) 10 0) (new_tracker None) = Inr t"
      "pnl_on_settlement pnl_settlement t = Inr t'" "pt_realized t' = 15 / 2"
    by (auto simp: bind_result_Inr_iff split: sum.splits)
  have "resolved_side pnl_settlement \<noteq> None" by (simp add: pnl_settlement_def)
  from settlement_flattens [OF t(2) this] t show ?thesis by blast
qed

text \<open>On a common grid a difference within 28 digits is exact.\<close>

lemma dsub_exact: "on_grid k x \<Longrightarrow> on_grid k y \<Longrightarrow> \<bar>x - y\<bar> * 10 ^ k \<le> 10 ^ 28 \<Longrightarrow> dsub x y = x - y \<and> on_grid k (x - y)"
  using on_grid_add [of k x "- y"] dctx_grid [of k "x - y"] by (simp add: dsub_def)

lemma dctx_on_grid: "on_grid k x \<Longrightarrow> dadd 0 x = x"
  by (simp add: dadd_def)

text \<open>
  Buying a quantity and selling it again realizes exactly the price difference times the quantity, less
  both fees, and leaves no position (for prices and quantities of four decimals and amounts within range).
\<close>

theorem round_trip_pnl:
  assumes "pnl_on_fill f (new_tracker None) = Inr t1" and "pnl_on_fill g t1 = Inr t2"
    and "f_order_side f = BUY" and "f_order_side g = SELL"
    and "f_instrument_id g = f_instrument_id f" and "f_outcome_side g = f_outcome_side f" and "f_quantity g = f_quantity f"
    and "on_grid 4 (f_quantity f)" and "0 < f_quantity f" and "f_quantity f \<le> 10 ^ 9"
    and "on_grid 4 (f_price f)" and "0 \<le> f_price f" and "f_price f \<le> 1"
    and "on_grid 4 (f_price g)" and "0 \<le> f_price g" and "f_price g \<le> 1"
    and "on_grid 8 (fee_amount f)" and "\<bar>fee_amount f\<bar> \<le> 10 ^ 9" and "on_grid 8 (fee_amount g)" and "\<bar>fee_amount g\<bar> \<le> 10 ^ 9"
  shows "pt_realized t2 = (f_price g - f_price f) * f_quantity f - fee_amount f - fee_amount g
    \<and> (\<forall>r. dict_get (pt_records t2) (f_instrument_id f, f_outcome_side f) = Some r \<longrightarrow> ps_quantity r = 0)"
proof -
  let ?q = "f_quantity f" and ?p = "f_price f" and ?p' = "f_price g" and ?a = "fee_amount f" and ?b = "fee_amount g"
  have q: "dctx ?q = ?q" and p: "dctx ?p = ?p" using assms(8,11) dctx_grid by auto
  have qp: "\<bar>?q * ?p\<bar> \<le> 10 ^ 9"
    using assms(9,10,12,13) mult_mono [of ?q "10 ^ 9" ?p 1] by (simp add: abs_of_nonneg)
  have m1: "dmul ?q ?p = ?q * ?p" by (rule dmul_grid [OF assms(8,11)]) (rule grid_room [OF qp], simp)
  have m1g: "on_grid 8 (?q * ?p)" using on_grid_mult [OF assms(8,11) grid_room [OF qp]] by simp
  have avg: "buy_average (new_position_record (f_instrument_id f) (f_outcome_side f)) f = ?p"
    using m1 dctx_on_grid [OF m1g] dctx_on_grid [OF assms(8)] assms(9) p
    by (simp add: buy_average_def new_position_record_def Let_def ddiv_def)
  have diff: "dsub ?p' ?p = ?p' - ?p" "on_grid 4 (?p' - ?p)"
    using dsub_exact [OF assms(14,11)] grid_room [of "?p' - ?p" 0 4] assms(12-16) by auto
  have dq: "\<bar>(?p' - ?p) * ?q\<bar> \<le> 10 ^ 9"
    using assms(9,10,12,13,15,16) mult_mono [of "\<bar>?p' - ?p\<bar>" 1 ?q "10 ^ 9"] by (auto simp: abs_mult)
  have m2: "dmul (?p' - ?p) ?q = (?p' - ?p) * ?q" by (rule dmul_grid [OF diff(2) assms(8)]) (rule grid_room [OF dq], simp)
  have m2g: "on_grid 8 ((?p' - ?p) * ?q)" using on_grid_mult [OF diff(2) assms(8) grid_room [OF dq]] by simp
  have net: "dsub ((?p' - ?p) * ?q) ?b = (?p' - ?p) * ?q - ?b" "on_grid 8 ((?p' - ?p) * ?q - ?b)"
    using dsub_exact [OF m2g assms(19)] grid_room [of "(?p' - ?p) * ?q - ?b" 10 8] dq assms(20) by auto
  have fee: "dsub 0 ?a = - ?a" using assms(17) dctx_grid [of 8 "- ?a"] by (simp add: dsub_def)
  have tot: "dadd (- ?a) ((?p' - ?p) * ?q - ?b) = - ?a + ((?p' - ?p) * ?q - ?b)"
    using assms(17,18,20) net(2) dq grid_room [of "- ?a + ((?p' - ?p) * ?q - ?b)" 11 8]
    by (intro dadd_grid [of 8]) auto
  have t1: "pt_realized t1 = - ?a" "\<exists>r. pt_records t1 = [((f_instrument_id f, f_outcome_side f), r)] \<and>
      ps_quantity r = ?q \<and> ps_average_price r = ?p" "pt_ledger t1 = None"
    using assms(1,3) avg fee dctx_on_grid [OF assms(8)]
    by (auto simp: pnl_on_fill_def Let_def new_tracker_def record_of_def set_record_def note_realized_def
        new_position_record_def split: if_splits)
  then obtain r where r: "pt_records t1 = [((f_instrument_id f, f_outcome_side f), r)]" "ps_quantity r = ?q" "ps_average_price r = ?p"
    by blast
  then show ?thesis
    using assms(2,4-7) t1(1,3) diff m2 net tot
    by (auto simp: pnl_on_fill_def Let_def record_of_def set_record_def note_realized_def)
qed

theorem round_trip_pnl_witness:
  "\<exists>t1 t2. pnl_on_fill (pnl_fill BUY (1 / 4) 10 (1 / 10)) (new_tracker None) = Inr t1 \<and>
     pnl_on_fill (pnl_fill SELL (3 / 4) 10 (1 / 10)) t1 = Inr t2 \<and> pt_realized t2 = 48 / 10"
proof -
  let ?f = "pnl_fill BUY (1 / 4) 10 (1 / 10)" and ?g = "pnl_fill SELL (3 / 4) 10 (1 / 10)"
  have "case bind_result (pnl_on_fill ?f (new_tracker None)) (pnl_on_fill ?g) of Inr t \<Rightarrow> True | Inl e \<Rightarrow> False" by code_simp
  then obtain t1 t2 where t: "pnl_on_fill ?f (new_tracker None) = Inr t1" "pnl_on_fill ?g t1 = Inr t2"
    by (auto simp: bind_result_Inr_iff split: sum.splits)
  have "on_grid 4 (10 :: rat)" "on_grid 4 (1 / 4)" "on_grid 4 (3 / 4)" "on_grid 8 (1 / 10)" by code_simp+
  with round_trip_pnl [OF t] t show ?thesis by (auto simp: pnl_fill_def)
qed

end
