(* ===== verification/AuditTrail.thy ===== *)
theory AuditTrail
  imports Events
begin

text \<open>
  \<open>audit.py\<close>: audit stamps and links, the in-memory trail and the validator of upstream chains. The
  sha256 digest of a value's canonical JSON is an argument of the definitions that stamp. The
  validator's recursive closure \<open>walk\<close> works on one record of its four collections; its recursion
  is bounded by a fuel that \<open>validate_complete_chain\<close> sets to one more than the number of stamps.
\<close>

section \<open>ISO timestamps\<close>

text \<open>The civil date of a day number, and \<open>datetime.isoformat()\<close>.\<close>

definition civil_of_days :: "int \<Rightarrow> int \<times> int \<times> int" where
  "civil_of_days days =
     (let z = days + 719468;
          era = z div 146097;
          doe = z mod 146097;
          yoe = (doe - doe div 1460 + doe div 36524 - doe div 146096) div 365;
          doy = doe - (365 * yoe + yoe div 4 - yoe div 100);
          mp = (5 * doy + 2) div 153;
          d = doy - (153 * mp + 2) div 5 + 1;
          m = (if mp < 10 then mp + 3 else mp - 9);
          y = yoe + era * 400 + (if m \<le> 2 then 1 else 0)
      in (y, m, d))"

definition pad_int :: "nat \<Rightarrow> int \<Rightarrow> string" where
  "pad_int w n = zero_pad w (str_nat (nat n))"

definition iso_clock :: "int \<Rightarrow> string" where
  "iso_clock us =
     pad_int 2 (us div 3600000000) @ '':'' @ pad_int 2 (us div 60000000 mod 60) @ '':'' @ pad_int 2 (us div 1000000 mod 60)
     @ (if us mod 1000000 = 0 then [] else ''.'' @ pad_int 6 (us mod 1000000))"

definition iso_offset :: "int \<Rightarrow> string" where
  "iso_offset off =
     (let a = \<bar>off\<bar>
      in (if off < 0 then ''-'' else ''+'') @ pad_int 2 (a div 3600000000) @ '':'' @ pad_int 2 (a div 60000000 mod 60)
         @ (if a mod 60000000 = 0 then []
            else '':'' @ pad_int 2 (a div 1000000 mod 60)
                 @ (if a mod 1000000 = 0 then [] else ''.'' @ pad_int 6 (a mod 1000000))))"

definition isoformat :: "datetime \<Rightarrow> string" where
  "isoformat t =
     (let wall = instant t + (case utcoffset t of None \<Rightarrow> 0 | Some off \<Rightarrow> off);
          (y, m, d) = civil_of_days (wall div 86400000000)
      in pad_int 4 y @ ''-'' @ pad_int 2 m @ ''-'' @ pad_int 2 d @ ''T'' @ iso_clock (wall mod 86400000000)
         @ (case utcoffset t of None \<Rightarrow> [] | Some off \<Rightarrow> iso_offset off))"

section \<open>Stamps and links\<close>

record audit_stamp =
  au_object_id :: string
  au_object_kind :: string
  au_schema_version :: string
  au_produced_at :: datetime
  au_producer :: string
  au_sha256 :: string
  au_parent_ids :: "string list"
  au_trace_id :: "string option"
  au_metadata :: frozen_map

definition audit_stamp_check :: "audit_stamp \<Rightarrow> py_error option" where
  [record_defs]: "audit_stamp_check s =
     first_error
       ([require_non_empty (au_object_id s) ''object_id'',
         require_non_empty (au_object_kind s) ''object_kind'',
         require_non_empty (au_schema_version s) ''schema_version'',
         require_aware_datetime (au_produced_at s) ''produced_at'',
         require_non_empty (au_producer s) ''producer'',
         require_non_empty (au_sha256 s) ''canonical_sha256'',
         check (length (au_sha256 s) = 64) (ValueError ''canonical_sha256 must be a hex sha256 digest'')]
        @ map (\<lambda>p. require_non_empty p ''parent_id'') (au_parent_ids s)
        @ [require_optional_non_empty (au_trace_id s) ''trace_id''])"

definition mk_audit_stamp :: "audit_stamp \<Rightarrow> audit_stamp result" where
  "mk_audit_stamp s = validated (audit_stamp_check s) (s\<lparr>au_metadata := freeze_mapping (au_metadata s)\<rparr>)"

definition audit_stamp_for ::
  "string \<Rightarrow> string \<Rightarrow> string \<Rightarrow> string \<Rightarrow> datetime \<Rightarrow> string \<Rightarrow> string list \<Rightarrow> string option
   \<Rightarrow> frozen_map option \<Rightarrow> audit_stamp result" where
  "audit_stamp_for digest object_id object_kind schema_version produced_at producer parent_ids trace_id metadata =
     mk_audit_stamp
       \<lparr>au_object_id = object_id, au_object_kind = object_kind, au_schema_version = schema_version,
        au_produced_at = produced_at, au_producer = producer, au_sha256 = digest, au_parent_ids = parent_ids,
        au_trace_id = trace_id, au_metadata = (case metadata of None \<Rightarrow> [] | Some m \<Rightarrow> m)\<rparr>"

record audit_link =
  ln_parent_id :: string
  ln_child_id :: string
  ln_relation :: string

definition audit_link_check :: "audit_link \<Rightarrow> py_error option" where
  [record_defs]: "audit_link_check l =
     first_error
       [require_non_empty (ln_parent_id l) ''parent_id'',
        require_non_empty (ln_child_id l) ''child_id'',
        require_non_empty (ln_relation l) ''relation'']"

section \<open>The in-memory trail\<close>

record audit_trail =
  at_stamps :: "(string, audit_stamp) dict"
  at_links :: "(string, audit_link list) dict"

definition new_trail :: audit_trail where
  "new_trail = \<lparr>at_stamps = [], at_links = []\<rparr>"

text \<open>Equality of two stamps: the datetimes compare by instant, the other fields as they are.\<close>

definition same_stamp :: "audit_stamp \<Rightarrow> audit_stamp \<Rightarrow> bool" where
  "same_stamp a b \<longleftrightarrow>
     instant (au_produced_at a) = instant (au_produced_at b) \<and> a\<lparr>au_produced_at := au_produced_at b\<rparr> = b"

definition append_stamp :: "audit_stamp \<Rightarrow> audit_trail \<Rightarrow> audit_trail result" where
  "append_stamp s tr =
     (let store = Inr (tr\<lparr>at_stamps := dict_set (au_object_id s) s (at_stamps tr)\<rparr>)
      in case dict_get (at_stamps tr) (au_object_id s) of
           None \<Rightarrow> store
         | Some cur \<Rightarrow> if \<not> same_stamp cur s then Inl (ValueError ''conflicting audit stamp for'') else store)"

definition append_link :: "audit_link \<Rightarrow> audit_trail \<Rightarrow> audit_trail" where
  "append_link l tr =
     (let links = dict_get_default (at_links tr) (ln_child_id l) []
      in tr\<lparr>at_links := dict_set (ln_child_id l) (if l \<in> set links then links else links @ [l]) (at_links tr)\<rparr>)"

definition lineage :: "audit_trail \<Rightarrow> string \<Rightarrow> audit_link list result" where
  "lineage tr oid = validated (require_non_empty oid ''object_id'') (dict_get_default (at_links tr) oid [])"

definition get_stamp :: "audit_trail \<Rightarrow> string \<Rightarrow> audit_stamp option result" where
  "get_stamp tr oid = validated (require_non_empty oid ''object_id'') (dict_get (at_stamps tr) oid)"

section \<open>The validator\<close>

datatype audit_issue =
    CycleIssue string
  | MissingStamp string
  | MissingLink string string
  | UnexpectedLink string string
  | ParentAfterChild string string

record walk_state =
  wk_issues :: "audit_issue list"
  wk_ordered :: "audit_stamp list"
  wk_visiting :: "string list"
  wk_visited :: "string list"

text \<open>
  The ids of stored stamps are non-empty, as the constructors check, so the lookups of the walk do
  not raise; \<open>stamp_of\<close> and \<open>links_of\<close> are their values.
\<close>

definition stamp_of :: "audit_trail \<Rightarrow> string \<Rightarrow> audit_stamp option" where
  "stamp_of tr oid = dict_get (at_stamps tr) oid"

definition links_of :: "audit_trail \<Rightarrow> string \<Rightarrow> string list" where
  "links_of tr oid = map ln_parent_id (dict_get_default (at_links tr) oid [])"

definition link_issues :: "audit_trail \<Rightarrow> string \<Rightarrow> audit_stamp \<Rightarrow> audit_issue list" where
  "link_issues tr oid s =
     map (MissingLink oid) (filter (\<lambda>p. p \<notin> set (links_of tr oid)) (au_parent_ids s))
     @ map (UnexpectedLink oid) (filter (\<lambda>p. p \<notin> set (au_parent_ids s)) (links_of tr oid))"

definition time_issue :: "audit_trail \<Rightarrow> string \<Rightarrow> audit_stamp \<Rightarrow> string \<Rightarrow> audit_issue list" where
  "time_issue tr oid s parent =
     (case stamp_of tr parent of
        None \<Rightarrow> []
      | Some p \<Rightarrow> if instant (au_produced_at p) > instant (au_produced_at s) then [ParentAfterChild oid parent] else [])"

fun walk :: "audit_trail \<Rightarrow> nat \<Rightarrow> string \<Rightarrow> walk_state \<Rightarrow> walk_state option"
  and walk_parents :: "audit_trail \<Rightarrow> nat \<Rightarrow> string \<Rightarrow> audit_stamp \<Rightarrow> string list \<Rightarrow> walk_state \<Rightarrow> walk_state option" where
  "walk tr n oid w =
     (if oid \<in> set (wk_visiting w) then Some (w\<lparr>wk_issues := wk_issues w @ [CycleIssue oid]\<rparr>)
      else if oid \<in> set (wk_visited w) then Some w
      else case stamp_of tr oid of
        None \<Rightarrow> Some (w\<lparr>wk_issues := wk_issues w @ [MissingStamp oid]\<rparr>)
      | Some s \<Rightarrow>
          (case n of
             0 \<Rightarrow> None
           | Suc m \<Rightarrow>
               (case walk_parents tr m oid s (au_parent_ids s)
                  (w\<lparr>wk_visiting := oid # wk_visiting w, wk_issues := wk_issues w @ link_issues tr oid s\<rparr>) of
                  None \<Rightarrow> None
                | Some w' \<Rightarrow>
                    Some (w'\<lparr>wk_visiting := removeAll oid (wk_visiting w'), wk_visited := oid # wk_visited w',
                              wk_ordered := wk_ordered w' @ [s]\<rparr>))))"
| "walk_parents tr n oid s [] w = Some w"
| "walk_parents tr n oid s (p # ps) w =
     (case walk tr n p (w\<lparr>wk_issues := wk_issues w @ time_issue tr oid s p\<rparr>) of
        None \<Rightarrow> None
      | Some w' \<Rightarrow> walk_parents tr n oid s ps w')"

declare walk.simps [simp del]

datatype chain_error = EmptyObjectId | ChainIssues "audit_issue list"

definition start_walk :: walk_state where
  "start_walk = \<lparr>wk_issues = [], wk_ordered = [], wk_visiting = [], wk_visited = []\<rparr>"

text \<open>\<open>None\<close> would be a recursion that outruns its fuel; it never happens.\<close>

definition validate_complete_chain :: "audit_trail \<Rightarrow> string \<Rightarrow> (chain_error + audit_stamp list) option" where
  "validate_complete_chain tr oid =
     (if oid = [] then Some (Inl EmptyObjectId)
      else map_option (\<lambda>w. if wk_issues w = [] then Inr (wk_ordered w) else Inl (ChainIssues (wk_issues w)))
             (walk tr (length (at_stamps tr)) oid start_walk))"

section \<open>The walk always returns\<close>

text \<open>Every nested call marks one more stored id as being visited, so the depth is bounded.\<close>

definition unvisited :: "audit_trail \<Rightarrow> string list \<Rightarrow> nat" where
  "unvisited tr visiting = length (filter (\<lambda>kv. fst kv \<notin> set visiting) (at_stamps tr))"

lemma unvisited_cong: "set v = set v' \<Longrightarrow> unvisited tr v = unvisited tr v'"
  by (simp add: unvisited_def)

lemma unvisited_Cons_less:
  assumes "dict_get (at_stamps tr) oid = Some s" and "oid \<notin> set v"
  shows "unvisited tr (oid # v) < unvisited tr v"
proof -
  have "(oid, s) \<in> set (filter (\<lambda>kv. fst kv \<notin> set v) (at_stamps tr))"
    using assms by (auto dest: map_of_SomeD)
  moreover have "filter (\<lambda>kv. fst kv \<notin> set (oid # v)) (at_stamps tr)
      = filter (\<lambda>kv. fst kv \<noteq> oid) (filter (\<lambda>kv. fst kv \<notin> set v) (at_stamps tr))"
    by (auto intro: filter_cong)
  ultimately show ?thesis unfolding unvisited_def
    using length_filter_less [of "(oid, s)" "filter (\<lambda>kv. fst kv \<notin> set v) (at_stamps tr)" "\<lambda>kv. fst kv \<noteq> oid"] by simp
qed

text \<open>The branches of one call of \<open>walk\<close> that returns.\<close>

lemma walk_cases:
  assumes "walk tr n oid w = Some w'"
  obtains (cycle) "oid \<in> set (wk_visiting w)" "w' = w\<lparr>wk_issues := wk_issues w @ [CycleIssue oid]\<rparr>"
  | (seen) "oid \<notin> set (wk_visiting w)" "oid \<in> set (wk_visited w)" "w' = w"
  | (missing) "oid \<notin> set (wk_visiting w)" "oid \<notin> set (wk_visited w)" "stamp_of tr oid = None"
      "w' = w\<lparr>wk_issues := wk_issues w @ [MissingStamp oid]\<rparr>"
  | (inner) s m u where "oid \<notin> set (wk_visiting w)" "oid \<notin> set (wk_visited w)" "stamp_of tr oid = Some s" "n = Suc m"
      "walk_parents tr m oid s (au_parent_ids s)
         (w\<lparr>wk_visiting := oid # wk_visiting w, wk_issues := wk_issues w @ link_issues tr oid s\<rparr>) = Some u"
      "w' = u\<lparr>wk_visiting := removeAll oid (wk_visiting u), wk_visited := oid # wk_visited u,
          wk_ordered := wk_ordered u @ [s]\<rparr>"
  using assms by (auto simp: walk.simps [of tr n oid w] split: if_splits option.splits nat.splits)

lemma walk_visiting:
  "walk tr n oid w = Some w' \<Longrightarrow> set (wk_visiting w') = set (wk_visiting w)"
  "walk_parents tr n oid s ps w = Some w' \<Longrightarrow> set (wk_visiting w') = set (wk_visiting w)"
proof (induction tr n oid w and tr n oid s ps w arbitrary: w' and w' rule: walk_walk_parents.induct)
  case (1 tr n oid w)
  from "1.prems" show ?case
  proof (cases rule: walk_cases)
    case (inner s m u)
    from "1.IH" [OF inner(1,2,3,4,5)] inner(1,6) show ?thesis by auto
  qed auto
next
  case (3 tr n oid s p ps w)
  then show ?case by (fastforce split: option.splits)
qed simp

lemma walk_returns:
  "unvisited tr (wk_visiting w) \<le> n \<Longrightarrow> walk tr n oid w \<noteq> None"
  "unvisited tr (wk_visiting w) \<le> n \<Longrightarrow> walk_parents tr n oid s ps w \<noteq> None"
proof (induction tr n oid w and tr n oid s ps w rule: walk_walk_parents.induct)
  case (1 tr n oid w)
  show ?case
  proof (cases "oid \<in> set (wk_visiting w) \<or> oid \<in> set (wk_visited w) \<or> stamp_of tr oid = None")
    case True
    then show ?thesis by (auto simp: walk.simps [of tr n oid w])
  next
    case False
    then obtain s where s: "stamp_of tr oid = Some s" by auto
    have less: "unvisited tr (oid # wk_visiting w) < n"
      using unvisited_Cons_less [of tr oid s "wk_visiting w"] s False "1.prems" by (simp add: stamp_of_def)
    then obtain m where n: "n = Suc m" by (cases n) auto
    have "walk_parents tr m oid s (au_parent_ids s)
        (w\<lparr>wk_visiting := oid # wk_visiting w, wk_issues := wk_issues w @ link_issues tr oid s\<rparr>) \<noteq> None"
      using False less n by (intro "1.IH" [OF _ _ s n]) auto
    with False s n show ?thesis by (auto simp: walk.simps [of tr "Suc m" oid w])
  qed
next
  case (3 tr n oid s p ps w)
  let ?w = "w\<lparr>wk_issues := wk_issues w @ time_issue tr oid s p\<rparr>"
  obtain u where u: "walk tr n p ?w = Some u" using 3 by fastforce
  have "set (wk_visiting u) = set (wk_visiting w)" using walk_visiting(1) [OF u] by simp
  with "3.prems" have "unvisited tr (wk_visiting u) \<le> n" using unvisited_cong by metis
  from "3.IH"(2) [OF u this] u show ?case by simp
qed simp

section \<open>What an accepted chain is\<close>

text \<open>Stamps are stored under their own ids.\<close>

definition trail_ok :: "audit_trail \<Rightarrow> bool" where
  "trail_ok tr \<longleftrightarrow> list_all (\<lambda>(k, s). au_object_id s = k) (at_stamps tr)"

lemma trail_ok_stamp: "trail_ok tr \<Longrightarrow> stamp_of tr oid = Some s \<Longrightarrow> au_object_id s = oid"
  by (auto simp: trail_ok_def stamp_of_def list_all_iff dest!: map_of_SomeD)

lemma append_stamp_ok: "trail_ok tr \<Longrightarrow> append_stamp s tr = Inr tr' \<Longrightarrow> trail_ok tr'"
proof -
  assume ok: "trail_ok tr" and a: "append_stamp s tr = Inr tr'"
  then have "at_stamps tr' = dict_set (au_object_id s) s (at_stamps tr)"
    by (auto simp: append_stamp_def Let_def split: option.splits if_splits)
  moreover have "list_all (\<lambda>(k, s). au_object_id s = k) d \<Longrightarrow> list_all (\<lambda>(k, s). au_object_id s = k) (dict_set (au_object_id s) s d)" for d
    by (induction d) auto
  ultimately show ?thesis using ok by (simp add: trail_ok_def)
qed

text \<open>Parents come before their children.\<close>

fun topological :: "string set \<Rightarrow> audit_stamp list \<Rightarrow> bool" where
  "topological seen [] = True"
| "topological seen (s # ss) \<longleftrightarrow> set (au_parent_ids s) \<subseteq> seen \<and> topological (insert (au_object_id s) seen) ss"

lemma topological_append:
  "topological seen (ss @ [s]) \<longleftrightarrow> topological seen ss \<and> set (au_parent_ids s) \<subseteq> seen \<union> au_object_id ` set ss"
  by (induction ss arbitrary: seen) auto

definition explained :: "audit_trail \<Rightarrow> audit_stamp \<Rightarrow> bool" where
  "explained tr s \<longleftrightarrow> stamp_of tr (au_object_id s) = Some s \<and>
     set (links_of tr (au_object_id s)) = set (au_parent_ids s) \<and>
     (\<forall>p \<in> set (au_parent_ids s). \<forall>ps. stamp_of tr p = Some ps \<longrightarrow> instant (au_produced_at ps) \<le> instant (au_produced_at s))"

definition walk_ok :: "audit_trail \<Rightarrow> walk_state \<Rightarrow> bool" where
  "walk_ok tr w \<longleftrightarrow> topological {} (wk_ordered w) \<and> distinct (map au_object_id (wk_ordered w)) \<and>
     set (wk_visited w) = au_object_id ` set (wk_ordered w) \<and> set (wk_visiting w) \<inter> set (wk_visited w) = {} \<and>
     (\<forall>s \<in> set (wk_ordered w). explained tr s)"

lemma walk_ok_cong [simp]: "walk_ok tr (w\<lparr>wk_issues := is\<rparr>) = walk_ok tr w"
  by (simp add: walk_ok_def)

lemma link_issues_Nil: "link_issues tr oid s = [] \<longleftrightarrow> set (links_of tr oid) = set (au_parent_ids s)"
  by (auto simp: link_issues_def filter_empty_conv)

lemma time_issue_Nil:
  "time_issue tr oid s p = [] \<longleftrightarrow> (\<forall>ps. stamp_of tr p = Some ps \<longrightarrow> instant (au_produced_at ps) \<le> instant (au_produced_at s))"
  by (auto simp: time_issue_def split: option.splits)

text \<open>Issues are only ever added.\<close>

lemma walk_issues_grow:
  "walk tr n oid w = Some w' \<Longrightarrow> \<exists>is. wk_issues w' = wk_issues w @ is"
  "walk_parents tr n oid s ps w = Some w' \<Longrightarrow> \<exists>is. wk_issues w' = wk_issues w @ is"
proof (induction tr n oid w and tr n oid s ps w arbitrary: w' and w' rule: walk_walk_parents.induct)
  case (1 tr n oid w)
  from "1.prems" show ?case
  proof (cases rule: walk_cases)
    case (inner s m u)
    from "1.IH" [OF inner(1,2,3,4,5)] inner(6) show ?thesis by auto
  qed auto
next
  case (3 tr n oid s p ps w)
  from "3.prems" obtain u where u: "walk tr n p (w\<lparr>wk_issues := wk_issues w @ time_issue tr oid s p\<rparr>) = Some u"
      "walk_parents tr n oid s ps u = Some w'"
    by (auto split: option.splits)
  from "3.IH"(1) [OF u(1)] "3.IH"(2) [OF u] show ?case by auto
qed simp

lemma walk_sound:
  "walk tr n oid w = Some w' \<Longrightarrow> wk_issues w' = [] \<Longrightarrow> trail_ok tr \<Longrightarrow> walk_ok tr w \<Longrightarrow>
     walk_ok tr w' \<and> wk_issues w = [] \<and> oid \<in> set (wk_visited w') \<and> set (wk_visited w) \<subseteq> set (wk_visited w')
     \<and> (oid \<notin> set (wk_visited w) \<longrightarrow> (\<exists>ss s. wk_ordered w' = ss @ [s] \<and> au_object_id s = oid))"
  "walk_parents tr n oid s ps w = Some w' \<Longrightarrow> wk_issues w' = [] \<Longrightarrow> trail_ok tr \<Longrightarrow> walk_ok tr w \<Longrightarrow>
     walk_ok tr w' \<and> wk_issues w = [] \<and> set ps \<subseteq> set (wk_visited w') \<and> set (wk_visited w) \<subseteq> set (wk_visited w')
     \<and> (\<forall>p \<in> set ps. time_issue tr oid s p = [])"
proof (induction tr n oid w and tr n oid s ps w arbitrary: w' and w' rule: walk_walk_parents.induct)
  case (1 tr n oid w)
  from "1.prems"(1) show ?case
  proof (cases rule: walk_cases)
    case (inner s m u)
    let ?w1 = "w\<lparr>wk_visiting := oid # wk_visiting w, wk_issues := wk_issues w @ link_issues tr oid s\<rparr>"
    have id: "au_object_id s = oid" by (rule trail_ok_stamp [OF "1.prems"(3) inner(3)])
    have "walk_ok tr ?w1" using "1.prems"(4) inner(2) unfolding walk_ok_def by auto
    moreover have "wk_issues u = []" using "1.prems"(2) inner(6) by simp
    ultimately have ih: "walk_ok tr u" "wk_issues ?w1 = []" "set (au_parent_ids s) \<subseteq> set (wk_visited u)"
        "set (wk_visited ?w1) \<subseteq> set (wk_visited u)" "\<forall>p \<in> set (au_parent_ids s). time_issue tr oid s p = []"
      using "1.IH" [OF inner(1-5)] "1.prems"(3) by auto
    have vis: "set (wk_visiting u) = insert oid (set (wk_visiting w))" using walk_visiting(2) [OF inner(5)] by simp
    have nv: "oid \<notin> set (wk_visited u)" using ih(1) vis by (auto simp: walk_ok_def)
    have "explained tr s"
      using inner(3) id ih(2,5) by (auto simp: explained_def link_issues_Nil time_issue_Nil)
    then have "walk_ok tr w'"
      using inner(6) ih(1,3) nv vis id by (auto simp: walk_ok_def topological_append)
    with inner(6) ih(2,4) id show ?thesis by auto
  qed (use "1.prems" in auto)
next
  case (3 tr n oid s p ps w)
  let ?w = "w\<lparr>wk_issues := wk_issues w @ time_issue tr oid s p\<rparr>"
  from "3.prems"(1) obtain u where u: "walk tr n p ?w = Some u" "walk_parents tr n oid s ps u = Some w'"
    by (auto split: option.splits)
  have iss: "wk_issues u = []" using walk_issues_grow(2) [OF u(2)] "3.prems"(2) by auto
  have ok: "walk_ok tr ?w" using "3.prems"(4) by simp
  from "3.IH"(1) [OF u(1) iss "3.prems"(3) ok]
  have a: "walk_ok tr u" "wk_issues w = []" "time_issue tr oid s p = []" "p \<in> set (wk_visited u)" "set (wk_visited w) \<subseteq> set (wk_visited u)"
    by auto
  from "3.IH"(2) [OF u "3.prems"(2,3) a(1)] a show ?case by auto
qed simp

section \<open>Properties\<close>

text \<open>
  The chain validator always returns. Whatever stamps and links the trail holds, cyclic ones
  included, the recursive walk ends within the number of stored stamps: it gives the ordered stamps
  or the error with its issues.
\<close>

theorem audit_walk_terminates: "\<exists>r. validate_complete_chain tr oid = Some r"
proof -
  have "walk tr (length (at_stamps tr)) oid start_walk \<noteq> None"
    by (rule walk_returns(1)) (simp add: unvisited_def start_walk_def)
  then show ?thesis by (auto simp: validate_complete_chain_def)
qed

text \<open>
  C27: What an accepted chain is. When the validator returns stamps, they are distinct, every parent
  id of a stamp names an earlier stamp of the list (so the lineage is acyclic and complete), each
  is the stored stamp whose explicit links agree with its parent ids and whose parents were not
  produced after it, and the last one is the stamp asked for.
\<close>

theorem audit_chain_sound:
  assumes "trail_ok tr" and "validate_complete_chain tr oid = Some (Inr ss)"
  shows "topological {} ss \<and> distinct (map au_object_id ss) \<and> (\<forall>s \<in> set ss. explained tr s)
    \<and> ss \<noteq> [] \<and> au_object_id (last ss) = oid"
proof -
  from assms(2) obtain w where w: "walk tr (length (at_stamps tr)) oid start_walk = Some w"
      "wk_issues w = []" "ss = wk_ordered w"
    by (auto simp: validate_complete_chain_def split: if_splits)
  have "walk_ok tr start_walk" by (simp add: walk_ok_def start_walk_def)
  from walk_sound(1) [OF w(1,2) assms(1) this] w(3) show ?thesis
    by (auto simp: walk_ok_def start_walk_def)
qed

definition demo_stamp :: "string \<Rightarrow> string list \<Rightarrow> int \<Rightarrow> audit_stamp" where
  "demo_stamp oid parents t =
     \<lparr>au_object_id = oid, au_object_kind = ''fill'', au_schema_version = ''1'', au_produced_at = utc t,
      au_producer = ''runner'', au_sha256 = replicate 64 CHR ''a'', au_parent_ids = parents, au_trace_id = None, au_metadata = []\<rparr>"

definition demo_link :: "string \<Rightarrow> string \<Rightarrow> audit_link" where
  "demo_link p c = \<lparr>ln_parent_id = p, ln_child_id = c, ln_relation = ''derived''\<rparr>"

text \<open>A tick explains an order and a fill, the order explains the fill.\<close>

definition demo_trail :: audit_trail where
  "demo_trail =
     fold append_link [demo_link ''tick'' ''order'', demo_link ''order'' ''fill'', demo_link ''tick'' ''fill'']
       \<lparr>at_stamps = [(''fill'', demo_stamp ''fill'' [''order'', ''tick''] 3), (''order'', demo_stamp ''order'' [''tick''] 2),
                      (''tick'', demo_stamp ''tick'' [] 1)], at_links = []\<rparr>"

theorem audit_chain_sound_witness:
  "trail_ok demo_trail
   \<and> validate_complete_chain demo_trail ''fill'' =
       Some (Inr [demo_stamp ''tick'' [] 1, demo_stamp ''order'' [''tick''] 2, demo_stamp ''fill'' [''order'', ''tick''] 3])
   \<and> topological {} [demo_stamp ''tick'' [] 1, demo_stamp ''order'' [''tick''] 2, demo_stamp ''fill'' [''order'', ''tick''] 3]"
proof -
  have ok: "trail_ok demo_trail" by code_simp
  have v: "validate_complete_chain demo_trail ''fill'' =
       Some (Inr [demo_stamp ''tick'' [] 1, demo_stamp ''order'' [''tick''] 2, demo_stamp ''fill'' [''order'', ''tick''] 3])"
    by code_simp
  from audit_chain_sound [OF ok v] ok v show ?thesis by simp
qed

end
