(* ===== verification/Contracts.thy ===== *)
theory Contracts
  imports Prelude
begin

text \<open>
  Interfaces that several components of the program provide, as locales with their client lemmas:
  a store that hands out each key at most once, and a container that empties by priority. The
  components interpret them on their own operations.
\<close>

section \<open>Stores that grant a key once\<close>

text \<open>
  \<open>act\<close> performs an operation and says which key it granted, if any; \<open>held\<close> are the keys the store
  remembers. \<open>ok n s\<close> says that the store can take \<open>n\<close> more operations without forgetting a key.
\<close>

locale grants_once =
  fixes act :: "'op \<Rightarrow> 's \<Rightarrow> ('k option \<times> 's) result"
    and held :: "'s \<Rightarrow> 'k set"
    and good :: "'op \<Rightarrow> bool"
    and ok :: "nat \<Rightarrow> 's \<Rightarrow> bool"
  assumes ok_step: "ok (Suc n) s \<Longrightarrow> good op \<Longrightarrow> act op s = Inr (r, s') \<Longrightarrow> ok n s'"
    and held_step: "ok (Suc n) s \<Longrightarrow> good op \<Longrightarrow> act op s = Inr (r, s') \<Longrightarrow> held s' = held s \<union> set_option r"
    and grant_fresh: "ok (Suc n) s \<Longrightarrow> good op \<Longrightarrow> act op s = Inr (Some k, s') \<Longrightarrow> k \<notin> held s"
begin

fun grant_run :: "'op list \<Rightarrow> 's \<Rightarrow> ('k list \<times> 's) result" where
  "grant_run [] s = Inr ([], s)"
| "grant_run (op # ops) s =
     bind_result (act op s) (\<lambda>(r, s1).
       bind_result (grant_run ops s1) (\<lambda>(ks, s2). Inr ((case r of None \<Rightarrow> ks | Some k \<Rightarrow> k # ks), s2)))"

lemma grants_distinct:
  assumes "grant_run ops s = Inr (ks, s')" and "ok (length ops) s" and "\<forall>op \<in> set ops. good op"
  shows "distinct ks \<and> set ks \<inter> held s = {} \<and> held s' = held s \<union> set ks \<and> ok 0 s'"
  using assms
proof (induction ops arbitrary: s ks)
  case (Cons op ops)
  from Cons.prems(1) obtain r s1 ks1 where a: "act op s = Inr (r, s1)" "grant_run ops s1 = Inr (ks1, s')"
      and ks: "ks = (case r of None \<Rightarrow> ks1 | Some k \<Rightarrow> k # ks1)"
    by (auto simp: bind_result_Inr_iff)
  have g: "ok (Suc (length ops)) s" "good op" using Cons.prems by auto
  have ih: "distinct ks1 \<and> set ks1 \<inter> held s1 = {} \<and> held s' = held s1 \<union> set ks1 \<and> ok 0 s'"
    using Cons.IH [OF a(2)] ok_step [OF g a(1)] Cons.prems(3) by simp
  have h: "held s1 = held s \<union> set_option r" by (rule held_step [OF g a(1)])
  have "\<forall>k. r = Some k \<longrightarrow> k \<notin> held s" using grant_fresh [OF g] a(1) by blast
  with ih h ks show ?case by (cases r) auto
qed auto

end

section \<open>Queues served by priority\<close>

text \<open>
  \<open>serve n q\<close> splits a queue into a batch and the rest. The laws: nothing is lost or duplicated,
  the batch has the requested size or exhausts the queue, and it holds the smallest keys.
\<close>

locale priority_server =
  fixes serve :: "nat \<Rightarrow> 'a list \<Rightarrow> 'a list \<times> 'a list"
    and key :: "'a \<Rightarrow> 'b::linorder"
    and wf :: "'a list \<Rightarrow> bool"
  assumes serve_mset: "wf q \<Longrightarrow> mset (fst (serve n q)) + mset (snd (serve n q)) = mset q"
    and serve_length: "wf q \<Longrightarrow> length (fst (serve n q)) = min n (length q)"
    and serve_least: "wf q \<Longrightarrow> x \<in> set (fst (serve n q)) \<Longrightarrow> y \<in> set (snd (serve n q)) \<Longrightarrow> key x \<le> key y"
    and serve_sorted: "wf q \<Longrightarrow> sorted (map key (fst (serve n q)))"
    and serve_wf: "wf q \<Longrightarrow> wf (snd (serve n q))"
begin

text \<open>Serving in rounds of a fixed positive size drains the queue, in the order of the keys.\<close>

fun drain :: "nat \<Rightarrow> nat \<Rightarrow> 'a list \<Rightarrow> 'a list" where
  "drain n 0 q = []"
| "drain n (Suc rounds) q = fst (serve n q) @ drain n rounds (snd (serve n q))"

lemma serve_rest_length: "wf q \<Longrightarrow> length (snd (serve n q)) = length q - n"
proof -
  assume w: "wf q"
  have "size (mset (fst (serve n q)) + mset (snd (serve n q))) = size (mset q)"
    by (simp only: serve_mset [OF w])
  with serve_length [OF w, of n] show ?thesis by simp
qed

lemma drain_complete:
  assumes "wf q" and "0 < n" and "length q \<le> rounds * n"
  shows "mset (drain n rounds q) = mset q \<and> sorted (map key (drain n rounds q))"
  using assms
proof (induction rounds arbitrary: q)
  case (Suc rounds)
  let ?b = "fst (serve n q)" and ?r = "snd (serve n q)"
  have ih: "mset (drain n rounds ?r) = mset ?r" "sorted (map key (drain n rounds ?r))"
    using Suc.IH [of ?r] Suc.prems serve_wf serve_rest_length [OF Suc.prems(1), of n] by auto
  have "\<forall>x \<in> set ?b. \<forall>y \<in> set (drain n rounds ?r). key x \<le> key y"
    using serve_least [OF Suc.prems(1)] mset_eq_setD [OF ih(1)] by auto
  with ih serve_sorted [OF Suc.prems(1), of n] serve_mset [OF Suc.prems(1), of n] show ?case
    by (auto simp: sorted_append)
qed simp

end

end
