(* ===== verification/BoundedDict.thy ===== *)
theory BoundedDict
  imports Prelude
begin

text \<open>
  The idiom of the bounded \<open>OrderedDict\<close> that the idempotency store and the book reconstructor share:
  entries are appended or moved to the end, and the oldest are popped while the mapping is too long.
\<close>

text \<open>\<open>popitem(last=False)\<close> until the mapping fits; on an empty mapping it raises.\<close>

fun trim_oldest :: "int \<Rightarrow> ('k, 'v) dict \<Rightarrow> ('k, 'v) dict result" where
  "trim_oldest m [] = (if 0 > m then Inl (KeyError ''dictionary is empty'') else Inr [])"
| "trim_oldest m (kv # d) = (if int (length (kv # d)) > m then trim_oldest m d else Inr (kv # d))"

lemma trim_oldest_Inr: "trim_oldest m d = Inr d' \<Longrightarrow> 0 \<le> m \<and> int (length d') \<le> m \<and> (\<exists>n. d' = drop n d)"
proof (induction m d rule: trim_oldest.induct)
  case (2 m kv d)
  show ?case
  proof (cases "int (length (kv # d)) > m")
    case True
    with 2 obtain n where "0 \<le> m \<and> int (length d') \<le> m \<and> d' = drop n d" by auto
    then have "0 \<le> m \<and> int (length d') \<le> m \<and> d' = drop (Suc n) (kv # d)" by (metis drop_Suc_Cons)
    then show ?thesis by blast
  next
    case False
    with "2.prems" have "0 \<le> m \<and> int (length d') \<le> m \<and> d' = drop 0 (kv # d)" by auto
    then show ?thesis by blast
  qed
qed (auto split: if_splits)

lemma trim_oldest_id: "int (length d) \<le> m \<Longrightarrow> trim_oldest m d = Inr d"
  by (cases d) auto

lemma trim_oldest_total: "0 \<le> m \<Longrightarrow> \<exists>d'. trim_oldest m d = Inr d'"
  by (induction m d rule: trim_oldest.induct) auto

lemma wf_dict_drop: "wf_dict d \<Longrightarrow> wf_dict (drop n d)"
  by (simp add: wf_dict_def drop_map [symmetric] del: drop_map)

lemma trim_keeps_last:
  "trim_oldest m (xs @ [kv]) = Inr d \<Longrightarrow> 0 < m \<Longrightarrow> \<exists>ys. d = ys @ [kv]"
proof (induction xs)
  case (Cons x xs)
  then show ?case by (auto split: if_splits)
qed (auto split: if_splits)

lemma move_to_end_last:
  "wf_dict d \<Longrightarrow> dict_get d k = Some v \<Longrightarrow> \<exists>xs. move_to_end k d = xs @ [(k, v)]"
  by (simp add: move_to_end_def filter_key_single)

end
