(* ===== verification/Gateway.thy ===== *)
theory Gateway
  imports AuditTrail Queues Contracts BoundedDict
begin

text \<open>
  \<open>gateway/base.py\<close>: commands and acknowledgements, the last-look checks against the current best
  bid and offer, the in-memory idempotency store, the priority scheduler and the dry-run gateway.
  Every reading of a clock is an argument, in the order the code reads it. A queued envelope is
  paired with the identity (Python's \<open>id()\<close>) of its object. The sha256 of a canonical JSON text is
  an argument \<open>digest\<close>.
\<close>

section \<open>Commands and acknowledgements\<close>

datatype gateway_command_kind = SUBMIT | CANCEL | REPLACE | CANCEL_ALL | HALT

record gateway_command =
  gc_kind :: gateway_command_kind
  gc_venue :: venue
  gc_correlation_id :: string
  gc_audit :: audit_stamp
  gc_intent :: "order_intent option"
  gc_client_order_id :: "string option"
  gc_envelope :: "intent_envelope option"

definition gateway_command_check :: "gateway_command \<Rightarrow> py_error option" where
  [record_defs]: "gateway_command_check c =
     first_error
       [require_non_empty (gc_correlation_id c) ''correlation_id'',
        check (\<not> (gc_kind c = SUBMIT \<and> gc_intent c = None)) (ValueError ''submit command requires intent''),
        check (\<not> (gc_kind c \<in> {CANCEL, REPLACE} \<and> gc_client_order_id c = None))
          (ValueError ''command requires client_order_id'')]"

record gateway_ack =
  ack_command :: gateway_command
  ack_accepted :: bool
  ack_acknowledged_at :: datetime
  ack_audit :: audit_stamp
  ack_venue_order_id :: "string option"
  ack_reject :: "order_reject option"
  ack_reasons :: "string list"

definition gateway_ack_check :: "gateway_ack \<Rightarrow> py_error option" where
  [record_defs]: "gateway_ack_check a = require_aware_datetime (ack_acknowledged_at a) ''acknowledged_at''"

record rate_limit_budget =
  rl_venue :: venue
  rl_priority_tier :: string
  requests_remaining :: int
  reset_at :: datetime

definition rate_limit_budget_check :: "rate_limit_budget \<Rightarrow> py_error option" where
  [record_defs]: "rate_limit_budget_check b =
     first_error
       [require_non_empty (rl_priority_tier b) ''priority_tier'',
        require_aware_datetime (reset_at b) ''reset_at'']"

section \<open>Last look\<close>

record last_look_policy =
  max_quote_age_ms :: int
  max_price_movement :: decimal
  ll_max_spread :: decimal
  max_slippage :: decimal

definition last_look_policy_check :: "last_look_policy \<Rightarrow> py_error option" where
  [record_defs]: "last_look_policy_check p =
     first_error
       [check (\<not> max_quote_age_ms p \<le> 0) (ValueError ''max_quote_age_ms must be positive''),
        check (\<not> max_price_movement p < 0) (ValueError ''max_price_movement must be non-negative''),
        check (\<not> ll_max_spread p \<le> 0) (ValueError ''max_spread must be positive''),
        check (\<not> max_slippage p < 0) (ValueError ''max_slippage must be non-negative'')]"

definition default_last_look_policy :: last_look_policy where
  "default_last_look_policy =
     \<lparr>max_quote_age_ms = 1000, max_price_movement = 2 / 100, ll_max_spread = 5 / 100, max_slippage = 0\<rparr>"

definition snapshot_movement :: "market_snapshot \<Rightarrow> market_snapshot \<Rightarrow> decimal option" where
  "snapshot_movement decision latest =
     (case (snap_bid decision, snap_ask decision, snap_bid latest, snap_ask latest) of
        (Some db, Some da, Some lb, Some la) \<Rightarrow>
          Some (max (dabs (dsub (lvl_price lb) (lvl_price db))) (dabs (dsub (lvl_price la) (lvl_price da))))
      | _ \<Rightarrow> None)"

definition price_collar_reasons :: "place_order \<Rightarrow> market_snapshot \<Rightarrow> last_look_policy \<Rightarrow> string list" where
  "price_collar_reasons d latest p =
     (if po_order_type d = MARKET then [''last_look_unpriced_market_order'']
      else case po_price d of
        None \<Rightarrow> [''last_look_missing_limit_price'']
      | Some price \<Rightarrow>
          (case (snap_bid latest, snap_ask latest) of
             (Some bid, Some ask) \<Rightarrow>
               if po_order_side d = BUY \<and> price > dadd (lvl_price ask) (max_slippage p)
               then [''last_look_buy_price_above_collar'']
               else if po_order_side d = SELL \<and> price < dsub (lvl_price bid) (max_slippage p)
               then [''last_look_sell_price_below_collar'']
               else []
           | _ \<Rightarrow> []))"

definition latest_bbo_reasons :: "market_snapshot \<Rightarrow> last_look_policy \<Rightarrow> string list" where
  "latest_bbo_reasons latest p =
     (case (snap_bid latest, snap_ask latest) of
        (Some bid, Some ask) \<Rightarrow>
          let spread = dsub (lvl_price ask) (lvl_price bid)
          in if spread < 0 then [''last_look_crossed_bbo'']
             else if spread > ll_max_spread p then [''last_look_spread_too_wide''] else []
      | _ \<Rightarrow> [''last_look_missing_bbo''])"

definition validate_gateway_last_look ::
  "place_order \<Rightarrow> market_snapshot option \<Rightarrow> datetime \<Rightarrow> last_look_policy \<Rightarrow> string list result" where
  "validate_gateway_last_look d latest now p =
     (case require_aware_datetime now ''now'' of
        Some e \<Rightarrow> Inl e
      | None \<Rightarrow>
          (case po_market_snapshot d of
             None \<Rightarrow> Inr [''last_look_missing_decision_snapshot'']
           | Some decision \<Rightarrow>
               (case latest of
                  None \<Rightarrow> Inr [''last_look_missing_latest_snapshot'']
                | Some s \<Rightarrow>
                    bind_result (age_ms s now) (\<lambda>age.
                      Inr ((if snap_instrument_id s \<noteq> po_instrument_id d then [''last_look_instrument_mismatch''] else [])
                        @ (if snap_side s \<noteq> po_outcome_side d then [''last_look_side_mismatch''] else [])
                        @ (if snap_exchange_ts s = None then [''last_look_missing_exchange_ts''] else [])
                        @ (if snap_source_sequence s = None then [''last_look_missing_sequence''] else [])
                        @ (if snap_sequence_gap s then [''last_look_sequence_gap''] else [])
                        @ latest_bbo_reasons s p
                        @ (if age < 0 then [''last_look_snapshot_from_future'']
                           else if age > max_quote_age_ms p then [''last_look_stale_snapshot''] else [])
                        @ (case snapshot_movement decision s of
                             None \<Rightarrow> [''last_look_missing_decision_bbo'']
                           | Some m \<Rightarrow> if m > max_price_movement p then [''last_look_price_moved''] else [])
                        @ price_collar_reasons d s p)))))"

text \<open>\<open>GatewayLastLook\<close>: the lookup of the current snapshot is a function argument of the class too.\<close>

record last_look =
  snapshot_for :: "instrument_id \<Rightarrow> outcome_side \<Rightarrow> market_snapshot option"
  ll_policy :: last_look_policy

definition last_look_evaluate :: "last_look \<Rightarrow> gateway_command \<Rightarrow> datetime \<Rightarrow> string list result" where
  "last_look_evaluate ll c now =
     (case require_aware_datetime now ''now'' of
        Some e \<Rightarrow> Inl e
      | None \<Rightarrow>
          if gc_kind c \<noteq> SUBMIT then Inr []
          else case gc_envelope c of
            None \<Rightarrow> Inr [''missing_intent_envelope'']
          | Some env \<Rightarrow>
              (case env_decision env of
                 PlaceOrder d \<Rightarrow>
                   validate_gateway_last_look d (snapshot_for ll (po_instrument_id d) (po_outcome_side d)) now (ll_policy ll)
               | _ \<Rightarrow> Inr []))"

section \<open>The idempotency store\<close>

record idempotency_store =
  max_entries :: int
  ttl :: timedelta
  st_reserved :: "(string, string \<times> datetime) dict"
  st_acks :: "(string, gateway_ack \<times> datetime) dict"

definition new_idempotency_store :: "int \<Rightarrow> timedelta \<Rightarrow> idempotency_store" where
  "new_idempotency_store n d = \<lparr>max_entries = n, ttl = d, st_reserved = [], st_acks = []\<rparr>"

definition drop_expired :: "int \<Rightarrow> ('k, 'v \<times> datetime) dict \<Rightarrow> ('k, 'v \<times> datetime) dict" where
  "drop_expired cutoff d = filter (\<lambda>(k, v, updated_at). \<not> instant updated_at < cutoff) d"

definition evict :: "datetime \<Rightarrow> idempotency_store \<Rightarrow> idempotency_store result" where
  [step_defs]: "evict now st =
     (let cutoff = instant now - ttl st
      in bind_result (trim_oldest (max_entries st) (drop_expired cutoff (st_reserved st))) (\<lambda>r.
         bind_result (trim_oldest (max_entries st) (drop_expired cutoff (st_acks st))) (\<lambda>a.
           Inr (st\<lparr>st_reserved := r, st_acks := a\<rparr>))))"

definition store_reserve ::
  "datetime \<times> datetime \<times> datetime \<Rightarrow> string \<Rightarrow> string \<Rightarrow> idempotency_store \<Rightarrow> (bool \<times> idempotency_store) result" where
  [step_defs]: "store_reserve ts key correlation_id st =
     (case require_non_empty key ''idempotency key'' of
        Some e \<Rightarrow> Inl e
      | None \<Rightarrow>
          bind_result (evict (fst ts) st) (\<lambda>st1.
            if dict_get (st_reserved st1) key \<noteq> None then Inr (False, st1)
            else bind_result
                   (evict (snd (snd ts))
                     (st1\<lparr>st_reserved := move_to_end key (dict_set key (correlation_id, fst (snd ts)) (st_reserved st1))\<rparr>))
                   (\<lambda>st2. Inr (True, st2))))"

definition mark_complete ::
  "datetime \<times> datetime \<times> datetime \<Rightarrow> string \<Rightarrow> gateway_ack \<Rightarrow> idempotency_store \<Rightarrow> idempotency_store result" where
  [step_defs]: "mark_complete ts key ack st =
     (case require_non_empty key ''idempotency key'' of
        Some e \<Rightarrow> Inl e
      | None \<Rightarrow>
          bind_result (evict (fst ts) st) (\<lambda>st1.
            if dict_get (st_reserved st1) key = None then Inl (KeyError ''idempotency key was not reserved'')
            else evict (snd (snd ts))
                   (st1\<lparr>st_acks := move_to_end key (dict_set key (ack, fst (snd ts)) (st_acks st1))\<rparr>)))"

definition store_lookup :: "datetime \<Rightarrow> string \<Rightarrow> idempotency_store \<Rightarrow> (gateway_ack option \<times> idempotency_store) result" where
  [step_defs]: "store_lookup now key st =
     (case require_non_empty key ''idempotency key'' of
        Some e \<Rightarrow> Inl e
      | None \<Rightarrow>
          bind_result (evict now st) (\<lambda>st1.
            case dict_get (st_acks st1) key of
              None \<Rightarrow> Inr (None, st1)
            | Some (ack, t) \<Rightarrow> Inr (Some ack, st1\<lparr>st_acks := move_to_end key (st_acks st1)\<rparr>)))"

definition cache_size :: "datetime \<Rightarrow> idempotency_store \<Rightarrow> (nat \<times> idempotency_store) result" where
  [step_defs]: "cache_size now st =
     bind_result (evict now st) (\<lambda>st1. Inr (length (st_reserved st1) + length (st_acks st1), st1))"

section \<open>The priority scheduler\<close>

fun tier_rank :: "latency_tier \<Rightarrow> nat" where
  "tier_rank CRITICAL = 0"
| "tier_rank FAST = 1"
| "tier_rank STANDARD = 2"
| "tier_rank RELAXED = 3"

type_synonym queued = "nat \<times> intent_envelope"

definition sort_key_of :: "intent_envelope \<Rightarrow> nat \<times> int \<times> string" where
  "sort_key_of e = (tier_rank (prio_tier (env_priority e)), instant (emitted_at e), env_correlation_id e)"

definition enqueue :: "queued \<Rightarrow> queued list \<Rightarrow> queued list" where
  "enqueue q queue = queue @ [q]"

definition is_stale :: "datetime \<Rightarrow> intent_envelope \<Rightarrow> bool" where
  "is_stale now e =
     (case expires_after_ms (env_priority e) of
        None \<Rightarrow> False
      | Some ms \<Rightarrow> instant now > instant (dt_plus (emitted_at e) (1000 * ms)))"

definition drop_stale :: "datetime \<Rightarrow> queued list \<Rightarrow> (queued list \<times> queued list) result" where
  "drop_stale now queue =
     validated (require_aware_datetime now ''now'')
       (filter (\<lambda>q. is_stale now (snd q)) queue, filter (\<lambda>q. \<not> is_stale now (snd q)) queue)"

text \<open>The first \<open>n\<close> envelopes by the sort key, and the queue without the selected objects.\<close>

definition take_batch :: "nat \<Rightarrow> queued list \<Rightarrow> queued list \<times> queued list" where
  "take_batch n queue =
     (let batch = take n (sort_key (\<lambda>q. sort_key_of (snd q)) queue);
          selected = map fst batch
      in (batch, filter (\<lambda>q. fst q \<notin> set selected) queue))"

definition next_batch :: "datetime \<Rightarrow> int \<Rightarrow> queued list \<Rightarrow> (queued list \<times> queued list) result" where
  "next_batch now n queue =
     (case first_error [require_aware_datetime now ''now'', check (\<not> n < 0) (ValueError ''limit must be non-negative'')] of
        Some e \<Rightarrow> Inl e
      | None \<Rightarrow> bind_result (drop_stale now queue) (\<lambda>(stale, fresh). Inr (take_batch (nat n) fresh)))"

section \<open>The dry-run gateway\<close>

text \<open>
  The commands are logged before the acknowledgement is built, so an exception of the latter leaves
  the command in the log: the operations return the outcome and the new state.
\<close>

record dry_run_gateway =
  gw_last_look :: "last_look option"
  gw_commands :: "gateway_command list"
  gw_acks :: "gateway_ack list"

definition new_gateway :: "last_look option \<Rightarrow> dry_run_gateway" where
  "new_gateway ll = \<lparr>gw_last_look = ll, gw_commands = [], gw_acks = []\<rparr>"

fun kind_value :: "gateway_command_kind \<Rightarrow> string" where
  "kind_value SUBMIT = ''submit''"
| "kind_value CANCEL = ''cancel''"
| "kind_value REPLACE = ''replace''"
| "kind_value CANCEL_ALL = ''cancel_all''"
| "kind_value HALT = ''halt''"

definition ack_payload :: "gateway_command \<Rightarrow> bool \<Rightarrow> string list \<Rightarrow> frozen_map" where
  "ack_payload c accepted reasons =
     [(''command_kind'', PyStr (kind_value (gc_kind c))), (''venue'', PyStr (venue_value (gc_venue c))),
      (''correlation_id'', PyStr (gc_correlation_id c)), (''accepted'', PyBool accepted),
      (''reasons'', PyTuple (map PyStr reasons))]"

fun comma_join :: "string list \<Rightarrow> string" where
  "comma_join [] = []"
| "comma_join [x] = x"
| "comma_join (x # xs) = x @ '','' @ comma_join xs"

definition build_ack ::
  "(frozen_map \<Rightarrow> string) \<Rightarrow> gateway_command \<Rightarrow> string list \<Rightarrow> bool \<Rightarrow> datetime \<Rightarrow> gateway_ack result" where
  "build_ack digest c reasons accepted now =
     bind_result
       (audit_stamp_for (digest (ack_payload c accepted reasons))
          (''gateway-ack:'' @ gc_correlation_id c @ '':'' @ isoformat now) ''gateway_ack'' ''gateway-v1'' now
          ''dry_run_gateway'' [au_object_id (gc_audit c)] None None) (\<lambda>stamp.
     bind_result
       (case gc_client_order_id c of
          None \<Rightarrow> Inr None
        | Some coid \<Rightarrow>
            if accepted then Inr None
            else let r = \<lparr>rej_client_order_id = coid, rej_reason = comma_join reasons, rejected_at = now,
                          venue_code = Some ''last_look''\<rparr>
                 in validated (order_reject_check r) (Some r)) (\<lambda>reject.
     let a = \<lparr>ack_command = c, ack_accepted = accepted, ack_acknowledged_at = now, ack_audit = stamp,
              ack_venue_order_id = None, ack_reject = reject, ack_reasons = reasons\<rparr>
     in validated (gateway_ack_check a) a))"

definition gw_record ::
  "(frozen_map \<Rightarrow> string) \<Rightarrow> gateway_command \<Rightarrow> string list \<Rightarrow> bool \<Rightarrow> datetime \<Rightarrow> dry_run_gateway
   \<Rightarrow> gateway_ack result \<times> dry_run_gateway" where
  [step_defs]: "gw_record digest c reasons accepted now g =
     (case require_aware_datetime now ''gateway clock'' of
        Some e \<Rightarrow> (Inl e, g)
      | None \<Rightarrow>
          let g1 = g\<lparr>gw_commands := gw_commands g @ [c]\<rparr>
          in case build_ack digest c reasons accepted now of
               Inl e \<Rightarrow> (Inl e, g1)
             | Inr a \<Rightarrow> (Inr a, g1\<lparr>gw_acks := gw_acks g1 @ [a]\<rparr>))"

definition gw_submit ::
  "(frozen_map \<Rightarrow> string) \<Rightarrow> datetime \<Rightarrow> gateway_command \<Rightarrow> dry_run_gateway \<Rightarrow> gateway_ack result \<times> dry_run_gateway" where
  [step_defs]: "gw_submit digest now c g =
     (case require_aware_datetime now ''gateway clock'' of
        Some e \<Rightarrow> (Inl e, g)
      | None \<Rightarrow>
          (case gw_last_look g of
             None \<Rightarrow> gw_record digest c [''dry_run_submit''] True now g
           | Some ll \<Rightarrow>
               (case last_look_evaluate ll c now of
                  Inl e \<Rightarrow> (Inl e, g)
                | Inr reasons \<Rightarrow>
                    if reasons \<noteq> [] then gw_record digest c reasons False now g
                    else gw_record digest c [''dry_run_submit''] True now g)))"

definition gw_cancel ::
  "(frozen_map \<Rightarrow> string) \<Rightarrow> datetime \<Rightarrow> gateway_command \<Rightarrow> dry_run_gateway \<Rightarrow> gateway_ack result \<times> dry_run_gateway" where
  [step_defs]: "gw_cancel digest now c g = gw_record digest c [''dry_run_cancel''] True now g"

definition gw_replace ::
  "(frozen_map \<Rightarrow> string) \<Rightarrow> datetime \<Rightarrow> gateway_command \<Rightarrow> dry_run_gateway \<Rightarrow> gateway_ack result \<times> dry_run_gateway" where
  [step_defs]: "gw_replace digest now c g = gw_record digest c [''dry_run_replace''] True now g"

definition gw_cancel_all :: "venue \<Rightarrow> string \<Rightarrow> dry_run_gateway \<Rightarrow> gateway_ack list result \<times> dry_run_gateway" where
  "gw_cancel_all v reason g = (validated (require_non_empty reason ''reason'') [], g)"

section \<open>The scheduler serves by priority\<close>

lemma filter_not_in_keys:
  assumes "distinct (map fst xs)" and "mset xs = mset (as @ bs)"
  shows "mset (filter (\<lambda>q. fst q \<notin> set (map fst as)) xs) = mset bs"
proof -
  have d: "distinct (map fst (as @ bs))"
    using assms by (metis mset_eq_imp_distinct_iff mset_map)
  then have "filter (\<lambda>q. fst q \<notin> set (map fst as)) bs = bs"
    by (force simp: filter_id_conv)
  moreover have "filter (\<lambda>q. fst q \<notin> set (map fst as)) as = []"
    by (auto simp: filter_empty_conv)
  ultimately have "filter (\<lambda>q. fst q \<notin> set (map fst as)) (as @ bs) = bs" by simp
  then show ?thesis using assms(2) by (metis mset_filter)
qed

lemma take_batch_split:
  assumes "distinct (map fst q)"
  shows "fst (take_batch n q) = take n (sort_key (\<lambda>q. sort_key_of (snd q)) q)"
    and "mset (snd (take_batch n q)) = mset (drop n (sort_key (\<lambda>q. sort_key_of (snd q)) q))"
  using filter_not_in_keys [OF assms, of "take n (sort_key (\<lambda>q. sort_key_of (snd q)) q)"
      "drop n (sort_key (\<lambda>q. sort_key_of (snd q)) q)"]
  by (simp_all add: take_batch_def Let_def)

interpretation scheduler: priority_server take_batch "\<lambda>q. sort_key_of (snd q)" "\<lambda>q. distinct (map fst q)"
proof
  fix q :: "queued list" and n x y
  assume w: "distinct (map fst q)"
  let ?s = "sort_key (\<lambda>q. sort_key_of (snd q)) q"
  have so: "sorted (map (\<lambda>q. sort_key_of (snd q)) ?s)" by (rule sorted_sort_key)
  have "mset (take n ?s) + mset (drop n ?s) = mset ?s" by (metis append_take_drop_id mset_append)
  then show "mset (fst (take_batch n q)) + mset (snd (take_batch n q)) = mset q"
    by (simp add: take_batch_split [OF w])
  show "length (fst (take_batch n q)) = min n (length q)"
    by (simp add: take_batch_split [OF w] min.commute)
  show "sorted (map (\<lambda>q. sort_key_of (snd q)) (fst (take_batch n q)))"
    using sorted_take [OF so, of n] by (simp add: take_batch_split [OF w] take_map)
  show "distinct (map fst (snd (take_batch n q)))"
    using w by (simp add: take_batch_def Let_def distinct_map_filter)
  assume "x \<in> set (fst (take_batch n q))" and "y \<in> set (snd (take_batch n q))"
  then have "x \<in> set (take n ?s)" and "y \<in> set (drop n ?s)"
    using mset_eq_setD [OF take_batch_split(2) [OF w, of n]] by (simp_all add: take_batch_split(1) [OF w])
  then show "sort_key_of (snd x) \<le> sort_key_of (snd y)"
    using sorted_key_take_drop [OF so] by blast
qed

lemma next_batch_Inr:
  "next_batch now n queue = Inr r \<longleftrightarrow>
     is_aware now \<and> 0 \<le> n \<and> r = take_batch (nat n) (filter (\<lambda>q. \<not> is_stale now (snd q)) queue)"
  by (auto simp: next_batch_def drop_stale_def require_aware_datetime_def is_aware_def check_def
      split: option.splits if_splits)


definition demo_envelope :: "latency_tier \<Rightarrow> int \<Rightarrow> int option \<Rightarrow> string \<Rightarrow> intent_envelope" where
  "demo_envelope tier t expiry cid =
     \<lparr>env_decision = NoAction ''idle'', env_strategy_id = ''s'', env_sleeve_id = ''sl'', env_correlation_id = cid,
      emitted_at = utc t,
      env_priority = \<lparr>prio_tier = tier, max_delay_ms = None, expires_after_ms = expiry, allow_rate_limit_borrow = False, prio_reason = []\<rparr>,
      triggered_by_event_id = None, env_metadata = []\<rparr>"

definition demo_queue :: "queued list" where
  "demo_queue =
     [(0, demo_envelope STANDARD 5 None ''a''), (1, demo_envelope CRITICAL 9 None ''b''),
      (2, demo_envelope FAST 1 (Some 1) ''c''), (3, demo_envelope STANDARD 4 (Some 10) ''d'')]"


section \<open>The idempotency store grants a key once\<close>

text \<open>Well-formed stores: two dictionaries, each within the capacity after an operation.\<close>

definition store_ok :: "idempotency_store \<Rightarrow> bool" where
  "store_ok st \<longleftrightarrow> wf_dict (st_reserved st) \<and> wf_dict (st_acks st)"

definition within_capacity :: "idempotency_store \<Rightarrow> bool" where
  "within_capacity st \<longleftrightarrow> int (length (st_reserved st)) \<le> max_entries st \<and> int (length (st_acks st)) \<le> max_entries st"

lemma evict_Inr:
  assumes "evict now st = Inr st'"
  shows "within_capacity st' \<and> max_entries st' = max_entries st \<and> ttl st' = ttl st \<and> (store_ok st \<longrightarrow> store_ok st')"
  using assms
  by (auto simp: evict_def Let_def bind_result_Inr_iff within_capacity_def store_ok_def drop_expired_def
      dest!: trim_oldest_Inr intro!: wf_dict_drop)

text \<open>
  A store whose entries are all younger than \<open>lo\<close>, looked at no later than \<open>lo + ttl\<close> and not over
  capacity, forgets nothing.
\<close>

definition entries_since :: "int \<Rightarrow> idempotency_store \<Rightarrow> bool" where
  "entries_since lo st \<longleftrightarrow> (\<forall>(k, v, t) \<in> set (st_reserved st). lo \<le> instant t) \<and> (\<forall>(k, v, t) \<in> set (st_acks st). lo \<le> instant t)"

lemma drop_expired_id: "(\<forall>(k, v, t) \<in> set d. c \<le> instant t) \<Longrightarrow> drop_expired c d = d"
  by (force simp: drop_expired_def filter_id_conv)

lemma evict_id:
  assumes "within_capacity st" and "entries_since lo st" and "instant now \<le> lo + ttl st"
  shows "evict now st = Inr st"
proof -
  have "drop_expired (instant now - ttl st) (st_reserved st) = st_reserved st"
    "drop_expired (instant now - ttl st) (st_acks st) = st_acks st"
    using assms(2,3) by (fastforce intro!: drop_expired_id simp: entries_since_def)+
  then show ?thesis
    using assms(1) by (simp add: evict_def Let_def within_capacity_def trim_oldest_id)
qed

section \<open>Calls of the store\<close>

datatype store_call =
    Reserve "datetime \<times> datetime \<times> datetime" string string
  | Complete "datetime \<times> datetime \<times> datetime" string gateway_ack
  | Lookup datetime string
  | CacheSize datetime

text \<open>One call, with the key it grants.\<close>

fun store_act :: "store_call \<Rightarrow> idempotency_store \<Rightarrow> (string option \<times> idempotency_store) result" where
  "store_act (Reserve ts key cid) st =
     bind_result (store_reserve ts key cid st) (\<lambda>(granted, st'). Inr (if granted then Some key else None, st'))"
| "store_act (Complete ts key ack) st = bind_result (mark_complete ts key ack st) (\<lambda>st'. Inr (None, st'))"
| "store_act (Lookup now key) st = bind_result (store_lookup now key st) (\<lambda>(a, st'). Inr (None, st'))"
| "store_act (CacheSize now) st = bind_result (cache_size now st) (\<lambda>(n, st'). Inr (None, st'))"

fun call_times :: "store_call \<Rightarrow> datetime list" where
  "call_times (Reserve (a, b, c) key cid) = [a, b, c]"
| "call_times (Complete (a, b, c) key ack) = [a, b, c]"
| "call_times (Lookup now key) = [now]"
| "call_times (CacheSize now) = [now]"

definition in_window :: "int \<Rightarrow> timedelta \<Rightarrow> store_call \<Rightarrow> bool" where
  "in_window lo d call \<longleftrightarrow> list_all (\<lambda>t. lo \<le> instant t \<and> instant t \<le> lo + d) (call_times call)"

text \<open>The store can take \<open>n\<close> more calls without reaching its capacity.\<close>

definition has_room :: "int \<Rightarrow> timedelta \<Rightarrow> nat \<Rightarrow> idempotency_store \<Rightarrow> bool" where
  "has_room lo d n st \<longleftrightarrow> store_ok st \<and> entries_since lo st \<and> ttl st = d \<and>
     int (length (st_reserved st) + n) \<le> max_entries st \<and> int (length (st_acks st) + n) \<le> max_entries st"

lemma has_room_evict: "has_room lo d n st \<Longrightarrow> instant now \<le> lo + d \<Longrightarrow> evict now st = Inr st"
  by (rule evict_id [of st lo]) (auto simp: has_room_def within_capacity_def)

lemma has_room_less: "has_room lo d (Suc n) st \<Longrightarrow> has_room lo d n st"
  by (auto simp: has_room_def)

lemma set_dict_setD: "kv \<in> set (dict_set k v d) \<Longrightarrow> kv = (k, v) \<or> kv \<in> set d"
  by (induction d) (auto split: if_splits)

lemma length_set_le: "length (move_to_end k (dict_set k v d)) \<le> Suc (length d)"
  by (simp add: length_dict_set)

lemma has_room_reserve:
  assumes "has_room lo d (Suc n) st" and "lo \<le> instant t"
  shows "has_room lo d n (st\<lparr>st_reserved := move_to_end key (dict_set key (cid, t) (st_reserved st))\<rparr>)"
  using assms length_set_le [of key "(cid, t)" "st_reserved st"]
  by (auto simp: has_room_def store_ok_def entries_since_def dest!: set_dict_setD)

lemma has_room_ack:
  assumes "has_room lo d (Suc n) st" and "lo \<le> instant t"
  shows "has_room lo d n (st\<lparr>st_acks := move_to_end key (dict_set key (a, t) (st_acks st))\<rparr>)"
  using assms length_set_le [of key "(a, t)" "st_acks st"]
  by (auto simp: has_room_def store_ok_def entries_since_def dest!: set_dict_setD)

lemma has_room_touch:
  "has_room lo d n st \<Longrightarrow> has_room lo d n (st\<lparr>st_acks := move_to_end key (st_acks st)\<rparr>)"
  by (auto simp: has_room_def store_ok_def entries_since_def)

definition reserved_keys :: "idempotency_store \<Rightarrow> string set" where
  "reserved_keys st = dom (dict_get (st_reserved st))"

lemma reserve_in_window:
  assumes "has_room lo d (Suc n) st" and "in_window lo d (Reserve ts key cid)"
    and "store_reserve ts key cid st = Inr (g, st')"
  shows "has_room lo d n st' \<and> reserved_keys st' = insert key (reserved_keys st) \<and> g = (key \<notin> reserved_keys st)"
proof -
  obtain a b c where ts: "ts = (a, b, c)" by (cases ts)
  let ?st = "st\<lparr>st_reserved := move_to_end key (dict_set key (cid, b) (st_reserved st))\<rparr>"
  have w: "instant a \<le> lo + d" "lo \<le> instant b" "instant c \<le> lo + d" using assms(2) ts by (auto simp: in_window_def)
  have e1: "evict a st = Inr st" by (rule has_room_evict [OF assms(1) w(1)])
  have r: "has_room lo d n ?st" by (rule has_room_reserve [OF assms(1) w(2)])
  have e2: "evict c ?st = Inr ?st" by (rule has_room_evict [OF r w(3)])
  have wf: "wf_dict (st_reserved st)" using assms(1) by (simp add: has_room_def store_ok_def)
  show ?thesis
    using assms(3) e1 e2 r has_room_less [OF assms(1)] wf ts
    by (auto simp: store_reserve_def reserved_keys_def split: option.splits if_splits)
qed

lemma store_act_in_window:
  assumes "has_room lo d (Suc n) st" and "in_window lo d call" and "store_act call st = Inr (r, st')"
  shows "has_room lo d n st' \<and> reserved_keys st' = reserved_keys st \<union> set_option r \<and>
    (\<forall>k. r = Some k \<longrightarrow> k \<notin> reserved_keys st)"
proof (cases call)
  case (Reserve ts key cid)
  with assms(3) obtain g where g: "store_reserve ts key cid st = Inr (g, st')" "r = (if g then Some key else None)"
    by (auto simp: bind_result_Inr_iff)
  from reserve_in_window [OF assms(1) _ g(1)] assms(2) Reserve g(2) show ?thesis by (auto split: if_splits)
next
  case (Complete ts key ack)
  obtain a b c where ts: "ts = (a, b, c)" by (cases ts)
  have w: "instant a \<le> lo + d" "lo \<le> instant b" "instant c \<le> lo + d"
    using assms(2) ts Complete by (auto simp: in_window_def)
  show ?thesis
    using assms(3) Complete ts has_room_evict [OF assms(1) w(1)] has_room_ack [OF assms(1) w(2), of key ack]
      has_room_evict [OF has_room_ack [OF assms(1) w(2), of key ack] w(3)]
    by (auto simp: mark_complete_def bind_result_Inr_iff reserved_keys_def split: option.splits if_splits)
next
  case (Lookup now key)
  have w: "instant now \<le> lo + d" using assms(2) Lookup by (auto simp: in_window_def)
  show ?thesis
    using assms(3) Lookup has_room_evict [OF assms(1) w] has_room_touch [OF has_room_less [OF assms(1)]] has_room_less [OF assms(1)]
    by (auto simp: store_lookup_def bind_result_Inr_iff reserved_keys_def split: option.splits)
next
  case (CacheSize now)
  have w: "instant now \<le> lo + d" using assms(2) CacheSize by (auto simp: in_window_def)
  show ?thesis
    using assms(3) CacheSize has_room_evict [OF assms(1) w] has_room_less [OF assms(1)]
    by (auto simp: cache_size_def bind_result_Inr_iff)
qed

interpretation window_store: grants_once store_act reserved_keys "in_window lo d" "has_room lo d" for lo d
  by unfold_locales (use store_act_in_window in \<open>blast+\<close>)

section \<open>Properties of the store\<close>

fun store_run :: "store_call list \<Rightarrow> idempotency_store \<Rightarrow> (string list \<times> idempotency_store) result" where
  "store_run [] st = Inr ([], st)"
| "store_run (call # calls) st =
     bind_result (store_act call st) (\<lambda>(r, st1).
       bind_result (store_run calls st1) (\<lambda>(ks, st2). Inr ((case r of None \<Rightarrow> ks | Some k \<Rightarrow> k # ks), st2)))"

lemma store_run_grants: "store_run calls st = window_store.grant_run calls st"
  by (induction calls arbitrary: st) simp_all

lemma store_run_room:
  assumes "store_run calls st = Inr (ks, st')" and "has_room lo d (n + length calls) st"
    and "\<forall>call \<in> set calls. in_window lo d call"
  shows "has_room lo d n st'"
  using assms
proof (induction calls arbitrary: st ks)
  case (Cons call calls)
  then obtain r st1 ks1 where a: "store_act call st = Inr (r, st1)" "store_run calls st1 = Inr (ks1, st')"
    by (auto simp: bind_result_Inr_iff)
  have "has_room lo d (n + length calls) st1"
    using store_act_in_window [OF _ _ a(1), of lo d "n + length calls"] Cons.prems by simp
  with Cons a(2) show ?case by simp
qed simp

lemma evict_returns: "0 \<le> max_entries st \<Longrightarrow> \<exists>st'. evict now st = Inr st'"
  using trim_oldest_total [of "max_entries st" "drop_expired (instant now - ttl st) (st_reserved st)"]
    trim_oldest_total [of "max_entries st" "drop_expired (instant now - ttl st) (st_acks st)"]
  by (auto simp: evict_def Let_def)

lemma reserve_returns:
  assumes "has_room lo d n st" and "in_window lo d (Reserve ts key cid)" and "key \<noteq> []"
  shows "\<exists>r. store_reserve ts key cid st = Inr r"
proof -
  have m: "0 \<le> max_entries st" using assms(1) by (simp add: has_room_def)
  obtain st1 where st1: "evict (fst ts) st = Inr st1" using evict_returns [OF m] by blast
  let ?st = "st1\<lparr>st_reserved := move_to_end key (dict_set key (cid, fst (snd ts)) (st_reserved st1))\<rparr>"
  have "0 \<le> max_entries ?st" using evict_Inr [OF st1] m by simp
  then obtain st2 where "evict (snd (snd ts)) ?st = Inr st2" using evict_returns by blast
  then show ?thesis using st1 assms(3) by (auto simp: store_reserve_def require_non_empty_def)
qed

lemma store_act_capacity:
  assumes "store_act call st = Inr (r, st')"
  shows "within_capacity st' \<and> max_entries st' = max_entries st"
proof (cases call)
  case (Reserve ts key cid)
  with assms show ?thesis
    by (auto simp: store_reserve_def bind_result_Inr_iff split: option.splits if_splits dest!: evict_Inr)
next
  case (Complete ts key ack)
  with assms show ?thesis
    by (auto simp: mark_complete_def bind_result_Inr_iff split: option.splits if_splits dest!: evict_Inr)
next
  case (Lookup now key)
  with assms show ?thesis
    by (auto simp: store_lookup_def bind_result_Inr_iff within_capacity_def split: option.splits dest!: evict_Inr)
next
  case (CacheSize now)
  with assms show ?thesis
    by (auto simp: cache_size_def bind_result_Inr_iff dest!: evict_Inr)
qed

lemma store_run_capacity:
  assumes "store_run calls st = Inr (ks, st')" and "within_capacity st \<and> max_entries st = n"
  shows "within_capacity st' \<and> max_entries st' = n"
  using assms
proof (induction calls arbitrary: st ks)
  case (Cons call calls)
  then obtain r st1 ks1 where a: "store_act call st = Inr (r, st1)" "store_run calls st1 = Inr (ks1, st')"
    by (auto simp: bind_result_Inr_iff)
  with Cons store_act_capacity [OF a(1)] show ?case by simp
qed simp

lemma evict_keeps_last:
  assumes "evict now st = Inr st'" and "st_acks st = xs @ [(k, a, t)]"
    and "0 < max_entries st" and "instant now \<le> instant t + ttl st"
  shows "\<exists>ys. st_acks st' = ys @ [(k, a, t)]"
proof -
  have "drop_expired (instant now - ttl st) (st_acks st) = drop_expired (instant now - ttl st) xs @ [(k, a, t)]"
    using assms(2,4) by (simp add: drop_expired_def)
  with assms(1,3) show ?thesis
    by (auto simp: evict_def Let_def bind_result_Inr_iff dest!: trim_keeps_last)
qed

text \<open>
  C19: Exactly one grant per key. In any sequence of calls of a fresh store, fewer than its capacity
  and with all clock readings within one time-to-live, no key is granted twice, and after it a
  further \<open>reserve\<close> of a non-empty key returns, granting it exactly when it was not granted before.
\<close>

theorem reserve_exactly_once:
  assumes "store_run calls (new_idempotency_store n d) = Inr (granted, st)"
    and "int (length calls) < n" and "\<forall>call \<in> set calls. in_window lo d call"
    and "key \<noteq> []" and "in_window lo d (Reserve ts key cid)"
  shows "distinct granted \<and> (\<exists>st'. store_reserve ts key cid st = Inr (key \<notin> set granted, st'))"
proof -
  let ?st = "new_idempotency_store n d"
  have "has_room lo d (length (calls @ [Reserve ts key cid])) ?st"
    using assms(2) by (auto simp: has_room_def new_idempotency_store_def store_ok_def entries_since_def)
  then have room: "has_room lo d (length calls) ?st" "has_room lo d (Suc (length calls)) ?st"
    by (auto simp: has_room_def)
  have k0: "reserved_keys ?st = {}" by (simp add: reserved_keys_def new_idempotency_store_def)
  have run: "window_store.grant_run calls ?st = Inr (granted, st)" using assms(1) store_run_grants by simp
  have g: "distinct granted" "reserved_keys st = set granted"
    using window_store.grants_distinct [OF run room(1) assms(3)] k0 by auto
  have "has_room lo d 1 st" by (rule store_run_room [OF assms(1) _ assms(3)]) (use room in simp)
  then have r1: "has_room lo d (Suc 0) st" by simp
  obtain h st' where s': "store_reserve ts key cid st = Inr (h, st')"
    using reserve_returns [OF r1 assms(5,4)] by auto
  from reserve_in_window [OF r1 assms(5) s'] g s' show ?thesis by auto
qed

text \<open>
  Bounded memory. With a non-negative capacity every call sequence leaves at most that many
  reservations and acknowledgements in the store.
\<close>

theorem store_within_capacity:
  assumes "store_run calls (new_idempotency_store n d) = Inr (granted, st)" and "0 \<le> n"
  shows "int (length (st_reserved st)) \<le> n \<and> int (length (st_acks st)) \<le> n"
proof -
  have "within_capacity (new_idempotency_store n d) \<and> max_entries (new_idempotency_store n d) = n"
    using assms(2) by (simp add: within_capacity_def new_idempotency_store_def)
  then have "within_capacity st \<and> max_entries st = n"
    using store_run_capacity [OF assms(1)] by blast
  then show ?thesis by (simp add: within_capacity_def)
qed

text \<open>
  Completing and looking up. After \<open>mark_complete\<close> of a reserved key, a lookup of the key that
  reads the clock within the time-to-live returns the acknowledgement.
\<close>

theorem lookup_after_complete:
  assumes "mark_complete (a, b, c) key ack st = Inr st'" and "store_ok st" and "0 < max_entries st"
    and "instant c \<le> instant b + ttl st" and "instant now \<le> instant b + ttl st"
  shows "\<exists>st''. store_lookup now key st' = Inr (Some ack, st'')"
proof -
  from assms(1) obtain st1 where st1: "evict a st = Inr st1" "key \<noteq> []"
      and e: "evict c (st1\<lparr>st_acks := move_to_end key (dict_set key (ack, b) (st_acks st1))\<rparr>) = Inr st'"
    by (auto simp: mark_complete_def bind_result_Inr_iff require_non_empty_def split: option.splits if_splits)
  have k1: "store_ok st1" "max_entries st1 = max_entries st" "ttl st1 = ttl st"
    using evict_Inr [OF st1(1)] assms(2) by auto
  obtain xs where l: "move_to_end key (dict_set key (ack, b) (st_acks st1)) = xs @ [(key, ack, b)]"
    using move_to_end_last [of "dict_set key (ack, b) (st_acks st1)" key] k1(1) by (auto simp: store_ok_def)
  let ?st2 = "st1\<lparr>st_acks := xs @ [(key, ack, b)]\<rparr>"
  have e2: "evict c ?st2 = Inr st'" using e l by simp
  have ok2: "store_ok ?st2" using k1(1) l by (auto simp: store_ok_def simp flip: l)
  obtain ys where y: "st_acks st' = ys @ [(key, ack, b)]"
    using evict_keeps_last [OF e2] assms(3,4) k1 by auto
  have k2: "within_capacity st'" "max_entries st' = max_entries st" "ttl st' = ttl st" "store_ok st'"
    using evict_Inr [OF e2] ok2 k1 by auto
  obtain st3 where e3: "evict now st' = Inr st3" using evict_returns [of st' now] k2(2) assms(3) by auto
  obtain zs where z: "st_acks st3 = zs @ [(key, ack, b)]"
    using evict_keeps_last [OF e3 y] assms(3,5) k2 by auto
  have "store_ok st3" using evict_Inr [OF e3] k2(4) by simp
  then have "dict_get (st_acks st3) key = Some (ack, b)" using z by (subst wf_dict_get_iff) (auto simp: store_ok_def)
  then show ?thesis using e3 st1(2) by (simp add: store_lookup_def require_non_empty_def)
qed

definition demo_ack_for :: "gateway_command \<Rightarrow> gateway_ack" where
  "demo_ack_for c =
     \<lparr>ack_command = c, ack_accepted = True, ack_acknowledged_at = utc 0, ack_audit = demo_stamp ''ack'' [] 0,
      ack_venue_order_id = None, ack_reject = None, ack_reasons = []\<rparr>"

definition demo_cancel :: gateway_command where
  "demo_cancel =
     \<lparr>gc_kind = CANCEL, gc_venue = KALSHI, gc_correlation_id = ''c1'', gc_audit = demo_stamp ''cmd'' [] 0,
      gc_intent = None, gc_client_order_id = Some ''o1'', gc_envelope = None\<rparr>"

definition demo_calls :: "store_call list" where
  "demo_calls =
     [Reserve (utc 1, utc 2, utc 3) ''k1'' ''c1'', Reserve (utc 4, utc 5, utc 6) ''k1'' ''c2'',
      Complete (utc 7, utc 8, utc 9) ''k1'' (demo_ack_for demo_cancel), Reserve (utc 10, utc 11, utc 12) ''k2'' ''c3'']"

definition demo_store :: idempotency_store where
  "demo_store = \<lparr>max_entries = 5, ttl = 20, st_reserved = [(''k1'', ''c1'', utc 2), (''k2'', ''c3'', utc 11)],
     st_acks = [(''k1'', demo_ack_for demo_cancel, utc 8)]\<rparr>"

lemma demo_store_run: "store_run demo_calls (new_idempotency_store 5 20) = Inr ([''k1'', ''k2''], demo_store)"
  by code_simp

theorem reserve_exactly_once_witness:
  "distinct [''k1'', ''k2'']
   \<and> (\<exists>st'. store_reserve (utc 13, utc 14, utc 15) ''k1'' ''c4'' demo_store = Inr (''k1'' \<notin> set [''k1'', ''k2''], st'))"
proof (rule reserve_exactly_once [OF demo_store_run, of 0])
  show "int (length demo_calls) < 5" "\<forall>call \<in> set demo_calls. in_window 0 20 call" "''k1'' \<noteq> []"
    "in_window 0 20 (Reserve (utc 13, utc 14, utc 15) ''k1'' ''c4'')"
    by code_simp+
qed

theorem store_within_capacity_witness:
  "int (length (st_reserved demo_store)) \<le> 5 \<and> int (length (st_acks demo_store)) \<le> 5"
  by (rule store_within_capacity [OF demo_store_run]) simp

theorem lookup_after_complete_witness:
  "\<exists>st' st''. mark_complete (utc 7, utc 8, utc 9) ''k1'' (demo_ack_for demo_cancel) demo_store = Inr st'
     \<and> store_lookup (utc 25) ''k1'' st' = Inr (Some (demo_ack_for demo_cancel), st'')"
proof -
  have m: "mark_complete (utc 7, utc 8, utc 9) ''k1'' (demo_ack_for demo_cancel) demo_store = Inr demo_store"
    by code_simp
  have "\<exists>st''. store_lookup (utc 25) ''k1'' demo_store = Inr (Some (demo_ack_for demo_cancel), st'')"
    by (rule lookup_after_complete [OF m]) code_simp+
  with m show ?thesis by blast
qed

section \<open>What a last look lets through\<close>

definition last_look_ok :: "place_order \<Rightarrow> market_snapshot \<Rightarrow> datetime \<Rightarrow> last_look_policy \<Rightarrow> bool" where
  "last_look_ok d s now p \<longleftrightarrow>
     snap_instrument_id s = po_instrument_id d \<and> snap_side s = po_outcome_side d \<and>
     snap_exchange_ts s \<noteq> None \<and> snap_source_sequence s \<noteq> None \<and> \<not> snap_sequence_gap s \<and>
     0 \<le> delta_ms (dt_minus now (snap_received_at s)) \<and> delta_ms (dt_minus now (snap_received_at s)) \<le> max_quote_age_ms p \<and>
     (\<exists>decision bid ask dbid dask price.
        po_market_snapshot d = Some decision \<and> snap_bid s = Some bid \<and> snap_ask s = Some ask \<and>
        snap_bid decision = Some dbid \<and> snap_ask decision = Some dask \<and>
        0 \<le> dsub (lvl_price ask) (lvl_price bid) \<and> dsub (lvl_price ask) (lvl_price bid) \<le> ll_max_spread p \<and>
        dabs (dsub (lvl_price bid) (lvl_price dbid)) \<le> max_price_movement p \<and>
        dabs (dsub (lvl_price ask) (lvl_price dask)) \<le> max_price_movement p \<and>
        po_order_type d \<noteq> MARKET \<and> po_price d = Some price \<and>
        (po_order_side d = BUY \<longrightarrow> price \<le> dadd (lvl_price ask) (max_slippage p)) \<and>
        (po_order_side d = SELL \<longrightarrow> dsub (lvl_price bid) (max_slippage p) \<le> price))"

lemma validate_last_look_Nil:
  "validate_gateway_last_look d latest now p = Inr [] \<longleftrightarrow>
     is_aware now \<and> (\<exists>s. latest = Some s \<and> last_look_ok d s now p)"
  by (auto simp: validate_gateway_last_look_def last_look_ok_def latest_bbo_reasons_def snapshot_movement_def
      price_collar_reasons_def age_ms_def require_aware_datetime_def is_aware_def check_def Let_def not_less
      split: option.splits if_splits)

section \<open>The dry-run gateway acknowledges every command\<close>

text \<open>Commands as their constructors leave them, with a non-empty client order id if any.\<close>

definition command_ok :: "gateway_command \<Rightarrow> bool" where
  "command_ok c \<longleftrightarrow> audit_stamp_check (gc_audit c) = None \<and> gc_client_order_id c \<noteq> Some []"

lemma comma_join_not_Nil: "reasons \<noteq> [] \<Longrightarrow> [] \<notin> set reasons \<Longrightarrow> comma_join reasons \<noteq> []"
  by (induction reasons rule: comma_join.induct) auto

lemma aware_check [simp]: "is_aware now \<Longrightarrow> require_aware_datetime now f = None"
  by simp

lemma reason_parts_named:
  "[] \<notin> set (latest_bbo_reasons s p)" "[] \<notin> set (price_collar_reasons d s p)"
  by (auto simp: latest_bbo_reasons_def price_collar_reasons_def Let_def split: option.splits)

lemma named_reason: "xs \<noteq> [] \<Longrightarrow> ys \<noteq> [] \<Longrightarrow> [] \<notin> set (if b then [xs] else if c then [ys] else [])"
  by simp

lemma validate_reasons_named:
  "validate_gateway_last_look d latest now p = Inr reasons \<Longrightarrow> [] \<notin> set reasons"
  unfolding validate_gateway_last_look_def
  by (auto simp: reason_parts_named named_reason bind_result_Inr_iff split: option.splits)

lemma last_look_reasons_named:
  "last_look_evaluate ll c now = Inr reasons \<Longrightarrow> [] \<notin> set reasons"
  by (auto simp: last_look_evaluate_def dest: validate_reasons_named split: option.splits if_splits strategy_decision.splits)

lemma last_look_returns: "is_aware now \<Longrightarrow> \<exists>reasons. last_look_evaluate ll c now = Inr reasons"
  by (auto simp: last_look_evaluate_def validate_gateway_last_look_def age_ms_def split: option.splits strategy_decision.splits)

lemma build_ack_returns:
  assumes "command_ok c" and "is_aware now" and "length (digest (ack_payload c accepted reasons)) = 64"
    and "reasons \<noteq> []" and "[] \<notin> set reasons"
  shows "\<exists>a. build_ack digest c reasons accepted now = Inr a \<and> ack_command a = c \<and> ack_accepted a = accepted
    \<and> ack_reasons a = reasons \<and> au_parent_ids (ack_audit a) = [au_object_id (gc_audit c)]"
proof -
  let ?dg = "digest (ack_payload c accepted reasons)"
  have "au_object_id (gc_audit c) \<noteq> []" using assms(1) by (simp add: command_ok_def audit_stamp_check_def)
  moreover have "?dg \<noteq> []" using assms(3) by auto
  ultimately obtain stamp where stamp: "audit_stamp_for ?dg
          (''gateway-ack:'' @ gc_correlation_id c @ '':'' @ isoformat now) ''gateway_ack'' ''gateway-v1'' now
          ''dry_run_gateway'' [au_object_id (gc_audit c)] None None = Inr stamp"
      and parents: "au_parent_ids stamp = [au_object_id (gc_audit c)]"
    using assms(2,3) by (simp add: audit_stamp_for_def mk_audit_stamp_def audit_stamp_check_def)
  obtain rej where rej: "(case gc_client_order_id c of
          None \<Rightarrow> Inr None
        | Some coid \<Rightarrow>
            if accepted then Inr None
            else let r = \<lparr>rej_client_order_id = coid, rej_reason = comma_join reasons, rejected_at = now,
                          venue_code = Some ''last_look''\<rparr>
                 in validated (order_reject_check r) (Some r)) = Inr rej"
    using assms(1,2) comma_join_not_Nil [OF assms(4,5)]
    by (cases "gc_client_order_id c"; cases accepted) (auto simp: order_reject_check_def command_ok_def Let_def)
  show ?thesis
    unfolding build_ack_def stamp bind_result_simps rej
    using assms(2) parents by (simp add: gateway_ack_check_def Let_def)
qed

datatype gw_call = GwSubmit datetime gateway_command | GwCancel datetime gateway_command | GwReplace datetime gateway_command

fun gw_step :: "(frozen_map \<Rightarrow> string) \<Rightarrow> gw_call \<Rightarrow> dry_run_gateway \<Rightarrow> gateway_ack result \<times> dry_run_gateway" where
  "gw_step digest (GwSubmit now c) = gw_submit digest now c"
| "gw_step digest (GwCancel now c) = gw_cancel digest now c"
| "gw_step digest (GwReplace now c) = gw_replace digest now c"

fun call_time :: "gw_call \<Rightarrow> datetime" where
  "call_time (GwSubmit now c) = now"
| "call_time (GwCancel now c) = now"
| "call_time (GwReplace now c) = now"

fun call_command :: "gw_call \<Rightarrow> gateway_command" where
  "call_command (GwSubmit now c) = c"
| "call_command (GwCancel now c) = c"
| "call_command (GwReplace now c) = c"

fun gw_run :: "(frozen_map \<Rightarrow> string) \<Rightarrow> gw_call list \<Rightarrow> dry_run_gateway \<Rightarrow> gateway_ack result list \<times> dry_run_gateway" where
  "gw_run digest [] g = ([], g)"
| "gw_run digest (call # calls) g =
     (let (r, g1) = gw_step digest call g; (rs, g2) = gw_run digest calls g1 in (r # rs, g2))"

lemma gw_record_returns:
  assumes "command_ok c" and "is_aware now" and "\<forall>v. length (digest v) = 64" and "reasons \<noteq> []" and "[] \<notin> set reasons"
  obtains a where "gw_record digest c reasons accepted now g =
      (Inr a, g\<lparr>gw_commands := gw_commands g @ [c], gw_acks := gw_acks g @ [a]\<rparr>)"
    and "ack_command a = c" and "ack_accepted a = accepted" and "ack_reasons a = reasons"
    and "au_parent_ids (ack_audit a) = [au_object_id (gc_audit c)]"
proof -
  obtain a where "build_ack digest c reasons accepted now = Inr a" "ack_command a = c" "ack_accepted a = accepted"
      "ack_reasons a = reasons" "au_parent_ids (ack_audit a) = [au_object_id (gc_audit c)]"
    using build_ack_returns [OF assms(1,2) _ assms(4,5)] assms(3) by blast
  then show ?thesis using that assms(2) by (simp add: gw_record_def)
qed

lemma gw_submit_record:
  assumes "is_aware now"
  shows "\<exists>reasons accepted. gw_submit digest now c g = gw_record digest c reasons accepted now g
    \<and> reasons \<noteq> [] \<and> [] \<notin> set reasons
    \<and> (\<forall>ll. gw_last_look g = Some ll \<longrightarrow> accepted = (last_look_evaluate ll c now = Inr []))"
proof (cases "gw_last_look g")
  case None
  then have "gw_submit digest now c g = gw_record digest c [''dry_run_submit''] True now g"
    using assms by (simp add: gw_submit_def)
  with None show ?thesis by fastforce
next
  case (Some ll)
  obtain rs where rs: "last_look_evaluate ll c now = Inr rs" using last_look_returns [OF assms] by blast
  show ?thesis
  proof (cases "rs = []")
    case True
    then have "gw_submit digest now c g = gw_record digest c [''dry_run_submit''] True now g"
      using assms Some rs by (simp add: gw_submit_def)
    with Some rs True show ?thesis by fastforce
  next
    case False
    then have "gw_submit digest now c g = gw_record digest c rs False now g"
      using assms Some rs by (simp add: gw_submit_def)
    with Some rs False last_look_reasons_named [OF rs] show ?thesis by fastforce
  qed
qed

lemma gw_step_returns:
  assumes "command_ok (call_command call)" and "is_aware (call_time call)" and "\<forall>v. length (digest v) = 64"
  obtains a where "gw_step digest call g =
      (Inr a, g\<lparr>gw_commands := gw_commands g @ [call_command call], gw_acks := gw_acks g @ [a]\<rparr>)"
    and "ack_command a = call_command call" and "au_parent_ids (ack_audit a) = [au_object_id (gc_audit (call_command call))]"
proof -
  have "\<exists>reasons accepted. gw_step digest call g = gw_record digest (call_command call) reasons accepted (call_time call) g
      \<and> reasons \<noteq> [] \<and> [] \<notin> set reasons"
  proof (cases call)
    case (GwSubmit now c)
    with gw_submit_record [of now digest c g] assms(2) show ?thesis by auto
  next
    case (GwCancel now c)
    then show ?thesis by (fastforce simp: gw_cancel_def)
  next
    case (GwReplace now c)
    then show ?thesis by (fastforce simp: gw_replace_def)
  qed
  then obtain reasons accepted where r: "gw_step digest call g = gw_record digest (call_command call) reasons accepted (call_time call) g"
      "reasons \<noteq> []" "[] \<notin> set reasons" by blast
  from gw_record_returns [OF assms(1,2,3) r(2,3), of accepted g] r(1) that show ?thesis by metis
qed

text \<open>
  The dry-run gateway answers every command. With well-formed commands, aware clock readings and
  a digest of 64 characters, every call of a run returns an acknowledgement; the acknowledgements
  returned are the ones logged, one per command in the order of the calls, each with an audit
  stamp whose only parent is the stamp of its command.
\<close>

theorem gateway_acks_every_command:
  assumes "gw_run digest calls g = (rs, g')"
    and "\<forall>call \<in> set calls. command_ok (call_command call) \<and> is_aware (call_time call)"
    and "\<forall>v. length (digest v) = 64"
  shows "\<exists>acks. rs = map Inr acks \<and> gw_acks g' = gw_acks g @ acks
    \<and> map ack_command acks = map call_command calls \<and> gw_commands g' = gw_commands g @ map call_command calls
    \<and> map (\<lambda>a. au_parent_ids (ack_audit a)) acks = map (\<lambda>call. [au_object_id (gc_audit (call_command call))]) calls"
  using assms
proof (induction calls arbitrary: g rs)
  case (Cons call calls)
  obtain a where a: "gw_step digest call g =
      (Inr a, g\<lparr>gw_commands := gw_commands g @ [call_command call], gw_acks := gw_acks g @ [a]\<rparr>)"
      "ack_command a = call_command call" "au_parent_ids (ack_audit a) = [au_object_id (gc_audit (call_command call))]"
    by (rule gw_step_returns [of call digest g]) (use Cons.prems(2,3) in auto)
  let ?g = "g\<lparr>gw_commands := gw_commands g @ [call_command call], gw_acks := gw_acks g @ [a]\<rparr>"
  obtain rs1 where r: "gw_run digest calls ?g = (rs1, g')" "rs = Inr a # rs1"
    using Cons.prems(1) a(1) by (auto split: prod.splits)
  obtain acks where k: "rs1 = map Inr acks" "gw_acks g' = gw_acks ?g @ acks"
      "map ack_command acks = map call_command calls" "gw_commands g' = gw_commands ?g @ map call_command calls"
      "map (\<lambda>a. au_parent_ids (ack_audit a)) acks = map (\<lambda>call. [au_object_id (gc_audit (call_command call))]) calls"
    using Cons.IH [OF r(1)] Cons.prems(2,3) by (metis list.set_intros(2))
  show ?case using r(2) k a by (intro exI [of _ "a # acks"]) simp
qed simp

text \<open>
  C29: The last look decides. With a last look installed, the acknowledgement of a submitted order
  is an acceptance exactly when the latest snapshot exists and is fresh, gap-free and of the same
  instrument and side, its spread and its movement since the decision are within the policy, and
  the limit price is within the slippage collar; otherwise it is a rejection with its reasons.
\<close>

theorem gateway_last_look_decides:
  assumes "gw_submit digest now c g = (Inr a, g')" and "gw_last_look g = Some ll" and "gc_kind c = SUBMIT"
    and "gc_envelope c = Some env" and "env_decision env = PlaceOrder d" and "command_ok c" and "\<forall>v. length (digest v) = 64"
  shows "(ack_accepted a \<longleftrightarrow>
      (\<exists>s. snapshot_for ll (po_instrument_id d) (po_outcome_side d) = Some s \<and> last_look_ok d s now (ll_policy ll)))
    \<and> ack_reasons a \<noteq> [] \<and> last (gw_acks g') = a"
proof -
  have aw: "is_aware now" using assms(1) by (auto simp: gw_submit_def is_aware_def split: option.splits)
  obtain reasons accepted where s: "gw_submit digest now c g = gw_record digest c reasons accepted now g"
      "reasons \<noteq> []" "[] \<notin> set reasons" "accepted = (last_look_evaluate ll c now = Inr [])"
    using gw_submit_record [OF aw, of digest c g] assms(2) by auto
  obtain b where b: "gw_record digest c reasons accepted now g =
      (Inr b, g\<lparr>gw_commands := gw_commands g @ [c], gw_acks := gw_acks g @ [b]\<rparr>)"
      "ack_accepted b = accepted" "ack_reasons b = reasons"
    by (rule gw_record_returns [OF assms(6) aw assms(7) s(2,3)])
  have "last_look_evaluate ll c now = Inr [] \<longleftrightarrow>
      (\<exists>s. snapshot_for ll (po_instrument_id d) (po_outcome_side d) = Some s \<and> last_look_ok d s now (ll_policy ll))"
    using assms(3,4,5) aw by (simp add: last_look_evaluate_def validate_last_look_Nil)
  with s b assms(1) show ?thesis by auto
qed

definition demo_iid :: instrument_id where
  "demo_iid = \<lparr>iid_venue = KALSHI, market_id = ''RAIN-NYC'', outcome_id = None\<rparr>"

definition demo_snapshot :: "decimal \<Rightarrow> decimal \<Rightarrow> int \<Rightarrow> market_snapshot" where
  "demo_snapshot bid ask t =
     \<lparr>snap_instrument_id = demo_iid, snap_side = YES, snap_bid = Some \<lparr>lvl_price = bid, lvl_quantity = 100\<rparr>,
      snap_ask = Some \<lparr>lvl_price = ask, lvl_quantity = 100\<rparr>, snap_exchange_ts = Some (utc t), snap_received_at = utc t,
      snap_source = ''ws'', snap_source_sequence = Some ''7'', snap_sequence_gap = False, snap_metadata = []\<rparr>"

definition demo_order :: place_order where
  "demo_order =
     \<lparr>po_client_order_id = ''o1'', po_instrument_id = demo_iid, po_outcome_side = YES, po_order_side = BUY,
      po_order_type = LIMIT, po_time_in_force = IOC, po_quantity = 10, po_price = Some (1 / 2), po_expires_at = None,
      po_market_snapshot = Some (demo_snapshot (45 / 100) (1 / 2) 0), po_reason = ''edge'', po_expected_edge_bps = None,
      po_priority = None, po_metadata = []\<rparr>"

definition demo_intent :: order_intent where
  "demo_intent =
     \<lparr>oi_instrument_id = demo_iid, oi_side = YES, oi_price = 1 / 2, oi_quantity = 10, oi_order_type = ''limit'',
      oi_order_side = BUY, oi_time_in_force = IOC, oi_post_only = False, oi_metadata = []\<rparr>"

definition demo_submit :: gateway_command where
  "demo_submit =
     \<lparr>gc_kind = SUBMIT, gc_venue = KALSHI, gc_correlation_id = ''c2'', gc_audit = demo_stamp ''cmd'' [] 0,
      gc_intent = Some demo_intent, gc_client_order_id = Some ''o1'',
      gc_envelope = Some ((demo_envelope FAST 0 None ''c2'')\<lparr>env_decision := PlaceOrder demo_order\<rparr>)\<rparr>"

definition demo_digest :: "frozen_map \<Rightarrow> string" where
  "demo_digest v = replicate 64 CHR ''0''"

definition demo_gateway :: "decimal \<Rightarrow> dry_run_gateway" where
  "demo_gateway ask =
     new_gateway (Some \<lparr>snapshot_for = (\<lambda>iid side. Some (demo_snapshot (45 / 100) ask 0)), ll_policy = default_last_look_policy\<rparr>)"

lemma demo_digest_length: "\<forall>v. length (demo_digest v) = 64"
  by (simp add: demo_digest_def)

theorem gateway_acks_every_command_witness:
  "\<exists>acks g'. gw_run demo_digest [GwSubmit (utc 500000) demo_submit, GwCancel (utc 600000) demo_cancel] (demo_gateway (1 / 2))
     = (map Inr acks, g') \<and> map ack_command acks = [demo_submit, demo_cancel]"
proof -
  let ?calls = "[GwSubmit (utc 500000) demo_submit, GwCancel (utc 600000) demo_cancel]"
  obtain rs g' where r: "gw_run demo_digest ?calls (demo_gateway (1 / 2)) = (rs, g')" by fastforce
  have "command_ok demo_submit" "command_ok demo_cancel" by code_simp+
  then have "\<forall>call \<in> set ?calls. command_ok (call_command call) \<and> is_aware (call_time call)" by simp
  from gateway_acks_every_command [OF r this demo_digest_length] r show ?thesis by auto
qed

theorem gateway_last_look_decides_witness:
  "\<exists>a g' b h. gw_submit demo_digest (utc 500000) demo_submit (demo_gateway (1 / 2)) = (Inr a, g') \<and> ack_accepted a
   \<and> gw_submit demo_digest (utc 500000) demo_submit (demo_gateway (46 / 100)) = (Inr b, h) \<and> \<not> ack_accepted b"
proof -
  have env: "gc_envelope demo_submit = Some ((demo_envelope FAST 0 None ''c2'')\<lparr>env_decision := PlaceOrder demo_order\<rparr>)"
    "env_decision ((demo_envelope FAST 0 None ''c2'')\<lparr>env_decision := PlaceOrder demo_order\<rparr>) = PlaceOrder demo_order"
    "gc_kind demo_submit = SUBMIT" "command_ok demo_submit"
    by (simp add: demo_submit_def, simp, simp add: demo_submit_def, code_simp)
  have ret: "\<exists>a g'. gw_submit demo_digest (utc 500000) demo_submit (demo_gateway x) = (Inr a, g')" for x
    by (rule gw_step_returns [of "GwSubmit (utc 500000) demo_submit" demo_digest "demo_gateway x"])
      (use env(4) demo_digest_length in auto)
  have ll: "gw_last_look (demo_gateway x) =
      Some \<lparr>snapshot_for = (\<lambda>iid side. Some (demo_snapshot (45 / 100) x 0)), ll_policy = default_last_look_policy\<rparr>" for x
    by (simp add: demo_gateway_def new_gateway_def)
  have dec: "ack_accepted a \<longleftrightarrow> last_look_ok demo_order (demo_snapshot (45 / 100) x 0) (utc 500000) default_last_look_policy"
    if "gw_submit demo_digest (utc 500000) demo_submit (demo_gateway x) = (Inr a, g')" for x a g'
    using gateway_last_look_decides [OF that ll env(3,1,2,4) demo_digest_length] by simp
  have "validate_gateway_last_look demo_order (Some (demo_snapshot (45 / 100) (1 / 2) 0)) (utc 500000) default_last_look_policy = Inr []"
    "validate_gateway_last_look demo_order (Some (demo_snapshot (45 / 100) (46 / 100) 0)) (utc 500000) default_last_look_policy \<noteq> Inr []"
    by code_simp+
  then have "last_look_ok demo_order (demo_snapshot (45 / 100) (1 / 2) 0) (utc 500000) default_last_look_policy"
    "\<not> last_look_ok demo_order (demo_snapshot (45 / 100) (46 / 100) 0) (utc 500000) default_last_look_policy"
    by (auto simp: validate_last_look_Nil)
  with ret [of "1 / 2"] ret [of "46 / 100"] dec show ?thesis by metis
qed

end
