(* ===== verification/Allocation.thy ===== *)
theory Allocation
  imports AuditTrail
begin

text \<open>
  \<open>allocation/capital.py\<close>: capital reservations across sleeves and event groups, the sleeve registry
  and the equal-weight allocator. A clock reading and the sha256 of an audit payload (which holds
  the decimals as text) are arguments; so is \<open>str\<close> on a metadata value that is not a string.
\<close>

section \<open>Records\<close>

record capital_snapshot =
  cs_as_of :: datetime
  cs_total_capital :: decimal
  cs_allocated_capital :: decimal
  cs_currency :: string
  cs_audit :: audit_stamp

definition capital_snapshot_check :: "capital_snapshot \<Rightarrow> py_error option" where
  [record_defs]: "capital_snapshot_check s =
     first_error
       [require_aware_datetime (cs_as_of s) ''as_of'',
        require_non_negative_decimal (cs_total_capital s) ''total_capital'',
        require_non_negative_decimal (cs_allocated_capital s) ''allocated_capital'',
        require_currency (cs_currency s) ''currency'']"

record allocation_decision =
  ad_sleeve_id :: string
  ad_target_capital :: decimal
  ad_reason :: string
  ad_audit :: audit_stamp

definition allocation_decision_check :: "allocation_decision \<Rightarrow> py_error option" where
  [record_defs]: "allocation_decision_check d =
     first_error
       [require_non_empty (ad_sleeve_id d) ''sleeve_id'',
        require_non_negative_decimal (ad_target_capital d) ''target_capital'',
        require_non_empty (ad_reason d) ''reason'']"

record portfolio_reservation =
  pr_client_order_id :: string
  pr_sleeve_id :: string
  pr_event_group_id :: string
  pr_amount :: decimal
  pr_created_at :: datetime
  pr_audit :: audit_stamp

definition portfolio_reservation_check :: "portfolio_reservation \<Rightarrow> py_error option" where
  [record_defs]: "portfolio_reservation_check r =
     first_error
       [require_non_empty (pr_client_order_id r) ''client_order_id'',
        require_non_empty (pr_sleeve_id r) ''sleeve_id'',
        require_non_empty (pr_event_group_id r) ''event_group_id'',
        require_positive_decimal (pr_amount r) ''amount'',
        require_aware_datetime (pr_created_at r) ''created_at'']"

datatype intent_outcome = OUT_ACCEPTED | OUT_FILLED | OUT_CANCELED | OUT_REJECTED | OUT_EXPIRED

definition intent_outcome_of :: "string \<Rightarrow> intent_outcome result" where
  "intent_outcome_of s =
     (if s = ''accepted'' then Inr OUT_ACCEPTED
      else if s = ''filled'' then Inr OUT_FILLED
      else if s = ''canceled'' then Inr OUT_CANCELED
      else if s = ''rejected'' then Inr OUT_REJECTED
      else if s = ''expired'' then Inr OUT_EXPIRED
      else Inl (ValueError ''not a valid IntentOutcome''))"

section \<open>The portfolio risk allocator\<close>

record portfolio_allocator =
  pa_total_capital :: decimal
  pa_currency :: string
  sleeve_budgets :: "(string, decimal) dict"
  group_budgets :: "(string, decimal) dict"
  reservations :: "(string, portfolio_reservation) dict"

definition portfolio_allocator_check :: "portfolio_allocator \<Rightarrow> py_error option" where
  [record_defs]: "portfolio_allocator_check a =
     first_error
       ([require_positive_decimal (pa_total_capital a) ''total_capital'',
         require_currency (pa_currency a) ''currency'']
        @ concat (map (\<lambda>(sid, b). [require_non_empty sid ''sleeve_id'', require_non_negative_decimal b ''sleeve budget''])
             (sleeve_budgets a))
        @ concat (map (\<lambda>(gid, b). [require_non_empty gid ''event_group_id'', require_non_negative_decimal b ''group budget''])
             (group_budgets a)))"

definition mk_portfolio_allocator :: "portfolio_allocator \<Rightarrow> portfolio_allocator result" where
  "mk_portfolio_allocator a =
     validated (portfolio_allocator_check a)
       (a\<lparr>sleeve_budgets := sort_key fst (sleeve_budgets a), group_budgets := sort_key fst (group_budgets a)\<rparr>)"

definition amounts_where :: "(portfolio_reservation \<Rightarrow> bool) \<Rightarrow> portfolio_allocator \<Rightarrow> decimal" where
  "amounts_where P a = dsum (map pr_amount (filter P (dict_values (reservations a))))"

definition reserved_total :: "portfolio_allocator \<Rightarrow> decimal" where
  "reserved_total a = amounts_where (\<lambda>r. True) a"

definition reserved_for_sleeve :: "portfolio_allocator \<Rightarrow> string \<Rightarrow> decimal" where
  "reserved_for_sleeve a sid = amounts_where (\<lambda>r. pr_sleeve_id r = sid) a"

definition reserved_for_group :: "portfolio_allocator \<Rightarrow> string \<Rightarrow> decimal" where
  "reserved_for_group a gid = amounts_where (\<lambda>r. pr_event_group_id r = gid) a"

text \<open>\<open>str(raw)\<close> for a metadata value; \<open>str_other\<close> prints the values that are not strings.\<close>

definition py_str :: "(pyval \<Rightarrow> string) \<Rightarrow> pyval \<Rightarrow> string" where
  "py_str str_other v = (case v of PyStr s \<Rightarrow> s | _ \<Rightarrow> str_other v)"

definition truthy_opt :: "pyval option \<Rightarrow> bool" where
  "truthy_opt v = (case v of None \<Rightarrow> False | Some x \<Rightarrow> truthy x)"

definition event_group_id ::
  "(pyval \<Rightarrow> string) \<Rightarrow> intent_envelope \<Rightarrow> place_order \<Rightarrow> string option \<Rightarrow> string" where
  "event_group_id str_other env d explicit =
     (let from_decision = frozen_get (po_metadata d) ''event_group_id'';
          from_envelope = frozen_get (env_metadata env) ''event_group_id''
      in if explicit \<noteq> None \<and> explicit \<noteq> Some [] then the explicit
         else if truthy_opt from_decision then py_str str_other (the from_decision)
         else if truthy_opt from_envelope then py_str str_other (the from_envelope)
         else market_id (po_instrument_id d))"

definition budget_reasons :: "portfolio_allocator \<Rightarrow> string \<Rightarrow> string \<Rightarrow> decimal \<Rightarrow> string list" where
  "budget_reasons a sid gid amount =
     (if dadd (reserved_total a) amount > pa_total_capital a then [''portfolio_budget''] else [])
     @ (case dict_get (sleeve_budgets a) sid of
          None \<Rightarrow> [''sleeve_budget_missing'']
        | Some b \<Rightarrow> if dadd (reserved_for_sleeve a sid) amount > b then [''sleeve_budget''] else [])
     @ (case dict_get (group_budgets a) gid of
          None \<Rightarrow> []
        | Some b \<Rightarrow> if dadd (reserved_for_group a gid) amount > b then [''event_group_budget''] else [])"

definition alloc_now :: "datetime \<Rightarrow> datetime result" where
  "alloc_now now = validated (require_aware_datetime now ''allocator clock'') now"

definition new_reservation ::
  "string \<Rightarrow> datetime \<Rightarrow> intent_envelope \<Rightarrow> string \<Rightarrow> string \<Rightarrow> decimal \<Rightarrow> portfolio_reservation result" where
  "new_reservation digest now env coid gid amount =
     bind_result
       (audit_stamp_for digest (''portfolio-reservation:'' @ coid) ''portfolio_reservation'' ''allocation-v1'' now
          ''portfolio_risk_allocator'' [env_correlation_id env] None None) (\<lambda>stamp.
     let r = \<lparr>pr_client_order_id = coid, pr_sleeve_id = env_sleeve_id env, pr_event_group_id = gid, pr_amount = amount,
              pr_created_at = now, pr_audit = stamp\<rparr>
     in validated (portfolio_reservation_check r) r)"

definition reserve ::
  "(pyval \<Rightarrow> string) \<Rightarrow> string \<Rightarrow> datetime \<Rightarrow> intent_envelope \<Rightarrow> string option \<Rightarrow> portfolio_allocator
   \<Rightarrow> ((portfolio_reservation option \<times> string list) \<times> portfolio_allocator) result" where
  [step_defs]: "reserve str_other digest clock env explicit a =
     (case env_decision env of
        PlaceOrder d \<Rightarrow>
          if po_order_side d \<noteq> BUY then Inr ((None, []), a)
          else let amount = dmul (case po_price d of None \<Rightarrow> 1 | Some p \<Rightarrow> p) (po_quantity d)
               in if amount \<le> 0 then Inr ((None, []), a)
                  else case dict_get (reservations a) (po_client_order_id d) of
                    Some r \<Rightarrow> Inr ((Some r, []), a)
                  | None \<Rightarrow>
                      let gid = event_group_id str_other env d explicit;
                          reasons = budget_reasons a (env_sleeve_id env) gid amount
                      in if reasons \<noteq> [] then Inr ((None, reasons), a)
                         else bind_result (alloc_now clock) (\<lambda>now.
                              bind_result (new_reservation digest now env (po_client_order_id d) gid amount) (\<lambda>r.
                                Inr ((Some r, []),
                                     a\<lparr>reservations := dict_set (po_client_order_id d) r (reservations a)\<rparr>)))
      | _ \<Rightarrow> Inr ((None, []), a))"

definition release :: "string \<Rightarrow> portfolio_allocator \<Rightarrow> portfolio_reservation option \<times> portfolio_allocator" where
  [step_defs]: "release coid a =
     (dict_get (reservations a) coid, a\<lparr>reservations := dict_pop coid (reservations a)\<rparr>)"

definition on_intent_outcome ::
  "string \<Rightarrow> intent_outcome + string \<Rightarrow> portfolio_allocator \<Rightarrow> (portfolio_reservation option \<times> portfolio_allocator) result" where
  [step_defs]: "on_intent_outcome coid outcome a =
     bind_result (case outcome of Inl out \<Rightarrow> Inr out | Inr s \<Rightarrow> intent_outcome_of s) (\<lambda>out.
       if out \<in> {OUT_FILLED, OUT_CANCELED, OUT_REJECTED, OUT_EXPIRED} then Inr (release coid a) else Inr (None, a))"

section \<open>The sleeve registry\<close>

type_synonym sleeve_registry = "(string, sleeve_spec) dict"

definition register :: "sleeve_spec \<Rightarrow> sleeve_registry \<Rightarrow> sleeve_registry result" where
  [step_defs]: "register s reg =
     (case dict_get reg (sl_sleeve_id s) of
        None \<Rightarrow> Inr (dict_set (sl_sleeve_id s) s reg)
      | Some cur \<Rightarrow>
          if cur \<noteq> s then Inl (ValueError ''conflicting sleeve spec'') else Inr (dict_set (sl_sleeve_id s) s reg))"

definition new_registry :: "sleeve_spec list \<Rightarrow> sleeve_registry result" where
  "new_registry sleeves = fold_result register sleeves []"

definition registry_get :: "sleeve_registry \<Rightarrow> string \<Rightarrow> sleeve_spec result" where
  "registry_get reg sid = (case dict_get reg sid of None \<Rightarrow> Inl (KeyError ''sleeve not registered'') | Some s \<Rightarrow> Inr s)"

definition list_active :: "sleeve_registry \<Rightarrow> sleeve_spec list" where
  "list_active reg = sort_key sl_sleeve_id (dict_values reg)"

section \<open>The equal-weight allocator\<close>

record equal_weight_allocator =
  ew_total_capital :: decimal
  ew_currency :: string
  allocations :: "(string, decimal) dict"

definition equal_weight_allocator_check :: "equal_weight_allocator \<Rightarrow> py_error option" where
  [record_defs]: "equal_weight_allocator_check a =
     first_error
       [require_non_negative_decimal (ew_total_capital a) ''total_capital'', require_currency (ew_currency a) ''currency'']"

definition ew_now :: "datetime \<Rightarrow> datetime result" where
  "ew_now now = validated (check (is_aware now) (ValueError ''allocator clock must return timezone-aware datetimes'')) now"

definition ew_snapshot :: "string \<Rightarrow> datetime \<Rightarrow> equal_weight_allocator \<Rightarrow> capital_snapshot result" where
  "ew_snapshot digest clock a =
     bind_result (ew_now clock) (\<lambda>now.
     bind_result
       (audit_stamp_for digest (''capital-snapshot:'' @ isoformat now) ''capital_snapshot'' ''allocation-v1'' now
          ''equal_weight_allocator'' [] None None) (\<lambda>stamp.
     let s = \<lparr>cs_as_of = now, cs_total_capital = ew_total_capital a, cs_allocated_capital = dsum (dict_values (allocations a)),
              cs_currency = ew_currency a, cs_audit = stamp\<rparr>
     in validated (capital_snapshot_check s) s))"

definition ew_decision :: "(sleeve_spec \<Rightarrow> string) \<Rightarrow> datetime \<Rightarrow> decimal \<Rightarrow> sleeve_spec \<Rightarrow> allocation_decision result" where
  "ew_decision digest now base s =
     bind_result
       (audit_stamp_for (digest s) (''allocation-decision:'' @ sl_sleeve_id s @ '':'' @ isoformat now) ''allocation_decision''
          ''allocation-v1'' now ''equal_weight_allocator'' [sl_sleeve_id s] None None) (\<lambda>stamp.
     let d = \<lparr>ad_sleeve_id = sl_sleeve_id s, ad_target_capital = min base (capital_allocation s),
              ad_reason = ''equal_weight_capped_by_sleeve_allocation'', ad_audit = stamp\<rparr>
     in validated (allocation_decision_check d) d)"

definition propose ::
  "(sleeve_spec \<Rightarrow> string) \<Rightarrow> datetime \<Rightarrow> sleeve_spec list \<Rightarrow> equal_weight_allocator \<Rightarrow> allocation_decision list result" where
  "propose digest clock sleeves a =
     (let active = sort_key sl_sleeve_id sleeves
      in if active = [] then Inr []
         else if list_ex (\<lambda>s. sl_currency s \<noteq> ew_currency a) active
         then Inl (ValueError ''sleeve currency does not match allocator currency'')
         else bind_result (ew_now clock) (\<lambda>now.
              fold_result
                (\<lambda>s ds. bind_result (ew_decision digest now (ddiv (ew_total_capital a) (of_nat (length active))) s)
                          (\<lambda>d. Inr (ds @ [d])))
                active []))"

definition ew_apply :: "allocation_decision list \<Rightarrow> equal_weight_allocator \<Rightarrow> equal_weight_allocator" where
  [step_defs]: "ew_apply ds a =
     a\<lparr>allocations := sort_key fst (foldl (\<lambda>m d. dict_set (ad_sleeve_id d) (ad_target_capital d) m) (allocations a) ds)\<rparr>"

section \<open>Sums of reservations\<close>

text \<open>Leaving out non-negative terms does not increase a decimal sum, rounding included.\<close>

lemma foldl_dadd_filter_le:
  assumes "\<forall>x \<in> set xs. 0 \<le> f x" and "a \<le> b" and "dctx a = a"
  shows "foldl dadd a (map f (filter P xs)) \<le> foldl dadd b (map f xs)"
  using assms
proof (induction xs arbitrary: a b)
  case (Cons x xs)
  show ?case
  proof (cases "P x")
    case True
    have "dctx (dadd a (f x)) = dadd a (f x)" by (simp add: dadd_def)
    with Cons True dadd_mono [of a b "f x" "f x"] show ?thesis by simp
  next
    case False
    have "a \<le> dadd b (f x)" using dctx_ge_fix [OF Cons.prems(3), of "b + f x"] Cons.prems by (simp add: dadd_def)
    with Cons False show ?thesis by simp
  qed
qed simp

lemma dsum_filter_le: "\<forall>x \<in> set xs. 0 \<le> f x \<Longrightarrow> dsum (map f (filter P xs)) \<le> dsum (map f xs)"
  unfolding dsum_def by (rule foldl_dadd_filter_le) simp_all

lemma dsum_append_one: "dsum (xs @ [x]) = dadd (dsum xs) x"
  by (simp add: dsum_def)

text \<open>The invariant: every reservation is positive and the sums respect the budgets.\<close>

definition within_budgets :: "portfolio_allocator \<Rightarrow> bool" where
  "within_budgets a \<longleftrightarrow>
     list_all (\<lambda>(k, r). pr_client_order_id r = k \<and> 0 < pr_amount r \<and> dict_get (sleeve_budgets a) (pr_sleeve_id r) \<noteq> None) (reservations a) \<and>
     wf_dict (reservations a) \<and>
     reserved_total a \<le> pa_total_capital a \<and>
     (\<forall>sid b. dict_get (sleeve_budgets a) sid = Some b \<longrightarrow> 0 \<le> b \<and> reserved_for_sleeve a sid \<le> b) \<and>
     (\<forall>gid b. dict_get (group_budgets a) gid = Some b \<longrightarrow> 0 \<le> b \<and> reserved_for_group a gid \<le> b)"

lemma amounts_where_release:
  assumes "within_budgets a"
  shows "amounts_where P (snd (release coid a)) \<le> amounts_where P a"
proof -
  let ?vs = "filter (\<lambda>kr. P (snd kr)) (reservations a)"
  have "dsum (map (\<lambda>kr. pr_amount (snd kr)) (filter (\<lambda>kr. fst kr \<noteq> coid) ?vs)) \<le> dsum (map (\<lambda>kr. pr_amount (snd kr)) ?vs)"
    using assms by (intro dsum_filter_le) (auto simp: within_budgets_def list_all_iff)
  then show ?thesis
    by (simp add: amounts_where_def release_def dict_values_def dict_pop_def filter_map comp_def conj_commute)
qed

lemma amounts_where_reserve:
  assumes "dict_get (reservations a) coid = None"
  shows "amounts_where P (a\<lparr>reservations := dict_set coid r (reservations a)\<rparr>) =
    (if P r then dadd (amounts_where P a) (pr_amount r) else amounts_where P a)"
proof -
  have "coid \<notin> fst ` set (reservations a)" using assms by (simp add: map_of_eq_None_iff)
  then show ?thesis by (simp add: amounts_where_def dict_set_fresh dict_values_def dsum_append_one)
qed

lemma budget_reasons_Nil:
  "budget_reasons a sid gid amount = [] \<longleftrightarrow>
     dadd (reserved_total a) amount \<le> pa_total_capital a \<and>
     (\<exists>b. dict_get (sleeve_budgets a) sid = Some b \<and> dadd (reserved_for_sleeve a sid) amount \<le> b) \<and>
     (\<forall>b. dict_get (group_budgets a) gid = Some b \<longrightarrow> dadd (reserved_for_group a gid) amount \<le> b)"
  by (auto simp: budget_reasons_def not_less split: option.splits)

lemma within_budgets_release: "within_budgets a \<Longrightarrow> within_budgets (snd (release coid a))"
proof -
  assume ok: "within_budgets a"
  have le: "amounts_where P (snd (release coid a)) \<le> amounts_where P a" for P by (rule amounts_where_release [OF ok])
  have fields: "sleeve_budgets (snd (release coid a)) = sleeve_budgets a" "group_budgets (snd (release coid a)) = group_budgets a"
    "pa_total_capital (snd (release coid a)) = pa_total_capital a"
    "reservations (snd (release coid a)) = dict_pop coid (reservations a)" by (simp_all add: release_def)
  show ?thesis
    using ok le unfolding within_budgets_def fields reserved_total_def reserved_for_sleeve_def reserved_for_group_def
    by (auto simp: list_all_iff dict_pop_def intro!: le [THEN order_trans])
qed

lemma new_reservation_fields:
  assumes "new_reservation digest now env coid gid amount = Inr r"
  shows "pr_client_order_id r = coid \<and> pr_sleeve_id r = env_sleeve_id env \<and> pr_event_group_id r = gid \<and> pr_amount r = amount \<and> 0 < amount"
  using assms by (auto simp: new_reservation_def bind_result_Inr_iff Let_def portfolio_reservation_check_def)

lemma within_budgets_add:
  assumes ok: "within_budgets a" and fresh: "dict_get (reservations a) (pr_client_order_id r) = None" and pos: "0 < pr_amount r"
    and fits: "budget_reasons a (pr_sleeve_id r) (pr_event_group_id r) (pr_amount r) = []"
  shows "within_budgets (a\<lparr>reservations := dict_set (pr_client_order_id r) r (reservations a)\<rparr>)"
proof -
  have "pr_client_order_id r \<notin> fst ` set (reservations a)" using fresh by (simp add: map_of_eq_None_iff)
  then have set: "dict_set (pr_client_order_id r) r (reservations a) = reservations a @ [(pr_client_order_id r, r)]"
    by (rule dict_set_fresh)
  have wf: "wf_dict (dict_set (pr_client_order_id r) r (reservations a))" using ok by (simp add: within_budgets_def)
  have b: "dadd (reserved_total a) (pr_amount r) \<le> pa_total_capital a"
    "\<exists>b. dict_get (sleeve_budgets a) (pr_sleeve_id r) = Some b \<and> dadd (reserved_for_sleeve a (pr_sleeve_id r)) (pr_amount r) \<le> b"
    "\<forall>b. dict_get (group_budgets a) (pr_event_group_id r) = Some b \<longrightarrow> dadd (reserved_for_group a (pr_event_group_id r)) (pr_amount r) \<le> b"
    using fits by (auto simp: budget_reasons_Nil)
  show ?thesis
    using ok b pos wf unfolding within_budgets_def reserved_total_def reserved_for_sleeve_def reserved_for_group_def
      amounts_where_reserve [OF fresh]
    by (auto simp: set)
qed

text \<open>The branches of \<open>reserve\<close> that return: nothing to do, already reserved, refused, or a new reservation.\<close>

lemma reserve_cases:
  assumes "reserve str_other digest clock env explicit a = Inr ((res, reasons), a')"
  obtains (unchanged) "a' = a" "\<forall>r d. res = Some r \<longrightarrow> env_decision env = PlaceOrder d \<longrightarrow>
      reasons = [] \<and> dict_get (reservations a) (po_client_order_id d) = Some r"
  | (granted) d r where "env_decision env = PlaceOrder d" "dict_get (reservations a) (po_client_order_id d) = None"
      "res = Some r" "reasons = []" "0 < pr_amount r" "pr_client_order_id r = po_client_order_id d" "pr_sleeve_id r = env_sleeve_id env"
      "budget_reasons a (pr_sleeve_id r) (pr_event_group_id r) (pr_amount r) = []"
      "a' = a\<lparr>reservations := dict_set (po_client_order_id d) r (reservations a)\<rparr>"
proof (cases "env_decision env")
  case (PlaceOrder d)
  let ?amount = "dmul (case po_price d of None \<Rightarrow> 1 | Some p \<Rightarrow> p) (po_quantity d)"
  let ?gid = "event_group_id str_other env d explicit"
  note run = assms [unfolded reserve_def PlaceOrder strategy_decision.case Let_def]
  show ?thesis
  proof (cases "po_order_side d \<noteq> BUY \<or> ?amount \<le> 0 \<or> dict_get (reservations a) (po_client_order_id d) \<noteq> None
      \<or> budget_reasons a (env_sleeve_id env) ?gid ?amount \<noteq> []")
    case True
    with run have "a' = a" "\<forall>r. res = Some r \<longrightarrow> reasons = [] \<and> dict_get (reservations a) (po_client_order_id d) = Some r"
      by (auto split: if_splits option.splits)
    with PlaceOrder show ?thesis by (intro unchanged) auto
  next
    case False
    then have "bind_result (alloc_now clock) (\<lambda>now.
        bind_result (new_reservation digest now env (po_client_order_id d) ?gid ?amount) (\<lambda>r.
          Inr ((Some r, []), a\<lparr>reservations := dict_set (po_client_order_id d) r (reservations a)\<rparr>))) = Inr ((res, reasons), a')"
      using run by simp
    then obtain now r where n: "new_reservation digest now env (po_client_order_id d) ?gid ?amount = Inr r"
        and o: "res = Some r" "reasons = []" "a' = a\<lparr>reservations := dict_set (po_client_order_id d) r (reservations a)\<rparr>"
      unfolding bind_result_Inr_iff by blast
    from new_reservation_fields [OF n] o False show ?thesis using granted [OF PlaceOrder, of r] by simp
  qed
qed (use assms unchanged in \<open>auto simp: reserve_def\<close>)

lemma within_budgets_reserve [keeps]:
  assumes "reserve str_other digest clock env explicit a = Inr (r, a')" and "within_budgets a"
  shows "within_budgets a'"
proof -
  obtain res reasons where r: "r = (res, reasons)" by (cases r)
  from assms(1) [unfolded r] show ?thesis
  proof (cases rule: reserve_cases)
    case (granted d r)
    with within_budgets_add [OF assms(2), of r] show ?thesis by simp
  qed (simp add: assms(2))
qed

section \<open>Properties of the allocator\<close>

datatype alloc_call =
    ReserveCall string datetime intent_envelope "string option"
  | ReleaseCall string
  | OutcomeCall string "intent_outcome + string"

fun alloc_step :: "(pyval \<Rightarrow> string) \<Rightarrow> alloc_call \<Rightarrow> portfolio_allocator \<Rightarrow> portfolio_allocator result" where
  "alloc_step str_other (ReserveCall digest clock env explicit) a =
     bind_result (reserve str_other digest clock env explicit a) (\<lambda>(r, a'). Inr a')"
| "alloc_step str_other (ReleaseCall coid) a = Inr (snd (release coid a))"
| "alloc_step str_other (OutcomeCall coid outcome) a = bind_result (on_intent_outcome coid outcome a) (\<lambda>(r, a'). Inr a')"

lemma alloc_step_budgets [keeps]:
  assumes "alloc_step str_other call a = Inr a'" and "within_budgets a"
  shows "within_budgets a'"
proof (cases call)
  case (OutcomeCall coid outcome)
  with assms within_budgets_release [OF assms(2), of coid] show ?thesis
    by (auto simp: on_intent_outcome_def bind_result_Inr_iff split: if_splits)
qed (use assms within_budgets_reserve within_budgets_release in \<open>auto simp: bind_result_Inr_iff\<close>)

lemma new_allocator_budgets:
  assumes "mk_portfolio_allocator a = Inr a0" and "reservations a = []" and "distinct (map fst (sleeve_budgets a))"
    and "distinct (map fst (group_budgets a))"
  shows "within_budgets a0"
proof -
  have c: "portfolio_allocator_check a = None" and a0: "a0 = a\<lparr>sleeve_budgets := sort_key fst (sleeve_budgets a), group_budgets := sort_key fst (group_budgets a)\<rparr>"
    using assms(1) by (auto simp: mk_portfolio_allocator_def)
  have s: "\<forall>(k, b) \<in> set (sleeve_budgets a). 0 \<le> b" and g: "\<forall>(k, b) \<in> set (group_budgets a). 0 \<le> b"
    using c unfolding portfolio_allocator_check_def first_error_None_iff by (simp_all add: ball_Un case_prod_beta)
  have "0 < pa_total_capital a" using c by (simp add: portfolio_allocator_check_def)
  with s g show ?thesis
    unfolding within_budgets_def a0 using assms(2)
    by (auto simp: reserved_total_def reserved_for_sleeve_def reserved_for_group_def amounts_where_def dict_values_def dsum_def
        dest!: map_of_SomeD)
qed

text \<open>
  C30: Reservations respect every budget. From a validated allocator with no reservation, after any
  sequence of reserve, release and outcome calls the decimal sum of the reserved amounts is within
  the total capital, within the budget of each sleeve (every reservation belongs to a sleeve that
  has one) and within the budget of each event group that has one.
\<close>

theorem reservations_within_budgets:
  assumes "mk_portfolio_allocator a = Inr a0" and "reservations a = []" and "distinct (map fst (sleeve_budgets a))"
    and "distinct (map fst (group_budgets a))" and "fold_result (alloc_step str_other) calls a0 = Inr a'"
  shows "reserved_total a' \<le> pa_total_capital a'
    \<and> (\<forall>(k, r) \<in> set (reservations a'). \<exists>b. dict_get (sleeve_budgets a') (pr_sleeve_id r) = Some b \<and> reserved_for_sleeve a' (pr_sleeve_id r) \<le> b)
    \<and> (\<forall>gid b. dict_get (group_budgets a') gid = Some b \<longrightarrow> reserved_for_group a' gid \<le> b)"
proof -
  have "within_budgets a'"
    by (rule fold_result_invariant [OF assms(5)]) (use new_allocator_budgets [OF assms(1-4)] alloc_step_budgets in blast)+
  then show ?thesis by (fastforce simp: within_budgets_def list_all_iff)
qed

definition demo_buy :: "string \<Rightarrow> decimal \<Rightarrow> intent_envelope" where
  "demo_buy coid q =
     \<lparr>env_decision = PlaceOrder
        \<lparr>po_client_order_id = coid, po_instrument_id = \<lparr>iid_venue = KALSHI, market_id = ''RAIN'', outcome_id = None\<rparr>,
         po_outcome_side = YES, po_order_side = BUY, po_order_type = LIMIT, po_time_in_force = IOC, po_quantity = q,
         po_price = Some (1 / 2), po_expires_at = None, po_market_snapshot = None, po_reason = ''edge'',
         po_expected_edge_bps = None, po_priority = None, po_metadata = []\<rparr>,
      env_strategy_id = ''s'', env_sleeve_id = ''sl'', env_correlation_id = ''x'', emitted_at = utc 0,
      env_priority = DEFAULT_EXECUTION_PRIORITY, triggered_by_event_id = None, env_metadata = []\<rparr>"

definition demo_allocator :: portfolio_allocator where
  "demo_allocator =
     \<lparr>pa_total_capital = 100, pa_currency = ''USD'', sleeve_budgets = [(''sl'', 60)], group_budgets = [(''RAIN'', 40)], reservations = []\<rparr>"

definition demo_sha :: string where
  "demo_sha = replicate 64 CHR ''a''"

definition demo_alloc_calls :: "alloc_call list" where
  "demo_alloc_calls =
     [ReserveCall demo_sha (utc 1) (demo_buy ''o1'' 50) None, ReserveCall demo_sha (utc 2) (demo_buy ''o2'' 50) None,
      OutcomeCall ''o1'' (Inr ''filled''), ReserveCall demo_sha (utc 3) (demo_buy ''o3'' 80) None]"

theorem reservations_within_budgets_witness:
  "\<exists>a'. fold_result (alloc_step (\<lambda>v. [])) demo_alloc_calls demo_allocator = Inr a' \<and> reserved_total a' = 40
     \<and> reserved_total a' \<le> pa_total_capital a'"
proof -
  have m: "mk_portfolio_allocator demo_allocator = Inr demo_allocator" by code_simp
  have e: "reservations demo_allocator = []" "distinct (map fst (sleeve_budgets demo_allocator))"
    "distinct (map fst (group_budgets demo_allocator))" by code_simp+
  have v: "map_sum id (\<lambda>a. (reserved_total a, dict_keys (reservations a)))
      (fold_result (alloc_step (\<lambda>v. [])) demo_alloc_calls demo_allocator) = Inr (40, [''o3''])"
    by code_simp
  then obtain a' where a: "fold_result (alloc_step (\<lambda>v. [])) demo_alloc_calls demo_allocator = Inr a'" "reserved_total a' = 40"
    by (cases "fold_result (alloc_step (\<lambda>v. [])) demo_alloc_calls demo_allocator") auto
  from reservations_within_budgets [OF m e a(1)] a show ?thesis by blast
qed

text \<open>
  Reserving is idempotent per client order id. When a call returns a reservation, repeating it
  with any clock, digest or explicit group returns the same reservation and changes nothing; a call
  that returns none changes nothing either.
\<close>

theorem reserve_idempotent:
  assumes "reserve str_other digest clock env explicit a = Inr ((res, reasons), a')"
  shows "(case res of
            Some r \<Rightarrow> reasons = [] \<and> reserve str_other digest' clock' env explicit' a' = Inr ((Some r, []), a')
          | None \<Rightarrow> a' = a)"
proof (cases res)
  case None
  with assms show ?thesis by (cases rule: reserve_cases) auto
next
  case (Some r)
  obtain d where d: "env_decision env = PlaceOrder d" "po_order_side d = BUY"
      "\<not> dmul (case po_price d of None \<Rightarrow> 1 | Some p \<Rightarrow> p) (po_quantity d) \<le> 0"
    using assms Some by (cases "env_decision env") (auto simp: reserve_def Let_def split: if_splits)
  have "reasons = [] \<and> dict_get (reservations a') (po_client_order_id d) = Some r"
    using assms
  proof (cases rule: reserve_cases)
    case unchanged
    with Some d(1) show ?thesis by simp
  next
    case (granted d' r')
    with Some d(1) show ?thesis by simp
  qed
  with d Some show ?thesis by (simp add: reserve_def)
qed

theorem reserve_idempotent_witness:
  "\<exists>r a'. reserve (\<lambda>v. []) demo_sha (utc 1) (demo_buy ''o1'' 50) None demo_allocator = Inr ((Some r, []), a')
     \<and> reserve (\<lambda>v. []) demo_sha (utc 9) (demo_buy ''o1'' 50) (Some ''other'') a' = Inr ((Some r, []), a')"
proof -
  have "map_sum id (\<lambda>((res, rs), a). (res \<noteq> None, rs)) (reserve (\<lambda>v. []) demo_sha (utc 1) (demo_buy ''o1'' 50) None demo_allocator) = Inr (True, [])"
    by code_simp
  then obtain r a' where r: "reserve (\<lambda>v. []) demo_sha (utc 1) (demo_buy ''o1'' 50) None demo_allocator = Inr ((Some r, []), a')"
    by (cases "reserve (\<lambda>v. []) demo_sha (utc 1) (demo_buy ''o1'' 50) None demo_allocator") auto
  from reserve_idempotent [OF r, of demo_sha "utc 9" "Some ''other''"] r show ?thesis by auto
qed

section \<open>Equal weights\<close>

lemma fold_result_collect:
  assumes "fold_result (\<lambda>s ds. bind_result (f s) (\<lambda>d. Inr (ds @ [d]))) xs acc = Inr ds"
  shows "\<exists>es. ds = acc @ es \<and> list_all2 (\<lambda>s d. f s = Inr d) xs es"
  using assms
proof (induction xs arbitrary: acc)
  case (Cons x xs)
  then obtain d where d: "f x = Inr d" "fold_result (\<lambda>s ds. bind_result (f s) (\<lambda>d. Inr (ds @ [d]))) xs (acc @ [d]) = Inr ds"
    by (auto simp: bind_result_Inr_iff)
  from Cons.IH [OF d(2)] d(1) show ?case by fastforce
qed simp

lemma ew_decision_fields:
  "ew_decision digest now base s = Inr d \<Longrightarrow> ad_sleeve_id d = sl_sleeve_id s \<and> ad_target_capital d = min base (capital_allocation s)"
  by (auto simp: ew_decision_def bind_result_Inr_iff Let_def)

lemma propose_decisions:
  assumes "propose digest clock sleeves a = Inr ds"
  shows "list_all2 (\<lambda>s d. ad_sleeve_id d = sl_sleeve_id s \<and>
      ad_target_capital d = min (ddiv (ew_total_capital a) (of_nat (length sleeves))) (capital_allocation s))
      (sort_key sl_sleeve_id sleeves) ds"
proof (cases "sleeves = []")
  case True
  with assms show ?thesis by (simp add: propose_def)
next
  case False
  let ?f = "\<lambda>now. ew_decision digest now (ddiv (ew_total_capital a) (of_nat (length sleeves)))"
  from assms False obtain now where
    "fold_result (\<lambda>s ds. bind_result (?f now s) (\<lambda>d. Inr (ds @ [d]))) (sort_key sl_sleeve_id sleeves) [] = Inr ds"
    by (auto simp: propose_def Let_def bind_result_Inr_iff split: if_splits)
  from fold_result_collect [OF this] show ?thesis
    by (auto elim!: list_all2_mono dest: ew_decision_fields)
qed

lemma sum_targets_le: "list_all2 (\<lambda>s d. f d \<le> (b :: rat)) xs ds \<Longrightarrow> sum_list (map f ds) \<le> of_nat (length xs) * b"
  by (induction rule: list_all2_induct) (auto simp: algebra_simps)

text \<open>
  Equal weights stay within the capital. A proposal has one decision per sleeve in the order of
  the sleeve ids, no target exceeds the sleeve's own allocation, and the exact sum of the targets
  exceeds the total capital by at most the rounding of one division, half a unit in the 28th digit.
\<close>

theorem equal_weight_within_capital:
  assumes "propose digest clock sleeves a = Inr ds" and "0 \<le> ew_total_capital a"
  shows "map ad_sleeve_id ds = sort (map sl_sleeve_id sleeves)
    \<and> list_all2 (\<lambda>s d. ad_target_capital d \<le> capital_allocation s) (sort_key sl_sleeve_id sleeves) ds
    \<and> sum_list (map ad_target_capital ds) \<le> ew_total_capital a * (1 + 1 / (2 * 10 ^ 27))"
proof -
  let ?n = "of_nat (length sleeves) :: rat" and ?t = "ew_total_capital a"
  let ?base = "ddiv ?t ?n"
  note pd = propose_decisions [OF assms(1)]
  have "map ad_sleeve_id ds = map sl_sleeve_id (sort_key sl_sleeve_id sleeves)"
    using pd by (induction rule: list_all2_induct) auto
  also have "\<dots> = sort (map sl_sleeve_id sleeves)"
    by (rule properties_for_sort [symmetric]) (simp_all add: sorted_sort_key)
  finally have ids: "map ad_sleeve_id ds = sort (map sl_sleeve_id sleeves)" .
  have caps: "list_all2 (\<lambda>s d. ad_target_capital d \<le> capital_allocation s) (sort_key sl_sleeve_id sleeves) ds"
    using pd by (rule list_all2_mono) simp
  have "list_all2 (\<lambda>s d. ad_target_capital d \<le> ?base) (sort_key sl_sleeve_id sleeves) ds"
    using pd by (rule list_all2_mono) simp
  from sum_targets_le [OF this] have sum: "sum_list (map ad_target_capital ds) \<le> ?n * ?base" by simp
  have "?base \<le> ?t / ?n + (?t / ?n) / (2 * 10 ^ 27)"
    using dctx_error [of "?t / ?n"] assms(2) by (simp add: ddiv_def abs_le_iff)
  then have "?n * ?base \<le> ?n * (?t / ?n + (?t / ?n) / (2 * 10 ^ 27))" by (intro mult_left_mono) simp_all
  also have "\<dots> \<le> ?t * (1 + 1 / (2 * 10 ^ 27))" using assms(2) by (cases "sleeves = []") (simp_all add: field_simps)
  finally show ?thesis using ids caps sum by simp
qed

definition demo_sleeve :: "string \<Rightarrow> decimal \<Rightarrow> sleeve_spec" where
  "demo_sleeve sid c =
     \<lparr>sl_sleeve_id = sid, sl_strategy_id = ''s'', sl_strategy_version = ''1'', sl_venue = KALSHI, capital_allocation = c,
      sl_currency = ''USD'',
      sl_risk = \<lparr>max_order_notional = 1, max_position_notional = 1, max_daily_loss = 1, max_open_orders = 1, max_gross_exposure = 1,
        rp_currency = ''USD'', max_market_data_age_ms = 1, max_spread = 1, max_order_lifetime_ms = 1,
        allow_market_orders = False, allow_unbounded_gtc = False\<rparr>,
      sl_tags = []\<rparr>"

theorem equal_weight_within_capital_witness:
  "\<exists>ds. propose (\<lambda>s. demo_sha) (utc 0) [demo_sleeve ''b'' 30, demo_sleeve ''a'' 90] \<lparr>ew_total_capital = 100, ew_currency = ''USD'', allocations = []\<rparr> = Inr ds
     \<and> map ad_target_capital ds = [50, 30] \<and> sum_list (map ad_target_capital ds) \<le> 100 * (1 + 1 / (2 * 10 ^ 27))"
proof -
  let ?a = "\<lparr>ew_total_capital = 100, ew_currency = ''USD'', allocations = []\<rparr>"
  have "map_sum id (map ad_target_capital) (propose (\<lambda>s. demo_sha) (utc 0) [demo_sleeve ''b'' 30, demo_sleeve ''a'' 90] ?a) = Inr [50, 30]"
    by code_simp
  then obtain ds where ds: "propose (\<lambda>s. demo_sha) (utc 0) [demo_sleeve ''b'' 30, demo_sleeve ''a'' 90] ?a = Inr ds" "map ad_target_capital ds = [50, 30]"
    by (cases "propose (\<lambda>s. demo_sha) (utc 0) [demo_sleeve ''b'' 30, demo_sleeve ''a'' 90] ?a") auto
  from equal_weight_within_capital [OF ds(1)] ds show ?thesis by auto
qed

end
