(* ===== verification/Ledger.thy ===== *)
theory Ledger
  imports AuditTrail
begin

text \<open>
  \<open>ledger/accounting.py\<close>: the in-memory ledger store and the settlement accounting over a position
  snapshot. How \<open>f"{side}"\<close> prints an enum member differs between the Python versions the package
  supports, so the printer is an argument of \<open>finalize\<close>.
\<close>

section \<open>The ledger store\<close>

type_synonym ledger_store = "(ledger_entry \<times> audit_stamp) list"

definition ledger_append :: "ledger_entry \<Rightarrow> audit_stamp \<Rightarrow> ledger_store \<Rightarrow> ledger_store" where
  [step_defs]: "ledger_append entry audit entries = entries @ [(entry, audit)]"

definition read_entries :: "ledger_store \<Rightarrow> string \<Rightarrow> ledger_entry list result" where
  "read_entries entries sleeve_id =
     validated (require_non_empty sleeve_id ''sleeve_id'')
       (filter (\<lambda>e. led_sleeve_id e = sleeve_id) (map fst entries))"

section \<open>Settlements\<close>

record settlement_accounting =
  sa_sleeve_id :: string
  sa_currency :: string
  sa_positions :: "position list"
  finalized_settlements :: "string set"

definition settlement_accounting_check :: "settlement_accounting \<Rightarrow> py_error option" where
  [record_defs]: "settlement_accounting_check a =
     first_error [require_non_empty (sa_sleeve_id a) ''sleeve_id'', require_currency (sa_currency a) ''currency'']"

definition accrue :: "settlement_event \<Rightarrow> settlement_accounting \<Rightarrow> ledger_entry list" where
  "accrue st a = []"

definition settlement_id :: "settlement_event \<Rightarrow> string" where
  "settlement_id st =
     venue_value (iid_venue (set_instrument_id st)) @ '':'' @ market_id (set_instrument_id st) @ '':''
     @ isoformat (settled_at st) @ '':'' @ set_source st"

definition settlement_payout :: "settlement_event \<Rightarrow> position \<Rightarrow> decimal" where
  "settlement_payout st p =
     (if Some (pos_outcome_side p) = resolved_side st then dmul (pos_quantity p) (payout_per_contract st) else 0)"

definition settlement_entry ::
  "(outcome_side option \<Rightarrow> string) \<Rightarrow> settlement_accounting \<Rightarrow> settlement_event \<Rightarrow> position \<Rightarrow> ledger_entry" where
  "settlement_entry fmt a st p =
     \<lparr>entry_id = ''settlement:'' @ settlement_id st @ '':'' @ outcome_side_value (pos_outcome_side p),
      led_sleeve_id = sa_sleeve_id a, led_timestamp = settled_at st, led_kind = ''settlement_payout'',
      led_instrument_id = Some (set_instrument_id st), led_amount = settlement_payout st p,
      led_currency = sa_currency a, led_correlation_id = None, led_notes = ''resolved_side='' @ fmt (resolved_side st)\<rparr>"

text \<open>The id is recorded before the entries are built, so it stays recorded when one is invalid.\<close>

definition finalize ::
  "(outcome_side option \<Rightarrow> string) \<Rightarrow> settlement_event \<Rightarrow> settlement_accounting
   \<Rightarrow> ledger_entry list result \<times> settlement_accounting" where
  [step_defs]: "finalize fmt st a =
     (if settlement_id st \<in> finalized_settlements a then (Inr [], a)
      else (fold_result (\<lambda>p es. bind_result (mk_ledger_entry (settlement_entry fmt a st p)) (\<lambda>e. Inr (es @ [e])))
              (filter (\<lambda>p. pos_instrument_id p = set_instrument_id st) (sa_positions a)) [],
            a\<lparr>finalized_settlements := insert (settlement_id st) (finalized_settlements a)\<rparr>))"

section \<open>What a settlement pays\<close>

lemma settlement_entry_valid:
  "settlement_accounting_check a = None \<Longrightarrow> is_aware (settled_at st) \<Longrightarrow> mk_ledger_entry (settlement_entry fmt a st p) = Inr (settlement_entry fmt a st p)"
  by (simp add: settlement_accounting_check_def mk_ledger_entry_def ledger_entry_check_def settlement_entry_def)

lemma fold_result_map: "(\<And>x. x \<in> set xs \<Longrightarrow> f x = Inr (g x)) \<Longrightarrow>
    fold_result (\<lambda>x es. bind_result (f x) (\<lambda>e. Inr (es @ [e]))) xs acc = Inr (acc @ map g xs)"
  by (induction xs arbitrary: acc) auto


definition demo_settlement :: "string option \<Rightarrow> settlement_event" where
  "demo_settlement oid =
     \<lparr>set_instrument_id = \<lparr>iid_venue = KALSHI, market_id = ''CUP'', outcome_id = oid\<rparr>, resolved_side = Some YES,
      payout_per_contract = 1, set_currency = ''USD'', settled_at = utc 0, set_source = ''kalshi'', set_metadata = []\<rparr>"

definition demo_position :: "string option \<Rightarrow> outcome_side \<Rightarrow> decimal \<Rightarrow> position" where
  "demo_position oid side q =
     \<lparr>pos_instrument_id = \<lparr>iid_venue = KALSHI, market_id = ''CUP'', outcome_id = oid\<rparr>, pos_outcome_side = side, pos_quantity = q,
      pos_average_price = 1 / 2, pos_realized_pnl = 0, pos_unrealized_pnl = 0, pos_updated_at = utc 0\<rparr>"

definition demo_accounting :: settlement_accounting where
  "demo_accounting =
     \<lparr>sa_sleeve_id = ''sl'', sa_currency = ''USD'',
      sa_positions = [demo_position (Some ''A'') YES 10, demo_position (Some ''A'') NO 4, demo_position (Some ''B'') YES 7],
      finalized_settlements = {}\<rparr>"


text \<open>
  Settlements of two outcomes of one market are taken for the same one. The id under which a
  settlement is recorded leaves out the outcome id, so when the settlement of one outcome has been
  finalized, that of another outcome of the market with the same time and source pays nothing,
  although the documentation keys settlements by instrument.
\<close>

theorem settlement_outcomes_collide:
  assumes "finalize fmt (st\<lparr>set_instrument_id := iid\<lparr>outcome_id := x\<rparr>\<rparr>) a = (r, a')"
  shows "finalize fmt (st\<lparr>set_instrument_id := iid\<lparr>outcome_id := y\<rparr>\<rparr>) a' = (Inr [], a')"
proof -
  have "settlement_id (st\<lparr>set_instrument_id := iid\<lparr>outcome_id := x\<rparr>\<rparr>) = settlement_id (st\<lparr>set_instrument_id := iid\<lparr>outcome_id := y\<rparr>\<rparr>)"
    by (simp add: settlement_id_def)
  with assms show ?thesis by (auto simp: finalize_def split: if_splits)
qed

theorem settlement_outcomes_collide_witness:
  "\<exists>a'. snd (finalize (\<lambda>s. []) (demo_settlement (Some ''A'')) demo_accounting) = a'
     \<and> finalize (\<lambda>s. []) (demo_settlement (Some ''B'')) a' = (Inr [], a')
     \<and> demo_position (Some ''B'') YES 7 \<in> set (sa_positions demo_accounting)"
proof -
  let ?iid = "\<lparr>iid_venue = KALSHI, market_id = ''CUP'', outcome_id = None\<rparr>"
  have d: "demo_settlement x = (demo_settlement None)\<lparr>set_instrument_id := ?iid\<lparr>outcome_id := x\<rparr>\<rparr>" for x
    by (simp add: demo_settlement_def)
  obtain r a' where r: "finalize (\<lambda>s. []) (demo_settlement (Some ''A'')) demo_accounting = (r, a')" by fastforce
  have "finalize (\<lambda>s. []) (demo_settlement (Some ''B'')) a' = (Inr [], a')"
    using settlement_outcomes_collide [OF r [unfolded d [of "Some ''A''"]], of "Some ''B''"] by (simp only: d [of "Some ''B''"])
  with r show ?thesis by (simp add: demo_accounting_def)
qed

text \<open>Entries of one sleeve are read back in the order they were appended.\<close>

lemma read_after_append:
  "read_entries (ledger_append e au store) sid =
     (case read_entries store sid of Inl err \<Rightarrow> Inl err | Inr es \<Rightarrow> Inr (if led_sleeve_id e = sid then es @ [e] else es))"
  by (cases "sid = []") (auto simp: read_entries_def ledger_append_def require_non_empty_def)

end
