(* ===== verification/Portfolio.thy ===== *)
theory Portfolio
  imports Pnl RiskGate
begin

text \<open>
  \<open>runner/context.py\<close>: the in-process portfolio view of a paper or replay runner. It turns fills and
  private order updates into positions, cash, reservations and open orders, and hands the strategy
  a read-only context. Clock readings are arguments. The feature vector and the model runner it
  passes through to strategies are not part of the state here: no operation below reads them.
\<close>

section \<open>The provider\<close>

record portfolio =
  pf_strategy_id :: string
  pf_sleeve_id :: string
  pf_currency :: string
  pf_pnl :: pnl_tracker
  pf_open_orders :: "order list"
  pf_reservations :: "(string, decimal) dict"
  pf_cash :: "(string, cash_balance) dict"

definition zero_cash :: "string \<Rightarrow> datetime \<Rightarrow> cash_balance" where
  "zero_cash ccy t =
     \<lparr>cash_currency = ccy, cash_total = 0, cash_available = 0, cash_held = 0, cash_settling = 0, cash_updated_at = t\<rparr>"

definition new_portfolio :: "string \<Rightarrow> string \<Rightarrow> string \<Rightarrow> decimal \<Rightarrow> pnl_tracker \<Rightarrow> datetime \<Rightarrow> portfolio result" where
  "new_portfolio strategy sleeve ccy starting_cash pnl now =
     bind_result (mk_cash ((zero_cash ccy now)\<lparr>cash_total := starting_cash, cash_available := starting_cash\<rparr>)) (\<lambda>b.
       Inr \<lparr>pf_strategy_id = strategy, pf_sleeve_id = sleeve, pf_currency = ccy, pf_pnl = pnl, pf_open_orders = [],
            pf_reservations = [], pf_cash = [(ccy, b)]\<rparr>)"

text \<open>\<open>self.cash_by_ccy[ccy]\<close>, which raises when the currency has no balance, and its update.\<close>

definition cash_of :: "portfolio \<Rightarrow> string \<Rightarrow> cash_balance result" where
  "cash_of p ccy = (case dict_get (pf_cash p) ccy of None \<Rightarrow> Inl (KeyError ccy) | Some b \<Rightarrow> Inr b)"

definition set_cash :: "string \<Rightarrow> cash_balance \<Rightarrow> portfolio \<Rightarrow> portfolio result" where
  "set_cash ccy b p = bind_result (mk_cash b) (\<lambda>b'. Inr (p\<lparr>pf_cash := dict_set ccy b' (pf_cash p)\<rparr>))"

section \<open>Reservations\<close>

definition pf_reserve :: "string \<Rightarrow> decimal \<Rightarrow> datetime \<Rightarrow> portfolio \<Rightarrow> (string list \<times> portfolio) result" where
  [step_defs]: "pf_reserve coid notional t p =
     (if notional \<le> 0 then Inr ([], p)
      else bind_result (cash_of p (pf_currency p)) (\<lambda>b.
        if cash_available b < notional then Inr ([''available_cash''], p)
        else bind_result
          (set_cash (pf_currency p)
            (b\<lparr>cash_available := dsub (cash_available b) notional, cash_held := dadd (cash_held b) notional, cash_updated_at := t\<rparr>)
            (p\<lparr>pf_reservations := dict_set coid notional (pf_reservations p)\<rparr>))
          (\<lambda>p'. Inr ([], p'))))"

definition reserve_intent :: "intent_envelope \<Rightarrow> portfolio \<Rightarrow> (string list \<times> portfolio) result" where
  [step_defs]: "reserve_intent env p =
     (case env_decision env of
        PlaceOrder d \<Rightarrow>
          if po_order_side d \<noteq> BUY then Inr ([], p)
          else if dict_get (pf_reservations p) (po_client_order_id d) \<noteq> None then Inr ([], p)
          else pf_reserve (po_client_order_id d) (order_notional d) (emitted_at env) p
      | _ \<Rightarrow> Inr ([], p))"

definition release_cash :: "decimal \<Rightarrow> datetime \<Rightarrow> portfolio \<Rightarrow> portfolio result" where
  [step_defs]: "release_cash amount t p =
     bind_result (cash_of p (pf_currency p)) (\<lambda>b.
       set_cash (pf_currency p)
         (b\<lparr>cash_available := dadd (cash_available b) amount, cash_held := max (dsub (cash_held b) amount) 0, cash_updated_at := t\<rparr>) p)"

definition release_order :: "string \<Rightarrow> datetime \<Rightarrow> portfolio \<Rightarrow> (decimal \<times> portfolio) result" where
  [step_defs]: "release_order coid t p =
     (let remaining = dict_get_default (pf_reservations p) coid 0;
          p1 = p\<lparr>pf_reservations := dict_pop coid (pf_reservations p)\<rparr>
      in if remaining \<le> 0 then Inr (0, p1)
         else bind_result (release_cash remaining t p1) (\<lambda>p2. Inr (remaining, p2)))"

definition consume_reservation :: "string \<Rightarrow> decimal \<Rightarrow> datetime \<Rightarrow> portfolio \<Rightarrow> (decimal \<times> portfolio) result" where
  [step_defs]: "consume_reservation coid amount t p =
     (let reserved = dict_get_default (pf_reservations p) coid 0;
          consumed = min reserved amount;
          remaining = dsub reserved consumed
      in if consumed \<le> 0 then Inr (0, p)
         else bind_result (cash_of p (pf_currency p)) (\<lambda>b.
              bind_result
                (set_cash (pf_currency p)
                  (b\<lparr>cash_held := max (dsub (cash_held b) consumed) 0, cash_updated_at := t\<rparr>)
                  (p\<lparr>pf_reservations := (if remaining > 0 then dict_set coid remaining (pf_reservations p)
                                          else dict_pop coid (pf_reservations p))\<rparr>))
                (\<lambda>p'. Inr (consumed, p'))))"

definition ensure_order_reservation :: "order \<Rightarrow> portfolio \<Rightarrow> portfolio result" where
  [step_defs]: "ensure_order_reservation r p =
     (case ord_price r of
        None \<Rightarrow> Inr p
      | Some price \<Rightarrow>
          let remaining_qty = dsub (ord_quantity r) (ord_filled_quantity r);
              needed = dmul price remaining_qty;
              current = dict_get_default (pf_reservations p) (ord_client_order_id r) 0
          in if ord_order_side r \<noteq> BUY \<or> remaining_qty \<le> 0 \<or> current \<ge> needed then Inr p
             else bind_result (pf_reserve (ord_client_order_id r) (dsub needed current) (ord_updated_at r) p)
                    (\<lambda>(reasons, p'). Inr p'))"

section \<open>Fills, order updates and events\<close>

definition fill_notional :: "fill \<Rightarrow> decimal" where
  "fill_notional f = dmul (f_price f) (f_quantity f)"

definition apply_fill_cash :: "fill \<Rightarrow> portfolio \<Rightarrow> portfolio result" where
  [step_defs]: "apply_fill_cash f p =
     bind_result (case dict_get (pf_cash p) (fee_currency f) of
                    None \<Rightarrow> mk_cash (zero_cash (fee_currency f) (filled_at f)) | Some b \<Rightarrow> Inr b) (\<lambda>b0.
     let notional = fill_notional f
     in bind_result (if f_order_side f = BUY then consume_reservation (f_client_order_id f) notional (filled_at f) p
                     else Inr (0, p)) (\<lambda>(reserved_used, p1).
        let b = (if f_order_side f = BUY then dict_get_default (pf_cash p1) (fee_currency f) b0 else b0);
            delta = (if f_order_side f = BUY then dneg (dadd notional (fee_amount f)) else dsub notional (fee_amount f));
            available_delta = (if f_order_side f = BUY \<and> reserved_used > 0 then dneg (fee_amount f) else delta)
        in set_cash (fee_currency f)
             \<lparr>cash_currency = fee_currency f, cash_total = max (dadd (cash_total b) delta) 0,
              cash_available = max (dadd (cash_available b) available_delta) 0, cash_held = cash_held b,
              cash_settling = cash_settling b, cash_updated_at = filled_at f\<rparr> p1))"

definition pf_on_fill :: "fill \<Rightarrow> portfolio \<Rightarrow> portfolio result" where
  [step_defs]: "pf_on_fill f p =
     bind_result (pnl_on_fill f (pf_pnl p)) (\<lambda>t. apply_fill_cash f (p\<lparr>pf_pnl := t\<rparr>))"

definition is_terminal :: "order_status \<Rightarrow> bool" where
  "is_terminal s \<longleftrightarrow> s \<in> {FILLED, CANCELED, REJECTED, EXPIRED}"

definition upsert_open_order :: "order \<Rightarrow> portfolio \<Rightarrow> portfolio" where
  [step_defs]: "upsert_open_order r p =
     p\<lparr>pf_open_orders := filter (\<lambda>e. ord_client_order_id e \<noteq> ord_client_order_id r) (pf_open_orders p)
         @ (if is_terminal (ord_status r) then [] else [r])\<rparr>"

definition on_order_update :: "order \<Rightarrow> portfolio \<Rightarrow> portfolio result" where
  [step_defs]: "on_order_update r p =
     (let p1 = upsert_open_order r p
      in if is_terminal (ord_status r)
         then bind_result (release_order (ord_client_order_id r) (ord_updated_at r) p1) (\<lambda>(x, p2). Inr p2)
         else ensure_order_reservation r p1)"

definition set_open_orders :: "order list \<Rightarrow> portfolio \<Rightarrow> portfolio" where
  [step_defs]: "set_open_orders orders p = p\<lparr>pf_open_orders := orders\<rparr>"

fun pf_on_event :: "normalized_event \<Rightarrow> portfolio \<Rightarrow> portfolio result" where
  "pf_on_event (OwnFillEvent eid f prov) p = pf_on_fill f p"
| "pf_on_event (OwnOrderUpdateEvent eid r prov) p = on_order_update r p"
| "pf_on_event (OwnOrderRejectEvent eid rej prov) p =
     bind_result (release_order (rej_client_order_id rej) (rejected_at rej) p) (\<lambda>(x, p1).
       Inr (p1\<lparr>pf_open_orders := filter (\<lambda>r. ord_client_order_id r \<noteq> rej_client_order_id rej) (pf_open_orders p1)\<rparr>))"
| "pf_on_event e p = bind_result (pnl_on_event e (pf_pnl p)) (\<lambda>t. Inr (p\<lparr>pf_pnl := t\<rparr>))"

section \<open>The context\<close>

definition portfolio_exposure :: "portfolio \<Rightarrow> position list \<Rightarrow> datetime \<Rightarrow> exposure result" where
  "portfolio_exposure p ps now =
     (let n = dsum (map (\<lambda>q. dmul (pos_quantity q) (pos_average_price q)) ps);
          e = \<lparr>exp_sleeve_id = pf_sleeve_id p, exp_currency = pf_currency p, exp_gross_notional = n, exp_net_notional = n,
               exp_long_notional = n, exp_short_notional = 0, exp_updated_at = now\<rparr>
      in validated (exposure_check e) e)"

text \<open>
  \<open>StatefulContext\<close>: the positions, the cash by currency (zero for a currency without a balance),
  the exposure and the open orders at the time of the reading.
\<close>

definition portfolio_context :: "datetime \<Rightarrow> portfolio \<Rightarrow> strategy_view result" where
  "portfolio_context now p =
     bind_result (pnl_positions (pf_pnl p) now) (\<lambda>ps.
     bind_result (portfolio_exposure p ps now) (\<lambda>e.
       Inr \<lparr>cx_now = now, cx_positions = ps, cx_open_orders = pf_open_orders p, cx_exposure = Some e,
            cx_cash = (\<lambda>ccy. dict_get_default (pf_cash p) ccy (zero_cash ccy now))\<rparr>))"

definition context_position :: "strategy_view \<Rightarrow> instrument_id \<Rightarrow> outcome_side \<Rightarrow> position option" where
  "context_position cx iid side =
     find (\<lambda>q. pos_instrument_id q = iid \<and> pos_outcome_side q = side) (cx_positions cx)"

section \<open>Balanced books\<close>

text \<open>
  The cash of the portfolio's currency is what is available plus what is held for orders, and what is
  held is the sum of the reservations. The amounts are on a grid of \<open>10\<^sup>-\<^sup>8\<close>, so that the decimal
  arithmetic on them is exact.
\<close>

definition reserved_sum :: "portfolio \<Rightarrow> rat" where
  "reserved_sum p = sum_list (map snd (pf_reservations p))"

definition books_balanced :: "portfolio \<Rightarrow> bool" where
  "books_balanced p \<longleftrightarrow>
     wf_dict (pf_reservations p) \<and> list_all (\<lambda>(k, x). 0 < x \<and> on_grid 8 x) (pf_reservations p) \<and>
     (case dict_get (pf_cash p) (pf_currency p) of
        None \<Rightarrow> False
      | Some b \<Rightarrow> cash_currency b = pf_currency p \<and> cash_available b + cash_held b = cash_total b \<and>
          cash_held b = reserved_sum p \<and> 0 \<le> cash_available b \<and> on_grid 8 (cash_total b) \<and> on_grid 8 (cash_available b))"

lemma books_balancedE:
  assumes "books_balanced p"
  obtains b where "dict_get (pf_cash p) (pf_currency p) = Some b" "cash_currency b = pf_currency p"
    "cash_available b + cash_held b = cash_total b"
    "cash_held b = reserved_sum p" "0 \<le> cash_available b" "0 \<le> cash_held b" "cash_held b \<le> cash_total b"
    "cash_available b \<le> cash_total b" "on_grid 8 (cash_total b)" "on_grid 8 (cash_available b)" "on_grid 8 (cash_held b)"
proof -
  from assms obtain b where b: "dict_get (pf_cash p) (pf_currency p) = Some b" "cash_currency b = pf_currency p"
      "cash_available b + cash_held b = cash_total b" "cash_held b = reserved_sum p" "0 \<le> cash_available b"
      "on_grid 8 (cash_total b)" "on_grid 8 (cash_available b)"
    by (auto simp: books_balanced_def split: option.splits)
  have "0 \<le> reserved_sum p"
    unfolding reserved_sum_def
    by (rule sum_list_nonneg_map) (use assms in \<open>force simp: books_balanced_def list_all_iff\<close>)
  then have h: "0 \<le> cash_held b" "cash_held b \<le> cash_total b" "cash_available b \<le> cash_total b" using b by auto
  have "cash_held b = cash_total b - cash_available b" using b(3) by simp
  then have "on_grid 8 (cash_held b)" using on_grid_between [OF b(6,7,5) h(3)] by simp
  with b h show ?thesis using that by blast
qed

lemma dadd_within:
  assumes "on_grid k x" and "on_grid k y" and "0 \<le> x" and "0 \<le> y" and "x + y \<le> t" and "on_grid k t"
  shows "dadd x y = x + y"
proof (rule dadd_grid [OF assms(1,2)])
  have "\<bar>x + y\<bar> * 10 ^ k \<le> \<bar>t\<bar> * 10 ^ k" using assms by (intro mult_right_mono) auto
  also have "\<dots> \<le> 10 ^ 28" using assms(6) by (simp add: on_grid_def)
  finally show "\<bar>x + y\<bar> * 10 ^ k \<le> 10 ^ 28" .
qed

lemma sum_dict_set:
  fixes d :: "('k, rat) dict"
  assumes "wf_dict d"
  shows "sum_list (map snd (dict_set k v d)) = sum_list (map snd d) - dict_get_default d k 0 + v"
  using assms
proof (induction d)
  case (Cons kv d)
  then have "wf_dict d" by (simp add: wf_dict_def)
  with Cons.IH show ?case by (cases "fst kv = k") (auto simp: dict_get_default_def)
qed (simp add: dict_get_default_def)

lemma sum_dict_pop:
  fixes d :: "('k, rat) dict"
  assumes "wf_dict d"
  shows "sum_list (map snd (dict_pop k d)) = sum_list (map snd d) - dict_get_default d k 0"
proof (cases "dict_get d k")
  case None
  then have "dict_pop k d = d" by (auto simp: dict_pop_def filter_id_conv map_of_eq_None_iff)
  with None show ?thesis by simp
next
  case (Some v)
  with sum_list_pop [OF assms Some, of "\<lambda>x. x"] show ?thesis by (simp add: comp_def)
qed

lemma reservation_range:
  assumes "books_balanced p"
  shows "0 \<le> dict_get_default (pf_reservations p) k 0" and "on_grid 8 (dict_get_default (pf_reservations p) k 0)"
    and "dict_get_default (pf_reservations p) k 0 \<le> reserved_sum p"
proof -
  have d: "wf_dict (pf_reservations p)" "\<forall>(k, x) \<in> set (pf_reservations p). 0 < x \<and> on_grid 8 x"
    using assms by (auto simp: books_balanced_def list_all_iff)
  then show "0 \<le> dict_get_default (pf_reservations p) k 0" and "on_grid 8 (dict_get_default (pf_reservations p) k 0)"
    by (fastforce simp: dict_get_default_def dest!: map_of_SomeD split: option.splits)+
  have "0 \<le> sum_list (map snd (dict_pop k (pf_reservations p)))"
    by (rule sum_list_nonneg_map) (use d(2) in \<open>force simp: dict_pop_def\<close>)
  then show "dict_get_default (pf_reservations p) k 0 \<le> reserved_sum p"
    using sum_dict_pop [OF d(1), of k] by (simp add: reserved_sum_def)
qed

lemma reserved_set: "list_all (\<lambda>(k, x). P x) d \<Longrightarrow> P v \<Longrightarrow> list_all (\<lambda>(k, x). P x) (dict_set k v d)"
  by (induction d) auto

lemma reserved_pop: "list_all P d \<Longrightarrow> list_all P (dict_pop k d)"
  by (auto simp: list_all_iff dict_pop_def)

text \<open>Replacing the balance and the reservations by balanced ones.\<close>

lemma books_balancedI:
  assumes "wf_dict (pf_reservations p)" and "list_all (\<lambda>(k, x). 0 < x \<and> on_grid 8 x) (pf_reservations p)"
    and "dict_get (pf_cash p) (pf_currency p) = Some b" and "cash_currency b = pf_currency p"
    and "cash_available b + cash_held b = cash_total b" and "cash_held b = reserved_sum p"
    and "0 \<le> cash_available b" and "on_grid 8 (cash_total b)" and "on_grid 8 (cash_available b)"
  shows "books_balanced p"
  using assms by (simp add: books_balanced_def)

lemma set_cash_Inr:
  "set_cash ccy b p = Inr p' \<longleftrightarrow> cash_balance_check b = None \<and> p' = p\<lparr>pf_cash := dict_set ccy b (pf_cash p)\<rparr>"
  by (auto simp: set_cash_def mk_cash_def bind_result_Inr_iff)

lemma pf_reserve_balanced:
  assumes bal: "books_balanced p" and fresh: "dict_get (pf_reservations p) coid = None" and g: "on_grid 8 notional"
    and r: "pf_reserve coid notional t p = Inr (reasons, p')"
  shows "books_balanced p'"
proof -
  from bal obtain b where b: "dict_get (pf_cash p) (pf_currency p) = Some b" "cash_currency b = pf_currency p"
      "cash_available b + cash_held b = cash_total b" "cash_held b = reserved_sum p" "0 \<le> cash_available b" "0 \<le> cash_held b"
      "on_grid 8 (cash_total b)" "on_grid 8 (cash_available b)" "on_grid 8 (cash_held b)"
    by (rule books_balancedE)
  show ?thesis
  proof (cases "notional \<le> 0 \<or> cash_available b < notional")
    case True
    with r b(1) have "p' = p" by (auto simp: pf_reserve_def cash_of_def split: if_splits)
    with bal show ?thesis by simp
  next
    case False
    let ?b = "b\<lparr>cash_available := dsub (cash_available b) notional, cash_held := dadd (cash_held b) notional, cash_updated_at := t\<rparr>"
    from r b(1) False have p': "p' = p\<lparr>pf_reservations := dict_set coid notional (pf_reservations p), pf_cash := dict_set (pf_currency p) ?b (pf_cash p)\<rparr>"
      by (auto simp: pf_reserve_def cash_of_def bind_result_Inr_iff set_cash_Inr)
    have av: "dsub (cash_available b) notional = cash_available b - notional" using False b g by simp
    have he: "dadd (cash_held b) notional = cash_held b + notional"
      by (rule dadd_within [of 8 _ _ "cash_total b"]) (use False b g in auto)
    have wf: "wf_dict (pf_reservations p)" and la: "list_all (\<lambda>(k, x). 0 < x \<and> on_grid 8 x) (pf_reservations p)"
      using bal by (auto simp: books_balanced_def)
    have ga: "on_grid 8 (cash_available b - notional)" using on_grid_between [OF b(8) g] False by simp
    have rs: "reserved_sum p' = reserved_sum p + notional"
      using sum_dict_set [OF wf, of coid notional] fresh p' by (simp add: reserved_sum_def)
    show ?thesis
      by (rule books_balancedI [where b = ?b])
        (use p' wf la b av he ga rs False g in \<open>auto intro!: reserved_set\<close>)
  qed
qed

lemma release_order_balanced:
  assumes bal: "books_balanced p" and r: "release_order coid t p = Inr (x, p')"
  shows "books_balanced p'"
proof -
  let ?x = "dict_get_default (pf_reservations p) coid 0"
  from bal obtain b where b: "dict_get (pf_cash p) (pf_currency p) = Some b" "cash_currency b = pf_currency p"
      "cash_available b + cash_held b = cash_total b" "cash_held b = reserved_sum p" "0 \<le> cash_available b" "0 \<le> cash_held b"
      "on_grid 8 (cash_total b)" "on_grid 8 (cash_available b)" "on_grid 8 (cash_held b)"
    by (rule books_balancedE)
  note x = reservation_range [OF bal, of coid]
  have wf: "wf_dict (pf_reservations p)" and la: "list_all (\<lambda>(k, x). 0 < x \<and> on_grid 8 x) (pf_reservations p)"
    using bal by (auto simp: books_balanced_def)
  note s = sum_dict_pop [OF wf, of coid]
  show ?thesis
  proof (cases "?x \<le> 0")
    case True
    with r have p': "p' = p\<lparr>pf_reservations := dict_pop coid (pf_reservations p)\<rparr>" by (simp add: release_order_def Let_def)
    show ?thesis
      by (rule books_balancedI [where b = b]) (use p' wf la b s x True in \<open>auto simp: reserved_sum_def intro!: reserved_pop\<close>)
  next
    case False
    let ?b = "b\<lparr>cash_available := dadd (cash_available b) ?x, cash_held := max (dsub (cash_held b) ?x) 0, cash_updated_at := t\<rparr>"
    from r b(1) False have p': "p' = p\<lparr>pf_reservations := dict_pop coid (pf_reservations p), pf_cash := dict_set (pf_currency p) ?b (pf_cash p)\<rparr>"
      by (auto simp: release_order_def release_cash_def cash_of_def Let_def bind_result_Inr_iff set_cash_Inr)
    have av: "dadd (cash_available b) ?x = cash_available b + ?x"
      by (rule dadd_within [of 8 _ _ "cash_total b"]) (use b x in auto)
    have he: "dsub (cash_held b) ?x = cash_held b - ?x" using b x by simp
    have eq: "cash_available b + ?x = cash_total b - (cash_held b - ?x)" using b(3) by simp
    have ga: "on_grid 8 (cash_available b + ?x)"
      unfolding eq by (rule on_grid_between [OF b(7) on_grid_between [OF b(9) x(2,1)]]) (use b x in auto)
    show ?thesis
      by (rule books_balancedI [where b = ?b])
        (use p' wf la b av he ga s x in \<open>auto simp: reserved_sum_def intro!: reserved_pop\<close>)
  qed
qed

text \<open>
  A fill whose cash effect the books can carry: a buy is covered by the reservation of its order and
  its fee by the available cash; a sell's fee by the available cash and the proceeds.
\<close>

definition covered_fill :: "fill \<Rightarrow> portfolio \<Rightarrow> bool" where
  "covered_fill f p \<longleftrightarrow>
     (case dict_get (pf_cash p) (pf_currency p) of
        None \<Rightarrow> False
      | Some b \<Rightarrow> fee_currency f = pf_currency p \<and> on_grid 8 (fill_notional f) \<and> 0 \<le> fill_notional f \<and> on_grid 8 (fee_amount f) \<and> 0 \<le> fee_amount f \<and>
          (if f_order_side f = BUY
           then 0 < fill_notional f \<and> fill_notional f \<le> dict_get_default (pf_reservations p) (f_client_order_id f) 0 \<and> fee_amount f \<le> cash_available b
           else fee_amount f \<le> fill_notional f \<and> on_grid 8 (cash_total b + fill_notional f)))"

lemma dneg_grid: "on_grid k x \<Longrightarrow> dneg x = - x"
  by (simp add: dneg_def dctx_grid [of k])

lemma dadd_minus_grid: "on_grid k x \<Longrightarrow> on_grid k y \<Longrightarrow> 0 \<le> y \<Longrightarrow> y \<le> x \<Longrightarrow> dadd x (- y) = x - y"
  using dsub_grid [of k x y] by (simp add: dadd_def dsub_def)

lemma consume_covered:
  assumes bal: "books_balanced p" and n: "0 < n" "on_grid 8 n" "n \<le> dict_get_default (pf_reservations p) coid 0"
    and b: "dict_get (pf_cash p) (pf_currency p) = Some b"
    and r: "consume_reservation coid n t p = Inr (used, p')"
  obtains rs where "used = n" "p' = p\<lparr>pf_reservations := rs, pf_cash := dict_set (pf_currency p) (b\<lparr>cash_held := cash_held b - n, cash_updated_at := t\<rparr>) (pf_cash p)\<rparr>"
    "wf_dict rs" "list_all (\<lambda>(k, x). 0 < x \<and> on_grid 8 x) rs" "sum_list (map snd rs) = reserved_sum p - n"
proof -
  let ?x = "dict_get_default (pf_reservations p) coid 0"
  let ?rs = "if dsub ?x n > 0 then dict_set coid (dsub ?x n) (pf_reservations p) else dict_pop coid (pf_reservations p)"
  note x = reservation_range [OF bal, of coid]
  have sub: "dsub ?x n = ?x - n" using n x by simp
  have mn: "min ?x n = n" using n(3) by simp
  from bal b have h: "cash_held b = reserved_sum p" "on_grid 8 (cash_held b)" by (auto elim!: books_balancedE)
  have hs: "max (dsub (cash_held b) n) 0 = cash_held b - n" using h n x by simp
  have wf: "wf_dict (pf_reservations p)" and la: "list_all (\<lambda>(k, x). 0 < x \<and> on_grid 8 x) (pf_reservations p)"
    using bal by (auto simp: books_balanced_def)
  have g: "on_grid 8 (?x - n)" using on_grid_between [OF x(2) n(2)] n by simp
  have p': "used = n \<and> p' = p\<lparr>pf_reservations := ?rs, pf_cash := dict_set (pf_currency p) (b\<lparr>cash_held := cash_held b - n, cash_updated_at := t\<rparr>) (pf_cash p)\<rparr>"
    using r [unfolded consume_reservation_def Let_def mn] b n(1) by (auto simp: cash_of_def hs bind_result_Inr_iff set_cash_Inr)
  have "sum_list (map snd ?rs) = reserved_sum p - n"
    using sum_dict_set [OF wf, of coid "?x - n"] sum_dict_pop [OF wf, of coid] sub n by (auto simp: reserved_sum_def)
  moreover have "list_all (\<lambda>(k, x). 0 < x \<and> on_grid 8 x) ?rs"
    using la sub g by (auto intro!: reserved_set reserved_pop)
  ultimately show ?thesis using that [of ?rs] p' wf by simp
qed

lemma buy_fill_balanced:
  assumes bal: "books_balanced p" and cov: "covered_fill f p" and side: "f_order_side f = BUY" and r: "apply_fill_cash f p = Inr p'"
  shows "books_balanced p'"
proof -
  let ?n = "fill_notional f" and ?e = "fee_amount f" and ?c = "pf_currency p"
  from bal obtain b where b: "dict_get (pf_cash p) (pf_currency p) = Some b" "cash_currency b = pf_currency p"
      "cash_available b + cash_held b = cash_total b" "cash_held b = reserved_sum p" "0 \<le> cash_available b" "0 \<le> cash_held b"
      "on_grid 8 (cash_total b)" "on_grid 8 (cash_available b)" "on_grid 8 (cash_held b)"
    by (rule books_balancedE)
  have c: "fee_currency f = ?c" "0 < ?n" "on_grid 8 ?n" "?n \<le> dict_get_default (pf_reservations p) (f_client_order_id f) 0"
    "on_grid 8 ?e" "0 \<le> ?e" "?e \<le> cash_available b"
    using cov b(1) side by (auto simp: covered_fill_def)
  note x = reservation_range [OF bal, of "f_client_order_id f"]
  have ne: "dadd ?n ?e = ?n + ?e" by (rule dadd_within [of 8 _ _ "cash_total b"]) (use b c x in auto)
  have gne: "on_grid 8 (?n + ?e)" by (rule on_grid_add [OF c(3,5)]) (use b c x in \<open>auto simp: on_grid_def intro!: order_trans [of _ "\<bar>cash_total b\<bar> * 10 ^ 8"] mult_right_mono\<close>)
  have tot: "max (dadd (cash_total b) (dneg (dadd ?n ?e))) 0 = cash_total b - (?n + ?e)"
    using dadd_minus_grid [OF b(7) gne] dneg_grid [OF gne] ne b c x by simp
  have av: "max (dadd (cash_available b) (dneg ?e)) 0 = cash_available b - ?e"
    using dadd_minus_grid [OF b(8) c(5)] dneg_grid [OF c(5)] c by simp
  from r side b(1) c(1) obtain used p1 where k: "consume_reservation (f_client_order_id f) ?n (filled_at f) p = Inr (used, p1)"
    by (auto simp: apply_fill_cash_def Let_def bind_result_Inr_iff)
  obtain rs where rs: "used = ?n" "p1 = p\<lparr>pf_reservations := rs, pf_cash := dict_set ?c (b\<lparr>cash_held := cash_held b - ?n, cash_updated_at := filled_at f\<rparr>) (pf_cash p)\<rparr>"
      "wf_dict rs" "list_all (\<lambda>(k, x). 0 < x \<and> on_grid 8 x) rs" "sum_list (map snd rs) = reserved_sum p - ?n"
    by (rule consume_covered [OF bal c(2,3,4) b(1) k])
  let ?b = "\<lparr>cash_currency = ?c, cash_total = cash_total b - (?n + ?e), cash_available = cash_available b - ?e, cash_held = cash_held b - ?n,
      cash_settling = cash_settling b, cash_updated_at = filled_at f\<rparr>"
  have p': "p' = p1\<lparr>pf_cash := dict_set ?c ?b (pf_cash p1)\<rparr>"
    using r side b(1) c(1,2) k rs(1,2) tot av by (auto simp: apply_fill_cash_def Let_def bind_result_Inr_iff set_cash_Inr)
  show ?thesis
    by (rule books_balancedI [where b = ?b])
      (use p' rs b c gne x in \<open>auto simp: reserved_sum_def intro!: on_grid_between\<close>)
qed

lemma sell_fill_balanced:
  assumes bal: "books_balanced p" and cov: "covered_fill f p" and side: "f_order_side f \<noteq> BUY" and r: "apply_fill_cash f p = Inr p'"
  shows "books_balanced p'"
proof -
  let ?n = "fill_notional f" and ?e = "fee_amount f" and ?c = "pf_currency p"
  from bal obtain b where b: "dict_get (pf_cash p) (pf_currency p) = Some b" "cash_currency b = pf_currency p"
      "cash_available b + cash_held b = cash_total b" "cash_held b = reserved_sum p" "0 \<le> cash_available b" "0 \<le> cash_held b"
      "on_grid 8 (cash_total b)" "on_grid 8 (cash_available b)" "on_grid 8 (cash_held b)"
    by (rule books_balancedE)
  have c: "fee_currency f = ?c" "0 \<le> ?n" "on_grid 8 ?n" "on_grid 8 ?e" "0 \<le> ?e" "?e \<le> ?n" "on_grid 8 (cash_total b + ?n)"
    using cov b(1) side by (auto simp: covered_fill_def)
  have d: "dsub ?n ?e = ?n - ?e" and gd: "on_grid 8 (?n - ?e)" using c on_grid_between [OF c(3,4)] by auto
  have tot: "dadd (cash_total b) (?n - ?e) = cash_total b + (?n - ?e)"
    by (rule dadd_within [OF b(7) gd _ _ _ c(7)]) (use b c in auto)
  have av: "dadd (cash_available b) (?n - ?e) = cash_available b + (?n - ?e)"
    by (rule dadd_within [OF b(8) gd _ _ _ c(7)]) (use b c in auto)
  have gt: "on_grid 8 (cash_total b + (?n - ?e))" using on_grid_between [OF c(7,4,5)] b c by (simp add: algebra_simps)
  have eq: "cash_available b + (?n - ?e) = (cash_total b + (?n - ?e)) - cash_held b" using b(3) by simp
  have ga: "on_grid 8 (cash_available b + (?n - ?e))" unfolding eq by (rule on_grid_between [OF gt b(9,6)]) (use b c in auto)
  let ?b = "\<lparr>cash_currency = ?c, cash_total = cash_total b + (?n - ?e), cash_available = cash_available b + (?n - ?e), cash_held = cash_held b,
      cash_settling = cash_settling b, cash_updated_at = filled_at f\<rparr>"
  have p': "p' = p\<lparr>pf_cash := dict_set ?c ?b (pf_cash p)\<rparr>"
    using r side b c d tot av by (auto simp: apply_fill_cash_def Let_def bind_result_Inr_iff set_cash_Inr)
  show ?thesis
    by (rule books_balancedI [where b = ?b])
      (use p' bal b c gt ga in \<open>auto simp: reserved_sum_def books_balanced_def\<close>)
qed

lemma pf_on_fill_balanced:
  assumes "books_balanced p" and "covered_fill f p" and "pf_on_fill f p = Inr p'"
  shows "books_balanced p'"
proof -
  from assms(3) obtain t where t: "apply_fill_cash f (p\<lparr>pf_pnl := t\<rparr>) = Inr p'" by (auto simp: pf_on_fill_def bind_result_Inr_iff)
  have "books_balanced (p\<lparr>pf_pnl := t\<rparr>)" "covered_fill f (p\<lparr>pf_pnl := t\<rparr>)"
    using assms(1,2) by (simp_all add: books_balanced_def covered_fill_def reserved_sum_def cong: if_cong option.case_cong)
  from buy_fill_balanced [OF this _ t] sell_fill_balanced [OF this _ t] show ?thesis by blast
qed

section \<open>Reachable portfolios\<close>

datatype portfolio_call =
    ReserveIntent intent_envelope
  | ReleaseOrder string datetime
  | PortfolioFill fill
  | PortfolioEvent normalized_event

fun portfolio_step :: "portfolio_call \<Rightarrow> portfolio \<Rightarrow> portfolio result" where
  "portfolio_step (ReserveIntent env) p = bind_result (reserve_intent env p) (\<lambda>(r, p'). Inr p')"
| "portfolio_step (ReleaseOrder coid t) p = bind_result (release_order coid t p) (\<lambda>(x, p'). Inr p')"
| "portfolio_step (PortfolioFill f) p = pf_on_fill f p"
| "portfolio_step (PortfolioEvent e) p = pf_on_event e p"

text \<open>An order update that does not top up an existing reservation, with an amount on the grid.\<close>

definition needs_topup :: "order \<Rightarrow> portfolio \<Rightarrow> bool" where
  "needs_topup r p =
     (case ord_price r of
        None \<Rightarrow> False
      | Some price \<Rightarrow>
          let remaining_qty = dsub (ord_quantity r) (ord_filled_quantity r)
          in ord_order_side r = BUY \<and> 0 < remaining_qty
             \<and> dict_get_default (pf_reservations p) (ord_client_order_id r) 0 < dmul price remaining_qty)"

definition plain_update :: "order \<Rightarrow> portfolio \<Rightarrow> bool" where
  "plain_update r p \<longleftrightarrow> is_terminal (ord_status r) \<or> \<not> needs_topup r p \<or>
     dict_get (pf_reservations p) (ord_client_order_id r) = None \<and>
       (case ord_price r of
          None \<Rightarrow> True
        | Some price \<Rightarrow> on_grid 8 (dsub (dmul price (dsub (ord_quantity r) (ord_filled_quantity r))) 0))"

fun covered_call :: "portfolio_call \<Rightarrow> portfolio \<Rightarrow> bool" where
  "covered_call (ReserveIntent env) p = (case env_decision env of PlaceOrder d \<Rightarrow> on_grid 8 (order_notional d) | _ \<Rightarrow> True)"
| "covered_call (ReleaseOrder coid t) p = True"
| "covered_call (PortfolioFill f) p = covered_fill f p"
| "covered_call (PortfolioEvent e) p =
     (case e of OwnFillEvent eid f prov \<Rightarrow> covered_fill f p | OwnOrderUpdateEvent eid r prov \<Rightarrow> plain_update r p | _ \<Rightarrow> True)"

inductive portfolio_reach :: "portfolio \<Rightarrow> portfolio \<Rightarrow> bool" for p0 :: portfolio where
  reach_start: "portfolio_reach p0 p0"
| reach_step: "portfolio_reach p0 p \<Longrightarrow> covered_call call p \<Longrightarrow> portfolio_step call p = Inr p' \<Longrightarrow> portfolio_reach p0 p'"

lemma books_balanced_cong:
  "pf_reservations p' = pf_reservations p \<Longrightarrow> pf_cash p' = pf_cash p \<Longrightarrow> pf_currency p' = pf_currency p \<Longrightarrow>
     books_balanced p' = books_balanced p"
  by (simp add: books_balanced_def reserved_sum_def cong: option.case_cong)

lemma reserve_intent_balanced:
  assumes "books_balanced p" and "covered_call (ReserveIntent env) p" and "reserve_intent env p = Inr (r, p')"
  shows "books_balanced p'"
proof (cases "env_decision env")
  case (PlaceOrder d)
  show ?thesis
  proof (cases "po_order_side d = BUY \<and> dict_get (pf_reservations p) (po_client_order_id d) = None")
    case True
    with assms(3) PlaceOrder have "pf_reserve (po_client_order_id d) (order_notional d) (emitted_at env) p = Inr (r, p')"
      by (simp add: reserve_intent_def)
    from pf_reserve_balanced [OF assms(1) _ _ this] True assms(2) PlaceOrder show ?thesis by simp
  next
    case False
    with assms PlaceOrder show ?thesis by (auto simp: reserve_intent_def split: if_splits)
  qed
qed (use assms in \<open>auto simp: reserve_intent_def\<close>)

lemma on_order_update_balanced:
  assumes "books_balanced p" and "plain_update r p" and "on_order_update r p = Inr p'"
  shows "books_balanced p'"
proof -
  let ?p = "upsert_open_order r p"
  have same: "pf_reservations ?p = pf_reservations p" "pf_cash ?p = pf_cash p" "pf_currency ?p = pf_currency p"
    by (simp_all add: upsert_open_order_def)
  have bal: "books_balanced ?p" using assms(1) books_balanced_cong [OF same] by simp
  show ?thesis
  proof (cases "is_terminal (ord_status r)")
    case True
    with assms(3) obtain x where "release_order (ord_client_order_id r) (ord_updated_at r) ?p = Inr (x, p')"
      by (auto simp: on_order_update_def Let_def bind_result_Inr_iff)
    from release_order_balanced [OF bal this] show ?thesis .
  next
    case False
    with assms(3) have e: "ensure_order_reservation r ?p = Inr p'" by (simp add: on_order_update_def Let_def)
    show ?thesis
    proof (cases "needs_topup r ?p")
      case F: False
      then have "p' = ?p" using e by (auto simp: ensure_order_reservation_def needs_topup_def Let_def split: option.splits if_splits)
      with bal show ?thesis by simp
    next
      case T: True
      then have "needs_topup r p" using same by (simp add: needs_topup_def cong: option.case_cong)
      with assms(2) False have fr: "dict_get (pf_reservations ?p) (ord_client_order_id r) = None"
        and g: "\<And>price. ord_price r = Some price \<Longrightarrow> on_grid 8 (dsub (dmul price (dsub (ord_quantity r) (ord_filled_quantity r))) 0)"
        using same by (auto simp: plain_update_def)
      obtain price where pr: "ord_price r = Some price" using T by (auto simp: needs_topup_def split: option.splits)
      from T e pr fr obtain rs where
        "pf_reserve (ord_client_order_id r) (dsub (dmul price (dsub (ord_quantity r) (ord_filled_quantity r))) 0) (ord_updated_at r) ?p = Inr (rs, p')"
        by (auto simp: ensure_order_reservation_def needs_topup_def Let_def bind_result_Inr_iff split: if_splits)
      from pf_reserve_balanced [OF bal fr g [OF pr] this] show ?thesis .
    qed
  qed
qed

lemma portfolio_step_balanced:
  assumes "books_balanced p" and "covered_call call p" and "portfolio_step call p = Inr p'"
  shows "books_balanced p'"
proof (cases call)
  case (ReserveIntent env)
  with assms reserve_intent_balanced [OF assms(1), of env] show ?thesis by (auto simp: bind_result_Inr_iff)
next
  case (ReleaseOrder coid t)
  with assms release_order_balanced [OF assms(1)] show ?thesis by (auto simp: bind_result_Inr_iff)
next
  case (PortfolioFill f)
  with assms pf_on_fill_balanced show ?thesis by auto
next
  case (PortfolioEvent e)
  have other: "books_balanced p'" if "bind_result (pnl_on_event e (pf_pnl p)) (\<lambda>t. Inr (p\<lparr>pf_pnl := t\<rparr>)) = Inr p'"
    using that assms(1) books_balanced_cong [of p' p] by (auto simp: bind_result_Inr_iff)
  show ?thesis
  proof (cases e)
    case (OwnFillEvent eid f prov)
    with assms PortfolioEvent pf_on_fill_balanced show ?thesis by auto
  next
    case (OwnOrderUpdateEvent eid r prov)
    with assms PortfolioEvent on_order_update_balanced show ?thesis by auto
  next
    case (OwnOrderRejectEvent eid rej prov)
    with assms PortfolioEvent obtain x p1 where "release_order (rej_client_order_id rej) (rejected_at rej) p = Inr (x, p1)"
        "p' = p1\<lparr>pf_open_orders := filter (\<lambda>r. ord_client_order_id r \<noteq> rej_client_order_id rej) (pf_open_orders p1)\<rparr>"
      by (auto simp: bind_result_Inr_iff)
    with release_order_balanced [OF assms(1)] books_balanced_cong [of p' p1] show ?thesis by auto
  qed (use assms(3) PortfolioEvent other in auto)
qed


section \<open>A concrete portfolio\<close>

definition pf_cash_row :: "decimal \<Rightarrow> decimal \<Rightarrow> decimal \<Rightarrow> cash_balance" where
  "pf_cash_row t av h =
     \<lparr>cash_currency = ''USD'', cash_total = t, cash_available = av, cash_held = h, cash_settling = 0, cash_updated_at = utc 0\<rparr>"

definition pf_demo :: portfolio where
  "pf_demo =
     \<lparr>pf_strategy_id = ''strategy'', pf_sleeve_id = ''sleeve'', pf_currency = ''USD'', pf_pnl = new_tracker None, pf_open_orders = [],
      pf_reservations = [], pf_cash = [(''USD'', pf_cash_row 100 100 0)]\<rparr>"

definition pf_buy :: intent_envelope where
  "pf_buy = (gate_envelope (PlaceOrder (gate_order BUY (1 / 2) 20)))\<lparr>emitted_at := utc 0\<rparr>"

definition pf_demo_reserved :: portfolio where
  "pf_demo_reserved = pf_demo\<lparr>pf_reservations := [(''c1'', 10)], pf_cash := [(''USD'', pf_cash_row 100 90 10)]\<rparr>"

definition pf_fill :: "decimal \<Rightarrow> fill" where
  "pf_fill q = (pnl_fill BUY (1 / 2) q (1 / 10))\<lparr>f_client_order_id := ''c1'', fee_currency := ''USD'', filled_at := utc 0\<rparr>"

lemma usd_ok: "str_upper ''USD'' = ''USD''"
  by code_simp

lemma cash_row_ok: "0 \<le> t \<Longrightarrow> 0 \<le> av \<Longrightarrow> 0 \<le> h \<Longrightarrow> mk_cash (pf_cash_row t av h) = Inr (pf_cash_row t av h)"
  by (simp add: mk_cash_def cash_balance_check_def pf_cash_row_def usd_ok)

lemma pf_demo_new: "new_portfolio ''strategy'' ''sleeve'' ''USD'' 100 (new_tracker None) (utc 0) = Inr pf_demo"
proof -
  have "(zero_cash ''USD'' (utc 0))\<lparr>cash_total := 100, cash_available := 100\<rparr> = pf_cash_row 100 100 0"
    by (simp add: zero_cash_def pf_cash_row_def)
  then show ?thesis by (simp add: new_portfolio_def cash_row_ok pf_demo_def)
qed

lemma pf_demo_reserve: "reserve_intent pf_buy pf_demo = Inr ([], pf_demo_reserved)"
proof -
  have n: "order_notional (gate_order BUY (1 / 2) 20) = 10" "dsub 100 10 = 90" "dadd 0 10 = 10" by code_simp+
  have d: "env_decision pf_buy = PlaceOrder (gate_order BUY (1 / 2) 20)" "emitted_at pf_buy = utc 0"
    by (simp_all add: pf_buy_def gate_envelope_def)
  have o: "po_order_side (gate_order BUY (1 / 2) 20) = BUY" "po_client_order_id (gate_order BUY (1 / 2) 20) = ''c1''"
    by (simp_all add: gate_order_def)
  have "(pf_cash_row 100 100 0)\<lparr>cash_available := 90, cash_held := 10, cash_updated_at := utc 0\<rparr> = pf_cash_row 100 90 10"
    "cash_available (pf_cash_row 100 100 0) = 100" "cash_held (pf_cash_row 100 100 0) = 0"
    by (simp_all add: pf_cash_row_def)
  then show ?thesis
    by (simp add: reserve_intent_def d o pf_reserve_def n cash_of_def pf_demo_def set_cash_def cash_row_ok pf_demo_reserved_def)
qed


text \<open>
  Reserving and releasing. Releasing the reservation a buy intent just made gives back exactly
  its notional: the reservations and the total, available and held cash are as before.
\<close>

theorem reserve_release_roundtrip:
  assumes "books_balanced p" and "reserve_intent env p = Inr ([], p1)" and "release_order (po_client_order_id d) t p1 = Inr (x, p2)"
    and "env_decision env = PlaceOrder d" and "po_order_side d = BUY" and "dict_get (pf_reservations p) (po_client_order_id d) = None"
    and "on_grid 8 (order_notional d)" and "0 < order_notional d"
  shows "x = order_notional d \<and> pf_reservations p2 = pf_reservations p
    \<and> map_option (\<lambda>b. (cash_total b, cash_available b, cash_held b)) (dict_get (pf_cash p2) (pf_currency p2))
      = map_option (\<lambda>b. (cash_total b, cash_available b, cash_held b)) (dict_get (pf_cash p) (pf_currency p))"
proof -
  let ?n = "order_notional d" and ?k = "po_client_order_id d"
  from assms(1) obtain b where b: "dict_get (pf_cash p) (pf_currency p) = Some b" "cash_available b + cash_held b = cash_total b"
      "0 \<le> cash_available b" "0 \<le> cash_held b" "on_grid 8 (cash_total b)" "on_grid 8 (cash_available b)" "on_grid 8 (cash_held b)"
    by (rule books_balancedE)
  from assms(2) assms(4-8) have "pf_reserve ?k ?n (emitted_at env) p = Inr ([], p1)" by (simp add: reserve_intent_def)
  with assms(8) b(1) have av: "?n \<le> cash_available b"
    and p1: "p1 = p\<lparr>pf_reservations := dict_set ?k ?n (pf_reservations p), pf_cash := dict_set (pf_currency p)
        (b\<lparr>cash_available := dsub (cash_available b) ?n, cash_held := dadd (cash_held b) ?n, cash_updated_at := emitted_at env\<rparr>) (pf_cash p)\<rparr>"
    by (auto simp: pf_reserve_def cash_of_def bind_result_Inr_iff set_cash_Inr split: if_splits)
  have a1: "dsub (cash_available b) ?n = cash_available b - ?n" using av assms(7,8) b by simp
  have h1: "dadd (cash_held b) ?n = cash_held b + ?n" by (rule dadd_within [of 8 _ _ "cash_total b"]) (use av assms(7,8) b in auto)
  have ga: "on_grid 8 (cash_available b - ?n)" using on_grid_between [OF b(6) assms(7)] av assms(8) by simp
  have eq: "cash_held b + ?n = cash_total b - (cash_available b - ?n)" using b(2) by simp
  have gh: "on_grid 8 (cash_held b + ?n)" unfolding eq by (rule on_grid_between [OF b(5) ga]) (use av assms(8) b in auto)
  have a2: "dadd (cash_available b - ?n) ?n = cash_available b"
    using dadd_within [OF ga assms(7) _ _ _ b(5)] av assms(8) b by simp
  have h2: "dsub (cash_held b + ?n) ?n = cash_held b" using dsub_grid [OF gh assms(7)] assms(8) b by simp
  have fresh: "?k \<notin> fst ` set (pf_reservations p)" using assms(6) by (simp add: map_of_eq_None_iff)
  then have pop: "dict_pop ?k (dict_set ?k ?n (pf_reservations p)) = pf_reservations p"
    by (force simp: dict_set_fresh dict_pop_def filter_id_conv)
  let ?b1 = "b\<lparr>cash_available := cash_available b - ?n, cash_held := cash_held b + ?n, cash_updated_at := emitted_at env\<rparr>"
  have f: "dict_get_default (pf_reservations p1) ?k 0 = ?n" "dict_get (pf_cash p1) (pf_currency p1) = Some ?b1" "pf_currency p1 = pf_currency p"
    "dict_pop ?k (pf_reservations p1) = pf_reservations p"
    unfolding p1 a1 h1 by (simp_all add: pop)
  have "release_order ?k t p1 = bind_result (release_cash ?n t (p1\<lparr>pf_reservations := pf_reservations p\<rparr>)) (\<lambda>p2. Inr (?n, p2))"
    unfolding release_order_def Let_def f using assms(8) by simp
  with assms(3) have "bind_result (release_cash ?n t (p1\<lparr>pf_reservations := pf_reservations p\<rparr>)) (\<lambda>p2. Inr (?n, p2)) = Inr (x, p2)" by simp
  then have q: "release_cash ?n t (p1\<lparr>pf_reservations := pf_reservations p\<rparr>) = Inr p2" "x = ?n"
    by (cases "release_cash ?n t (p1\<lparr>pf_reservations := pf_reservations p\<rparr>)"; simp)+
  from q(1) f(2,3) a2 h2 b(4) have "p2 = p1\<lparr>pf_reservations := pf_reservations p, pf_cash := dict_set (pf_currency p)
      (?b1\<lparr>cash_available := cash_available b, cash_held := cash_held b, cash_updated_at := t\<rparr>) (pf_cash p1)\<rparr>"
    by (simp add: release_cash_def cash_of_def set_cash_Inr)
  with q b(1) f(3) show ?thesis by simp
qed

theorem reserve_release_roundtrip_witness:
  "\<exists>p2. release_order ''c1'' (utc 5) pf_demo_reserved = Inr (10, p2) \<and> pf_reservations p2 = pf_reservations pf_demo"
proof -
  have b: "books_balanced pf_demo" by code_simp
  have d: "env_decision pf_buy = PlaceOrder (gate_order BUY (1 / 2) 20)" by (simp add: pf_buy_def gate_envelope_def)
  have k: "po_client_order_id (gate_order BUY (1 / 2) 20) = ''c1''" "po_order_side (gate_order BUY (1 / 2) 20) = BUY"
    "order_notional (gate_order BUY (1 / 2) 20) = 10" "on_grid 8 (10 :: rat)" "dict_get (pf_reservations pf_demo) ''c1'' = None"
    by code_simp+
  have "map_sum id fst (release_order ''c1'' (utc 5) pf_demo_reserved) = Inr 10" by code_simp
  then obtain p2 where p2: "release_order ''c1'' (utc 5) pf_demo_reserved = Inr (10, p2)"
    by (cases "release_order ''c1'' (utc 5) pf_demo_reserved") auto
  from reserve_release_roundtrip [OF b pf_demo_reserve _ d, unfolded k, OF p2] k p2 show ?thesis by simp
qed

text \<open>
  A fill larger than its reservation overstates the cash. When a buy's notional exceeds what is
  still reserved for its order, the shortfall leaves the total but not the available cash: the
  available and held cash then exceed the total by exactly the shortfall.
\<close>

theorem partly_reserved_fill_overstates_cash:
  assumes "books_balanced p" and "apply_fill_cash f p = Inr p'" and "f_order_side f = BUY" and "fee_currency f = pf_currency p"
    and "dict_get (pf_reservations p) (f_client_order_id f) = Some x" and "x < fill_notional f"
    and "on_grid 8 (fill_notional f)" and "on_grid 8 (fee_amount f)" and "0 \<le> fee_amount f"
    and "dict_get (pf_cash p) (pf_currency p) = Some b" and "fee_amount f \<le> cash_available b" and "fill_notional f + fee_amount f \<le> cash_total b"
  shows "\<exists>b'. dict_get (pf_cash p') (pf_currency p) = Some b' \<and>
    cash_available b' + cash_held b' = cash_total b' + (fill_notional f - x)"
proof -
  let ?n = "fill_notional f" and ?e = "fee_amount f" and ?c = "pf_currency p"
  from assms(1,10) have b: "cash_available b + cash_held b = cash_total b" "cash_held b = reserved_sum p"
      "on_grid 8 (cash_total b)" "on_grid 8 (cash_available b)" "on_grid 8 (cash_held b)" "0 \<le> cash_held b"
    by (auto elim!: books_balancedE)
  have x: "0 < x" "on_grid 8 x" "x \<le> cash_held b"
    using reservation_range [OF assms(1), of "f_client_order_id f"] assms(1,5) b(2)
    by (auto simp: books_balanced_def list_all_iff dest!: map_of_SomeD)
  have ne: "dadd ?n ?e = ?n + ?e" by (rule dadd_within [of 8 _ _ "cash_total b"]) (use b assms x in auto)
  have gne: "on_grid 8 (?n + ?e)"
    by (rule on_grid_add [OF assms(7,8)]) (use b assms x in \<open>auto simp: on_grid_def intro!: order_trans [of _ "\<bar>cash_total b\<bar> * 10 ^ 8"] mult_right_mono\<close>)
  have tot: "max (dadd (cash_total b) (dneg (dadd ?n ?e))) 0 = cash_total b - (?n + ?e)"
    using dadd_minus_grid [OF b(3) gne] dneg_grid [OF gne] ne b assms x by simp
  have av: "max (dadd (cash_available b) (dneg ?e)) 0 = cash_available b - ?e"
    using dadd_minus_grid [OF b(4) assms(8)] dneg_grid [OF assms(8)] assms by simp
  have held: "max (dsub (cash_held b) x) 0 = cash_held b - x" using b x by simp
  have mn: "min x ?n = x" using assms(6) by simp
  from assms(2) [unfolded apply_fill_cash_def Let_def consume_reservation_def, simplified assms(3,4,5,10) dict_get_default_simps(2) [OF assms(5)] mn, simplified]
  show ?thesis
    using x(1) assms(3,4,5,10) tot av held b(1) by (auto simp: cash_of_def bind_result_Inr_iff set_cash_Inr)
qed

theorem partly_reserved_fill_overstates_cash_witness:
  "\<exists>p' b'. apply_fill_cash (pf_fill 30) pf_demo_reserved = Inr p' \<and> dict_get (pf_cash p') ''USD'' = Some b'
     \<and> cash_available b' + cash_held b' = cash_total b' + 5"
proof -
  have bal: "books_balanced pf_demo_reserved" by code_simp
  have v: "f_order_side (pf_fill 30) = BUY" "fee_currency (pf_fill 30) = pf_currency pf_demo_reserved"
    "dict_get (pf_reservations pf_demo_reserved) (f_client_order_id (pf_fill 30)) = Some 10" "10 < fill_notional (pf_fill 30)"
    "on_grid 8 (fill_notional (pf_fill 30))" "on_grid 8 (fee_amount (pf_fill 30))" "0 \<le> fee_amount (pf_fill 30)"
    "dict_get (pf_cash pf_demo_reserved) (pf_currency pf_demo_reserved) = Some (pf_cash_row 100 90 10)"
    "fee_amount (pf_fill 30) \<le> cash_available (pf_cash_row 100 90 10)"
    "fill_notional (pf_fill 30) + fee_amount (pf_fill 30) \<le> cash_total (pf_cash_row 100 90 10)"
    "fill_notional (pf_fill 30) - 10 = 5" "pf_currency pf_demo_reserved = ''USD''"
    by code_simp+
  have "map_sum id (\<lambda>p. ()) (apply_fill_cash (pf_fill 30) pf_demo_reserved) = Inr ()" by code_simp
  then obtain p' where p': "apply_fill_cash (pf_fill 30) pf_demo_reserved = Inr p'"
    by (cases "apply_fill_cash (pf_fill 30) pf_demo_reserved") auto
  from partly_reserved_fill_overstates_cash [OF bal p' v(1-10)] p' v(11,12) show ?thesis by auto
qed

text \<open>
  An order update that tops up a reservation forgets the old one. When an open buy order needs
  more than is reserved for it, the update reserves the difference but stores the difference as the
  whole reservation: the cash held for orders then exceeds the sum of the reservations by the old
  amount, which no release gives back.
\<close>

theorem topup_forgets_reservation:
  assumes "books_balanced p" and "ensure_order_reservation r p = Inr p'" and "ord_price r = Some price" and "ord_order_side r = BUY"
    and "dict_get (pf_reservations p) (ord_client_order_id r) = Some x"
    and "needed = dmul price (dsub (ord_quantity r) (ord_filled_quantity r))" and "0 < dsub (ord_quantity r) (ord_filled_quantity r)"
    and "x < needed" and "on_grid 8 needed"
    and "dict_get (pf_cash p) (pf_currency p) = Some b" and "needed - x \<le> cash_available b"
  shows "dict_get (pf_reservations p') (ord_client_order_id r) = Some (needed - x) \<and>
    (\<exists>b'. dict_get (pf_cash p') (pf_currency p) = Some b' \<and> cash_held b' = reserved_sum p' + x)"
proof -
  from assms(1,10) have b: "cash_available b + cash_held b = cash_total b" "cash_held b = reserved_sum p"
      "on_grid 8 (cash_total b)" "on_grid 8 (cash_held b)" "0 \<le> cash_held b"
    by (auto elim!: books_balancedE)
  have x: "0 < x" "on_grid 8 x"
    using assms(1,5) by (auto simp: books_balanced_def list_all_iff dest!: map_of_SomeD)
  have wf: "wf_dict (pf_reservations p)" using assms(1) by (simp add: books_balanced_def)
  have sub: "dsub needed x = needed - x" using assms(8,9) x by simp
  have g: "on_grid 8 (needed - x)" using on_grid_between [OF assms(9) x(2)] assms(8) x by simp
  have he: "dadd (cash_held b) (needed - x) = cash_held b + (needed - x)"
    by (rule dadd_within [of 8 _ _ "cash_total b"]) (use b assms(8,11) g in auto)
  have "pf_reserve (ord_client_order_id r) (needed - x) (ord_updated_at r) p = Inr ([], p')"
    using assms(2,3,4,5,7,8,10,11) sub by (auto simp: ensure_order_reservation_def Let_def bind_result_Inr_iff assms(6) [symmetric] pf_reserve_def cash_of_def)
  then have p': "p' = p\<lparr>pf_reservations := dict_set (ord_client_order_id r) (needed - x) (pf_reservations p), pf_cash := dict_set (pf_currency p)
        (b\<lparr>cash_available := dsub (cash_available b) (needed - x), cash_held := cash_held b + (needed - x), cash_updated_at := ord_updated_at r\<rparr>) (pf_cash p)\<rparr>"
    using assms(8,10,11) he by (auto simp: pf_reserve_def cash_of_def bind_result_Inr_iff set_cash_Inr)
  with sum_dict_set [OF wf, of "ord_client_order_id r" "needed - x"] assms(5) b(2) show ?thesis
    by (simp add: reserved_sum_def)
qed

definition pf_order :: order where
  "pf_order = gate_open_order\<lparr>ord_client_order_id := ''c1'', ord_order_side := BUY, ord_price := Some (1 / 2), ord_quantity := 30,
     ord_filled_quantity := 0, ord_updated_at := utc 0\<rparr>"

theorem topup_forgets_reservation_witness:
  "\<exists>p'. ensure_order_reservation pf_order pf_demo_reserved = Inr p' \<and> dict_get (pf_reservations p') ''c1'' = Some 5
     \<and> (\<exists>b'. dict_get (pf_cash p') ''USD'' = Some b' \<and> cash_held b' = reserved_sum p' + 10)"
proof -
  have bal: "books_balanced pf_demo_reserved" by code_simp
  have v: "ord_price pf_order = Some (1 / 2)" "ord_order_side pf_order = BUY"
    "dict_get (pf_reservations pf_demo_reserved) (ord_client_order_id pf_order) = Some 10"
    "15 = dmul (1 / 2) (dsub (ord_quantity pf_order) (ord_filled_quantity pf_order))"
    "0 < dsub (ord_quantity pf_order) (ord_filled_quantity pf_order)" "(10 :: rat) < 15" "on_grid 8 (15 :: rat)"
    "dict_get (pf_cash pf_demo_reserved) (pf_currency pf_demo_reserved) = Some (pf_cash_row 100 90 10)"
    "15 - 10 \<le> cash_available (pf_cash_row 100 90 10)" "ord_client_order_id pf_order = ''c1''" "pf_currency pf_demo_reserved = ''USD''"
    by code_simp+
  have "map_sum id (\<lambda>p. ()) (ensure_order_reservation pf_order pf_demo_reserved) = Inr ()" by code_simp
  then obtain p' where p': "ensure_order_reservation pf_order pf_demo_reserved = Inr p'"
    by (cases "ensure_order_reservation pf_order pf_demo_reserved") auto
  from topup_forgets_reservation [OF bal p' v(1-9)] p' v(10,11) show ?thesis by auto
qed

end
