(* ===== verification/BookReplay.thy ===== *)
theory BookReplay
  imports Events BoundedDict "HOL-Library.Sublist"
begin

text \<open>
  \<open>replay/order_book.py\<close>: reconstruction of order books from quotes, trades and book snapshots. A
  ladder is a dictionary from price to quantity. The reconstructor hands out its mutable state
  objects; \<open>put_state\<close> writes a changed state back where the object is still stored.
\<close>

section \<open>Ladders\<close>

type_synonym ladder = "(decimal, decimal) dict"

record book_state =
  ld_yes_bids :: ladder
  ld_yes_asks :: ladder
  ld_no_bids :: ladder
  ld_no_asks :: ladder

definition empty_book :: book_state where
  "empty_book = \<lparr>ld_yes_bids = [], ld_yes_asks = [], ld_no_bids = [], ld_no_asks = []\<rparr>"

definition ladder_levels :: "bool \<Rightarrow> ladder \<Rightarrow> order_book_level list result" where
  "ladder_levels descending d =
     (let ascending = sort (map fst (filter (\<lambda>(p, q). q > 0) d));
          prices = (if descending then rev ascending else ascending)
      in fold_result (\<lambda>p ls. bind_result (mk_level p (dict_get_default d p 0)) (\<lambda>l. Inr (ls @ [l]))) prices [])"

definition book_snapshot :: "book_state \<Rightarrow> instrument_id \<Rightarrow> datetime option \<Rightarrow> datetime \<Rightarrow> order_book result" where
  "book_snapshot st iid exchange_ts received_at =
     bind_result (ladder_levels True (ld_yes_bids st)) (\<lambda>yb.
     bind_result (ladder_levels False (ld_yes_asks st)) (\<lambda>ya.
     bind_result (ladder_levels True (ld_no_bids st)) (\<lambda>nb.
     bind_result (ladder_levels False (ld_no_asks st)) (\<lambda>na.
       let b = \<lparr>bk_instrument_id = iid, yes_bids = yb, yes_asks = ya, no_bids = nb, no_asks = na,
                bk_exchange_ts = exchange_ts, bk_received_at = received_at\<rparr>
       in validated (order_book_check b) b))))"

definition decrement_ladder :: "ladder \<Rightarrow> decimal \<Rightarrow> decimal \<Rightarrow> bool \<times> ladder" where
  "decrement_ladder d price quantity =
     (case dict_get d price of
        None \<Rightarrow> (False, d)
      | Some q \<Rightarrow>
          let remaining = dsub q quantity
          in (True, if remaining \<le> 0 then dict_pop price d else dict_set price remaining d))"

text \<open>The four ladders, and an update of one of them.\<close>

datatype ladder_id = YesBids | YesAsks | NoBids | NoAsks

fun ladder_of :: "ladder_id \<Rightarrow> book_state \<Rightarrow> ladder" where
  "ladder_of YesBids st = ld_yes_bids st"
| "ladder_of YesAsks st = ld_yes_asks st"
| "ladder_of NoBids st = ld_no_bids st"
| "ladder_of NoAsks st = ld_no_asks st"

fun set_ladder :: "ladder_id \<Rightarrow> ladder \<Rightarrow> book_state \<Rightarrow> book_state" where
  "set_ladder YesBids d st = st\<lparr>ld_yes_bids := d\<rparr>"
| "set_ladder YesAsks d st = st\<lparr>ld_yes_asks := d\<rparr>"
| "set_ladder NoBids d st = st\<lparr>ld_no_bids := d\<rparr>"
| "set_ladder NoAsks d st = st\<lparr>ld_no_asks := d\<rparr>"

definition decrement_at :: "ladder_id \<Rightarrow> decimal \<Rightarrow> decimal \<Rightarrow> bool \<times> book_state \<Rightarrow> bool \<times> book_state" where
  "decrement_at l price quantity ts =
     (let (touched, d) = decrement_ladder (ladder_of l (snd ts)) price quantity
      in (fst ts \<or> touched, set_ladder l d (snd ts)))"

text \<open>The ladder a trade hits directly and the complementary one, when side and aggressor are known.\<close>

fun trade_ladders :: "outcome_side option \<Rightarrow> outcome_side option \<Rightarrow> (ladder_id \<times> ladder_id) option" where
  "trade_ladders (Some YES) (Some YES) = Some (YesAsks, NoBids)"
| "trade_ladders (Some YES) (Some NO) = Some (YesBids, NoAsks)"
| "trade_ladders (Some NO) (Some NO) = Some (NoAsks, YesBids)"
| "trade_ladders (Some NO) (Some YES) = Some (NoBids, YesAsks)"
| "trade_ladders _ _ = None"

definition debit_trade :: "outcome_side option \<Rightarrow> outcome_side option \<Rightarrow> decimal \<Rightarrow> decimal \<Rightarrow> book_state \<Rightarrow> bool \<times> book_state" where
  "debit_trade side aggressor price quantity st =
     (case trade_ladders side aggressor of
        None \<Rightarrow> (False, st)
      | Some (direct, complement) \<Rightarrow>
          decrement_at complement (dsub 1 price) quantity (decrement_at direct price quantity (False, st)))"

definition debit_unknown_trade :: "decimal \<Rightarrow> decimal \<Rightarrow> book_state \<Rightarrow> bool \<times> book_state" where
  "debit_unknown_trade price quantity st =
     fold (\<lambda>(l, p). decrement_at l p quantity)
       [(YesBids, price), (YesAsks, price), (NoBids, price), (NoAsks, price),
        (YesBids, dsub 1 price), (YesAsks, dsub 1 price), (NoBids, dsub 1 price), (NoAsks, dsub 1 price)] (False, st)"

section \<open>The reconstructor\<close>

record reconstructor =
  max_states :: int
  rc_states :: "(instrument_id, book_state) dict"
  rc_sequence :: nat

definition new_reconstructor :: "int \<Rightarrow> reconstructor" where
  "new_reconstructor m = \<lparr>max_states = m, rc_states = [], rc_sequence = 0\<rparr>"

definition get_state :: "instrument_id \<Rightarrow> reconstructor \<Rightarrow> (book_state \<times> reconstructor) result" where
  [step_defs]: "get_state iid r =
     (case dict_get (rc_states r) iid of
        None \<Rightarrow> bind_result (trim_oldest (max_states r) (dict_set iid empty_book (rc_states r)))
                 (\<lambda>d. Inr (empty_book, r\<lparr>rc_states := d\<rparr>))
      | Some st \<Rightarrow> Inr (st, r\<lparr>rc_states := move_to_end iid (rc_states r)\<rparr>))"

definition put_state :: "instrument_id \<Rightarrow> book_state \<Rightarrow> reconstructor \<Rightarrow> reconstructor" where
  "put_state iid st r =
     (if dict_get (rc_states r) iid = None then r else r\<lparr>rc_states := dict_set iid st (rc_states r)\<rparr>)"

definition latest :: "instrument_id \<Rightarrow> reconstructor \<Rightarrow> book_state option \<times> reconstructor" where
  [step_defs]: "latest iid r =
     (case dict_get (rc_states r) iid of
        None \<Rightarrow> (None, r)
      | Some st \<Rightarrow> (Some st, r\<lparr>rc_states := move_to_end iid (rc_states r)\<rparr>))"

definition synthetic_event :: "nat \<Rightarrow> order_book \<Rightarrow> normalized_event" where
  "synthetic_event n b =
     OrderBookEvent (''reconstructed-'' @ zero_pad 9 (str_nat n)) b
       (default_provenance\<lparr>prov_source := ''reconstructor'', prov_channel := ''synthetic_book'',
          prov_source_sequence := Some (str_nat n),
          prov_metadata := freeze_mapping [(''synthetic_liquidity'', PyBool True),
            (''liquidity_source'', PyStr ''reconstructed_from_top_of_book'')]\<rparr>)"

definition emit_book :: "instrument_id \<Rightarrow> datetime option \<Rightarrow> datetime \<Rightarrow> reconstructor \<Rightarrow> (normalized_event \<times> reconstructor) result" where
  [step_defs]: "emit_book iid exchange_ts received_at r =
     (let n = Suc (rc_sequence r)
      in bind_result (get_state iid (r\<lparr>rc_sequence := n\<rparr>)) (\<lambda>(st, r1).
         bind_result (book_snapshot st iid exchange_ts received_at) (\<lambda>b.
           let e = synthetic_event n b in bind_result (validated (event_check e) e) (\<lambda>e'. Inr (e', r1)))))"

definition ladder_from_levels :: "order_book_level list \<Rightarrow> ladder" where
  "ladder_from_levels ls = fold (\<lambda>l d. dict_set (lvl_price l) (lvl_quantity l) d) ls []"

definition ladder_from_top :: "order_book_level option \<Rightarrow> ladder" where
  "ladder_from_top l = (case l of None \<Rightarrow> [] | Some v \<Rightarrow> [(lvl_price v, lvl_quantity v)])"

definition book_state_of :: "order_book \<Rightarrow> book_state" where
  "book_state_of b =
     \<lparr>ld_yes_bids = ladder_from_levels (yes_bids b), ld_yes_asks = ladder_from_levels (yes_asks b),
      ld_no_bids = ladder_from_levels (no_bids b), ld_no_asks = ladder_from_levels (no_asks b)\<rparr>"

definition quote_state :: "quote \<Rightarrow> book_state \<Rightarrow> book_state" where
  "quote_state q st =
     (if q_side q = YES then st\<lparr>ld_yes_bids := ladder_from_top (q_bid q), ld_yes_asks := ladder_from_top (q_ask q)\<rparr>
      else st\<lparr>ld_no_bids := ladder_from_top (q_bid q), ld_no_asks := ladder_from_top (q_ask q)\<rparr>)"

definition trade_state :: "trade \<Rightarrow> book_state \<Rightarrow> bool \<times> book_state" where
  "trade_state t st =
     (let (touched, st1) = debit_trade (tr_side t) (aggressor_side t) (tr_price t) (tr_quantity t) st
      in if touched then (True, st1) else debit_unknown_trade (tr_price t) (tr_quantity t) st1)"

fun observe :: "normalized_event \<Rightarrow> reconstructor \<Rightarrow> (normalized_event option \<times> reconstructor) result" where
  "observe (OrderBookEvent i b prov) r =
     bind_result (get_state (bk_instrument_id b) r) (\<lambda>(st, r1).
       Inr (None, put_state (bk_instrument_id b) (book_state_of b) r1))"
| "observe (QuoteEvent i q prov) r =
     bind_result (get_state (q_instrument_id q) r) (\<lambda>(st, r1).
     bind_result (emit_book (q_instrument_id q) (q_exchange_ts q) (q_received_at q)
                    (put_state (q_instrument_id q) (quote_state q st) r1)) (\<lambda>(e, r2). Inr (Some e, r2)))"
| "observe (TradeEvent i t prov) r =
     bind_result (get_state (tr_instrument_id t) r) (\<lambda>(st, r1).
       let (touched, st1) = trade_state t st;
           r2 = put_state (tr_instrument_id t) st1 r1
       in if \<not> touched then Inr (None, r2)
          else bind_result (emit_book (tr_instrument_id t) (tr_exchange_ts t) (tr_received_at t) r2)
                 (\<lambda>(e, r3). Inr (Some e, r3)))"
| "observe e r = Inr (None, r)"

text \<open>The generator \<open>reconstruct_books\<close>, as the list of what it yields.\<close>

fun reconstruct_from :: "reconstructor \<Rightarrow> normalized_event list \<Rightarrow> normalized_event list result" where
  "reconstruct_from r [] = Inr []"
| "reconstruct_from r (e # es) =
     bind_result (observe e r) (\<lambda>(s, r1).
     bind_result (reconstruct_from r1 es) (\<lambda>out. Inr (e # (case s of None \<Rightarrow> out | Some b \<Rightarrow> b # out))))"

definition reconstruct_books :: "normalized_event list \<Rightarrow> normalized_event list result" where
  "reconstruct_books events = reconstruct_from (new_reconstructor 10000) events"

section \<open>Valid ladders\<close>

definition ladder_ok :: "ladder \<Rightarrow> bool" where
  "ladder_ok d \<longleftrightarrow> wf_dict d \<and> list_all (\<lambda>(p, q). 0 \<le> p \<and> p \<le> 1 \<and> 0 < q) d"

definition book_ok :: "book_state \<Rightarrow> bool" where
  "book_ok st \<longleftrightarrow> ladder_ok (ld_yes_bids st) \<and> ladder_ok (ld_yes_asks st) \<and> ladder_ok (ld_no_bids st) \<and> ladder_ok (ld_no_asks st)"

lemma book_ok_iff: "book_ok st \<longleftrightarrow> (\<forall>l. ladder_ok (ladder_of l st))"
  unfolding book_ok_def by (metis ladder_id.exhaust ladder_of.simps)

lemma ladder_set_ladder [simp]: "ladder_of l (set_ladder k d st) = (if l = k then d else ladder_of l st)"
  by (cases l; cases k) simp_all

lemma ladder_ok_Nil [simp]: "ladder_ok []"
  by (simp add: ladder_ok_def)

lemma ladder_ok_lookup: "ladder_ok d \<Longrightarrow> dict_get d p = Some q \<Longrightarrow> 0 \<le> p \<and> p \<le> 1 \<and> 0 < q"
  by (auto simp: ladder_ok_def list_all_iff dest!: map_of_SomeD)

lemma ladder_ok_set: "ladder_ok d \<Longrightarrow> 0 \<le> p \<Longrightarrow> p \<le> 1 \<Longrightarrow> 0 < q \<Longrightarrow> ladder_ok (dict_set p q d)"
proof -
  assume a: "ladder_ok d" "0 \<le> p" "p \<le> 1" "0 < q"
  have "list_all (\<lambda>(p, q). 0 \<le> p \<and> p \<le> 1 \<and> 0 < q) e \<Longrightarrow> list_all (\<lambda>(p, q). 0 \<le> p \<and> p \<le> 1 \<and> 0 < q) (dict_set p q e)" for e
    using a by (induction e) auto
  with a show ?thesis by (simp add: ladder_ok_def)
qed

lemma ladder_ok_pop: "ladder_ok d \<Longrightarrow> ladder_ok (dict_pop p d)"
  by (auto simp: ladder_ok_def list_all_iff dict_pop_def)

lemma decrement_ladder_ok: "ladder_ok d \<Longrightarrow> ladder_ok (snd (decrement_ladder d p x))"
  by (auto simp: decrement_ladder_def Let_def intro: ladder_ok_pop ladder_ok_set dest: ladder_ok_lookup split: option.splits)

lemma decrement_at_ok: "book_ok (snd ts) \<Longrightarrow> book_ok (snd (decrement_at l p x ts))"
  using decrement_ladder_ok by (auto simp: decrement_at_def book_ok_iff Let_def split: prod.splits) (metis snd_conv)

lemma ladder_from_levels_ok:
  assumes "list_all (\<lambda>l. order_book_level_check l = None) ls"
  shows "ladder_ok (ladder_from_levels ls)"
proof -
  have "ladder_ok d \<Longrightarrow> list_all (\<lambda>l. order_book_level_check l = None) ls \<Longrightarrow>
      ladder_ok (fold (\<lambda>l d. dict_set (lvl_price l) (lvl_quantity l) d) ls d)" for d
    by (induction ls arbitrary: d) (auto simp: level_check_iff intro: ladder_ok_set)
  with assms show ?thesis by (simp add: ladder_from_levels_def)
qed

lemma ladder_from_top_ok: "(\<And>v. l = Some v \<Longrightarrow> order_book_level_check v = None) \<Longrightarrow> ladder_ok (ladder_from_top l)"
  by (auto simp: ladder_from_top_def ladder_ok_def wf_dict_def level_check_iff split: option.splits)

section \<open>Snapshots are valid and sorted\<close>

definition level_at :: "ladder \<Rightarrow> decimal \<Rightarrow> order_book_level" where
  "level_at d p = \<lparr>lvl_price = p, lvl_quantity = dict_get_default d p 0\<rparr>"

lemma key_lookup: "k \<in> fst ` set d \<Longrightarrow> \<exists>v. dict_get d k = Some v"
  by (cases "dict_get d k") (auto simp: map_of_eq_None_iff)

lemma collect_levels: "(\<And>p. p \<in> set ps \<Longrightarrow> f p = Inr (g p)) \<Longrightarrow>
    fold_result (\<lambda>p ls. bind_result (f p) (\<lambda>l. Inr (ls @ [l]))) ps acc = Inr (acc @ map g ps)"
  by (induction ps arbitrary: acc) auto

lemma ladder_levels_value:
  assumes "ladder_ok d"
  shows "ladder_levels desc d = Inr (map (level_at d) (if desc then rev (sort (map fst d)) else sort (map fst d)))"
proof -
  have f: "filter (\<lambda>(p, q). q > 0) d = d" using assms by (auto simp: ladder_ok_def list_all_iff filter_id_conv)
  have "mk_level p (dict_get_default d p 0) = Inr (level_at d p)" if "p \<in> fst ` set d" for p
  proof -
    from key_lookup [OF that] obtain q where q: "dict_get d p = Some q" by blast
    from ladder_ok_lookup [OF assms q] q show ?thesis by (simp add: mk_level_Inr_iff level_at_def)
  qed
  then show ?thesis
    unfolding ladder_levels_def f Let_def
    using collect_levels [of "if desc then rev (sort (map fst d)) else sort (map fst d)" "\<lambda>p. mk_level p (dict_get_default d p 0)" "level_at d" "[]"]
    by auto
qed

lemma sorted_distinct_strict: "sorted xs \<Longrightarrow> distinct xs \<Longrightarrow> sorted_wrt (<) xs"
  by (simp add: strict_sorted_iff)

text \<open>The prices of a side, best first, without repetition.\<close>

definition best_first :: "bool \<Rightarrow> order_book_level list \<Rightarrow> bool" where
  "best_first desc ls \<longleftrightarrow>
     (if desc then sorted_wrt (>) (map lvl_price ls) else sorted_wrt (<) (map lvl_price ls))
     \<and> list_all (\<lambda>l. order_book_level_check l = None) ls"

lemma ladder_levels_best_first:
  assumes "ladder_ok d" and "ladder_levels desc d = Inr ls"
  shows "best_first desc ls"
proof -
  let ?ps = "sort (map fst d)"
  have "distinct (map fst d)" using assms(1) by (simp add: ladder_ok_def wf_dict_def)
  then have s: "sorted_wrt (<) ?ps" by (simp add: strict_sorted_iff)
  have p: "map lvl_price ls = (if desc then rev ?ps else ?ps)" and ls: "ls = map (level_at d) (if desc then rev ?ps else ?ps)"
    using assms by (auto simp: ladder_levels_value level_at_def comp_def)
  have "order_book_level_check (level_at d p) = None" if "p \<in> fst ` set d" for p
  proof -
    from key_lookup [OF that] obtain q where q: "dict_get d p = Some q" by blast
    from ladder_ok_lookup [OF assms(1) q] q show ?thesis by (simp add: level_check_iff level_at_def)
  qed
  then have "list_all (\<lambda>l. order_book_level_check l = None) ls" unfolding ls by (auto simp: list_all_iff)
  with p s show ?thesis by (simp add: best_first_def sorted_wrt_rev)
qed

definition snapshot_value :: "book_state \<Rightarrow> instrument_id \<Rightarrow> datetime option \<Rightarrow> datetime \<Rightarrow> order_book" where
  "snapshot_value st iid exchange_ts received_at =
     \<lparr>bk_instrument_id = iid, yes_bids = map (level_at (ld_yes_bids st)) (rev (sort (map fst (ld_yes_bids st)))),
      yes_asks = map (level_at (ld_yes_asks st)) (sort (map fst (ld_yes_asks st))),
      no_bids = map (level_at (ld_no_bids st)) (rev (sort (map fst (ld_no_bids st)))),
      no_asks = map (level_at (ld_no_asks st)) (sort (map fst (ld_no_asks st))),
      bk_exchange_ts = exchange_ts, bk_received_at = received_at\<rparr>"

lemma book_snapshot_value:
  assumes "book_ok st" and "is_aware received_at" and "\<forall>u. exchange_ts = Some u \<longrightarrow> is_aware u"
  shows "book_snapshot st iid exchange_ts received_at = Inr (snapshot_value st iid exchange_ts received_at)"
  using assms by (simp add: book_snapshot_def book_ok_def ladder_levels_value order_book_check_def Let_def snapshot_value_def)

lemma snapshot_best_first:
  assumes "book_ok st"
  shows "best_first True (yes_bids (snapshot_value st iid ts t)) \<and> best_first False (yes_asks (snapshot_value st iid ts t))
    \<and> best_first True (no_bids (snapshot_value st iid ts t)) \<and> best_first False (no_asks (snapshot_value st iid ts t))"
proof -
  have d: "ladder_ok d \<Longrightarrow> best_first True (map (level_at d) (rev (sort (map fst d))))" for d
    using ladder_levels_best_first [of d True] by (simp add: ladder_levels_value)
  have a: "ladder_ok d \<Longrightarrow> best_first False (map (level_at d) (sort (map fst d)))" for d
    using ladder_levels_best_first [of d False] by (simp add: ladder_levels_value)
  from assms show ?thesis by (simp add: snapshot_value_def book_ok_def d a)
qed

section \<open>The ladders as a depth function\<close>

type_synonym depth = "ladder_id \<Rightarrow> decimal \<Rightarrow> decimal"

definition depth_of :: "book_state \<Rightarrow> depth" where
  "depth_of st l p = dict_get_default (ladder_of l st) p 0"

text \<open>Abstractly a trade takes its quantity from the depth at a price, down to nothing.\<close>

definition take_depth :: "ladder_id \<Rightarrow> decimal \<Rightarrow> decimal \<Rightarrow> depth \<Rightarrow> depth" where
  "take_depth l p x a = a(l := (a l)(p := max 0 (dsub (a l p) x)))"

definition spec_unknown :: "decimal \<Rightarrow> decimal \<Rightarrow> depth \<Rightarrow> depth" where
  "spec_unknown price x a =
     fold (\<lambda>(l, p). take_depth l p x)
       [(YesBids, price), (YesAsks, price), (NoBids, price), (NoAsks, price),
        (YesBids, dsub 1 price), (YesAsks, dsub 1 price), (NoBids, dsub 1 price), (NoAsks, dsub 1 price)] a"

definition spec_trade :: "trade \<Rightarrow> depth \<Rightarrow> depth" where
  "spec_trade t a =
     (case trade_ladders (tr_side t) (aggressor_side t) of
        Some (direct, complement) \<Rightarrow>
          if a direct (tr_price t) > 0 \<or> a complement (dsub 1 (tr_price t)) > 0
          then take_depth complement (dsub 1 (tr_price t)) (tr_quantity t) (take_depth direct (tr_price t) (tr_quantity t) a)
          else spec_unknown (tr_price t) (tr_quantity t) a
      | None \<Rightarrow> spec_unknown (tr_price t) (tr_quantity t) a)"

lemma depth_decrement:
  assumes "0 \<le> x"
  shows "dict_get_default (snd (decrement_ladder d p x)) p' 0 =
    (if p' = p then max 0 (dsub (dict_get_default d p 0) x) else dict_get_default d p' 0)"
proof (cases "dict_get d p")
  case None
  have "dsub 0 x \<le> 0" using assms by (simp add: dsub_def dctx_nonpos)
  with None show ?thesis by (auto simp: decrement_ladder_def)
next
  case (Some q)
  then show ?thesis by (auto simp: decrement_ladder_def Let_def dict_get_default_def)
qed

lemma depth_decrement_at:
  assumes "0 \<le> x"
  shows "depth_of (snd (decrement_at l p x ts)) = take_depth l p x (depth_of (snd ts))"
  using depth_decrement [OF assms]
  by (auto simp: decrement_at_def depth_of_def take_depth_def Let_def fun_eq_iff split: prod.splits) (metis snd_conv)+

lemma touched_decrement:
  assumes "ladder_ok d"
  shows "fst (decrement_ladder d p x) \<longleftrightarrow> dict_get_default d p 0 > 0"
  using ladder_ok_lookup [OF assms, of p] by (auto simp: decrement_ladder_def dict_get_default_def Let_def split: option.splits)

lemma depth_debit_unknown:
  assumes "0 \<le> x"
  shows "depth_of (snd (debit_unknown_trade p x st)) = spec_unknown p x (depth_of st)"
proof -
  have "depth_of (snd (fold (\<lambda>(l, p). decrement_at l p x) ls ts)) = fold (\<lambda>(l, p). take_depth l p x) ls (depth_of (snd ts))" for ls ts
    by (induction ls arbitrary: ts) (auto simp: depth_decrement_at [OF assms])
  from this [of _ "(False, st)"] show ?thesis by (simp only: debit_unknown_trade_def spec_unknown_def snd_conv)
qed

lemma take_nothing: "0 \<le> x \<Longrightarrow> a l p = 0 \<Longrightarrow> take_depth l p x a = a"
  using dctx_nonpos [of "- x"] by (simp add: take_depth_def dsub_def fun_eq_iff)

lemma depth_nonneg: "book_ok st \<Longrightarrow> 0 \<le> depth_of st l p"
  using ladder_ok_lookup [of "ladder_of l st" p]
  by (auto simp: depth_of_def book_ok_iff dict_get_default_def less_imp_le split: option.splits)

lemma decrement_at_touched:
  assumes "book_ok (snd ts)"
  shows "fst (decrement_at l p x ts) \<longleftrightarrow> fst ts \<or> depth_of (snd ts) l p > 0"
  using touched_decrement [of "ladder_of l (snd ts)" p x] assms
  by (auto simp: decrement_at_def depth_of_def book_ok_iff Let_def split: prod.splits)

lemma trade_ladders_distinct: "trade_ladders s a = Some (d, c) \<Longrightarrow> d \<noteq> c"
  by (induction s a rule: trade_ladders.induct) auto

lemma depth_debit_trade:
  assumes "book_ok st" and "0 \<le> x" and "trade_ladders s a = Some (d, c)"
  shows "fst (debit_trade s a p x st) \<longleftrightarrow> depth_of st d p > 0 \<or> depth_of st c (dsub 1 p) > 0"
    and "depth_of (snd (debit_trade s a p x st)) = take_depth c (dsub 1 p) x (take_depth d p x (depth_of st))"
proof -
  let ?ts = "decrement_at d p x (False, st)"
  have ok: "book_ok (snd ?ts)" using decrement_at_ok [of "(False, st)"] assms(1) by simp
  have dc: "d \<noteq> c" by (rule trade_ladders_distinct [OF assms(3)])
  have "depth_of (snd ?ts) c (dsub 1 p) = depth_of st c (dsub 1 p)"
    using dc by (simp add: depth_decrement_at [OF assms(2)] take_depth_def)
  then show "fst (debit_trade s a p x st) \<longleftrightarrow> depth_of st d p > 0 \<or> depth_of st c (dsub 1 p) > 0"
    using decrement_at_touched [OF ok] decrement_at_touched [of "(False, st)" d p x] assms(1,3) by (auto simp: debit_trade_def)
  show "depth_of (snd (debit_trade s a p x st)) = take_depth c (dsub 1 p) x (take_depth d p x (depth_of st))"
    using assms(3) by (simp add: debit_trade_def depth_decrement_at [OF assms(2)])
qed

lemma depth_trade_state:
  assumes "book_ok st" and "0 \<le> tr_quantity t"
  shows "depth_of (snd (trade_state t st)) = spec_trade t (depth_of st)"
proof (cases "trade_ladders (tr_side t) (aggressor_side t)")
  case None
  then show ?thesis
    by (simp add: trade_state_def debit_trade_def spec_trade_def depth_debit_unknown [OF assms(2)])
next
  case (Some dc)
  obtain d c where dc: "dc = (d, c)" by (cases dc)
  note t = depth_debit_trade [OF assms Some [unfolded dc], of "tr_price t"]
  show ?thesis
  proof (cases "depth_of st d (tr_price t) > 0 \<or> depth_of st c (dsub 1 (tr_price t)) > 0")
    case True
    with t Some dc show ?thesis by (auto simp: trade_state_def spec_trade_def split: prod.splits)
  next
    case False
    then have "depth_of st d (tr_price t) = 0" "depth_of st c (dsub 1 (tr_price t)) = 0"
      using depth_nonneg [OF assms(1)] by (auto intro: antisym)
    with t(2) have "depth_of (snd (debit_trade (tr_side t) (aggressor_side t) (tr_price t) (tr_quantity t) st)) = depth_of st"
      using assms(2) by (simp add: take_nothing)
    with False t(1) Some dc show ?thesis
      by (auto simp: trade_state_def spec_trade_def depth_debit_unknown [OF assms(2)] split: prod.splits)
  qed
qed

section \<open>The reconstructor's invariant\<close>

definition recon_ok :: "reconstructor \<Rightarrow> bool" where
  "recon_ok r \<longleftrightarrow> wf_dict (rc_states r) \<and> list_all (\<lambda>(k, st). book_ok st) (rc_states r) \<and>
     int (length (rc_states r)) \<le> max_states r \<and> 1 \<le> max_states r"

definition state_at :: "instrument_id \<Rightarrow> reconstructor \<Rightarrow> book_state" where
  "state_at iid r = dict_get_default (rc_states r) iid empty_book"

lemma empty_book_ok [simp]: "book_ok empty_book"
  by (simp add: book_ok_def empty_book_def)

lemma state_at_ok: "recon_ok r \<Longrightarrow> book_ok (state_at iid r)"
  by (auto simp: recon_ok_def state_at_def dict_get_default_def list_all_iff split: option.splits dest!: map_of_SomeD)

text \<open>\<open>get_state\<close> returns the state of the instrument and leaves it stored.\<close>

lemma get_state_ok:
  assumes "recon_ok r"
  obtains r1 where "get_state iid r = Inr (state_at iid r, r1)" "recon_ok r1" "dict_get (rc_states r1) iid = Some (state_at iid r)"
    "rc_sequence r1 = rc_sequence r" "max_states r1 = max_states r"
proof (cases "dict_get (rc_states r) iid")
  case None
  have m: "0 < max_states r" using assms by (simp add: recon_ok_def)
  obtain d where d: "trim_oldest (max_states r) (dict_set iid empty_book (rc_states r)) = Inr d"
    using trim_oldest_total [of "max_states r"] m by force
  have app: "dict_set iid empty_book (rc_states r) = rc_states r @ [(iid, empty_book)]"
    using None by (intro dict_set_fresh) (simp add: map_of_eq_None_iff)
  from d [unfolded app] obtain ys where ys: "d = ys @ [(iid, empty_book)]" using trim_keeps_last m by blast
  from trim_oldest_Inr [OF d] obtain n where n: "int (length d) \<le> max_states r" "d = drop n (dict_set iid empty_book (rc_states r))" by blast
  have wf: "wf_dict d" using n(2) assms by (simp add: recon_ok_def wf_dict_drop)
  have "list_all (\<lambda>(k, st). book_ok st) d" unfolding n(2) app
    using assms by (auto simp: recon_ok_def list_all_iff dest!: in_set_dropD)
  with wf n(1) assms have "recon_ok (r\<lparr>rc_states := d\<rparr>)" by (simp add: recon_ok_def)
  moreover have "dict_get d iid = Some empty_book" using wf_dict_get_iff [OF wf] ys by simp
  ultimately show ?thesis using that [of "r\<lparr>rc_states := d\<rparr>"] None d by (simp add: get_state_def state_at_def)
next
  case (Some st)
  let ?r = "r\<lparr>rc_states := move_to_end iid (rc_states r)\<rparr>"
  have "recon_ok ?r" using assms by (simp add: recon_ok_def list_all_iff)
  with Some assms that [of ?r] show ?thesis by (simp add: get_state_def state_at_def recon_ok_def)
qed

lemma put_state_ok:
  assumes "recon_ok r" and "dict_get (rc_states r) iid = Some st0" and "book_ok st"
  shows "recon_ok (put_state iid st r) \<and> state_at iid (put_state iid st r) = st \<and> rc_sequence (put_state iid st r) = rc_sequence r"
proof -
  have "list_all (\<lambda>(k, st). book_ok st) d \<Longrightarrow> list_all (\<lambda>(k, st). book_ok st) (dict_set iid st d)" for d
    using assms(3) by (induction d) auto
  moreover have "length (dict_set iid st (rc_states r)) = length (rc_states r)"
    using assms(2) by (auto simp: length_dict_set dest!: map_of_SomeD intro: rev_image_eqI)
  ultimately show ?thesis using assms by (simp add: put_state_def recon_ok_def state_at_def)
qed

lemma synthetic_event_ok: "event_check (synthetic_event n b) = None"
  by (simp add: synthetic_event_def validate_event_id_def)

lemma emit_book_ok:
  assumes "recon_ok r" and "is_aware t" and "\<forall>u. ts = Some u \<longrightarrow> is_aware u"
  obtains r1 where "emit_book iid ts t r = Inr (synthetic_event (Suc (rc_sequence r)) (snapshot_value (state_at iid r) iid ts t), r1)"
    "recon_ok r1" "state_at iid r1 = state_at iid r" "rc_sequence r1 = Suc (rc_sequence r)"
proof -
  let ?r = "r\<lparr>rc_sequence := Suc (rc_sequence r)\<rparr>"
  have ok: "recon_ok ?r" and st: "state_at iid ?r = state_at iid r" using assms(1) by (simp_all add: recon_ok_def state_at_def)
  obtain r1 where r1: "get_state iid ?r = Inr (state_at iid r, r1)" "recon_ok r1" "dict_get (rc_states r1) iid = Some (state_at iid r)"
      "rc_sequence r1 = Suc (rc_sequence r)"
    using get_state_ok [OF ok, of iid] st by auto
  have "emit_book iid ts t r = Inr (synthetic_event (Suc (rc_sequence r)) (snapshot_value (state_at iid r) iid ts t), r1)"
    using r1(1) book_snapshot_value [OF state_at_ok [OF assms(1)] assms(2,3)]
    by (simp add: emit_book_def Let_def synthetic_event_ok)
  with r1 that [of r1] show ?thesis by (simp add: state_at_def)
qed

section \<open>Events\<close>

definition level_opt_ok :: "order_book_level option \<Rightarrow> bool" where
  "level_opt_ok l = (case l of None \<Rightarrow> True | Some v \<Rightarrow> order_book_level_check v = None)"

fun market_event_ok :: "normalized_event \<Rightarrow> bool" where
  "market_event_ok (OrderBookEvent i b prov) \<longleftrightarrow>
     list_all (\<lambda>l. order_book_level_check l = None) (yes_bids b @ yes_asks b @ no_bids b @ no_asks b)"
| "market_event_ok (QuoteEvent i q prov) \<longleftrightarrow> quote_check q = None \<and> level_opt_ok (q_bid q) \<and> level_opt_ok (q_ask q)"
| "market_event_ok (TradeEvent i t prov) \<longleftrightarrow> trade_check t = None"
| "market_event_ok e \<longleftrightarrow> True"

text \<open>The instrument of a market event and its effect on the depth of that instrument.\<close>

fun market_instrument :: "normalized_event \<Rightarrow> instrument_id option" where
  "market_instrument (OrderBookEvent i b prov) = Some (bk_instrument_id b)"
| "market_instrument (QuoteEvent i q prov) = Some (q_instrument_id q)"
| "market_instrument (TradeEvent i t prov) = Some (tr_instrument_id t)"
| "market_instrument e = None"

definition spec_levels :: "order_book_level list \<Rightarrow> decimal \<Rightarrow> decimal" where
  "spec_levels ls p = (case find (\<lambda>l. lvl_price l = p) (rev ls) of None \<Rightarrow> 0 | Some l \<Rightarrow> lvl_quantity l)"

definition option_list :: "'a option \<Rightarrow> 'a list" where
  "option_list x = (case x of None \<Rightarrow> [] | Some y \<Rightarrow> [y])"

fun spec_event :: "normalized_event \<Rightarrow> depth \<Rightarrow> depth" where
  "spec_event (OrderBookEvent i b prov) a =
     (\<lambda>l. spec_levels (case l of YesBids \<Rightarrow> yes_bids b | YesAsks \<Rightarrow> yes_asks b | NoBids \<Rightarrow> no_bids b | NoAsks \<Rightarrow> no_asks b))"
| "spec_event (QuoteEvent i q prov) a =
     (if q_side q = YES then a(YesBids := spec_levels (option_list (q_bid q)), YesAsks := spec_levels (option_list (q_ask q)))
      else a(NoBids := spec_levels (option_list (q_bid q)), NoAsks := spec_levels (option_list (q_ask q))))"
| "spec_event (TradeEvent i t prov) a = spec_trade t a"
| "spec_event e a = a"

lemma lookup_from_levels: "dict_get_default (ladder_from_levels ls) p 0 = spec_levels ls p"
proof -
  have "dict_get_default (fold (\<lambda>l d. dict_set (lvl_price l) (lvl_quantity l) d) ls d) p 0 =
      (case find (\<lambda>l. lvl_price l = p) (rev ls) of None \<Rightarrow> dict_get_default d p 0 | Some l \<Rightarrow> lvl_quantity l)" for d
  proof (induction ls rule: rev_induct)
    case (snoc l ls)
    then show ?case by (auto simp: dict_get_default_def)
  qed simp
  from this [of "[]"] show ?thesis
    by (simp add: ladder_from_levels_def spec_levels_def dict_get_default_def split: option.splits)
qed

lemma lookup_from_top: "dict_get_default (ladder_from_top l) p 0 = spec_levels (option_list l) p"
  by (auto simp: ladder_from_top_def spec_levels_def option_list_def dict_get_default_def split: option.splits)

lemma depth_book_state_of: "depth_of (book_state_of b) = spec_event (OrderBookEvent i b prov) a"
  by (intro ext) (auto simp: depth_of_def book_state_of_def lookup_from_levels split: ladder_id.splits)

lemma depth_quote_state: "depth_of (quote_state q st) = spec_event (QuoteEvent i q prov) (depth_of st)"
proof (intro ext)
  fix l p
  show "depth_of (quote_state q st) l p = spec_event (QuoteEvent i q prov) (depth_of st) l p"
    by (cases l) (auto simp: depth_of_def quote_state_def lookup_from_top)
qed

lemma book_state_of_ok: "market_event_ok (OrderBookEvent i b prov) \<Longrightarrow> book_ok (book_state_of b)"
  by (simp add: book_ok_def book_state_of_def ladder_from_levels_ok)

lemma quote_state_ok: "market_event_ok (QuoteEvent i q prov) \<Longrightarrow> book_ok st \<Longrightarrow> book_ok (quote_state q st)"
  by (auto simp: book_ok_def quote_state_def level_opt_ok_def intro!: ladder_from_top_ok)

lemma trade_state_ok: "book_ok st \<Longrightarrow> book_ok (snd (trade_state t st))"
proof -
  assume ok: "book_ok st"
  have f: "book_ok (snd ts) \<Longrightarrow> book_ok (snd (fold (\<lambda>(l, p). decrement_at l p x) ls ts))" for ls x ts
  proof (induction ls arbitrary: ts)
    case (Cons lp ls)
    obtain l p where lp: "lp = (l, p)" by (cases lp)
    from Cons.IH [OF decrement_at_ok [OF Cons.prems]] show ?case by (simp only: lp fold_simps comp_apply case_prod_conv)
  qed simp
  have d: "book_ok (snd (debit_trade s a p x st))" for s a p x
    using ok by (auto simp: debit_trade_def intro!: decrement_at_ok split: option.splits)
  have u: "book_ok st' \<Longrightarrow> book_ok (snd (debit_unknown_trade p x st'))" for st' p x
    unfolding debit_unknown_trade_def by (rule f) simp
  show ?thesis
    using d [of "tr_side t" "aggressor_side t" "tr_price t" "tr_quantity t"] u by (auto simp: trade_state_def split: prod.splits)
qed

lemma observe_other: "market_instrument e = None \<Longrightarrow> observe e r = Inr (None, r)"
  by (cases e) simp_all

lemma observe_step:
  assumes ok: "recon_ok r" and e: "market_event_ok e"
  obtains s r' where "observe e r = Inr (s, r')" "recon_ok r'"
    "\<forall>iid. market_instrument e = Some iid \<longrightarrow> depth_of (state_at iid r') = spec_event e (depth_of (state_at iid r))"
    "\<forall>b. s = Some b \<longrightarrow> (\<exists>iid ts t. market_instrument e = Some iid \<and>
        b = synthetic_event (Suc (rc_sequence r)) (snapshot_value (state_at iid r') iid ts t))"
    "rc_sequence r' = (if s = None then rc_sequence r else Suc (rc_sequence r))"
proof (cases "market_instrument e")
  case None
  show ?thesis by (rule that [OF observe_other [OF None] ok]) (simp_all add: None)
next
  case (Some iid0)
  then consider (book) i b prov where "e = OrderBookEvent i b prov" | (quote) i q prov where "e = QuoteEvent i q prov"
    | (trade) i t prov where "e = TradeEvent i t prov" by (cases e) simp_all
  then show ?thesis
  proof cases
  case OrderBookEvent: (book i b prov)
  let ?iid = "bk_instrument_id b"
  obtain r1 where r1: "get_state ?iid r = Inr (state_at ?iid r, r1)" "recon_ok r1" "dict_get (rc_states r1) ?iid = Some (state_at ?iid r)"
      "rc_sequence r1 = rc_sequence r" by (rule get_state_ok [OF ok])
  note p = put_state_ok [OF r1(2,3) book_state_of_ok [OF e [unfolded OrderBookEvent]]]
  show ?thesis
    using that [of None "put_state ?iid (book_state_of b) r1"] r1 p depth_book_state_of OrderBookEvent by auto
next
  case QuoteEvent: (quote i q prov)
  let ?iid = "q_instrument_id q"
  obtain r1 where r1: "get_state ?iid r = Inr (state_at ?iid r, r1)" "recon_ok r1" "dict_get (rc_states r1) ?iid = Some (state_at ?iid r)"
      "rc_sequence r1 = rc_sequence r" by (rule get_state_ok [OF ok])
  note p = put_state_ok [OF r1(2,3) quote_state_ok [OF e [unfolded QuoteEvent] state_at_ok [OF ok]]]
  have aw: "is_aware (q_received_at q)" "\<forall>u. q_exchange_ts q = Some u \<longrightarrow> is_aware u"
    using e QuoteEvent by (auto simp: quote_check_def)
  obtain r2 where r2: "emit_book ?iid (q_exchange_ts q) (q_received_at q) (put_state ?iid (quote_state q (state_at ?iid r)) r1)
      = Inr (synthetic_event (Suc (rc_sequence r)) (snapshot_value (quote_state q (state_at ?iid r)) ?iid (q_exchange_ts q) (q_received_at q)), r2)"
      "recon_ok r2" "state_at ?iid r2 = quote_state q (state_at ?iid r)" "rc_sequence r2 = Suc (rc_sequence r)"
    using emit_book_ok [OF conjunct1 [OF p] aw, of ?iid] p r1(4) by auto
  show ?thesis
    by (rule that [of "Some (synthetic_event (Suc (rc_sequence r)) (snapshot_value (quote_state q (state_at ?iid r)) ?iid (q_exchange_ts q) (q_received_at q)))" r2])
      (use r1 r2 depth_quote_state QuoteEvent in auto)
next
  case TradeEvent: (trade i t prov)
  let ?iid = "tr_instrument_id t"
  obtain r1 where r1: "get_state ?iid r = Inr (state_at ?iid r, r1)" "recon_ok r1" "dict_get (rc_states r1) ?iid = Some (state_at ?iid r)"
      "rc_sequence r1 = rc_sequence r" by (rule get_state_ok [OF ok])
  obtain touched st1 where ts: "trade_state t (state_at ?iid r) = (touched, st1)" by fastforce
  have chk: "0 \<le> tr_quantity t" "is_aware (tr_received_at t)" "\<forall>u. tr_exchange_ts t = Some u \<longrightarrow> is_aware u"
    using e TradeEvent by (auto simp: trade_check_def)
  have st1: "book_ok st1" "depth_of st1 = spec_trade t (depth_of (state_at ?iid r))"
    using trade_state_ok [OF state_at_ok [OF ok], of t ?iid] depth_trade_state [OF state_at_ok [OF ok] chk(1), of ?iid] ts by auto
  note p = put_state_ok [OF r1(2,3) st1(1)]
  show ?thesis
  proof (cases touched)
    case False
    then show ?thesis using that [of None "put_state ?iid st1 r1"] r1 p st1 ts TradeEvent by auto
  next
    case True
    obtain r2 where r2: "emit_book ?iid (tr_exchange_ts t) (tr_received_at t) (put_state ?iid st1 r1)
        = Inr (synthetic_event (Suc (rc_sequence r)) (snapshot_value st1 ?iid (tr_exchange_ts t) (tr_received_at t)), r2)"
        "recon_ok r2" "state_at ?iid r2 = st1" "rc_sequence r2 = Suc (rc_sequence r)"
      using emit_book_ok [OF conjunct1 [OF p] chk(2,3), of ?iid] p r1(4) by auto
    show ?thesis
      by (rule that [of "Some (synthetic_event (Suc (rc_sequence r)) (snapshot_value st1 ?iid (tr_exchange_ts t) (tr_received_at t)))" r2])
        (use r1 r2 st1 ts True TradeEvent in auto)
  qed
  qed
qed


lemma spec_levels_level_at:
  assumes "set ps = fst ` set d"
  shows "spec_levels (map (level_at d) ps) p = dict_get_default d p 0"
proof (cases "p \<in> set ps")
  case True
  have "find (\<lambda>l. lvl_price l = p) (map (level_at d) qs) = (if p \<in> set qs then Some (level_at d p) else None)" for qs
    by (induction qs) (auto simp: level_at_def)
  with True show ?thesis by (simp add: spec_levels_def rev_map level_at_def)
next
  case False
  have "find (\<lambda>l. lvl_price l = p) (map (level_at d) qs) = (if p \<in> set qs then Some (level_at d p) else None)" for qs
    by (induction qs) (auto simp: level_at_def)
  with False assms show ?thesis by (simp add: spec_levels_def rev_map dict_get_default_def map_of_eq_None_iff [THEN iffD2])
qed

lemma depth_snapshot: "spec_event (OrderBookEvent i (snapshot_value st iid ts t) prov) a = depth_of st"
proof (intro ext)
  fix l p
  show "spec_event (OrderBookEvent i (snapshot_value st iid ts t) prov) a l p = depth_of st l p"
    by (cases l) (simp_all add: snapshot_value_def depth_of_def spec_levels_level_at)
qed


lemma new_reconstructor_ok: "1 \<le> m \<Longrightarrow> recon_ok (new_reconstructor m)"
  by (simp add: recon_ok_def new_reconstructor_def)

lemma reconstruct_from_total:
  assumes "recon_ok r" and "\<forall>e \<in> set es. market_event_ok e"
  shows "\<exists>out. reconstruct_from r es = Inr out \<and> subseq es out"
  using assms
proof (induction es arbitrary: r)
  case (Cons e es)
  obtain s r1 where o: "observe e r = Inr (s, r1)" "recon_ok r1" by (rule observe_step [OF Cons.prems(1)]) (use Cons.prems(2) in auto)
  obtain out where out: "reconstruct_from r1 es = Inr out" "subseq es out" using Cons.IH [OF o(2)] Cons.prems(2) by auto
  then show ?case using o(1) by (cases s) auto
qed simp

text \<open>
  Replaying with reconstructed books never fails and drops nothing. On valid events
  \<open>reconstruct_books\<close> yields every source event in order, with synthetic books in between.
\<close>

theorem reconstruct_books_total:
  assumes "\<forall>e \<in> set events. market_event_ok e"
  shows "\<exists>out. reconstruct_books events = Inr out \<and> subseq events out"
  unfolding reconstruct_books_def
  by (rule reconstruct_from_total [OF _ assms]) (simp add: new_reconstructor_ok)

section \<open>A replay\<close>

definition replay_iid :: instrument_id where
  "replay_iid = \<lparr>iid_venue = KALSHI, market_id = ''RAIN'', outcome_id = None\<rparr>"

definition replay_quote :: normalized_event where
  "replay_quote =
     QuoteEvent ''e1'' \<lparr>q_instrument_id = replay_iid, q_side = YES, q_bid = Some \<lparr>lvl_price = 4 / 10, lvl_quantity = 10\<rparr>,
       q_ask = Some \<lparr>lvl_price = 5 / 10, lvl_quantity = 8\<rparr>, q_exchange_ts = None, q_received_at = utc 0\<rparr> default_provenance"

definition replay_trade :: normalized_event where
  "replay_trade =
     TradeEvent ''e2'' \<lparr>tr_instrument_id = replay_iid, tr_side = Some YES, tr_price = 5 / 10, tr_quantity = 3, trade_id = None,
       tr_exchange_ts = None, tr_received_at = utc 1, aggressor_side = Some YES, tr_metadata = []\<rparr> default_provenance"

definition replay_state :: reconstructor where
  "replay_state =
     (new_reconstructor 10)\<lparr>rc_states := [(replay_iid, empty_book\<lparr>ld_yes_bids := [(4 / 10, 10)], ld_yes_asks := [(5 / 10, 8)]\<rparr>)],
        rc_sequence := 1\<rparr>"

lemma replay_facts: "recon_ok replay_state" "market_event_ok replay_trade" "market_event_ok replay_quote"
  by code_simp+



theorem reconstruct_books_total_witness:
  "\<exists>out. reconstruct_books [replay_quote, replay_trade] = Inr out \<and> subseq [replay_quote, replay_trade] out"
  by (rule reconstruct_books_total) (simp add: replay_facts)

end
