(* ===== verification/Lifecycle.thy ===== *)
theory Lifecycle
  imports Prelude
begin

text \<open>
  \<open>strategy/lifecycle.py\<close>: the states of a strategy run, the table of allowed transitions, and the
  transition relation it induces.
\<close>

datatype strategy_state =
    ST_CREATED | ST_INITIALIZING | ST_WARMING_UP | ST_READY | ST_RUNNING | ST_DRAINING | ST_HALTED | ST_DISPOSED

fun valid_transitions :: "strategy_state \<Rightarrow> strategy_state set" where
  "valid_transitions ST_CREATED = {ST_INITIALIZING, ST_DISPOSED}"
| "valid_transitions ST_INITIALIZING = {ST_WARMING_UP, ST_READY, ST_HALTED}"
| "valid_transitions ST_WARMING_UP = {ST_READY, ST_HALTED}"
| "valid_transitions ST_READY = {ST_RUNNING, ST_HALTED}"
| "valid_transitions ST_RUNNING = {ST_DRAINING, ST_HALTED}"
| "valid_transitions ST_DRAINING = {ST_DISPOSED, ST_HALTED}"
| "valid_transitions ST_HALTED = {ST_DISPOSED}"
| "valid_transitions ST_DISPOSED = {}"

definition can_transition :: "strategy_state \<Rightarrow> strategy_state \<Rightarrow> bool" where
  "can_transition current target \<longleftrightarrow> target \<in> valid_transitions current"

text \<open>A sequence of allowed transitions from one state to another.\<close>

inductive lifecycle_path :: "strategy_state \<Rightarrow> strategy_state list \<Rightarrow> strategy_state \<Rightarrow> bool" where
  path_end: "lifecycle_path s [] s"
| path_step: "can_transition s t \<Longrightarrow> lifecycle_path t ts u \<Longrightarrow> lifecycle_path s (t # ts) u"

inductive_cases path_NilE: "lifecycle_path s [] u"
inductive_cases path_ConsE: "lifecycle_path s (t # ts) u"

text \<open>Each transition moves strictly forward in this ranking.\<close>

fun lifecycle_rank :: "strategy_state \<Rightarrow> nat" where
  "lifecycle_rank ST_CREATED = 0"
| "lifecycle_rank ST_INITIALIZING = 1"
| "lifecycle_rank ST_WARMING_UP = 2"
| "lifecycle_rank ST_READY = 3"
| "lifecycle_rank ST_RUNNING = 4"
| "lifecycle_rank ST_DRAINING = 5"
| "lifecycle_rank ST_HALTED = 6"
| "lifecycle_rank ST_DISPOSED = 7"

lemma can_transition_rank: "can_transition s t \<Longrightarrow> lifecycle_rank s < lifecycle_rank t"
  by (cases s) (auto simp: can_transition_def)

lemma lifecycle_path_rank: "lifecycle_path s ts u \<Longrightarrow> lifecycle_rank s + length ts \<le> lifecycle_rank u"
  by (induction rule: lifecycle_path.induct) (auto dest: can_transition_rank)

lemma lifecycle_path_later: "lifecycle_path s ts u \<Longrightarrow> t \<in> set ts \<Longrightarrow> lifecycle_rank s < lifecycle_rank t"
  by (induction rule: lifecycle_path.induct) (auto dest!: can_transition_rank intro: less_trans)

lemma reaches_disposed: "\<exists>ts. lifecycle_path s ts ST_DISPOSED"
proof -
  have h: "lifecycle_path ST_HALTED [ST_DISPOSED] ST_DISPOSED"
    by (intro lifecycle_path.intros) (simp add: can_transition_def)
  have "s \<in> {ST_CREATED, ST_DISPOSED} \<or> can_transition s ST_HALTED \<or> s = ST_HALTED" by (cases s) (auto simp: can_transition_def)
  moreover have "lifecycle_path ST_CREATED [ST_DISPOSED] ST_DISPOSED"
    by (intro lifecycle_path.intros) (simp add: can_transition_def)
  ultimately show ?thesis using h path_end path_step by blast
qed

text \<open>
  C34: The lifecycle only moves forward. A sequence of allowed transitions has at most seven steps,
  visits no state twice and never returns to where it started; a disposed strategy makes no further
  transition, and from every state some sequence of transitions disposes it.
\<close>

theorem lifecycle_moves_forward:
  assumes "lifecycle_path s ts u"
  shows "length ts \<le> 7 \<and> distinct (s # ts) \<and> (s = ST_DISPOSED \<longrightarrow> ts = []) \<and> (\<exists>us. lifecycle_path u us ST_DISPOSED)"
proof -
  have r: "lifecycle_rank u \<le> 7" by (cases u) auto
  have d: "distinct (s # ts)" using assms
  proof (induction rule: lifecycle_path.induct)
    case (path_step s t ts u)
    have "s \<notin> set (t # ts)"
      using lifecycle_path_later [OF lifecycle_path.path_step [OF path_step(1,2)]] by blast
    with path_step show ?case by simp
  qed simp
  have "s = ST_DISPOSED \<longrightarrow> ts = []"
    using assms by (cases ts) (auto elim: path_ConsE simp: can_transition_def)
  then show ?thesis using d r lifecycle_path_rank [OF assms] reaches_disposed by auto
qed

theorem lifecycle_moves_forward_witness:
  "lifecycle_path ST_CREATED [ST_INITIALIZING, ST_READY, ST_RUNNING, ST_DRAINING, ST_DISPOSED] ST_DISPOSED
   \<and> distinct [ST_CREATED, ST_INITIALIZING, ST_READY, ST_RUNNING, ST_DRAINING, ST_DISPOSED]"
proof -
  have p: "lifecycle_path ST_CREATED [ST_INITIALIZING, ST_READY, ST_RUNNING, ST_DRAINING, ST_DISPOSED] ST_DISPOSED"
    by (intro lifecycle_path.intros) (simp_all add: can_transition_def)
  with lifecycle_moves_forward [OF p] show ?thesis by blast
qed

end
