(* ===== verification/Actions.thy ===== *)
theory Actions
  imports Prelude
begin

text \<open>
  Actions on a shared mutable world: a call that may change the world and then return a value or
  raise. What the call did before it raised is kept, as it is in the program. The second part is a
  small Hoare calculus over actions, with one postcondition for a normal return and one for an
  exception.
\<close>

section \<open>Actions\<close>

type_synonym ('s, 'a) action = "'s \<Rightarrow> 'a result \<times> 's"

definition act_return :: "'a \<Rightarrow> ('s, 'a) action" where
  "act_return x s = (Inr x, s)"

definition act_raise :: "py_error \<Rightarrow> ('s, 'a) action" where
  "act_raise e s = (Inl e, s)"

definition act_result :: "'a result \<Rightarrow> ('s, 'a) action" where
  "act_result r s = (r, s)"

definition act_bind :: "('s, 'a) action \<Rightarrow> ('a \<Rightarrow> ('s, 'b) action) \<Rightarrow> ('s, 'b) action" where
  "act_bind m f s = (case m s of (Inl e, t) \<Rightarrow> (Inl e, t) | (Inr x, t) \<Rightarrow> f x t)"

text \<open>\<open>m; n\<close>\<close>

definition act_then :: "('s, unit) action \<Rightarrow> ('s, 'b) action \<Rightarrow> ('s, 'b) action" where
  "act_then m n = act_bind m (\<lambda>_. n)"

text \<open>\<open>try: body finally: cleanup\<close>: an exception of \<open>cleanup\<close> wins over the outcome of the body.\<close>

definition act_finally :: "('s, 'a) action \<Rightarrow> ('s, unit) action \<Rightarrow> ('s, 'a) action" where
  "act_finally body cleanup s =
     (case body s of (x, t) \<Rightarrow> (case cleanup t of (Inl e, u) \<Rightarrow> (Inl e, u) | (Inr _, u) \<Rightarrow> (x, u)))"

fun act_fold :: "('x \<Rightarrow> 'a \<Rightarrow> ('s, 'a) action) \<Rightarrow> 'x list \<Rightarrow> 'a \<Rightarrow> ('s, 'a) action" where
  "act_fold f [] a = act_return a"
| "act_fold f (x # xs) a = act_bind (f x a) (act_fold f xs)"

text \<open>An optional port: absent, it does nothing.\<close>

definition act_option :: "'p option \<Rightarrow> ('p \<Rightarrow> ('s, unit) action) \<Rightarrow> ('s, unit) action" where
  "act_option p f = (case p of None \<Rightarrow> act_return () | Some q \<Rightarrow> f q)"

text \<open>A partial state update as an action: an exception leaves the world as it was.\<close>

definition act_update :: "('s \<Rightarrow> 't) \<Rightarrow> ('t \<Rightarrow> 's \<Rightarrow> 's) \<Rightarrow> ('t \<Rightarrow> ('a \<times> 't) result) \<Rightarrow> ('s, 'a) action" where
  "act_update get put f s = (case f (get s) of Inl e \<Rightarrow> (Inl e, s) | Inr (x, t) \<Rightarrow> (Inr x, put t s))"

text \<open>An action on a part of the world.\<close>

definition act_zoom :: "('s \<Rightarrow> 't) \<Rightarrow> ('t \<Rightarrow> 's \<Rightarrow> 's) \<Rightarrow> ('t, 'a) action \<Rightarrow> ('s, 'a) action" where
  "act_zoom get put m s = (case m (get s) of (x, t) \<Rightarrow> (x, put t s))"

lemmas act_defs = act_return_def act_raise_def act_result_def act_bind_def act_then_def act_finally_def
  act_option_def act_update_def act_zoom_def

lemma act_bind_return [simp]: "act_bind (act_return x) f = f x"
  by (simp add: fun_eq_iff act_defs)

lemma act_bind_raise [simp]: "act_bind (act_raise e) f = act_raise e"
  by (simp add: fun_eq_iff act_defs)

lemma act_bind_assoc: "act_bind (act_bind m f) g = act_bind m (\<lambda>x. act_bind (f x) g)"
  by (auto simp: fun_eq_iff act_defs split: prod.splits sum.splits)

lemma act_bind_Inr:
  assumes "act_bind m f s = (Inr y, u)"
  obtains x t where "m s = (Inr x, t)" and "f x t = (Inr y, u)"
  using assms by (auto simp: act_bind_def split: prod.splits sum.splits)

section \<open>Triples\<close>

definition hoare :: "('s \<Rightarrow> bool) \<Rightarrow> ('s, 'a) action \<Rightarrow> ('a \<Rightarrow> 's \<Rightarrow> bool) \<Rightarrow> ('s \<Rightarrow> bool) \<Rightarrow> bool" where
  "hoare P m Q E \<longleftrightarrow> (\<forall>s. P s \<longrightarrow> (case m s of (Inl e, t) \<Rightarrow> E t | (Inr x, t) \<Rightarrow> Q x t))"

text \<open>An action that keeps an assertion whether it returns or raises.\<close>

abbreviation stable :: "('s \<Rightarrow> bool) \<Rightarrow> ('s, 'a) action \<Rightarrow> bool" where
  "stable P m \<equiv> hoare P m (\<lambda>_. P) P"

text \<open>An action that keeps an assertion when it returns and weakens it to \<open>E\<close> when it raises.\<close>

abbreviation kept :: "('s \<Rightarrow> bool) \<Rightarrow> ('s \<Rightarrow> bool) \<Rightarrow> ('s, 'a) action \<Rightarrow> bool" where
  "kept P E m \<equiv> hoare P m (\<lambda>_. P) E"

named_theorems triples \<open>rules of the calculus and triples of the ports\<close>

lemma hoareI:
  assumes "\<And>s x t. P s \<Longrightarrow> m s = (Inr x, t) \<Longrightarrow> Q x t" and "\<And>s e t. P s \<Longrightarrow> m s = (Inl e, t) \<Longrightarrow> E t"
  shows "hoare P m Q E"
  using assms by (auto simp: hoare_def split: prod.splits sum.splits)

lemma hoareD:
  "hoare P m Q E \<Longrightarrow> P s \<Longrightarrow> m s = (Inr x, t) \<Longrightarrow> Q x t"
  by (force simp: hoare_def)

lemma hoareD_raise:
  "hoare P m Q E \<Longrightarrow> P s \<Longrightarrow> m s = (Inl e, t) \<Longrightarrow> E t"
  by (force simp: hoare_def)

lemma hoare_weaken:
  assumes "hoare P m Q E" and "\<And>s. P' s \<Longrightarrow> P s" and "\<And>x s. Q x s \<Longrightarrow> Q' x s" and "\<And>s. E s \<Longrightarrow> E' s"
  shows "hoare P' m Q' E'"
  by (rule hoareI) (use hoareD [OF assms(1)] hoareD_raise [OF assms(1)] assms(2-4) in blast)+

lemma hoare_return [triples]: "(\<And>s. P s \<Longrightarrow> Q x s) \<Longrightarrow> hoare P (act_return x) Q E"
  by (simp add: hoare_def act_defs)

lemma hoare_raise [triples]: "(\<And>s. P s \<Longrightarrow> E s) \<Longrightarrow> hoare P (act_raise e) Q E"
  by (simp add: hoare_def act_defs)

lemma hoare_result: "(\<And>s x. P s \<Longrightarrow> r = Inr x \<Longrightarrow> Q x s) \<Longrightarrow> (\<And>s. P s \<Longrightarrow> E s) \<Longrightarrow> hoare P (act_result r) Q E"
  by (auto simp: hoare_def act_defs split: sum.splits)

lemma hoare_bind [triples]:
  assumes "hoare P m R E" and "\<And>x. hoare (R x) (f x) Q E"
  shows "hoare P (act_bind m f) Q E"
  using assms by (fastforce simp: hoare_def act_bind_def split: prod.splits sum.splits)

lemma hoare_then [triples]:
  assumes "hoare P m (\<lambda>_. R) E" and "hoare R n Q E"
  shows "hoare P (act_then m n) Q E"
  unfolding act_then_def by (rule hoare_bind [OF assms(1)]) (rule assms(2))

lemma hoare_if [triples]:
  assumes "b \<Longrightarrow> hoare P m Q E" and "\<not> b \<Longrightarrow> hoare P n Q E"
  shows "hoare P (if b then m else n) Q E"
  using assms by simp

lemma hoare_option [triples]:
  assumes "\<And>q. p = Some q \<Longrightarrow> hoare P (f q) (\<lambda>_. Q) E" and "\<And>s. p = None \<Longrightarrow> P s \<Longrightarrow> Q s"
  shows "hoare P (act_option p f) (\<lambda>_. Q) E"
  using assms by (cases p) (auto simp: act_option_def intro: hoare_return)

text \<open>The final block runs after a return and after an exception.\<close>

lemma hoare_finally [triples]:
  assumes "hoare P body (\<lambda>x. R (Some x)) (R None)" and "\<And>y. hoare (R y) cleanup (\<lambda>_. S y) E"
    and "\<And>x s. S (Some x) s \<Longrightarrow> Q x s" and "\<And>s. S None s \<Longrightarrow> E s"
  shows "hoare P (act_finally body cleanup) Q E"
proof (rule hoareI)
  fix s x t assume p: "P s" and r: "act_finally body cleanup s = (Inr x, t)"
  then obtain u z where b: "body s = (Inr x, u)" "cleanup u = (Inr z, t)"
    by (auto simp: act_finally_def split: prod.splits sum.splits)
  from hoareD [OF assms(2) hoareD [OF assms(1) p b(1)] b(2)] assms(3) show "Q x t" by blast
next
  fix s e t assume p: "P s" and r: "act_finally body cleanup s = (Inl e, t)"
  then obtain y u where b: "body s = (y, u)" by (cases "body s") auto
  show "E t"
  proof (cases "cleanup u")
    case (Pair z v)
    show ?thesis
    proof (cases z)
      case (Inl e')
      then have l: "cleanup u = (Inl e', t)" using r b Pair by (auto simp: act_finally_def)
      show ?thesis
      proof (cases y)
        case Inl': (Inl e'')
        from hoareD_raise [OF assms(2) hoareD_raise [OF assms(1) p b [unfolded Inl']] l] show ?thesis .
      next
        case (Inr x)
        from hoareD_raise [OF assms(2) hoareD [OF assms(1) p b [unfolded Inr]] l] show ?thesis .
      qed
    next
      case (Inr z')
      then have l: "cleanup u = (Inr z', t)" "y = Inl e" using r b Pair by (auto simp: act_finally_def)
      from assms(4) hoareD [OF assms(2) hoareD_raise [OF assms(1) p b [unfolded l(2)]] l(1)] show ?thesis .
    qed
  qed
qed

lemma hoare_fold:
  assumes "\<And>x a. x \<in> set xs \<Longrightarrow> hoare (P a) (f x a) P E"
  shows "hoare (P a) (act_fold f xs a) P E"
  using assms
proof (induction xs arbitrary: a)
  case (Cons x xs)
  show ?case
    unfolding act_fold.simps by (rule hoare_bind [where R = P]) (use Cons in auto)
qed (auto intro: hoare_return)

lemma hoare_update:
  assumes "\<And>s x t. P s \<Longrightarrow> f (get s) = Inr (x, t) \<Longrightarrow> Q x (put t s)" and "\<And>s. P s \<Longrightarrow> E s"
  shows "hoare P (act_update get put f) Q E"
  using assms by (auto simp: hoare_def act_update_def split: sum.splits prod.splits)

lemma hoare_zoom:
  assumes "\<And>s x t. P s \<Longrightarrow> m (get s) = (Inr x, t) \<Longrightarrow> Q x (put t s)"
    and "\<And>s e t. P s \<Longrightarrow> m (get s) = (Inl e, t) \<Longrightarrow> E (put t s)"
  shows "hoare P (act_zoom get put m) Q E"
  by (rule hoareI) (use assms in \<open>auto simp: act_zoom_def split: prod.splits\<close>)

lemma hoare_state:
  assumes "\<And>s0. P s0 \<Longrightarrow> hoare (\<lambda>s. s = s0) (f s0) Q E"
  shows "hoare P (\<lambda>s. f s s) Q E"
  using assms by (auto simp: hoare_def)

end
