(* ===== verification/Runner.thy ===== *)
theory Runner
  imports Actions Portfolio Lifecycle
begin

text \<open>
  \<open>runner/base.py\<close>, \<open>runner/ports.py\<close> and \<open>strategy/base.py\<close>: the strategy runner. The objects the
  runner is wired to (strategy, risk gate, context provider, sink, clock, stores) may share state,
  so each port is an action on one world; the runner's own state is its lifecycle state. An event
  source is a finite sequence of events with the effect of pulling each one. Bytes are strings.
\<close>

section \<open>Ports\<close>

record strategy_feedback =
  fb_kind :: string
  fb_envelope :: intent_envelope
  fb_client_order_id :: "string option"
  fb_reasons :: "string list"

record 'w state_store =
  store_save :: "string \<Rightarrow> string \<Rightarrow> ('w, unit) action"
  store_load :: "string \<Rightarrow> ('w, string option) action"

record 'w ports =
  pt_spec :: strategy_spec
  pt_sleeve :: sleeve_spec
  pt_on_init :: "strategy_view \<Rightarrow> ('w, unit) action"
  pt_on_event :: "normalized_event \<Rightarrow> strategy_view \<Rightarrow> ('w, strategy_decision list) action"
  pt_on_feedback :: "strategy_feedback \<Rightarrow> strategy_view \<Rightarrow> ('w, unit) action"
  pt_on_shutdown :: "strategy_view \<Rightarrow> ('w, unit) action"
  pt_snapshot :: "('w, string) action"
  pt_restore :: "string \<Rightarrow> ('w, unit) action"
  pt_pull :: "normalized_event \<Rightarrow> ('w, unit) action"
  pt_emit :: "intent_envelope \<Rightarrow> ('w, unit) action"
  pt_evaluate :: "intent_envelope \<Rightarrow> strategy_view \<Rightarrow> ('w, risk_decision) action"
  pt_now :: "('w, datetime) action"
  pt_uuid :: "('w, string) action"
  pt_context :: "('w, strategy_view) action"
  pt_reserve :: "(intent_envelope \<Rightarrow> ('w, string list option) action) option"
  pt_store :: "'w state_store option"
  pt_verdict_sink :: "(intent_envelope \<Rightarrow> risk_decision \<Rightarrow> ('w, unit) action) option"

text \<open>\<open>StrategyBase\<close>: the default hooks of a strategy, all but \<open>on_event\<close>.\<close>

record 'st strategy_hooks =
  hk_on_init :: "strategy_view \<Rightarrow> ('st, unit) action"
  hk_on_event :: "normalized_event \<Rightarrow> strategy_view \<Rightarrow> ('st, strategy_decision list) action"
  hk_on_shutdown :: "strategy_view \<Rightarrow> ('st, unit) action"
  hk_on_feedback :: "strategy_feedback \<Rightarrow> strategy_view \<Rightarrow> ('st, unit) action"
  hk_snapshot :: "('st, string) action"
  hk_restore :: "string \<Rightarrow> ('st, unit) action"

definition strategy_base :: "(normalized_event \<Rightarrow> strategy_view \<Rightarrow> ('st, strategy_decision list) action) \<Rightarrow> 'st strategy_hooks" where
  "strategy_base on_event =
     \<lparr>hk_on_init = (\<lambda>ctx. act_return ()), hk_on_event = on_event, hk_on_shutdown = (\<lambda>ctx. act_return ()),
      hk_on_feedback = (\<lambda>fb ctx. act_return ()), hk_snapshot = act_return [], hk_restore = (\<lambda>bytes. act_return ())\<rparr>"

section \<open>Results\<close>

record step_result =
  events_processed :: nat
  decisions_emitted :: nat
  intents_dispatched :: nat
  intents_rejected :: nat
  rejection_reasons :: "(string, nat) dict"

definition empty_step :: step_result where
  "empty_step = \<lparr>events_processed = 0, decisions_emitted = 0, intents_dispatched = 0, intents_rejected = 0, rejection_reasons = []\<rparr>"

record run_summary =
  rs_sleeve_id :: string
  rs_strategy_id :: string
  rs_counts :: step_result
  rs_started_at :: datetime
  rs_ended_at :: datetime
  rs_end_state :: strategy_state

definition add_reason :: "string \<Rightarrow> nat \<Rightarrow> (string, nat) dict \<Rightarrow> (string, nat) dict" where
  "add_reason reason n d = dict_set reason (dict_get_default d reason 0 + n) d"

definition add_reasons :: "string list \<Rightarrow> (string, nat) dict \<Rightarrow> (string, nat) dict" where
  "add_reasons reasons d = foldl (\<lambda>d r. add_reason r 1 d) d reasons"

section \<open>The runner\<close>

record 'w runner =
  rn_state :: strategy_state
  rn_world :: 'w

definition at_world :: "('w, 'a) action \<Rightarrow> ('w runner, 'a) action" where
  "at_world m = act_zoom rn_world (\<lambda>w r. r\<lparr>rn_world := w\<rparr>) m"

text \<open>A branch on the lifecycle state.\<close>

definition when_state :: "(strategy_state \<Rightarrow> bool) \<Rightarrow> ('w runner, 'a) action \<Rightarrow> ('w runner, 'a) action \<Rightarrow> ('w runner, 'a) action" where
  "when_state b m n r = (if b (rn_state r) then m r else n r)"

definition transition :: "strategy_state \<Rightarrow> ('w runner, unit) action" where
  [step_defs]: "transition target r =
     (if can_transition (rn_state r) target then (Inr (), r\<lparr>rn_state := target\<rparr>)
      else (Inl (RuntimeError ''invalid strategy transition''), r))"

definition halt :: "('w runner, unit) action" where
  [step_defs]: "halt = when_state (\<lambda>s. can_transition s ST_HALTED) (transition ST_HALTED) (act_return ())"

definition load_state :: "'w ports \<Rightarrow> ('w runner, unit) action" where
  "load_state pts =
     act_option (pt_store pts) (\<lambda>store.
       act_bind (at_world (store_load store (ss_strategy_id (pt_spec pts)))) (\<lambda>saved.
         act_option saved (\<lambda>bytes. at_world (pt_restore pts bytes))))"

definition start :: "'w ports \<Rightarrow> ('w runner, unit) action" where
  [step_defs]: "start pts =
     when_state (\<lambda>s. s \<noteq> ST_CREATED) (act_raise (RuntimeError ''cannot start runner''))
       (act_then (transition ST_INITIALIZING)
       (act_bind (at_world (pt_context pts)) (\<lambda>ctx.
        act_then (load_state pts)
       (act_then (at_world (pt_on_init pts ctx))
       (act_then (transition ST_READY)
                 (transition ST_RUNNING))))))"

definition save_state :: "'w ports \<Rightarrow> ('w runner, unit) action" where
  "save_state pts =
     act_option (pt_store pts) (\<lambda>store.
       act_bind (at_world (pt_snapshot pts)) (\<lambda>bytes. at_world (store_save store (ss_strategy_id (pt_spec pts)) bytes)))"

definition stop :: "'w ports \<Rightarrow> ('w runner, unit) action" where
  [step_defs]: "stop pts =
     when_state (\<lambda>s. s = ST_DISPOSED) (act_return ())
       (act_then (when_state (\<lambda>s. s = ST_RUNNING) (transition ST_DRAINING) (act_return ()))
       (act_bind (at_world (pt_context pts)) (\<lambda>ctx.
        act_then (at_world (pt_on_shutdown pts ctx))
       (act_then (save_state pts)
                 (when_state (\<lambda>s. s = ST_DRAINING) (transition ST_DISPOSED) (act_return ()))))))"

section \<open>Wrapping a decision\<close>

definition attach_triggering_snapshot :: "strategy_decision \<Rightarrow> normalized_event \<Rightarrow> strategy_decision result" where
  "attach_triggering_snapshot decision triggering =
     (case decision of
        PlaceOrder d \<Rightarrow>
          if po_market_snapshot d \<noteq> None then Inr decision
          else (case triggering of
                  QuoteEvent eid q prov \<Rightarrow>
                    bind_result (market_snapshot_from_quote_event eid q prov (Some (po_outcome_side d))) (\<lambda>s.
                    bind_result (mk_place_order (d\<lparr>po_market_snapshot := Some s\<rparr>)) (\<lambda>d'. Inr (PlaceOrder d')))
                | OrderBookEvent eid b prov \<Rightarrow>
                    bind_result (market_snapshot_from_book_event eid b prov (po_outcome_side d)) (\<lambda>s.
                    bind_result (mk_place_order (d\<lparr>po_market_snapshot := Some s\<rparr>)) (\<lambda>d'. Inr (PlaceOrder d')))
                | _ \<Rightarrow> Inr decision)
      | _ \<Rightarrow> Inr decision)"

definition wrap :: "'w ports \<Rightarrow> strategy_decision \<Rightarrow> normalized_event \<Rightarrow> ('w, intent_envelope) action" where
  "wrap pts decision triggering =
     act_bind (act_result (attach_triggering_snapshot decision triggering)) (\<lambda>decision'.
     act_bind (pt_uuid pts) (\<lambda>correlation_id.
     act_bind (pt_now pts) (\<lambda>now.
     act_result (mk_intent_envelope
       \<lparr>env_decision = decision', env_strategy_id = ss_strategy_id (pt_spec pts),
        env_sleeve_id = sl_sleeve_id (pt_sleeve pts), env_correlation_id = correlation_id, emitted_at = now,
        env_priority = decision_priority decision' (default_execution_priority (pt_spec pts)),
        triggered_by_event_id = Some (event_id triggering),
        env_metadata = [(''decision_kind'', PyStr (decision_kind decision'))]\<rparr>))))"

fun client_order_id :: "strategy_decision \<Rightarrow> string option" where
  "client_order_id (PlaceOrder d) = Some (po_client_order_id d)"
| "client_order_id (CancelOrder d) = Some (co_client_order_id d)"
| "client_order_id (ReplaceOrder d) = Some (ro_client_order_id d)"
| "client_order_id _ = None"

definition reserve_if_supported :: "'w ports \<Rightarrow> intent_envelope \<Rightarrow> ('w, string list) action" where
  "reserve_if_supported pts envelope =
     (case pt_reserve pts of
        None \<Rightarrow> act_return []
      | Some reserve \<Rightarrow> act_bind (reserve envelope) (\<lambda>result. act_return (case result of None \<Rightarrow> [] | Some reasons \<Rightarrow> reasons)))"

definition emit_feedback :: "'w ports \<Rightarrow> string \<Rightarrow> intent_envelope \<Rightarrow> strategy_view \<Rightarrow> string list \<Rightarrow> ('w, unit) action" where
  "emit_feedback pts kind envelope ctx reasons =
     pt_on_feedback pts
       \<lparr>fb_kind = kind, fb_envelope = envelope, fb_client_order_id = client_order_id (env_decision envelope), fb_reasons = reasons\<rparr> ctx"

section \<open>One event\<close>

definition count_rejected :: "string list \<Rightarrow> step_result \<Rightarrow> step_result" where
  "count_rejected reasons c =
     c\<lparr>decisions_emitted := Suc (decisions_emitted c), intents_rejected := Suc (intents_rejected c),
       rejection_reasons := add_reasons reasons (rejection_reasons c)\<rparr>"

definition count_dispatched :: "step_result \<Rightarrow> step_result" where
  "count_dispatched c =
     c\<lparr>decisions_emitted := Suc (decisions_emitted c), intents_dispatched := Suc (intents_dispatched c)\<rparr>"

definition reject_intent ::
  "'w ports \<Rightarrow> intent_envelope \<Rightarrow> strategy_view \<Rightarrow> string list \<Rightarrow> step_result \<Rightarrow> ('w, step_result) action" where
  "reject_intent pts envelope ctx reasons c =
     act_then (emit_feedback pts ''IntentRejected'' envelope ctx reasons) (act_return (count_rejected reasons c))"

definition dispatch_intent :: "'w ports \<Rightarrow> intent_envelope \<Rightarrow> strategy_view \<Rightarrow> step_result \<Rightarrow> ('w, step_result) action" where
  "dispatch_intent pts envelope ctx c =
     act_bind (reserve_if_supported pts envelope) (\<lambda>reservation_reasons.
       if reservation_reasons \<noteq> [] then reject_intent pts envelope ctx reservation_reasons c
       else act_then (pt_emit pts envelope)
           (act_then (emit_feedback pts ''IntentAccepted'' envelope ctx [])
                     (act_return (count_dispatched c))))"

definition handle_decision :: "'w ports \<Rightarrow> normalized_event \<Rightarrow> strategy_decision \<Rightarrow> step_result \<Rightarrow> ('w, step_result) action" where
  "handle_decision pts event decision c =
     act_bind (wrap pts decision event) (\<lambda>envelope.
     act_bind (pt_context pts) (\<lambda>risk_ctx.
     act_bind (pt_evaluate pts envelope risk_ctx) (\<lambda>verdict.
     act_then (act_option (pt_verdict_sink pts) (\<lambda>sink. sink envelope verdict))
       (if rd_allowed verdict then dispatch_intent pts envelope risk_ctx c
        else reject_intent pts envelope risk_ctx
               (if rd_reasons verdict = [] then [''unspecified''] else rd_reasons verdict) c))))"

definition handle_event :: "'w ports \<Rightarrow> normalized_event \<Rightarrow> ('w, step_result) action" where
  "handle_event pts event =
     act_bind (pt_context pts) (\<lambda>ctx.
     act_bind (pt_on_event pts event ctx) (\<lambda>decisions.
       act_fold (handle_decision pts event) decisions (empty_step\<lparr>events_processed := 1\<rparr>)))"

definition process_event :: "'w ports \<Rightarrow> normalized_event \<Rightarrow> ('w runner, step_result) action" where
  [step_defs]: "process_event pts event =
     when_state (\<lambda>s. s \<noteq> ST_RUNNING) (act_return empty_step) (at_world (handle_event pts event))"

section \<open>The run\<close>

definition merge_reasons :: "(string, nat) dict \<Rightarrow> (string, nat) dict \<Rightarrow> (string, nat) dict" where
  "merge_reasons new d = foldl (\<lambda>d (reason, n). add_reason reason n d) d new"

definition add_step :: "step_result \<Rightarrow> step_result \<Rightarrow> step_result" where
  "add_step c step =
     \<lparr>events_processed = events_processed c + events_processed step,
      decisions_emitted = decisions_emitted c + decisions_emitted step,
      intents_dispatched = intents_dispatched c + intents_dispatched step,
      intents_rejected = intents_rejected c + intents_rejected step,
      rejection_reasons = merge_reasons (rejection_reasons step) (rejection_reasons c)\<rparr>"

fun run_events :: "'w ports \<Rightarrow> normalized_event list \<Rightarrow> step_result \<Rightarrow> ('w runner, step_result) action" where
  "run_events pts [] c = act_return c"
| "run_events pts (event # events) c =
     act_then (at_world (pt_pull pts event))
    (act_bind (process_event pts event) (\<lambda>step.
       if events_processed step = 0 then act_return c else run_events pts events (add_step c step)))"

definition summarize :: "'w ports \<Rightarrow> datetime \<Rightarrow> step_result \<Rightarrow> datetime \<Rightarrow> ('w runner, run_summary) action" where
  "summarize pts started_at c ended_at r =
     (Inr \<lparr>rs_sleeve_id = sl_sleeve_id (pt_sleeve pts), rs_strategy_id = ss_strategy_id (pt_spec pts), rs_counts = c,
           rs_started_at = started_at, rs_ended_at = ended_at, rs_end_state = rn_state r\<rparr>, r)"

definition run :: "'w ports \<Rightarrow> normalized_event list \<Rightarrow> ('w runner, run_summary) action" where
  [step_defs]: "run pts events =
     act_bind (at_world (pt_now pts)) (\<lambda>started_at.
     act_then (start pts)
    (act_bind (act_finally (run_events pts events empty_step) (stop pts)) (\<lambda>c.
     act_bind (at_world (pt_now pts)) (\<lambda>ended_at. summarize pts started_at c ended_at))))"

end
