(* ===== verification/RunnerProps.thy ===== *)
theory RunnerProps
  imports Runner
begin

text \<open>
  What the runner guarantees whatever the objects behind its ports do: its lifecycle, its counts,
  and, given a contract of the ports, that only cleared and funded intents reach the sink. The
  contract is a locale; it is interpreted on a session that wires the runner to the sleeve's risk
  gate and to the in-process portfolio.
\<close>

section \<open>Lifecycle\<close>

lemma hoare_at_world:
  assumes "hoare P m Q E"
  shows "hoare (\<lambda>r. rn_state r = s \<and> P (rn_world r)) (at_world m)
    (\<lambda>x r. rn_state r = s \<and> Q x (rn_world r)) (\<lambda>r. rn_state r = s \<and> E (rn_world r))"
  unfolding at_world_def by (rule hoare_zoom) (use hoareD [OF assms] hoareD_raise [OF assms] in auto)

lemma hoare_True: "hoare P m (\<lambda>_ _. True) (\<lambda>_. True)"
  by (rule hoareI) auto

lemma at_world_state: "hoare (\<lambda>r. rn_state r = s) (at_world m) (\<lambda>_ r. rn_state r = s) (\<lambda>r. rn_state r = s)"
  using hoare_at_world [OF hoare_True, of s "\<lambda>_. True" m] by simp

lemma kept_at_world: "kept P E m \<Longrightarrow> kept (\<lambda>r. rn_state r = s \<and> P (rn_world r)) (\<lambda>r. rn_state r = s \<and> E (rn_world r)) (at_world m)"
  by (rule hoare_at_world)

lemma hoare_transition:
  "can_transition s t \<Longrightarrow> hoare (\<lambda>r. rn_state r = s \<and> P (rn_world r)) (transition t) (\<lambda>_ r. rn_state r = t \<and> P (rn_world r)) E"
  by (rule hoareI) (auto simp: transition_def)

lemma hoare_when_state:
  assumes "b s \<Longrightarrow> hoare (\<lambda>r. rn_state r = s \<and> P r) m Q E" and "\<not> b s \<Longrightarrow> hoare (\<lambda>r. rn_state r = s \<and> P r) n Q E"
  shows "hoare (\<lambda>r. rn_state r = s \<and> P r) (when_state b m n) Q E"
  using assms by (cases "b s") (auto simp: hoare_def when_state_def)

text \<open>An assertion on the world that the ports used by an operation keep.\<close>

definition store_kept :: "('w \<Rightarrow> bool) \<Rightarrow> ('w \<Rightarrow> bool) \<Rightarrow> 'w ports \<Rightarrow> bool" where
  "store_kept P E pts \<longleftrightarrow>
     (\<forall>store. pt_store pts = Some store \<longrightarrow> (\<forall>i b. kept P E (store_save store i b)) \<and> (\<forall>i. kept P E (store_load store i)))
     \<and> kept P E (pt_snapshot pts) \<and> (\<forall>b. kept P E (pt_restore pts b))"

lemma start_triple:
  assumes ctx: "kept P E (pt_context pts)" and init: "\<And>c. kept P E (pt_on_init pts c)" and store: "store_kept P E pts"
  shows "hoare (\<lambda>r. rn_state r = ST_CREATED \<and> P (rn_world r)) (start pts)
    (\<lambda>_ r. rn_state r = ST_RUNNING \<and> P (rn_world r)) (\<lambda>r. rn_state r = ST_INITIALIZING \<and> E (rn_world r))"
proof -
  let ?I = "\<lambda>r. rn_state r = ST_INITIALIZING \<and> P (rn_world r)" and ?X = "\<lambda>r. rn_state r = ST_INITIALIZING \<and> E (rn_world r)"
  have l: "kept ?I ?X (load_state pts)"
    unfolding load_state_def
    by (intro hoare_option hoare_bind [where R = "\<lambda>_. ?I"] kept_at_world) (use store in \<open>auto simp: store_kept_def\<close>)
  have t: "hoare ?I (transition ST_READY) (\<lambda>_ r. rn_state r = ST_READY \<and> P (rn_world r)) ?X"
    and u: "hoare (\<lambda>r. rn_state r = ST_READY \<and> P (rn_world r)) (transition ST_RUNNING) (\<lambda>_ r. rn_state r = ST_RUNNING \<and> P (rn_world r)) ?X"
    and v: "hoare (\<lambda>r. rn_state r = ST_CREATED \<and> P (rn_world r)) (transition ST_INITIALIZING) (\<lambda>_. ?I) ?X"
    by (rule hoare_transition, simp add: can_transition_def)+
  show ?thesis
    unfolding start_def
    by (rule hoare_when_state, simp)
      (intro hoare_then [OF v] hoare_bind [OF kept_at_world [OF ctx]] hoare_then [OF l] hoare_then [OF kept_at_world [OF init]] hoare_then [OF t] u)
qed

lemma stop_triple:
  assumes ctx: "kept P E (pt_context pts)" and down: "\<And>c. kept P E (pt_on_shutdown pts c)" and store: "store_kept P E pts"
  shows "hoare (\<lambda>r. rn_state r = ST_RUNNING \<and> P (rn_world r)) (stop pts)
    (\<lambda>_ r. rn_state r = ST_DISPOSED \<and> P (rn_world r)) (\<lambda>r. rn_state r = ST_DRAINING \<and> E (rn_world r))"
proof -
  let ?D = "\<lambda>r. rn_state r = ST_DRAINING \<and> P (rn_world r)" and ?X = "\<lambda>r. rn_state r = ST_DRAINING \<and> E (rn_world r)"
  have s: "kept ?D ?X (save_state pts)"
    unfolding save_state_def
    by (intro hoare_option hoare_bind [where R = "\<lambda>_. ?D"] kept_at_world) (use store in \<open>auto simp: store_kept_def\<close>)
  have d: "hoare (\<lambda>r. rn_state r = ST_RUNNING \<and> P (rn_world r)) (when_state (\<lambda>s. s = ST_RUNNING) (transition ST_DRAINING) (act_return ())) (\<lambda>_. ?D) ?X"
    by (rule hoare_when_state) (auto intro: hoare_transition simp: can_transition_def)
  have e: "hoare ?D (when_state (\<lambda>s. s = ST_DRAINING) (transition ST_DISPOSED) (act_return ())) (\<lambda>_ r. rn_state r = ST_DISPOSED \<and> P (rn_world r)) ?X"
    by (rule hoare_when_state) (auto intro: hoare_transition simp: can_transition_def)
  show ?thesis
    unfolding stop_def
    by (rule hoare_when_state, simp)
      (intro hoare_then [OF d] hoare_bind [OF kept_at_world [OF ctx]] hoare_then [OF kept_at_world [OF down]] hoare_then [OF s] e)
qed

lemma process_event_triple:
  assumes "hoare P (handle_event pts event) Q E"
  shows "hoare (\<lambda>r. rn_state r = ST_RUNNING \<and> P (rn_world r)) (process_event pts event)
    (\<lambda>x r. rn_state r = ST_RUNNING \<and> Q x (rn_world r)) (\<lambda>r. rn_state r = ST_RUNNING \<and> E (rn_world r))"
  unfolding process_event_def
  by (rule hoare_when_state, simp) (rule hoare_at_world [OF assms])

text \<open>The event loop, with an assertion about what was counted so far.\<close>

lemma run_events_triple:
  assumes pull: "\<And>c e. e \<in> set events \<Longrightarrow> kept (P c) E (pt_pull pts e)"
    and step: "\<And>c e. hoare (P c) (handle_event pts e) (\<lambda>step w. events_processed step \<noteq> 0 \<and> P (add_step c step) w) E"
  shows "hoare (\<lambda>r. rn_state r = ST_RUNNING \<and> P c (rn_world r)) (run_events pts events c)
    (\<lambda>c r. rn_state r = ST_RUNNING \<and> P c (rn_world r)) (\<lambda>r. rn_state r = ST_RUNNING \<and> E (rn_world r))"
  using pull
proof (induction events arbitrary: c)
  case (Cons event events)
  have pull': "hoare (\<lambda>r. rn_state r = ST_RUNNING \<and> P c (rn_world r)) (at_world (pt_pull pts event))
      (\<lambda>_ r. rn_state r = ST_RUNNING \<and> P c (rn_world r)) (\<lambda>r. rn_state r = ST_RUNNING \<and> E (rn_world r))"
    by (rule kept_at_world [OF Cons.prems]) simp
  have rest: "hoare (\<lambda>r. rn_state r = ST_RUNNING \<and> events_processed step \<noteq> 0 \<and> P (add_step c step) (rn_world r))
      (if events_processed step = 0 then act_return c else run_events pts events (add_step c step))
      (\<lambda>c r. rn_state r = ST_RUNNING \<and> P c (rn_world r)) (\<lambda>r. rn_state r = ST_RUNNING \<and> E (rn_world r))" for step
    by (cases "events_processed step = 0") (auto simp: hoare_def [of "\<lambda>_. False"] intro: hoare_weaken [OF Cons.IH [OF Cons.prems]])
  show ?case
    unfolding run_events.simps
    by (rule hoare_then [OF pull'], rule hoare_bind [OF process_event_triple [OF step]]) (rule rest)
qed (auto intro: hoare_return)

text \<open>A complete run: the loop may raise, the final block stops the runner in either case.\<close>

lemma run_triple:
  assumes now: "\<And>c. kept (P c) E (pt_now pts)" and ctx: "\<And>c. kept (P c) E (pt_context pts)"
    and init: "\<And>c x. kept (P c) E (pt_on_init pts x)" and down: "\<And>c x. kept (P c) E (pt_on_shutdown pts x)"
    and store: "\<And>c. store_kept (P c) E pts"
    and E: "kept E E (pt_context pts)" "\<And>x. kept E E (pt_on_shutdown pts x)" "store_kept E E pts"
    and pull: "\<And>c e. e \<in> set events \<Longrightarrow> kept (P c) E (pt_pull pts e)"
    and step: "\<And>c e. hoare (P c) (handle_event pts e) (\<lambda>step w. events_processed step \<noteq> 0 \<and> P (add_step c step) w) E"
  shows "hoare (\<lambda>r. rn_state r = ST_CREATED \<and> P empty_step (rn_world r)) (run pts events)
    (\<lambda>s r. rn_state r = ST_DISPOSED \<and> rs_end_state s = ST_DISPOSED \<and> P (rs_counts s) (rn_world r))
    (\<lambda>r. rn_state r \<in> {ST_CREATED, ST_INITIALIZING, ST_DRAINING, ST_DISPOSED} \<and> E (rn_world r))"
    (is "hoare _ _ _ ?X")
proof -
  let ?P = "\<lambda>s c r. rn_state r = s \<and> P c (rn_world r)"
  have n1: "hoare (?P s c) (at_world (pt_now pts)) (\<lambda>_. ?P s c) ?X" if "s \<in> {ST_CREATED, ST_DISPOSED}" for s c
    by (rule hoare_weaken [OF kept_at_world [OF now]]) (use that in auto)
  have st: "hoare (?P ST_CREATED c) (start pts) (\<lambda>_. ?P ST_RUNNING c) ?X" for c
    by (rule hoare_weaken [OF start_triple [OF ctx init store]]) auto
  have loop: "hoare (?P ST_RUNNING empty_step) (run_events pts events empty_step) (?P ST_RUNNING)
      (\<lambda>r. rn_state r = ST_RUNNING \<and> E (rn_world r))"
    by (rule run_events_triple [OF pull step])
  have fin: "hoare (?P ST_RUNNING empty_step) (act_finally (run_events pts events empty_step) (stop pts)) (?P ST_DISPOSED) ?X"
  proof (rule hoare_finally [where
        R = "\<lambda>y. case y of None \<Rightarrow> (\<lambda>r. rn_state r = ST_RUNNING \<and> E (rn_world r)) | Some c \<Rightarrow> ?P ST_RUNNING c" and
        S = "\<lambda>y. case y of None \<Rightarrow> (\<lambda>r. rn_state r = ST_DISPOSED \<and> E (rn_world r)) | Some c \<Rightarrow> ?P ST_DISPOSED c"])
    show "hoare (?P ST_RUNNING empty_step) (run_events pts events empty_step)
        (\<lambda>x. case Some x of None \<Rightarrow> (\<lambda>r. rn_state r = ST_RUNNING \<and> E (rn_world r)) | Some c \<Rightarrow> ?P ST_RUNNING c)
        (case None of None \<Rightarrow> (\<lambda>r. rn_state r = ST_RUNNING \<and> E (rn_world r)) | Some c \<Rightarrow> ?P ST_RUNNING c)"
      using loop by simp
    show "hoare (case y of None \<Rightarrow> (\<lambda>r. rn_state r = ST_RUNNING \<and> E (rn_world r)) | Some c \<Rightarrow> ?P ST_RUNNING c) (stop pts)
        (\<lambda>_. case y of None \<Rightarrow> (\<lambda>r. rn_state r = ST_DISPOSED \<and> E (rn_world r)) | Some c \<Rightarrow> ?P ST_DISPOSED c) ?X" for y
    proof (cases y)
      case None
      show ?thesis unfolding None option.case by (rule hoare_weaken [OF stop_triple [OF E]]) auto
    next
      case (Some c)
      show ?thesis unfolding Some option.case by (rule hoare_weaken [OF stop_triple [OF ctx down store]]) auto
    qed
  qed auto
  have su: "hoare (?P ST_DISPOSED c) (summarize pts t c u)
      (\<lambda>s r. rn_state r = ST_DISPOSED \<and> rs_end_state s = ST_DISPOSED \<and> P (rs_counts s) (rn_world r)) ?X" for t c u
    by (rule hoareI) (auto simp: summarize_def)
  show ?thesis
    unfolding run_def
    by (rule hoare_bind [OF n1], simp, rule hoare_then [OF st], rule hoare_bind [OF fin], rule hoare_bind [OF n1], simp, rule su)
qed

section \<open>The contract of the ports\<close>

text \<open>
  \<open>good n\<close> is what holds between calls when \<open>n\<close> intents have been sent; \<open>cleared e n\<close> holds after the
  gate has allowed \<open>e\<close>, \<open>funded e n\<close> after the provider has also reserved it. Every port keeps
  \<open>good n\<close> when it returns and leaves \<open>failed\<close> when it raises; only the sink, called on a funded
  intent, moves on to the next number. \<open>feed\<close> are the events the contract is about.
\<close>

definition from_runner :: "'w ports \<Rightarrow> intent_envelope \<Rightarrow> bool" where
  "from_runner pts e \<longleftrightarrow>
     env_strategy_id e = ss_strategy_id (pt_spec pts) \<and> env_sleeve_id e = sl_sleeve_id (pt_sleeve pts) \<and> intent_envelope_check e = None"

text \<open>Counts that add up: each decision is dispatched or rejected, and each rejection has a reason.\<close>

definition tally :: "step_result \<Rightarrow> bool" where
  "tally c \<longleftrightarrow> decisions_emitted c = intents_dispatched c + intents_rejected c
     \<and> intents_rejected c \<le> sum_list (map snd (rejection_reasons c)) \<and> wf_dict (rejection_reasons c)"

lemma add_reason_sum:
  "sum_list (map snd (add_reason r n d)) = sum_list (map snd d) + n" if "wf_dict d"
  using that
proof (induction d)
  case (Cons kv d)
  then have "wf_dict d" by (simp add: wf_dict_def)
  with Cons.IH show ?case by (cases "fst kv = r") (auto simp: add_reason_def dict_get_default_def)
qed (simp add: add_reason_def)

lemma add_reason_wf [simp]: "wf_dict d \<Longrightarrow> wf_dict (add_reason r n d)"
  by (simp add: add_reason_def)

lemma add_reasons_sum:
  "wf_dict d \<Longrightarrow> sum_list (map snd (add_reasons rs d)) = sum_list (map snd d) + length rs \<and> wf_dict (add_reasons rs d)"
  by (induction rs arbitrary: d) (simp_all add: add_reasons_def add_reason_sum)

lemma merge_reasons_sum:
  "wf_dict d \<Longrightarrow> sum_list (map snd (merge_reasons new d)) = sum_list (map snd d) + sum_list (map snd new) \<and> wf_dict (merge_reasons new d)"
  by (induction new arbitrary: d) (auto simp add: merge_reasons_def add_reason_sum)

lemma tally_empty: "tally (empty_step\<lparr>events_processed := k\<rparr>)" "tally empty_step"
  by (simp_all add: tally_def empty_step_def)

lemma tally_rejected: "tally c \<Longrightarrow> reasons \<noteq> [] \<Longrightarrow> tally (count_rejected reasons c)"
  using add_reasons_sum [of "rejection_reasons c" reasons]
  by (cases reasons) (auto simp: tally_def count_rejected_def)

lemma tally_dispatched: "tally c \<Longrightarrow> tally (count_dispatched c)"
  by (simp add: tally_def count_dispatched_def)

lemma tally_add: "tally c \<Longrightarrow> tally step \<Longrightarrow> tally (add_step c step)"
  using merge_reasons_sum [of "rejection_reasons c" "rejection_reasons step"]
  by (auto simp: tally_def add_step_def)

lemma act_then_Inr:
  assumes "act_then m n s = (Inr y, u)"
  obtains t where "m s = (Inr (), t)" and "n t = (Inr y, u)"
  using assms by (auto simp: act_then_def elim: act_bind_Inr)

definition one_decision :: "step_result \<Rightarrow> step_result \<Rightarrow> bool" where
  "one_decision c c' \<longleftrightarrow> events_processed c' = events_processed c \<and> decisions_emitted c' = Suc (decisions_emitted c)"

lemma count_dispatched_counts: "one_decision c (count_dispatched c)"
  by (simp add: one_decision_def count_dispatched_def)

lemma reject_counts: "reject_intent pts e ctx reasons c w = (Inr c', w') \<Longrightarrow> one_decision c c'"
  by (auto simp: reject_intent_def act_return_def count_rejected_def one_decision_def elim!: act_then_Inr)

lemma dispatch_counts:
  assumes "dispatch_intent pts e ctx c w = (Inr c', w')"
  shows "one_decision c c'"
proof -
  from assms obtain reasons t where
    "(if reasons \<noteq> [] then reject_intent pts e ctx reasons c
      else act_then (pt_emit pts e) (act_then (emit_feedback pts ''IntentAccepted'' e ctx []) (act_return (count_dispatched c)))) t = (Inr c', w')"
    unfolding dispatch_intent_def by (rule act_bind_Inr)
  then show ?thesis
    using reject_counts [of pts e ctx reasons c t]
    by (cases "reasons = []") (auto simp: act_return_def count_dispatched_counts elim!: act_then_Inr)
qed

lemma handle_decision_counts: "handle_decision pts event d c w = (Inr c', w') \<Longrightarrow> one_decision c c'"
  by (auto simp: handle_decision_def dest: reject_counts dispatch_counts elim!: act_bind_Inr act_then_Inr split: if_splits)

lemma fold_decisions_counts:
  "act_fold (handle_decision pts event) ds c w = (Inr c', w') \<Longrightarrow>
     events_processed c' = events_processed c \<and> decisions_emitted c' = decisions_emitted c + length ds"
  by (induction ds arbitrary: c w) (force simp: act_return_def one_decision_def dest: handle_decision_counts elim!: act_bind_Inr)+

lemma handle_event_counts:
  assumes "handle_event pts event w = (Inr c, w')"
  shows "events_processed c = 1 \<and>
    (\<exists>ctx ds w1 w2. pt_on_event pts event ctx w1 = (Inr ds, w2) \<and> decisions_emitted c = length ds)"
  using assms by (fastforce simp: handle_event_def empty_step_def dest: fold_decisions_counts elim!: act_bind_Inr)

locale guarded_ports =
  fixes pts :: "'w ports"
    and good :: "nat \<Rightarrow> 'w \<Rightarrow> bool"
    and cleared :: "intent_envelope \<Rightarrow> nat \<Rightarrow> 'w \<Rightarrow> bool"
    and funded :: "intent_envelope \<Rightarrow> nat \<Rightarrow> 'w \<Rightarrow> bool"
    and failed :: "'w \<Rightarrow> bool"
    and feed :: "normalized_event \<Rightarrow> bool"
  assumes good_failed: "good n w \<Longrightarrow> failed w"
    and good_now: "kept (good n) failed (pt_now pts)"
    and good_uuid: "kept (good n) failed (pt_uuid pts)"
    and good_context: "kept (good n) failed (pt_context pts)"
    and good_init: "kept (good n) failed (pt_on_init pts ctx)"
    and good_event: "kept (good n) failed (pt_on_event pts event ctx)"
    and good_feedback: "kept (good n) failed (pt_on_feedback pts fb ctx)"
    and good_shutdown: "kept (good n) failed (pt_on_shutdown pts ctx)"
    and good_store: "store_kept (good n) failed pts"
    and good_pull: "feed event \<Longrightarrow> kept (good n) failed (pt_pull pts event)"
    and evaluate: "from_runner pts e \<Longrightarrow>
      hoare (good n) (pt_evaluate pts e ctx) (\<lambda>v w. if rd_allowed v then cleared e n w else good n w) failed"
    and verdict_cleared: "pt_verdict_sink pts = Some sink \<Longrightarrow> hoare (cleared e n) (sink e v) (\<lambda>_. cleared e n) failed"
    and verdict_good: "pt_verdict_sink pts = Some sink \<Longrightarrow> kept (good n) failed (sink e v)"
    and reserve: "pt_reserve pts = Some res \<Longrightarrow>
      hoare (cleared e n) (res e) (\<lambda>r w. if r = None \<or> r = Some [] then funded e n w else good n w) failed"
    and no_reserve: "pt_reserve pts = None \<Longrightarrow> cleared e n w \<Longrightarrow> funded e n w"
    and emit: "hoare (funded e n) (pt_emit pts e) (\<lambda>_. good (Suc n)) failed"
    and failed_context: "stable failed (pt_context pts)"
    and failed_shutdown: "stable failed (pt_on_shutdown pts ctx)"
    and failed_store: "store_kept failed failed pts"
begin

definition tallied :: "nat \<Rightarrow> step_result \<Rightarrow> 'w \<Rightarrow> bool" where
  "tallied n0 c w \<longleftrightarrow> good (n0 + intents_dispatched c) w \<and> tally c"

lemma tallied_kept: "(\<And>n. kept (good n) failed m) \<Longrightarrow> kept (tallied n0 c) failed m"
  unfolding tallied_def by (rule hoareI) (blast dest: hoareD hoareD_raise)+

lemma wrap_triple: "hoare (good n) (wrap pts d event) (\<lambda>e w. good n w \<and> from_runner pts e) failed"
  unfolding wrap_def
  by (rule hoare_bind [OF hoare_result [where Q = "\<lambda>_. good n"]], assumption, erule good_failed, rule hoare_bind [OF good_uuid],
      rule hoare_bind [OF good_now], rule hoare_result)
    (auto simp: from_runner_def mk_intent_envelope_def intent_envelope_check_def intro: good_failed)

lemma reject_triple:
  "reasons \<noteq> [] \<Longrightarrow> hoare (tallied n0 c) (reject_intent pts e ctx reasons c) (tallied n0) failed"
  unfolding reject_intent_def emit_feedback_def
  by (rule hoare_then [OF tallied_kept [OF good_feedback]], rule hoare_return)
    (auto simp: tallied_def count_rejected_def intro: tally_rejected [unfolded count_rejected_def])

lemma reserve_triple:
  "hoare (cleared e n) (reserve_if_supported pts e) (\<lambda>rs w. if rs = [] then funded e n w else good n w) failed"
proof (cases "pt_reserve pts")
  case None
  then show ?thesis unfolding reserve_if_supported_def by (auto intro: hoare_return no_reserve)
next
  case (Some res)
  show ?thesis
    unfolding reserve_if_supported_def Some option.case
    by (rule hoare_bind [OF reserve [OF Some]], rule hoare_return) (auto split: option.splits if_splits)
qed

lemma dispatch_triple:
  "hoare (\<lambda>w. cleared e (n0 + intents_dispatched c) w \<and> tally c) (dispatch_intent pts e ctx c) (tallied n0) failed"
proof -
  let ?n = "n0 + intents_dispatched c"
  have r: "hoare (\<lambda>w. cleared e ?n w \<and> tally c) (reserve_if_supported pts e)
      (\<lambda>rs w. (if rs = [] then funded e ?n w else good ?n w) \<and> tally c) failed"
    by (rule hoareI) (auto dest: hoareD [OF reserve_triple] hoareD_raise [OF reserve_triple])
  have d: "tally c \<Longrightarrow> tallied n0 (count_dispatched c) w = good (Suc ?n) w" for w
    by (simp add: tallied_def count_dispatched_def tally_dispatched [unfolded count_dispatched_def])
  have em: "tally c \<Longrightarrow> hoare (funded e ?n) (pt_emit pts e) (\<lambda>_. tallied n0 (count_dispatched c)) failed"
    by (rule hoare_weaken [OF emit]) (auto simp: d)
  have ok: "tally c \<Longrightarrow> hoare (funded e ?n)
      (act_then (pt_emit pts e) (act_then (emit_feedback pts ''IntentAccepted'' e ctx []) (act_return (count_dispatched c)))) (tallied n0) failed"
    unfolding emit_feedback_def
    by (rule hoare_then [OF em], assumption, rule hoare_then [OF tallied_kept [OF good_feedback]], rule hoare_return)
  show ?thesis
    unfolding dispatch_intent_def
  proof (rule hoare_bind [OF r])
    fix rs
    show "hoare (\<lambda>w. (if rs = [] then funded e ?n w else good ?n w) \<and> tally c)
      (if rs \<noteq> [] then reject_intent pts e ctx rs c
       else act_then (pt_emit pts e) (act_then (emit_feedback pts ''IntentAccepted'' e ctx []) (act_return (count_dispatched c))))
      (tallied n0) failed"
    proof (cases "rs = []")
      case True
      then show ?thesis using ok by (auto simp: hoare_def)
    next
      case False
      with reject_triple [OF False, of n0 c e ctx] show ?thesis by (simp add: tallied_def [abs_def])
    qed
  qed
qed

lemma evaluate_triple:
  "hoare (\<lambda>w. tallied n0 c w \<and> from_runner pts e) (pt_evaluate pts e ctx)
    (\<lambda>v w. if rd_allowed v then cleared e (n0 + intents_dispatched c) w \<and> tally c else tallied n0 c w) failed"
  by (rule hoareI) (auto simp: tallied_def dest: hoareD [OF evaluate] hoareD_raise [OF evaluate] split: if_splits)

lemma verdict_triple:
  "hoare (\<lambda>w. if rd_allowed v then cleared e (n0 + intents_dispatched c) w \<and> tally c else tallied n0 c w)
    (act_option (pt_verdict_sink pts) (\<lambda>sink. sink e v))
    (\<lambda>_ w. if rd_allowed v then cleared e (n0 + intents_dispatched c) w \<and> tally c else tallied n0 c w) failed"
proof (rule hoare_option)
  fix sink assume s: "pt_verdict_sink pts = Some sink"
  show "hoare (\<lambda>w. if rd_allowed v then cleared e (n0 + intents_dispatched c) w \<and> tally c else tallied n0 c w) (sink e v)
    (\<lambda>_ w. if rd_allowed v then cleared e (n0 + intents_dispatched c) w \<and> tally c else tallied n0 c w) failed"
    by (rule hoareI) (auto simp: tallied_def split: if_splits
        dest: hoareD [OF verdict_cleared [OF s]] hoareD_raise [OF verdict_cleared [OF s]]
          hoareD [OF verdict_good [OF s]] hoareD_raise [OF verdict_good [OF s]])
qed

lemma handle_decision_triple: "hoare (tallied n0 c) (handle_decision pts event d c) (tallied n0) failed"
proof -
  have w: "hoare (tallied n0 c) (wrap pts d event) (\<lambda>e w. tallied n0 c w \<and> from_runner pts e) failed"
    by (rule hoareI) (auto simp: tallied_def dest: hoareD [OF wrap_triple] hoareD_raise [OF wrap_triple])
  have x: "hoare (\<lambda>w. tallied n0 c w \<and> from_runner pts e) (pt_context pts) (\<lambda>_ w. tallied n0 c w \<and> from_runner pts e) failed" for e
    by (rule hoareI) (auto dest: hoareD [OF tallied_kept [OF good_context]] hoareD_raise [OF tallied_kept [OF good_context]])
  have f: "hoare (\<lambda>w. if rd_allowed v then cleared e (n0 + intents_dispatched c) w \<and> tally c else tallied n0 c w)
      (if rd_allowed v then dispatch_intent pts e ctx c
       else reject_intent pts e ctx (if rd_reasons v = [] then [''unspecified''] else rd_reasons v) c) (tallied n0) failed" for v e ctx
    using dispatch_triple reject_triple [of "if rd_reasons v = [] then [''unspecified''] else rd_reasons v" n0 c e ctx]
    by (cases "rd_allowed v") simp_all
  show ?thesis
    unfolding handle_decision_def
    by (rule hoare_bind [OF w], rule hoare_bind [OF x], rule hoare_bind [OF evaluate_triple], rule hoare_then [OF verdict_triple], rule f)
qed

lemma handle_event_triple:
  "hoare (good n) (handle_event pts event) (\<lambda>step w. events_processed step = 1 \<and> tallied n step w) failed"
proof -
  have f: "hoare (tallied n c) (act_fold (handle_decision pts event) ds c) (tallied n) failed" for ds c
    by (rule hoare_fold) (rule handle_decision_triple)
  have i: "tallied n (empty_step\<lparr>events_processed := 1\<rparr>) w = good n w" for w
    by (simp add: tallied_def tally_empty) (simp add: empty_step_def)
  have "hoare (good n) (handle_event pts event) (tallied n) failed"
    unfolding handle_event_def
    by (rule hoare_bind [OF good_context], rule hoare_bind [OF good_event])
      (rule f [where c = "empty_step\<lparr>events_processed := 1\<rparr>", unfolded i])
  then show ?thesis
    by (auto intro!: hoareI dest: hoareD hoareD_raise handle_event_counts)
qed

lemma tallied_step: "tallied (n0 + intents_dispatched c) step w \<Longrightarrow> tally c \<Longrightarrow> tallied n0 (add_step c step) w"
  by (auto simp: tallied_def tally_add) (simp add: add_step_def add.assoc)

lemma handle_event_step:
  "hoare (tallied n c) (handle_event pts e) (\<lambda>step w. events_processed step \<noteq> 0 \<and> tallied n (add_step c step) w) failed"
  by (rule hoareI) (auto simp: tallied_def [of n c] dest: hoareD [OF handle_event_triple] hoareD_raise [OF handle_event_triple] tallied_step)

lemma tallied_empty: "tallied n empty_step w = good n w"
  by (simp add: tallied_def tally_empty) (simp add: empty_step_def)

lemma run_events_guarded:
  assumes "list_all feed events"
  shows "hoare (\<lambda>r. rn_state r = ST_RUNNING \<and> good n (rn_world r)) (run_events pts events empty_step)
    (\<lambda>c r. rn_state r = ST_RUNNING \<and> tallied n c (rn_world r)) (\<lambda>r. rn_state r = ST_RUNNING \<and> failed (rn_world r))"
proof -
  have "hoare (\<lambda>r. rn_state r = ST_RUNNING \<and> tallied n empty_step (rn_world r)) (run_events pts events empty_step)
    (\<lambda>c r. rn_state r = ST_RUNNING \<and> tallied n c (rn_world r)) (\<lambda>r. rn_state r = ST_RUNNING \<and> failed (rn_world r))"
    by (rule run_events_triple [OF _ handle_event_step])
      (use assms in \<open>auto simp: list_all_iff intro: tallied_kept good_pull\<close>)
  then show ?thesis by (simp only: tallied_empty)
qed

text \<open>What a run does, whether it returns or raises.\<close>

lemma run_guarded:
  assumes "list_all feed events"
  shows "hoare (\<lambda>r. rn_state r = ST_CREATED \<and> good n (rn_world r)) (run pts events)
    (\<lambda>s r. rn_state r = ST_DISPOSED \<and> rs_end_state s = ST_DISPOSED \<and> tally (rs_counts s)
       \<and> good (n + intents_dispatched (rs_counts s)) (rn_world r))
    (\<lambda>r. rn_state r \<in> {ST_CREATED, ST_INITIALIZING, ST_DRAINING, ST_DISPOSED} \<and> failed (rn_world r))"
proof -
  have s: "store_kept (tallied n c) failed pts" for c
    using good_store unfolding store_kept_def by (blast intro: tallied_kept)
  have "hoare (\<lambda>r. rn_state r = ST_CREATED \<and> tallied n empty_step (rn_world r)) (run pts events)
      (\<lambda>s r. rn_state r = ST_DISPOSED \<and> rs_end_state s = ST_DISPOSED \<and> tallied n (rs_counts s) (rn_world r))
      (\<lambda>r. rn_state r \<in> {ST_CREATED, ST_INITIALIZING, ST_DRAINING, ST_DISPOSED} \<and> failed (rn_world r))"
    by (rule run_triple) (simp_all only: handle_event_step, auto intro: s tallied_kept good_now good_context good_init good_shutdown
        failed_context failed_shutdown failed_store, use assms in \<open>auto simp: list_all_iff intro: tallied_kept good_pull\<close>)
  then show ?thesis unfolding tallied_empty by (rule hoare_weaken) (auto simp: tallied_def)
qed

end

section \<open>Arbitrary ports\<close>

interpretation any_ports: guarded_ports pts "\<lambda>_ _. True" "\<lambda>_ _ _. True" "\<lambda>_ _ _. True" "\<lambda>_. True" "\<lambda>_. True" for pts :: "'w ports"
  by unfold_locales (auto simp: store_kept_def hoare_def split: prod.splits sum.splits)

section \<open>A session\<close>

text \<open>
  The runner wired to \<open>SleeveRiskGate\<close>, \<open>StatefulContextProvider\<close> and the in-memory clock, source,
  sink and state store of \<open>testing/doubles.py\<close>. The strategy is arbitrary: its hooks act on its own state.
\<close>

record 'st session =
  se_strategy :: 'st
  se_gate :: gate_state
  se_portfolio :: portfolio
  se_sent :: "intent_envelope list"
  se_clock :: datetime
  se_draws :: nat
  se_blobs :: "(string, string) dict"
  se_verdicts :: "(intent_envelope \<times> risk_decision) list"

definition on_strategy :: "('st, 'a) action \<Rightarrow> ('st session, 'a) action" where
  "on_strategy m = act_zoom se_strategy (\<lambda>st w. w\<lparr>se_strategy := st\<rparr>) m"

definition in_memory_store :: "'st session state_store" where
  "in_memory_store =
     \<lparr>store_save = (\<lambda>i bytes w. (Inr (), w\<lparr>se_blobs := dict_set i bytes (se_blobs w)\<rparr>)),
      store_load = (\<lambda>i w. (Inr (dict_get (se_blobs w) i), w))\<rparr>"

definition session_ports :: "strategy_spec \<Rightarrow> sleeve_spec \<Rightarrow> 'st strategy_hooks \<Rightarrow> (nat \<Rightarrow> string) \<Rightarrow> 'st session ports" where
  "session_ports spec sleeve hooks uuid =
     \<lparr>pt_spec = spec, pt_sleeve = sleeve,
      pt_on_init = (\<lambda>ctx. on_strategy (hk_on_init hooks ctx)),
      pt_on_event = (\<lambda>event ctx. on_strategy (hk_on_event hooks event ctx)),
      pt_on_feedback = (\<lambda>fb ctx. on_strategy (hk_on_feedback hooks fb ctx)),
      pt_on_shutdown = (\<lambda>ctx. on_strategy (hk_on_shutdown hooks ctx)),
      pt_snapshot = on_strategy (hk_snapshot hooks),
      pt_restore = (\<lambda>bytes. on_strategy (hk_restore hooks bytes)),
      pt_pull = (\<lambda>event. act_return ()),
      pt_emit = (\<lambda>e w. (Inr (), w\<lparr>se_sent := se_sent w @ [e]\<rparr>)),
      pt_evaluate = (\<lambda>e ctx. act_update se_gate (\<lambda>g w. w\<lparr>se_gate := g\<rparr>) (gate_evaluate sleeve e ctx)),
      pt_now = (\<lambda>w. (Inr (se_clock w), w)),
      pt_uuid = (\<lambda>w. (Inr (uuid (se_draws w)), w\<lparr>se_draws := Suc (se_draws w)\<rparr>)),
      pt_context = (\<lambda>w. (portfolio_context (se_clock w) (se_portfolio w), w)),
      pt_reserve = Some (\<lambda>e. act_bind (act_update se_portfolio (\<lambda>p w. w\<lparr>se_portfolio := p\<rparr>) (reserve_intent e)) (\<lambda>rs. act_return (Some rs))),
      pt_store = Some in_memory_store,
      pt_verdict_sink = Some (\<lambda>e v w. (Inr (), w\<lparr>se_verdicts := se_verdicts w @ [(e, v)]\<rparr>))\<rparr>"

lemma session_ports_sel [simp]:
  "pt_spec (session_ports spec sleeve hooks uuid) = spec"
  "pt_sleeve (session_ports spec sleeve hooks uuid) = sleeve"
  by (simp_all add: session_ports_def)

text \<open>
  What every sent intent satisfies: it carries the sleeve's identity, and a new order is within the
  limits that do not depend on the portfolio, on a fresh snapshot of its own market.
\<close>

definition order_within_limits :: "sleeve_spec \<Rightarrow> place_order \<Rightarrow> datetime \<Rightarrow> bool" where
  "order_within_limits sl d now \<longleftrightarrow>
     order_notional d \<le> max_order_notional (sl_risk sl) \<and> check_execution_bounds d (sl_risk sl) now = [] \<and>
     check_fee_adjusted_edge d = Inr [] \<and>
     (\<exists>s age. po_market_snapshot d = Some s \<and> age_ms s now = Inr age \<and> 0 \<le> age \<and> age \<le> max_market_data_age_ms (sl_risk sl) \<and>
        snap_instrument_id s = po_instrument_id d \<and> snap_side s = po_outcome_side d \<and> \<not> snap_sequence_gap s \<and>
        bbo_reasons d (sl_risk sl) s = [])"

definition sent_ok :: "strategy_spec \<Rightarrow> sleeve_spec \<Rightarrow> intent_envelope \<Rightarrow> bool" where
  "sent_ok spec sl e \<longleftrightarrow>
     env_strategy_id e = ss_strategy_id spec \<and> env_sleeve_id e = sl_sleeve_id sl \<and>
     (\<forall>d. env_decision e = PlaceOrder d \<longrightarrow> order_within_limits sl d (emitted_at e))"

lemma gate_clears:
  assumes "gate_evaluate sl e cx g = Inr (v, g')" and "rd_allowed v" and "env_decision e = PlaceOrder d"
  shows "order_within_limits sl d (emitted_at e)"
proof -
  from assms have "evaluate_place_order sl d cx (emitted_at e) True g = Inr (v, g')"
    by (auto simp: gate_evaluate_def split: if_splits)
  from evaluate_allowed(1) [OF this assms(2)] show ?thesis by (auto simp: within_limits_def order_within_limits_def)
qed

definition session_good :: "strategy_spec \<Rightarrow> sleeve_spec \<Rightarrow> intent_envelope list \<Rightarrow> nat \<Rightarrow> 'st session \<Rightarrow> bool" where
  "session_good spec sl before n w \<longleftrightarrow>
     (\<exists>new. se_sent w = before @ new \<and> length new = n \<and> list_all (sent_ok spec sl) new)"

definition session_cleared ::
  "strategy_spec \<Rightarrow> sleeve_spec \<Rightarrow> intent_envelope list \<Rightarrow> intent_envelope \<Rightarrow> nat \<Rightarrow> 'st session \<Rightarrow> bool" where
  "session_cleared spec sl before e n w \<longleftrightarrow> session_good spec sl before n w \<and> sent_ok spec sl e"

lemmas session_defs = session_good_def session_cleared_def session_ports_def on_strategy_def in_memory_store_def

interpretation session: guarded_ports "session_ports spec sl hooks uuid" "session_good spec sl before"
    "session_cleared spec sl before" "session_cleared spec sl before" "\<lambda>w. \<exists>n. session_good spec sl before n w" "\<lambda>_. True" for spec sl hooks uuid before
proof unfold_locales
  fix e n ctx
  assume r: "from_runner (session_ports spec sl hooks uuid) e"
  show "hoare (session_good spec sl before n) (pt_evaluate (session_ports spec sl hooks uuid) e ctx)
      (\<lambda>v w. if rd_allowed v then session_cleared spec sl before e n w else session_good spec sl before n w) (\<lambda>w. \<exists>n. session_good spec sl before n w)"
    unfolding session_ports_def ports.simps
    by (rule hoare_update) (use r in \<open>auto simp: session_defs from_runner_def sent_ok_def dest: gate_clears\<close>)
next
  fix e n
  show "hoare (session_cleared spec sl before e n) (pt_emit (session_ports spec sl hooks uuid) e)
      (\<lambda>_. session_good spec sl before (Suc n)) (\<lambda>w. \<exists>m. session_good spec sl before m w)"
    by (rule hoareI) (auto simp: session_defs)
qed (auto simp: session_defs store_kept_def act_defs hoare_def split: prod.splits sum.splits)

section \<open>Funding\<close>

definition grid_intent :: "intent_envelope \<Rightarrow> bool" where
  "grid_intent e \<longleftrightarrow> (\<forall>d. env_decision e = PlaceOrder d \<longrightarrow> on_grid 8 (order_notional d))"

definition cash_total_of :: "portfolio \<Rightarrow> decimal" where
  "cash_total_of p = (case dict_get (pf_cash p) (pf_currency p) of None \<Rightarrow> 0 | Some b \<Rightarrow> cash_total b)"

definition cash_available_of :: "portfolio \<Rightarrow> decimal" where
  "cash_available_of p = (case dict_get (pf_cash p) (pf_currency p) of None \<Rightarrow> 0 | Some b \<Rightarrow> cash_available b)"

text \<open>The buys of a list of intents: client order id and notional.\<close>

definition buy_of :: "intent_envelope \<Rightarrow> (string \<times> decimal) list" where
  "buy_of e =
     (case env_decision e of
        PlaceOrder d \<Rightarrow> if po_order_side d = BUY \<and> 0 < order_notional d then [(po_client_order_id d, order_notional d)] else []
      | _ \<Rightarrow> [])"

definition add_reservation :: "(string, decimal) dict \<Rightarrow> string \<times> decimal \<Rightarrow> (string, decimal) dict" where
  "add_reservation res b = (if dict_get res (fst b) = None then dict_set (fst b) (snd b) res else res)"

lemma reserve_intent_effect:
  assumes "books_balanced p" and "reserve_intent e p = Inr (reasons, p')" and "grid_intent e"
  shows "books_balanced p' \<and> cash_total_of p' = cash_total_of p
    \<and> pf_reservations p' = (if reasons = [] then foldl add_reservation (pf_reservations p) (buy_of e) else pf_reservations p)"
proof -
  from assms(1) obtain b where b: "dict_get (pf_cash p) (pf_currency p) = Some b" by (rule books_balancedE)
  have "covered_call (ReserveIntent e) p" using assms(3) by (auto simp: grid_intent_def split: strategy_decision.splits)
  from reserve_intent_balanced [OF assms(1) this assms(2)] have "books_balanced p'" .
  moreover have "cash_total_of p' = cash_total_of p
      \<and> pf_reservations p' = (if reasons = [] then foldl add_reservation (pf_reservations p) (buy_of e) else pf_reservations p)"
  proof (cases "env_decision e")
    case (PlaceOrder d)
    show ?thesis
    proof (cases "po_order_side d = BUY \<and> dict_get (pf_reservations p) (po_client_order_id d) = None \<and> 0 < order_notional d")
      case True
      with PlaceOrder assms(2) b show ?thesis
        by (auto simp: reserve_intent_def pf_reserve_def cash_of_def bind_result_Inr_iff set_cash_Inr buy_of_def add_reservation_def
            cash_total_of_def split: if_splits)
    next
      case False
      with PlaceOrder assms(2) show ?thesis
        by (auto simp: reserve_intent_def pf_reserve_def buy_of_def add_reservation_def split: if_splits)
    qed
  qed (use assms(2) in \<open>auto simp: reserve_intent_def buy_of_def\<close>)
  ultimately show ?thesis by blast
qed

definition books_follow :: "(string, decimal) dict \<Rightarrow> decimal \<Rightarrow> intent_envelope list \<Rightarrow> portfolio \<Rightarrow> bool" where
  "books_follow res total_cash new p \<longleftrightarrow>
     books_balanced p \<and> cash_total_of p = total_cash \<and> pf_reservations p = foldl add_reservation res (concat (map buy_of new))"

definition funding_good ::
  "(string, decimal) dict \<Rightarrow> decimal \<Rightarrow> intent_envelope list \<Rightarrow> nat \<Rightarrow> 'st session \<Rightarrow> bool" where
  "funding_good res total_cash before n w \<longleftrightarrow>
     (\<exists>new. se_sent w = before @ new \<and> length new = n \<and> (list_all grid_intent new \<longrightarrow> books_follow res total_cash new (se_portfolio w)))"

definition funding_funded ::
  "(string, decimal) dict \<Rightarrow> decimal \<Rightarrow> intent_envelope list \<Rightarrow> intent_envelope \<Rightarrow> nat \<Rightarrow> 'st session \<Rightarrow> bool" where
  "funding_funded res total_cash before e n w \<longleftrightarrow>
     (\<exists>new. se_sent w = before @ new \<and> length new = n \<and> (list_all grid_intent (new @ [e]) \<longrightarrow> books_follow res total_cash (new @ [e]) (se_portfolio w)))"

lemmas funding_defs = funding_good_def session_ports_def on_strategy_def in_memory_store_def

lemma reserve_funds:
  assumes "funding_good res tc before n w" and "reserve_intent e (se_portfolio w) = Inr (reasons, p)"
  shows "if reasons = [] then funding_funded res tc before e n (w\<lparr>se_portfolio := p\<rparr>) else funding_good res tc before n (w\<lparr>se_portfolio := p\<rparr>)"
proof -
  from assms(1) obtain new where n: "se_sent w = before @ new" "length new = n"
    "list_all grid_intent new \<longrightarrow> books_follow res tc new (se_portfolio w)" by (auto simp: funding_good_def)
  show ?thesis
  proof (cases "reasons = []")
    case True
    have "books_follow res tc (new @ [e]) p" if "list_all grid_intent (new @ [e])"
      using reserve_intent_effect [OF _ assms(2)] that n(3) True by (auto simp: books_follow_def)
    with True n(1,2) show ?thesis by (auto simp: funding_funded_def)
  next
    case False
    then have "p = se_portfolio w"
      using assms(2) by (auto simp: reserve_intent_def pf_reserve_def bind_result_Inr_iff split: strategy_decision.splits if_splits)
    with False assms(1) show ?thesis by simp
  qed
qed

interpretation funding: guarded_ports "session_ports spec sl hooks uuid" "funding_good res tc before"
    "\<lambda>e. funding_good res tc before" "funding_funded res tc before" "\<lambda>w. \<exists>n. funding_good res tc before n w" "\<lambda>_. True" for spec sl hooks uuid res tc before
proof unfold_locales
  fix rs e n
  assume "pt_reserve (session_ports spec sl hooks uuid) = Some rs"
  then have rs: "rs e = act_bind (act_update se_portfolio (\<lambda>p w. w\<lparr>se_portfolio := p\<rparr>) (reserve_intent e)) (\<lambda>rs. act_return (Some rs))"
    by (auto simp: session_ports_def)
  show "hoare (funding_good res tc before n) (rs e)
      (\<lambda>r w. if r = None \<or> r = Some [] then funding_funded res tc before e n w else funding_good res tc before n w) (\<lambda>w. \<exists>n. funding_good res tc before n w)"
    unfolding rs
  proof (rule hoare_bind)
    show "hoare (funding_good res tc before n) (act_update se_portfolio (\<lambda>p w. w\<lparr>se_portfolio := p\<rparr>) (reserve_intent e))
        (\<lambda>reasons w. if reasons = [] then funding_funded res tc before e n w else funding_good res tc before n w) (\<lambda>w. \<exists>n. funding_good res tc before n w)"
      by (rule hoare_update, rule reserve_funds) blast+
    show "hoare (\<lambda>w. if reasons = [] then funding_funded res tc before e n w else funding_good res tc before n w) (act_return (Some reasons))
        (\<lambda>r w. if r = None \<or> r = Some [] then funding_funded res tc before e n w else funding_good res tc before n w)
        (\<lambda>w. \<exists>n. funding_good res tc before n w)" for reasons
      by (rule hoare_return) simp
  qed
next
  fix e n
  show "hoare (funding_funded res tc before e n) (pt_emit (session_ports spec sl hooks uuid) e)
      (\<lambda>_. funding_good res tc before (Suc n)) (\<lambda>w. \<exists>m. funding_good res tc before m w)"
    by (rule hoareI) (auto simp: funding_defs funding_funded_def)
qed (auto simp: funding_defs store_kept_def act_defs hoare_def split: prod.splits sum.splits)

lemma add_reservations_sum:
  assumes "wf_dict res" and "distinct (map fst bs)" and "\<forall>k \<in> set (map fst bs). dict_get res k = None"
  shows "sum_list (map snd (foldl add_reservation res bs)) = sum_list (map snd res) + sum_list (map snd bs)
    \<and> (\<forall>(k, x) \<in> set bs. dict_get (foldl add_reservation res bs) k = Some x)
    \<and> (\<forall>k. k \<notin> set (map fst bs) \<longrightarrow> dict_get (foldl add_reservation res bs) k = dict_get res k)"
  using assms
proof (induction bs arbitrary: res)
  case (Cons b bs)
  let ?res = "dict_set (fst b) (snd b) res"
  have a: "add_reservation res b = ?res" using Cons.prems(3) by (simp add: add_reservation_def)
  have "sum_list (map snd (foldl add_reservation ?res bs)) = sum_list (map snd ?res) + sum_list (map snd bs)
    \<and> (\<forall>(k, x) \<in> set bs. dict_get (foldl add_reservation ?res bs) k = Some x)
    \<and> (\<forall>k. k \<notin> set (map fst bs) \<longrightarrow> dict_get (foldl add_reservation ?res bs) k = dict_get ?res k)"
    by (rule Cons.IH) (use Cons.prems in \<open>auto simp: rev_image_eqI\<close>)
  moreover have "sum_list (map snd ?res) = sum_list (map snd res) + snd b"
    using sum_dict_set [OF Cons.prems(1), of "fst b" "snd b"] Cons.prems(3) by simp
  ultimately show ?case using Cons.prems(2) a by (cases b) auto
qed auto

lemma balanced_available:
  assumes "books_balanced p"
  shows "cash_available_of p = cash_total_of p - reserved_sum p" and "0 \<le> cash_available_of p"
  using assms by (auto simp: cash_available_of_def cash_total_of_def elim!: books_balancedE)

lemma process_event_funding:
  assumes "books_balanced (se_portfolio (rn_world r))"
    and "process_event (session_ports spec sl hooks uuid) event r = (x, r')"
  shows "\<exists>new. se_sent (rn_world r') = se_sent (rn_world r) @ new \<and>
    (list_all grid_intent new \<longrightarrow> books_follow (pf_reservations (se_portfolio (rn_world r))) (cash_total_of (se_portfolio (rn_world r))) new
       (se_portfolio (rn_world r')))"
proof (cases "rn_state r = ST_RUNNING")
  case True
  let ?w = "rn_world r"
  let ?g = "funding_good (pf_reservations (se_portfolio ?w)) (cash_total_of (se_portfolio ?w)) (se_sent ?w)"
  have g: "?g 0 ?w" using assms(1) by (simp add: funding_good_def books_follow_def)
  have "\<exists>n. ?g n (rn_world r')"
  proof (cases x)
    case (Inl e)
    with hoareD_raise [OF process_event_triple [OF funding.handle_event_triple] conjI [OF True g]] assms(2)
    show ?thesis by (fastforce )
  next
    case (Inr step)
    with hoareD [OF process_event_triple [OF funding.handle_event_triple] conjI [OF True g]] assms(2)
    show ?thesis by (fastforce simp: funding.tallied_def)
  qed
  then show ?thesis by (auto simp: funding_good_def)
next
  case False
  with assms show ?thesis by (auto simp: process_event_def when_state_def act_return_def books_follow_def)
qed

section \<open>A concrete session\<close>

text \<open>A strategy that buys twenty contracts at one half on every event and forgets everything else.\<close>

definition demo_spec :: strategy_spec where
  "demo_spec =
     \<lparr>ss_strategy_id = ''strategy'', ss_name = ''buyer'', ss_version = ''1'', ss_description = ''buyer'',
      subscription = \<lparr>sub_venues = [KALSHI], instrument_patterns = [''*''], sub_event_kinds = [''timer''], external_sources = []\<rparr>,
      default_execution_priority = DEFAULT_EXECUTION_PRIORITY, ss_parameters = [], ss_model = None, ss_feature_schema_id = None,
      ss_tags = []\<rparr>"

definition demo_ports :: "unit session ports" where
  "demo_ports =
     session_ports demo_spec gate_sleeve (strategy_base (\<lambda>event ctx. act_return [PlaceOrder (gate_order BUY (1 / 2) 20)])) (\<lambda>n. ''x'')"

definition demo_session :: "unit session" where
  "demo_session =
     \<lparr>se_strategy = (), se_gate = new_gate, se_portfolio = pf_demo, se_sent = [], se_clock = utc 500000, se_draws = 0,
      se_blobs = [], se_verdicts = []\<rparr>"

definition demo_runner :: "strategy_state \<Rightarrow> unit session runner" where
  "demo_runner s = \<lparr>rn_state = s, rn_world = demo_session\<rparr>"

definition demo_tick :: normalized_event where
  "demo_tick = TimerEvent ''t1'' \<lparr>tm_timestamp = utc 500000, tm_label = ''tick''\<rparr> default_provenance"

lemma list_all_True: "list_all (\<lambda>_. True) xs"
  by (simp add: list_all_iff)

section \<open>Guarantees\<close>



text \<open>
  C2: Every intent a run sends, whatever the strategy decides and even when the run ends with an
  exception, carries the identity of the strategy and its sleeve, and every new order among them
  was cleared by the risk gate: notional, execution bounds and fee-adjusted edge within the
  sleeve's limits, on a fresh, gap-free snapshot of its own market. When the run returns, the
  number of dispatched intents it reports is the number the sink received.
\<close>

theorem session_sends_within_limits:
  assumes "rn_state r = ST_CREATED" and "run (session_ports spec sl hooks uuid) events r = (x, r')"
  shows "\<exists>new. se_sent (rn_world r') = se_sent (rn_world r) @ new \<and> list_all (sent_ok spec sl) new
    \<and> (\<forall>s. x = Inr s \<longrightarrow> length new = intents_dispatched (rs_counts s))"
proof -
  have g: "session_good spec sl (se_sent (rn_world r)) 0 (rn_world r)" by (simp add: session_good_def)
  show ?thesis
  proof (cases x)
    case (Inl e)
    with hoareD_raise [OF session.run_guarded [OF list_all_True] conjI [OF assms(1) g] assms(2) [unfolded Inl]] show ?thesis
      by (auto simp: session_good_def)
  next
    case (Inr s)
    with hoareD [OF session.run_guarded [OF list_all_True] conjI [OF assms(1) g] assms(2) [unfolded Inr]] show ?thesis
      by (auto simp: session_good_def)
  qed
qed

theorem session_sends_within_limits_witness:
  "\<exists>s r' e. run demo_ports [demo_tick] (demo_runner ST_CREATED) = (Inr s, r') \<and> se_sent (rn_world r') = [e] \<and> sent_ok demo_spec gate_sleeve e"
proof -
  let ?r = "run demo_ports [demo_tick] (demo_runner ST_CREATED)"
  have "case fst ?r of Inr s \<Rightarrow> intents_dispatched (rs_counts s) = 1 | Inl _ \<Rightarrow> False" by code_simp
  then obtain s r' where r: "?r = (Inr s, r')" "intents_dispatched (rs_counts s) = 1"
    by (cases ?r) (auto split: sum.splits)
  have c: "rn_state (demo_runner ST_CREATED) = ST_CREATED" "se_sent (rn_world (demo_runner ST_CREATED)) = []"
    by (simp_all add: demo_runner_def demo_session_def)
  from session_sends_within_limits [OF c(1) r(1) [unfolded demo_ports_def]] c(2) r show ?thesis
    by (auto simp: length_Suc_conv)
qed



text \<open>
  A halted runner is never disposed by its own operations: after \<open>halt\<close> succeeds, stopping it runs
  the shutdown hooks but leaves it halted, processing an event returns the empty result and changes
  nothing, and starting it again raises.
\<close>

theorem halted_runner_stays_halted:
  assumes "rn_state r = ST_HALTED"
  shows "rn_state (snd (stop pts r)) = ST_HALTED \<and> process_event pts event r = (Inr empty_step, r)
    \<and> start pts r = (Inl (RuntimeError ''cannot start runner''), r)"
proof -
  have "hoare (\<lambda>r. rn_state r = ST_HALTED \<and> True) (stop pts) (\<lambda>_ r. rn_state r = ST_HALTED) (\<lambda>r. rn_state r = ST_HALTED)"
    unfolding stop_def save_state_def act_option_def
    by (intro hoare_when_state hoare_then [where R = "\<lambda>r. rn_state r = ST_HALTED \<and> True"]
        hoare_bind [where R = "\<lambda>_ r. rn_state r = ST_HALTED \<and> True"])
      (auto intro!: hoare_return at_world_state hoare_bind [where R = "\<lambda>_ r. rn_state r = ST_HALTED"] split: option.splits)
  with assms have "rn_state (snd (stop pts r)) = ST_HALTED"
    by (cases "stop pts r") (auto simp: hoare_def split: sum.splits)
  with assms show ?thesis by (simp add: process_event_def start_def when_state_def act_return_def act_raise_def)
qed

theorem halted_runner_stays_halted_witness:
  "rn_state (demo_runner ST_HALTED) = ST_HALTED \<and> rn_state (snd (stop demo_ports (demo_runner ST_HALTED))) = ST_HALTED"
proof -
  have "rn_state (demo_runner ST_HALTED) = ST_HALTED" by (simp add: demo_runner_def)
  with halted_runner_stays_halted [OF this, of demo_ports] show ?thesis by blast
qed

end
