(* ===== verification/Backtest.thy ===== *)
theory Backtest
  imports RunnerProps Fees SimulatorInvariant
begin

text \<open>
  \<open>cli/backtest.py\<close> and \<open>execution/report.py\<close>: the backtest that wires the runner to the market
  simulator, the in-process portfolio, the risk gate and the report. The stored events and the
  strategy are arguments; the feature builder, which the command line never passes, is left out. The
  gate's loss ledger and the tracker's are one object, and the simulator hands each fill to the
  portfolio: here the fills of a simulator call are delivered in order when the call returns.
\<close>

section \<open>Latency\<close>

text \<open>
  \<open>execution/latency.py\<close>: latencies are durations in microseconds; how \<open>timedelta\<close> rounds a float
  number of milliseconds is left to the caller.
\<close>

record constant_latency =
  cl_submit :: timedelta
  cl_cancel :: timedelta
  cl_replace :: timedelta

definition constant_draw :: "constant_latency \<Rightarrow> string \<Rightarrow> timedelta" where
  "constant_draw l kind =
     (if kind = ''submit'' then cl_submit l
      else if kind = ''cancel'' then cl_cancel l
      else if kind = ''replace'' then cl_replace l
      else cl_submit l)"

record lookup_latency =
  ll_by_kind :: "(string, timedelta) dict"
  ll_default :: timedelta

definition lookup_draw :: "lookup_latency \<Rightarrow> string \<Rightarrow> timedelta" where
  "lookup_draw l kind = dict_get_default (ll_by_kind l) kind (ll_default l)"

section \<open>The world of a backtest\<close>

record 'st backtest =
  bt_strategy :: 'st
  bt_kill :: kill_switch
  bt_halt :: drawdown_halt
  bt_portfolio :: portfolio
  bt_sim :: simulator
  bt_clock :: datetime
  bt_draws :: nat
  bt_fills :: "fill list"

definition fee_model_for :: "venue \<Rightarrow> fee_model" where
  "fee_model_for v =
     (if v = KALSHI then kalshi_estimate default_kalshi_fee_model else polymarket_estimate default_polymarket_fee_model)"

fun event_time :: "normalized_event \<Rightarrow> datetime" where
  "event_time (TradeEvent eid t prov) = (case tr_exchange_ts t of Some x \<Rightarrow> x | None \<Rightarrow> tr_received_at t)"
| "event_time (QuoteEvent eid q prov) = (case q_exchange_ts q of Some x \<Rightarrow> x | None \<Rightarrow> q_received_at q)"
| "event_time (OrderBookEvent eid b prov) = (case bk_exchange_ts b of Some x \<Rightarrow> x | None \<Rightarrow> bk_received_at b)"
| "event_time (LifecycleEvent eid l prov) = (case lc_exchange_ts l of Some x \<Rightarrow> x | None \<Rightarrow> lc_received_at l)"
| "event_time (SettlementResolvedEvent eid s prov) = settled_at s"
| "event_time (OwnFillEvent eid f prov) = (case f_exchange_ts f of Some x \<Rightarrow> x | None \<Rightarrow> filled_at f)"
| "event_time (OwnOrderUpdateEvent eid r prov) = ord_updated_at r"
| "event_time (OwnOrderRejectEvent eid r prov) = rejected_at r"
| "event_time (ExternalSignalEvent eid x prov) = (case ext_exchange_ts x of Some t \<Rightarrow> t | None \<Rightarrow> ext_received_at x)"
| "event_time (TimerEvent eid t prov) = tm_timestamp t"

definition in_window :: "datetime option \<Rightarrow> datetime option \<Rightarrow> normalized_event \<Rightarrow> bool" where
  "in_window start_at end_at e \<longleftrightarrow>
     (case start_at of None \<Rightarrow> True | Some s \<Rightarrow> \<not> instant (event_time e) < instant s) \<and>
     (case end_at of None \<Rightarrow> True | Some s \<Rightarrow> \<not> instant (event_time e) \<ge> instant s)"

text \<open>A simulator call: its fills reach the portfolio, then the list of collected fills.\<close>

definition deliver_fill :: "fill \<Rightarrow> ('st backtest, unit) action" where
  "deliver_fill f =
     act_update bt_portfolio (\<lambda>p w. w\<lparr>bt_portfolio := p\<rparr>) (\<lambda>p. bind_result (pf_on_fill f p) (\<lambda>p'. Inr ((), p')))"

definition collect_fills :: "(simulator \<Rightarrow> (fill list \<times> simulator) result) \<Rightarrow> ('st backtest, unit) action" where
  "collect_fills call =
     act_bind (act_update bt_sim (\<lambda>s w. w\<lparr>bt_sim := s\<rparr>) call) (\<lambda>fills.
     act_then (act_fold (\<lambda>f _. deliver_fill f) fills ())
              (\<lambda>w. (Inr (), w\<lparr>bt_fills := bt_fills w @ fills\<rparr>)))"

definition feed_portfolio :: "normalized_event \<Rightarrow> ('st backtest, unit) action" where
  "feed_portfolio event =
     act_update bt_portfolio (\<lambda>p w. w\<lparr>bt_portfolio := p\<rparr>) (\<lambda>p. bind_result (pf_on_event event p) (\<lambda>p'. Inr ((), p')))"

definition set_clock :: "datetime \<Rightarrow> ('st backtest, unit) action" where
  "set_clock t w = (Inr (), w\<lparr>bt_clock := t\<rparr>)"

definition tee_event :: "sim_config \<Rightarrow> normalized_event \<Rightarrow> ('st backtest, unit) action" where
  "tee_event cfg event =
     act_then (set_clock (event_time event))
    (act_then (collect_fills (sim_on_event cfg event))
              (feed_portfolio event))"

text \<open>The gate reads the ledger the tracker writes.\<close>

definition shared_gate :: "'st backtest \<Rightarrow> gate_state" where
  "shared_gate w =
     \<lparr>gt_ledger = (case pt_ledger (pf_pnl (bt_portfolio w)) of Some l \<Rightarrow> l | None \<Rightarrow> new_ledger), gt_kill = bt_kill w, gt_halt = bt_halt w\<rparr>"

definition put_gate :: "gate_state \<Rightarrow> 'st backtest \<Rightarrow> 'st backtest" where
  "put_gate g w = w\<lparr>bt_kill := gt_kill g, bt_halt := gt_halt g\<rparr>"

definition on_bt_strategy :: "('st, 'a) action \<Rightarrow> ('st backtest, 'a) action" where
  "on_bt_strategy m = act_zoom bt_strategy (\<lambda>st w. w\<lparr>bt_strategy := st\<rparr>) m"

definition backtest_ports ::
  "strategy_spec \<Rightarrow> sleeve_spec \<Rightarrow> sim_config \<Rightarrow> 'st strategy_hooks \<Rightarrow> (nat \<Rightarrow> string) \<Rightarrow> 'st backtest ports" where
  "backtest_ports spec sleeve cfg hooks uuid =
     \<lparr>pt_spec = spec, pt_sleeve = sleeve,
      pt_on_init = (\<lambda>ctx. on_bt_strategy (hk_on_init hooks ctx)),
      pt_on_event = (\<lambda>event ctx. on_bt_strategy (hk_on_event hooks event ctx)),
      pt_on_feedback = (\<lambda>fb ctx. on_bt_strategy (hk_on_feedback hooks fb ctx)),
      pt_on_shutdown = (\<lambda>ctx. on_bt_strategy (hk_on_shutdown hooks ctx)),
      pt_snapshot = on_bt_strategy (hk_snapshot hooks),
      pt_restore = (\<lambda>bytes. on_bt_strategy (hk_restore hooks bytes)),
      pt_pull = tee_event cfg,
      pt_emit = (\<lambda>e. collect_fills (submit_envelope cfg e)),
      pt_evaluate = (\<lambda>e ctx. act_update shared_gate put_gate (gate_evaluate sleeve e ctx)),
      pt_now = (\<lambda>w. (Inr (bt_clock w), w)),
      pt_uuid = (\<lambda>w. (Inr (uuid (bt_draws w)), w\<lparr>bt_draws := Suc (bt_draws w)\<rparr>)),
      pt_context = (\<lambda>w. (portfolio_context (bt_clock w) (bt_portfolio w), w)),
      pt_reserve = Some (\<lambda>e. act_bind (act_update bt_portfolio (\<lambda>p w. w\<lparr>bt_portfolio := p\<rparr>) (reserve_intent e)) (\<lambda>rs. act_return (Some rs))),
      pt_store = None,
      pt_verdict_sink = None\<rparr>"

section \<open>The report\<close>

record backtest_report =
  br_sleeve_id :: string
  br_strategy_id :: string
  br_started_at :: datetime
  br_ended_at :: datetime
  br_counts :: step_result
  br_fills :: nat
  br_realized_pnl :: decimal
  br_unrealized_pnl :: decimal
  br_total_pnl :: decimal
  br_total_fees_paid :: decimal
  br_peak_equity :: decimal
  br_trough_equity :: decimal
  br_max_drawdown :: decimal
  br_fill_rate :: rat
  br_open_positions :: nat

definition report_from_run :: "run_summary \<Rightarrow> pnl_tracker \<Rightarrow> fill list \<Rightarrow> datetime option \<Rightarrow> decimal \<Rightarrow> backtest_report result" where
  "report_from_run summary pnl fills now starting_equity =
     (let at_time = (case now of None \<Rightarrow> rs_ended_at summary | Some t \<Rightarrow> t);
          total_value = total_pnl pnl;
          peak = max starting_equity (dadd total_value starting_equity);
          trough = min (min starting_equity (dadd total_value starting_equity)) (dsub starting_equity (pt_fees_paid pnl));
          intents = intents_dispatched (rs_counts summary)
      in bind_result (pnl_positions pnl at_time) (\<lambda>open_positions.
           Inr \<lparr>br_sleeve_id = rs_sleeve_id summary, br_strategy_id = rs_strategy_id summary,
                br_started_at = rs_started_at summary, br_ended_at = rs_ended_at summary, br_counts = rs_counts summary,
                br_fills = length fills, br_realized_pnl = pt_realized pnl,
                br_unrealized_pnl = dsub total_value (pt_realized pnl), br_total_pnl = total_value,
                br_total_fees_paid = pt_fees_paid pnl, br_peak_equity = peak, br_trough_equity = trough,
                br_max_drawdown = (if peak > trough then dsub peak trough else 0),
                br_fill_rate = (if intents > 0 then fctx (of_nat (length fills) / of_nat intents) else 0),
                br_open_positions = length open_positions\<rparr>))"

section \<open>The backtest\<close>

definition default_clock :: datetime where
  "default_clock = utc 1767225600000000"

definition backtest_config :: "strategy_spec \<Rightarrow> sleeve_spec \<Rightarrow> timedelta \<Rightarrow> decimal \<Rightarrow> sim_config" where
  "backtest_config spec sleeve latency fraction =
     \<lparr>sc_fee_model = fee_model_for (sl_venue sleeve),
      sc_latency = (\<lambda>n. constant_draw \<lparr>cl_submit = latency, cl_cancel = 50000, cl_replace = 50000\<rparr>),
      sc_queue_estimator = fractional_estimate \<lparr>fq_fraction = fraction, fq_confidence = 4 / 10, fq_name = ''fractional-depth''\<rparr>,
      sc_strategy_id = ss_strategy_id spec, sc_sleeve_id = sl_sleeve_id sleeve\<rparr>"

definition new_backtest :: "strategy_spec \<Rightarrow> sleeve_spec \<Rightarrow> decimal \<Rightarrow> decimal \<Rightarrow> 'st \<Rightarrow> 'st backtest result" where
  "new_backtest spec sleeve fraction starting_equity strategy =
     (let starting_cash = (if starting_equity \<le> 0 then capital_allocation sleeve else starting_equity)
      in bind_result (new_portfolio (ss_strategy_id spec) (sl_sleeve_id sleeve) (sl_currency sleeve) starting_cash
                        (new_tracker (Some new_ledger)) default_clock) (\<lambda>p.
         bind_result (validated (fractional_queue_estimator_check
             \<lparr>fq_fraction = fraction, fq_confidence = 4 / 10, fq_name = ''fractional-depth''\<rparr>) ()) (\<lambda>_.
           Inr \<lparr>bt_strategy = strategy, bt_kill = new_kill_switch, bt_halt = default_halt, bt_portfolio = p,
                bt_sim = new_simulator, bt_clock = default_clock, bt_draws = 0, bt_fills = []\<rparr>)))"

text \<open>The clock starts at the first event of the window, or at its lower bound when the window is empty.\<close>

definition first_clock :: "datetime option \<Rightarrow> normalized_event list \<Rightarrow> datetime \<Rightarrow> datetime" where
  "first_clock start_at events t =
     (case events of
        e # _ \<Rightarrow> event_time e
      | [] \<Rightarrow> (case start_at of Some s \<Rightarrow> s | None \<Rightarrow> t))"

text \<open>
  \<open>None\<close> would mean that the final flush does not return. The world is returned beside the report.
\<close>

definition run_backtest ::
  "strategy_spec \<Rightarrow> sleeve_spec \<Rightarrow> normalized_event list \<Rightarrow> timedelta \<Rightarrow> decimal \<Rightarrow> decimal \<Rightarrow> datetime option \<Rightarrow> datetime option
   \<Rightarrow> 'st strategy_hooks \<Rightarrow> 'st \<Rightarrow> (nat \<Rightarrow> string) \<Rightarrow> (backtest_report \<times> run_summary \<times> 'st backtest) result option" where
  "run_backtest spec sleeve stored latency fraction starting_equity start_at end_at hooks strategy uuid =
     (case new_backtest spec sleeve fraction starting_equity strategy of
        Inl e \<Rightarrow> Some (Inl e)
      | Inr w0 \<Rightarrow>
          let cfg = backtest_config spec sleeve latency fraction;
              events = filter (in_window start_at end_at) stored;
              w1 = w0\<lparr>bt_clock := first_clock start_at events (bt_clock w0)\<rparr>
          in (case run (backtest_ports spec sleeve cfg hooks uuid) events \<lparr>rn_state = ST_CREATED, rn_world = w1\<rparr> of
                (Inl e, r) \<Rightarrow> Some (Inl e)
              | (Inr summary, r) \<Rightarrow>
                  (case flush_inflight cfg (bt_sim (rn_world r)) of
                     None \<Rightarrow> None
                   | Some flushed \<Rightarrow>
                       (case collect_fills (\<lambda>s. flushed) (rn_world r) of
                          (Inl e, w) \<Rightarrow> Some (Inl e)
                        | (Inr _, w) \<Rightarrow>
                            Some (bind_result (report_from_run summary (pf_pnl (bt_portfolio w)) (bt_fills w) None starting_equity)
                              (\<lambda>report. Inr (report, summary, w)))))))"

section \<open>Simulator calls keep one entry per order id\<close>

lemma take_passive_wf:
  "take_passive cfg t k price p vol fills s = Inr (v, fs, s') \<Longrightarrow> wf_dict (sim_pending s) \<Longrightarrow> wf_dict (sim_pending s')"
  by (auto simp: take_passive_def Let_def bind_result_Inr_iff dest!: emit_fill_frame(1) split: if_splits)

lemma apply_trade_to_wf:
  assumes "apply_trade_to cfg t k (vol, fs, s) = Inr (v, fs', s')" and "wf_dict (sim_pending s)"
  shows "wf_dict (sim_pending s')"
  using assms by (auto simp: apply_trade_to_def Let_def split: if_splits option.splits prod.splits dest: take_passive_wf)

lemma apply_trade_wf:
  assumes "apply_trade cfg t s = Inr (fs, s')" and "wf_dict (sim_pending s)"
  shows "wf_dict (sim_pending s')"
proof -
  have "fold_result (apply_trade_to cfg t) ks (v, gs, u) = Inr (v', gs', u') \<Longrightarrow> wf_dict (sim_pending u) \<Longrightarrow> wf_dict (sim_pending u')"
    for ks v gs u v' gs' u'
  proof (induction ks arbitrary: v gs u)
    case (Cons k ks)
    from Cons.prems(1) obtain v1 gs1 u1 where "apply_trade_to cfg t k (v, gs, u) = Inr (v1, gs1, u1)"
      "fold_result (apply_trade_to cfg t) ks (v1, gs1, u1) = Inr (v', gs', u')"
      by (auto simp: bind_result_Inr_iff)
    with Cons.IH Cons.prems(2) show ?case by (blast dest: apply_trade_to_wf)
  qed simp
  with assms show ?thesis by (fastforce simp: apply_trade_def Let_def bind_result_Inr_iff)
qed

lemma advance_time_keys: "advance_time cfg t s = Inr (fs, s') \<Longrightarrow> wf_dict (sim_pending s) \<Longrightarrow> wf_dict (sim_pending s')"
  by (auto simp: advance_time_def bind_result_Inr_iff dest: apply_due_controls_progress(1) activate_due_orders_weight(1))

lemma cancel_all_wf: "wf_dict (sim_pending s) \<Longrightarrow> wf_dict (sim_pending (cancel_all_for iid s))"
  by (auto simp: cancel_all_for_def)

lemma sim_on_event_wf:
  assumes "sim_on_event cfg e s = Inr (fs, s')" and "wf_dict (sim_pending s)"
  shows "wf_dict (sim_pending s')"
  using assms
  by (cases e) (auto simp: Let_def set_book_def bind_result_Inr_iff cancel_all_wf split: if_splits prod.splits
      dest!: advance_time_keys apply_trade_wf apply_due_controls_progress(1) activate_due_orders_weight(1))

lemma sim_replace_wf: "sim_replace cfg k np nq now s = Inr (b, s') \<Longrightarrow> wf_dict (sim_pending s) \<Longrightarrow> wf_dict (sim_pending s')"
  by (auto simp: sim_replace_def draw_latency_def apply_replace_immediate_def Let_def bind_result_Inr_iff split: option.splits if_splits)

lemma sim_submit_wf: "sim_submit cfg i now s = Inr (fs, s') \<Longrightarrow> wf_dict (sim_pending s) \<Longrightarrow> wf_dict (sim_pending s')"
  by (auto simp: sim_submit_def draw_latency_def next_venue_order_id_def Let_def bind_result_Inr_iff split: if_splits
      dest!: fill_marketable_weight(1))

lemma submit_envelope_wf:
  assumes "submit_envelope cfg e s = Inr (fs, s')" and "wf_dict (sim_pending s)"
  shows "wf_dict (sim_pending s')"
  using assms
  by (auto simp: submit_envelope_def sim_cancel_def draw_latency_def Let_def bind_result_Inr_iff
      split: strategy_decision.splits option.splits if_splits dest: sim_submit_wf sim_replace_wf)

section \<open>What fills and market data do to the portfolio\<close>

fun market_feed :: "normalized_event \<Rightarrow> bool" where
  "market_feed (OwnFillEvent eid f prov) = False"
| "market_feed (OwnOrderUpdateEvent eid r prov) = False"
| "market_feed (OwnOrderRejectEvent eid r prov) = False"
| "market_feed e = True"

lemma note_realized_fees:
  "note_realized x u t = Inr t' \<Longrightarrow> pt_fees_paid t' = pt_fees_paid t \<and> pt_fee_model t' = pt_fee_model t"
  by (auto simp: note_realized_def bind_result_Inr_iff split: option.splits)

lemma pnl_on_fill_fees:
  "pnl_on_fill f t = Inr t' \<Longrightarrow> pt_fees_paid t' = dadd (pt_fees_paid t) (fee_amount f) \<and> pt_fee_model t' = pt_fee_model t"
  by (auto simp: pnl_on_fill_def Let_def set_record_def dest!: note_realized_fees split: if_splits)

lemma settle_side_fees:
  assumes "settle_side st side t = Inr t'" and "pt_fee_model t = None" and "dctx (pt_fees_paid t) = pt_fees_paid t"
  shows "pt_fees_paid t' = pt_fees_paid t \<and> pt_fee_model t' = None"
  using assms
  by (auto simp: settle_side_def settlement_fee_def Let_def set_record_def dadd_def dest!: note_realized_fees split: option.splits if_splits)

lemma pnl_on_event_fees:
  assumes "pnl_on_event e t = Inr t'" and "pt_fee_model t = None" and "dctx (pt_fees_paid t) = pt_fees_paid t"
  shows "pt_fees_paid t' = pt_fees_paid t \<and> pt_fee_model t' = None"
proof (cases e)
  case (SettlementResolvedEvent i st prov)
  with assms show ?thesis
    by (auto simp: pnl_on_settlement_def bind_result_Inr_iff split: if_splits dest!: settle_side_fees)
next
  case (QuoteEvent i q prov)
  with assms show ?thesis
    by (auto simp: pnl_on_quote_def Let_def set_record_def bind_result_Inr_iff split: option.splits prod.splits)
qed (use assms in auto)

lemma set_cash_keeps: "set_cash ccy b p = Inr p' \<Longrightarrow> pf_pnl p' = pf_pnl p \<and> pf_reservations p' = pf_reservations p"
  by (auto simp: set_cash_Inr)

lemma consume_keeps:
  "consume_reservation coid amount t p = Inr (x, p') \<Longrightarrow>
     pf_pnl p' = pf_pnl p \<and> (k \<noteq> coid \<longrightarrow> dict_get (pf_reservations p') k = dict_get (pf_reservations p) k)"
  by (auto simp: consume_reservation_def Let_def bind_result_Inr_iff dest!: set_cash_keeps split: if_splits)

lemma apply_fill_cash_keeps:
  assumes "apply_fill_cash f p = Inr p'"
  shows "pf_pnl p' = pf_pnl p \<and> (k \<noteq> f_client_order_id f \<longrightarrow> dict_get (pf_reservations p') k = dict_get (pf_reservations p) k)"
proof -
  from assms obtain x p1 ccy b where
    c: "(if f_order_side f = BUY then consume_reservation (f_client_order_id f) (fill_notional f) (filled_at f) p else Inr (0, p)) = Inr (x, p1)"
    and s: "set_cash ccy b p1 = Inr p'"
    by (auto simp: apply_fill_cash_def bind_result_Inr_iff Let_def)
  from c have "pf_pnl p1 = pf_pnl p \<and> (k \<noteq> f_client_order_id f \<longrightarrow> dict_get (pf_reservations p1) k = dict_get (pf_reservations p) k)"
    by (auto dest: consume_keeps split: if_splits)
  with set_cash_keeps [OF s] show ?thesis by simp
qed

lemma pf_on_fill_effect:
  assumes "pf_on_fill f p = Inr p'"
  shows "pt_fees_paid (pf_pnl p') = dadd (pt_fees_paid (pf_pnl p)) (fee_amount f) \<and> pt_fee_model (pf_pnl p') = pt_fee_model (pf_pnl p)
    \<and> (k \<noteq> f_client_order_id f \<longrightarrow> dict_get (pf_reservations p') k = dict_get (pf_reservations p) k)"
proof -
  from assms obtain t where t: "pnl_on_fill f (pf_pnl p) = Inr t" "apply_fill_cash f (p\<lparr>pf_pnl := t\<rparr>) = Inr p'"
    by (auto simp: pf_on_fill_def bind_result_Inr_iff)
  with pnl_on_fill_fees [OF t(1)] apply_fill_cash_keeps [OF t(2), of k] show ?thesis by simp
qed

lemma pf_on_event_market:
  assumes "pf_on_event e p = Inr p'" and "market_feed e"
  obtains t where "pnl_on_event e (pf_pnl p) = Inr t" and "p' = p\<lparr>pf_pnl := t\<rparr>"
  using assms by (cases e) (auto simp: bind_result_Inr_iff)

lemma reserve_intent_keeps:
  assumes "reserve_intent e p = Inr (rs, p')"
  shows "pf_pnl p' = pf_pnl p \<and> (dict_get (pf_reservations p) k = Some x \<longrightarrow> dict_get (pf_reservations p') k = Some x)"
  using assms
  by (auto simp: reserve_intent_def pf_reserve_def bind_result_Inr_iff split: strategy_decision.splits if_splits dest!: set_cash_keeps)

lemma collect_fills_Inr:
  assumes "collect_fills call w = (Inr u, w')"
  obtains fills s p where "call (bt_sim w) = Inr (fills, s)" and "fold_result pf_on_fill fills (bt_portfolio w) = Inr p"
    and "w' = w\<lparr>bt_sim := s, bt_portfolio := p, bt_fills := bt_fills w @ fills\<rparr>"
proof -
  have f: "fold_result pf_on_fill fs (bt_portfolio v) = Inr (bt_portfolio v') \<and> v' = v\<lparr>bt_portfolio := bt_portfolio v'\<rparr>"
    if "act_fold (\<lambda>f _. deliver_fill f) fs () v = (Inr (), v')" for fs and v v' :: "'a backtest"
    using that
  proof (induction fs arbitrary: v)
    case (Cons f fs)
    from Cons.prems obtain v1 where v1: "deliver_fill f v = (Inr (), v1)" "act_fold (\<lambda>f _. deliver_fill f) fs () v1 = (Inr (), v')"
      by (auto elim: act_bind_Inr)
    then obtain p where "pf_on_fill f (bt_portfolio v) = Inr p" "v1 = v\<lparr>bt_portfolio := p\<rparr>"
      by (auto simp: deliver_fill_def act_update_def bind_result_def split: sum.splits)
    with Cons.IH [OF v1(2)] show ?case by simp
  qed (simp add: act_return_def)
  from assms obtain fills v where "act_update bt_sim (\<lambda>s w. w\<lparr>bt_sim := s\<rparr>) call w = (Inr fills, v)"
      and v: "act_then (act_fold (\<lambda>f _. deliver_fill f) fills ()) (\<lambda>w. (Inr (), w\<lparr>bt_fills := bt_fills w @ fills\<rparr>)) v = (Inr u, w')"
    unfolding collect_fills_def by (rule act_bind_Inr)
  then obtain s where s: "call (bt_sim w) = Inr (fills, s)" "v = w\<lparr>bt_sim := s\<rparr>" by (auto simp: act_update_def split: sum.splits)
  from v obtain v1 where "act_fold (\<lambda>f _. deliver_fill f) fills () v = (Inr (), v1)" "w' = v1\<lparr>bt_fills := bt_fills v1 @ fills\<rparr>"
    by (auto elim: act_then_Inr)
  with f [OF this(1)] s that show ?thesis by (cases v1, cases w) auto
qed

section \<open>The contract of the backtest ports\<close>

definition fees_of :: "fill list \<Rightarrow> decimal" where
  "fees_of fs = foldl dadd 0 (map fee_amount fs)"

lemma fees_of_fixed: "dctx (fees_of fs) = fees_of fs"
  by (cases fs rule: rev_cases) (simp_all add: fees_of_def dadd_def)

text \<open>
  One pending entry per order id, fees that add up to those of the collected fills, and every
  reservation of \<open>held\<close> whose order has no fill still in place.
\<close>

definition books_ok :: "(string, decimal) dict \<Rightarrow> fill list \<Rightarrow> portfolio \<Rightarrow> bool" where
  "books_ok held fs p \<longleftrightarrow>
     pt_fee_model (pf_pnl p) = None \<and> pt_fees_paid (pf_pnl p) = fees_of fs \<and>
     (\<forall>(k, x) \<in> set held. k \<notin> f_client_order_id ` set fs \<longrightarrow> dict_get (pf_reservations p) k = Some x)"

definition backtest_good :: "(string, decimal) dict \<Rightarrow> nat \<Rightarrow> 'st backtest \<Rightarrow> bool" where
  "backtest_good held n w \<longleftrightarrow> wf_dict (sim_pending (bt_sim w)) \<and> books_ok held (bt_fills w) (bt_portfolio w)"

lemma deliver_books:
  "fold_result pf_on_fill fs p = Inr p' \<Longrightarrow> books_ok held gs p \<Longrightarrow> books_ok held (gs @ fs) p'"
proof (induction fs arbitrary: gs p)
  case (Cons f fs)
  from Cons.prems(1) obtain p1 where p1: "pf_on_fill f p = Inr p1" "fold_result pf_on_fill fs p1 = Inr p'"
    by (auto simp: bind_result_Inr_iff)
  have "books_ok held (gs @ [f]) p1"
    using Cons.prems(2) pf_on_fill_effect [OF p1(1)] by (auto simp: books_ok_def fees_of_def)
  from Cons.IH [OF p1(2) this] show ?case by simp
qed simp

lemma collect_kept:
  assumes "\<And>s fs s'. call s = Inr (fs, s') \<Longrightarrow> wf_dict (sim_pending s) \<Longrightarrow> wf_dict (sim_pending s')"
  shows "kept (backtest_good held n) (\<lambda>_. True) (collect_fills call)"
  by (rule hoareI) (auto elim!: collect_fills_Inr simp: backtest_good_def dest: assms deliver_books)

lemma feed_kept:
  assumes "market_feed e"
  shows "kept (backtest_good held n) (\<lambda>_. True) (feed_portfolio e)"
  unfolding feed_portfolio_def
proof (rule hoare_update)
  fix w :: "'st backtest" and x p
  assume w: "backtest_good held n w" and "bind_result (pf_on_event e (bt_portfolio w)) (\<lambda>p'. Inr ((), p')) = Inr (x, p)"
  then have p: "pf_on_event e (bt_portfolio w) = Inr p" by (auto simp: bind_result_Inr_iff)
  then obtain t where t: "pnl_on_event e (pf_pnl (bt_portfolio w)) = Inr t" "p = (bt_portfolio w)\<lparr>pf_pnl := t\<rparr>"
    using assms by (rule pf_on_event_market)
  have "pt_fees_paid t = fees_of (bt_fills w) \<and> pt_fee_model t = None"
    using pnl_on_event_fees [OF t(1)] w fees_of_fixed by (auto simp: backtest_good_def books_ok_def)
  with w t(2) show "backtest_good held n (w\<lparr>bt_portfolio := p\<rparr>)" by (auto simp: backtest_good_def books_ok_def)
qed simp

lemma tee_kept: "market_feed e \<Longrightarrow> kept (backtest_good held n) (\<lambda>_. True) (tee_event cfg e)"
  unfolding tee_event_def
  by (rule hoare_then [where R = "backtest_good held n"], simp add: hoare_def set_clock_def backtest_good_def,
      rule hoare_then [OF collect_kept feed_kept]) (auto dest: sim_on_event_wf)

lemma reserve_kept:
  assumes "backtest_good held n w" and "reserve_intent e (bt_portfolio w) = Inr (rs, p)"
  shows "backtest_good held n (w\<lparr>bt_portfolio := p\<rparr>)"
  using assms(1) reserve_intent_keeps [OF assms(2)] by (fastforce simp: backtest_good_def books_ok_def)

lemmas backtest_defs = backtest_ports_def on_bt_strategy_def put_gate_def

interpretation backtest: guarded_ports "backtest_ports spec sl cfg hooks uuid" "backtest_good held"
    "\<lambda>e. backtest_good held" "\<lambda>e. backtest_good held" "\<lambda>_. True" market_feed for spec sl cfg hooks uuid held
proof unfold_locales
  fix rs e n
  assume "pt_reserve (backtest_ports spec sl cfg hooks uuid) = Some rs"
  then have rs: "rs e = act_bind (act_update bt_portfolio (\<lambda>p w. w\<lparr>bt_portfolio := p\<rparr>) (reserve_intent e)) (\<lambda>rs. act_return (Some rs))"
    by (auto simp: backtest_ports_def)
  show "hoare (backtest_good held n) (rs e)
      (\<lambda>r w. if r = None \<or> r = Some [] then backtest_good held n w else backtest_good held n w) (\<lambda>_. True)"
    unfolding rs
    by (rule hoare_bind [where R = "\<lambda>_. backtest_good held n"], rule hoare_update) (auto intro: hoare_return reserve_kept)
next
  show "kept (backtest_good held n) (\<lambda>_. True) (pt_pull (backtest_ports spec sl cfg hooks uuid) event)" if "market_feed event" for n event
    using tee_kept [OF that] by (simp add: backtest_ports_def)
next
  show "hoare (backtest_good held n) (pt_emit (backtest_ports spec sl cfg hooks uuid) e) (\<lambda>_. backtest_good held (Suc n)) (\<lambda>_. True)" for e n
    using collect_kept [of "submit_envelope cfg e" held n] submit_envelope_wf [of cfg e] by (simp add: backtest_ports_def backtest_good_def [abs_def])
qed (auto simp: backtest_defs backtest_good_def store_kept_def act_defs hoare_def split: prod.splits sum.splits)

section \<open>A concrete backtest\<close>

text \<open>One book, and a strategy that bids for twenty contracts below it.\<close>

definition bt_book :: normalized_event where
  "bt_book =
     OrderBookEvent ''b1''
       \<lparr>bk_instrument_id = gate_iid, yes_bids = [\<lparr>lvl_price = 45 / 100, lvl_quantity = 100\<rparr>],
        yes_asks = [\<lparr>lvl_price = 50 / 100, lvl_quantity = 100\<rparr>], no_bids = [], no_asks = [],
        bk_exchange_ts = Some (utc 500000), bk_received_at = utc 500000\<rparr>
       (default_provenance\<lparr>prov_source_sequence := Some ''7''\<rparr>)"

definition bt_hooks :: "unit strategy_hooks" where
  "bt_hooks = strategy_base (\<lambda>event ctx. act_return [PlaceOrder ((gate_order BUY (1 / 4) 20)\<lparr>po_market_snapshot := None\<rparr>)])"

definition bt_cancel_hooks :: "unit strategy_hooks" where
  "bt_cancel_hooks =
     strategy_base (\<lambda>event ctx. act_return
       [CancelOrder \<lparr>co_client_order_id = ''c1'', co_reason = ''done'', co_priority = None\<rparr>])"

definition bt_world :: "portfolio \<Rightarrow> unit backtest" where
  "bt_world p =
     \<lparr>bt_strategy = (), bt_kill = new_kill_switch, bt_halt = default_halt, bt_portfolio = p, bt_sim = new_simulator,
      bt_clock = utc 500000, bt_draws = 0, bt_fills = []\<rparr>"

section \<open>Guarantees\<close>

lemma new_backtest_good:
  assumes "new_backtest spec sl fraction eq st = Inr w"
  shows "backtest_good [] 0 (w\<lparr>bt_clock := t\<rparr>)"
  using assms
  by (auto simp: new_backtest_def Let_def bind_result_Inr_iff new_portfolio_def backtest_good_def books_ok_def fees_of_def
      new_tracker_def new_simulator_def)

text \<open>The stages of a backtest that returns.\<close>

lemma run_backtest_cases:
  assumes "run_backtest spec sl stored lat fraction eq start_at end_at hooks st uuid = res"
    and "list_all market_feed stored"
  obtains (raised) e where "res = Some (Inl e)"
  | (finished) summary w fs s p cfg where "cfg = backtest_config spec sl lat fraction"
      and "backtest_good [] (intents_dispatched (rs_counts summary)) w" and "rs_end_state summary = ST_DISPOSED" and "tally (rs_counts summary)"
      and "flush_inflight cfg (bt_sim w) = Some (Inr (fs, s))" and "fold_result pf_on_fill fs (bt_portfolio w) = Inr p"
      and "res = Some (bind_result (report_from_run summary (pf_pnl p) (bt_fills w @ fs) None eq)
            (\<lambda>rep. Inr (rep, summary, w\<lparr>bt_sim := s, bt_portfolio := p, bt_fills := bt_fills w @ fs\<rparr>)))"
proof (cases "new_backtest spec sl fraction eq st")
  case (Inl e)
  with assms(1) raised show ?thesis by (auto simp: run_backtest_def)
next
  case (Inr w0)
  let ?cfg = "backtest_config spec sl lat fraction" and ?events = "filter (in_window start_at end_at) stored"
  let ?w1 = "w0\<lparr>bt_clock := first_clock start_at ?events (bt_clock w0)\<rparr>"
  obtain x r where r: "run (backtest_ports spec sl ?cfg hooks uuid) ?events \<lparr>rn_state = ST_CREATED, rn_world = ?w1\<rparr> = (x, r)"
    by (cases "run (backtest_ports spec sl ?cfg hooks uuid) ?events \<lparr>rn_state = ST_CREATED, rn_world = ?w1\<rparr>") auto
  have feed: "list_all market_feed ?events" using assms(2) by (auto simp: list_all_iff)
  have res: "res = (case (x, r) of
      (Inl e, r) \<Rightarrow> Some (Inl e)
    | (Inr summary, r) \<Rightarrow>
        (case flush_inflight ?cfg (bt_sim (rn_world r)) of
           None \<Rightarrow> None
         | Some flushed \<Rightarrow>
             (case collect_fills (\<lambda>s. flushed) (rn_world r) of
                (Inl e, w) \<Rightarrow> Some (Inl e)
              | (Inr _, w) \<Rightarrow>
                  Some (bind_result (report_from_run summary (pf_pnl (bt_portfolio w)) (bt_fills w) None eq)
                    (\<lambda>rep. Inr (rep, summary, w))))))"
    using assms(1) unfolding run_backtest_def Inr sum.case Let_def r by simp
  show ?thesis
  proof (cases x)
    case (Inl e)
    with res raised show ?thesis by simp
  next
    case (Inr summary)
    let ?w = "rn_world r"
    have g: "rs_end_state summary = ST_DISPOSED" "tally (rs_counts summary)"
        "backtest_good [] (intents_dispatched (rs_counts summary)) ?w"
      using hoareD [OF backtest.run_guarded [OF feed, where n = 0 and held = "[]"] _ r [unfolded Inr]]
        new_backtest_good [OF \<open>new_backtest spec sl fraction eq st = Inr w0\<close>] by auto
    then have "wf_dict (sim_pending (bt_sim ?w))" by (simp add: backtest_good_def)
    from flush_loop_terminates [OF this lessI, of ?cfg "[]"] obtain y where y: "flush_inflight ?cfg (bt_sim ?w) = Some y"
      by (auto simp: flush_inflight_def)
    show ?thesis
    proof (cases "collect_fills (\<lambda>s. y) ?w")
      case (Pair z w')
      show ?thesis
      proof (cases z)
        case (Inl e)
        with res Pair y \<open>x = Inr summary\<close> raised show ?thesis by simp
      next
        case (Inr u)
        with Pair have "collect_fills (\<lambda>s. y) ?w = (Inr u, w')" by simp
        then obtain fs s p where c: "y = Inr (fs, s)" "fold_result pf_on_fill fs (bt_portfolio ?w) = Inr p"
            "w' = ?w\<lparr>bt_sim := s, bt_portfolio := p, bt_fills := bt_fills ?w @ fs\<rparr>"
          by (rule collect_fills_Inr)
        show ?thesis
          by (rule finished [OF refl g(3) g(1,2)]) (use c y res Pair Inr \<open>x = Inr summary\<close> in auto)
      qed
    qed
  qed
qed



text \<open>
  C14: The report of a backtest reconciles with what happened. Its number of fills and its total fees are
  those of the fills the simulator returned, the fees added in order; its decisions are all dispatched or
  rejected, the runner is disposed, and the starting equity lies between trough and peak, whose
  difference is the drawdown.
\<close>

theorem backtest_report_reconciles:
  assumes "run_backtest spec sl stored lat fraction eq start_at end_at hooks st uuid = Some (Inr (rep, summary, w))"
    and "list_all market_feed stored"
  shows "br_fills rep = length (bt_fills w) \<and> br_total_fees_paid rep = fees_of (bt_fills w)
    \<and> decisions_emitted (br_counts rep) = intents_dispatched (br_counts rep) + intents_rejected (br_counts rep)
    \<and> rs_end_state summary = ST_DISPOSED
    \<and> br_trough_equity rep \<le> eq \<and> eq \<le> br_peak_equity rep
    \<and> br_max_drawdown rep = dsub (br_peak_equity rep) (br_trough_equity rep) \<and> 0 \<le> br_max_drawdown rep"
  using assms
proof (cases rule: run_backtest_cases)
  case (finished summary' w' fs s p cfg)
  from finished(7) have w: "summary = summary'" "w = w'\<lparr>bt_sim := s, bt_portfolio := p, bt_fills := bt_fills w' @ fs\<rparr>"
    and rep: "report_from_run summary' (pf_pnl p) (bt_fills w' @ fs) None eq = Inr rep"
    by (auto simp: bind_result_def split: sum.splits)
  have "books_ok [] (bt_fills w' @ fs) p"
    using deliver_books [OF finished(6)] finished(2) by (simp add: backtest_good_def)
  with w have f: "pt_fees_paid (pf_pnl p) = fees_of (bt_fills w)" by (simp add: books_ok_def)
  let ?peak = "max eq (dadd (total_pnl (pf_pnl p)) eq)"
  let ?trough = "min (min eq (dadd (total_pnl (pf_pnl p)) eq)) (dsub eq (pt_fees_paid (pf_pnl p)))"
  from rep have r: "br_fills rep = length (bt_fills w' @ fs)" "br_total_fees_paid rep = pt_fees_paid (pf_pnl p)"
      "br_counts rep = rs_counts summary'" "br_peak_equity rep = ?peak" "br_trough_equity rep = ?trough"
      "br_max_drawdown rep = (if ?peak > ?trough then dsub ?peak ?trough else 0)"
    by (auto simp: report_from_run_def Let_def bind_result_Inr_iff)
  have o: "?trough \<le> eq" "eq \<le> ?peak" by auto
  have d: "(if ?peak > ?trough then dsub ?peak ?trough else 0) = dsub ?peak ?trough"
  proof (cases "?peak > ?trough")
    case False
    with o have "?peak - ?trough = 0" by linarith
    with False show ?thesis by (simp only: dsub_def dctx_0 if_False)
  qed simp
  have "0 \<le> dsub ?peak ?trough" using o by (auto simp: dsub_def intro: dctx_nonneg)
  then have dd: "0 \<le> br_max_drawdown rep" and de: "br_max_drawdown rep = dsub (br_peak_equity rep) (br_trough_equity rep)"
    by (simp_all only: r(4-6) d)
  have "br_fills rep = length (bt_fills w)" by (simp add: r(1) w(2))
  moreover have "br_total_fees_paid rep = fees_of (bt_fills w)" by (simp only: r(2) f)
  moreover have "decisions_emitted (br_counts rep) = intents_dispatched (br_counts rep) + intents_rejected (br_counts rep)"
    using finished(4) by (simp add: r(3) tally_def)
  moreover have "rs_end_state summary = ST_DISPOSED" using finished(3) by (simp add: w(1))
  moreover have "br_trough_equity rep \<le> eq" "eq \<le> br_peak_equity rep" by (simp_all only: r(4,5) o)
  ultimately show ?thesis using dd de by blast
qed auto

theorem backtest_report_reconciles_witness:
  "\<exists>rep summary w. run_backtest demo_spec gate_sleeve [bt_book] 0 1 0 None None bt_hooks () (\<lambda>n. ''x'') = Some (Inr (rep, summary, w))
     \<and> intents_dispatched (br_counts rep) = 1 \<and> br_total_fees_paid rep = fees_of (bt_fills w) \<and> br_trough_equity rep \<le> 0"
proof -
  let ?r = "run_backtest demo_spec gate_sleeve [bt_book] 0 1 0 None None bt_hooks () (\<lambda>n. ''x'')"
  have "map_option (map_sum id (\<lambda>(rep, summary, w). intents_dispatched (br_counts rep))) ?r = Some (Inr 1)" by code_simp
  then obtain y where y: "?r = Some y" "map_sum id (\<lambda>(rep, summary, w). intents_dispatched (br_counts rep)) y = Inr 1" by blast
  then obtain rep summary w where r: "?r = Some (Inr (rep, summary, w))" "intents_dispatched (br_counts rep) = 1"
    by (cases y) auto
  have "list_all market_feed [bt_book]" by (simp add: bt_book_def)
  from backtest_report_reconciles [OF r(1) this] r show ?thesis by blast
qed

text \<open>
  C25: A backtest never gives back the cash reserved for an order that does not fill. While only market
  data is fed, whatever the strategy sends (a cancel of that very order included), the reservation of an
  order without a fill is still in place after any number of events: the simulator reports fills to the
  portfolio but neither cancels nor expiries.
\<close>

theorem unfilled_reservation_never_released:
  assumes "rn_state r = ST_RUNNING" and "backtest_good [] n (rn_world r)"
    and "dict_get (pf_reservations (bt_portfolio (rn_world r))) coid = Some x"
    and "run_events (backtest_ports spec sl cfg hooks uuid) events empty_step r = (Inr c, r')" and "list_all market_feed events"
    and "coid \<notin> f_client_order_id ` set (bt_fills (rn_world r'))"
  shows "dict_get (pf_reservations (bt_portfolio (rn_world r'))) coid = Some x"
proof -
  have "backtest_good [(coid, x)] n (rn_world r)" using assms(2,3) by (simp add: backtest_good_def books_ok_def)
  with hoareD [OF backtest.run_events_guarded [OF assms(5)] _ assms(4)] assms(1)
  have "backtest.tallied [(coid, x)] n c (rn_world r')" by blast
  then show ?thesis using assms(6) by (simp add: backtest.tallied_def backtest_good_def books_ok_def)
qed

theorem unfilled_reservation_never_released_witness:
  "\<exists>c r'. run_events (backtest_ports demo_spec gate_sleeve (backtest_config demo_spec gate_sleeve 0 1) bt_cancel_hooks (\<lambda>n. ''x''))
       [demo_tick] empty_step \<lparr>rn_state = ST_RUNNING, rn_world = bt_world pf_demo_reserved\<rparr> = (Inr c, r')
     \<and> intents_dispatched c = 1 \<and> dict_get (pf_reservations (bt_portfolio (rn_world r'))) ''c1'' = Some 10"
proof -
  let ?r = "\<lparr>rn_state = ST_RUNNING, rn_world = bt_world pf_demo_reserved\<rparr>"
  let ?t = "run_events (backtest_ports demo_spec gate_sleeve (backtest_config demo_spec gate_sleeve 0 1) bt_cancel_hooks (\<lambda>n. ''x''))
       [demo_tick] empty_step ?r"
  have "(case fst ?t of Inr c \<Rightarrow> intents_dispatched c = 1 | Inl _ \<Rightarrow> False) \<and> bt_fills (rn_world (snd ?t)) = []" by code_simp
  then obtain c r' where t: "?t = (Inr c, r')" "intents_dispatched c = 1" "bt_fills (rn_world r') = []"
    by (cases ?t) (auto split: sum.splits)
  have g: "backtest_good [] 0 (rn_world ?r)" "dict_get (pf_reservations (bt_portfolio (rn_world ?r))) ''c1'' = Some 10"
    by (simp_all add: backtest_good_def books_ok_def bt_world_def pf_demo_reserved_def pf_demo_def new_tracker_def fees_of_def new_simulator_def)
  have "list_all market_feed [demo_tick]" by (simp add: demo_tick_def)
  from unfilled_reservation_never_released [OF _ g t(1) this] t show ?thesis by auto
qed

end
