(* ===== verification/Envelopes.thy ===== *)
theory Envelopes
  imports AuditTrail Allocation
begin

text \<open>
  \<open>storage/interfaces.py\<close>, \<open>storage/sorting.py\<close>, \<open>storage/inmemory.py\<close>, \<open>ingestion/pipeline.py\<close>,
  \<open>normalization/pipeline.py\<close>, \<open>replay/engine.py\<close> and \<open>replay/clock.py\<close>: raw envelopes, the stores
  and their replay order, capture into a store, and the pipeline from raw envelopes to the normalized
  events a strategy sees. The stores are interfaces of the source (\<open>Protocol\<close> classes); what a client
  relies on is the locale \<open>event_sink\<close>, interpreted for the in-memory store.
\<close>

section \<open>Raw envelopes\<close>

record event_envelope =
  raw_venue :: "venue option"
  raw_source :: string
  raw_channel :: string
  raw_received_at :: datetime
  raw_exchange_ts :: "datetime option"
  raw_payload :: frozen_map
  raw_schema_version :: string
  raw_metadata :: frozen_map

text \<open>\<open>wall\<close> is the reading of the wall clock in \<open>require_not_future_datetime\<close>; its slack is a minute.\<close>

definition event_envelope_check :: "datetime \<Rightarrow> event_envelope \<Rightarrow> py_error option" where
  [record_defs]: "event_envelope_check wall e =
     first_error
       [require_non_empty (raw_source e) ''source'',
        require_non_empty (raw_channel e) ''channel'',
        require_aware_datetime (raw_received_at e) ''received_at'',
        require_not_future_datetime wall (raw_received_at e) ''received_at'' None 60000000,
        require_optional_aware_datetime (raw_exchange_ts e) ''exchange_ts'',
        require_non_empty (raw_schema_version e) ''schema_version'']"

definition mk_event_envelope :: "datetime \<Rightarrow> event_envelope \<Rightarrow> event_envelope result" where
  "mk_event_envelope wall e =
     validated (event_envelope_check wall e)
       (e\<lparr>raw_payload := freeze_mapping (raw_payload e), raw_metadata := freeze_mapping (raw_metadata e)\<rparr>)"

record normalization_reject =
  nrj_raw :: event_envelope
  nrj_reasons :: "string list"
  nrj_raw_sha256 :: string
  nrj_normalizer_version :: string

definition normalization_reject_check :: "normalization_reject \<Rightarrow> py_error option" where
  [record_defs]: "normalization_reject_check r =
     first_error
       [check (nrj_reasons r \<noteq> []) (ValueError ''normalization reject requires at least one reason''),
        require_non_empty (nrj_raw_sha256 r) ''raw_sha256'',
        require_non_empty (nrj_normalizer_version r) ''normalizer_version'']"

section \<open>Replay order\<close>

text \<open>\<open>a or b\<close> on optional datetimes; a datetime is never falsy.\<close>

definition dt_or :: "datetime option \<Rightarrow> datetime \<Rightarrow> datetime" where
  "dt_or a b = (case a of None \<Rightarrow> b | Some t \<Rightarrow> t)"

definition envelope_sort_key ::
  "(pyval \<Rightarrow> string) \<Rightarrow> event_envelope \<Rightarrow> string \<times> string \<times> string \<times> string \<times> string" where
  "envelope_sort_key str_other e =
     (isoformat (dt_or (raw_exchange_ts e) (raw_received_at e)), isoformat (raw_received_at e),
      raw_source e, raw_channel e,
      (case frozen_get (raw_metadata e) ''source_sequence'' of None \<Rightarrow> [] | Some v \<Rightarrow> py_str str_other v))"

fun normalized_times :: "normalized_event \<Rightarrow> datetime \<times> datetime" where
  "normalized_times (QuoteEvent _ q _) = (dt_or (q_exchange_ts q) (q_received_at q), q_received_at q)"
| "normalized_times (TradeEvent _ t _) = (dt_or (tr_exchange_ts t) (tr_received_at t), tr_received_at t)"
| "normalized_times (OrderBookEvent _ b _) = (dt_or (bk_exchange_ts b) (bk_received_at b), bk_received_at b)"
| "normalized_times (LifecycleEvent _ l _) = (dt_or (lc_exchange_ts l) (lc_received_at l), lc_received_at l)"
| "normalized_times (SettlementResolvedEvent _ s _) = (settled_at s, settled_at s)"
| "normalized_times (ExternalSignalEvent _ x _) = (ext_received_at x, ext_received_at x)"
| "normalized_times (TimerEvent _ t _) = (tm_timestamp t, tm_timestamp t)"
| "normalized_times (OwnFillEvent _ f _) = (dt_or (f_exchange_ts f) (filled_at f), filled_at f)"
| "normalized_times (OwnOrderUpdateEvent _ r _) = (ord_updated_at r, ord_updated_at r)"
| "normalized_times (OwnOrderRejectEvent _ r _) = (rejected_at r, rejected_at r)"

definition normalized_event_sort_key ::
  "normalized_event \<Rightarrow> string \<times> string \<times> string \<times> string \<times> string \<times> string" where
  "normalized_event_sort_key e =
     (let (event_time, received_at) = normalized_times e; p = event_provenance_of e
      in (isoformat event_time, isoformat received_at, prov_source p, prov_channel p,
          (case prov_source_sequence p of None \<Rightarrow> [] | Some s \<Rightarrow> s), event_id e))"

definition normalization_reject_sort_key ::
  "(pyval \<Rightarrow> string) \<Rightarrow> normalization_reject \<Rightarrow> (string \<times> string \<times> string \<times> string \<times> string) \<times> string" where
  "normalization_reject_sort_key str_other r = (envelope_sort_key str_other (nrj_raw r), nrj_raw_sha256 r)"

section \<open>The in-memory store\<close>

record in_memory_store =
  ms_raw_events :: "event_envelope list"
  ms_normalized_events :: "normalized_event list"

definition store_append :: "event_envelope \<Rightarrow> in_memory_store \<Rightarrow> in_memory_store" where
  [step_defs]: "store_append e s = s\<lparr>ms_raw_events := ms_raw_events s @ [e]\<rparr>"

definition source_matches :: "string \<Rightarrow> event_envelope \<Rightarrow> bool" where
  "source_matches source e \<longleftrightarrow> source = ''*'' \<or> raw_source e = source"

definition store_read :: "(pyval \<Rightarrow> string) \<Rightarrow> string \<Rightarrow> in_memory_store \<Rightarrow> event_envelope list" where
  "store_read str_other source s =
     sort_key (envelope_sort_key str_other) (filter (source_matches source) (ms_raw_events s))"

definition append_normalized :: "normalized_event \<Rightarrow> in_memory_store \<Rightarrow> in_memory_store" where
  [step_defs]: "append_normalized e s = s\<lparr>ms_normalized_events := ms_normalized_events s @ [e]\<rparr>"

definition read_normalized :: "in_memory_store \<Rightarrow> normalized_event list" where
  "read_normalized s = sort_key normalized_event_sort_key (ms_normalized_events s)"

text \<open>\<open>RawReplayEngine.replay\<close> and \<open>NormalizedReplaySource.stream\<close> yield what the store reads.\<close>

definition raw_replay :: "(pyval \<Rightarrow> string) \<Rightarrow> string \<Rightarrow> in_memory_store \<Rightarrow> event_envelope list" where
  "raw_replay str_other source s = store_read str_other source s"

definition normalized_replay :: "in_memory_store \<Rightarrow> normalized_event list" where
  "normalized_replay s = read_normalized s"

section \<open>Capture\<close>

record ingestion_job =
  ij_name :: string
  ij_venue :: "venue option"
  ij_source :: string
  ij_starts_at :: "datetime option"
  ij_ends_at :: "datetime option"

definition ingestion_job_check :: "ingestion_job \<Rightarrow> py_error option" where
  [record_defs]: "ingestion_job_check j =
     first_error
       [require_non_empty (ij_name j) ''name'',
        require_non_empty (ij_source j) ''source'',
        require_optional_aware_datetime (ij_starts_at j) ''starts_at'',
        require_optional_aware_datetime (ij_ends_at j) ''ends_at'',
        (case (ij_starts_at j, ij_ends_at j) of
           (Some a, Some b) \<Rightarrow> check (\<not> instant b \<le> instant a) (ValueError ''ends_at must be after starts_at'')
         | _ \<Rightarrow> None)]"

definition iterable_capture :: "event_envelope list \<Rightarrow> ingestion_job \<Rightarrow> event_envelope list" where
  "iterable_capture events job =
     filter (\<lambda>e. (ij_venue job = None \<or> raw_venue e = ij_venue job) \<and> raw_source e = ij_source job) events"

text \<open>\<open>IngestionPipeline.run\<close> over a store's \<open>append\<close> and the registered capture sources.\<close>

definition ingest ::
  "(event_envelope \<Rightarrow> 's \<Rightarrow> 's) \<Rightarrow> (string, ingestion_job \<Rightarrow> event_envelope list) dict \<Rightarrow> ingestion_job \<Rightarrow> 's \<Rightarrow>
   (nat \<times> 's) result" where
  "ingest put sources job s =
     (case dict_get sources (ij_source job) of
        None \<Rightarrow> Inl (KeyError (''capture source not registered: '' @ ij_source job))
      | Some capture \<Rightarrow> Inr (fold (\<lambda>e (n, st). (Suc n, put e st)) (capture job) (0, s)))"

section \<open>Normalization\<close>

record normalization_result =
  nr_raw :: event_envelope
  nr_accepted :: bool
  nr_reasons :: "string list"
  nr_events :: "normalized_event list"

definition nr_normalized :: "normalization_result \<Rightarrow> normalized_event option" where
  "nr_normalized r = head_option (nr_events r)"

text \<open>
  A handler may keep state (the Kalshi order books), which an exception leaves as far as it came.
  A single event and a tuple of events are both a list.
\<close>

type_synonym 's handler = "event_envelope \<Rightarrow> 's \<Rightarrow> normalized_event list result \<times> 's"
type_synonym 's handlers = "string \<times> string \<Rightarrow> 's handler option"

fun error_name :: "py_error \<Rightarrow> string" where
  "error_name (ValueError m) = ''ValueError''"
| "error_name (KeyError m) = ''KeyError''"
| "error_name (TypeError m) = ''TypeError''"
| "error_name (RuntimeError m) = ''RuntimeError''"
| "error_name (AssertionError m) = ''AssertionError''"
| "error_name InvalidOperation = ''InvalidOperation''"
| "error_name DivisionByZero = ''DivisionByZero''"

definition rejected_result :: "event_envelope \<Rightarrow> string \<Rightarrow> normalization_result" where
  "rejected_result raw reason = \<lparr>nr_raw = raw, nr_accepted = False, nr_reasons = [reason], nr_events = []\<rparr>"

definition normalize_raw :: "'s handlers \<Rightarrow> event_envelope \<Rightarrow> 's \<Rightarrow> normalization_result \<times> 's" where
  "normalize_raw handlers raw s =
     (case handlers (raw_schema_version raw, raw_channel raw) of
        None \<Rightarrow> (rejected_result raw ''no normalizer for '', s)
      | Some handler \<Rightarrow>
          (case handler raw s of
             (Inl e, s') \<Rightarrow> (rejected_result raw (''normalization failed: '' @ error_name e), s')
           | (Inr events, s') \<Rightarrow>
               if events = [] then (rejected_result raw ''normalizer emitted no events'', s')
               else (\<lparr>nr_raw = raw, nr_accepted = True, nr_reasons = [], nr_events = events\<rparr>, s')))"

fun normalize_all :: "'s handlers \<Rightarrow> event_envelope list \<Rightarrow> 's \<Rightarrow> normalization_result list \<times> 's" where
  "normalize_all handlers [] s = ([], s)"
| "normalize_all handlers (raw # raws) s =
     (let (r, s1) = normalize_raw handlers raw s; (rs, s2) = normalize_all handlers raws s1 in (r # rs, s2))"

text \<open>
  \<open>NormalizationPipeline.run\<close>: the ports are the store's \<open>append_normalized\<close>, the reject store's
  append (\<open>None\<close> without a reject store) and the digest \<open>canonical_sha256\<close>.
\<close>

record ('s, 'n, 'r) pipeline =
  pl_normalizer :: 's
  pl_store :: 'n
  pl_rejects :: 'r

definition pipeline_step ::
  "'s handlers \<Rightarrow> (normalized_event \<Rightarrow> 'n \<Rightarrow> 'n) \<Rightarrow> (normalization_reject \<Rightarrow> 'r \<Rightarrow> 'r) option \<Rightarrow> (event_envelope \<Rightarrow> string) \<Rightarrow>
   event_envelope \<Rightarrow> normalization_result list \<times> ('s, 'n, 'r) pipeline \<Rightarrow>
   (normalization_result list \<times> ('s, 'n, 'r) pipeline) result" where
  "pipeline_step handlers put put_reject digest raw rs_p =
     (let (rs, p) = rs_p;
          (r, st) = normalize_raw handlers raw (pl_normalizer p);
          p' = p\<lparr>pl_normalizer := st\<rparr>
      in if nr_events r \<noteq> []
         then Inr (rs @ [r], p'\<lparr>pl_store := fold put (nr_events r) (pl_store p)\<rparr>)
         else case put_reject of
           None \<Rightarrow> Inr (rs @ [r], p')
         | Some putr \<Rightarrow>
             let j = \<lparr>nrj_raw = raw, nrj_reasons = nr_reasons r, nrj_raw_sha256 = digest raw,
                      nrj_normalizer_version = ''normalizer-v1''\<rparr>
             in bind_result (validated (normalization_reject_check j) j)
                  (\<lambda>j. Inr (rs @ [r], p'\<lparr>pl_rejects := putr j (pl_rejects p)\<rparr>)))"

definition run_pipeline ::
  "'s handlers \<Rightarrow> (normalized_event \<Rightarrow> 'n \<Rightarrow> 'n) \<Rightarrow> (normalization_reject \<Rightarrow> 'r \<Rightarrow> 'r) option \<Rightarrow> (event_envelope \<Rightarrow> string) \<Rightarrow>
   event_envelope list \<Rightarrow> ('s, 'n, 'r) pipeline \<Rightarrow> (normalization_result list \<times> ('s, 'n, 'r) pipeline) result" where
  "run_pipeline handlers put put_reject digest raws p =
     fold_result (pipeline_step handlers put put_reject digest) raws ([], p)"

section \<open>The replay clock\<close>

record replay_window =
  rw_starts_at :: datetime
  rw_ends_at :: datetime

definition replay_window_check :: "replay_window \<Rightarrow> py_error option" where
  [record_defs]: "replay_window_check w =
     check (\<not> instant (rw_ends_at w) \<le> instant (rw_starts_at w)) (ValueError ''replay window must end after it starts'')"

text \<open>The loop of \<open>ReplayClock.ticks\<close>; it need not end, which is the value \<open>None\<close>.\<close>

partial_function (option) ticks_from :: "replay_window \<Rightarrow> timedelta \<Rightarrow> datetime \<Rightarrow> datetime list option" where
  "ticks_from w step current =
     (if instant current \<le> instant (rw_ends_at w)
      then Option.bind (ticks_from w step (dt_plus current step)) (\<lambda>ts. Some (current # ts))
      else Some [])"

definition ticks :: "replay_window \<Rightarrow> timedelta \<Rightarrow> datetime list option" where
  "ticks w step = ticks_from w step (rw_starts_at w)"

section \<open>What clients rely on\<close>

locale event_sink =
  fixes put :: "'e \<Rightarrow> 's \<Rightarrow> 's" and contents :: "'s \<Rightarrow> 'e multiset"
  assumes contents_put: "contents (put e s) = add_mset e (contents s)"
begin

lemma contents_fold: "contents (fold put es s) = contents s + mset es"
  by (induction es arbitrary: s) (simp_all add: contents_put)

end

locale raw_sink = event_sink put contents
  for put :: "event_envelope \<Rightarrow> 's \<Rightarrow> 's" and contents :: "'s \<Rightarrow> event_envelope multiset"
begin

lemma ingest_stores_all:
  assumes "dict_get sources (ij_source job) = Some capture"
  shows "\<exists>s'. ingest put sources job s = Inr (length (capture job), s') \<and> contents s' = contents s + mset (capture job)"
proof -
  have "fold (\<lambda>e (n, st). (Suc n, put e st)) es (n, st) = (n + length es, fold put es st)" for es n st
    by (induction es arbitrary: n st) auto
  with assms show ?thesis by (simp add: ingest_def contents_fold)
qed

end

definition reject_of :: "(event_envelope \<Rightarrow> string) \<Rightarrow> normalization_result \<Rightarrow> normalization_reject" where
  "reject_of digest r =
     \<lparr>nrj_raw = nr_raw r, nrj_reasons = nr_reasons r, nrj_raw_sha256 = digest (nr_raw r), nrj_normalizer_version = ''normalizer-v1''\<rparr>"

text \<open>A result names its envelope and is either accepted with events or rejected with a reason.\<close>

definition result_ok :: "normalization_result \<Rightarrow> bool" where
  "result_ok r \<longleftrightarrow> nr_accepted r = (nr_events r \<noteq> []) \<and> nr_accepted r = (nr_reasons r = [])"

lemma normalize_raw_ok:
  assumes "normalize_raw handlers raw s = (r, s')"
  shows "nr_raw r = raw \<and> result_ok r"
  using assms by (auto simp: normalize_raw_def rejected_result_def result_ok_def split: option.splits prod.splits sum.splits if_splits)

locale normalized_sink = event_sink put contents
  for put :: "normalized_event \<Rightarrow> 's \<Rightarrow> 's" and contents :: "'s \<Rightarrow> normalized_event multiset"
begin

lemma pipeline_step_total:
  assumes "digest raw \<noteq> []"
  obtains r st where "normalize_raw handlers raw (pl_normalizer p) = (r, st)"
    and "pipeline_step handlers put put_reject digest raw (rs, p) =
      Inr (rs @ [r], \<lparr>pl_normalizer = st, pl_store = fold put (nr_events r) (pl_store p),
        pl_rejects = (case put_reject of None \<Rightarrow> pl_rejects p
          | Some putr \<Rightarrow> fold putr (map (reject_of digest) (if nr_events r = [] then [r] else [])) (pl_rejects p))\<rparr>)"
proof -
  obtain r st where n: "normalize_raw handlers raw (pl_normalizer p) = (r, st)" by (cases "normalize_raw handlers raw (pl_normalizer p)")
  note ok = normalize_raw_ok [OF n]
  have "nr_events r = [] \<Longrightarrow> normalization_reject_check (reject_of digest r) = None"
    using ok assms by (auto simp: normalization_reject_check_def reject_of_def result_ok_def)
  then show ?thesis
    using n ok by (intro that [OF n]) (auto simp: pipeline_step_def reject_of_def split: option.splits)
qed

lemma run_pipeline_accounts:
  assumes "\<forall>raw \<in> set raws. digest raw \<noteq> []"
  shows "\<exists>rs p'. run_pipeline handlers put put_reject digest raws p = Inr (rs, p') \<and>
     map nr_raw rs = raws \<and> list_all result_ok rs \<and>
     (rs, pl_normalizer p') = normalize_all handlers raws (pl_normalizer p) \<and>
     contents (pl_store p') = contents (pl_store p) + mset (concat (map nr_events rs)) \<and>
     pl_rejects p' = (case put_reject of None \<Rightarrow> pl_rejects p
       | Some putr \<Rightarrow> fold putr (map (reject_of digest) (filter (\<lambda>r. nr_events r = []) rs)) (pl_rejects p))"
proof -
  have "\<exists>rs p'. fold_result (pipeline_step handlers put put_reject digest) raws (acc, p) = Inr (acc @ rs, p') \<and>
     map nr_raw rs = raws \<and> list_all result_ok rs \<and>
     (rs, pl_normalizer p') = normalize_all handlers raws (pl_normalizer p) \<and>
     contents (pl_store p') = contents (pl_store p) + mset (concat (map nr_events rs)) \<and>
     pl_rejects p' = (case put_reject of None \<Rightarrow> pl_rejects p
       | Some putr \<Rightarrow> fold putr (map (reject_of digest) (filter (\<lambda>r. nr_events r = []) rs)) (pl_rejects p))"
    (is "\<exists>rs p'. ?run raws acc p rs p'") for acc
    using assms
  proof (induction raws arbitrary: acc p)
    case Nil
    then show ?case by (intro exI [of _ "[]"] exI [of _ p]) (simp split: option.splits)
  next
    case (Cons raw raws)
    have d: "digest raw \<noteq> []" using Cons.prems by simp
    obtain r st where n: "normalize_raw handlers raw (pl_normalizer p) = (r, st)"
      and step: "pipeline_step handlers put put_reject digest raw (acc, p) =
      Inr (acc @ [r], \<lparr>pl_normalizer = st, pl_store = fold put (nr_events r) (pl_store p),
        pl_rejects = (case put_reject of None \<Rightarrow> pl_rejects p
          | Some putr \<Rightarrow> fold putr (map (reject_of digest) (if nr_events r = [] then [r] else [])) (pl_rejects p))\<rparr>)"
      by (rule pipeline_step_total [where digest = digest and raw = raw and handlers = handlers and p = p and put_reject = put_reject and rs = acc, OF d])
    let ?p = "\<lparr>pl_normalizer = st, pl_store = fold put (nr_events r) (pl_store p),
        pl_rejects = (case put_reject of None \<Rightarrow> pl_rejects p
          | Some putr \<Rightarrow> fold putr (map (reject_of digest) (if nr_events r = [] then [r] else [])) (pl_rejects p))\<rparr>"
    obtain rs p' where "?run raws (acc @ [r]) ?p rs p'" using Cons.IH [of "acc @ [r]" ?p] Cons.prems by auto
    then have "?run (raw # raws) acc p (r # rs) p'"
      using n step normalize_raw_ok [OF n]
      by (auto simp: contents_fold Let_def split: option.splits prod.splits)
    then show ?case by (intro exI [of _ "r # rs"] exI [of _ p'])
  qed
  from this [of "[]"] show ?thesis by (simp add: run_pipeline_def)
qed

end

interpretation raw_store: raw_sink store_append "\<lambda>s. mset (ms_raw_events s)"
  by unfold_locales (simp add: store_append_def)

interpretation normalized_store: normalized_sink append_normalized "\<lambda>s. mset (ms_normalized_events s)"
  by unfold_locales (simp add: append_normalized_def)

section \<open>Nothing is lost between capture and replay\<close>

lemma fold_snoc: "fold (\<lambda>j js. js @ [j]) xs ys = ys @ xs"
  by (induction xs arbitrary: ys) auto



section \<open>Ticks\<close>

lemma ticks_from_diverges:
  assumes "ticks_from w step t = Some r" and "step \<le> 0"
  shows "instant (rw_ends_at w) < instant t"
proof -
  have "step \<le> 0 \<longrightarrow> instant (rw_ends_at w) < instant t"
  proof (rule ticks_from.raw_induct [of "\<lambda>w s t r. s \<le> 0 \<longrightarrow> instant (rw_ends_at w) < instant t" w step t r, OF _ assms(1)])
    fix f w s t r
    assume ih: "\<And>w s t r. f w s t = Some r \<Longrightarrow> s \<le> 0 \<longrightarrow> instant (rw_ends_at w) < instant t"
      and run: "(if instant t \<le> instant (rw_ends_at w) then Option.bind (f w s (dt_plus t s)) (\<lambda>ts. Some (t # ts)) else Some []) = Some r"
    show "s \<le> 0 \<longrightarrow> instant (rw_ends_at w) < instant t"
    proof (cases "f w s (dt_plus t s)")
      case None
      with run show ?thesis by (auto split: if_splits)
    next
      case (Some ts)
      from ih [OF this] show ?thesis by auto
    qed
  qed
  with assms(2) show ?thesis by blast
qed

text \<open>The number of ticks left from an instant on.\<close>

definition ticks_left :: "replay_window \<Rightarrow> timedelta \<Rightarrow> datetime \<Rightarrow> nat" where
  "ticks_left w step t = nat ((instant (rw_ends_at w) - instant t + step) div step)"

lemma ticks_from_returns:
  assumes "0 < step"
  shows "ticks_from w step t = Some (map (\<lambda>i. dt_plus t (int i * step)) [0..<ticks_left w step t])"
proof (induction "ticks_left w step t" arbitrary: t)
  case 0
  then have "(instant (rw_ends_at w) - instant t + step) div step \<le> 0" by (simp add: ticks_left_def)
  then have "instant (rw_ends_at w) < instant t"
    using assms pos_imp_zdiv_pos_iff [OF assms, of "instant (rw_ends_at w) - instant t + step"] by linarith
  with 0 show ?case by (subst ticks_from.simps) simp
next
  case (Suc n)
  have "(instant (rw_ends_at w) - instant t + step) div step > 0" using Suc(2) by (simp add: ticks_left_def)
  then have le: "instant t \<le> instant (rw_ends_at w)"
    using pos_imp_zdiv_pos_iff [OF assms, of "instant (rw_ends_at w) - instant t + step"] by linarith
  have "ticks_left w step (dt_plus t step) = n"
  proof -
    have "(instant (rw_ends_at w) - instant t + step) div step = (instant (rw_ends_at w) - (instant t + step) + step) div step + 1"
      using assms div_add_self2 [of step "instant (rw_ends_at w) - instant t"] by simp
    then show ?thesis using Suc(2) by (simp add: ticks_left_def nat_add_distrib)
  qed
  with Suc(1) [of "dt_plus t step"] have "ticks_from w step (dt_plus t step) =
      Some (map (\<lambda>i. dt_plus (dt_plus t step) (int i * step)) [0..<n])" by simp
  moreover have "map (\<lambda>i. dt_plus t (int i * step)) [0..<Suc n] = t # map (\<lambda>i. dt_plus (dt_plus t step) (int i * step)) [0..<n]"
    by (subst upt_conv_Cons) (auto simp: map_Suc_upt [symmetric] dt_plus_def algebra_simps simp del: upt_Suc)
  ultimately show ?case using le Suc(2) by (subst ticks_from.simps) simp
qed

text \<open>
  The ticks of a replay window return exactly for a positive step, and are then the instants
  from the start on, one step apart, up to the end of the window and no further; for a step of zero
  or less the loop never ends.
\<close>

theorem replay_ticks_return:
  assumes "replay_window_check w = None"
  shows "(0 < step \<longrightarrow> (\<exists>ts. ticks w step = Some ts \<and> hd ts = rw_starts_at w \<and>
       (\<forall>i < length ts. instant (ts ! i) = instant (rw_starts_at w) + int i * step) \<and>
       (\<forall>t \<in> set ts. instant t \<le> instant (rw_ends_at w)) \<and> instant (rw_ends_at w) < instant (last ts) + step))
     \<and> (step \<le> 0 \<longrightarrow> ticks w step = None)"
proof (intro conjI impI)
  assume "step \<le> 0"
  show "ticks w step = None"
  proof (cases "ticks w step")
    case (Some r)
    then have "instant (rw_ends_at w) < instant (rw_starts_at w)"
      unfolding ticks_def using ticks_from_diverges \<open>step \<le> 0\<close> by blast
    with assms show ?thesis by (simp add: replay_window_check_def)
  qed simp
next
  assume step: "0 < step"
  let ?d = "instant (rw_ends_at w) - instant (rw_starts_at w)"
  define n where "n = ticks_left w step (rw_starts_at w)"
  define ts where "ts = map (\<lambda>i. dt_plus (rw_starts_at w) (int i * step)) [0..<n]"
  have "0 < ?d" using assms by (simp add: replay_window_check_def)
  then have "0 \<le> ?d div step" using step by (simp add: pos_imp_zdiv_nonneg_iff)
  moreover have "(?d + step) div step = ?d div step + 1" using step by simp
  ultimately have n: "int n = ?d div step + 1" by (simp add: n_def ticks_left_def)
  have dm: "?d = ?d div step * step + ?d mod step" "0 \<le> ?d mod step" "?d mod step < step" using step by auto
  have pos: "0 < n" using n \<open>0 \<le> ?d div step\<close> by linarith
  have "int i * step \<le> ?d" if "i < n" for i
  proof -
    have "int i \<le> ?d div step" using that n by linarith
    then have "int i * step \<le> ?d div step * step" using step by (intro mult_right_mono) auto
    then show ?thesis using dm by linarith
  qed
  then have "\<forall>t \<in> set ts. instant t \<le> instant (rw_ends_at w)" by (auto simp: ts_def le_diff_eq add.commute)
  moreover have "instant (last ts) = instant (rw_starts_at w) + ?d div step * step"
  proof -
    have "last ts = dt_plus (rw_starts_at w) (int (n - 1) * step)" using pos by (simp add: ts_def last_map)
    moreover have "int (n - 1) = ?d div step" using n pos by linarith
    ultimately show ?thesis by simp
  qed
  then have "instant (rw_ends_at w) < instant (last ts) + step" using dm by linarith
  moreover have "hd ts = rw_starts_at w" using pos by (simp add: ts_def hd_map dt_plus_def)
  moreover have "ticks w step = Some ts" unfolding ticks_def ts_def n_def by (rule ticks_from_returns [OF step])
  ultimately show "\<exists>ts. ticks w step = Some ts \<and> hd ts = rw_starts_at w \<and>
       (\<forall>i < length ts. instant (ts ! i) = instant (rw_starts_at w) + int i * step) \<and>
       (\<forall>t \<in> set ts. instant t \<le> instant (rw_ends_at w)) \<and> instant (rw_ends_at w) < instant (last ts) + step"
    by (auto simp: ts_def)
qed

section \<open>At concrete inputs\<close>

definition demo_envelope :: "string \<Rightarrow> event_envelope" where
  "demo_envelope channel =
     \<lparr>raw_venue = Some KALSHI, raw_source = ''kalshi'', raw_channel = channel, raw_received_at = utc 0, raw_exchange_ts = None,
      raw_payload = [], raw_schema_version = ''v1'', raw_metadata = []\<rparr>"

definition demo_timer :: "string \<Rightarrow> int \<Rightarrow> normalized_event" where
  "demo_timer i t = TimerEvent i \<lparr>tm_timestamp = utc t, tm_label = ''tick''\<rparr> default_provenance"

text \<open>A handler for one channel that counts its calls, one that raises, and no other.\<close>

definition demo_handlers :: "nat handlers" where
  "demo_handlers key =
     (if snd key = ''timer'' then Some (\<lambda>raw n. (Inr [demo_timer ''t'' 5], Suc n))
      else if snd key = ''bad'' then Some (\<lambda>raw n. (Inl (ValueError ''price''), Suc n))
      else None)"



theorem replay_ticks_return_witness:
  "\<exists>ts. ticks \<lparr>rw_starts_at = utc 0, rw_ends_at = utc 10\<rparr> 4 = Some ts \<and> hd ts = utc 0"
  using replay_ticks_return [of "\<lparr>rw_starts_at = utc 0, rw_ends_at = utc 10\<rparr>" 4]
  by (auto simp: replay_window_check_def)

end
