(* ===== verification/KalshiNormalizer.thy ===== *)
theory KalshiNormalizer
  imports Envelopes BookReplay Numerals
begin

text \<open>
  \<open>normalization/kalshi.py\<close>: native Kalshi payloads to normalized events. The normalizer keeps the bid
  ladders of every market; a snapshot replaces them, a delta changes one price, and both answer with
  the whole book, whose asks are the complements of the other side's bids. An exception leaves the
  ladders as far as the handler had come, because the pipeline catches it and goes on.

  \<open>str_other\<close> prints the values that are not strings, \<open>fromiso\<close> is \<open>datetime.fromisoformat\<close>. A NaN or
  an infinity in a price or a quantity is read as the malformed literal it would be for the venue.
\<close>

section \<open>Payloads\<close>

definition pv_get :: "(string \<times> pyval) list \<Rightarrow> string \<Rightarrow> pyval" where
  "pv_get d k = (case map_of d k of None \<Rightarrow> PyNone | Some v \<Rightarrow> v)"

definition py_or :: "pyval \<Rightarrow> pyval \<Rightarrow> pyval" where
  "py_or a b = (if truthy a then a else b)"

fun as_mapping :: "pyval \<Rightarrow> (string \<times> pyval) list result" where
  "as_mapping (PyDict d) = Inr d"
| "as_mapping (PyFrozen d) = Inr d"
| "as_mapping _ = Inl (TypeError ''expected object payload, got '')"

definition km_message :: "event_envelope \<Rightarrow> (string \<times> pyval) list result" where
  "km_message raw =
     as_mapping (case map_of (raw_payload raw) ''msg'' of None \<Rightarrow> PyDict (raw_payload raw) | Some v \<Rightarrow> v)"

definition market_ticker :: "(string \<times> pyval) list \<Rightarrow> string result" where
  "market_ticker msg =
     (case py_or (py_or (pv_get msg ''market_ticker'') (pv_get msg ''ticker'')) (pv_get msg ''market_id'') of
        PyStr s \<Rightarrow> if s = [] then Inl (ValueError ''Kalshi payload missing market_ticker'') else Inr s
      | _ \<Rightarrow> Inl (ValueError ''Kalshi payload missing market_ticker''))"

definition km_instrument :: "(string \<times> pyval) list \<Rightarrow> instrument_id result" where
  "km_instrument msg =
     bind_result (market_ticker msg) (\<lambda>t.
       let i = \<lparr>iid_venue = KALSHI, market_id = t, outcome_id = None\<rparr> in validated (instrument_id_check i) i)"

definition km_event_id :: "(pyval \<Rightarrow> string) \<Rightarrow> event_envelope \<Rightarrow> (string \<times> pyval) list \<Rightarrow> string result" where
  "km_event_id str_other raw msg =
     (let prefix = raw_source raw @ '':'' @ raw_channel raw @ '':'';
          with_ticker = (\<lambda>suffix. bind_result (market_ticker msg) (\<lambda>t. Inr (prefix @ t @ '':'' @ suffix)))
      in case py_or (pv_get msg ''event_id'') (pv_get msg ''trade_id'') of
           PyStr (c # cs) \<Rightarrow> Inr (prefix @ c # cs)
         | _ \<Rightarrow>
             (case pv_get (raw_metadata raw) ''source_sequence'' of
                PyNone \<Rightarrow> with_ticker (isoformat (raw_received_at raw))
              | v \<Rightarrow> with_ticker (py_str str_other v)))"

definition km_provenance ::
  "(pyval \<Rightarrow> string) \<Rightarrow> event_envelope \<Rightarrow> (string \<times> pyval) list \<Rightarrow> event_provenance result" where
  "km_provenance str_other raw extra =
     (let ws = (case map_of (raw_metadata raw) ''ws_type'' of
                  None \<Rightarrow> [] | Some v \<Rightarrow> [(''ws_type'', PyStr (py_str str_other v))]);
          p = \<lparr>prov_source = raw_source raw, prov_channel = raw_channel raw,
               prov_schema_version = raw_schema_version raw, prov_venue = raw_venue raw,
               prov_source_sequence = map_option (py_str str_other) (map_of (raw_metadata raw) ''source_sequence''),
               normalization_version = ''kalshi-v1'',
               prov_metadata = freeze_mapping (fold (\<lambda>(k, v) d. dict_set k v d) extra ws)\<rparr>
      in validated (event_provenance_check p) p)"

text \<open>\<open>Decimal(str(v))\<close> of a price or quantity.\<close>

definition km_decimal :: "pyval \<Rightarrow> decimal result" where
  "km_decimal v = (case decimal_of_pyval v of Some (Finite x) \<Rightarrow> Inr x | _ \<Rightarrow> Inl InvalidOperation)"

definition optional_decimal :: "pyval \<Rightarrow> decimal option result" where
  "optional_decimal v =
     (case v of PyNone \<Rightarrow> Inr None | _ \<Rightarrow> bind_result (km_decimal v) (\<lambda>x. Inr (Some x)))"

definition invert_probability :: "decimal option \<Rightarrow> decimal option" where
  "invert_probability v = map_option (\<lambda>p. dsub 1 p) v"

definition km_level :: "decimal option \<Rightarrow> decimal option \<Rightarrow> order_book_level option result" where
  "km_level price quantity =
     (case price of
        None \<Rightarrow> Inr None
      | Some p \<Rightarrow>
          bind_result (mk_level p (case quantity of None \<Rightarrow> 1 | Some q \<Rightarrow> if q = 0 then 1 else q)) (\<lambda>l. Inr (Some l)))"

text \<open>
  \<open>datetime.fromtimestamp(x, tz=UTC)\<close>: whole seconds and a fraction rounded to microseconds. Years
  outside 1 to 9999 raise.
\<close>

definition from_timestamp :: "rat \<Rightarrow> datetime result" where
  "from_timestamp x =
     (let n = trunc_rat x;
          t = n * 1000000 + round_half_even (fctx ((x - of_int n) * 1000000))
      in if -62135596800000000 \<le> t \<and> t < 253402300800000000 then Inr (utc t)
         else Inl (ValueError ''year is out of range''))"

fun py_float :: "pyval \<Rightarrow> rat option" where
  "py_float (PyInt n) = Some (fctx (of_int n))"
| "py_float (PyFloat x) = Some x"
| "py_float (PyBool b) = Some (if b then 1 else 0)"
| "py_float _ = None"

definition message_time :: "(string \<Rightarrow> datetime result) \<Rightarrow> (string \<times> pyval) list \<Rightarrow> datetime option result" where
  "message_time fromiso msg =
     (case py_float (pv_get msg ''ts_ms'') of
        Some x \<Rightarrow> bind_result (from_timestamp (fctx (x / 1000))) (\<lambda>t. Inr (Some t))
      | None \<Rightarrow>
          (case py_float (py_or (pv_get msg ''ts'') (pv_get msg ''open_ts'')) of
             Some x \<Rightarrow> bind_result (from_timestamp x) (\<lambda>t. Inr (Some t))
           | None \<Rightarrow>
               (case pv_get msg ''time'' of
                  PyStr (c # cs) \<Rightarrow>
                    let s = c # cs;
                        normalized = (if last s = CHR ''Z'' then butlast s @ ''+00:00'' else s)
                    in bind_result (fromiso normalized) (\<lambda>t. Inr (Some t))
                | _ \<Rightarrow> Inr None)))"

definition km_exchange_ts ::
  "(string \<Rightarrow> datetime result) \<Rightarrow> event_envelope \<Rightarrow> (string \<times> pyval) list \<Rightarrow> datetime option result" where
  "km_exchange_ts fromiso raw msg =
     bind_result (message_time fromiso msg) (\<lambda>t. Inr (case t of None \<Rightarrow> raw_exchange_ts raw | Some u \<Rightarrow> Some u))"

definition side_of_string :: "string \<Rightarrow> outcome_side result" where
  "side_of_string s =
     (if s = ''yes'' then Inr YES else if s = ''no'' then Inr NO
      else Inl (ValueError (s @ '' is not a valid OutcomeSide'')))"

definition checked_event :: "normalized_event \<Rightarrow> normalized_event result" where
  "checked_event e = validated (event_check e) e"

section \<open>Tickers\<close>

definition ticker_quote ::
  "string \<Rightarrow> instrument_id \<Rightarrow> outcome_side \<Rightarrow> decimal option \<times> decimal option \<Rightarrow> decimal option \<times> decimal option \<Rightarrow>
   datetime option \<Rightarrow> datetime \<Rightarrow> event_provenance \<Rightarrow> normalized_event list result" where
  "ticker_quote eid iid side bid ask ts received prov =
     (if fst bid = None \<and> fst ask = None then Inr []
      else bind_result (km_level (fst bid) (snd bid)) (\<lambda>b.
           bind_result (km_level (fst ask) (snd ask)) (\<lambda>a.
             let q = \<lparr>q_instrument_id = iid, q_side = side, q_bid = b, q_ask = a, q_exchange_ts = ts, q_received_at = received\<rparr>
             in bind_result (validated (quote_check q) q) (\<lambda>q.
                bind_result (checked_event (QuoteEvent eid q prov)) (\<lambda>e. Inr [e])))))"

text \<open>The eight numbers of a ticker: prices and sizes of both sides, and whether a size was made up.\<close>

record ticker_fields =
  tk_yes_bid :: "decimal option"
  tk_yes_ask :: "decimal option"
  tk_no_bid :: "decimal option"
  tk_no_ask :: "decimal option"
  tk_yes_bid_size :: "decimal option"
  tk_yes_ask_size :: "decimal option"
  tk_no_bid_size :: "decimal option"
  tk_no_ask_size :: "decimal option"
  tk_synthetic :: bool

definition ticker_numbers :: "(string \<times> pyval) list \<Rightarrow> ticker_fields result" where
  "ticker_numbers msg =
     (let ybs = pv_get msg ''yes_bid_size_fp''; yas = pv_get msg ''yes_ask_size_fp'';
          nbs = pv_get msg ''no_bid_size_fp''; nas = pv_get msg ''no_ask_size_fp'' in
      bind_result (optional_decimal (pv_get msg ''yes_bid_dollars'')) (\<lambda>yb.
      bind_result (optional_decimal (pv_get msg ''yes_ask_dollars'')) (\<lambda>ya.
      bind_result (optional_decimal (py_or ybs (PyStr ''1''))) (\<lambda>yb_size.
      bind_result (optional_decimal (py_or yas (PyStr ''1''))) (\<lambda>ya_size.
      bind_result (optional_decimal (pv_get msg ''no_bid_dollars'')) (\<lambda>xb.
      bind_result (optional_decimal (pv_get msg ''no_ask_dollars'')) (\<lambda>xa.
        let nb = (if xb \<noteq> None then xb else invert_probability ya);
            na = (if xa \<noteq> None then xa else invert_probability yb) in
        bind_result (optional_decimal (py_or (py_or nbs (if xb = None then yas else PyNone)) (PyStr ''1''))) (\<lambda>nb_size.
        bind_result (optional_decimal (py_or (py_or nas (if xa = None then ybs else PyNone)) (PyStr ''1''))) (\<lambda>na_size.
          Inr \<lparr>tk_yes_bid = yb, tk_yes_ask = ya, tk_no_bid = nb, tk_no_ask = na,
               tk_yes_bid_size = yb_size, tk_yes_ask_size = ya_size, tk_no_bid_size = nb_size, tk_no_ask_size = na_size,
               tk_synthetic =
                 (yb \<noteq> None \<and> ybs = PyNone \<or> ya \<noteq> None \<and> yas = PyNone \<or>
                  xb \<noteq> None \<and> nbs = PyNone \<or> xa \<noteq> None \<and> nas = PyNone \<or>
                  nb \<noteq> None \<and> xb = None \<and> yas = PyNone \<or> na \<noteq> None \<and> xa = None \<and> ybs = PyNone)\<rparr>)))))))))"

definition normalize_ticker ::
  "(pyval \<Rightarrow> string) \<Rightarrow> (string \<Rightarrow> datetime result) \<Rightarrow> event_envelope \<Rightarrow> normalized_event list result" where
  "normalize_ticker str_other fromiso raw =
     bind_result (km_message raw) (\<lambda>msg.
     bind_result (km_instrument msg) (\<lambda>iid.
     bind_result (km_exchange_ts fromiso raw msg) (\<lambda>ts.
     bind_result (ticker_numbers msg) (\<lambda>f.
     bind_result (km_provenance str_other raw
       (if tk_synthetic f
        then [(''synthetic_liquidity'', PyBool True), (''liquidity_source'', PyStr ''ticker_missing_size'')] else [])) (\<lambda>prov.
     bind_result (km_event_id str_other raw msg) (\<lambda>eid.
     bind_result (ticker_quote (eid @ '':yes'') iid YES (tk_yes_bid f, tk_yes_bid_size f) (tk_yes_ask f, tk_yes_ask_size f)
       ts (raw_received_at raw) prov) (\<lambda>yes.
     bind_result (ticker_quote (eid @ '':no'') iid NO (tk_no_bid f, tk_no_bid_size f) (tk_no_ask f, tk_no_ask_size f)
       ts (raw_received_at raw) prov) (\<lambda>no. Inr (yes @ no)))))))))"

section \<open>Trades\<close>

definition km_trade_price :: "outcome_side \<Rightarrow> pyval \<Rightarrow> pyval \<Rightarrow> pyval \<Rightarrow> decimal result" where
  "km_trade_price side yes_price no_price fallback =
     (let inverted = (\<lambda>v. bind_result (km_decimal v) (\<lambda>p. Inr (dsub 1 p)))
      in if side = NO \<and> no_price \<noteq> PyNone then km_decimal no_price
         else if side = NO \<and> yes_price \<noteq> PyNone then inverted yes_price
         else if yes_price \<noteq> PyNone then km_decimal yes_price
         else if no_price \<noteq> PyNone then inverted no_price
         else km_decimal fallback)"

definition normalize_trade ::
  "(pyval \<Rightarrow> string) \<Rightarrow> (string \<Rightarrow> datetime result) \<Rightarrow> event_envelope \<Rightarrow> normalized_event list result" where
  "normalize_trade str_other fromiso raw =
     bind_result (km_message raw) (\<lambda>msg.
       let side_raw = py_or (py_or (pv_get msg ''taker_outcome_side'') (pv_get msg ''taker_side'')) (pv_get msg ''side'');
           yes_price = py_or (pv_get msg ''yes_price_dollars'') (pv_get msg ''yes_price'');
           no_price = py_or (pv_get msg ''no_price_dollars'') (pv_get msg ''no_price'');
           quantity_raw = py_or (py_or (pv_get msg ''count_fp'') (pv_get msg ''quantity'')) (pv_get msg ''count'')
       in
     bind_result (if truthy side_raw then side_of_string (py_str str_other side_raw) else Inr YES) (\<lambda>side.
     bind_result (km_instrument msg) (\<lambda>iid.
     bind_result (km_trade_price side yes_price no_price (pv_get msg ''price'')) (\<lambda>price.
     bind_result (km_decimal (py_or quantity_raw (PyStr ''1''))) (\<lambda>quantity.
     bind_result (km_exchange_ts fromiso raw msg) (\<lambda>ts.
     bind_result (mk_trade
       \<lparr>tr_instrument_id = iid, tr_side = Some side, tr_price = price, tr_quantity = quantity,
        trade_id = (case pv_get msg ''trade_id'' of PyNone \<Rightarrow> None | v \<Rightarrow> Some (py_str str_other v)),
        tr_exchange_ts = ts, tr_received_at = raw_received_at raw, aggressor_side = Some side,
        tr_metadata = (''raw_schema_version'', PyStr (raw_schema_version raw)) #
          (if quantity_raw = PyNone then [(''synthetic_quantity'', PyBool True)] else [])\<rparr>) (\<lambda>t.
     bind_result (km_event_id str_other raw msg) (\<lambda>eid.
     bind_result (km_provenance str_other raw
       (if quantity_raw = PyNone
        then [(''synthetic_quantity'', PyBool True), (''liquidity_source'', PyStr ''trade_missing_quantity'')] else [])) (\<lambda>prov.
     bind_result (checked_event (TradeEvent eid t prov)) (\<lambda>e. Inr [e]))))))))))"

section \<open>Books\<close>

text \<open>The elements a \<open>for\<close> loop draws from a value, and the items of a \<open>Sequence\<close>.\<close>

fun iter_items :: "pyval \<Rightarrow> pyval list result" where
  "iter_items (PyTuple xs) = Inr xs"
| "iter_items (PyList xs) = Inr xs"
| "iter_items (PySet xs) = Inr xs"
| "iter_items (PyStr s) = Inr (map (\<lambda>c. PyStr [c]) s)"
| "iter_items (PyDict d) = Inr (map (\<lambda>kv. PyStr (fst kv)) d)"
| "iter_items (PyFrozen d) = Inr (map (\<lambda>kv. PyStr (fst kv)) d)"
| "iter_items _ = Inl (TypeError ''object is not iterable'')"

fun sequence_items :: "pyval \<Rightarrow> pyval list option" where
  "sequence_items (PyTuple xs) = Some xs"
| "sequence_items (PyList xs) = Some xs"
| "sequence_items (PyStr s) = Some (map (\<lambda>c. PyStr [c]) s)"
| "sequence_items _ = None"

definition km_level_of :: "pyval \<Rightarrow> order_book_level list result" where
  "km_level_of raw_level =
     (case sequence_items raw_level of
        Some (p # q # _) \<Rightarrow>
          bind_result (km_decimal p) (\<lambda>price. bind_result (km_decimal q) (\<lambda>quantity.
            bind_result (mk_level price quantity) (\<lambda>l. Inr [l])))
      | _ \<Rightarrow> Inr [])"

definition km_levels :: "pyval \<Rightarrow> order_book_level list result" where
  "km_levels raw_levels =
     (case raw_levels of
        PyNone \<Rightarrow> Inr []
      | _ \<Rightarrow> bind_result (iter_items raw_levels)
               (\<lambda>items. fold_result (\<lambda>v ls. bind_result (km_level_of v) (\<lambda>l. Inr (ls @ l))) items []))"

text \<open>\<open>sorted(levels, key=price, reverse=True)\<close> keeps the order of equal prices.\<close>

definition sort_descending :: "order_book_level list \<Rightarrow> order_book_level list" where
  "sort_descending ls = rev (sort_key lvl_price (rev ls))"

definition inverted_ask_levels :: "order_book_level list \<Rightarrow> order_book_level list result" where
  "inverted_ask_levels bids =
     bind_result
       (fold_result (\<lambda>l ls. let p = dsub 1 (lvl_price l) in
            if 0 \<le> p \<and> p \<le> 1 then bind_result (mk_level p (lvl_quantity l)) (\<lambda>a. Inr (ls @ [a])) else Inr ls) bids [])
       (\<lambda>ls. Inr (sort_key lvl_price ls))"

definition book_from_ladders ::
  "instrument_id \<Rightarrow> order_book_level list \<Rightarrow> order_book_level list \<Rightarrow> datetime option \<Rightarrow> datetime \<Rightarrow> order_book result" where
  "book_from_ladders iid yes no ts received =
     (let yb = sort_descending yes; nb = sort_descending no in
      bind_result (inverted_ask_levels nb) (\<lambda>ya.
      bind_result (inverted_ask_levels yb) (\<lambda>na.
        let b = \<lparr>bk_instrument_id = iid, yes_bids = yb, yes_asks = ya, no_bids = nb, no_asks = na,
                 bk_exchange_ts = ts, bk_received_at = received\<rparr>
        in validated (order_book_check b) b)))"

definition normalize_rest_orderbook ::
  "(pyval \<Rightarrow> string) \<Rightarrow> event_envelope \<Rightarrow> normalized_event list result" where
  "normalize_rest_orderbook str_other raw =
     (let payload = raw_payload raw in
      bind_result (as_mapping (py_or (py_or (pv_get payload ''orderbook_fp'') (pv_get payload ''orderbook'')) (PyDict payload))) (\<lambda>book.
        let ticker = py_str str_other (py_or (py_or (pv_get payload ''market_ticker'') (pv_get payload ''ticker'')) (pv_get payload ''market_id''));
            msg = [(''market_ticker'', PyStr ticker)] in
      bind_result (km_instrument msg) (\<lambda>iid.
      bind_result (km_levels (py_or (pv_get book ''yes_dollars'') (pv_get book ''yes''))) (\<lambda>yes.
      bind_result (km_levels (py_or (pv_get book ''no_dollars'') (pv_get book ''no''))) (\<lambda>no.
      bind_result (book_from_ladders iid yes no (raw_exchange_ts raw) (raw_received_at raw)) (\<lambda>b.
      bind_result (km_event_id str_other raw msg) (\<lambda>eid.
      bind_result (km_provenance str_other raw []) (\<lambda>prov.
      bind_result (checked_event (OrderBookEvent eid b prov)) (\<lambda>e. Inr [e])))))))))"

section \<open>Snapshots and deltas\<close>

record kalshi_book =
  kb_yes_bids :: ladder
  kb_no_bids :: ladder

type_synonym kalshi_books = "(string, kalshi_book) dict"

definition empty_kalshi_book :: kalshi_book where
  "empty_kalshi_book = \<lparr>kb_yes_bids = [], kb_no_bids = []\<rparr>"

text \<open>\<open>setdefault\<close>: the market's book, stored from now on.\<close>

definition book_of :: "string \<Rightarrow> kalshi_books \<Rightarrow> kalshi_book" where
  "book_of t bs = dict_get_default bs t empty_kalshi_book"

text \<open>What snapshot and delta answer with: the event of the stored ladders.\<close>

definition emit_kalshi_book ::
  "(pyval \<Rightarrow> string) \<Rightarrow> (string \<Rightarrow> datetime result) \<Rightarrow> event_envelope \<Rightarrow> (string \<times> pyval) list \<Rightarrow> kalshi_book \<Rightarrow>
   normalized_event list result" where
  "emit_kalshi_book str_other fromiso raw msg st =
     bind_result (km_event_id str_other raw msg) (\<lambda>eid.
     bind_result (km_instrument msg) (\<lambda>iid.
     bind_result (ladder_levels True (kb_yes_bids st)) (\<lambda>yes.
     bind_result (ladder_levels True (kb_no_bids st)) (\<lambda>no.
     bind_result (km_exchange_ts fromiso raw msg) (\<lambda>ts.
     bind_result (book_from_ladders iid yes no ts (raw_received_at raw)) (\<lambda>b.
     bind_result (km_provenance str_other raw []) (\<lambda>prov.
     bind_result (checked_event (OrderBookEvent eid b prov)) (\<lambda>e. Inr [e]))))))))"

definition snapshot_side :: "(string \<times> pyval) list \<Rightarrow> string \<Rightarrow> order_book_level list result" where
  "snapshot_side msg side =
     km_levels (py_or (py_or (pv_get msg (side @ ''_dollars_fp'')) (pv_get msg (side @ ''_dollars''))) (pv_get msg side))"

definition normalize_snapshot ::
  "(pyval \<Rightarrow> string) \<Rightarrow> (string \<Rightarrow> datetime result) \<Rightarrow> event_envelope \<Rightarrow> kalshi_books \<Rightarrow>
   normalized_event list result \<times> kalshi_books" where
  "normalize_snapshot str_other fromiso raw bs =
     (case bind_result (km_message raw) (\<lambda>msg. bind_result (market_ticker msg) (\<lambda>t. Inr (msg, t))) of
        Inl e \<Rightarrow> (Inl e, bs)
      | Inr (msg, t) \<Rightarrow>
          let st = book_of t bs in
          case snapshot_side msg ''yes'' of
            Inl e \<Rightarrow> (Inl e, dict_set t st bs)
          | Inr yes \<Rightarrow>
              let st1 = st\<lparr>kb_yes_bids := ladder_from_levels yes\<rparr> in
              case snapshot_side msg ''no'' of
                Inl e \<Rightarrow> (Inl e, dict_set t st1 bs)
              | Inr no \<Rightarrow>
                  let st2 = st1\<lparr>kb_no_bids := ladder_from_levels no\<rparr>
                  in (emit_kalshi_book str_other fromiso raw msg st2, dict_set t st2 bs))"

definition pv_item :: "(string \<times> pyval) list \<Rightarrow> string \<Rightarrow> pyval result" where
  "pv_item d k = (case map_of d k of None \<Rightarrow> Inl (KeyError k) | Some v \<Rightarrow> Inr v)"

text \<open>The side, price and change of a delta.\<close>

definition delta_fields :: "(pyval \<Rightarrow> string) \<Rightarrow> (string \<times> pyval) list \<Rightarrow> (outcome_side \<times> decimal \<times> decimal) result" where
  "delta_fields str_other msg =
     bind_result (pv_item msg ''side'') (\<lambda>s.
     bind_result (side_of_string (py_str str_other s)) (\<lambda>side.
     bind_result (pv_item msg ''price_dollars'') (\<lambda>p.
     bind_result (km_decimal p) (\<lambda>price.
     bind_result (km_decimal (py_or (py_or (pv_get msg ''delta_fp'') (pv_get msg ''delta'')) (PyStr ''0''))) (\<lambda>delta.
       Inr (side, price, delta))))))"

definition bump_ladder :: "decimal \<Rightarrow> decimal \<Rightarrow> ladder \<Rightarrow> ladder" where
  "bump_ladder price delta d =
     (let new_quantity = dadd (dict_get_default d price 0) delta
      in if new_quantity \<le> 0 then dict_pop price d else dict_set price new_quantity d)"

fun bump_side :: "outcome_side \<Rightarrow> decimal \<Rightarrow> decimal \<Rightarrow> kalshi_book \<Rightarrow> kalshi_book" where
  "bump_side YES price delta st = st\<lparr>kb_yes_bids := bump_ladder price delta (kb_yes_bids st)\<rparr>"
| "bump_side NO price delta st = st\<lparr>kb_no_bids := bump_ladder price delta (kb_no_bids st)\<rparr>"

definition normalize_delta ::
  "(pyval \<Rightarrow> string) \<Rightarrow> (string \<Rightarrow> datetime result) \<Rightarrow> event_envelope \<Rightarrow> kalshi_books \<Rightarrow>
   normalized_event list result \<times> kalshi_books" where
  "normalize_delta str_other fromiso raw bs =
     (case bind_result (km_message raw) (\<lambda>msg. bind_result (market_ticker msg) (\<lambda>t. Inr (msg, t))) of
        Inl e \<Rightarrow> (Inl e, bs)
      | Inr (msg, t) \<Rightarrow>
          let st = book_of t bs in
          case delta_fields str_other msg of
            Inl e \<Rightarrow> (Inl e, dict_set t st bs)
          | Inr (side, price, delta) \<Rightarrow>
              let st1 = bump_side side price delta st
              in (emit_kalshi_book str_other fromiso raw msg st1, dict_set t st1 bs))"

section \<open>Lifecycle messages and the handler table\<close>

definition km_lifecycle_kind :: "string \<Rightarrow> market_lifecycle_kind" where
  "km_lifecycle_kind s =
     (if s = ''created'' then LISTED else if s = ''activated'' then OPENED else if s = ''deactivated'' then PAUSED
      else if s = ''close_date_updated'' then METADATA_UPDATED else if s = ''determined'' then DETERMINED
      else if s = ''settled'' then FINALIZED else if s = ''metadata_updated'' then METADATA_UPDATED else LISTED)"

definition normalize_lifecycle ::
  "(pyval \<Rightarrow> string) \<Rightarrow> (string \<Rightarrow> datetime result) \<Rightarrow> event_envelope \<Rightarrow> normalized_event list result" where
  "normalize_lifecycle str_other fromiso raw =
     bind_result (km_message raw) (\<lambda>msg.
       let event_type = (case map_of msg ''event_type'' of None \<Rightarrow> ''metadata_updated'' | Some v \<Rightarrow> py_str str_other v) in
     bind_result (km_instrument msg) (\<lambda>iid.
     bind_result (km_exchange_ts fromiso raw msg) (\<lambda>ts.
       let l = \<lparr>lc_instrument_id = iid, lc_kind = km_lifecycle_kind event_type, lc_exchange_ts = ts,
                lc_received_at = raw_received_at raw, lc_reason = Some event_type,
                lc_metadata = freeze_mapping [(''kalshi_event_type'', PyStr event_type)]\<rparr> in
     bind_result (validated (market_lifecycle_event_check l) l) (\<lambda>l.
     bind_result (km_event_id str_other raw msg) (\<lambda>eid.
     bind_result (km_provenance str_other raw []) (\<lambda>prov.
     bind_result (checked_event (LifecycleEvent eid l prov)) (\<lambda>e. Inr [e])))))))"

definition stateless :: "(event_envelope \<Rightarrow> normalized_event list result) \<Rightarrow> kalshi_books handler" where
  "stateless f raw bs = (f raw, bs)"

definition kalshi_handlers :: "(pyval \<Rightarrow> string) \<Rightarrow> (string \<Rightarrow> datetime result) \<Rightarrow> kalshi_books handlers" where
  "kalshi_handlers str_other fromiso key =
     (if key = (''kalshi-ws-v1'', ''ticker'') then Some (stateless (normalize_ticker str_other fromiso))
      else if key = (''kalshi-ws-v1'', ''trade'') then Some (stateless (normalize_trade str_other fromiso))
      else if key = (''kalshi-ws-v1'', ''orderbook_snapshot'') then Some (normalize_snapshot str_other fromiso)
      else if key = (''kalshi-ws-v1'', ''orderbook_delta'') then Some (normalize_delta str_other fromiso)
      else if key = (''kalshi-ws-v1'', ''market_lifecycle_v2'') then Some (stateless (normalize_lifecycle str_other fromiso))
      else if key = (''kalshi-rest-v1'', ''book'') then Some (stateless (normalize_rest_orderbook str_other))
      else if key = (''kalshi-rest-v1'', ''trade'') then Some (stateless (normalize_trade str_other fromiso))
      else None)"

end
