(* ===== verification/KalshiBooks.thy ===== *)
theory KalshiBooks
  imports KalshiNormalizer
begin

text \<open>
  The order books of the Kalshi normalizer against their specification: abstractly a market is a
  depth for each side and price, a snapshot sets it, a delta adds to it down to nothing. The stored
  ladders follow that specification through every message, rejected ones included, and every book
  the normalizer answers with is a proper book that shows it.
\<close>

section \<open>Depth\<close>

type_synonym book_depth = "outcome_side \<Rightarrow> decimal \<Rightarrow> decimal"

fun side_ladder :: "outcome_side \<Rightarrow> kalshi_book \<Rightarrow> ladder" where
  "side_ladder YES st = kb_yes_bids st"
| "side_ladder NO st = kb_no_bids st"

definition book_depth_of :: "kalshi_book \<Rightarrow> book_depth" where
  "book_depth_of st side p = dict_get_default (side_ladder side st) p 0"

definition kb_depth :: "kalshi_books \<Rightarrow> string \<Rightarrow> book_depth" where
  "kb_depth bs t = book_depth_of (book_of t bs)"

definition add_depth :: "outcome_side \<Rightarrow> decimal \<Rightarrow> decimal \<Rightarrow> book_depth \<Rightarrow> book_depth" where
  "add_depth side price delta a = a(side := (a side)(price := max 0 (dadd (a side price) delta)))"

text \<open>The effect of a book message on the depth of its market.\<close>

definition spec_snapshot :: "(string \<times> pyval) list \<Rightarrow> book_depth \<Rightarrow> book_depth" where
  "spec_snapshot msg a =
     (case snapshot_side msg ''yes'' of
        Inl e \<Rightarrow> a
      | Inr yes \<Rightarrow>
          (case snapshot_side msg ''no'' of
             Inl e \<Rightarrow> a(YES := spec_levels yes)
           | Inr no \<Rightarrow> a(YES := spec_levels yes, NO := spec_levels no)))"

definition spec_delta :: "(pyval \<Rightarrow> string) \<Rightarrow> (string \<times> pyval) list \<Rightarrow> book_depth \<Rightarrow> book_depth" where
  "spec_delta str_other msg a =
     (case delta_fields str_other msg of Inl e \<Rightarrow> a | Inr (side, price, delta) \<Rightarrow> add_depth side price delta a)"

definition message_market :: "event_envelope \<Rightarrow> ((string \<times> pyval) list \<times> string) result" where
  "message_market raw = bind_result (km_message raw) (\<lambda>msg. bind_result (market_ticker msg) (\<lambda>t. Inr (msg, t)))"

definition is_snapshot :: "event_envelope \<Rightarrow> bool" where
  "is_snapshot raw \<longleftrightarrow> (raw_schema_version raw, raw_channel raw) = (''kalshi-ws-v1'', ''orderbook_snapshot'')"

definition is_delta :: "event_envelope \<Rightarrow> bool" where
  "is_delta raw \<longleftrightarrow> (raw_schema_version raw, raw_channel raw) = (''kalshi-ws-v1'', ''orderbook_delta'')"

definition spec_message :: "(pyval \<Rightarrow> string) \<Rightarrow> event_envelope \<Rightarrow> (string \<Rightarrow> book_depth) \<Rightarrow> string \<Rightarrow> book_depth" where
  "spec_message str_other raw a =
     (case message_market raw of
        Inl e \<Rightarrow> a
      | Inr (msg, t) \<Rightarrow>
          if is_snapshot raw then a(t := spec_snapshot msg (a t))
          else if is_delta raw then a(t := spec_delta str_other msg (a t))
          else a)"

text \<open>A book shows a depth: proper sides, bids as the depth says, asks the complements of the other bids.\<close>

definition complement :: "order_book_level \<Rightarrow> order_book_level" where
  "complement l = \<lparr>lvl_price = dsub 1 (lvl_price l), lvl_quantity = lvl_quantity l\<rparr>"

definition shows_depth :: "order_book \<Rightarrow> book_depth \<Rightarrow> bool" where
  "shows_depth b a \<longleftrightarrow>
     best_first True (yes_bids b) \<and> best_first True (no_bids b) \<and>
     spec_levels (yes_bids b) = a YES \<and> spec_levels (no_bids b) = a NO \<and>
     yes_asks b = map complement (no_bids b) \<and> no_asks b = map complement (yes_bids b) \<and>
     list_all (\<lambda>l. order_book_level_check l = None) (yes_asks b @ no_asks b) \<and>
     sorted (map lvl_price (yes_asks b)) \<and> sorted (map lvl_price (no_asks b))"

section \<open>The stored ladders\<close>

text \<open>Quantities are positive; a price may be anything a delta named.\<close>

definition ladder_pos :: "ladder \<Rightarrow> bool" where
  "ladder_pos d \<longleftrightarrow> wf_dict d \<and> list_all (\<lambda>(p, q). 0 < q) d"

definition books_pos :: "kalshi_books \<Rightarrow> bool" where
  "books_pos bs \<longleftrightarrow> (\<forall>t. ladder_pos (kb_yes_bids (book_of t bs)) \<and> ladder_pos (kb_no_bids (book_of t bs)))"

lemma ladder_pos_Nil: "ladder_pos []"
  by (simp add: ladder_pos_def)

lemma books_pos_Nil: "books_pos []"
  by (simp add: books_pos_def book_of_def dict_get_default_def empty_kalshi_book_def ladder_pos_Nil)

lemma ladder_ok_pos: "ladder_ok d \<Longrightarrow> ladder_pos d"
  by (auto simp: ladder_ok_def ladder_pos_def list_all_iff)

lemma bump_ladder_pos: "ladder_pos d \<Longrightarrow> ladder_pos (bump_ladder price delta d)"
proof -
  assume d: "ladder_pos d"
  have "list_all (\<lambda>(p, q). 0 < q) e \<Longrightarrow> 0 < q \<Longrightarrow> list_all (\<lambda>(p, q). 0 < q) (dict_set price q e)" for e q
    by (induction e) auto
  moreover have "list_all Q e \<Longrightarrow> list_all Q (dict_pop price e)" for Q and e :: ladder
    by (auto simp: list_all_iff dict_pop_def)
  ultimately show ?thesis using d by (auto simp: bump_ladder_def ladder_pos_def Let_def not_le)
qed

lemma bump_ladder_depth:
  "dict_get_default (bump_ladder price delta d) p 0 =
    (if p = price then max 0 (dadd (dict_get_default d price 0) delta) else dict_get_default d p 0)"
  by (auto simp: bump_ladder_def Let_def dict_get_default_def)

lemma bump_side_depth: "book_depth_of (bump_side side price delta st) = add_depth side price delta (book_depth_of st)"
proof (intro ext)
  fix k p
  show "book_depth_of (bump_side side price delta st) k p = add_depth side price delta (book_depth_of st) k p"
    by (cases side; cases k) (simp_all add: book_depth_of_def add_depth_def bump_ladder_depth)
qed

lemma book_of_set [simp]: "book_of u (dict_set t st bs) = (if u = t then st else book_of u bs)"
  by (simp add: book_of_def dict_get_default_def)

lemma kb_depth_set: "kb_depth (dict_set t st bs) = (kb_depth bs)(t := book_depth_of st)"
  by (simp add: kb_depth_def fun_eq_iff)

lemma km_levels_valid:
  assumes "km_levels v = Inr ls"
  shows "list_all (\<lambda>l. order_book_level_check l = None) ls"
proof -
  have "list_all (\<lambda>l. order_book_level_check l = None) ls'" if "km_level_of w = Inr ls'" for w ls'
    using that by (auto simp: km_level_of_def bind_result_Inr_iff mk_level_Inr_iff level_check_iff
        split: option.splits list.splits)
  then have step: "list_all (\<lambda>l. order_book_level_check l = None) acc'"
    if "bind_result (km_level_of w) (\<lambda>l. Inr (acc @ l)) = Inr acc'" "list_all (\<lambda>l. order_book_level_check l = None) acc" for w acc acc'
    using that by (auto simp: bind_result_Inr_iff)
  have "list_all (\<lambda>l. order_book_level_check l = None) ls"
    if "fold_result (\<lambda>v ls. bind_result (km_level_of v) (\<lambda>l. Inr (ls @ l))) items [] = Inr ls" for items
    using that by (rule fold_result_invariant) (auto intro: step)
  then show ?thesis using assms by (auto simp: km_levels_def bind_result_Inr_iff split: pyval.splits)
qed

lemma snapshot_side_pos: "snapshot_side msg side = Inr ls \<Longrightarrow> ladder_pos (ladder_from_levels ls)"
  unfolding snapshot_side_def by (intro ladder_ok_pos ladder_from_levels_ok km_levels_valid)

lemma book_pos_of: "books_pos bs \<Longrightarrow> ladder_pos (kb_yes_bids (book_of t bs)) \<and> ladder_pos (kb_no_bids (book_of t bs))"
  by (simp add: books_pos_def)

text \<open>One book message against the specification.\<close>

lemma snapshot_step:
  assumes "normalize_snapshot so fi raw bs = (r, bs')" and "books_pos bs"
  shows "books_pos bs' \<and> (\<forall>msg t. message_market raw = Inr (msg, t) \<longrightarrow> kb_depth bs' = (kb_depth bs)(t := spec_snapshot msg (kb_depth bs t)))
    \<and> (\<forall>e. message_market raw = Inl e \<longrightarrow> kb_depth bs' = kb_depth bs)
    \<and> (\<forall>es. r = Inr es \<longrightarrow> (\<exists>msg t. message_market raw = Inr (msg, t) \<and> emit_kalshi_book so fi raw msg (book_of t bs') = Inr es))"
proof (cases "message_market raw")
  case (Inl e)
  with assms show ?thesis by (auto simp: normalize_snapshot_def message_market_def)
next
  case (Inr mt)
  obtain msg t where mt: "mt = (msg, t)" by (cases mt)
  note m = Inr [unfolded mt message_market_def]
  have depth: "book_depth_of (book_of t bs) = kb_depth bs t" by (simp add: kb_depth_def)
  show ?thesis
  proof (cases "snapshot_side msg ''yes''")
    case (Inl e)
    then show ?thesis
      using assms m book_pos_of [OF assms(2)]
      by (auto simp: normalize_snapshot_def message_market_def kb_depth_set books_pos_def spec_snapshot_def depth Let_def)
  next
    case yes: (Inr yes)
    note py = snapshot_side_pos [OF yes]
    have "book_depth_of (st\<lparr>kb_yes_bids := ladder_from_levels yes\<rparr>) = (book_depth_of st)(YES := spec_levels yes)" for st
    proof (intro ext)
      fix k p
      show "book_depth_of (st\<lparr>kb_yes_bids := ladder_from_levels yes\<rparr>) k p = ((book_depth_of st)(YES := spec_levels yes)) k p"
        by (cases k) (simp_all add: book_depth_of_def lookup_from_levels)
    qed
    note dy = this
    show ?thesis
    proof (cases "snapshot_side msg ''no''")
      case (Inl e)
      then show ?thesis
        using assms m yes py dy book_pos_of [OF assms(2)]
        by (auto simp: normalize_snapshot_def message_market_def kb_depth_set books_pos_def spec_snapshot_def depth Let_def)
    next
      case no: (Inr no)
      have "book_depth_of (st\<lparr>kb_no_bids := ladder_from_levels no\<rparr>) = (book_depth_of st)(NO := spec_levels no)" for st
      proof (intro ext)
        fix k p
        show "book_depth_of (st\<lparr>kb_no_bids := ladder_from_levels no\<rparr>) k p = ((book_depth_of st)(NO := spec_levels no)) k p"
          by (cases k) (simp_all add: book_depth_of_def lookup_from_levels)
      qed
      then show ?thesis
        using assms m yes no py dy snapshot_side_pos [OF no] book_pos_of [OF assms(2)]
        by (auto simp: normalize_snapshot_def message_market_def kb_depth_set books_pos_def spec_snapshot_def depth Let_def)
    qed
  qed
qed

lemma delta_step:
  assumes "normalize_delta so fi raw bs = (r, bs')" and "books_pos bs"
  shows "books_pos bs' \<and> (\<forall>msg t. message_market raw = Inr (msg, t) \<longrightarrow> kb_depth bs' = (kb_depth bs)(t := spec_delta so msg (kb_depth bs t)))
    \<and> (\<forall>e. message_market raw = Inl e \<longrightarrow> kb_depth bs' = kb_depth bs)
    \<and> (\<forall>es. r = Inr es \<longrightarrow> (\<exists>msg t. message_market raw = Inr (msg, t) \<and> emit_kalshi_book so fi raw msg (book_of t bs') = Inr es))"
proof (cases "message_market raw")
  case (Inl e)
  with assms show ?thesis by (auto simp: normalize_delta_def message_market_def)
next
  case (Inr mt)
  obtain msg t where mt: "mt = (msg, t)" by (cases mt)
  note m = Inr [unfolded mt message_market_def]
  have depth: "book_depth_of (book_of t bs) = kb_depth bs t" by (simp add: kb_depth_def)
  show ?thesis
  proof (cases "delta_fields so msg")
    case (Inl e)
    then show ?thesis
      using assms m book_pos_of [OF assms(2)]
      by (auto simp: normalize_delta_def message_market_def kb_depth_set books_pos_def spec_delta_def depth Let_def)
  next
    case (Inr f)
    obtain side price delta where f: "f = (side, price, delta)" by (cases f)
    have "ladder_pos (kb_yes_bids (bump_side side price delta (book_of t bs))) \<and>
        ladder_pos (kb_no_bids (bump_side side price delta (book_of t bs)))"
      using book_pos_of [OF assms(2), of t] by (cases side) (simp_all add: bump_ladder_pos)
    then show ?thesis
      using assms m Inr f book_pos_of [OF assms(2)]
      by (auto simp: normalize_delta_def message_market_def kb_depth_set books_pos_def spec_delta_def bump_side_depth depth Let_def)
  qed
qed

section \<open>The books the normalizer answers with\<close>

lemma collect_levels_all:
  "fold_result (\<lambda>p ls. bind_result (f p) (\<lambda>l. Inr (ls @ [l]))) ps acc = Inr ls \<Longrightarrow> p \<in> set ps \<Longrightarrow> \<exists>l. f p = Inr l"
proof (induction ps arbitrary: acc)
  case (Cons q ps)
  then show ?case by (cases "f q") auto
qed simp

text \<open>Levels are only built when every stored price is a probability.\<close>

lemma ladder_levels_ok:
  assumes "ladder_levels desc d = Inr ls" and "ladder_pos d"
  shows "ladder_ok d"
proof -
  have f: "filter (\<lambda>(p, q). q > 0) d = d" using assms(2) by (auto simp: ladder_pos_def list_all_iff filter_id_conv)
  have "0 \<le> p \<and> p \<le> 1" if "(p, q) \<in> set d" for p q
  proof -
    have "p \<in> fst ` set d" using that by force
    then have "\<exists>l. mk_level p (dict_get_default d p 0) = Inr l"
      using assms(1) collect_levels_all [of "\<lambda>p. mk_level p (dict_get_default d p 0)"
          "if desc then rev (sort (map fst d)) else sort (map fst d)" "[]" ls p]
      unfolding ladder_levels_def f Let_def by simp
    then show ?thesis by (auto simp: mk_level_Inr_iff level_check_iff)
  qed
  with assms(2) show ?thesis by (auto simp: ladder_ok_def ladder_pos_def list_all_iff)
qed

lemma sort_descending_id: "sorted_wrt (>) (map lvl_price ls) \<Longrightarrow> sort_descending ls = ls"
proof -
  assume "sorted_wrt (>) (map lvl_price ls)"
  then have "sorted_wrt (<) (rev (map lvl_price ls))" by (simp add: sorted_wrt_rev)
  then have "sorted (map lvl_price (rev ls))" unfolding rev_map [symmetric] by (rule strict_sorted_imp_sorted)
  then show ?thesis by (simp add: sort_descending_def sorted_key_id)
qed

lemma complement_price: "0 \<le> p \<Longrightarrow> p \<le> 1 \<Longrightarrow> 0 \<le> dsub 1 p \<and> dsub 1 p \<le> 1"
  by (simp add: dsub_def dctx_nonneg dctx_le_fix dctx_1)

lemma complement_antimono: "p \<le> q \<Longrightarrow> dsub 1 q \<le> dsub 1 p"
  by (simp add: dsub_def dctx_mono)

lemma inverted_ask_levels_value:
  assumes "best_first True ls"
  shows "inverted_ask_levels ls = Inr (map complement ls)"
    and "list_all (\<lambda>l. order_book_level_check l = None) (map complement ls)" and "sorted (map lvl_price (map complement ls))"
proof -
  have ok: "\<forall>l \<in> set ls. order_book_level_check l = None" and srt: "sorted_wrt (>) (map lvl_price ls)"
    using assms by (auto simp: best_first_def list_all_iff)
  have lv: "\<forall>l \<in> set ls. mk_level (dsub 1 (lvl_price l)) (lvl_quantity l) = Inr (complement l) \<and>
      0 \<le> dsub 1 (lvl_price l) \<and> dsub 1 (lvl_price l) \<le> 1"
    using ok complement_price by (auto simp: mk_level_Inr_iff level_check_iff complement_def)
  have "fold_result (\<lambda>l ls. let p = dsub 1 (lvl_price l) in
            if 0 \<le> p \<and> p \<le> 1 then bind_result (mk_level p (lvl_quantity l)) (\<lambda>a. Inr (ls @ [a])) else Inr ls) xs acc
      = Inr (acc @ map complement xs)" if "set xs \<subseteq> set ls" for xs acc
    using that lv by (induction xs arbitrary: acc) auto
  moreover show s: "sorted (map lvl_price (map complement ls))"
    using srt by (induction ls) (auto simp: complement_def intro: complement_antimono less_imp_le)
  ultimately show "inverted_ask_levels ls = Inr (map complement ls)"
    by (simp add: inverted_ask_levels_def sorted_key_id)
  show "list_all (\<lambda>l. order_book_level_check l = None) (map complement ls)"
    using lv ok by (auto simp: list_all_iff level_check_iff complement_def)
qed

lemma emitted_book_shows:
  assumes "emit_kalshi_book so fi raw msg st = Inr es" and "ladder_pos (kb_yes_bids st)" and "ladder_pos (kb_no_bids st)"
    and "market_ticker msg = Inr t"
  shows "\<exists>eid b prov. es = [OrderBookEvent eid b prov] \<and> bk_instrument_id b = \<lparr>iid_venue = KALSHI, market_id = t, outcome_id = None\<rparr> \<and>
     shows_depth b (book_depth_of st)"
proof -
  obtain eid yes no ts b prov e where ev: "es = [OrderBookEvent eid b prov]"
    and y: "ladder_levels True (kb_yes_bids st) = Inr yes" and n: "ladder_levels True (kb_no_bids st) = Inr no"
    and b: "book_from_ladders \<lparr>iid_venue = KALSHI, market_id = t, outcome_id = None\<rparr> yes no ts (raw_received_at raw) = Inr b"
    using assms(1,4) by (auto simp: emit_kalshi_book_def bind_result_Inr_iff km_instrument_def checked_event_def Let_def)
  note oky = ladder_levels_ok [OF y assms(2)] and okn = ladder_levels_ok [OF n assms(3)]
  note by' = ladder_levels_best_first [OF oky y] and bn = ladder_levels_best_first [OF okn n]
  have "sort_descending yes = yes" "sort_descending no = no"
    using by' bn by (auto simp: best_first_def intro: sort_descending_id)
  then have bv: "yes_bids b = yes" "no_bids b = no" "yes_asks b = map complement no" "no_asks b = map complement yes"
    "bk_instrument_id b = \<lparr>iid_venue = KALSHI, market_id = t, outcome_id = None\<rparr>"
    using b by (auto simp: book_from_ladders_def Let_def inverted_ask_levels_value(1) [OF by'] inverted_ask_levels_value(1) [OF bn])
  have "spec_levels yes = book_depth_of st YES" "spec_levels no = book_depth_of st NO"
    using ladder_levels_value [OF oky, of True] ladder_levels_value [OF okn, of True] y n
    by (auto simp: book_depth_of_def spec_levels_level_at fun_eq_iff)
  then have "shows_depth b (book_depth_of st)"
    using by' bn inverted_ask_levels_value(2,3) [OF by'] inverted_ask_levels_value(2,3) [OF bn]
    by (simp add: shows_depth_def bv)
  with ev bv(5) show ?thesis by blast
qed

section \<open>Runs of the normalizer\<close>

text \<open>What snapshot and delta have in common.\<close>

definition book_step_ok ::
  "(pyval \<Rightarrow> string) \<Rightarrow> event_envelope \<Rightarrow> kalshi_books \<Rightarrow> normalized_event list result \<Rightarrow> kalshi_books \<Rightarrow> bool" where
  "book_step_ok so raw bs q bs' \<longleftrightarrow>
     books_pos bs' \<and> kb_depth bs' = spec_message so raw (kb_depth bs) \<and>
     (\<forall>es. q = Inr es \<longrightarrow> (\<exists>eid b prov t. es = [OrderBookEvent eid b prov] \<and>
        bk_instrument_id b = \<lparr>iid_venue = KALSHI, market_id = t, outcome_id = None\<rparr> \<and> shows_depth b (kb_depth bs' t)))"

lemma book_step_emits:
  assumes "message_market raw = Inr (msg, t)" and "emit_kalshi_book so fi raw msg (book_of t bs') = Inr es" and "books_pos bs'"
  shows "\<exists>eid b prov t. es = [OrderBookEvent eid b prov] \<and>
    bk_instrument_id b = \<lparr>iid_venue = KALSHI, market_id = t, outcome_id = None\<rparr> \<and> shows_depth b (kb_depth bs' t)"
proof -
  have "market_ticker msg = Inr t" using assms(1) by (auto simp: message_market_def bind_result_Inr_iff)
  with emitted_book_shows [OF assms(2)] assms(3) show ?thesis by (auto simp: books_pos_def kb_depth_def)
qed

lemma book_step_okI:
  assumes "books_pos bs'" and "kb_depth bs' = spec_message so raw (kb_depth bs)"
    and "\<forall>es. q = Inr es \<longrightarrow> (\<exists>msg t. message_market raw = Inr (msg, t) \<and> emit_kalshi_book so fi raw msg (book_of t bs') = Inr es)"
  shows "book_step_ok so raw bs q bs'"
  unfolding book_step_ok_def
proof (intro conjI allI impI)
  fix es
  assume "q = Inr es"
  then obtain msg t where "message_market raw = Inr (msg, t)" "emit_kalshi_book so fi raw msg (book_of t bs') = Inr es"
    using assms(3) by blast
  then show "\<exists>eid b prov t. es = [OrderBookEvent eid b prov] \<and>
      bk_instrument_id b = \<lparr>iid_venue = KALSHI, market_id = t, outcome_id = None\<rparr> \<and> shows_depth b (kb_depth bs' t)"
    using assms(1) by (rule book_step_emits)
qed (fact assms)+

lemma snapshot_step_ok:
  assumes "is_snapshot raw" and "normalize_snapshot so fi raw bs = (q, bs')" and "books_pos bs"
  shows "book_step_ok so raw bs q bs'"
proof -
  note st = snapshot_step [OF assms(2,3)]
  have "kb_depth bs' = spec_message so raw (kb_depth bs)"
    using st assms(1) by (cases "message_market raw") (auto simp: spec_message_def)
  then show ?thesis using st by (intro book_step_okI [where fi = fi]) simp_all
qed

lemma delta_step_ok:
  assumes "is_delta raw" and "normalize_delta so fi raw bs = (q, bs')" and "books_pos bs"
  shows "book_step_ok so raw bs q bs'"
proof -
  note st = delta_step [OF assms(2,3)]
  have "\<not> is_snapshot raw" using assms(1) by (simp add: is_delta_def is_snapshot_def)
  then have "kb_depth bs' = spec_message so raw (kb_depth bs)"
    using st assms(1) by (cases "message_market raw") (auto simp: spec_message_def)
  then show ?thesis using st by (intro book_step_okI [where fi = fi]) simp_all
qed

text \<open>The answer to one envelope, against the specification.\<close>

definition shows_books :: "normalization_result \<Rightarrow> (string \<Rightarrow> book_depth) \<Rightarrow> bool" where
  "shows_books r a \<longleftrightarrow>
     (is_snapshot (nr_raw r) \<or> is_delta (nr_raw r) \<longrightarrow>
       (\<forall>e \<in> set (nr_events r). \<exists>eid b prov t. e = OrderBookEvent eid b prov \<and>
          bk_instrument_id b = \<lparr>iid_venue = KALSHI, market_id = t, outcome_id = None\<rparr> \<and> shows_depth b (a t)))"

lemma kalshi_handlers_book:
  "is_snapshot raw \<Longrightarrow> kalshi_handlers so fi (raw_schema_version raw, raw_channel raw) = Some (normalize_snapshot so fi)"
  "is_delta raw \<Longrightarrow> kalshi_handlers so fi (raw_schema_version raw, raw_channel raw) = Some (normalize_delta so fi)"
  by (simp_all add: is_snapshot_def is_delta_def kalshi_handlers_def)

lemma kalshi_handlers_other:
  assumes "kalshi_handlers so fi key = Some h" and "key \<noteq> (''kalshi-ws-v1'', ''orderbook_snapshot'')"
    and "key \<noteq> (''kalshi-ws-v1'', ''orderbook_delta'')"
  shows "\<exists>f. h = stateless f"
proof -
  note h = assms(1)[unfolded kalshi_handlers_def if_not_P [OF assms(2)] if_not_P [OF assms(3)]]
  then show ?thesis by (metis option.inject option.distinct(1))
qed

lemma normalize_raw_handled:
  assumes "normalize_raw handlers raw s = (r, s')" and "handlers (raw_schema_version raw, raw_channel raw) = Some h"
  shows "\<exists>q. h raw s = (q, s') \<and> (\<forall>e \<in> set (nr_events r). \<exists>es. q = Inr es \<and> e \<in> set es)"
  using assms by (auto simp: normalize_raw_def rejected_result_def split: sum.splits prod.splits if_splits)

lemma message_step:
  assumes "normalize_raw (kalshi_handlers so fi) raw bs = (r, bs')" and "books_pos bs"
  shows "books_pos bs' \<and> kb_depth bs' = spec_message so raw (kb_depth bs) \<and> shows_books r (kb_depth bs')"
proof -
  have raw: "nr_raw r = raw" using normalize_raw_ok [OF assms(1)] by simp
  consider (book) q where "book_step_ok so raw bs q bs'" "\<forall>e \<in> set (nr_events r). \<exists>es. q = Inr es \<and> e \<in> set es"
    | (other) "\<not> is_snapshot raw" "\<not> is_delta raw" "bs' = bs"
  proof (cases "is_snapshot raw")
    case True
    obtain q where q: "normalize_snapshot so fi raw bs = (q, bs')" "\<forall>e \<in> set (nr_events r). \<exists>es. q = Inr es \<and> e \<in> set es"
      using normalize_raw_handled [OF assms(1) kalshi_handlers_book(1) [OF True]] by auto
    with snapshot_step_ok [OF True _ assms(2)] book show ?thesis by blast
  next
    case ns: False
    show ?thesis
    proof (cases "is_delta raw")
      case True
      obtain q where q: "normalize_delta so fi raw bs = (q, bs')" "\<forall>e \<in> set (nr_events r). \<exists>es. q = Inr es \<and> e \<in> set es"
        using normalize_raw_handled [OF assms(1) kalshi_handlers_book(2) [OF True]] by auto
      with delta_step_ok [OF True _ assms(2)] book show ?thesis by blast
    next
      case False
      have "bs' = bs"
      proof (cases "kalshi_handlers so fi (raw_schema_version raw, raw_channel raw)")
        case None
        with assms(1) show ?thesis by (simp add: normalize_raw_def)
      next
        case (Some h)
        then obtain f where "h = stateless f"
          using kalshi_handlers_other ns False unfolding is_snapshot_def is_delta_def by blast
        with normalize_raw_handled [OF assms(1) Some] show ?thesis by (auto simp: stateless_def)
      qed
      with ns False other show ?thesis by blast
    qed
  qed
  then show ?thesis
  proof cases
    case (book q)
    then show ?thesis by (fastforce simp: book_step_ok_def shows_books_def)
  next
    case other
    with assms(2) raw show ?thesis by (auto simp: spec_message_def shows_books_def split: sum.splits)
  qed
qed

lemma normalize_all_step:
  "normalize_all h (raws @ [raw]) s =
    (let (rs, s1) = normalize_all h raws s; (r, s2) = normalize_raw h raw s1 in (rs @ [r], s2))"
  by (induction raws arbitrary: s) (auto simp: Let_def split: prod.splits)

text \<open>
  C6: Through any sequence of envelopes, rejected ones included, the normalizer's ladders are the
  depth that the snapshots and deltas specify, and every event it answers a snapshot or a delta with
  is a book of the market that shows this depth: its bids strictly best first with the specified
  quantities, its asks the complements of the other side's bids in ascending order, all levels valid.
\<close>

theorem kalshi_books_refine_depth:
  assumes "normalize_all (kalshi_handlers so fi) raws [] = (rs, bs)"
  shows "kb_depth bs = fold (spec_message so) raws (\<lambda>t side p. 0) \<and> length rs = length raws \<and>
     (\<forall>i < length raws. shows_books (rs ! i) (fold (spec_message so) (take (Suc i) raws) (\<lambda>t side p. 0)))"
proof -
  have "books_pos bs \<and> kb_depth bs = fold (spec_message so) raws (\<lambda>t side p. 0) \<and> length rs = length raws \<and>
     (\<forall>i < length raws. shows_books (rs ! i) (fold (spec_message so) (take (Suc i) raws) (\<lambda>t side p. 0)))"
    using assms
  proof (induction raws arbitrary: rs bs rule: rev_induct)
    case Nil
    have "kb_depth [] = (\<lambda>t side p. 0)"
    proof (intro ext)
      fix t side p
      show "kb_depth [] t side p = 0"
        by (cases side) (simp_all add: kb_depth_def book_depth_of_def book_of_def empty_kalshi_book_def dict_get_default_def)
    qed
    with Nil show ?case by (simp add: books_pos_Nil)
  next
    case (snoc raw raws)
    obtain rs0 bs0 where r0: "normalize_all (kalshi_handlers so fi) raws [] = (rs0, bs0)" by fastforce
    obtain r where r: "normalize_raw (kalshi_handlers so fi) raw bs0 = (r, bs)" "rs = rs0 @ [r]"
      using snoc.prems r0 by (auto simp: normalize_all_step Let_def split: prod.splits)
    note ih = snoc.IH [OF r0]
    have "books_pos bs \<and> kb_depth bs = spec_message so raw (kb_depth bs0) \<and> shows_books r (kb_depth bs)"
      using message_step [OF r(1)] ih by blast
    with ih r(2) show ?case by (auto simp: nth_append less_Suc_eq)
  qed
  then show ?thesis by blast
qed

text \<open>
  C38: A stored price that is no probability blocks its market: while a delta leaves such a price with
  a quantity in the ladders, it is rejected, whatever it changes.
\<close>

theorem bad_price_blocks_market:
  assumes "normalize_delta so fi raw bs = (r, bs')" and "books_pos bs"
    and "message_market raw = Inr (msg, t)" and "0 < kb_depth bs' t side p" and "p < 0 \<or> 1 < p"
  shows "\<exists>e. r = Inl e"
proof (cases r)
  case (Inr es)
  note st = delta_step [OF assms(1,2)]
  have emit: "emit_kalshi_book so fi raw msg (book_of t bs') = Inr es" using st Inr assms(3) by auto
  obtain yes no where y: "ladder_levels True (kb_yes_bids (book_of t bs')) = Inr yes"
    and n: "ladder_levels True (kb_no_bids (book_of t bs')) = Inr no"
    using emit by (auto simp: emit_kalshi_book_def bind_result_Inr_iff)
  have pos: "ladder_pos (kb_yes_bids (book_of t bs'))" "ladder_pos (kb_no_bids (book_of t bs'))"
    using st by (auto simp: books_pos_def)
  have "ladder_ok (side_ladder side (book_of t bs'))"
    using ladder_levels_ok [OF y pos(1)] ladder_levels_ok [OF n pos(2)] by (cases side) auto
  moreover have "\<exists>q. dict_get (side_ladder side (book_of t bs')) p = Some q"
    using assms(4) by (auto simp: kb_depth_def book_depth_of_def dict_get_default_def split: option.splits)
  ultimately show ?thesis using ladder_ok_lookup assms(5) by fastforce
qed simp

section \<open>At concrete inputs\<close>

definition demo_delta :: "string \<Rightarrow> string \<Rightarrow> event_envelope" where
  "demo_delta price delta =
     \<lparr>raw_venue = Some KALSHI, raw_source = ''kalshi'', raw_channel = ''orderbook_delta'', raw_received_at = utc 0,
      raw_exchange_ts = None,
      raw_payload = [(''msg'', PyFrozen [(''market_ticker'', PyStr ''M''), (''side'', PyStr ''yes''),
        (''price_dollars'', PyStr price), (''delta_fp'', PyStr delta)])],
      raw_schema_version = ''kalshi-ws-v1'', raw_metadata = [(''source_sequence'', PyStr ''7'')]\<rparr>"

definition demo_print :: "pyval \<Rightarrow> string" where
  "demo_print v = ''?''"

definition demo_iso :: "string \<Rightarrow> datetime result" where
  "demo_iso s = Inl (ValueError ''isoformat'')"

lemma demo_run:
  "snd (normalize_all (kalshi_handlers demo_print demo_iso) [demo_delta ''0.4'' ''10''] []) =
     [(''M'', \<lparr>kb_yes_bids = [(4 / 10, 10)], kb_no_bids = []\<rparr>)]"
  by code_simp

theorem kalshi_books_refine_depth_witness:
  "fold (spec_message demo_print) [demo_delta ''0.4'' ''10''] (\<lambda>t side p. 0) ''M'' YES (4 / 10) = 10"
proof -
  obtain rs bs where run: "normalize_all (kalshi_handlers demo_print demo_iso) [demo_delta ''0.4'' ''10''] [] = (rs, bs)"
    by fastforce
  then have "bs = [(''M'', \<lparr>kb_yes_bids = [(4 / 10, 10)], kb_no_bids = []\<rparr>)]" using demo_run by simp
  then have "kb_depth bs ''M'' YES (4 / 10) = 10"
    by (simp add: kb_depth_def book_depth_of_def book_of_def dict_get_default_def)
  with kalshi_books_refine_depth [OF run] show ?thesis by simp
qed

definition demo_blocked :: kalshi_books where
  "demo_blocked = [(''M'', \<lparr>kb_yes_bids = [(15 / 10, 10)], kb_no_bids = []\<rparr>)]"

lemma demo_first_delta: "snd (normalize_delta demo_print demo_iso (demo_delta ''1.5'' ''10'') []) = demo_blocked"
  by code_simp

lemma demo_second_delta:
  "snd (normalize_delta demo_print demo_iso (demo_delta ''0.4'' ''10'') demo_blocked) =
     [(''M'', \<lparr>kb_yes_bids = [(15 / 10, 10), (4 / 10, 10)], kb_no_bids = []\<rparr>)]"
  by code_simp

lemma demo_market: "map_sum id snd (message_market (demo_delta ''0.4'' ''10'')) = Inr ''M''"
  by code_simp

theorem bad_price_blocks_market_witness:
  "\<exists>e. fst (normalize_delta demo_print demo_iso (demo_delta ''0.4'' ''10'') demo_blocked) = Inl e"
proof -
  let ?n = "normalize_delta demo_print demo_iso (demo_delta ''0.4'' ''10'') demo_blocked"
  obtain r1 where "normalize_delta demo_print demo_iso (demo_delta ''1.5'' ''10'') [] = (r1, demo_blocked)"
    using demo_first_delta by (metis prod.collapse)
  from delta_step [OF this books_pos_Nil] have pos: "books_pos demo_blocked" by blast
  have run: "?n = (fst ?n, snd ?n)" by simp
  obtain msg where m: "message_market (demo_delta ''0.4'' ''10'') = Inr (msg, ''M'')"
    using demo_market by (cases "message_market (demo_delta ''0.4'' ''10'')") auto
  have bad: "(15 / 10 :: decimal) < 0 \<or> 1 < (15 / 10 :: decimal)" by simp
  have "0 < kb_depth (snd ?n) ''M'' YES (15 / 10)"
    unfolding demo_second_delta by (simp add: kb_depth_def book_depth_of_def book_of_def dict_get_default_def)
  then show ?thesis by (rule bad_price_blocks_market [OF run pos m _ bad])
qed

end
