(* ===== verification/BasicNormalizer.thy ===== *)
theory BasicNormalizer
  imports KalshiBooks
begin

text \<open>
  \<open>normalization/basic.py\<close>: normalizers for the program's own small payload shape, and what both
  normalizer families guarantee: every event they return is well formed.
\<close>

section \<open>The basic payload\<close>

definition bn_require_str :: "(string \<times> pyval) list \<Rightarrow> string \<Rightarrow> string result" where
  "bn_require_str payload key =
     (case pv_get payload key of
        PyStr (c # cs) \<Rightarrow> Inr (c # cs)
      | _ \<Rightarrow> Inl (ValueError (''payload.'' @ key @ '' must be a non-empty string'')))"

definition bn_optional_side :: "(pyval \<Rightarrow> string) \<Rightarrow> pyval \<Rightarrow> outcome_side option result" where
  "bn_optional_side str_other v =
     (case v of PyNone \<Rightarrow> Inr None
      | _ \<Rightarrow> bind_result (side_of_string (py_str str_other v)) (\<lambda>s. Inr (Some s)))"

definition bn_decimal :: "(string \<times> pyval) list \<Rightarrow> string \<Rightarrow> decimal result" where
  "bn_decimal payload key = bind_result (pv_item payload key) km_decimal"

definition bn_venue_of_string :: "string \<Rightarrow> venue result" where
  "bn_venue_of_string s =
     (if s = venue_value KALSHI then Inr KALSHI
      else if s = venue_value POLYMARKET_GLOBAL then Inr POLYMARKET_GLOBAL
      else if s = venue_value POLYMARKET_US then Inr POLYMARKET_US
      else Inl (ValueError (s @ '' is not a valid Venue'')))"

text \<open>
  \<open>outcome_id\<close> and \<open>trade_id\<close> are taken from the payload as they are; a value that is no string has no
  counterpart in the typed record and is outside the model (read as a type error).
\<close>

definition bn_optional_str :: "(string \<times> pyval) list \<Rightarrow> string \<Rightarrow> string option result" where
  "bn_optional_str payload key =
     (case pv_get payload key of PyNone \<Rightarrow> Inr None | PyStr s \<Rightarrow> Inr (Some s) | _ \<Rightarrow> Inl (TypeError key))"

definition bn_instrument :: "(pyval \<Rightarrow> string) \<Rightarrow> event_envelope \<Rightarrow> instrument_id result" where
  "bn_instrument str_other raw =
     bind_result (case raw_venue raw of
         Some v \<Rightarrow> Inr v
       | None \<Rightarrow> bind_result (pv_item (raw_payload raw) ''venue'') (\<lambda>v. bn_venue_of_string (py_str str_other v))) (\<lambda>v.
     bind_result (bn_require_str (raw_payload raw) ''market_id'') (\<lambda>m.
     bind_result (bn_optional_str (raw_payload raw) ''outcome_id'') (\<lambda>oid.
       let i = \<lparr>iid_venue = v, market_id = m, outcome_id = oid\<rparr> in validated (instrument_id_check i) i)))"

definition bn_event_id :: "(pyval \<Rightarrow> string) \<Rightarrow> event_envelope \<Rightarrow> string" where
  "bn_event_id str_other raw =
     (let prefix = raw_source raw @ '':'' @ raw_channel raw @ '':''
      in case pv_get (raw_payload raw) ''event_id'' of
           PyStr (c # cs) \<Rightarrow> c # cs
         | _ \<Rightarrow>
             (case pv_get (raw_metadata raw) ''source_sequence'' of
                PyNone \<Rightarrow> prefix @ isoformat (dt_or (raw_exchange_ts raw) (raw_received_at raw))
              | v \<Rightarrow> prefix @ py_str str_other v))"

definition bn_provenance :: "(pyval \<Rightarrow> string) \<Rightarrow> event_envelope \<Rightarrow> event_provenance result" where
  "bn_provenance str_other raw =
     (let p = \<lparr>prov_source = raw_source raw, prov_channel = raw_channel raw,
               prov_schema_version = raw_schema_version raw, prov_venue = raw_venue raw,
               prov_source_sequence = map_option (py_str str_other) (map_of (raw_metadata raw) ''source_sequence''),
               normalization_version = ''basic-v1'', prov_metadata = []\<rparr>
      in validated (event_provenance_check p) p)"

definition bn_normalize_trade :: "(pyval \<Rightarrow> string) \<Rightarrow> event_envelope \<Rightarrow> normalized_event list result" where
  "bn_normalize_trade str_other raw =
     (let payload = raw_payload raw in
      bind_result (bn_instrument str_other raw) (\<lambda>iid.
      bind_result (bn_optional_side str_other (pv_get payload ''side'')) (\<lambda>side.
      bind_result (bn_decimal payload ''price'') (\<lambda>price.
      bind_result (bn_decimal payload ''quantity'') (\<lambda>quantity.
      bind_result (bn_optional_str payload ''trade_id'') (\<lambda>tid.
      bind_result (bn_optional_side str_other (pv_get payload ''aggressor_side'')) (\<lambda>aggressor.
      bind_result (mk_trade
        \<lparr>tr_instrument_id = iid, tr_side = side, tr_price = price, tr_quantity = quantity, trade_id = tid,
         tr_exchange_ts = raw_exchange_ts raw, tr_received_at = raw_received_at raw, aggressor_side = aggressor,
         tr_metadata = [(''raw_schema_version'', PyStr (raw_schema_version raw))]\<rparr>) (\<lambda>t.
      bind_result (bn_provenance str_other raw) (\<lambda>prov.
      bind_result (checked_event (TradeEvent (bn_event_id str_other raw) t prov)) (\<lambda>e. Inr [e]))))))))))"

definition bn_quote_level :: "(string \<times> pyval) list \<Rightarrow> string \<Rightarrow> order_book_level option result" where
  "bn_quote_level payload side =
     (if pv_get payload (side @ ''_price'') = PyNone then Inr None
      else bind_result (bn_decimal payload (side @ ''_price'')) (\<lambda>p.
           bind_result (bn_decimal payload (side @ ''_quantity'')) (\<lambda>q.
           bind_result (mk_level p q) (\<lambda>l. Inr (Some l)))))"

definition bn_normalize_quote :: "(pyval \<Rightarrow> string) \<Rightarrow> event_envelope \<Rightarrow> normalized_event list result" where
  "bn_normalize_quote str_other raw =
     (let payload = raw_payload raw in
      bind_result (bn_quote_level payload ''bid'') (\<lambda>bid.
      bind_result (bn_quote_level payload ''ask'') (\<lambda>ask.
      bind_result (bn_instrument str_other raw) (\<lambda>iid.
      bind_result (case map_of payload ''side'' of None \<Rightarrow> Inr YES | Some v \<Rightarrow> side_of_string (py_str str_other v)) (\<lambda>side.
        let q = \<lparr>q_instrument_id = iid, q_side = side, q_bid = bid, q_ask = ask, q_exchange_ts = raw_exchange_ts raw,
                 q_received_at = raw_received_at raw\<rparr> in
      bind_result (validated (quote_check q) q) (\<lambda>q.
      bind_result (bn_provenance str_other raw) (\<lambda>prov.
      bind_result (checked_event (QuoteEvent (bn_event_id str_other raw) q prov)) (\<lambda>e. Inr [e]))))))))"

text \<open>A level must unpack to exactly two values.\<close>

definition bn_level_of :: "pyval \<Rightarrow> order_book_level result" where
  "bn_level_of v =
     bind_result (iter_items v) (\<lambda>items.
       case items of
         [p, q] \<Rightarrow> bind_result (km_decimal p) (\<lambda>price. bind_result (km_decimal q) (\<lambda>quantity. mk_level price quantity))
       | _ \<Rightarrow> Inl (ValueError ''too many or not enough values to unpack''))"

definition bn_levels :: "pyval \<Rightarrow> order_book_level list result" where
  "bn_levels raw_levels =
     (case raw_levels of
        PyNone \<Rightarrow> Inr []
      | _ \<Rightarrow> bind_result (iter_items raw_levels)
               (\<lambda>items. fold_result (\<lambda>v ls. bind_result (bn_level_of v) (\<lambda>l. Inr (ls @ [l]))) items []))"

definition bn_normalize_order_book :: "(pyval \<Rightarrow> string) \<Rightarrow> event_envelope \<Rightarrow> normalized_event list result" where
  "bn_normalize_order_book str_other raw =
     (let payload = raw_payload raw in
      bind_result (bn_instrument str_other raw) (\<lambda>iid.
      bind_result (bn_levels (pv_get payload ''yes_bids'')) (\<lambda>yb.
      bind_result (bn_levels (pv_get payload ''yes_asks'')) (\<lambda>ya.
      bind_result (bn_levels (pv_get payload ''no_bids'')) (\<lambda>nb.
      bind_result (bn_levels (pv_get payload ''no_asks'')) (\<lambda>na.
        let b = \<lparr>bk_instrument_id = iid, yes_bids = yb, yes_asks = ya, no_bids = nb, no_asks = na,
                 bk_exchange_ts = raw_exchange_ts raw, bk_received_at = raw_received_at raw\<rparr> in
      bind_result (validated (order_book_check b) b) (\<lambda>b.
      bind_result (bn_provenance str_other raw) (\<lambda>prov.
      bind_result (checked_event (OrderBookEvent (bn_event_id str_other raw) b prov)) (\<lambda>e. Inr [e])))))))))"

definition BASIC_NORMALIZERS :: "(pyval \<Rightarrow> string) \<Rightarrow> kalshi_books handlers" where
  "BASIC_NORMALIZERS str_other key =
     (if key = (''raw-event-v1'', ''trade'') then Some (stateless (bn_normalize_trade str_other))
      else if key = (''raw-event-v1'', ''quote'') then Some (stateless (bn_normalize_quote str_other))
      else if key = (''raw-event-v1'', ''book'') then Some (stateless (bn_normalize_order_book str_other))
      else None)"

section \<open>Well-formed events\<close>

text \<open>Everything the constructors of an event's parts check.\<close>

fun well_formed :: "normalized_event \<Rightarrow> bool" where
  "well_formed (QuoteEvent i q prov) \<longleftrightarrow>
     i \<noteq> [] \<and> event_provenance_check prov = None \<and> quote_check q = None \<and> instrument_id_check (q_instrument_id q) = None \<and>
     level_opt_ok (q_bid q) \<and> level_opt_ok (q_ask q)"
| "well_formed (TradeEvent i t prov) \<longleftrightarrow>
     i \<noteq> [] \<and> event_provenance_check prov = None \<and> trade_check t = None \<and> instrument_id_check (tr_instrument_id t) = None"
| "well_formed (OrderBookEvent i b prov) \<longleftrightarrow>
     i \<noteq> [] \<and> event_provenance_check prov = None \<and> order_book_check b = None \<and> instrument_id_check (bk_instrument_id b) = None \<and>
     list_all (\<lambda>l. order_book_level_check l = None) (yes_bids b @ yes_asks b @ no_bids b @ no_asks b)"
| "well_formed (LifecycleEvent i l prov) \<longleftrightarrow>
     i \<noteq> [] \<and> event_provenance_check prov = None \<and> market_lifecycle_event_check l = None \<and>
     instrument_id_check (lc_instrument_id l) = None"
| "well_formed _ \<longleftrightarrow> True"

definition market_data :: "normalized_event \<Rightarrow> bool" where
  "market_data e \<longleftrightarrow> event_kind e \<in> {''quote'', ''trade'', ''book'', ''lifecycle''}"

lemma well_formed_market_event: "well_formed e \<Longrightarrow> market_event_ok e"
  by (cases e) auto

lemma checked_event_Inr: "checked_event e = Inr e' \<longleftrightarrow> event_check e = None \<and> e' = e"
  by (simp add: checked_event_def)

lemma km_instrument_ok: "km_instrument msg = Inr i \<Longrightarrow> instrument_id_check i = None"
  by (auto simp: km_instrument_def bind_result_Inr_iff Let_def)

lemma bn_instrument_ok: "bn_instrument so raw = Inr i \<Longrightarrow> instrument_id_check i = None"
  by (auto simp: bn_instrument_def bind_result_Inr_iff Let_def)

lemma km_provenance_ok: "km_provenance so raw x = Inr p \<Longrightarrow> event_provenance_check p = None"
  by (auto simp: km_provenance_def Let_def)

lemma bn_provenance_ok: "bn_provenance so raw = Inr p \<Longrightarrow> event_provenance_check p = None"
  by (auto simp: bn_provenance_def Let_def)

lemma km_level_ok: "km_level p q = Inr l \<Longrightarrow> level_opt_ok l"
  by (auto simp: km_level_def bind_result_Inr_iff mk_level_Inr_iff level_check_iff level_opt_ok_def split: option.splits)

lemma bn_quote_level_ok: "bn_quote_level d s = Inr l \<Longrightarrow> level_opt_ok l"
  by (auto simp: bn_quote_level_def bind_result_Inr_iff mk_level_Inr_iff level_check_iff level_opt_ok_def split: if_splits)

abbreviation levels_ok :: "order_book_level list \<Rightarrow> bool" where
  "levels_ok ls \<equiv> list_all (\<lambda>l. order_book_level_check l = None) ls"

lemma built_level_ok: "mk_level p q = Inr l \<Longrightarrow> order_book_level_check l = None"
  by (auto simp: mk_level_Inr_iff level_check_iff)

lemma fold_levels_ok:
  assumes "fold_result f xs [] = Inr ls" and "\<And>x acc acc'. f x acc = Inr acc' \<Longrightarrow> levels_ok acc \<Longrightarrow> levels_ok acc'"
  shows "levels_ok ls"
  by (rule fold_result_invariant [OF assms(1)]) (use assms(2) in auto)

lemma ladder_levels_valid: "ladder_levels desc d = Inr ls \<Longrightarrow> levels_ok ls"
  unfolding ladder_levels_def Let_def
  by (erule fold_levels_ok) (auto simp: bind_result_Inr_iff dest: built_level_ok)

lemma bn_levels_valid:
  assumes "bn_levels v = Inr ls"
  shows "levels_ok ls"
proof -
  have "order_book_level_check l = None" if "bn_level_of w = Inr l" for w l
  proof -
    obtain items where "(case items of [p, q] \<Rightarrow>
        bind_result (km_decimal p) (\<lambda>price. bind_result (km_decimal q) (\<lambda>quantity. mk_level price quantity))
      | _ \<Rightarrow> Inl (ValueError ''too many or not enough values to unpack'')) = Inr l"
      using \<open>bn_level_of w = Inr l\<close> by (auto simp: bn_level_of_def bind_result_Inr_iff)
    then show ?thesis by (auto simp: bind_result_Inr_iff split: list.split_asm dest: built_level_ok)
  qed
  then have "levels_ok ls" if "fold_result (\<lambda>v ls. bind_result (bn_level_of v) (\<lambda>l. Inr (ls @ [l]))) items [] = Inr ls" for items
    using that by (elim fold_levels_ok) (auto simp: bind_result_Inr_iff)
  then show ?thesis using assms by (auto simp: bn_levels_def bind_result_Inr_iff split: pyval.splits)
qed

lemma inverted_valid:
  assumes "inverted_ask_levels bids = Inr ls"
  shows "levels_ok ls"
proof -
  obtain xs where xs: "fold_result (\<lambda>l ls. let p = dsub 1 (lvl_price l) in
      if 0 \<le> p \<and> p \<le> 1 then bind_result (mk_level p (lvl_quantity l)) (\<lambda>a. Inr (ls @ [a])) else Inr ls) bids [] = Inr xs"
    and ls: "ls = sort_key lvl_price xs"
    using assms by (auto simp: inverted_ask_levels_def bind_result_Inr_iff)
  from xs have "levels_ok xs"
    by (rule fold_levels_ok) (auto simp: Let_def bind_result_Inr_iff split: if_splits dest: built_level_ok)
  then show ?thesis by (simp add: ls list_all_iff)
qed

lemma book_from_ladders_ok:
  assumes "book_from_ladders iid yes no ts t = Inr b" and "levels_ok yes" and "levels_ok no"
  shows "order_book_check b = None \<and> bk_instrument_id b = iid \<and> levels_ok (yes_bids b @ yes_asks b @ no_bids b @ no_asks b)"
proof -
  have "levels_ok (sort_descending ls)" if "levels_ok ls" for ls
    using that by (simp add: sort_descending_def list_all_iff)
  with assms show ?thesis
    by (auto simp: book_from_ladders_def Let_def bind_result_Inr_iff dest: inverted_valid)
qed

lemma mk_trade_ok: "mk_trade t = Inr t' \<Longrightarrow> trade_check t' = None \<and> tr_instrument_id t' = tr_instrument_id t"
  by (auto simp: mk_trade_def trade_check_def)

lemmas normalizer_parts = bind_result_Inr_iff Let_def checked_event_Inr validate_event_id_def market_data_def

lemma ticker_quote_ok:
  assumes "ticker_quote eid iid side bid ask ts t prov = Inr es" and "e \<in> set es"
    and "instrument_id_check iid = None" and "event_provenance_check prov = None"
  shows "well_formed e \<and> market_data e"
  using assms by (auto simp: ticker_quote_def normalizer_parts split: if_splits dest: km_level_ok)

lemma normalize_ticker_ok: "normalize_ticker so fi raw = Inr es \<Longrightarrow> e \<in> set es \<Longrightarrow> well_formed e \<and> market_data e"
  unfolding normalize_ticker_def bind_result_Inr_iff
  using ticker_quote_ok km_instrument_ok km_provenance_ok by fastforce

lemma normalize_trade_ok: "normalize_trade so fi raw = Inr es \<Longrightarrow> e \<in> set es \<Longrightarrow> well_formed e \<and> market_data e"
  by (auto simp: normalize_trade_def normalizer_parts dest!: mk_trade_ok km_instrument_ok km_provenance_ok)

lemma normalize_rest_ok: "normalize_rest_orderbook so raw = Inr es \<Longrightarrow> e \<in> set es \<Longrightarrow> well_formed e \<and> market_data e"
  by (auto simp: normalize_rest_orderbook_def normalizer_parts
      dest!: book_from_ladders_ok [OF _ km_levels_valid km_levels_valid] km_instrument_ok km_provenance_ok)

lemma emit_kalshi_book_ok: "emit_kalshi_book so fi raw msg st = Inr es \<Longrightarrow> e \<in> set es \<Longrightarrow> well_formed e \<and> market_data e"
  by (auto simp: emit_kalshi_book_def normalizer_parts
      dest!: book_from_ladders_ok [OF _ ladder_levels_valid ladder_levels_valid] km_instrument_ok km_provenance_ok)

lemma normalize_lifecycle_ok: "normalize_lifecycle so fi raw = Inr es \<Longrightarrow> e \<in> set es \<Longrightarrow> well_formed e \<and> market_data e"
  by (auto simp: normalize_lifecycle_def normalizer_parts dest!: km_instrument_ok km_provenance_ok)

lemma bn_normalize_ok:
  "bn_normalize_trade so raw = Inr es \<Longrightarrow> e \<in> set es \<Longrightarrow> well_formed e \<and> market_data e"
  "bn_normalize_quote so raw = Inr es \<Longrightarrow> e \<in> set es \<Longrightarrow> well_formed e \<and> market_data e"
  "bn_normalize_order_book so raw = Inr es \<Longrightarrow> e \<in> set es \<Longrightarrow> well_formed e \<and> market_data e"
  by (auto simp: bn_normalize_trade_def bn_normalize_quote_def bn_normalize_order_book_def normalizer_parts
      dest!: mk_trade_ok bn_quote_level_ok bn_instrument_ok bn_provenance_ok bn_levels_valid)

lemma stateless_handled:
  assumes "normalize_raw handlers raw s = (r, s')" and "handlers (raw_schema_version raw, raw_channel raw) = Some (stateless f)"
    and "e \<in> set (nr_events r)"
  shows "\<exists>es. f raw = Inr es \<and> e \<in> set es"
  using normalize_raw_handled [OF assms(1,2)] assms(3) by (auto simp: stateless_def)

lemma kalshi_handlers_cases:
  assumes "kalshi_handlers so fi key = Some h"
  shows "h = normalize_snapshot so fi \<or> h = normalize_delta so fi \<or>
     (\<exists>f \<in> {normalize_ticker so fi, normalize_trade so fi, normalize_lifecycle so fi, normalize_rest_orderbook so}. h = stateless f)"
proof -
  note h = assms [unfolded kalshi_handlers_def]
  show ?thesis
    using h by (simp only: option.inject option.distinct insert_iff bex_simps simp_thms split: if_split_asm)
qed

lemma basic_handlers_cases:
  assumes "BASIC_NORMALIZERS so key = Some h"
  shows "\<exists>f \<in> {bn_normalize_trade so, bn_normalize_quote so, bn_normalize_order_book so}. h = stateless f"
proof -
  note h = assms [unfolded BASIC_NORMALIZERS_def]
  show ?thesis
    using h by (simp only: option.inject option.distinct insert_iff bex_simps simp_thms split: if_split_asm)
qed

lemma snapshot_delta_ok:
  assumes "normalize_snapshot so fi raw bs = (Inr es, bs') \<or> normalize_delta so fi raw bs = (Inr es, bs')" and "e \<in> set es"
  shows "well_formed e \<and> market_data e"
proof -
  have "\<exists>msg st. emit_kalshi_book so fi raw msg st = Inr es"
    using assms(1) by (auto simp: normalize_snapshot_def normalize_delta_def Let_def split: sum.splits prod.splits)
  with assms(2) show ?thesis by (auto dest: emit_kalshi_book_ok)
qed


definition demo_trade :: event_envelope where
  "demo_trade =
     \<lparr>raw_venue = Some KALSHI, raw_source = ''local'', raw_channel = ''trade'', raw_received_at = utc 0, raw_exchange_ts = None,
      raw_payload = [(''event_id'', PyStr ''e1''), (''market_id'', PyStr ''M''), (''price'', PyStr ''0.4''), (''quantity'', PyInt 3)],
      raw_schema_version = ''raw-event-v1'', raw_metadata = []\<rparr>"

lemma demo_trade_events:
  "map event_id (nr_events (fst (normalize_raw (BASIC_NORMALIZERS demo_print) demo_trade []))) = [''e1'']"
  by code_simp


end
