(* ===== verification/Pricing.thy ===== *)
theory Pricing
  imports Rounding
begin

text \<open>
  \<open>strategy/pricing.py\<close> and \<open>strategy/sizing.py\<close>: prices on the venue's tick grid, rounded in the
  direction that keeps the edge, and the number of contracts of an entry by the fractional Kelly
  rule under the caps of the sleeve. Every \<open>Decimal\<close> operation rounds to the context's 28 digits;
  the lemmas show that for amounts on a decimal grid the rounding of the quotient never moves it
  over an integer.
\<close>

section \<open>Prices on the tick grid\<close>

definition DEFAULT_TICK :: decimal where
  "DEFAULT_TICK = 1 / 100"

definition validate_tick :: "decimal \<Rightarrow> py_error option" where
  "validate_tick tick = check (0 < tick) (ValueError ''tick must be positive'')"

text \<open>\<open>(price / tick).to_integral_value(rounding=mode) * tick\<close>, after the check of the tick.\<close>

definition floor_to_tick :: "decimal \<Rightarrow> decimal \<Rightarrow> decimal result" where
  "floor_to_tick price tick =
     validated (validate_tick tick) (dmul (of_int (round_floor (ddiv price tick))) tick)"

definition ceil_to_tick :: "decimal \<Rightarrow> decimal \<Rightarrow> decimal result" where
  "ceil_to_tick price tick =
     validated (validate_tick tick) (dmul (of_int (round_ceiling (ddiv price tick))) tick)"

definition round_to_tick :: "decimal \<Rightarrow> decimal \<Rightarrow> decimal result" where
  "round_to_tick price tick =
     validated (validate_tick tick) (dmul (of_int (round_half_up (ddiv price tick))) tick)"

definition clamp_price :: "decimal \<Rightarrow> decimal \<Rightarrow> decimal result" where
  "clamp_price price tick =
     validated (validate_tick tick)
       (let low = tick; high = dsub 1 tick
        in if price < low then low else if price > high then high else price)"

definition buy_limit_from_fair :: "decimal \<Rightarrow> decimal \<Rightarrow> decimal result" where
  "buy_limit_from_fair fair tick = bind_result (floor_to_tick fair tick) (\<lambda>p. clamp_price p tick)"

definition sell_limit_from_fair :: "decimal \<Rightarrow> decimal \<Rightarrow> decimal result" where
  "sell_limit_from_fair fair tick = bind_result (ceil_to_tick fair tick) (\<lambda>p. clamp_price p tick)"

section \<open>Size of an entry\<close>

definition option_cap :: "decimal option \<Rightarrow> decimal \<Rightarrow> decimal" where
  "option_cap cap stake = (case cap of None \<Rightarrow> stake | Some c \<Rightarrow> min stake c)"

definition kelly_stake :: "decimal \<Rightarrow> decimal \<Rightarrow> decimal \<Rightarrow> decimal \<Rightarrow> decimal" where
  "kelly_stake edge price bankroll fraction =
     dmul (dmul fraction (ddiv edge (dsub 1 price))) bankroll"

definition position_headroom :: "decimal option \<Rightarrow> decimal \<Rightarrow> decimal option" where
  "position_headroom max_position current =
     map_option (\<lambda>m. let headroom = dsub m current in if headroom > 0 then headroom else 0) max_position"

definition fractional_kelly_contracts ::
  "decimal \<Rightarrow> decimal \<Rightarrow> decimal \<Rightarrow> decimal \<Rightarrow> decimal option \<Rightarrow> decimal option \<Rightarrow> decimal option \<Rightarrow> decimal \<Rightarrow> int" where
  "fractional_kelly_contracts fair price bankroll fraction max_order max_position cash current =
     (let edge = dsub fair price
      in if edge \<le> 0 \<or> price \<le> 0 \<or> price \<ge> 1 \<or> bankroll \<le> 0 \<or> fraction \<le> 0 then 0
         else let stake = option_cap (position_headroom max_position current)
                            (option_cap max_order (option_cap cash (kelly_stake edge price bankroll fraction)))
              in if stake \<le> 0 then 0 else max (round_floor (ddiv stake price)) 0)"

section \<open>Quotients on a grid\<close>

text \<open>
  A quotient of two amounts of one grid that is not an integer is further from the next integer
  than the context's rounding reaches.
\<close>

lemma round_floor_div:
  assumes x: "on_grid k x" "0 \<le> x" "x * 10 ^ k \<le> 10 ^ 27" and t: "on_grid k t" "0 < t"
  shows "round_floor (ddiv x t) = \<lfloor>x / t\<rfloor>" and "round_ceiling (ddiv x t) = \<lceil>x / t\<rceil>"
proof -
  have ten: "(0 :: rat) < 10 ^ k" by simp
  obtain a b where a: "x = of_int a / 10 ^ k" "\<bar>a\<bar> \<le> 10 ^ 28" and b: "t = of_int b / 10 ^ k" "\<bar>b\<bar> \<le> 10 ^ 28"
    using x(1) t(1) by (metis on_gridE)
  have pos: "0 \<le> a" "0 < b" using a(1) b(1) x(2) t(2)
    by (simp_all add: pos_le_divide_eq [OF ten] pos_less_divide_eq [OF ten])
  have a27: "(of_int a :: rat) \<le> 10 ^ 27" using x(3) a(1) by simp
  have q: "x / t = of_int a / of_int b" using a(1) b(1) by simp
  let ?q = "of_int a / of_int b :: rat"
  have q0: "0 \<le> ?q" using pos by simp
  have err: "\<bar>dctx ?q - ?q\<bar> \<le> ?q / (2 * 10 ^ 27)" using dctx_error [of ?q] q0 by simp
  have small: "?q / (2 * 10 ^ 27) < 1 / of_int b"
  proof -
    have "?q / (2 * 10 ^ 27) = (of_int a / (2 * 10 ^ 27)) / of_int b" by simp
    also have "\<dots> < 1 / of_int b" using a27 pos by (intro divide_strict_right_mono) auto
    finally show ?thesis .
  qed
  have steps: "of_int n < ?q \<Longrightarrow> of_int n + 1 / of_int b \<le> ?q"
              "?q < of_int n \<Longrightarrow> ?q + 1 / of_int b \<le> of_int n" for n
  proof -
    assume "of_int n < ?q"
    then have "of_int (n * b) < (of_int a :: rat)" using pos by (simp add: field_simps)
    then have "n * b + 1 \<le> a" by linarith
    then have "(of_int (n * b + 1) :: rat) \<le> of_int a" by (simp only: of_int_le_iff)
    then have "(of_int n * of_int b + 1) / of_int b \<le> ?q" using pos by (intro divide_right_mono) simp_all
    then show "of_int n + 1 / of_int b \<le> ?q" using pos by (simp add: add_divide_distrib)
  next
    assume "?q < of_int n"
    then have "(of_int a :: rat) < of_int (n * b)" using pos by (simp add: field_simps)
    then have "a + 1 \<le> n * b" by linarith
    then have "(of_int (a + 1) :: rat) \<le> of_int (n * b)" by (simp only: of_int_le_iff)
    then have "(of_int a + 1) / of_int b \<le> (of_int n * of_int b) / (of_int b :: rat)"
      using pos by (intro divide_right_mono) simp_all
    then show "?q + 1 / of_int b \<le> of_int n" using pos by (simp add: add_divide_distrib)
  qed
  have fix_int: "dctx ?q = ?q" if "?q = of_int n" for n
  proof -
    have "\<bar>n\<bar> \<le> 10 ^ 28"
    proof -
      have "?q \<le> of_int a"
        using pos divide_left_mono [of 1 "of_int b" "of_int a :: rat"] by simp
      then have "n \<le> a" using that by simp
      moreover have "0 \<le> n" using that q0 by (metis of_int_0_le_iff)
      ultimately show ?thesis using a(2) by linarith
    qed
    then show ?thesis using that dctx_grid [OF on_grid_of_int] by metis
  qed
  show "round_floor (ddiv x t) = \<lfloor>x / t\<rfloor>"
    unfolding round_floor_def ddiv_def q
  proof (rule floor_unique)
    let ?n = "\<lfloor>?q\<rfloor>"
    have f: "of_int ?n \<le> ?q" "?q < of_int (?n + 1)" by linarith+
    show "of_int ?n \<le> dctx ?q"
      using f(1) fix_int [of ?n] steps(1) [of ?n] err small by (cases "?q = of_int ?n") (force, linarith)
    show "dctx ?q < of_int ?n + 1"
      using steps(2) [OF f(2)] err small by simp
  qed
  show "round_ceiling (ddiv x t) = \<lceil>x / t\<rceil>"
    unfolding round_ceiling_def ddiv_def q
  proof (rule ceiling_unique)
    let ?n = "\<lceil>?q\<rceil>"
    have f: "of_int (?n - 1) < ?q" "?q \<le> of_int ?n" by linarith+
    show "dctx ?q \<le> of_int ?n"
      using f(2) fix_int [of ?n] steps(2) [of ?n] err small by (cases "?q = of_int ?n") (force, linarith)
    show "of_int ?n - 1 < dctx ?q"
      using steps(1) [OF f(1)] err small by simp
  qed
qed

section \<open>Limits keep the edge\<close>

text \<open>A tick and a fair value of the grid \<open>10\<^sup>-\<^sup>8\<close>, with room for a tick on each side.\<close>

definition price_grid :: "decimal \<Rightarrow> decimal \<Rightarrow> bool" where
  "price_grid fair tick \<longleftrightarrow>
     on_grid 8 fair \<and> 0 \<le> fair \<and> fair \<le> 1 \<and> on_grid 8 tick \<and> 0 < tick \<and> tick \<le> 1 / 2"

lemma tick_multiple_exact:
  assumes "on_grid 8 t" "0 < t" "t \<le> 1 / 2" and "0 \<le> of_int n * t" "of_int n * t \<le> 2"
  shows "dmul (of_int n) t = of_int n * t"
proof -
  obtain b where b: "t = of_int b / 10 ^ 8" "\<bar>b\<bar> \<le> 10 ^ 28" using assms(1) by (rule on_gridE)
  have "(of_int (n * b) :: rat) = of_int n * t * 10 ^ 8" using b(1) by simp
  moreover have "0 \<le> of_int n * t * 10 ^ 8" using assms(4) by simp
  moreover have "of_int n * t * 10 ^ 8 \<le> 2 * 10 ^ 8" using assms(5) by (intro mult_right_mono) simp_all
  ultimately have "0 \<le> (of_int (n * b) :: rat)" "(of_int (n * b) :: rat) \<le> 2 * 10 ^ 8" by (simp_all only:)
  then have "(of_int 0 :: rat) \<le> of_int (n * b)" "(of_int (n * b) :: rat) \<le> of_int (2 * 10 ^ 8)" by simp_all
  then have "0 \<le> n * b" "n * b \<le> 2 * 10 ^ 8" by (simp_all only: of_int_le_iff)
  then have "on_grid 8 (of_int n * t)"
    by (intro on_gridI [where n = "n * b"]) (auto simp: b(1))
  then show ?thesis by (simp add: dmul_def)
qed

lemma dsub_1_tick: "on_grid 8 t \<Longrightarrow> 0 < t \<Longrightarrow> t \<le> 1 / 2 \<Longrightarrow> dsub 1 t = 1 - t"
  using dsub_grid [of 8 1 t] by (simp add: on_grid_def)

lemma price_grid_floor:
  assumes "price_grid fair t"
  shows "floor_to_tick fair t = Inr (of_int \<lfloor>fair / t\<rfloor> * t)"
    and "of_int \<lfloor>fair / t\<rfloor> * t \<le> fair" and "fair < of_int \<lfloor>fair / t\<rfloor> * t + t"
proof -
  have g: "on_grid 8 fair" "0 \<le> fair" "fair \<le> 1" "on_grid 8 t" "0 < t" "t \<le> 1 / 2"
    using assms by (auto simp: price_grid_def)
  let ?n = "\<lfloor>fair / t\<rfloor>"
  have "of_int ?n \<le> fair / t" "fair / t < of_int ?n + 1" by linarith+
  then show b: "of_int ?n * t \<le> fair" "fair < of_int ?n * t + t"
    using mult_right_mono [of "of_int ?n" "fair / t" t] mult_strict_right_mono [of "fair / t" "of_int ?n + 1" t] g(5)
    by (simp_all add: distrib_right)
  have "0 \<le> ?n" using g by simp
  then have "0 \<le> of_int ?n * t" using g(5) by simp
  then have "dmul (of_int ?n) t = of_int ?n * t"
    using tick_multiple_exact [OF g(4-6)] b(1) g(3) by simp
  moreover have "round_floor (ddiv fair t) = ?n"
    by (rule round_floor_div [of 8]) (use g in auto)
  ultimately show "floor_to_tick fair t = Inr (of_int ?n * t)"
    using g(5) by (simp add: floor_to_tick_def validate_tick_def)
qed

lemma price_grid_ceil:
  assumes "price_grid fair t"
  shows "ceil_to_tick fair t = Inr (of_int \<lceil>fair / t\<rceil> * t)"
    and "fair \<le> of_int \<lceil>fair / t\<rceil> * t" and "of_int \<lceil>fair / t\<rceil> * t < fair + t"
proof -
  have g: "on_grid 8 fair" "0 \<le> fair" "fair \<le> 1" "on_grid 8 t" "0 < t" "t \<le> 1 / 2"
    using assms by (auto simp: price_grid_def)
  let ?n = "\<lceil>fair / t\<rceil>"
  have "fair / t \<le> of_int ?n" "of_int ?n < fair / t + 1" by linarith+
  then show b: "fair \<le> of_int ?n * t" "of_int ?n * t < fair + t"
    using mult_right_mono [of "fair / t" "of_int ?n" t] mult_strict_right_mono [of "of_int ?n" "fair / t + 1" t] g(5)
    by (simp_all add: distrib_right)
  have "0 \<le> of_int ?n * t" using b(1) g(2) by linarith
  then have "dmul (of_int ?n) t = of_int ?n * t"
    using tick_multiple_exact [OF g(4-6)] b(2) g(3,6) by simp
  moreover have "round_ceiling (ddiv fair t) = ?n"
    by (rule round_floor_div(2) [of 8]) (use g in auto)
  ultimately show "ceil_to_tick fair t = Inr (of_int ?n * t)"
    using g(5) by (simp add: ceil_to_tick_def validate_tick_def)
qed

lemma clamp_price_Inr:
  assumes "on_grid 8 t" "0 < t" "t \<le> 1 / 2"
  shows "clamp_price p t = Inr (max t (min p (1 - t)))"
  using assms by (auto simp: clamp_price_def validate_tick_def dsub_1_tick max_def min_def)



section \<open>Sizes within every cap\<close>

lemma option_cap_le: "option_cap cap x \<le> x" and option_cap_Some: "option_cap (Some c) x \<le> c"
  by (auto simp: option_cap_def split: option.splits)

lemma option_cap_mono: "x \<le> y \<Longrightarrow> option_cap cap x \<le> option_cap cap y"
  by (auto simp: option_cap_def split: option.splits)

text \<open>Rounding the quotient is monotone, so a stake below a cap buys no more than the cap does.\<close>

lemma contracts_within:
  assumes "s \<le> c" and "0 < p" and "on_grid k c" "0 \<le> c" "c * 10 ^ k \<le> 10 ^ 27" "on_grid k p"
  shows "of_int (max (round_floor (ddiv s p)) 0) * p \<le> c"
proof -
  have "s / p \<le> c / p" using assms(1,2) by (simp add: divide_right_mono)
  then have "round_floor (ddiv s p) \<le> round_floor (ddiv c p)"
    unfolding round_floor_def ddiv_def by (intro floor_mono dctx_mono)
  also have "\<dots> = \<lfloor>c / p\<rfloor>" by (rule round_floor_div(1)) (use assms in auto)
  finally have "max (round_floor (ddiv s p)) 0 \<le> \<lfloor>c / p\<rfloor>" using assms(2,4) by simp
  then have "of_int (max (round_floor (ddiv s p)) 0) \<le> c / p" by (simp only: le_floor_iff)
  with assms(2) show ?thesis by (simp only: pos_le_divide_eq)
qed

lemma kelly_stake_le:
  assumes "0 \<le> edge" "edge \<le> dsub 1 price" "0 < dsub 1 price" "0 \<le> fraction" "fraction \<le> 1" "0 \<le> bankroll" "dctx bankroll = bankroll"
  shows "kelly_stake edge price bankroll fraction \<le> bankroll"
proof -
  have one: "dctx 1 = 1" by (rule dctx_grid [of 0]) (simp add: on_grid_def)
  have "edge / dsub 1 price \<le> 1" using assms(2,3) by simp
  then have "ddiv edge (dsub 1 price) \<le> 1" unfolding ddiv_def by (rule dctx_le_fix [OF one])
  moreover have "0 \<le> ddiv edge (dsub 1 price)" using assms(1,3) by (intro ddiv_nonneg) auto
  ultimately have "fraction * ddiv edge (dsub 1 price) \<le> 1" using assms(4,5) by (intro mult_le_one)
  then have "dmul fraction (ddiv edge (dsub 1 price)) \<le> 1" unfolding dmul_def by (rule dctx_le_fix [OF one])
  then have "dmul fraction (ddiv edge (dsub 1 price)) * bankroll \<le> bankroll"
    using mult_right_mono [of _ 1 bankroll] assms(6) by fastforce
  then show ?thesis unfolding kelly_stake_def dmul_def by (rule dctx_le_fix [OF assms(7)])
qed

text \<open>Amounts of money: of the grid \<open>10\<^sup>-\<^sup>8\<close>, below \<open>10\<^sup>1\<^sup>9\<close>.\<close>

definition money :: "decimal \<Rightarrow> bool" where
  "money c \<longleftrightarrow> on_grid 8 c \<and> c * 10 ^ 8 \<le> 10 ^ 27"

lemma headroom_money:
  assumes "money m" "money current" "0 \<le> current" "position_headroom (Some m) current = Some h"
  shows "h = max 0 (m - current)" and "money h"
proof -
  have h: "h = (if dsub m current > 0 then dsub m current else 0)"
    using assms(4) by (simp add: position_headroom_def Let_def)
  have "dsub m current = m - current \<and> on_grid 8 (m - current) \<or> m < current"
    using assms(1-3) dsub_grid [of 8 m current] on_grid_between [of 8 m current] by (auto simp: money_def)
  moreover have "dsub m current \<le> 0" if "m < current"
    using that by (simp add: dsub_def dctx_nonpos)
  moreover have "(m - current) * 10 ^ 8 \<le> m * 10 ^ 8" using assms(3) by (simp add: left_diff_distrib)
  ultimately show "h = max 0 (m - current)" "money h"
    using assms(1) unfolding h money_def by (auto simp: not_less)
qed

lemma kelly_cases [consumes 1, case_names zero stake]:
  assumes "n = fractional_kelly_contracts fair price bankroll fraction max_order max_position cash current"
  obtains "n = 0"
  | s where "0 < dsub fair price" "0 < price" "price < 1" "0 < bankroll" "0 < fraction"
      "s = option_cap (position_headroom max_position current)
             (option_cap max_order (option_cap cash (kelly_stake (dsub fair price) price bankroll fraction)))"
      "0 < s" "n = max (round_floor (ddiv s price)) 0"
  using assms unfolding fractional_kelly_contracts_def Let_def by (metis not_le)

text \<open>
  C20: The size of an entry is a non-negative number of contracts, none without an edge over the
  price, whose exact cost at that price is within the available cash, the order cap and the room
  left under the position cap, and, for a fraction of at most one, within the bankroll.
\<close>

theorem kelly_cost_within_caps:
  assumes n: "n = fractional_kelly_contracts fair price bankroll fraction max_order max_position cash current"
    and g: "on_grid 8 price" "fair \<le> 1" "money bankroll" "money current" "0 \<le> current"
    and caps: "\<forall>c \<in> set_option cash \<union> set_option max_order \<union> set_option max_position. money c"
  shows "0 \<le> n \<and> (fair \<le> price \<longrightarrow> n = 0) \<and>
     (\<forall>c \<in> set_option cash \<union> set_option max_order. of_int n * price \<le> max 0 c) \<and>
     (\<forall>m \<in> set_option max_position. of_int n * price \<le> max 0 (m - current)) \<and>
     (fraction \<le> 1 \<longrightarrow> of_int n * price \<le> max 0 bankroll)"
  using n
proof (cases rule: kelly_cases)
  case zero
  then show ?thesis by simp
next
  case (stake s)
  let ?k = "kelly_stake (dsub fair price) price bankroll fraction"
  have within: "of_int n * price \<le> c" if "s \<le> c" "money c" for c
    unfolding stake(8) by (rule contracts_within [of s c price 8]) (use that stake g in \<open>auto simp: money_def\<close>)
  have le: "s \<le> option_cap max_order (option_cap cash ?k)" "option_cap max_order (option_cap cash ?k) \<le> option_cap cash ?k"
    "option_cap cash ?k \<le> ?k"
    unfolding stake(6) by (rule option_cap_le)+
  have "of_int n * price \<le> max 0 c" if "cash = Some c \<or> max_order = Some c" for c
  proof -
    have "s \<le> c" using that le option_cap_Some [of c ?k] option_cap_Some [of c "option_cap cash ?k"] by auto
    then show ?thesis using within [of c] that caps by fastforce
  qed
  moreover have "of_int n * price \<le> max 0 (m - current)" if m: "max_position = Some m" for m
  proof -
    obtain h where h: "position_headroom (Some m) current = Some h" by (simp add: position_headroom_def)
    have "s \<le> h" unfolding stake(6) m h by (rule option_cap_Some)
    with headroom_money [OF _ g(4,5) h] within [of h] m caps show ?thesis by simp
  qed
  moreover have "of_int n * price \<le> max 0 bankroll" if "fraction \<le> 1"
  proof -
    have "dsub fair price \<le> dsub 1 price" using g(2) unfolding dsub_def by (intro dctx_mono) simp
    moreover have "dctx bankroll = bankroll" using g(3) unfolding money_def by (intro dctx_grid) auto
    ultimately have "?k \<le> bankroll" using stake that by (intro kelly_stake_le) auto
    then show ?thesis using le within [of bankroll] g(3) by fastforce
  qed
  moreover have "price < fair" using stake(1) by (metis dctx_nonpos diff_le_0_iff_le dsub_def not_le)
  moreover have "0 \<le> n" unfolding stake(8) by simp
  ultimately show ?thesis by auto
qed

theorem kelly_cost_within_caps_witness:
  "fractional_kelly_contracts (60 / 100) (50 / 100) 1000 (1 / 4) (Some 40) None (Some 45) 0 = 80 \<and>
   of_int 80 * (50 / 100) \<le> max 0 (40 :: decimal)"
proof -
  have n: "80 = fractional_kelly_contracts (60 / 100) (50 / 100) 1000 (1 / 4) (Some 40) None (Some 45) 0" by code_simp
  have m: "money 1000" "money 40" "money 45" "money 0" "on_grid 8 (50 / 100)" by code_simp+
  show ?thesis using kelly_cost_within_caps [OF n m(5) _ m(1,4)] m n by simp
qed

text \<open>A higher fair value never lowers the size of an entry, whatever the caps.\<close>

theorem kelly_monotone_in_fair:
  assumes "fair \<le> fair'"
  shows "fractional_kelly_contracts fair price bankroll fraction max_order max_position cash current
     \<le> fractional_kelly_contracts fair' price bankroll fraction max_order max_position cash current"
    (is "?n \<le> ?n'")
proof -
  have e: "dsub fair price \<le> dsub fair' price" using assms unfolding dsub_def by (intro dctx_mono) simp
  consider "?n = 0" | s where "0 < dsub fair price" "0 < price" "price < 1" "0 < bankroll" "0 < fraction"
      "s = option_cap (position_headroom max_position current)
             (option_cap max_order (option_cap cash (kelly_stake (dsub fair price) price bankroll fraction)))"
      "0 < s" "?n = max (round_floor (ddiv s price)) 0"
    by (rule kelly_cases [OF refl, of fair price bankroll fraction max_order max_position cash current]) blast+
  then show ?thesis
  proof cases
    case 1
    moreover have "0 \<le> ?n'" by (simp add: fractional_kelly_contracts_def Let_def)
    ultimately show ?thesis by simp
  next
    case (2 s)
    let ?s' = "option_cap (position_headroom max_position current)
             (option_cap max_order (option_cap cash (kelly_stake (dsub fair' price) price bankroll fraction)))"
    have "0 \<le> dsub 1 price" using 2(3) by (intro dsub_nonneg) simp
    then have "kelly_stake (dsub fair price) price bankroll fraction \<le> kelly_stake (dsub fair' price) price bankroll fraction"
      unfolding kelly_stake_def dmul_def ddiv_def using 2 e
      by (intro dctx_mono mult_right_mono mult_left_mono divide_right_mono) auto
    then have le: "s \<le> ?s'" unfolding 2(6) by (intro option_cap_mono)
    then have "round_floor (ddiv s price) \<le> round_floor (ddiv ?s' price)"
      unfolding round_floor_def ddiv_def using 2 by (intro floor_mono dctx_mono divide_right_mono) auto
    moreover have "?n' = max (round_floor (ddiv ?s' price)) 0"
      using 2 e le unfolding fractional_kelly_contracts_def Let_def by auto
    ultimately show ?thesis using 2(8) by simp
  qed
qed

theorem kelly_monotone_in_fair_witness:
  "fractional_kelly_contracts (55 / 100) (50 / 100) 1000 (1 / 4) None None None 0
     \<le> fractional_kelly_contracts (60 / 100) (50 / 100) 1000 (1 / 4) None None None 0"
  by (rule kelly_monotone_in_fair) simp

end
