(* ===== verification/StrategyTools.thy ===== *)
theory StrategyTools
  imports Numerals Pricing Allocation
begin

text \<open>
  What the plug-in strategies share, each file with its own copy of the helper: reading
  \<open>spec.parameters\<close> and signal payloads, \<open>Venue(value)\<close>, the YES mid of a quote, and the printing of
  numbers into order metadata.
\<close>

section \<open>Parameters and payloads\<close>

definition venue_of_string :: "string \<Rightarrow> venue result" where
  "venue_of_string v =
     (if v = venue_value KALSHI then Inr KALSHI
      else if v = venue_value POLYMARKET_GLOBAL then Inr POLYMARKET_GLOBAL
      else if v = venue_value POLYMARKET_US then Inr POLYMARKET_US
      else Inl (ValueError (''unknown venue: '' @ v)))"

text \<open>\<open>str(spec.parameters.get(key, dflt))\<close>; \<open>str_other\<close> prints the values that are not strings.\<close>

definition str_param :: "(pyval \<Rightarrow> string) \<Rightarrow> frozen_map \<Rightarrow> string \<Rightarrow> string \<Rightarrow> string" where
  "str_param str_other params key dflt =
     (case frozen_get params key of None \<Rightarrow> dflt | Some v \<Rightarrow> py_str str_other v)"

text \<open>
  \<open>Decimal(str(spec.parameters.get(key, dflt)))\<close>. The model covers finite parameters: a NaN or an
  infinity, which the program would store, is an error here.
\<close>

definition finite_decimal :: "pyval \<Rightarrow> decimal result" where
  "finite_decimal v = (case decimal_of_pyval v of Some (Finite x) \<Rightarrow> Inr x | _ \<Rightarrow> Inl InvalidOperation)"

definition decimal_param :: "frozen_map \<Rightarrow> string \<Rightarrow> decimal \<Rightarrow> decimal result" where
  "decimal_param params key dflt =
     (case frozen_get params key of None \<Rightarrow> Inr dflt | Some v \<Rightarrow> finite_decimal v)"

definition payload_get :: "frozen_map \<Rightarrow> string \<Rightarrow> pyval" where
  "payload_get payload key = (case frozen_get payload key of None \<Rightarrow> PyNone | Some v \<Rightarrow> v)"

text \<open>\<open>_decimal\<close>: any \<open>Decimal\<close>, or \<open>None\<close> for a value that is none.\<close>

definition signal_decimal :: "pyval \<Rightarrow> dec_literal option" where
  "signal_decimal v = decimal_of_pyval v"

text \<open>Comparisons with a NaN raise.\<close>

fun literal_less :: "dec_literal \<Rightarrow> decimal \<Rightarrow> bool result" where
  "literal_less (Finite x) c = Inr (x < c)"
| "literal_less (Infinite neg) c = Inr neg"
| "literal_less NaN c = Inl InvalidOperation"

fun in_unit :: "dec_literal \<Rightarrow> bool result" where
  "in_unit (Finite x) = Inr (0 \<le> x \<and> x \<le> 1)"
| "in_unit (Infinite neg) = Inr False"
| "in_unit NaN = Inl InvalidOperation"

fun literal_abs :: "dec_literal \<Rightarrow> dec_literal" where
  "literal_abs (Finite x) = Finite \<bar>x\<bar>"
| "literal_abs (Infinite neg) = Infinite False"
| "literal_abs NaN = NaN"

text \<open>\<open>_bounded_decimal\<close>: a value in the unit interval, or \<open>None\<close>.\<close>

definition bounded_decimal :: "pyval \<Rightarrow> decimal option result" where
  "bounded_decimal v =
     (case signal_decimal v of
        None \<Rightarrow> Inr None
      | Some d \<Rightarrow> bind_result (in_unit d) (\<lambda>ok. Inr (case d of Finite x \<Rightarrow> if ok then Some x else None | _ \<Rightarrow> None)))"

text \<open>The variant whose comparison stands inside \<open>suppress(ArithmeticError)\<close>.\<close>

definition bounded_or_none :: "pyval \<Rightarrow> decimal option" where
  "bounded_or_none v = (case bounded_decimal v of Inl e \<Rightarrow> None | Inr p \<Rightarrow> p)"

definition signal_market_id :: "frozen_map \<Rightarrow> string option" where
  "signal_market_id payload =
     (case payload_get payload ''market_id'' of PyStr (c # cs) \<Rightarrow> Some (c # cs) | _ \<Rightarrow> None)"

section \<open>Prices\<close>

text \<open>\<open>_yes_mid\<close>\<close>

definition yes_mid :: "quote \<Rightarrow> decimal option" where
  "yes_mid q =
     (case (q_bid q, q_ask q) of
        (Some bid, Some ask) \<Rightarrow>
          let mid = ddiv (dadd (lvl_price bid) (lvl_price ask)) 2
          in Some (if q_side q = YES then mid else dsub 1 mid)
      | _ \<Rightarrow> None)"

text \<open>\<open>str\<close> of a decimal quantized to four places, and \<open>str(int(x))\<close>.\<close>

definition str_fixed4 :: "decimal \<Rightarrow> string" where
  "str_fixed4 x =
     (let n = \<bar>round_half_even (x * 10000)\<bar>;
          digit = (\<lambda>k. char_of (48 + nat (n div k mod 10)))
      in (if x < 0 then ''-'' else []) @ str_nat (nat (n div 10000)) @ ''.'' @ map digit [1000, 100, 10, 1])"

definition str_int :: "decimal \<Rightarrow> string" where
  "str_int x =
     (let n = (if 0 \<le> x then \<lfloor>x\<rfloor> else \<lceil>x\<rceil>) in (if n < 0 then ''-'' else []) @ str_nat (nat \<bar>n\<bar>))"

definition for_side :: "outcome_side \<Rightarrow> decimal \<Rightarrow> decimal" where
  "for_side side x = (if side = YES then x else dsub 1 x)"

lemma bounded_decimal_unit: "bounded_decimal v = Inr (Some x) \<Longrightarrow> 0 \<le> x \<and> x \<le> 1"
proof (cases "signal_decimal v")
  case (Some d)
  assume "bounded_decimal v = Inr (Some x)"
  with Some show ?thesis by (cases d) (auto simp: bounded_decimal_def split: if_splits)
qed (simp add: bounded_decimal_def)

lemma bounded_or_none_unit: "bounded_or_none v = Some x \<Longrightarrow> 0 \<le> x \<and> x \<le> 1"
  by (auto simp: bounded_or_none_def split: sum.splits dest: bounded_decimal_unit)

lemma in_unit_finite: "in_unit d = Inr True \<longleftrightarrow> (\<exists>x. d = Finite x \<and> 0 \<le> x \<and> x \<le> 1)"
  by (cases d) auto

end
