(* ===== verification/NoArb.thy ===== *)
theory NoArb
  imports Fees StrategyTools
begin

text \<open>
  \<open>plugins/strategies/kalshi_noarb_scanner.py\<close>: the scanner that buys one YES contract on every
  bracket of an exclusive ladder when the asks and the fees together cost less than the dollar one
  of them pays. The scanner's configuration and its books are a record; one event handler returns
  the decisions and the scanner afterwards. A reason string is kept up to the first number printed
  in it (a \<open>Decimal\<close> prints its exponent, which the model does not track).
\<close>

section \<open>Bounds of a bracket\<close>

text \<open>
  \<open>lo\<close> and \<open>hi\<close> are any \<open>Decimal\<close>, infinities included. Sorting compares them; a NaN raises as
  soon as it is compared, so its place in the order below is immaterial.
\<close>

fun literal_rank :: "dec_literal \<Rightarrow> int \<times> rat" where
  "literal_rank (Infinite True) = (0, 0)"
| "literal_rank (Finite x) = (1, x)"
| "literal_rank (Infinite False) = (2, 0)"
| "literal_rank NaN = (3, 0)"

lemma literal_rank_inj: "literal_rank a = literal_rank b \<Longrightarrow> a = b"
  by (cases a rule: literal_rank.cases; cases b rule: literal_rank.cases) auto

instantiation dec_literal :: linorder
begin

definition less_eq_dec_literal :: "dec_literal \<Rightarrow> dec_literal \<Rightarrow> bool" where
  "less_eq_dec_literal a b \<longleftrightarrow> literal_rank a \<le> literal_rank b"

definition less_dec_literal :: "dec_literal \<Rightarrow> dec_literal \<Rightarrow> bool" where
  "less_dec_literal a b \<longleftrightarrow> literal_rank a < literal_rank b"

instance
  by standard (auto simp: less_eq_dec_literal_def less_dec_literal_def literal_rank_inj)

end

record bracket =
  br_market_id :: string
  br_lo :: dec_literal
  br_hi :: dec_literal

text \<open>\<open>s.split(sep)\<close> for a separator of one character.\<close>

fun split_char :: "char \<Rightarrow> string \<Rightarrow> string list" where
  "split_char c [] = [[]]"
| "split_char c (x # xs) =
     (if x = c then [] # split_char c xs
      else case split_char c xs of [] \<Rightarrow> [[x]] | w # ws \<Rightarrow> (x # w) # ws)"

definition decimal_of_string :: "string \<Rightarrow> dec_literal result" where
  "decimal_of_string s = (case parse_decimal s of None \<Rightarrow> Inl InvalidOperation | Some d \<Rightarrow> Inr d)"

fun parse_chunks :: "string list \<Rightarrow> bracket list result" where
  "parse_chunks [] = Inr []"
| "parse_chunks (raw # chunks) =
     (let chunk = str_strip raw
      in if chunk = [] then parse_chunks chunks
         else case split_char (CHR '':'') chunk of
           [ticker, lo, hi] \<Rightarrow>
             bind_result (decimal_of_string lo) (\<lambda>l.
             bind_result (decimal_of_string hi) (\<lambda>h.
             bind_result (parse_chunks chunks) (\<lambda>bs.
               Inr (\<lparr>br_market_id = str_strip ticker, br_lo = l, br_hi = h\<rparr> # bs))))
         | _ \<Rightarrow> Inl (ValueError (''bad bracket spec '' @ chunk)))"

definition parse_brackets :: "string \<Rightarrow> bracket list result" where
  "parse_brackets raw = parse_chunks (split_char (CHR '';'') raw)"

text \<open>\<open>sorted(brackets, key=lambda b: b.lo)\<close>: stable, and raises when it compares a NaN.\<close>

definition sorted_brackets :: "bracket list \<Rightarrow> bracket list result" where
  "sorted_brackets bs =
     (if 2 \<le> length bs \<and> (\<exists>b \<in> set bs. br_lo b = NaN) then Inl InvalidOperation
      else Inr (sort_key br_lo bs))"

text \<open>The first neighbours that do not meet, if any; a NaN differs from everything.\<close>

fun first_gap :: "bracket list \<Rightarrow> (bracket \<times> bracket) option" where
  "first_gap (low # high # bs) =
     (if br_hi low \<noteq> br_lo high \<or> br_hi low = NaN then Some (low, high) else first_gap (high # bs))"
| "first_gap _ = None"

definition exclusive_ladder_gap :: "bracket list \<Rightarrow> string option result" where
  "exclusive_ladder_gap bs =
     bind_result (sorted_brackets bs) (\<lambda>ordered.
       Inr (map_option (\<lambda>(low, high). ''non_contiguous_ladder:'' @ br_market_id low) (first_gap ordered)))"

section \<open>The scanner\<close>

record leg_book =
  lb_yes_bid :: "decimal option"
  lb_yes_ask :: "decimal option"
  lb_ask_qty :: "decimal option"
  lb_event_id :: string
  lb_quote :: quote
  lb_provenance :: event_provenance
  lb_seen_at :: datetime

record noarb_scanner =
  na_brackets :: "bracket list"
  na_ladder_kind :: string
  na_min_edge_bps :: decimal
  na_size :: decimal
  na_max_quote_age :: timedelta
  na_venue :: venue
  na_books :: "(string, leg_book) dict"
  na_exclusive_gap :: "string option"

text \<open>
  \<open>__init__\<close> on the values of \<open>spec.parameters\<close>: the two finite decimals and the age (as a
  \<open>timedelta\<close>) are arguments, the other parameters are strings.
\<close>

definition new_scanner ::
  "string \<Rightarrow> string \<Rightarrow> decimal \<Rightarrow> decimal \<Rightarrow> timedelta \<Rightarrow> string \<Rightarrow> noarb_scanner result" where
  "new_scanner raw kind min_edge lot age venue_name =
     bind_result (parse_brackets raw) (\<lambda>bs.
     bind_result (venue_of_string venue_name) (\<lambda>v.
     bind_result (if str_lower kind = ''exclusive'' then exclusive_ladder_gap bs else Inr None) (\<lambda>gap.
       Inr \<lparr>na_brackets = bs, na_ladder_kind = str_lower kind, na_min_edge_bps = min_edge, na_size = lot,
            na_max_quote_age = age, na_venue = v, na_books = [], na_exclusive_gap = gap\<rparr>)))"

definition kalshi_leg_fee :: "decimal \<Rightarrow> decimal result" where
  "kalshi_leg_fee price = quantize round_ceiling 2 (dmul (dmul (7 / 100) price) (dsub 1 price))"

definition yes_book :: "quote \<Rightarrow> decimal option \<times> decimal option \<times> decimal option" where
  "yes_book q =
     (case (q_bid q, q_ask q) of
        (Some bid, Some ask) \<Rightarrow>
          if q_side q = YES then (Some (lvl_price bid), Some (lvl_price ask), Some (lvl_quantity ask))
          else (Some (dsub 1 (lvl_price ask)), Some (dsub 1 (lvl_price bid)), Some (lvl_quantity bid))
      | _ \<Rightarrow> (None, None, None))"

text \<open>
  \<open>_fresh_books\<close> is a dictionary in the order of the brackets; a market named by two brackets has
  one entry.
\<close>

definition leg_fresh :: "noarb_scanner \<Rightarrow> datetime \<Rightarrow> leg_book \<Rightarrow> bool" where
  "leg_fresh sc now lb \<longleftrightarrow>
     lb_yes_ask lb \<noteq> None \<and> lb_yes_bid lb \<noteq> None \<and> \<not> dt_minus now (lb_seen_at lb) > na_max_quote_age sc"

definition fresh_books :: "noarb_scanner \<Rightarrow> datetime \<Rightarrow> (string, leg_book) dict" where
  "fresh_books sc now =
     fold (\<lambda>b out. case dict_get (na_books sc) (br_market_id b) of
             None \<Rightarrow> out
           | Some lb \<Rightarrow> if leg_fresh sc now lb then dict_set (br_market_id b) lb out else out)
       (na_brackets sc) []"

definition lock_size :: "noarb_scanner \<Rightarrow> (string, leg_book) dict \<Rightarrow> decimal" where
  "lock_size sc fresh =
     (let qtys = List.map_filter lb_ask_qty (dict_values fresh)
      in if qtys = [] then na_size sc else Min (set (na_size sc # qtys)))"

definition buy_leg ::
  "(nat \<Rightarrow> string) \<Rightarrow> nat \<Rightarrow> noarb_scanner \<Rightarrow> string \<Rightarrow> leg_book \<Rightarrow> decimal \<Rightarrow> decimal \<Rightarrow> decimal \<Rightarrow> strategy_decision result" where
  "buy_leg uuid i sc mid lb exec_price lot edge_bps =
     bind_result (quantize round_half_up 4 exec_price) (\<lambda>fair_price.
     bind_result (let iid = \<lparr>iid_venue = na_venue sc, market_id = mid, outcome_id = None\<rparr>
                  in validated (instrument_id_check iid) iid) (\<lambda>iid.
     bind_result (market_snapshot_from_quote_event (lb_event_id lb) (lb_quote lb) (lb_provenance lb) (Some YES)) (\<lambda>snap.
     bind_result (clamp_price exec_price DEFAULT_TICK) (\<lambda>price.
     bind_result (mk_place_order
       \<lparr>po_client_order_id = uuid i, po_instrument_id = iid, po_outcome_side = YES, po_order_side = BUY,
        po_order_type = LIMIT, po_time_in_force = IOC, po_quantity = lot, po_price = Some price,
        po_expires_at = None, po_market_snapshot = Some snap, po_reason = ''exclusive_lock'',
        po_expected_edge_bps = Some edge_bps, po_priority = Some DEFAULT_EXECUTION_PRIORITY,
        po_metadata =
          [(''fair_price'', PyStr (str_fixed4 fair_price)), (''min_executable_edge_ticks'', PyStr ''0''),
           (''fee_rate_bps'', PyStr ''700'')]\<rparr>) (\<lambda>d. Inr (PlaceOrder d))))))"

definition lb_ask :: "leg_book \<Rightarrow> decimal" where
  "lb_ask lb = (case lb_yes_ask lb of None \<Rightarrow> 0 | Some p \<Rightarrow> p)"

definition lb_bid :: "leg_book \<Rightarrow> decimal" where
  "lb_bid lb = (case lb_yes_bid lb of None \<Rightarrow> 0 | Some p \<Rightarrow> p)"

text \<open>The summed asks and fees of the fresh books.\<close>

definition lock_totals :: "leg_book list \<Rightarrow> (decimal \<times> decimal) result" where
  "lock_totals lbs =
     fold_result (\<lambda>lb (total_ask, total_fee).
       bind_result (kalshi_leg_fee (lb_ask lb)) (\<lambda>fee. Inr (dadd total_ask (lb_ask lb), dadd total_fee fee)))
     lbs (0, 0)"

fun buy_legs ::
  "(nat \<Rightarrow> string) \<Rightarrow> nat \<Rightarrow> noarb_scanner \<Rightarrow> (string, leg_book) dict \<Rightarrow> decimal \<Rightarrow> decimal \<Rightarrow> bracket list \<Rightarrow>
   strategy_decision list result" where
  "buy_legs uuid i sc fresh lot edge_bps [] = Inr []"
| "buy_legs uuid i sc fresh lot edge_bps (b # bs) =
     (case dict_get fresh (br_market_id b) of
        None \<Rightarrow> Inl (KeyError (br_market_id b))
      | Some lb \<Rightarrow>
          bind_result (buy_leg uuid i sc (br_market_id b) lb (lb_ask lb) lot edge_bps) (\<lambda>d.
          bind_result (buy_legs uuid (Suc i) sc fresh lot edge_bps bs) (\<lambda>ds. Inr (d # ds))))"

definition scan_exclusive ::
  "(nat \<Rightarrow> string) \<Rightarrow> noarb_scanner \<Rightarrow> (string, leg_book) dict \<Rightarrow> strategy_decision list result" where
  "scan_exclusive uuid sc fresh =
     (case na_exclusive_gap sc of
        Some gap \<Rightarrow> Inr [NoAction (''refuse:'' @ gap)]
      | None \<Rightarrow>
          bind_result (lock_totals (dict_values fresh)) (\<lambda>(total_ask, total_fee).
            let edge_bps = dmul (dsub (dsub 1 total_ask) total_fee) 10000
            in if edge_bps < na_min_edge_bps sc then Inr [NoAction ''no_lock:sum_ask='']
               else buy_legs uuid 0 sc fresh (lock_size sc fresh) edge_bps (na_brackets sc)))"

fun scan_neighbours :: "decimal \<Rightarrow> (string, leg_book) dict \<Rightarrow> bracket list \<Rightarrow> strategy_decision list result" where
  "scan_neighbours min_edge fresh (low # high # bs) =
     (case (dict_get fresh (br_market_id low), dict_get fresh (br_market_id high)) of
        (Some lb, Some hb) \<Rightarrow>
          bind_result (kalshi_leg_fee (lb_ask lb)) (\<lambda>fee_low.
          bind_result (kalshi_leg_fee (lb_bid hb)) (\<lambda>fee_high.
            let margin = dadd (dadd (dsub (lb_ask lb) (lb_bid hb)) fee_low) fee_high
            in if dmul (dneg margin) 10000 \<ge> min_edge
               then Inr [NoAction (''cumulative_monotonicity_violation: lock=BUY '' @ br_market_id low @ '' YES @ '')]
               else scan_neighbours min_edge fresh (high # bs)))
      | _ \<Rightarrow> Inl (KeyError (br_market_id low)))"
| "scan_neighbours min_edge fresh _ = Inr [NoAction ''ladder_monotone_ok'']"

definition scan_cumulative :: "noarb_scanner \<Rightarrow> (string, leg_book) dict \<Rightarrow> strategy_decision list result" where
  "scan_cumulative sc fresh =
     bind_result (sorted_brackets (filter (\<lambda>b. dict_get fresh (br_market_id b) \<noteq> None) (na_brackets sc)))
       (\<lambda>ordered. scan_neighbours (na_min_edge_bps sc) fresh ordered)"

definition observe_quote :: "string \<Rightarrow> quote \<Rightarrow> event_provenance \<Rightarrow> datetime \<Rightarrow> noarb_scanner \<Rightarrow> noarb_scanner" where
  "observe_quote eid q prov now sc =
     (let (bid, ask, qty) = yes_book q
      in sc\<lparr>na_books := dict_set (market_id (q_instrument_id q))
              \<lparr>lb_yes_bid = bid, lb_yes_ask = ask, lb_ask_qty = qty, lb_event_id = eid, lb_quote = q,
               lb_provenance = prov, lb_seen_at = now\<rparr> (na_books sc)\<rparr>)"

definition scan :: "(nat \<Rightarrow> string) \<Rightarrow> datetime \<Rightarrow> noarb_scanner \<Rightarrow> strategy_decision list result" where
  "scan uuid now sc =
     (let fresh = fresh_books sc now
      in if length fresh < length (na_brackets sc) then Inr [NoAction ''warmup:incomplete_or_stale_ladder'']
         else if na_ladder_kind sc = ''exclusive'' then scan_exclusive uuid sc fresh
         else if na_ladder_kind sc = ''cumulative'' then scan_cumulative sc fresh
         else Inr [NoAction (''unknown_ladder_kind:'' @ na_ladder_kind sc)])"

text \<open>The book is stored before the scan, so it stays stored when the scan raises.\<close>

fun noarb_on_event ::
  "(nat \<Rightarrow> string) \<Rightarrow> datetime \<Rightarrow> normalized_event \<Rightarrow> noarb_scanner \<Rightarrow>
   strategy_decision list result \<times> noarb_scanner" where
  "noarb_on_event uuid now (QuoteEvent eid q prov) sc =
     (if market_id (q_instrument_id q) \<notin> br_market_id ` set (na_brackets sc)
      then (Inr [NoAction ''ignored:not_in_ladder''], sc)
      else let sc' = observe_quote eid q prov now sc in (scan uuid now sc', sc'))"
| "noarb_on_event uuid now _ sc = (Inr [NoAction ''ignored:not_quote''], sc)"

section \<open>A contiguous ladder tiles its range\<close>

definition in_bracket :: "rat \<Rightarrow> bracket \<Rightarrow> bool" where
  "in_bracket v b \<longleftrightarrow> br_lo b \<le> Finite v \<and> Finite v < br_hi b"

text \<open>From the lowest bound of the ladder to the upper bound of its highest bracket.\<close>

definition in_range :: "rat \<Rightarrow> bracket list \<Rightarrow> bool" where
  "in_range v ordered \<longleftrightarrow> ordered \<noteq> [] \<and> br_lo (hd ordered) \<le> Finite v \<and> Finite v < br_hi (last ordered)"

lemma first_gap_Cons: "first_gap (b # c # bs) = None \<longleftrightarrow> br_hi b = br_lo c \<and> br_hi b \<noteq> NaN \<and> first_gap (c # bs) = None"
  by auto

lemma below_ladder: "sorted (map br_lo bs) \<Longrightarrow> bs \<noteq> [] \<Longrightarrow> Finite v < br_lo (hd bs) \<Longrightarrow> filter (in_bracket v) bs = []"
  by (cases bs) (auto simp: in_bracket_def filter_empty_conv dest: order.strict_trans1)

lemma ladder_tiles:
  assumes "sorted (map br_lo bs)" and "first_gap bs = None" and "in_range v bs"
  shows "length (filter (in_bracket v) bs) = 1"
  using assms
proof (induction bs)
  case Nil
  then show ?case by (simp add: in_range_def)
next
  case (Cons b bs)
  show ?case
  proof (cases bs)
    case Nil
    with Cons.prems(3) show ?thesis by (simp add: in_range_def in_bracket_def)
  next
    case (Cons c cs)
    have meet: "br_hi b = br_lo c" and gap: "first_gap bs = None"
      using Cons.prems(2) unfolding Cons first_gap_Cons by auto
    have lo: "br_lo b \<le> Finite v" and hi: "Finite v < br_hi (last bs)"
      using Cons.prems(3) unfolding in_range_def Cons by auto
    show ?thesis
    proof (cases "Finite v < br_lo c")
      case True
      then have "filter (in_bracket v) bs = []"
        using Cons.prems(1) unfolding Cons by (intro below_ladder) auto
      moreover have "in_bracket v b" using True lo meet by (simp add: in_bracket_def)
      ultimately show ?thesis by simp
    next
      case False
      then have "in_range v bs" using hi unfolding in_range_def Cons by simp
      then have "length (filter (in_bracket v) bs) = 1"
        using Cons.IH Cons.prems(1) gap unfolding Cons by simp
      moreover have "\<not> in_bracket v b" using False meet by (simp add: in_bracket_def)
      ultimately show ?thesis by simp
    qed
  qed
qed

section \<open>The sums of a lock are exact\<close>

text \<open>An ask between the lowest and the highest price the venue trades at, of four decimals.\<close>

definition tradable :: "decimal \<Rightarrow> bool" where
  "tradable p \<longleftrightarrow> on_grid 4 p \<and> 1 / 100 \<le> p \<and> p \<le> 99 / 100"

definition cents_fee :: "decimal \<Rightarrow> decimal" where
  "cents_fee p = of_int \<lceil>7 * p * (1 - p)\<rceil> / 100"

lemma cents_fee_range: "0 \<le> p \<Longrightarrow> p \<le> 1 \<Longrightarrow> 0 \<le> cents_fee p \<and> cents_fee p \<le> 7 / 100 \<and> on_grid 4 (cents_fee p)"
proof -
  assume p: "0 \<le> p" "p \<le> 1"
  have "0 \<le> 7 * p * (1 - p)" using p by simp
  moreover have "p * (1 - p) \<le> 1" using p by (intro mult_le_one) auto
  then have "7 * p * (1 - p) \<le> 7" by simp
  ultimately have c: "0 \<le> \<lceil>7 * p * (1 - p)\<rceil>" "\<lceil>7 * p * (1 - p)\<rceil> \<le> 7" by (simp_all add: ceiling_le_iff)
  have "on_grid 4 (cents_fee p)"
    unfolding cents_fee_def by (rule on_gridI [where n = "100 * \<lceil>7 * p * (1 - p)\<rceil>"]) (use c in auto)
  with c show ?thesis by (simp add: cents_fee_def)
qed

lemma leg_fee_exact:
  assumes "on_grid 4 p" "0 \<le> p" "p \<le> 1"
  shows "kalshi_leg_fee p = Inr (cents_fee p)"
proof -
  have s: "dsub 1 p = 1 - p" "on_grid 4 (1 - p)"
    using assms dsub_grid [of 4 1 p] on_grid_between [of 4 1 p] by (auto simp: on_grid_def)
  have c: "on_grid 2 (7 / 100)" by (simp add: on_grid_def)
  have b: "\<bar>7 / 100 * p\<bar> * 10 ^ (2 + 4) \<le> 10 ^ 28"
    by (rule grid_room [of _ 0]) (use assms in auto)
  note g1 = dmul_grid [OF c assms(1) b] on_grid_mult [OF c assms(1) b]
  have r: "0 \<le> 7 / 100 * p * (1 - p)" "7 / 100 * p * (1 - p) \<le> 1"
    using assms mult_le_one [of "7 / 100 * p" "1 - p"] by auto
  have b2: "\<bar>7 / 100 * p * (1 - p)\<bar> * 10 ^ (2 + 4 + 4) \<le> 10 ^ 28"
    by (rule grid_room [of _ 0]) (use r in \<open>simp_all only: abs_of_nonneg, simp_all\<close>)
  have m: "dmul (7 / 100 * p) (1 - p) = 7 / 100 * p * (1 - p)" by (rule dmul_grid [OF g1(2) s(2) b2])
  have e: "7 / 100 * p * (1 - p) * 100 = 7 * p * (1 - p)" by simp
  have "kalshi_leg_fee p = quantize round_ceiling 2 (7 / 100 * p * (1 - p))"
    by (simp only: kalshi_leg_fee_def g1(1) s(1) m)
  also have "\<dots> = Inr (of_int \<lceil>7 / 100 * p * (1 - p) * 100\<rceil> / 100)"
    by (rule quantize_ceiling_Inr) (use r in auto)
  finally show ?thesis by (simp only: e cents_fee_def)
qed

text \<open>Sums of at most \<open>10\<^sup>6\<close> terms of the grid, each at most one, stay exact.\<close>

lemma lock_totals_exact:
  assumes "\<forall>lb \<in> set lbs. on_grid 4 (lb_ask lb) \<and> 0 \<le> lb_ask lb \<and> lb_ask lb \<le> 1" and "length lbs \<le> 1000000"
  shows "lock_totals lbs = Inr (sum_list (map lb_ask lbs), sum_list (map (cents_fee \<circ> lb_ask) lbs))"
    and "on_grid 4 (sum_list (map lb_ask lbs))" and "on_grid 4 (sum_list (map (cents_fee \<circ> lb_ask) lbs))"
    and "0 \<le> sum_list (map lb_ask lbs)" "sum_list (map lb_ask lbs) \<le> of_nat (length lbs)"
    and "0 \<le> sum_list (map (cents_fee \<circ> lb_ask) lbs)" "sum_list (map (cents_fee \<circ> lb_ask) lbs) \<le> of_nat (length lbs)"
proof -
  have bound: "(x :: rat) * 10 ^ 4 \<le> 10 ^ 28" if "x \<le> of_nat (length lbs)" for x
  proof -
    have "x \<le> 1000000" using that assms(2) by (metis of_nat_le_iff of_nat_numeral order.trans)
    then show ?thesis by simp
  qed
  have total: "sum_list (map f xs) \<le> of_nat (length xs)" if "\<forall>x \<in> set xs. f x \<le> 1" for f :: "leg_book \<Rightarrow> rat" and xs
    using that by (induction xs) auto
  have fee: "\<forall>lb \<in> set lbs. on_grid 4 (cents_fee (lb_ask lb)) \<and> 0 \<le> cents_fee (lb_ask lb) \<and> cents_fee (lb_ask lb) \<le> 1"
    using assms(1) cents_fee_range by fastforce
  show a: "0 \<le> sum_list (map lb_ask lbs)" "sum_list (map lb_ask lbs) \<le> of_nat (length lbs)"
    "0 \<le> sum_list (map (cents_fee \<circ> lb_ask) lbs)" "sum_list (map (cents_fee \<circ> lb_ask) lbs) \<le> of_nat (length lbs)"
    using assms(1) fee total [of lbs lb_ask] total [of lbs "cents_fee \<circ> lb_ask"] by (auto intro!: sum_list_nonneg)
  have "foldl dadd 0 (map lb_ask lbs) = sum_list (map lb_ask lbs) \<and> on_grid 4 (sum_list (map lb_ask lbs))"
    using foldl_dadd_grid [of "map lb_ask lbs" 4 0] assms(1) bound a by auto
  moreover have "foldl dadd 0 (map (cents_fee \<circ> lb_ask) lbs) = sum_list (map (cents_fee \<circ> lb_ask) lbs) \<and>
      on_grid 4 (sum_list (map (cents_fee \<circ> lb_ask) lbs))"
    using foldl_dadd_grid [of "map (cents_fee \<circ> lb_ask) lbs" 4 0] fee bound a by auto
  moreover have "fold_result (\<lambda>lb (total_ask, total_fee).
       bind_result (kalshi_leg_fee (lb_ask lb)) (\<lambda>fee. Inr (dadd total_ask (lb_ask lb), dadd total_fee fee)))
     xs (x, y) = Inr (foldl dadd x (map lb_ask xs), foldl dadd y (map (cents_fee \<circ> lb_ask) xs))"
    if "set xs \<subseteq> set lbs" for xs x y
    using that by (induction xs arbitrary: x y) (use assms(1) in \<open>auto simp: leg_fee_exact\<close>)
  ultimately show "lock_totals lbs = Inr (sum_list (map lb_ask lbs), sum_list (map (cents_fee \<circ> lb_ask) lbs))"
    "on_grid 4 (sum_list (map lb_ask lbs))" "on_grid 4 (sum_list (map (cents_fee \<circ> lb_ask) lbs))"
    unfolding lock_totals_def by auto
qed

lemma lock_edge_exact:
  assumes "on_grid 4 a" "on_grid 4 f" "0 \<le> a" "a \<le> 1000000" "0 \<le> f" "f \<le> 1000000"
  shows "dmul (dsub (dsub 1 a) f) 10000 = (1 - a - f) * 10000"
proof -
  have one: "on_grid 4 1" by (simp add: on_grid_def)
  have "\<bar>1 + - a\<bar> * 10 ^ 4 \<le> 10 ^ 28" by (rule grid_room [of _ 6]) (use assms in auto)
  then have "on_grid 4 (1 + - a)" using assms(1) one by (intro on_grid_add) simp_all
  then have g: "on_grid 4 (1 - a)" by simp
  have "\<bar>1 - a + - f\<bar> * 10 ^ 4 \<le> 10 ^ 28" by (rule grid_room [of _ 7]) (use assms in auto)
  then have "on_grid 4 (1 - a + - f)" using assms(2) g by (intro on_grid_add) simp_all
  then have g2: "on_grid 4 (1 - a - f)" by simp
  then have "of_int \<lfloor>(1 - a - f) * 10 ^ 4\<rfloor> = (1 - a - f) * 10 ^ 4" by (simp add: on_grid_def)
  then have "on_grid 0 ((1 - a - f) * 10000)"
    using assms by (simp add: on_grid_def abs_le_iff)
  with g g2 show ?thesis by (simp add: dsub_def dmul_def)
qed

section \<open>What the legs cost and pay\<close>

text \<open>
  The cost of a leg at its limit price with the venue's own taker fee for the whole order, and what
  it pays when the outcome is \<open>v\<close>.
\<close>

definition leg_cost :: "strategy_decision \<Rightarrow> decimal result" where
  "leg_cost d =
     (case d of
        PlaceOrder r \<Rightarrow>
          (case po_price r of
             None \<Rightarrow> Inl (ValueError ''no limit'')
           | Some p \<Rightarrow>
               bind_result (mk_fill_context
                 \<lparr>fc_instrument_id = po_instrument_id r, fc_side = po_outcome_side r, fc_price = p,
                  fc_quantity = po_quantity r, fc_liquidity = ''taker'', market_category = None\<rparr>) (\<lambda>c.
               bind_result (kalshi_estimate default_kalshi_fee_model c) (\<lambda>e. Inr (p * po_quantity r + est_amount e))))
      | _ \<Rightarrow> Inr 0)"

definition leg_payout :: "bracket list \<Rightarrow> rat \<Rightarrow> strategy_decision \<Rightarrow> decimal" where
  "leg_payout bs v d =
     (case d of
        PlaceOrder r \<Rightarrow>
          if po_order_side r = BUY \<and> po_outcome_side r = YES \<and>
             (\<exists>b \<in> set bs. br_market_id b = market_id (po_instrument_id r) \<and> in_bracket v b)
          then po_quantity r else 0
      | _ \<Rightarrow> 0)"

text \<open>The order \<open>_buy\<close> builds for a bracket.\<close>

definition leg_order :: "noarb_scanner \<Rightarrow> decimal \<Rightarrow> decimal \<Rightarrow> string \<Rightarrow> strategy_decision \<Rightarrow> bool" where
  "leg_order sc ask lot mid d \<longleftrightarrow>
     (\<exists>r. d = PlaceOrder r \<and> po_instrument_id r = \<lparr>iid_venue = na_venue sc, market_id = mid, outcome_id = None\<rparr> \<and>
        po_order_side r = BUY \<and> po_outcome_side r = YES \<and> po_order_type r = LIMIT \<and> po_time_in_force r = IOC \<and>
        po_quantity r = lot \<and> po_price r = Some (max (1 / 100) (min ask (99 / 100))) \<and> 0 < lot)"

lemma clamp_default: "clamp_price p DEFAULT_TICK = Inr (max (1 / 100) (min p (99 / 100)))"
proof -
  have "on_grid 8 (1 / 100)" by (simp add: on_grid_def)
  then show ?thesis unfolding DEFAULT_TICK_def by (subst clamp_price_Inr) auto
qed

lemma buy_leg_order:
  assumes "buy_leg uuid i sc mid lb ask lot bps = Inr d"
  shows "leg_order sc ask lot mid d"
  using assms
  by (auto simp: buy_leg_def clamp_default bind_result_Inr_iff Let_def mk_place_order_def leg_order_def
      place_order_check_def simp del: max_def min_def)

lemma leg_payout_order:
  assumes "leg_order sc ask lot (br_market_id b) d" and "b \<in> set bs" and "distinct (map br_market_id bs)"
  shows "leg_payout bs v d = (if in_bracket v b then lot else 0)"
proof -
  have "c = b" if "c \<in> set bs" "br_market_id c = br_market_id b" for c
    using that assms(2,3) by (metis distinct_map inj_onD)
  then have "(\<exists>c \<in> set bs. br_market_id c = br_market_id b \<and> in_bracket v c) \<longleftrightarrow> in_bracket v b"
    using assms(2) by blast
  with assms(1) show ?thesis by (auto simp: leg_order_def leg_payout_def)
qed

text \<open>The venue rounds the fee of an order up once, the scanner the fee of each contract.\<close>

lemma ceiling_mult_le:
  fixes x :: rat
  assumes "0 \<le> n"
  shows "\<lceil>x * of_int n\<rceil> \<le> \<lceil>x\<rceil> * n"
proof -
  have "x * of_int n \<le> of_int (\<lceil>x\<rceil> * n)"
    using mult_right_mono [of x "of_int \<lceil>x\<rceil>" "of_int n"] assms by simp
  then show ?thesis by (simp only: ceiling_le_iff)
qed

lemma leg_cost_order:
  assumes "leg_order sc p (of_int n) mid d" and "tradable p" and "n \<le> 1000000000"
  shows "\<exists>c. leg_cost d = Inr c \<and> c \<le> of_int n * (p + cents_fee p)"
proof -
  have t: "on_grid 4 p" "1 / 100 \<le> p" "p \<le> 99 / 100" using assms(2) by (auto simp: tradable_def)
  then have cl: "max (1 / 100) (min p (99 / 100)) = p" by simp
  obtain r where r: "d = PlaceOrder r" "po_quantity r = of_int n" "po_price r = Some p" "0 < n"
    using assms(1) unfolding leg_order_def cl by auto
  have n: "(of_int n :: rat) \<le> 1000000000" using assms(3) by (metis of_int_le_iff of_int_numeral)
  have ng: "on_grid 4 (of_int n)"
    by (rule on_gridI [where n = "n * 10000"]) (use assms(3) r(4) in auto)
  let ?raw = "7 / 100 * (p * (1 - p)) * of_int n :: rat"
  have raw: "dmul (dmul (7 / 100) (dmul p (dsub 1 p))) (of_int n) = ?raw"
    by (rule kalshi_raw_exact) (use t n ng r(4) in \<open>auto simp: on_grid_def\<close>)
  have pp: "0 \<le> p * (1 - p)" "p * (1 - p) \<le> 1" using t by (auto intro: mult_le_one)
  have "?raw \<le> 1 * 1000000000" using pp n r(4) by (intro mult_mono) auto
  then have q: "quantize round_ceiling 2 ?raw = Inr (of_int \<lceil>?raw * 100\<rceil> / 100)"
    using pp r(4) by (intro quantize_ceiling_Inr) auto
  define w where "w = ?raw"
  note raw' = raw [folded w_def] and q' = q [folded w_def]
  have e100: "?raw * 100 = 7 * p * (1 - p) * of_int n" by simp
  have "0 \<le> ?raw * 100" using t r(4) by (intro mult_nonneg_nonneg) auto
  then have "(of_int 0 :: rat) \<le> of_int \<lceil>?raw * 100\<rceil>" using le_of_int_ceiling [of "?raw * 100"] by linarith
  then have "0 \<le> \<lceil>?raw * 100\<rceil>" by (simp only: of_int_le_iff)
  then have est: "\<exists>e. kalshi_estimate default_kalshi_fee_model
      \<lparr>fc_instrument_id = po_instrument_id r, fc_side = po_outcome_side r, fc_price = p,
       fc_quantity = of_int n, fc_liquidity = ''taker'', market_category = None\<rparr> = Inr e \<and>
      est_amount e = of_int \<lceil>?raw * 100\<rceil> / 100"
    unfolding w_def [symmetric]
    by (simp add: kalshi_estimate_def default_kalshi_fee_model_def raw' q' fee_estimate_check_def
        str_upper_def ascii_upper_char_def)
  have "\<lceil>?raw * 100\<rceil> \<le> \<lceil>7 * p * (1 - p)\<rceil> * n" unfolding e100 using r(4) by (intro ceiling_mult_le) simp
  then have "(of_int \<lceil>?raw * 100\<rceil> :: rat) \<le> of_int (\<lceil>7 * p * (1 - p)\<rceil> * n)" by (simp only: of_int_le_iff)
  then have "of_int \<lceil>?raw * 100\<rceil> / 100 \<le> of_int n * cents_fee p" by (simp add: cents_fee_def mult.commute)
  moreover have "mk_fill_context
      \<lparr>fc_instrument_id = po_instrument_id r, fc_side = po_outcome_side r, fc_price = p,
       fc_quantity = of_int n, fc_liquidity = ''taker'', market_category = None\<rparr> =
      Inr \<lparr>fc_instrument_id = po_instrument_id r, fc_side = po_outcome_side r, fc_price = p,
       fc_quantity = of_int n, fc_liquidity = ''taker'', market_category = None\<rparr>"
    using t r(4) by (simp add: mk_fill_context_def fill_context_check_def)
  ultimately show ?thesis using est r by (auto simp: leg_cost_def algebra_simps)
qed

section \<open>Complete ladders\<close>

definition fresh_step :: "noarb_scanner \<Rightarrow> datetime \<Rightarrow> bracket \<Rightarrow> (string, leg_book) dict \<Rightarrow> (string, leg_book) dict" where
  "fresh_step sc now b out =
     (case dict_get (na_books sc) (br_market_id b) of
        None \<Rightarrow> out
      | Some lb \<Rightarrow> if leg_fresh sc now lb then dict_set (br_market_id b) lb out else out)"

definition fresh_leg :: "noarb_scanner \<Rightarrow> datetime \<Rightarrow> bracket \<Rightarrow> string \<times> leg_book \<Rightarrow> bool" where
  "fresh_leg sc now b kv \<longleftrightarrow>
     fst kv = br_market_id b \<and> dict_get (na_books sc) (br_market_id b) = Some (snd kv) \<and> leg_fresh sc now (snd kv)"

lemma fresh_books_fold: "fresh_books sc now = fold (fresh_step sc now) (na_brackets sc) []"
  unfolding fresh_books_def fresh_step_def [abs_def] ..

lemma fresh_step_cases:
  "fresh_step sc now b out = out \<or>
   (\<exists>lb. fresh_leg sc now b (br_market_id b, lb) \<and> fresh_step sc now b out = dict_set (br_market_id b) lb out)"
  by (auto simp: fresh_step_def fresh_leg_def split: option.splits)

lemma fresh_fold_length: "length (fold (fresh_step sc now) bs out) \<le> length out + length bs"
proof (induction bs arbitrary: out)
  case (Cons b bs)
  have "length (fresh_step sc now b out) \<le> Suc (length out)"
    using fresh_step_cases [of sc now b out] by (auto simp: length_dict_set)
  with Cons [of "fresh_step sc now b out"] show ?case by simp
qed simp

lemma fresh_fold_full:
  assumes "wf_dict out" and "length out + length bs \<le> length (fold (fresh_step sc now) bs out)"
  shows "\<exists>kvs. fold (fresh_step sc now) bs out = out @ kvs \<and> list_all2 (fresh_leg sc now) bs kvs \<and> wf_dict (out @ kvs)"
  using assms
proof (induction bs arbitrary: out)
  case Nil
  then show ?case by simp
next
  case (Cons b bs)
  let ?o = "fresh_step sc now b out"
  have "length (fold (fresh_step sc now) bs ?o) \<le> length ?o + length bs" by (rule fresh_fold_length)
  with Cons.prems(2) have more: "Suc (length out) \<le> length ?o" by simp
  then obtain lb where lb: "fresh_leg sc now b (br_market_id b, lb)" "?o = dict_set (br_market_id b) lb out"
    using fresh_step_cases [of sc now b out] by force
  with more have "br_market_id b \<notin> fst ` set out" by (auto simp: length_dict_set split: if_splits)
  then have o: "?o = out @ [(br_market_id b, lb)]" using lb(2) by (simp add: dict_set_fresh)
  have "wf_dict ?o" using Cons.prems(1) lb(2) by simp
  then obtain kvs where "fold (fresh_step sc now) bs ?o = ?o @ kvs" "list_all2 (fresh_leg sc now) bs kvs" "wf_dict (?o @ kvs)"
    using Cons.IH [of ?o] Cons.prems(2) o by auto
  then show ?case
    using lb(1) o by (intro exI [of _ "(br_market_id b, lb) # kvs"]) simp
qed

lemma fresh_books_full:
  assumes "length (na_brackets sc) \<le> length (fresh_books sc now)"
  shows "list_all2 (fresh_leg sc now) (na_brackets sc) (fresh_books sc now)" and "wf_dict (fresh_books sc now)"
    and "distinct (map br_market_id (na_brackets sc))"
proof -
  show l: "list_all2 (fresh_leg sc now) (na_brackets sc) (fresh_books sc now)" and w: "wf_dict (fresh_books sc now)"
    using fresh_fold_full [of "[]" "na_brackets sc" sc now] assms by (auto simp: fresh_books_fold)
  have "map fst (fresh_books sc now) = map br_market_id (na_brackets sc)"
    using l by (auto simp: list_all2_conv_all_nth fresh_leg_def intro!: nth_equalityI)
  with w show "distinct (map br_market_id (na_brackets sc))" by (simp add: wf_dict_def)
qed

section \<open>Locks\<close>

lemma scan_neighbours_no_order: "scan_neighbours m fresh bs = Inr ds \<Longrightarrow> PlaceOrder r \<notin> set ds"
  by (induction bs rule: induct_list012)
    (auto simp: bind_result_Inr_iff Let_def split: option.splits if_splits)

lemma scan_lock:
  assumes "scan uuid now sc = Inr ds" and "PlaceOrder r \<in> set ds"
  obtains a f where "length (na_brackets sc) \<le> length (fresh_books sc now)"
    and "na_ladder_kind sc = ''exclusive''" and "na_exclusive_gap sc = None"
    and "lock_totals (dict_values (fresh_books sc now)) = Inr (a, f)"
    and "na_min_edge_bps sc \<le> dmul (dsub (dsub 1 a) f) 10000"
    and "buy_legs uuid 0 sc (fresh_books sc now) (lock_size sc (fresh_books sc now))
           (dmul (dsub (dsub 1 a) f) 10000) (na_brackets sc) = Inr ds"
proof -
  note cases = assms(1)[unfolded scan_def Let_def]
  have full: "\<not> length (fresh_books sc now) < length (na_brackets sc)"
    using cases assms(2) by auto
  have kind: "na_ladder_kind sc = ''exclusive''"
  proof (rule ccontr)
    assume k: "na_ladder_kind sc \<noteq> ''exclusive''"
    then have "na_ladder_kind sc = ''cumulative''" using cases assms(2) full by (auto split: if_splits)
    then have "scan_cumulative sc (fresh_books sc now) = Inr ds" using cases full by simp
    then show False using scan_neighbours_no_order assms(2)
      unfolding scan_cumulative_def by (auto simp: bind_result_Inr_iff)
  qed
  then have ex: "scan_exclusive uuid sc (fresh_books sc now) = Inr ds" using cases full by simp
  then have gap: "na_exclusive_gap sc = None"
    using assms(2) by (auto simp: scan_exclusive_def split: option.splits)
  with ex obtain a f where af: "lock_totals (dict_values (fresh_books sc now)) = Inr (a, f)"
    and rest: "(if dmul (dsub (dsub 1 a) f) 10000 < na_min_edge_bps sc then Inr [NoAction ''no_lock:sum_ask='']
       else buy_legs uuid 0 sc (fresh_books sc now) (lock_size sc (fresh_books sc now))
           (dmul (dsub (dsub 1 a) f) 10000) (na_brackets sc)) = Inr ds"
    by (auto simp: scan_exclusive_def bind_result_Inr_iff Let_def)
  have "\<not> dmul (dsub (dsub 1 a) f) 10000 < na_min_edge_bps sc"
    using rest assms(2) by auto
  with rest full kind gap af that show ?thesis by auto
qed

lemma buy_legs_orders:
  assumes "buy_legs uuid i sc fresh lot bps bs = Inr ds" and "list_all2 (fresh_leg sc now) bs kvs"
    and "\<forall>kv \<in> set kvs. dict_get fresh (fst kv) = Some (snd kv)"
  shows "list_all2 (\<lambda>(b, kv) d. leg_order sc (lb_ask (snd kv)) lot (br_market_id b) d) (zip bs kvs) ds"
  using assms
proof (induction bs arbitrary: i ds kvs)
  case Nil
  then show ?case by simp
next
  case (Cons b bs)
  from Cons.prems(2) obtain kv kvs' where kv: "kvs = kv # kvs'" "fresh_leg sc now b kv" "list_all2 (fresh_leg sc now) bs kvs'"
    by (cases kvs) auto
  have "dict_get fresh (br_market_id b) = Some (snd kv)"
    using Cons.prems(3) kv(1,2) by (auto simp: fresh_leg_def)
  with Cons.prems(1) obtain d ds' where "buy_leg uuid i sc (br_market_id b) (snd kv) (lb_ask (snd kv)) lot bps = Inr d"
    and "buy_legs uuid (Suc i) sc fresh lot bps bs = Inr ds'" and "ds = d # ds'"
    by (auto simp: bind_result_Inr_iff)
  with Cons.IH [OF _ kv(3)] Cons.prems(3) kv(1) show ?case by (auto dest: buy_leg_order)
qed

lemma legs_lot:
  assumes "list_all2 (\<lambda>(b, kv) d. leg_order sc (lb_ask (snd kv)) lot (br_market_id b) d) xs ds" and "PlaceOrder r \<in> set ds"
  shows "lot = po_quantity r \<and> 0 < lot"
  using assms by (induction rule: list_all2_induct) (auto simp: leg_order_def)

definition tradable_books :: "noarb_scanner \<Rightarrow> bool" where
  "tradable_books sc \<longleftrightarrow> (\<forall>(k, lb) \<in> set (na_books sc). lb_yes_ask lb \<noteq> None \<longrightarrow> tradable (lb_ask lb))"

definition lock_price :: "leg_book list \<Rightarrow> decimal" where
  "lock_price lbs = sum_list (map lb_ask lbs) + sum_list (map (cents_fee \<circ> lb_ask) lbs)"

lemma lock_price_Cons: "lock_price (lb # lbs) = lb_ask lb + cents_fee (lb_ask lb) + lock_price lbs"
  by (simp add: lock_price_def)

lemma legs_cost_payout:
  assumes "list_all2 (\<lambda>(b, kv) d. leg_order sc (lb_ask (snd kv)) (of_int n) (br_market_id b) d) (zip bs kvs) ds"
    and "length bs = length kvs" and "\<forall>kv \<in> set kvs. tradable (lb_ask (snd kv))" and "n \<le> 1000000000"
    and "set bs \<subseteq> set all" and "distinct (map br_market_id all)"
  shows "\<exists>costs. list_all2 (\<lambda>d c. leg_cost d = Inr c) ds costs \<and>
      sum_list costs \<le> of_int n * lock_price (map snd kvs)"
    and "sum_list (map (leg_payout all v) ds) = of_int n * of_nat (length (filter (in_bracket v) bs))"
proof -
  have "(\<exists>costs. list_all2 (\<lambda>d c. leg_cost d = Inr c) ds costs \<and>
      sum_list costs \<le> of_int n * lock_price (map snd kvs)) \<and>
      sum_list (map (leg_payout all v) ds) = of_int n * of_nat (length (filter (in_bracket v) bs))"
    using assms(2,1,3,5)
  proof (induction bs kvs arbitrary: ds rule: list_induct2)
    case Nil
    then show ?case by (simp add: lock_price_def)
  next
    case (Cons b bs kv kvs)
    obtain d ds' where d: "ds = d # ds'" "leg_order sc (lb_ask (snd kv)) (of_int n) (br_market_id b) d"
      and rest: "list_all2 (\<lambda>(b, kv) d. leg_order sc (lb_ask (snd kv)) (of_int n) (br_market_id b) d) (zip bs kvs) ds'"
      using Cons.prems(1) by (auto simp: list_all2_Cons1)
    obtain c where c: "leg_cost d = Inr c" "c \<le> of_int n * (lb_ask (snd kv) + cents_fee (lb_ask (snd kv)))"
      using leg_cost_order [OF d(2) _ assms(4)] Cons.prems(2) by auto
    have "(\<exists>costs. list_all2 (\<lambda>d c. leg_cost d = Inr c) ds' costs \<and> sum_list costs \<le> of_int n * lock_price (map snd kvs)) \<and>
        sum_list (map (leg_payout all v) ds') = of_int n * of_nat (length (filter (in_bracket v) bs))"
      using Cons.prems(2,3) by (intro Cons.IH rest) auto
    then obtain costs where cs: "list_all2 (\<lambda>d c. leg_cost d = Inr c) ds' costs" "sum_list costs \<le> of_int n * lock_price (map snd kvs)"
      and pay: "sum_list (map (leg_payout all v) ds') = of_int n * of_nat (length (filter (in_bracket v) bs))"
      by blast
    have "leg_payout all v d = (if in_bracket v b then of_int n else 0)"
      using leg_payout_order [OF d(2) _ assms(6)] Cons.prems(3) by simp
    then have "sum_list (map (leg_payout all v) ds) = of_int n * of_nat (length (filter (in_bracket v) (b # bs)))"
      using pay d(1) by (simp add: distrib_left)
    moreover have "list_all2 (\<lambda>d c. leg_cost d = Inr c) ds (c # costs)" using c(1) cs(1) d(1) by simp
    moreover have "sum_list (c # costs) \<le> of_int n * lock_price (map snd (kv # kvs))"
      using add_mono [OF c(2) cs(2)] by (simp add: lock_price_Cons distrib_left)
    ultimately show ?case by blast
  qed
  then show "\<exists>costs. list_all2 (\<lambda>d c. leg_cost d = Inr c) ds costs \<and>
      sum_list costs \<le> of_int n * lock_price (map snd kvs)"
    "sum_list (map (leg_payout all v) ds) = of_int n * of_nat (length (filter (in_bracket v) bs))" by auto
qed

text \<open>The configuration of a scanner never changes.\<close>

definition noarb_run :: "((nat \<Rightarrow> string) \<times> datetime \<times> normalized_event) list \<Rightarrow> noarb_scanner \<Rightarrow> noarb_scanner" where
  "noarb_run history sc = fold (\<lambda>(uuid, now, e) s. snd (noarb_on_event uuid now e s)) history sc"

definition same_config :: "noarb_scanner \<Rightarrow> noarb_scanner \<Rightarrow> bool" where
  "same_config a b \<longleftrightarrow> na_brackets a = na_brackets b \<and> na_min_edge_bps a = na_min_edge_bps b \<and>
     na_ladder_kind a = na_ladder_kind b \<and> na_exclusive_gap a = na_exclusive_gap b"

lemma on_event_config: "same_config (snd (noarb_on_event uuid now e sc)) sc"
  by (cases e) (auto simp: same_config_def Let_def observe_quote_def split: prod.splits)

lemma run_config: "same_config (noarb_run history sc) sc"
proof (induction history arbitrary: sc)
  case (Cons h history)
  obtain uuid now e where h: "h = (uuid, now, e)" by (cases h)
  show ?case
    using Cons [of "snd (noarb_on_event uuid now e sc)"] on_event_config [of uuid now e sc]
    by (simp add: noarb_run_def h same_config_def)
qed (simp add: noarb_run_def same_config_def)

lemma new_scanner_gap:
  assumes "new_scanner raw kind min_edge lot age vn = Inr sc" and "na_ladder_kind sc = ''exclusive''"
  shows "exclusive_ladder_gap (na_brackets sc) = Inr (na_exclusive_gap sc)"
  using assms by (auto simp: new_scanner_def bind_result_Inr_iff)

lemma fresh_asks_tradable:
  assumes "list_all2 (fresh_leg sc now) bs fresh" and "tradable_books sc"
  shows "\<forall>kv \<in> set fresh. tradable (lb_ask (snd kv))"
proof
  fix kv
  assume "kv \<in> set fresh"
  then obtain b where "fresh_leg sc now b kv"
    using assms(1) by (auto simp: list_all2_conv_all_nth in_set_conv_nth)
  then show "tradable (lb_ask (snd kv))"
    using assms(2) by (force simp: tradable_books_def fresh_leg_def leg_fresh_def dest: map_of_SomeD)
qed

text \<open>The scanner's test, which rounds, implies the exact inequality on the price of the lock.\<close>

lemma lock_test_exact:
  assumes "lock_totals (dict_values fresh) = Inr (a, f)" and "min_edge \<le> dmul (dsub (dsub 1 a) f) 10000"
    and "\<forall>kv \<in> set fresh. tradable (lb_ask (snd kv))" and "length fresh \<le> 1000000"
  shows "lock_price (map snd fresh) \<le> 1 - min_edge / 10000"
proof -
  have asks: "\<forall>lb \<in> set (dict_values fresh). on_grid 4 (lb_ask lb) \<and> 0 \<le> lb_ask lb \<and> lb_ask lb \<le> 1"
    using assms(3) by (auto simp: dict_values_def tradable_def)
  have small: "length (dict_values fresh) \<le> 1000000"
    using assms(4) by (simp add: dict_values_def)
  note tot = lock_totals_exact [OF asks small]
  have "a = sum_list (map lb_ask (dict_values fresh))" "f = sum_list (map (cents_fee \<circ> lb_ask) (dict_values fresh))"
    using tot(1) assms(1) by simp_all
  with tot(2-7) small have "dmul (dsub (dsub 1 a) f) 10000 = (1 - lock_price (map snd fresh)) * 10000"
    by (subst lock_edge_exact) (auto simp: lock_price_def dict_values_def)
  then show ?thesis using assms(2) by simp
qed

lemma one_bracket_pays:
  assumes "exclusive_ladder_gap bs = Inr None" and "in_range v (sort_key br_lo bs)"
  shows "length (filter (in_bracket v) bs) = 1"
proof -
  have "first_gap (sort_key br_lo bs) = None"
    using assms(1) by (auto simp: exclusive_ladder_gap_def sorted_brackets_def bind_result_Inr_iff split: if_splits)
  then have "length (filter (in_bracket v) (sort_key br_lo bs)) = 1"
    using assms(2) by (intro ladder_tiles) auto
  moreover have "mset (filter (in_bracket v) (sort_key br_lo bs)) = mset (filter (in_bracket v) bs)" by simp
  ultimately show ?thesis by (metis size_mset)
qed

text \<open>
  A quote whose YES ask is a price of four decimals between one and ninety-nine cents: the ask of a
  YES quote, the complement of the bid of a NO quote.
\<close>

definition tradable_quote :: "normalized_event \<Rightarrow> bool" where
  "tradable_quote e =
     (case e of
        QuoteEvent eid q prov \<Rightarrow> pred_option (\<lambda>l. tradable (lvl_price l)) (if q_side q = YES then q_ask q else q_bid q)
      | _ \<Rightarrow> True)"

lemma tradable_complement: "tradable p \<Longrightarrow> tradable (dsub 1 p)"
proof -
  assume "tradable p"
  then have p: "on_grid 4 p" "1 / 100 \<le> p" "p \<le> 99 / 100" by (simp_all add: tradable_def)
  moreover have "on_grid 4 1" by (rule on_gridI [where n = 10000]) auto
  ultimately have "dsub 1 p = 1 - p" "on_grid 4 (1 - p)"
    using on_grid_between [of 4 1 p] dsub_grid [of 4 1 p] by auto
  with p show ?thesis by (simp add: tradable_def)
qed

lemma set_update_cases: "x \<in> set (AList.update k v al) \<Longrightarrow> x = (k, v) \<or> x \<in> set al"
  by (induction al) (auto split: if_splits)

lemma observe_quote_tradable:
  assumes "tradable_quote (QuoteEvent eid q prov)" and "tradable_books sc"
  shows "tradable_books (observe_quote eid q prov now sc)"
  using assms tradable_complement
  by (auto simp: tradable_books_def tradable_quote_def observe_quote_def yes_book_def lb_ask_def
      dest!: set_update_cases split: option.splits if_splits)

lemma on_event_tradable:
  "tradable_quote e \<Longrightarrow> tradable_books sc \<Longrightarrow> tradable_books (snd (noarb_on_event uuid now e sc))"
  by (cases e) (auto simp: Let_def intro: observe_quote_tradable)

lemma run_tradable:
  "list_all (\<lambda>(uuid, now, e). tradable_quote e) history \<Longrightarrow> tradable_books sc \<Longrightarrow>
   tradable_books (noarb_run history sc)"
proof (induction history arbitrary: sc)
  case (Cons h history)
  obtain uuid now e where h: "h = (uuid, now, e)" by (cases h)
  show ?case
    using Cons.IH [of "snd (noarb_on_event uuid now e sc)"] Cons.prems on_event_tradable [of e sc uuid now]
    by (simp add: noarb_run_def h)
qed (simp add: noarb_run_def)

lemma new_scanner_tradable: "new_scanner raw kind min_edge lot age vn = Inr sc \<Longrightarrow> tradable_books sc"
  by (auto simp: new_scanner_def bind_result_Inr_iff tradable_books_def)


text \<open>A ladder of two brackets whose asks leave eleven cents after fees.\<close>

definition demo_scanner :: noarb_scanner where
  "demo_scanner =
     \<lparr>na_brackets =
        [\<lparr>br_market_id = ''A'', br_lo = Finite 0, br_hi = Finite 50\<rparr>,
         \<lparr>br_market_id = ''B'', br_lo = Finite 50, br_hi = Finite 100\<rparr>],
      na_ladder_kind = ''exclusive'', na_min_edge_bps = 100, na_size = 5, na_max_quote_age = 30000000,
      na_venue = KALSHI, na_books = [], na_exclusive_gap = None\<rparr>"

definition demo_quote :: "string \<Rightarrow> decimal \<Rightarrow> normalized_event" where
  "demo_quote mid ask =
     QuoteEvent (''e-'' @ mid)
       \<lparr>q_instrument_id = \<lparr>iid_venue = KALSHI, market_id = mid, outcome_id = None\<rparr>, q_side = YES,
        q_bid = Some \<lparr>lvl_price = ask - 2 / 100, lvl_quantity = 9\<rparr>,
        q_ask = Some \<lparr>lvl_price = ask, lvl_quantity = 7\<rparr>, q_exchange_ts = None, q_received_at = utc 0\<rparr>
       default_provenance"

definition demo_history :: "((nat \<Rightarrow> string) \<times> datetime \<times> normalized_event) list" where
  "demo_history = [(\<lambda>i. ''x'', utc 1000000, demo_quote ''A'' (40 / 100))]"

definition demo_uuid :: "nat \<Rightarrow> string" where
  "demo_uuid i = (if i = 0 then ''leg-a'' else ''leg-b'')"

definition demo_answer :: "strategy_decision list result \<times> noarb_scanner" where
  "demo_answer = noarb_on_event demo_uuid (utc 2000000) (demo_quote ''B'' (45 / 100)) (noarb_run demo_history demo_scanner)"

text \<open>The demonstration's book of a market, after its quote.\<close>

definition demo_book :: "string \<Rightarrow> decimal \<Rightarrow> int \<Rightarrow> leg_book" where
  "demo_book mid ask t =
     (case demo_quote mid ask of
        QuoteEvent eid q prov \<Rightarrow>
          \<lparr>lb_yes_bid = Some (ask - 2 / 100), lb_yes_ask = Some ask, lb_ask_qty = Some 7, lb_event_id = eid,
           lb_quote = q, lb_provenance = prov, lb_seen_at = utc t\<rparr>)"

lemma demo_new_scanner: "new_scanner ''A:0:50;B:50:100'' ''Exclusive'' 100 5 30000000 ''kalshi'' = Inr demo_scanner"
  by code_simp

lemma demo_after: "snd demo_answer = demo_scanner
    \<lparr>na_books := [(''A'', demo_book ''A'' (40 / 100) 1000000), (''B'', demo_book ''B'' (45 / 100) 2000000)]\<rparr>"
  by (simp add: demo_answer_def noarb_run_def demo_history_def demo_quote_def observe_quote_def yes_book_def demo_scanner_def
      demo_book_def Let_def)

lemma buy_leg_returns:
  assumes "quantize round_half_up 4 ask = Inr fp" and "mid \<noteq> []" and "0 < lot" and "uuid i \<noteq> []"
    and "market_snapshot_from_quote_event (lb_event_id lb) (lb_quote lb) (lb_provenance lb) (Some YES) = Inr snap"
  shows "\<exists>r. buy_leg uuid i sc mid lb ask lot bps = Inr (PlaceOrder r) \<and> po_quantity r = lot"
proof -
  have "(0 :: rat) \<le> max (1 / 100) (min ask (99 / 100))" by (simp add: le_max_iff_disj)
  moreover have "max (1 / 100) (min ask (99 / 100)) \<le> (1 :: rat)" by (simp add: min_le_iff_disj)
  ultimately show ?thesis
    using assms
    by (simp add: buy_leg_def bind_result_Inr_iff clamp_default instrument_id_check_def mk_place_order_def place_order_check_def)
qed

lemma demo_snapshot:
  "\<exists>snap. market_snapshot_from_quote_event (lb_event_id (demo_book mid ask t)) (lb_quote (demo_book mid ask t))
     (lb_provenance (demo_book mid ask t)) (Some YES) = Inr snap"
  by (simp add: demo_book_def demo_quote_def market_snapshot_from_quote_event_def mk_market_snapshot_def
      market_snapshot_check_def default_provenance_def)

lemma demo_totals:
  "lock_totals [demo_book ''A'' (40 / 100) 1000000, demo_book ''B'' (45 / 100) 2000000] = Inr (85 / 100, 4 / 100)"
proof -
  have "cents_fee (40 / 100) = 2 / 100" "cents_fee (45 / 100) = 2 / 100" by code_simp+
  moreover have "lb_ask (demo_book mid p t) = p" for mid p t by (simp add: demo_book_def demo_quote_def lb_ask_def)
  ultimately show ?thesis
    by (subst lock_totals_exact(1)) (simp_all add: on_grid_def)
qed

lemma demo_answer_orders: "\<exists>ds r. fst demo_answer = Inr ds \<and> PlaceOrder r \<in> set ds \<and> po_quantity r = of_int 5"
proof -
  let ?sc = "snd demo_answer"
  have fst: "fst demo_answer = scan demo_uuid (utc 2000000) ?sc"
    by (simp add: demo_answer_def noarb_run_def demo_history_def demo_quote_def observe_quote_def yes_book_def demo_scanner_def Let_def)
  have fresh: "fresh_books ?sc (utc 2000000) =
      [(''A'', demo_book ''A'' (40 / 100) 1000000), (''B'', demo_book ''B'' (45 / 100) 2000000)]"
    unfolding demo_after
    by (simp add: fresh_books_def demo_scanner_def leg_fresh_def demo_book_def demo_quote_def dt_minus_def)
  have size: "lock_size ?sc (fresh_books ?sc (utc 2000000)) = 5"
    unfolding fresh by (simp add: demo_after lock_size_def demo_scanner_def demo_book_def demo_quote_def dict_values_def)
  have edge: "dmul (dsub (dsub 1 (85 / 100)) (4 / 100)) 10000 = 1100" by code_simp
  have ask: "lb_ask (demo_book mid p t) = p" for mid p t by (simp add: demo_book_def demo_quote_def lb_ask_def)
  have fp: "quantize round_half_up 4 (40 / 100) = Inr (40 / 100)" "quantize round_half_up 4 (45 / 100) = Inr (45 / 100)"
    by code_simp+
  obtain s1 s2 where snap:
    "market_snapshot_from_quote_event (lb_event_id (demo_book ''A'' (40 / 100) 1000000)) (lb_quote (demo_book ''A'' (40 / 100) 1000000))
       (lb_provenance (demo_book ''A'' (40 / 100) 1000000)) (Some YES) = Inr s1"
    "market_snapshot_from_quote_event (lb_event_id (demo_book ''B'' (45 / 100) 2000000)) (lb_quote (demo_book ''B'' (45 / 100) 2000000))
       (lb_provenance (demo_book ''B'' (45 / 100) 2000000)) (Some YES) = Inr s2"
    using demo_snapshot by metis
  obtain r1 where r1: "buy_leg demo_uuid 0 ?sc ''A'' (demo_book ''A'' (40 / 100) 1000000) (40 / 100) 5 1100 = Inr (PlaceOrder r1)"
    "po_quantity r1 = 5"
    using buy_leg_returns [OF fp(1) _ _ _ snap(1), of "''A''" 5 demo_uuid 0] by (auto simp: demo_uuid_def)
  obtain r2 where r2: "buy_leg demo_uuid (Suc 0) ?sc ''B'' (demo_book ''B'' (45 / 100) 2000000) (45 / 100) 5 1100 = Inr (PlaceOrder r2)"
    using buy_leg_returns [OF fp(2) _ _ _ snap(2), of "''B''" 5 demo_uuid "Suc 0"] by (auto simp: demo_uuid_def)
  have conf: "na_brackets ?sc = na_brackets demo_scanner" "na_min_edge_bps ?sc = 100" "na_ladder_kind ?sc = ''exclusive''"
    "na_exclusive_gap ?sc = None" and two: "length (na_brackets demo_scanner) = 2"
    by (simp_all add: demo_after demo_scanner_def)
  have "buy_legs demo_uuid 0 ?sc (fresh_books ?sc (utc 2000000)) 5 1100 (na_brackets ?sc) = Inr [PlaceOrder r1, PlaceOrder r2]"
    unfolding conf(1) fresh using r1(1) r2 by (simp add: demo_scanner_def ask)
  then have "scan demo_uuid (utc 2000000) ?sc = Inr [PlaceOrder r1, PlaceOrder r2]"
    using demo_totals edge size conf fresh
    by (simp add: scan_def scan_exclusive_def dict_values_def two del: buy_legs.simps)
  then show ?thesis using fst r1(2) by auto
qed

lemma demo_quotes:
  "list_all (\<lambda>(uuid, now, e). tradable_quote e) demo_history" "tradable_quote (demo_quote ''B'' (45 / 100))"
  by (simp_all add: demo_history_def tradable_quote_def demo_quote_def tradable_def on_grid_def)


end
