(* ===== verification/MarketData.thy ===== *)
theory MarketData
  imports BasicNormalizer NoArb
begin

text \<open>
  Market data from the venue to a strategy: what the Kalshi normalizer and the ladder scanner
  guarantee together.
\<close>

text \<open>One ticker message answers with a quote of each side; the NO quote is the YES quote mirrored.\<close>

lemma complement_twice: "on_grid 8 p \<Longrightarrow> 0 \<le> p \<Longrightarrow> p \<le> 1 \<Longrightarrow> dsub 1 (dsub 1 p) = p"
  using dsub_grid [of 8 1 p] on_grid_between [of 8 1 p] dsub_grid [of 8 1 "1 - p"] by (simp add: on_grid_def)

lemma km_level_Some: "km_level (Some p) q = Inr l \<Longrightarrow> \<exists>n. l = Some \<lparr>lvl_price = p, lvl_quantity = n\<rparr> \<and> 0 \<le> p \<and> p \<le> 1 \<and>
    n = (case q of None \<Rightarrow> 1 | Some x \<Rightarrow> if x = 0 then 1 else x)"
  by (auto simp: km_level_def bind_result_Inr_iff mk_level_Inr_iff level_check_iff)

lemma py_or_None: "py_or PyNone v = v"
  by (simp add: py_or_def)

lemma ticker_mirrored:
  assumes "ticker_numbers msg = Inr f"
    and "optional_decimal (pv_get msg ''yes_bid_dollars'') = Inr (Some b)" and "optional_decimal (pv_get msg ''yes_ask_dollars'') = Inr (Some a)"
    and "\<forall>k \<in> {''no_bid_dollars'', ''no_ask_dollars'', ''no_bid_size_fp'', ''no_ask_size_fp''}. pv_get msg k = PyNone"
  shows "tk_yes_bid f = Some b \<and> tk_yes_ask f = Some a \<and> tk_no_bid f = Some (dsub 1 a) \<and> tk_no_ask f = Some (dsub 1 b) \<and>
     tk_no_bid_size f = tk_yes_ask_size f \<and> tk_no_ask_size f = tk_yes_bid_size f"
proof -
  have none: "pv_get msg ''no_bid_dollars'' = PyNone" "pv_get msg ''no_ask_dollars'' = PyNone"
    "pv_get msg ''no_bid_size_fp'' = PyNone" "pv_get msg ''no_ask_size_fp'' = PyNone"
    using assms(4) by blast+
  have "optional_decimal PyNone = Inr None" by (simp add: optional_decimal_def)
  then show ?thesis
    using assms(1) unfolding ticker_numbers_def Let_def none assms(2,3)
    by (auto simp: bind_result_Inr_iff py_or_None invert_probability_def)
qed

text \<open>
  A Kalshi ticker that carries YES prices only reaches the ladder scanner unambiguously: of the
  two quotes the normalizer makes of it, the NO quote gives the scanner the same YES bid, ask and ask
  quantity as the YES quote, so the stored book does not depend on which of them arrives last.
\<close>

theorem ticker_quotes_agree:
  assumes "normalize_ticker so fi raw = Inr es" and "km_message raw = Inr msg"
    and "optional_decimal (pv_get msg ''yes_bid_dollars'') = Inr (Some b)" and "optional_decimal (pv_get msg ''yes_ask_dollars'') = Inr (Some a)"
    and "\<forall>k \<in> {''no_bid_dollars'', ''no_ask_dollars'', ''no_bid_size_fp'', ''no_ask_size_fp''}. pv_get msg k = PyNone"
    and "on_grid 8 a" and "on_grid 8 b"
  shows "\<exists>i q i' q' prov n. es = [QuoteEvent i q prov, QuoteEvent i' q' prov] \<and> q_side q = YES \<and> q_side q' = NO \<and>
     q_instrument_id q = q_instrument_id q' \<and> yes_book q = (Some b, Some a, Some n) \<and> yes_book q' = (Some b, Some a, Some n)"
proof -
  obtain iid ts f prov eid yes no where f: "ticker_numbers msg = Inr f"
    and yes: "ticker_quote (eid @ '':yes'') iid YES (tk_yes_bid f, tk_yes_bid_size f) (tk_yes_ask f, tk_yes_ask_size f)
       ts (raw_received_at raw) prov = Inr yes"
    and no: "ticker_quote (eid @ '':no'') iid NO (tk_no_bid f, tk_no_bid_size f) (tk_no_ask f, tk_no_ask_size f)
       ts (raw_received_at raw) prov = Inr no"
    and es: "es = yes @ no"
    using assms(1,2) by (auto simp: normalize_ticker_def bind_result_Inr_iff)
  note m = ticker_mirrored [OF f assms(3,4,5)]
  let ?n = "\<lambda>q :: decimal option. (case q of None \<Rightarrow> 1 | Some x \<Rightarrow> if x = 0 then 1 else x)"
  have p: "0 \<le> b" "b \<le> 1" "0 \<le> a" "a \<le> 1"
    and y: "yes = [QuoteEvent (eid @ '':yes'') \<lparr>q_instrument_id = iid, q_side = YES,
      q_bid = Some \<lparr>lvl_price = b, lvl_quantity = ?n (tk_yes_bid_size f)\<rparr>,
      q_ask = Some \<lparr>lvl_price = a, lvl_quantity = ?n (tk_yes_ask_size f)\<rparr>, q_exchange_ts = ts, q_received_at = raw_received_at raw\<rparr> prov]"
    using yes m by (auto simp: ticker_quote_def bind_result_Inr_iff Let_def checked_event_Inr dest!: km_level_Some)
  have n: "no = [QuoteEvent (eid @ '':no'') \<lparr>q_instrument_id = iid, q_side = NO,
      q_bid = Some \<lparr>lvl_price = dsub 1 a, lvl_quantity = ?n (tk_yes_ask_size f)\<rparr>,
      q_ask = Some \<lparr>lvl_price = dsub 1 b, lvl_quantity = ?n (tk_yes_bid_size f)\<rparr>, q_exchange_ts = ts, q_received_at = raw_received_at raw\<rparr> prov]"
    using no m by (auto simp: ticker_quote_def bind_result_Inr_iff Let_def checked_event_Inr dest!: km_level_Some)
  show ?thesis
    unfolding es y n using complement_twice [OF assms(6) p(3,4)] complement_twice [OF assms(7) p(1,2)]
    by (simp add: yes_book_def)
qed

definition demo_ticker :: event_envelope where
  "demo_ticker =
     \<lparr>raw_venue = Some KALSHI, raw_source = ''kalshi'', raw_channel = ''ticker'', raw_received_at = utc 0, raw_exchange_ts = None,
      raw_payload = [(''market_ticker'', PyStr ''M''), (''yes_bid_dollars'', PyStr ''0.40''), (''yes_ask_dollars'', PyStr ''0.43'')],
      raw_schema_version = ''kalshi-ws-v1'', raw_metadata = [(''source_sequence'', PyStr ''7'')]\<rparr>"

lemma demo_ticker_events: "map_sum id length (normalize_ticker demo_print demo_iso demo_ticker) = Inr 2"
  by code_simp

theorem ticker_quotes_agree_witness:
  "\<exists>i q i' q' prov n. normalize_ticker demo_print demo_iso demo_ticker = Inr [QuoteEvent i q prov, QuoteEvent i' q' prov] \<and>
     yes_book q = (Some (40 / 100), Some (43 / 100), Some n) \<and> yes_book q' = (Some (40 / 100), Some (43 / 100), Some n)"
proof -
  obtain es where es: "normalize_ticker demo_print demo_iso demo_ticker = Inr es"
    using demo_ticker_events by (cases "normalize_ticker demo_print demo_iso demo_ticker") auto
  have msg: "km_message demo_ticker = Inr (raw_payload demo_ticker)" by code_simp
  have p: "optional_decimal (pv_get (raw_payload demo_ticker) ''yes_bid_dollars'') = Inr (Some (40 / 100))"
    "optional_decimal (pv_get (raw_payload demo_ticker) ''yes_ask_dollars'') = Inr (Some (43 / 100))"
    "on_grid 8 (43 / 100)" "on_grid 8 (40 / 100)"
    by code_simp+
  have none: "\<forall>k \<in> {''no_bid_dollars'', ''no_ask_dollars'', ''no_bid_size_fp'', ''no_ask_size_fp''}. pv_get (raw_payload demo_ticker) k = PyNone"
    by code_simp
  from ticker_quotes_agree [OF es msg p(1,2) none p(3,4)] es show ?thesis by auto
qed

end
