(* ===== verification/SignalStrategies.thy ===== *)
theory SignalStrategies
  imports StrategyTools
begin

text \<open>
  The signal-triggered strategies of \<open>plugins/strategies\<close>: an external producer publishes a YES
  probability for a market, the strategy compares it with the YES mid it cached from the market's
  last two-sided quote (or book) and buys the underpriced side. Four of them (\<open>external_edge\<close>,
  \<open>entertainment_box_office\<close>, \<open>flu_hospitalization_surge\<close>, \<open>crop_drought_yield_reversion\<close>) also cache
  the quote and attach it to the order as a snapshot; six (\<open>court_docket_timing\<close>,
  \<open>earnings_guidance_language\<close>, \<open>wildfire_smoke_event_cancel\<close>, \<open>spaceweather_grid_disruption\<close>,
  \<open>energy_storage_weather_spread\<close>, \<open>liquidity_tail_risk_insurance\<close>) do not. The classes repeat one
  another's helpers; here each helper is one definition, and a class is a record with its handler.
  The uuid of an order is an argument. A reason is kept up to the first value printed in it.
\<close>

section \<open>The cached market data\<close>

record signal_strategy =
  sg_signal_source :: string
  sg_min_edge_bps :: decimal
  sg_size :: decimal
  sg_venue :: venue
  sg_mids :: "(string, decimal) dict"

record quoted_strategy = signal_strategy +
  sg_quotes :: "(string, string \<times> quote \<times> event_provenance) dict"

definition set_mid :: "string \<Rightarrow> decimal option \<Rightarrow> 'a signal_strategy_scheme \<Rightarrow> 'a signal_strategy_scheme" where
  "set_mid m mid st = (case mid of None \<Rightarrow> st | Some x \<Rightarrow> st\<lparr>sg_mids := dict_set m x (sg_mids st)\<rparr>)"

definition observe_mid :: "quote \<Rightarrow> 'a signal_strategy_scheme \<Rightarrow> 'a signal_strategy_scheme" where
  "observe_mid q st = set_mid (market_id (q_instrument_id q)) (yes_mid q) st"

definition observe_quoted ::
  "string \<Rightarrow> quote \<Rightarrow> event_provenance \<Rightarrow> 'a quoted_strategy_scheme \<Rightarrow> 'a quoted_strategy_scheme" where
  "observe_quoted eid q prov st =
     (case yes_mid q of
        None \<Rightarrow> st
      | Some mid \<Rightarrow>
          let m = market_id (q_instrument_id q)
          in st\<lparr>sg_mids := dict_set m mid (sg_mids st), sg_quotes := dict_set m (eid, q, prov) (sg_quotes st)\<rparr>)"

definition yes_mid_from_book :: "order_book \<Rightarrow> decimal option" where
  "yes_mid_from_book b =
     (case (yes_bids b, yes_asks b) of
        (bid # _, ask # _) \<Rightarrow> Some (ddiv (dadd (lvl_price bid) (lvl_price ask)) 2)
      | _ \<Rightarrow> None)"

section \<open>From a probability to an order\<close>

definition edge_bps :: "decimal \<Rightarrow> decimal \<Rightarrow> decimal" where
  "edge_bps prob mid = dmul (dsub prob mid) 10000"

definition signal_side :: "decimal \<Rightarrow> outcome_side" where
  "signal_side edge = (if 0 < edge then YES else NO)"

text \<open>The cached mid of the market, the threshold on the edge, then the order.\<close>

definition trade_edge ::
  "string \<Rightarrow> 'a signal_strategy_scheme \<Rightarrow> string \<Rightarrow> decimal \<Rightarrow> (decimal \<Rightarrow> decimal \<Rightarrow> place_order result) \<Rightarrow>
   strategy_decision list result" where
  "trade_edge no_mid st m prob place =
     (case dict_get (sg_mids st) m of
        None \<Rightarrow> Inr [NoAction no_mid]
      | Some mid \<Rightarrow>
          let edge = edge_bps prob mid
          in if \<bar>edge\<bar> < sg_min_edge_bps st then Inr [NoAction ''edge_below_threshold'']
             else bind_result (place mid edge) (\<lambda>d. Inr [PlaceOrder d]))"

definition signal_instrument :: "'a signal_strategy_scheme \<Rightarrow> string \<Rightarrow> instrument_id result" where
  "signal_instrument st m =
     (let iid = \<lparr>iid_venue = sg_venue st, market_id = m, outcome_id = None\<rparr> in validated (instrument_id_check iid) iid)"

definition tier_priority :: "latency_tier \<Rightarrow> execution_priority" where
  "tier_priority tier = DEFAULT_EXECUTION_PRIORITY\<lparr>prio_tier := tier\<rparr>"

definition signal_order ::
  "string \<Rightarrow> 'a signal_strategy_scheme \<Rightarrow> instrument_id \<Rightarrow> decimal \<Rightarrow> decimal \<Rightarrow> market_snapshot option \<Rightarrow> string \<Rightarrow>
   latency_tier \<Rightarrow> frozen_map \<Rightarrow> place_order" where
  "signal_order uuid st iid edge price snap reason tier metadata =
     \<lparr>po_client_order_id = uuid, po_instrument_id = iid, po_outcome_side = signal_side edge, po_order_side = BUY,
      po_order_type = LIMIT, po_time_in_force = GTC, po_quantity = sg_size st, po_price = Some price,
      po_expires_at = None, po_market_snapshot = snap, po_reason = reason, po_expected_edge_bps = Some edge,
      po_priority = Some (tier_priority tier), po_metadata = metadata\<rparr>"

definition cached_snapshot :: "'a quoted_strategy_scheme \<Rightarrow> string \<Rightarrow> outcome_side \<Rightarrow> market_snapshot option result" where
  "cached_snapshot st m side =
     (case dict_get (sg_quotes st) m of
        None \<Rightarrow> Inr None
      | Some (eid, q, prov) \<Rightarrow>
          bind_result (market_snapshot_from_quote_event eid q prov (Some side)) (\<lambda>s. Inr (Some s)))"

text \<open>\<open>_place\<close> of the strategies that cache the quote, from the printed fair price on.\<close>

definition place_quoted ::
  "string \<Rightarrow> 'a quoted_strategy_scheme \<Rightarrow> string \<Rightarrow> string \<Rightarrow> pyval \<Rightarrow> decimal \<Rightarrow> decimal \<Rightarrow> place_order result" where
  "place_quoted uuid st m reason fair_price mid edge =
     (let side = signal_side edge
      in bind_result (cached_snapshot st m side) (\<lambda>snap.
         bind_result (signal_instrument st m) (\<lambda>iid.
         bind_result (buy_limit_from_fair (for_side side mid) DEFAULT_TICK) (\<lambda>price.
           mk_place_order (signal_order uuid st iid edge price snap reason RELAXED
             [(''fair_price'', fair_price), (''min_executable_edge_ticks'', PyStr (str_int (sg_min_edge_bps st))),
              (''fee_rate_bps'', PyStr ''700'')])))))"

text \<open>\<open>_place\<close> of \<open>external_edge\<close> and \<open>entertainment_box_office\<close>: the fair price on the venue's four decimals.\<close>

definition place_from_prob ::
  "string \<Rightarrow> 'a quoted_strategy_scheme \<Rightarrow> string \<Rightarrow> string \<Rightarrow> decimal \<Rightarrow> decimal \<Rightarrow> decimal \<Rightarrow> place_order result" where
  "place_from_prob uuid st m reason prob mid edge =
     bind_result (quantize round_half_up 4 (for_side (signal_side edge) prob)) (\<lambda>fair.
       place_quoted uuid st m reason (PyStr (str_fixed4 fair)) mid edge)"

text \<open>
  \<open>_place\<close> of the flu and the crop strategy: the probability is recovered from the edge. The printed
  fair price is kept as the decimal that it prints.
\<close>

definition place_from_edge ::
  "string \<Rightarrow> 'a quoted_strategy_scheme \<Rightarrow> string \<Rightarrow> string \<Rightarrow> decimal \<Rightarrow> decimal \<Rightarrow> place_order result" where
  "place_from_edge uuid st m reason mid edge =
     place_quoted uuid st m reason
       (PyDecimal (for_side (signal_side edge) (dadd mid (ddiv edge 10000)))) mid edge"

text \<open>\<open>_place\<close> of the strategies that cache no quote.\<close>

definition clip :: "decimal \<Rightarrow> decimal" where
  "clip x = max (1 / 100) (min (99 / 100) x)"

definition place_unquoted ::
  "latency_tier \<Rightarrow> string \<Rightarrow> 'a signal_strategy_scheme \<Rightarrow> string \<Rightarrow> string \<Rightarrow> decimal \<Rightarrow> decimal \<Rightarrow> place_order result" where
  "place_unquoted tier uuid st m reason mid edge =
     bind_result (signal_instrument st m) (\<lambda>iid.
       mk_place_order (signal_order uuid st iid edge (clip (for_side (signal_side edge) mid)) None reason tier []))"

text \<open>
  The shape all handlers share: a quote updates the caches, a signal of the configured source is
  acted on, anything else is ignored.
\<close>

definition on_signal ::
  "string \<Rightarrow> (string \<Rightarrow> quote \<Rightarrow> event_provenance \<Rightarrow> 'a signal_strategy_scheme \<Rightarrow> 'a signal_strategy_scheme) \<Rightarrow>
   (frozen_map \<Rightarrow> 'a signal_strategy_scheme \<Rightarrow> strategy_decision list result) \<Rightarrow>
   normalized_event \<Rightarrow> 'a signal_strategy_scheme \<Rightarrow> strategy_decision list result \<times> 'a signal_strategy_scheme" where
  "on_signal ignored observe act e st =
     (case e of
        QuoteEvent eid q prov \<Rightarrow> (Inr [NoAction ''quote_mid_updated''], observe eid q prov st)
      | ExternalSignalEvent eid x prov \<Rightarrow>
          if ext_source x \<noteq> sg_signal_source st then (Inr [NoAction ignored], st) else (act (ext_payload x) st, st)
      | _ \<Rightarrow> (Inr [NoAction ignored], st))"

section \<open>\<open>external_edge\<close>\<close>

record external_edge = quoted_strategy +
  ee_confidence_floor :: decimal

definition PROB_KEYS :: "string list" where
  "PROB_KEYS = [''probability'', ''implied_prob'', ''prob'', ''yes_probability'']"

fun first_decimal :: "frozen_map \<Rightarrow> string list \<Rightarrow> dec_literal option" where
  "first_decimal payload [] = None"
| "first_decimal payload (key # keys) =
     (case signal_decimal (payload_get payload key) of Some d \<Rightarrow> Some d | None \<Rightarrow> first_decimal payload keys)"

text \<open>The confidence gate: the reason it stops the signal for, if any.\<close>

definition confidence_gate :: "decimal \<Rightarrow> dec_literal option \<Rightarrow> string option result" where
  "confidence_gate lowest confidence =
     (if 0 < lowest
      then case confidence of
             None \<Rightarrow> Inr (Some ''confidence_missing_fail_closed'')
           | Some c \<Rightarrow> bind_result (literal_less c lowest) (\<lambda>low. Inr (if low then Some ''confidence_below_floor'' else None))
      else Inr None)"

fun finite_part :: "dec_literal \<Rightarrow> decimal" where
  "finite_part (Finite x) = x"
| "finite_part _ = 0"

definition external_edge_signal :: "string \<Rightarrow> frozen_map \<Rightarrow> external_edge \<Rightarrow> strategy_decision list result" where
  "external_edge_signal uuid payload st =
     (case signal_market_id payload of
        None \<Rightarrow> Inr [NoAction ''censored:missing_market_id'']
      | Some m \<Rightarrow>
          (case first_decimal payload PROB_KEYS of
             None \<Rightarrow> Inr [NoAction ''warmup:no_probability_in_payload'']
           | Some prob \<Rightarrow>
               bind_result (in_unit prob) (\<lambda>ok.
                 if \<not> ok then Inr [NoAction ''censored:probability_out_of_range'']
                 else bind_result (confidence_gate (ee_confidence_floor st) (signal_decimal (payload_get payload ''confidence'')))
                   (\<lambda>gate. case gate of
                      Some reason \<Rightarrow> Inr [NoAction reason]
                    | None \<Rightarrow>
                        trade_edge ''warmup:no_quote_mid'' st m (finite_part prob)
                          (place_from_prob uuid st m ''external_edge prob='' (finite_part prob))))))"

definition external_edge_on_event ::
  "string \<Rightarrow> normalized_event \<Rightarrow> external_edge \<Rightarrow> strategy_decision list result \<times> external_edge" where
  "external_edge_on_event uuid = on_signal ''ignored:not_external_edge_signal'' observe_quoted (external_edge_signal uuid)"

definition new_external_edge :: "(pyval \<Rightarrow> string) \<Rightarrow> frozen_map \<Rightarrow> external_edge result" where
  "new_external_edge str_other params =
     bind_result (decimal_param params ''min_edge_bps'' 250) (\<lambda>min_edge.
     bind_result (decimal_param params ''size'' 5) (\<lambda>lot.
     bind_result (case frozen_get params ''confidence_floor'' of
                    Some v \<Rightarrow> finite_decimal v | None \<Rightarrow> decimal_param params ''min_confidence'' 0) (\<lambda>lowest.
     bind_result (venue_of_string (str_param str_other params ''venue'' ''kalshi'')) (\<lambda>v.
       Inr \<lparr>sg_signal_source = str_param str_other params ''signal_source'' ''external'', sg_min_edge_bps = min_edge,
            sg_size = lot, sg_venue = v, sg_mids = [], sg_quotes = [], ee_confidence_floor = lowest\<rparr>))))"

section \<open>\<open>entertainment_box_office\<close>\<close>

record box_office = quoted_strategy +
  bo_market_id :: string
  bo_target_gross :: decimal
  bo_baseline_gross :: decimal
  bo_extrapolation_hours :: decimal
  bo_confidence_floor :: decimal

text \<open>
  Arithmetic on the signal's numbers: an infinity times zero, and infinities of different sign
  added, raise. (A signaling NaN, which raises here, is read as a quiet one.)
\<close>

fun literal_times :: "dec_literal \<Rightarrow> decimal \<Rightarrow> dec_literal result" where
  "literal_times (Finite x) c = Inr (Finite (dmul x c))"
| "literal_times (Infinite neg) c = (if c = 0 then Inl InvalidOperation else Inr (Infinite (neg \<noteq> (c < 0))))"
| "literal_times NaN c = Inr NaN"

fun literal_plus :: "dec_literal \<Rightarrow> dec_literal \<Rightarrow> dec_literal result" where
  "literal_plus NaN d = Inr NaN"
| "literal_plus d NaN = Inr NaN"
| "literal_plus (Finite x) (Finite y) = Inr (Finite (dadd x y))"
| "literal_plus (Infinite a) (Infinite b) = (if a = b then Inr (Infinite a) else Inl InvalidOperation)"
| "literal_plus (Infinite a) (Finite y) = Inr (Infinite a)"
| "literal_plus (Finite x) (Infinite b) = Inr (Infinite b)"

fun ratio_to_prob :: "dec_literal \<Rightarrow> decimal result" where
  "ratio_to_prob (Finite ratio) =
     Inr (if ratio \<le> 1 / 2 then 5 / 100 else if ratio \<ge> 3 / 2 then 95 / 100
          else dadd (5 / 100) (dmul (dsub ratio (1 / 2)) (9 / 10)))"
| "ratio_to_prob (Infinite neg) = Inr (if neg then 5 / 100 else 95 / 100)"
| "ratio_to_prob NaN = Inl InvalidOperation"

definition gross_to_prob :: "box_office \<Rightarrow> dec_literal \<Rightarrow> decimal result" where
  "gross_to_prob st extrapolated =
     ratio_to_prob
       (if 0 < bo_target_gross st
        then case extrapolated of Finite x \<Rightarrow> Finite (ddiv x (bo_target_gross st)) | d \<Rightarrow> d
        else Finite 0)"

definition box_office_signal :: "string \<Rightarrow> frozen_map \<Rightarrow> box_office \<Rightarrow> strategy_decision list result" where
  "box_office_signal uuid payload st =
     (case signal_market_id payload of
        None \<Rightarrow> Inr [NoAction ''censored:missing_or_unmatched_market'']
      | Some m \<Rightarrow>
          if bo_market_id st \<noteq> [] \<and> m \<noteq> bo_market_id st
          then Inr [NoAction ''censored:missing_or_unmatched_market'']
          else let confidence = (case signal_decimal (payload_get payload ''confidence'') of None \<Rightarrow> Finite 0 | Some c \<Rightarrow> c)
               in case (signal_decimal (payload_get payload ''seat_occupancy_pct''),
                        signal_decimal (payload_get payload ''ticket_velocity_per_hour'')) of
                    (Some occ, Some velocity) \<Rightarrow>
                      bind_result (literal_less confidence (bo_confidence_floor st)) (\<lambda>low.
                        if low then Inr [NoAction ''confidence_below_floor'']
                        else if dict_get (sg_mids st) m = None then Inr [NoAction ''warmup:no_quote_mid'']
                        else bind_result (literal_times occ (bo_baseline_gross st)) (\<lambda>seats.
                             bind_result (literal_times velocity (bo_extrapolation_hours st)) (\<lambda>sales.
                             bind_result (literal_plus seats sales) (\<lambda>extrapolated.
                             bind_result (gross_to_prob st extrapolated) (\<lambda>prob.
                               trade_edge ''warmup:no_quote_mid'' st m prob
                                 (place_from_prob uuid st m ''box_office prob='' prob))))))
                  | _ \<Rightarrow> Inr [NoAction ''warmup:insufficient_signal''])"

definition box_office_on_event ::
  "string \<Rightarrow> normalized_event \<Rightarrow> box_office \<Rightarrow> strategy_decision list result \<times> box_office" where
  "box_office_on_event uuid = on_signal ''ignored:not_box_office_signal'' observe_quoted (box_office_signal uuid)"

definition new_box_office :: "(pyval \<Rightarrow> string) \<Rightarrow> frozen_map \<Rightarrow> box_office result" where
  "new_box_office str_other params =
     bind_result (case frozen_get params ''target_gross_usd'' of
                    None \<Rightarrow> Inl (KeyError ''target_gross_usd'') | Some v \<Rightarrow> finite_decimal v) (\<lambda>target.
     bind_result (decimal_param params ''baseline_gross_usd'' 1000000) (\<lambda>baseline.
     bind_result (decimal_param params ''extrapolation_hours'' 48) (\<lambda>hours.
     bind_result (decimal_param params ''min_edge_bps'' 500) (\<lambda>min_edge.
     bind_result (decimal_param params ''confidence_floor'' (8 / 10)) (\<lambda>lowest.
     bind_result (decimal_param params ''size'' 10) (\<lambda>lot.
     bind_result (venue_of_string (str_param str_other params ''venue'' ''kalshi'')) (\<lambda>v.
       Inr \<lparr>sg_signal_source = str_param str_other params ''signal_source'' ''apify-fandango'', sg_min_edge_bps = min_edge,
            sg_size = lot, sg_venue = v, sg_mids = [], sg_quotes = [],
            bo_market_id = str_param str_other params ''market_id'' [], bo_target_gross = target,
            bo_baseline_gross = baseline, bo_extrapolation_hours = hours, bo_confidence_floor = lowest\<rparr>)))))))"

section \<open>\<open>flu_hospitalization_surge\<close> and \<open>crop_drought_yield_reversion\<close>\<close>

definition flu_signal :: "string \<Rightarrow> frozen_map \<Rightarrow> quoted_strategy \<Rightarrow> strategy_decision list result" where
  "flu_signal uuid payload st =
     (case (signal_market_id payload, bounded_or_none (payload_get payload ''surge_probability'')) of
        (Some m, Some prob) \<Rightarrow>
          trade_edge ''warmup:no_quote_mid'' st m prob (place_from_edge uuid st m ''flu_surge region='')
      | _ \<Rightarrow> Inr [NoAction ''censored:missing_market_or_probability''])"

definition flu_on_event ::
  "string \<Rightarrow> normalized_event \<Rightarrow> quoted_strategy \<Rightarrow> strategy_decision list result \<times> quoted_strategy" where
  "flu_on_event uuid = on_signal ''ignored:not_health_signal'' observe_quoted (flu_signal uuid)"

definition new_flu :: "(pyval \<Rightarrow> string) \<Rightarrow> frozen_map \<Rightarrow> quoted_strategy result" where
  "new_flu str_other params =
     bind_result (decimal_param params ''min_edge_bps'' 150) (\<lambda>min_edge.
     bind_result (decimal_param params ''size'' 3) (\<lambda>lot.
     bind_result (venue_of_string (str_param str_other params ''venue'' ''kalshi'')) (\<lambda>v.
       Inr \<lparr>sg_signal_source = str_param str_other params ''signal_source'' ''public-health-nowcast'',
            sg_min_edge_bps = min_edge, sg_size = lot, sg_venue = v, sg_mids = [], sg_quotes = []\<rparr>)))"

record crop = quoted_strategy +
  cr_min_confidence :: decimal

definition crop_signal :: "string \<Rightarrow> frozen_map \<Rightarrow> crop \<Rightarrow> strategy_decision list result" where
  "crop_signal uuid payload st =
     (let confidence = (case bounded_or_none (payload_get payload ''confidence'') of None \<Rightarrow> 0 | Some c \<Rightarrow> c)
      in case (signal_market_id payload, bounded_or_none (payload_get payload ''yield_reversion_probability'')) of
           (Some m, Some prob) \<Rightarrow>
             if confidence < cr_min_confidence st then Inr [NoAction ''confidence_too_low'']
             else trade_edge ''warmup:no_quote_mid'' st m prob (place_from_edge uuid st m ''crop_reversion prob='')
         | _ \<Rightarrow> Inr [NoAction ''censored:missing_market_or_probability''])"

definition crop_on_event :: "string \<Rightarrow> normalized_event \<Rightarrow> crop \<Rightarrow> strategy_decision list result \<times> crop" where
  "crop_on_event uuid = on_signal ''ignored:not_crop_signal'' observe_quoted (crop_signal uuid)"

definition new_crop :: "(pyval \<Rightarrow> string) \<Rightarrow> frozen_map \<Rightarrow> crop result" where
  "new_crop str_other params =
     bind_result (decimal_param params ''min_edge_bps'' 130) (\<lambda>min_edge.
     bind_result (decimal_param params ''min_confidence'' (55 / 100)) (\<lambda>lowest.
     bind_result (decimal_param params ''size'' 3) (\<lambda>lot.
     bind_result (venue_of_string (str_param str_other params ''venue'' ''kalshi'')) (\<lambda>v.
       Inr \<lparr>sg_signal_source = str_param str_other params ''signal_source'' ''crop-water-balance'',
            sg_min_edge_bps = min_edge, sg_size = lot, sg_venue = v, sg_mids = [], sg_quotes = [],
            cr_min_confidence = lowest\<rparr>))))"

section \<open>Four strategies that cache only the mid\<close>

text \<open>
  They differ in the names of the payload's values, in the filter they apply to a second value of
  the payload and in their texts: \<open>sf_key\<close> names the filtered value, \<open>sf_absolute\<close> says whether its
  absolute value is compared, and \<open>sf_too_low\<close> is the answer when it is below the minimum.
\<close>

record signal_filter =
  sf_ignored :: string
  sf_prob :: string
  sf_key :: string
  sf_absolute :: bool
  sf_too_low :: string
  sf_reason :: string

record filtered_strategy = signal_strategy +
  fs_minimum :: decimal

definition filtered_signal :: "signal_filter \<Rightarrow> string \<Rightarrow> frozen_map \<Rightarrow> filtered_strategy \<Rightarrow> strategy_decision list result" where
  "filtered_signal f uuid payload st =
     bind_result (bounded_decimal (payload_get payload (sf_prob f))) (\<lambda>probability.
       let x = (case signal_decimal (payload_get payload (sf_key f)) of None \<Rightarrow> Finite 0 | Some d \<Rightarrow> d)
       in case (signal_market_id payload, probability) of
            (Some m, Some prob) \<Rightarrow>
              bind_result (literal_less (if sf_absolute f then literal_abs x else x) (fs_minimum st)) (\<lambda>low.
                if low then Inr [NoAction (sf_too_low f)]
                else trade_edge ''warmup:no_quote_mid'' st m prob (place_unquoted RELAXED uuid st m (sf_reason f)))
          | _ \<Rightarrow> Inr [NoAction ''censored:missing_market_or_probability''])"

definition filtered_on_event ::
  "signal_filter \<Rightarrow> string \<Rightarrow> normalized_event \<Rightarrow> filtered_strategy \<Rightarrow> strategy_decision list result \<times> filtered_strategy" where
  "filtered_on_event f uuid = on_signal (sf_ignored f) (\<lambda>eid q prov. observe_mid q) (filtered_signal f uuid)"

definition docket_filter :: signal_filter where
  "docket_filter =
     \<lparr>sf_ignored = ''ignored:not_docket_signal'', sf_prob = ''timing_probability'', sf_key = ''docket_intensity'',
      sf_absolute = False, sf_too_low = ''docket_intensity_too_low'', sf_reason = ''docket_timing case=''\<rparr>"

definition earnings_filter :: signal_filter where
  "earnings_filter =
     \<lparr>sf_ignored = ''ignored:not_earnings_signal'', sf_prob = ''event_probability'', sf_key = ''language_surprise_z'',
      sf_absolute = True, sf_too_low = ''language_surprise_too_small'', sf_reason = ''earnings_language ticker=''\<rparr>"

definition wildfire_filter :: signal_filter where
  "wildfire_filter =
     \<lparr>sf_ignored = ''ignored:not_smoke_signal'', sf_prob = ''impact_probability'', sf_key = ''forecast_aqi'',
      sf_absolute = False, sf_too_low = ''aqi_filter_not_met'', sf_reason = ''wildfire_smoke location=''\<rparr>"

definition spaceweather_filter :: signal_filter where
  "spaceweather_filter =
     \<lparr>sf_ignored = ''ignored:not_spaceweather_signal'', sf_prob = ''disruption_probability'', sf_key = ''kp_nowcast'',
      sf_absolute = False, sf_too_low = ''kp_filter_not_met'', sf_reason = ''spaceweather kp=''\<rparr>"

text \<open>Their constructors: the defaults of the source, the minimum edge, the minimum of the filter and the size.\<close>

definition new_filtered ::
  "string \<Rightarrow> decimal \<Rightarrow> string \<Rightarrow> decimal \<Rightarrow> decimal \<Rightarrow> (pyval \<Rightarrow> string) \<Rightarrow> frozen_map \<Rightarrow> filtered_strategy result" where
  "new_filtered source min_edge_default minimum_key minimum_default size_default str_other params =
     bind_result (decimal_param params ''min_edge_bps'' min_edge_default) (\<lambda>min_edge.
     bind_result (decimal_param params minimum_key minimum_default) (\<lambda>minimum.
     bind_result (decimal_param params ''size'' size_default) (\<lambda>lot.
     bind_result (venue_of_string (str_param str_other params ''venue'' ''kalshi'')) (\<lambda>v.
       Inr \<lparr>sg_signal_source = str_param str_other params ''signal_source'' source, sg_min_edge_bps = min_edge,
            sg_size = lot, sg_venue = v, sg_mids = [], fs_minimum = minimum\<rparr>))))"

definition new_docket :: "(pyval \<Rightarrow> string) \<Rightarrow> frozen_map \<Rightarrow> filtered_strategy result" where
  "new_docket = new_filtered ''court-docket'' 110 ''min_docket_intensity'' (1 / 2) 4"

definition new_earnings :: "(pyval \<Rightarrow> string) \<Rightarrow> frozen_map \<Rightarrow> filtered_strategy result" where
  "new_earnings = new_filtered ''earnings-nlp'' 150 ''min_surprise_z'' (75 / 100) 3"

definition new_wildfire :: "(pyval \<Rightarrow> string) \<Rightarrow> frozen_map \<Rightarrow> filtered_strategy result" where
  "new_wildfire = new_filtered ''smoke-plume'' 140 ''min_aqi_forecast'' 100 3"

definition new_spaceweather :: "(pyval \<Rightarrow> string) \<Rightarrow> frozen_map \<Rightarrow> filtered_strategy result" where
  "new_spaceweather = new_filtered ''swpc-nowcast'' 120 ''min_kp_nowcast'' 5 3"

section \<open>\<open>energy_storage_weather_spread\<close>\<close>

definition energy_signal :: "string \<Rightarrow> frozen_map \<Rightarrow> signal_strategy \<Rightarrow> strategy_decision list result" where
  "energy_signal uuid payload st =
     (case (signal_market_id payload, bounded_or_none (payload_get payload ''stress_probability'')) of
        (Some m, Some prob) \<Rightarrow>
          trade_edge ''warmup:no_market_mid'' st m prob (place_unquoted RELAXED uuid st m ''grid_stress prob='')
      | _ \<Rightarrow> Inr [NoAction ''censored:missing_market_or_probability''])"

definition energy_on_event ::
  "string \<Rightarrow> normalized_event \<Rightarrow> signal_strategy \<Rightarrow> strategy_decision list result \<times> signal_strategy" where
  "energy_on_event uuid e st =
     (case e of
        OrderBookEvent eid b prov \<Rightarrow>
          (Inr [NoAction ''book_mid_updated''], set_mid (market_id (bk_instrument_id b)) (yes_mid_from_book b) st)
      | _ \<Rightarrow> on_signal ''ignored:not_grid_signal'' (\<lambda>eid q prov. observe_mid q) (energy_signal uuid) e st)"

definition new_energy :: "(pyval \<Rightarrow> string) \<Rightarrow> frozen_map \<Rightarrow> signal_strategy result" where
  "new_energy str_other params =
     bind_result (decimal_param params ''min_edge_bps'' 100) (\<lambda>min_edge.
     bind_result (decimal_param params ''size'' 4) (\<lambda>lot.
     bind_result (venue_of_string (str_param str_other params ''venue'' ''kalshi'')) (\<lambda>v.
       Inr \<lparr>sg_signal_source = str_param str_other params ''signal_source'' ''grid-risk'', sg_min_edge_bps = min_edge,
            sg_size = lot, sg_venue = v, sg_mids = []\<rparr>)))"

section \<open>\<open>liquidity_tail_risk_insurance\<close>\<close>

record tail_insurance = signal_strategy +
  ti_max_top_depth :: decimal
  ti_top_depth :: "(string, decimal) dict"

definition top_depth :: "order_book_level list \<Rightarrow> order_book_level list \<Rightarrow> decimal" where
  "top_depth bids asks =
     dadd (case bids of [] \<Rightarrow> 0 | l # _ \<Rightarrow> lvl_quantity l) (case asks of [] \<Rightarrow> 0 | l # _ \<Rightarrow> lvl_quantity l)"

definition track_book :: "order_book \<Rightarrow> tail_insurance \<Rightarrow> tail_insurance" where
  "track_book b st =
     (let m = market_id (bk_instrument_id b); st' = set_mid m (yes_mid_from_book b) st
      in st'\<lparr>ti_top_depth := dict_set m (top_depth (yes_bids b) (yes_asks b)) (ti_top_depth st')\<rparr>)"

definition tail_signal :: "string \<Rightarrow> frozen_map \<Rightarrow> tail_insurance \<Rightarrow> strategy_decision list result" where
  "tail_signal uuid payload st =
     (case (signal_market_id payload, bounded_or_none (payload_get payload ''tail_probability'')) of
        (Some m, Some prob) \<Rightarrow>
          (case (dict_get (sg_mids st) m, dict_get (ti_top_depth st) m) of
             (Some mid, Some depth) \<Rightarrow>
               if depth > ti_max_top_depth st then Inr [NoAction ''liquidity_not_thin_enough'']
               else trade_edge ''warmup:no_book_state'' st m prob
                      (place_unquoted STANDARD uuid st m ''tail_insurance prob='')
           | _ \<Rightarrow> Inr [NoAction ''warmup:no_book_state''])
      | _ \<Rightarrow> Inr [NoAction ''censored:missing_market_or_probability''])"

definition tail_on_event ::
  "string \<Rightarrow> normalized_event \<Rightarrow> tail_insurance \<Rightarrow> strategy_decision list result \<times> tail_insurance" where
  "tail_on_event uuid e st =
     (case e of
        OrderBookEvent eid b prov \<Rightarrow> (Inr [NoAction ''book_depth_updated''], track_book b st)
      | _ \<Rightarrow> on_signal ''ignored:not_tail_signal'' (\<lambda>eid q prov. observe_mid q) (tail_signal uuid) e st)"

definition new_tail :: "(pyval \<Rightarrow> string) \<Rightarrow> frozen_map \<Rightarrow> tail_insurance result" where
  "new_tail str_other params =
     bind_result (decimal_param params ''min_edge_bps'' 175) (\<lambda>min_edge.
     bind_result (decimal_param params ''max_top_depth'' 25) (\<lambda>depth.
     bind_result (decimal_param params ''size'' 2) (\<lambda>lot.
     bind_result (venue_of_string (str_param str_other params ''venue'' ''kalshi'')) (\<lambda>v.
       Inr \<lparr>sg_signal_source = str_param str_other params ''signal_source'' ''tail-risk'', sg_min_edge_bps = min_edge,
            sg_size = lot, sg_venue = v, sg_mids = [], ti_max_top_depth = depth, ti_top_depth = []\<rparr>))))"

section \<open>The plug-ins by name\<close>

text \<open>
  What the registry creates for a spec's name, and the handler Python dispatches to. Parameters are
  read in the order of each \<open>__init__\<close>.
\<close>

datatype signal_plugin =
    ExternalEdge external_edge
  | BoxOffice box_office
  | FluSurge quoted_strategy
  | CropReversion crop
  | CourtDocket filtered_strategy
  | EarningsLanguage filtered_strategy
  | WildfireSmoke filtered_strategy
  | SpaceWeather filtered_strategy
  | EnergyStorage signal_strategy
  | TailInsurance tail_insurance

definition wrap_plugin :: "('s \<Rightarrow> signal_plugin) \<Rightarrow> strategy_decision list result \<times> 's \<Rightarrow> strategy_decision list result \<times> signal_plugin" where
  "wrap_plugin C r = (fst r, C (snd r))"

fun plugin_on_event :: "string \<Rightarrow> normalized_event \<Rightarrow> signal_plugin \<Rightarrow> strategy_decision list result \<times> signal_plugin" where
  "plugin_on_event uuid e (ExternalEdge st) = wrap_plugin ExternalEdge (external_edge_on_event uuid e st)"
| "plugin_on_event uuid e (BoxOffice st) = wrap_plugin BoxOffice (box_office_on_event uuid e st)"
| "plugin_on_event uuid e (FluSurge st) = wrap_plugin FluSurge (flu_on_event uuid e st)"
| "plugin_on_event uuid e (CropReversion st) = wrap_plugin CropReversion (crop_on_event uuid e st)"
| "plugin_on_event uuid e (CourtDocket st) = wrap_plugin CourtDocket (filtered_on_event docket_filter uuid e st)"
| "plugin_on_event uuid e (EarningsLanguage st) = wrap_plugin EarningsLanguage (filtered_on_event earnings_filter uuid e st)"
| "plugin_on_event uuid e (WildfireSmoke st) = wrap_plugin WildfireSmoke (filtered_on_event wildfire_filter uuid e st)"
| "plugin_on_event uuid e (SpaceWeather st) = wrap_plugin SpaceWeather (filtered_on_event spaceweather_filter uuid e st)"
| "plugin_on_event uuid e (EnergyStorage st) = wrap_plugin EnergyStorage (energy_on_event uuid e st)"
| "plugin_on_event uuid e (TailInsurance st) = wrap_plugin TailInsurance (tail_on_event uuid e st)"

definition map_result :: "('a \<Rightarrow> 'b) \<Rightarrow> 'a result \<Rightarrow> 'b result" where
  "map_result f r = bind_result r (\<lambda>x. Inr (f x))"

definition signal_factories :: "(string \<times> ((pyval \<Rightarrow> string) \<Rightarrow> frozen_map \<Rightarrow> signal_plugin result)) list" where
  "signal_factories =
     [(''external_edge'', \<lambda>s p. map_result ExternalEdge (new_external_edge s p)),
      (''entertainment_box_office'', \<lambda>s p. map_result BoxOffice (new_box_office s p)),
      (''flu_hospitalization_surge'', \<lambda>s p. map_result FluSurge (new_flu s p)),
      (''crop_drought_yield_reversion'', \<lambda>s p. map_result CropReversion (new_crop s p)),
      (''court_docket_timing'', \<lambda>s p. map_result CourtDocket (new_docket s p)),
      (''earnings_guidance_language'', \<lambda>s p. map_result EarningsLanguage (new_earnings s p)),
      (''wildfire_smoke_event_cancel'', \<lambda>s p. map_result WildfireSmoke (new_wildfire s p)),
      (''spaceweather_grid_disruption'', \<lambda>s p. map_result SpaceWeather (new_spaceweather s p)),
      (''energy_storage_weather_spread'', \<lambda>s p. map_result EnergyStorage (new_energy s p)),
      (''liquidity_tail_risk_insurance'', \<lambda>s p. map_result TailInsurance (new_tail s p))]"

definition create_signal_plugin :: "(pyval \<Rightarrow> string) \<Rightarrow> string \<Rightarrow> frozen_map \<Rightarrow> signal_plugin result" where
  "create_signal_plugin str_other name params =
     (case map_of signal_factories name of
        None \<Rightarrow> Inl (KeyError (''strategy not registered: '' @ name))
      | Some factory \<Rightarrow> factory str_other params)"

end
