(* ===== verification/SignalProps.thy ===== *)
theory SignalProps
  imports SignalStrategies RunnerProps
begin

text \<open>
  What the signal-triggered strategies guarantee about their orders, whatever happened before, and
  what becomes of the orders of those that attach no snapshot when they run behind the risk gate.
\<close>

section \<open>A strategy that trades on an edge over the cached mid\<close>

text \<open>What an event says of the YES mid of a market; only some strategies read books.\<close>

definition event_mid :: "bool \<Rightarrow> normalized_event \<Rightarrow> (string \<times> decimal) option" where
  "event_mid books e =
     (case e of
        QuoteEvent eid q prov \<Rightarrow> map_option (Pair (market_id (q_instrument_id q))) (yes_mid q)
      | OrderBookEvent eid b prov \<Rightarrow>
          if books then map_option (Pair (market_id (bk_instrument_id b))) (yes_mid_from_book b) else None
      | _ \<Rightarrow> None)"

definition note_mid :: "bool \<Rightarrow> normalized_event \<Rightarrow> (string, decimal) dict \<Rightarrow> (string, decimal) dict" where
  "note_mid books e d = (case event_mid books e of None \<Rightarrow> d | Some (m, x) \<Rightarrow> dict_set m x d)"

text \<open>The last mid the events told of a market.\<close>

definition last_mid :: "bool \<Rightarrow> normalized_event list \<Rightarrow> string \<Rightarrow> decimal option" where
  "last_mid books events m =
     fold (\<lambda>e acc. case event_mid books e of None \<Rightarrow> acc | Some (m', x) \<Rightarrow> if m' = m then Some x else acc) events None"

text \<open>The price rules: on the cent grid with the quote attached, or clipped without it.\<close>

definition priced_on_grid :: "decimal \<Rightarrow> place_order \<Rightarrow> bool" where
  "priced_on_grid raw r \<longleftrightarrow> (\<exists>p. po_price r = Some p \<and> buy_limit_from_fair raw DEFAULT_TICK = Inr p) \<and> po_market_snapshot r \<noteq> None"

definition priced_clipped :: "decimal \<Rightarrow> place_order \<Rightarrow> bool" where
  "priced_clipped raw r \<longleftrightarrow> po_price r = Some (clip raw) \<and> po_market_snapshot r = None"

definition edge_order :: "decimal \<Rightarrow> bool \<Rightarrow> decimal \<Rightarrow> decimal \<Rightarrow> place_order \<Rightarrow> bool" where
  "edge_order min_edge quoted prob mid r \<longleftrightarrow>
     0 \<le> prob \<and> prob \<le> 1 \<and> \<not> \<bar>edge_bps prob mid\<bar> < min_edge \<and> po_outcome_side r = signal_side (edge_bps prob mid) \<and>
     po_order_side r = BUY \<and> po_order_type r = LIMIT \<and>
     (if quoted then priced_on_grid (for_side (po_outcome_side r) mid) r else priced_clipped (for_side (po_outcome_side r) mid) r)"

text \<open>
  The contract of such a strategy: its cache follows the events, its configuration never changes,
  and an order answers a signal of its own source, for the market and the probability it carries.
\<close>

locale edge_trader =
  fixes on_event :: "'u \<Rightarrow> normalized_event \<Rightarrow> 's \<Rightarrow> strategy_decision list result \<times> 's"
    and mids :: "'s \<Rightarrow> (string, decimal) dict"
    and config :: "'s \<Rightarrow> 'c"
    and books :: "'c \<Rightarrow> bool"
    and quoted :: "'c \<Rightarrow> bool"
    and min_edge :: "'c \<Rightarrow> decimal"
    and probability :: "'c \<Rightarrow> normalized_event \<Rightarrow> decimal option"
    and good :: "'s \<Rightarrow> bool"
  assumes mids_step: "mids (snd (on_event u e s)) = note_mid (books (config s)) e (mids s)"
    and config_step: "config (snd (on_event u e s)) = config s"
    and good_step: "good s \<Longrightarrow> good (snd (on_event u e s))"
    and order_step: "good s \<Longrightarrow> fst (on_event u e s) = Inr ds \<Longrightarrow> PlaceOrder r \<in> set ds \<Longrightarrow>
      \<exists>mid prob. probability (config s) e = Some prob \<and> dict_get (mids s) (market_id (po_instrument_id r)) = Some mid \<and>
        edge_order (min_edge (config s)) (quoted (config s)) prob mid r"
begin

definition trade_history :: "('u \<times> normalized_event) list \<Rightarrow> 's \<Rightarrow> 's" where
  "trade_history history s = fold (\<lambda>(u, e) s. snd (on_event u e s)) history s"

lemma trader_config: "config (trade_history history s) = config s"
  by (induction history arbitrary: s) (auto simp: trade_history_def config_step)

lemma trader_good: "good s \<Longrightarrow> good (trade_history history s)"
  by (induction history arbitrary: s) (auto simp: trade_history_def good_step)

lemma trader_mids:
  "dict_get (mids (trade_history history s)) m =
     fold (\<lambda>e acc. case event_mid (books (config s)) e of None \<Rightarrow> acc | Some (m', x) \<Rightarrow> if m' = m then Some x else acc)
       (map snd history) (dict_get (mids s) m)"
proof (induction history arbitrary: s)
  case (Cons ue history)
  obtain u e where ue: "ue = (u, e)" by (cases ue)
  have "dict_get (note_mid b e d) m = (case event_mid b e of None \<Rightarrow> dict_get d m | Some (m', x) \<Rightarrow> if m' = m then Some x else dict_get d m)" for b d
    by (auto simp: note_mid_def split: option.splits)
  with Cons [of "snd (on_event u e s)"] show ?case
    by (simp add: trade_history_def ue config_step mids_step)
qed (simp add: trade_history_def)

lemma order_after_history:
  assumes "good s" and "mids s = []" and "fst (on_event u e (trade_history history s)) = Inr ds" and "PlaceOrder r \<in> set ds"
  obtains mid prob where "probability (config s) e = Some prob"
    and "last_mid (books (config s)) (map snd history) (market_id (po_instrument_id r)) = Some mid"
    and "edge_order (min_edge (config s)) (quoted (config s)) prob mid r"
  using order_step [OF trader_good [OF assms(1)] assms(3,4)] assms(2)
  by (auto simp: trader_config trader_mids last_mid_def)

end

section \<open>Every plug-in keeps the contract\<close>

text \<open>The parts of a plug-in that its handler never changes: the class and its parameters.\<close>

fun plugin_mids :: "signal_plugin \<Rightarrow> (string, decimal) dict" where
  "plugin_mids (ExternalEdge st) = sg_mids st"
| "plugin_mids (BoxOffice st) = sg_mids st"
| "plugin_mids (FluSurge st) = sg_mids st"
| "plugin_mids (CropReversion st) = sg_mids st"
| "plugin_mids (CourtDocket st) = sg_mids st"
| "plugin_mids (EarningsLanguage st) = sg_mids st"
| "plugin_mids (WildfireSmoke st) = sg_mids st"
| "plugin_mids (SpaceWeather st) = sg_mids st"
| "plugin_mids (EnergyStorage st) = sg_mids st"
| "plugin_mids (TailInsurance st) = sg_mids st"

fun plugin_config :: "signal_plugin \<Rightarrow> signal_plugin" where
  "plugin_config (ExternalEdge st) = ExternalEdge (st\<lparr>sg_mids := [], sg_quotes := []\<rparr>)"
| "plugin_config (BoxOffice st) = BoxOffice (st\<lparr>sg_mids := [], sg_quotes := []\<rparr>)"
| "plugin_config (FluSurge st) = FluSurge (st\<lparr>sg_mids := [], sg_quotes := []\<rparr>)"
| "plugin_config (CropReversion st) = CropReversion (st\<lparr>sg_mids := [], sg_quotes := []\<rparr>)"
| "plugin_config (CourtDocket st) = CourtDocket (st\<lparr>sg_mids := []\<rparr>)"
| "plugin_config (EarningsLanguage st) = EarningsLanguage (st\<lparr>sg_mids := []\<rparr>)"
| "plugin_config (WildfireSmoke st) = WildfireSmoke (st\<lparr>sg_mids := []\<rparr>)"
| "plugin_config (SpaceWeather st) = SpaceWeather (st\<lparr>sg_mids := []\<rparr>)"
| "plugin_config (EnergyStorage st) = EnergyStorage (st\<lparr>sg_mids := []\<rparr>)"
| "plugin_config (TailInsurance st) = TailInsurance (st\<lparr>sg_mids := [], ti_top_depth := []\<rparr>)"

fun plugin_quoted :: "signal_plugin \<Rightarrow> bool" where
  "plugin_quoted (ExternalEdge st) = True"
| "plugin_quoted (BoxOffice st) = True"
| "plugin_quoted (FluSurge st) = True"
| "plugin_quoted (CropReversion st) = True"
| "plugin_quoted _ = False"

fun plugin_books :: "signal_plugin \<Rightarrow> bool" where
  "plugin_books (EnergyStorage st) = True"
| "plugin_books (TailInsurance st) = True"
| "plugin_books _ = False"

fun plugin_base :: "signal_plugin \<Rightarrow> string \<times> decimal" where
  "plugin_base (ExternalEdge st) = (sg_signal_source st, sg_min_edge_bps st)"
| "plugin_base (BoxOffice st) = (sg_signal_source st, sg_min_edge_bps st)"
| "plugin_base (FluSurge st) = (sg_signal_source st, sg_min_edge_bps st)"
| "plugin_base (CropReversion st) = (sg_signal_source st, sg_min_edge_bps st)"
| "plugin_base (CourtDocket st) = (sg_signal_source st, sg_min_edge_bps st)"
| "plugin_base (EarningsLanguage st) = (sg_signal_source st, sg_min_edge_bps st)"
| "plugin_base (WildfireSmoke st) = (sg_signal_source st, sg_min_edge_bps st)"
| "plugin_base (SpaceWeather st) = (sg_signal_source st, sg_min_edge_bps st)"
| "plugin_base (EnergyStorage st) = (sg_signal_source st, sg_min_edge_bps st)"
| "plugin_base (TailInsurance st) = (sg_signal_source st, sg_min_edge_bps st)"

text \<open>The YES probability that a payload states for a plug-in.\<close>

definition unit_part :: "pyval \<Rightarrow> decimal option" where
  "unit_part v = (case signal_decimal v of Some (Finite x) \<Rightarrow> if 0 \<le> x \<and> x \<le> 1 then Some x else None | _ \<Rightarrow> None)"

definition box_office_probability :: "box_office \<Rightarrow> frozen_map \<Rightarrow> decimal option" where
  "box_office_probability st payload =
     (case (signal_decimal (payload_get payload ''seat_occupancy_pct''),
            signal_decimal (payload_get payload ''ticket_velocity_per_hour'')) of
        (Some occ, Some velocity) \<Rightarrow>
          (case bind_result (literal_times occ (bo_baseline_gross st)) (\<lambda>seats.
                bind_result (literal_times velocity (bo_extrapolation_hours st)) (\<lambda>sales.
                bind_result (literal_plus seats sales) (gross_to_prob st))) of
             Inr prob \<Rightarrow> Some prob | Inl e \<Rightarrow> None)
      | _ \<Rightarrow> None)"

fun payload_probability :: "signal_plugin \<Rightarrow> frozen_map \<Rightarrow> decimal option" where
  "payload_probability (ExternalEdge st) p =
     (case first_decimal p PROB_KEYS of Some (Finite x) \<Rightarrow> if 0 \<le> x \<and> x \<le> 1 then Some x else None | _ \<Rightarrow> None)"
| "payload_probability (BoxOffice st) p = box_office_probability st p"
| "payload_probability (FluSurge st) p = unit_part (payload_get p ''surge_probability'')"
| "payload_probability (CropReversion st) p = unit_part (payload_get p ''yield_reversion_probability'')"
| "payload_probability (CourtDocket st) p = unit_part (payload_get p ''timing_probability'')"
| "payload_probability (EarningsLanguage st) p = unit_part (payload_get p ''event_probability'')"
| "payload_probability (WildfireSmoke st) p = unit_part (payload_get p ''impact_probability'')"
| "payload_probability (SpaceWeather st) p = unit_part (payload_get p ''disruption_probability'')"
| "payload_probability (EnergyStorage st) p = unit_part (payload_get p ''stress_probability'')"
| "payload_probability (TailInsurance st) p = unit_part (payload_get p ''tail_probability'')"

text \<open>Only a signal of the plug-in's own source states one.\<close>

definition plugin_probability :: "signal_plugin \<Rightarrow> normalized_event \<Rightarrow> decimal option" where
  "plugin_probability p e =
     (case e of
        ExternalSignalEvent eid x prov \<Rightarrow>
          if ext_source x = fst (plugin_base p) then payload_probability p (ext_payload x) else None
      | _ \<Rightarrow> None)"

text \<open>The plug-ins that cache the quote cache it whenever they cache the mid.\<close>

definition quotes_cached :: "'a quoted_strategy_scheme \<Rightarrow> bool" where
  "quotes_cached st \<longleftrightarrow> (\<forall>m. dict_get (sg_mids st) m \<noteq> None \<longrightarrow> dict_get (sg_quotes st) m \<noteq> None)"

fun plugin_good :: "signal_plugin \<Rightarrow> bool" where
  "plugin_good (ExternalEdge st) = quotes_cached st"
| "plugin_good (BoxOffice st) = quotes_cached st"
| "plugin_good (FluSurge st) = quotes_cached st"
| "plugin_good (CropReversion st) = quotes_cached st"
| "plugin_good _ = True"

lemma bounded_unit_part:
  "bounded_decimal v = Inr (Some x) \<Longrightarrow> unit_part v = Some x"
  "bounded_or_none v = Some x \<Longrightarrow> unit_part v = Some x"
proof -
  show a: "unit_part v = Some x" if "bounded_decimal v = Inr (Some x)"
  proof (cases "signal_decimal v")
    case (Some d)
    with that show ?thesis by (cases d) (auto simp: bounded_decimal_def unit_part_def split: if_splits)
  qed (use that in \<open>simp add: bounded_decimal_def\<close>)
  show "unit_part v = Some x" if "bounded_or_none v = Some x"
    using that a by (auto simp: bounded_or_none_def split: sum.splits)
qed

lemma trade_edge_order:
  assumes "trade_edge no_mid st m prob place = Inr ds" and "PlaceOrder r \<in> set ds"
  obtains mid where "dict_get (sg_mids st) m = Some mid" and "\<not> \<bar>edge_bps prob mid\<bar> < sg_min_edge_bps st"
    and "place mid (edge_bps prob mid) = Inr r"
  using assms by (auto simp: trade_edge_def Let_def bind_result_Inr_iff split: option.splits if_split_asm)

lemma place_quoted_order:
  assumes "place_quoted uuid st m reason fair mid edge = Inr r" and "dict_get (sg_quotes st) m \<noteq> None"
  shows "market_id (po_instrument_id r) = m \<and> po_outcome_side r = signal_side edge \<and> po_order_side r = BUY \<and>
    po_order_type r = LIMIT \<and> priced_on_grid (for_side (signal_side edge) mid) r"
  using assms
  by (auto simp: place_quoted_def Let_def bind_result_Inr_iff cached_snapshot_def signal_instrument_def validated_Inr_iff
      mk_place_order_def signal_order_def priced_on_grid_def)

lemma place_unquoted_order:
  assumes "place_unquoted tier uuid st m reason mid edge = Inr r"
  shows "market_id (po_instrument_id r) = m \<and> po_outcome_side r = signal_side edge \<and> po_order_side r = BUY \<and>
    po_order_type r = LIMIT \<and> priced_clipped (for_side (signal_side edge) mid) r"
  using assms
  by (auto simp: place_unquoted_def Let_def bind_result_Inr_iff signal_instrument_def validated_Inr_iff
      mk_place_order_def signal_order_def priced_clipped_def)

text \<open>The two ends of a handler: a cached quote and its order, or an order without one.\<close>

lemma quoted_trade:
  assumes "trade_edge no_mid st m prob (\<lambda>mid edge. place_quoted uuid st m reason (fair mid edge) mid edge) = Inr ds"
    and "PlaceOrder r \<in> set ds" and "quotes_cached st" and "0 \<le> prob" "prob \<le> 1"
  shows "\<exists>mid. dict_get (sg_mids st) (market_id (po_instrument_id r)) = Some mid \<and> edge_order (sg_min_edge_bps st) True prob mid r"
proof -
  obtain mid where m: "dict_get (sg_mids st) m = Some mid" "\<not> \<bar>edge_bps prob mid\<bar> < sg_min_edge_bps st"
    "place_quoted uuid st m reason (fair mid (edge_bps prob mid)) mid (edge_bps prob mid) = Inr r"
    by (rule trade_edge_order [OF assms(1,2)])
  have "dict_get (sg_quotes st) m \<noteq> None" using assms(3) m(1) unfolding quotes_cached_def by blast
  from place_quoted_order [OF m(3) this] m(1,2) assms(4,5) show ?thesis by (auto simp: edge_order_def)
qed

lemma prob_trade:
  assumes "trade_edge no_mid st m prob (place_from_prob uuid st m reason prob) = Inr ds"
    and "PlaceOrder r \<in> set ds" and "quotes_cached st" and "0 \<le> prob" "prob \<le> 1"
  shows "\<exists>mid. dict_get (sg_mids st) (market_id (po_instrument_id r)) = Some mid \<and> edge_order (sg_min_edge_bps st) True prob mid r"
proof -
  obtain mid where m: "dict_get (sg_mids st) m = Some mid" "\<not> \<bar>edge_bps prob mid\<bar> < sg_min_edge_bps st"
    "place_from_prob uuid st m reason prob mid (edge_bps prob mid) = Inr r"
    by (rule trade_edge_order [OF assms(1,2)])
  obtain fair where f: "place_quoted uuid st m reason (PyStr (str_fixed4 fair)) mid (edge_bps prob mid) = Inr r"
    using m(3) by (auto simp: place_from_prob_def bind_result_Inr_iff)
  have "dict_get (sg_quotes st) m \<noteq> None" using assms(3) m(1) unfolding quotes_cached_def by blast
  from place_quoted_order [OF f this] m(1,2) assms(4,5) show ?thesis by (auto simp: edge_order_def)
qed

lemma unquoted_trade:
  assumes "trade_edge no_mid st m prob (place_unquoted tier uuid st m reason) = Inr ds"
    and "PlaceOrder r \<in> set ds" and "0 \<le> prob" "prob \<le> 1"
  shows "\<exists>mid. dict_get (sg_mids st) (market_id (po_instrument_id r)) = Some mid \<and> edge_order (sg_min_edge_bps st) False prob mid r"
proof -
  obtain mid where m: "dict_get (sg_mids st) m = Some mid" "\<not> \<bar>edge_bps prob mid\<bar> < sg_min_edge_bps st"
    "place_unquoted tier uuid st m reason mid (edge_bps prob mid) = Inr r"
    by (rule trade_edge_order [OF assms(1,2)])
  from place_unquoted_order [OF m(3)] m(1,2) assms(3,4) show ?thesis by (auto simp: edge_order_def)
qed

lemma unit_part_range: "unit_part v = Some x \<Longrightarrow> 0 \<le> x \<and> x \<le> 1"
  by (auto simp: unit_part_def split: option.splits dec_literal.splits if_splits)

section \<open>The signals of each class\<close>

definition trades_on ::
  "(frozen_map \<Rightarrow> decimal option) \<Rightarrow> bool \<Rightarrow> 'a signal_strategy_scheme \<Rightarrow> frozen_map \<Rightarrow> place_order \<Rightarrow> bool" where
  "trades_on prob_of quoted st payload r \<longleftrightarrow>
     (\<exists>mid prob. prob_of payload = Some prob \<and> dict_get (sg_mids st) (market_id (po_instrument_id r)) = Some mid \<and>
        edge_order (sg_min_edge_bps st) quoted prob mid r)"

lemma external_edge_trades:
  assumes "external_edge_signal uuid payload st = Inr ds" and "PlaceOrder r \<in> set ds" and "quotes_cached st"
  shows "trades_on (payload_probability (ExternalEdge st)) True st payload r"
proof -
  obtain m prob where m: "signal_market_id payload = Some m" "first_decimal payload PROB_KEYS = Some prob" "in_unit prob = Inr True"
    "trade_edge ''warmup:no_quote_mid'' st m (finite_part prob) (place_from_prob uuid st m ''external_edge prob='' (finite_part prob)) = Inr ds"
    using assms(1,2)
    by (auto simp: external_edge_signal_def bind_result_Inr_iff split: option.splits if_splits)
  obtain x where x: "prob = Finite x" "0 \<le> x" "x \<le> 1" using m(3) by (auto simp: in_unit_finite)
  with prob_trade [OF m(4) assms(2,3)] m(2) show ?thesis by (auto simp: trades_on_def)
qed

lemma gross_to_prob_unit:
  assumes "gross_to_prob st d = Inr prob"
  shows "0 \<le> prob \<and> prob \<le> 1"
proof -
  have fixed: "dctx 1 = 1" "dctx (9 / 10) = 9 / 10" "dctx (95 / 100) = 95 / 100" by (rule dctx_eval, simp add: on_grid_def)+
  have "0 \<le> dadd (5 / 100) (dmul (dsub x (1 / 2)) (9 / 10)) \<and> dadd (5 / 100) (dmul (dsub x (1 / 2)) (9 / 10)) \<le> 1"
    if "1 / 2 < x" "x < 3 / 2" for x
  proof -
    have d: "0 \<le> dsub x (1 / 2)" "dsub x (1 / 2) \<le> 1"
      using that dctx_le_fix [OF fixed(1), of "x - 1 / 2"] by (auto simp: dsub_def intro: dctx_nonneg)
    then have p: "0 \<le> dmul (dsub x (1 / 2)) (9 / 10)" "dmul (dsub x (1 / 2)) (9 / 10) \<le> 9 / 10"
      using dctx_le_fix [OF fixed(2), of "dsub x (1 / 2) * (9 / 10)"] by (auto simp: dmul_def intro: dctx_nonneg)
    then show ?thesis
      using dctx_le_fix [OF fixed(3), of "5 / 100 + dmul (dsub x (1 / 2)) (9 / 10)"] by (auto simp: dadd_def intro: dctx_nonneg)
  qed
  with assms show ?thesis
    by (auto simp: gross_to_prob_def not_le split: if_splits dec_literal.splits elim!: ratio_to_prob.elims)
qed

lemma flu_trades:
  assumes "flu_signal uuid payload st = Inr ds" and "PlaceOrder r \<in> set ds" and "quotes_cached st"
  shows "trades_on (payload_probability (FluSurge st)) True st payload r"
proof -
  obtain m prob where m: "bounded_or_none (payload_get payload ''surge_probability'') = Some prob"
    "trade_edge ''warmup:no_quote_mid'' st m prob (place_from_edge uuid st m ''flu_surge region='') = Inr ds"
    using assms(1,2) by (auto simp: flu_signal_def split: option.splits)
  have u: "unit_part (payload_get payload ''surge_probability'') = Some prob" using m(1) by (rule bounded_unit_part)
  from quoted_trade [OF m(2) [unfolded place_from_edge_def [abs_def]] assms(2,3)] unit_part_range [OF u] u
  show ?thesis by (auto simp: trades_on_def)
qed

lemma crop_trades:
  assumes "crop_signal uuid payload st = Inr ds" and "PlaceOrder r \<in> set ds" and "quotes_cached st"
  shows "trades_on (payload_probability (CropReversion st)) True st payload r"
proof -
  obtain m prob where m: "bounded_or_none (payload_get payload ''yield_reversion_probability'') = Some prob"
    "trade_edge ''warmup:no_quote_mid'' st m prob (place_from_edge uuid st m ''crop_reversion prob='') = Inr ds"
    using assms(1,2) by (auto simp: crop_signal_def Let_def split: option.splits if_split_asm)
  have u: "unit_part (payload_get payload ''yield_reversion_probability'') = Some prob" using m(1) by (rule bounded_unit_part)
  from quoted_trade [OF m(2) [unfolded place_from_edge_def [abs_def]] assms(2,3)] unit_part_range [OF u] u
  show ?thesis by (auto simp: trades_on_def)
qed

lemma box_office_trades:
  assumes "box_office_signal uuid payload st = Inr ds" and "PlaceOrder r \<in> set ds" and "quotes_cached st"
  shows "trades_on (payload_probability (BoxOffice st)) True st payload r"
proof -
  obtain m occ velocity seats sales sum prob where m: "signal_decimal (payload_get payload ''seat_occupancy_pct'') = Some occ"
    "signal_decimal (payload_get payload ''ticket_velocity_per_hour'') = Some velocity"
    "literal_times occ (bo_baseline_gross st) = Inr seats" "literal_times velocity (bo_extrapolation_hours st) = Inr sales"
    "literal_plus seats sales = Inr sum" "gross_to_prob st sum = Inr prob"
    "trade_edge ''warmup:no_quote_mid'' st m prob (place_from_prob uuid st m ''box_office prob='' prob) = Inr ds"
    using assms(1,2)
    by (auto simp: box_office_signal_def Let_def bind_result_Inr_iff split: option.splits if_split_asm)
  have "box_office_probability st payload = Some prob" using m(1-6) by (simp add: box_office_probability_def)
  with prob_trade [OF m(7) assms(2,3)] gross_to_prob_unit [OF m(6)] show ?thesis by (auto simp: trades_on_def)
qed

lemma filtered_trades:
  assumes "filtered_signal f uuid payload st = Inr ds" and "PlaceOrder r \<in> set ds"
  shows "trades_on (\<lambda>p. unit_part (payload_get p (sf_prob f))) False st payload r"
proof -
  obtain probability where p: "bounded_decimal (payload_get payload (sf_prob f)) = Inr probability"
    and rest: "(let x = (case signal_decimal (payload_get payload (sf_key f)) of None \<Rightarrow> Finite 0 | Some d \<Rightarrow> d)
       in case (signal_market_id payload, probability) of
            (Some m, Some prob) \<Rightarrow>
              bind_result (literal_less (if sf_absolute f then literal_abs x else x) (fs_minimum st)) (\<lambda>low.
                if low then Inr [NoAction (sf_too_low f)]
                else trade_edge ''warmup:no_quote_mid'' st m prob (place_unquoted RELAXED uuid st m (sf_reason f)))
          | _ \<Rightarrow> Inr [NoAction ''censored:missing_market_or_probability'']) = Inr ds"
    using assms(1) unfolding filtered_signal_def bind_result_Inr_iff by blast
  obtain m prob where k: "signal_market_id payload = Some m" "probability = Some prob"
    using rest assms(2) by (cases "signal_market_id payload"; cases probability) auto
  have m: "bounded_decimal (payload_get payload (sf_prob f)) = Inr (Some prob)"
    "trade_edge ''warmup:no_quote_mid'' st m prob (place_unquoted RELAXED uuid st m (sf_reason f)) = Inr ds"
    using p rest k assms(2) by (auto simp: Let_def bind_result_Inr_iff split: if_split_asm)
  have u: "unit_part (payload_get payload (sf_prob f)) = Some prob" using m(1) by (rule bounded_unit_part)
  from unquoted_trade [OF m(2) assms(2)] unit_part_range [OF u] u show ?thesis by (auto simp: trades_on_def)
qed

lemma energy_trades:
  assumes "energy_signal uuid payload st = Inr ds" and "PlaceOrder r \<in> set ds"
  shows "trades_on (payload_probability (EnergyStorage st)) False st payload r"
proof -
  obtain m prob where m: "bounded_or_none (payload_get payload ''stress_probability'') = Some prob"
    "trade_edge ''warmup:no_market_mid'' st m prob (place_unquoted RELAXED uuid st m ''grid_stress prob='') = Inr ds"
    using assms by (auto simp: energy_signal_def split: option.splits)
  have u: "unit_part (payload_get payload ''stress_probability'') = Some prob" using m(1) by (rule bounded_unit_part)
  from unquoted_trade [OF m(2) assms(2)] unit_part_range [OF u] u show ?thesis by (auto simp: trades_on_def)
qed

lemma tail_trades:
  assumes "tail_signal uuid payload st = Inr ds" and "PlaceOrder r \<in> set ds"
  shows "trades_on (payload_probability (TailInsurance st)) False st payload r"
proof -
  obtain m prob where m: "bounded_or_none (payload_get payload ''tail_probability'') = Some prob"
    "trade_edge ''warmup:no_book_state'' st m prob (place_unquoted STANDARD uuid st m ''tail_insurance prob='') = Inr ds"
    using assms by (auto simp: tail_signal_def split: option.splits if_split_asm)
  have u: "unit_part (payload_get payload ''tail_probability'') = Some prob" using m(1) by (rule bounded_unit_part)
  from unquoted_trade [OF m(2) assms(2)] unit_part_range [OF u] u show ?thesis by (auto simp: trades_on_def)
qed

section \<open>The handlers\<close>

lemma on_signal_order:
  assumes "fst (on_signal ignored observe act e st) = Inr ds" and "PlaceOrder r \<in> set ds"
  obtains eid x prov where "e = ExternalSignalEvent eid x prov" and "ext_source x = sg_signal_source st"
    and "act (ext_payload x) st = Inr ds"
  using assms by (cases e) (auto simp: on_signal_def split: if_split_asm)

lemma observe_quoted_mids: "sg_mids (observe_quoted eid q prov st) = note_mid b (QuoteEvent eid q prov) (sg_mids st)"
  by (simp add: observe_quoted_def note_mid_def event_mid_def Let_def split: option.splits)

lemma observe_mid_mids: "sg_mids (observe_mid q st) = note_mid b (QuoteEvent eid q prov) (sg_mids st)"
  by (simp add: observe_mid_def set_mid_def note_mid_def event_mid_def split: option.splits)

lemma quoted_handler_mids:
  "sg_mids (snd (on_signal ignored observe_quoted act e st)) = note_mid False e (sg_mids st)"
  by (cases e) (auto simp: on_signal_def observe_quoted_mids [where b = False] note_mid_def [where e = "TimerEvent _ _ _"] note_mid_def event_mid_def)

lemma unquoted_handler_mids:
  "sg_mids (snd (on_signal ignored (\<lambda>eid q prov. observe_mid q) act e st)) = note_mid False e (sg_mids st)"
  by (cases e) (auto simp: on_signal_def observe_mid_def set_mid_def note_mid_def event_mid_def split: option.splits)

lemma quoted_handler_cached:
  "quotes_cached st \<Longrightarrow> quotes_cached (snd (on_signal ignored observe_quoted act e st))"
  by (cases e) (auto simp: on_signal_def quotes_cached_def observe_quoted_def Let_def split: option.splits)

text \<open>A plug-in whose handler is the shared one over the record \<open>st\<close>.\<close>

lemma plugin_trades:
  assumes "fst (on_signal ignored observe act e st) = Inr ds" and "PlaceOrder r \<in> set ds"
    and "plugin_base p = (sg_signal_source st, sg_min_edge_bps st)" and "plugin_mids p = sg_mids st"
    and "\<And>payload. act payload st = Inr ds \<Longrightarrow> trades_on (payload_probability p) (plugin_quoted p) st payload r"
  shows "\<exists>mid prob. plugin_probability p e = Some prob \<and> dict_get (plugin_mids p) (market_id (po_instrument_id r)) = Some mid \<and>
    edge_order (snd (plugin_base p)) (plugin_quoted p) prob mid r"
proof -
  obtain eid x prov where e: "e = ExternalSignalEvent eid x prov" "ext_source x = sg_signal_source st" "act (ext_payload x) st = Inr ds"
    by (rule on_signal_order [OF assms(1,2)])
  from assms(5) [OF e(3)] assms(3,4) e(1,2) show ?thesis by (auto simp: trades_on_def plugin_probability_def)
qed

lemmas handler_defs = wrap_plugin_def external_edge_on_event_def box_office_on_event_def flu_on_event_def crop_on_event_def
  filtered_on_event_def energy_on_event_def tail_on_event_def

lemma filter_probability:
  "(\<lambda>p. unit_part (payload_get p (sf_prob docket_filter))) = payload_probability (CourtDocket st)"
  "(\<lambda>p. unit_part (payload_get p (sf_prob earnings_filter))) = payload_probability (EarningsLanguage st)"
  "(\<lambda>p. unit_part (payload_get p (sf_prob wildfire_filter))) = payload_probability (WildfireSmoke st)"
  "(\<lambda>p. unit_part (payload_get p (sf_prob spaceweather_filter))) = payload_probability (SpaceWeather st)"
  by (simp_all add: fun_eq_iff docket_filter_def earnings_filter_def wildfire_filter_def spaceweather_filter_def)

lemma filtered_plugin_trades:
  "filtered_signal docket_filter u payload st = Inr ds \<Longrightarrow> PlaceOrder r \<in> set ds \<Longrightarrow>
    trades_on (payload_probability (CourtDocket st)) False st payload r"
  "filtered_signal earnings_filter u payload st = Inr ds \<Longrightarrow> PlaceOrder r \<in> set ds \<Longrightarrow>
    trades_on (payload_probability (EarningsLanguage st)) False st payload r"
  "filtered_signal wildfire_filter u payload st = Inr ds \<Longrightarrow> PlaceOrder r \<in> set ds \<Longrightarrow>
    trades_on (payload_probability (WildfireSmoke st)) False st payload r"
  "filtered_signal spaceweather_filter u payload st = Inr ds \<Longrightarrow> PlaceOrder r \<in> set ds \<Longrightarrow>
    trades_on (payload_probability (SpaceWeather st)) False st payload r"
  unfolding filter_probability [symmetric] by (erule (1) filtered_trades)+

lemma plugin_order:
  assumes "plugin_good p" and "fst (plugin_on_event u e p) = Inr ds" and o: "PlaceOrder r \<in> set ds"
  shows "\<exists>mid prob. plugin_probability p e = Some prob \<and> dict_get (plugin_mids p) (market_id (po_instrument_id r)) = Some mid \<and>
    edge_order (snd (plugin_base p)) (plugin_quoted p) prob mid r"
proof (cases p)
  case (ExternalEdge st)
  show ?thesis by (rule plugin_trades [OF _ o]) (use assms ExternalEdge in \<open>auto simp: handler_defs intro: external_edge_trades\<close>)
next
  case (BoxOffice st)
  show ?thesis by (rule plugin_trades [OF _ o]) (use assms BoxOffice in \<open>auto simp: handler_defs intro: box_office_trades\<close>)
next
  case (FluSurge st)
  show ?thesis by (rule plugin_trades [OF _ o]) (use assms FluSurge in \<open>auto simp: handler_defs intro: flu_trades\<close>)
next
  case (CropReversion st)
  show ?thesis by (rule plugin_trades [OF _ o]) (use assms CropReversion in \<open>auto simp: handler_defs intro: crop_trades\<close>)
next
  case (CourtDocket st)
  show ?thesis by (rule plugin_trades [OF _ o]) (use assms CourtDocket in \<open>auto simp: handler_defs intro: filtered_plugin_trades\<close>)
next
  case (EarningsLanguage st)
  show ?thesis by (rule plugin_trades [OF _ o]) (use assms EarningsLanguage in \<open>auto simp: handler_defs intro: filtered_plugin_trades\<close>)
next
  case (WildfireSmoke st)
  show ?thesis by (rule plugin_trades [OF _ o]) (use assms WildfireSmoke in \<open>auto simp: handler_defs intro: filtered_plugin_trades\<close>)
next
  case (SpaceWeather st)
  show ?thesis by (rule plugin_trades [OF _ o]) (use assms SpaceWeather in \<open>auto simp: handler_defs intro: filtered_plugin_trades\<close>)
next
  case (EnergyStorage st)
  show ?thesis
    by (rule plugin_trades [OF _ o])
      (use assms EnergyStorage in \<open>auto simp: handler_defs intro: energy_trades split: normalized_event.splits\<close>)
next
  case (TailInsurance st)
  show ?thesis
    by (rule plugin_trades [OF _ o])
      (use assms TailInsurance in \<open>auto simp: handler_defs intro: tail_trades split: normalized_event.splits\<close>)
qed

lemma plugin_config_keeps [simp]:
  "plugin_base (plugin_config p) = plugin_base p" "plugin_quoted (plugin_config p) = plugin_quoted p"
  "plugin_books (plugin_config p) = plugin_books p"
  by (cases p; simp)+

lemma gross_to_prob_config [simp]: "gross_to_prob (st\<lparr>sg_mids := d, sg_quotes := q\<rparr>) = gross_to_prob st"
  by (rule ext) (auto simp: gross_to_prob_def split: dec_literal.splits)

lemma plugin_config_probability [simp]: "payload_probability (plugin_config p) payload = payload_probability p payload"
  by (cases p) (auto simp: box_office_probability_def split: option.split)

lemma plugin_probability_config [simp]: "plugin_probability (plugin_config p) e = plugin_probability p e"
  by (auto simp: plugin_probability_def split: normalized_event.splits)

lemma plugin_mids_step: "plugin_mids (snd (plugin_on_event u e p)) = note_mid (plugin_books p) e (plugin_mids p)"
  by (cases p)
    (auto simp: handler_defs quoted_handler_mids unquoted_handler_mids note_mid_def event_mid_def set_mid_def track_book_def Let_def
      split: normalized_event.splits option.splits)

lemma plugin_config_step: "plugin_config (snd (plugin_on_event u e p)) = plugin_config p"
  by (cases p; cases e)
    (auto simp: handler_defs on_signal_def observe_quoted_def observe_mid_def set_mid_def track_book_def Let_def split: option.splits)

lemma plugin_good_step: "plugin_good p \<Longrightarrow> plugin_good (snd (plugin_on_event u e p))"
  by (cases p) (auto simp: handler_defs quoted_handler_cached)

interpretation plugins: edge_trader plugin_on_event plugin_mids plugin_config plugin_books plugin_quoted
    "\<lambda>p. snd (plugin_base p)" plugin_probability plugin_good
  by unfold_locales (simp_all add: plugin_mids_step plugin_config_step plugin_good_step plugin_order)

section \<open>Mids on the venue's grid\<close>

lemma on_grid_finer:
  assumes "on_grid j x" and "\<bar>x\<bar> \<le> 1" and "j \<le> k" and "k \<le> 28"
  shows "on_grid k x"
proof -
  obtain n where n: "x = of_int n / 10 ^ j" using assms(1) by (rule on_gridE)
  have "(10 :: rat) ^ k = 10 ^ j * 10 ^ (k - j)" using assms(3) by (simp flip: power_add)
  then have "x * 10 ^ k = of_int (n * 10 ^ (k - j))" by (simp add: n)
  moreover have "\<bar>x\<bar> * 10 ^ k \<le> 10 ^ 28" using grid_room [of x 0 k] assms(2,4) by simp
  ultimately show ?thesis unfolding on_grid_def by (metis floor_of_int)
qed

definition grid_level :: "order_book_level \<Rightarrow> bool" where
  "grid_level l \<longleftrightarrow> on_grid 4 (lvl_price l) \<and> 0 \<le> lvl_price l \<and> lvl_price l \<le> 1"

text \<open>Market data whose prices are probabilities of at most four decimals, as the venues quote them.\<close>

definition grid_prices :: "normalized_event \<Rightarrow> bool" where
  "grid_prices e =
     (case e of
        QuoteEvent eid q prov \<Rightarrow>
          (case q_bid q of None \<Rightarrow> True | Some l \<Rightarrow> grid_level l) \<and> (case q_ask q of None \<Rightarrow> True | Some l \<Rightarrow> grid_level l)
      | OrderBookEvent eid b prov \<Rightarrow> list_all grid_level (yes_bids b) \<and> list_all grid_level (yes_asks b)
      | _ \<Rightarrow> True)"

definition grid_mid :: "decimal \<Rightarrow> bool" where
  "grid_mid x \<longleftrightarrow> on_grid 5 x \<and> 0 \<le> x \<and> x \<le> 1"

lemma mid_of_levels:
  assumes "grid_level a" and "grid_level b"
  shows "grid_mid (ddiv (dadd (lvl_price a) (lvl_price b)) 2)"
proof -
  obtain m n where mn: "lvl_price a = of_int m / 10 ^ 4" "lvl_price b = of_int n / 10 ^ 4"
    using assms by (metis grid_level_def on_gridE)
  have r: "0 \<le> lvl_price a + lvl_price b" "lvl_price a + lvl_price b \<le> 2" using assms by (auto simp: grid_level_def)
  have "dadd (lvl_price a) (lvl_price b) = lvl_price a + lvl_price b"
    using assms r by (intro dadd_grid [of 4]) (auto simp: grid_level_def)
  moreover have h: "(lvl_price a + lvl_price b) / 2 = of_int (5 * (m + n)) / 10 ^ 5" by (simp add: mn add_divide_distrib)
  moreover have "on_grid 5 ((lvl_price a + lvl_price b) / 2)"
  proof -
    have "(lvl_price a + lvl_price b) / 2 * 10 ^ 5 = of_int (5 * (m + n))" using h by simp
    moreover have "\<bar>(lvl_price a + lvl_price b) / 2\<bar> * 10 ^ 5 \<le> 10 ^ 28" using r by simp
    ultimately show ?thesis unfolding on_grid_def by (metis floor_of_int)
  qed
  ultimately show ?thesis using r by (simp add: ddiv_def grid_mid_def)
qed

lemma complement_mid: "grid_mid x \<Longrightarrow> dsub 1 x = 1 - x \<and> grid_mid (1 - x)"
  using dsub_grid [of 5 1 x] on_grid_between [of 5 1 x] by (simp add: grid_mid_def on_grid_def)

lemma event_mid_grid: "grid_prices e \<Longrightarrow> event_mid books e = Some (m, x) \<Longrightarrow> grid_mid x"
  by (auto simp: event_mid_def grid_prices_def yes_mid_def yes_mid_from_book_def Let_def complement_mid mid_of_levels
      split: normalized_event.splits option.splits if_split_asm list.splits)

lemma last_mid_grid:
  assumes "list_all grid_prices events" and "last_mid books events m = Some x"
  shows "grid_mid x"
proof -
  let ?f = "\<lambda>e acc. case event_mid books e of None \<Rightarrow> acc | Some (m', x) \<Rightarrow> if m' = m then Some x else acc"
  have "list_all grid_prices events \<Longrightarrow> (\<forall>y. acc = Some y \<longrightarrow> grid_mid y) \<Longrightarrow> fold ?f events acc = Some x \<Longrightarrow> grid_mid x" for acc
  proof (induction events arbitrary: acc)
    case (Cons e events)
    have "\<forall>y. ?f e acc = Some y \<longrightarrow> grid_mid y"
      using Cons.prems(1,2) event_mid_grid [of e books] by (cases "event_mid books e") (auto split: if_split_asm)
    with Cons show ?case by simp
  qed simp
  from this [of None] assms show ?thesis by (simp add: last_mid_def)
qed

section \<open>The price keeps the edge\<close>

text \<open>What a contract of the side is worth when YES is worth \<open>x\<close>.\<close>

definition side_value :: "outcome_side \<Rightarrow> rat \<Rightarrow> rat" where
  "side_value side x = (if side = YES then x else 1 - x)"

lemma side_value_grid: "grid_mid mid \<Longrightarrow> for_side side mid = side_value side mid \<and> grid_mid (side_value side mid)"
  using complement_mid [of mid] by (simp add: for_side_def side_value_def)

lemma buy_limit_cent:
  assumes "grid_mid x" and "buy_limit_from_fair x DEFAULT_TICK = Inr p"
  shows "1 / 100 \<le> p \<and> p \<le> 99 / 100 \<and> (p \<le> x \<or> p = 1 / 100)"
proof -
  have t: "on_grid 8 (1 / 100)" by (simp add: on_grid_def)
  have g: "price_grid x (1 / 100)"
    using assms(1) on_grid_finer [of 5 x 8] t by (simp add: grid_mid_def price_grid_def)
  have "p = max (1 / 100) (min (of_int \<lfloor>x / (1 / 100)\<rfloor> * (1 / 100)) (1 - 1 / 100))"
    using assms(2) price_grid_floor(1) [OF g] clamp_price_Inr [OF t]
    by (simp add: buy_limit_from_fair_def DEFAULT_TICK_def)
  with price_grid_floor(2) [OF g] show ?thesis by (auto simp: max_def min_def)
qed

lemma clip_cent: "1 / 100 \<le> clip x \<and> clip x \<le> 99 / 100 \<and> (clip x \<le> x \<or> clip x = 1 / 100)"
  by (auto simp: clip_def max_def min_def)

lemma edge_exact:
  assumes "grid_mid mid" and "on_grid 20 prob" and "0 \<le> prob" "prob \<le> 1"
  shows "edge_bps prob mid = (prob - mid) * 10000"
proof -
  have m: "on_grid 20 mid" "0 \<le> mid" "mid \<le> 1" using assms(1) on_grid_finer [of 5 mid 20] by (auto simp: grid_mid_def)
  have d: "\<bar>prob + - mid\<bar> \<le> 1" using m assms(3,4) by simp
  have g: "on_grid 20 (prob + - mid)"
    using on_grid_add [of 20 prob "- mid"] assms(2) m(1) grid_room [of "prob + - mid" 0 20] d by simp
  have "on_grid 0 (10000 :: rat)" using on_grid_of_int [of 10000] by simp
  then have "dmul (prob + - mid) 10000 = (prob + - mid) * 10000"
    using g grid_room [of "(prob + - mid) * 10000" 4 20] d by (intro dmul_grid [of 20 _ 0]) (auto simp: abs_mult)
  with g show ?thesis by (simp add: edge_bps_def dsub_def)
qed

lemma edge_order_value:
  assumes "edge_order min_edge quoted prob mid r" and "grid_mid mid"
  shows "\<exists>price. po_price r = Some price \<and> po_order_side r = BUY \<and> 1 / 100 \<le> price \<and> price \<le> 99 / 100 \<and>
    (price \<le> side_value (po_outcome_side r) mid \<or> price = 1 / 100) \<and>
    (on_grid 20 prob \<longrightarrow> min_edge / 10000 \<le> side_value (po_outcome_side r) prob - side_value (po_outcome_side r) mid)"
proof -
  let ?v = "side_value (po_outcome_side r)"
  have v: "for_side (po_outcome_side r) mid = ?v mid" "grid_mid (?v mid)" using side_value_grid [OF assms(2)] by auto
  obtain price where p: "po_price r = Some price" "1 / 100 \<le> price" "price \<le> 99 / 100" "price \<le> ?v mid \<or> price = 1 / 100"
    using assms(1) buy_limit_cent [OF v(2)] clip_cent [of "?v mid"] v(1)
    by (auto simp: edge_order_def priced_on_grid_def priced_clipped_def split: if_split_asm)
  have "min_edge / 10000 \<le> ?v prob - ?v mid" if "on_grid 20 prob"
    using assms(1) edge_exact [OF assms(2) that]
    by (auto simp: edge_order_def side_value_def signal_side_def abs_if split: if_split_asm)
  with p assms(1) show ?thesis by (auto simp: edge_order_def)
qed

definition plugin_run :: "(string \<times> normalized_event) list \<Rightarrow> signal_plugin \<Rightarrow> signal_plugin" where
  "plugin_run history p = fold (\<lambda>(uuid, e) p. snd (plugin_on_event uuid e p)) history p"

lemma created_plugin:
  assumes "create_signal_plugin str_other name params = Inr p"
  shows "plugin_good p \<and> plugin_mids p = []"
  using assms
  by (auto simp: create_signal_plugin_def signal_factories_def map_result_def bind_result_Inr_iff quotes_cached_def
      new_external_edge_def new_box_office_def new_flu_def new_crop_def new_filtered_def new_docket_def new_earnings_def
      new_wildfire_def new_spaceweather_def new_energy_def new_tail_def split: option.splits if_split_asm)

text \<open>
  C4: An order of a signal strategy, created with any parameters and after any history of events,
  answers a signal of the strategy's own source and keeps its edge. It buys, at a price between one
  and ninety-nine cents, the side whose probability by the signal exceeds, by at least the
  configured minimum edge, its mid in the last market data of that market; and it pays no more than
  that mid unless it pays the lowest price of one cent.
\<close>

theorem signal_orders_keep_edge:
  assumes "create_signal_plugin str_other name params = Inr p0" and "list_all (\<lambda>(u, e). grid_prices e) history"
    and "fst (plugin_on_event uuid e (plugin_run history p0)) = Inr ds" and "PlaceOrder r \<in> set ds"
  shows "\<exists>prob mid price. plugin_probability p0 e = Some prob \<and>
    last_mid (plugin_books p0) (map snd history) (market_id (po_instrument_id r)) = Some mid \<and>
    po_price r = Some price \<and> po_order_side r = BUY \<and> 1 / 100 \<le> price \<and> price \<le> 99 / 100 \<and>
    (price \<le> side_value (po_outcome_side r) mid \<or> price = 1 / 100) \<and>
    (on_grid 20 prob \<longrightarrow>
       snd (plugin_base p0) / 10000 \<le> side_value (po_outcome_side r) prob - side_value (po_outcome_side r) mid)"
proof -
  have p0: "plugin_good p0" "plugin_mids p0 = []" using created_plugin [OF assms(1)] by auto
  have "fst (plugin_on_event uuid e (plugins.trade_history history p0)) = Inr ds"
    using assms(3) by (simp add: plugins.trade_history_def plugin_run_def)
  then obtain mid prob where o: "plugin_probability p0 e = Some prob"
    "last_mid (plugin_books p0) (map snd history) (market_id (po_instrument_id r)) = Some mid"
    "edge_order (snd (plugin_base p0)) (plugin_quoted p0) prob mid r"
    by (rule plugins.order_after_history [OF p0 _ assms(4)]) simp
  have "list_all grid_prices (map snd history)" using assms(2) by (auto simp: list_all_iff)
  from edge_order_value [OF o(3) last_mid_grid [OF this o(2)]] o(1,2) show ?thesis by blast
qed

section \<open>Behind the risk gate\<close>

definition plugin_hooks :: "(normalized_event \<Rightarrow> string) \<Rightarrow> signal_plugin strategy_hooks" where
  "plugin_hooks order_uuid = strategy_base (\<lambda>event ctx. plugin_on_event (order_uuid event) event)"

text \<open>The intents a session added to what it had sent before contain no new order.\<close>

definition no_order_since :: "intent_envelope list \<Rightarrow> 'st session \<Rightarrow> bool" where
  "no_order_since before w \<longleftrightarrow>
     (\<exists>new. se_sent w = before @ new \<and> (\<forall>e \<in> set new. \<forall>d. env_decision e \<noteq> PlaceOrder d))"

definition bare :: "strategy_decision \<Rightarrow> bool" where
  "bare d \<longleftrightarrow> (\<forall>r. d = PlaceOrder r \<longrightarrow> po_market_snapshot r = None)"

definition quiet :: "intent_envelope list \<Rightarrow> signal_plugin session \<Rightarrow> bool" where
  "quiet before w \<longleftrightarrow> \<not> plugin_quoted (se_strategy w) \<and> no_order_since before w"

lemma unquoted_good: "\<not> plugin_quoted p \<Longrightarrow> plugin_good p"
  by (cases p) auto

lemma plugin_quoted_step: "plugin_quoted (snd (plugin_on_event u e p)) = plugin_quoted p"
  using plugin_config_step [of u e p] plugin_config_keeps(2) by metis

text \<open>An order of an unquoted strategy carries no snapshot and answers no market data.\<close>

lemma unquoted_decisions:
  assumes "fst (plugin_on_event u e p) = Inr ds" and "\<not> plugin_quoted p" and "d \<in> set ds"
  shows "bare d \<and> attach_triggering_snapshot d e = Inr d"
proof (cases d)
  case (PlaceOrder r)
  obtain mid prob where o: "plugin_probability p e = Some prob" "edge_order (snd (plugin_base p)) (plugin_quoted p) prob mid r"
    using plugin_order [OF unquoted_good [OF assms(2)] assms(1), of r] assms(3) PlaceOrder by blast
  have "po_market_snapshot r = None" using o(2) assms(2) by (auto simp: edge_order_def priced_clipped_def)
  moreover obtain eid x prov where "e = ExternalSignalEvent eid x prov"
    using o(1) by (auto simp: plugin_probability_def split: normalized_event.splits)
  ultimately show ?thesis by (simp add: PlaceOrder bare_def attach_triggering_snapshot_def)
qed (simp_all add: bare_def attach_triggering_snapshot_def)

lemma quiet_wrap:
  assumes "attach_triggering_snapshot d e = Inr d" and "bare d"
  shows "hoare (quiet before) (wrap (session_ports spec sl hooks uuid) d e)
    (\<lambda>env w. quiet before w \<and> bare (env_decision env)) (quiet before)"
  unfolding wrap_def assms(1)
  by (rule hoareI)
    (use assms(2) in \<open>auto simp: act_defs session_ports_def quiet_def no_order_since_def mk_intent_envelope_def validated_Inr_iff
      split: prod.splits sum.splits\<close>)

lemmas quiet_defs = quiet_def no_order_since_def session_ports_def on_strategy_def plugin_hooks_def strategy_base_def in_memory_store_def

lemma quiet_ports:
  fixes before spec sl order_uuid uuid
  defines "pts \<equiv> session_ports spec sl (plugin_hooks order_uuid) uuid"
  shows "stable (quiet before) (pt_context pts)" "stable (quiet before) (pt_now pts)"
    "stable (quiet before) (pt_on_init pts ctx)" "stable (quiet before) (pt_on_shutdown pts ctx)"
    "stable (quiet before) (pt_on_feedback pts fb ctx)" "store_kept (quiet before) (quiet before) pts"
    "stable (quiet before) (pt_pull pts event)"
  by (auto simp: pts_def quiet_defs store_kept_def act_defs hoare_def split: prod.splits sum.splits)

text \<open>The gate never allows an order without a snapshot.\<close>

lemma quiet_evaluate:
  assumes "bare (env_decision env)"
  shows "hoare (quiet before) (pt_evaluate (session_ports spec sl hooks uuid) env ctx)
    (\<lambda>v w. quiet before w \<and> (rd_allowed v \<longrightarrow> (\<forall>r. env_decision env \<noteq> PlaceOrder r))) (quiet before)"
  unfolding session_ports_def ports.simps
  by (rule hoare_update)
    (use assms in \<open>auto simp: quiet_def no_order_since_def bare_def order_within_limits_def dest: gate_clears\<close>)

lemma quiet_decision:
  fixes before spec sl order_uuid uuid
  defines "pts \<equiv> session_ports spec sl (plugin_hooks order_uuid) uuid"
  assumes "attach_triggering_snapshot d e = Inr d" and "bare d"
  shows "hoare (quiet before) (handle_decision pts e d c) (\<lambda>_. quiet before) (quiet before)"
proof -
  let ?Q = "\<lambda>env w. quiet before w \<and> bare (env_decision env)"
  let ?A = "\<lambda>env v w. quiet before w \<and> (rd_allowed v \<longrightarrow> (\<forall>r. env_decision env \<noteq> PlaceOrder r))"
  have w: "hoare (quiet before) (wrap pts d e) ?Q (quiet before)"
    unfolding pts_def by (rule quiet_wrap [OF assms(2,3)])
  have x: "hoare (?Q env) (pt_context pts) (\<lambda>_. ?Q env) (quiet before)" for env
    using quiet_ports(1) [of before spec sl order_uuid uuid] unfolding pts_def by (auto intro!: hoareI dest: hoareD hoareD_raise)
  have v: "hoare (?Q env) (pt_evaluate pts env ctx) (?A env) (quiet before)" for env ctx
    using quiet_evaluate [of env before spec sl "plugin_hooks order_uuid" uuid ctx]
    unfolding pts_def by (auto intro!: hoareI dest: hoareD hoareD_raise)
  have s: "hoare (?A env v) (act_option (pt_verdict_sink pts) (\<lambda>sink. sink env v)) (\<lambda>_. ?A env v) (quiet before)" for env v
    by (rule hoareI) (auto simp: pts_def session_ports_def act_defs act_option_def quiet_def no_order_since_def)
  have rj: "hoare (quiet before) (reject_intent pts env ctx reasons c) (\<lambda>_. quiet before) (quiet before)" for env ctx reasons
    unfolding reject_intent_def emit_feedback_def pts_def
    by (rule hoare_then [OF quiet_ports(5)], rule hoare_return)
  have rs: "hoare (?A env v) (reserve_if_supported pts env) (\<lambda>_. ?A env v) (quiet before)" for env v
    by (rule hoareI) (auto simp: pts_def session_ports_def reserve_if_supported_def act_defs act_update_def quiet_def no_order_since_def
        split: sum.splits prod.splits)
  have em: "\<forall>r. env_decision env \<noteq> PlaceOrder r \<Longrightarrow> hoare (quiet before) (pt_emit pts env) (\<lambda>_. quiet before) (quiet before)" for env
    by (rule hoareI) (auto simp: pts_def session_ports_def quiet_def no_order_since_def)
  have dp: "hoare (?A env v) (dispatch_intent pts env ctx c) (\<lambda>_. quiet before) (quiet before)" if "rd_allowed v" for env v ctx
    unfolding dispatch_intent_def
  proof (rule hoare_bind [OF rs], rule hoare_if)
    show "hoare (?A env v) (reject_intent pts env ctx reasons c) (\<lambda>_. quiet before) (quiet before)" for reasons
      by (rule hoare_weaken [OF rj]) auto
    show "hoare (?A env v) (act_then (pt_emit pts env) (act_then (emit_feedback pts ''IntentAccepted'' env ctx []) (act_return (count_dispatched c))))
        (\<lambda>_. quiet before) (quiet before)"
    proof (cases "\<forall>r. env_decision env \<noteq> PlaceOrder r")
      case True
      show ?thesis
        unfolding emit_feedback_def pts_def
        by (rule hoare_weaken [OF hoare_then [OF em [OF True, unfolded pts_def] hoare_then [OF quiet_ports(5) hoare_return]]]) auto
    qed (use that in \<open>auto simp: hoare_def\<close>)
  qed
  show ?thesis
    unfolding handle_decision_def
  proof (rule hoare_bind [OF w], rule hoare_bind [OF x], rule hoare_bind [OF v], rule hoare_then [OF s], rule hoare_if)
    show "hoare (?A env v) (reject_intent pts env ctx reasons c) (\<lambda>_. quiet before) (quiet before)" for env v ctx reasons
      by (rule hoare_weaken [OF rj]) auto
  qed (rule dp)
qed

lemma quiet_event:
  fixes before spec sl order_uuid uuid
  defines "pts \<equiv> session_ports spec sl (plugin_hooks order_uuid) uuid"
  shows "hoare (quiet before) (handle_event pts e) (\<lambda>step w. events_processed step \<noteq> 0 \<and> quiet before w) (quiet before)"
proof -
  let ?D = "\<lambda>ds w. quiet before w \<and> (\<forall>d \<in> set ds. bare d \<and> attach_triggering_snapshot d e = Inr d)"
  have step: "plugin_quoted p' = plugin_quoted p" if "plugin_on_event u e p = (x, p')" for u p x p'
    using plugin_quoted_step [of u e p] that by simp
  have ds: "bare d \<and> attach_triggering_snapshot d e = Inr d"
    if "plugin_on_event u e p = (Inr ds, p')" "\<not> plugin_quoted p" "d \<in> set ds" for u p ds p' d
    using unquoted_decisions [of u e p ds d] that by simp
  have ev: "hoare (quiet before) (pt_on_event pts e ctx) ?D (quiet before)" for ctx
    by (rule hoareI) (auto simp: pts_def quiet_defs act_zoom_def split: prod.splits dest: step ds)
  have fo: "hoare (?D ds) (act_fold (handle_decision pts e) ds c) (\<lambda>_. quiet before) (quiet before)" for ds c
  proof (cases "\<forall>d \<in> set ds. bare d \<and> attach_triggering_snapshot d e = Inr d")
    case True
    then have "hoare (quiet before) (act_fold (handle_decision pts e) ds c) (\<lambda>_. quiet before) (quiet before)"
      unfolding pts_def by (intro hoare_fold [where P = "\<lambda>_. quiet before"] quiet_decision) auto
    then show ?thesis by (rule hoare_weaken) auto
  qed (auto simp: hoare_def)
  have "hoare (quiet before) (handle_event pts e) (\<lambda>_. quiet before) (quiet before)"
    unfolding handle_event_def
    by (rule hoare_bind [OF quiet_ports(1) [of before spec sl order_uuid uuid, folded pts_def]], rule hoare_bind [OF ev], rule fo)
  then show ?thesis by (auto intro!: hoareI dest: hoareD hoareD_raise handle_event_counts)
qed

text \<open>
  C10: A sleeve that runs one of the six signal strategies that attach no market snapshot never places
  an order: behind the sleeve's risk gate, whatever its parameters, the limits and the events, a run
  sends no new order, whether it returns or raises.
\<close>

theorem unquoted_sleeves_never_trade:
  assumes "name \<in> {''court_docket_timing'', ''earnings_guidance_language'', ''wildfire_smoke_event_cancel'',
      ''spaceweather_grid_disruption'', ''energy_storage_weather_spread'', ''liquidity_tail_risk_insurance''}"
    and "create_signal_plugin str_other name params = Inr (se_strategy (rn_world r))" and "rn_state r = ST_CREATED"
    and "run (session_ports spec sl (plugin_hooks order_uuid) uuid) events r = (x, r')"
  shows "\<exists>new. se_sent (rn_world r') = se_sent (rn_world r) @ new \<and> (\<forall>e \<in> set new. \<forall>d. env_decision e \<noteq> PlaceOrder d)"
proof -
  let ?before = "se_sent (rn_world r)" and ?pts = "session_ports spec sl (plugin_hooks order_uuid) uuid"
  have "create_signal_plugin str_other name params = Inr p \<Longrightarrow> \<not> plugin_quoted p" for p
    using assms(1) by (auto simp: create_signal_plugin_def signal_factories_def map_result_def bind_result_Inr_iff)
  with assms(2) have q: "quiet ?before (rn_world r)" by (auto simp add: quiet_def no_order_since_def)
  have t: "hoare (\<lambda>r. rn_state r = ST_CREATED \<and> quiet ?before (rn_world r)) (run ?pts events)
      (\<lambda>s r. rn_state r = ST_DISPOSED \<and> rs_end_state s = ST_DISPOSED \<and> quiet ?before (rn_world r))
      (\<lambda>r. rn_state r \<in> {ST_CREATED, ST_INITIALIZING, ST_DRAINING, ST_DISPOSED} \<and> quiet ?before (rn_world r))"
    by (rule run_triple [where P = "\<lambda>_. quiet ?before"]) (rule quiet_ports quiet_event)+
  have "quiet ?before (rn_world r')"
    using hoareD [OF t] hoareD_raise [OF t] assms(3,4) q by (cases x) blast+
  then show ?thesis by (simp add: quiet_def no_order_since_def)
qed

section \<open>Concrete runs\<close>

definition demo_params :: frozen_map where
  "demo_params = [(''min_edge_bps'', PyStr ''100'')]"

definition demo_market :: "decimal \<Rightarrow> decimal \<Rightarrow> normalized_event" where
  "demo_market bid ask =
     QuoteEvent ''q1''
       \<lparr>q_instrument_id = \<lparr>iid_venue = KALSHI, market_id = ''M'', outcome_id = None\<rparr>, q_side = YES,
        q_bid = Some \<lparr>lvl_price = bid, lvl_quantity = 9\<rparr>, q_ask = Some \<lparr>lvl_price = ask, lvl_quantity = 9\<rparr>,
        q_exchange_ts = Some (utc 400000), q_received_at = utc 400000\<rparr>
       default_provenance"

definition demo_signal :: "string \<Rightarrow> string \<Rightarrow> frozen_map \<Rightarrow> normalized_event" where
  "demo_signal source key extra =
     ExternalSignalEvent ''s1''
       \<lparr>ext_source = source, ext_exchange_ts = None, ext_received_at = utc 500000, ext_schema_version = ''v1'',
        ext_payload = extra @ [(key, PyStr ''0.60''), (''market_id'', PyStr ''M'')]\<rparr>
       default_provenance"

definition demo_docket :: signal_plugin where
  "demo_docket =
     CourtDocket \<lparr>sg_signal_source = ''court-docket'', sg_min_edge_bps = 100, sg_size = 4, sg_venue = KALSHI, sg_mids = [], fs_minimum = 1 / 2\<rparr>"

lemma demo_plugin:
  "create_signal_plugin (\<lambda>_. []) ''court_docket_timing'' demo_params = Inr demo_docket"
  by code_simp

definition demo_docket_signal :: normalized_event where
  "demo_docket_signal = demo_signal ''court-docket'' ''timing_probability'' [(''docket_intensity'', PyInt 1)]"

text \<open>The sides and markets of the orders of an answer.\<close>

definition orders_of :: "strategy_decision list result \<Rightarrow> (outcome_side \<times> string) option list result" where
  "orders_of ds =
     map_result (map (\<lambda>d. case d of PlaceOrder r \<Rightarrow> Some (po_outcome_side r, market_id (po_instrument_id r)) | _ \<Rightarrow> None)) ds"

lemma single_order:
  assumes "orders_of ds = Inr [Some (side, m)]"
  obtains r where "ds = Inr [PlaceOrder r]" and "po_outcome_side r = side" and "market_id (po_instrument_id r) = m"
proof -
  obtain z where z: "ds = Inr [z]"
    "(case z of PlaceOrder r \<Rightarrow> Some (po_outcome_side r, market_id (po_instrument_id r)) | _ \<Rightarrow> None) = Some (side, m)"
    using assms by (auto simp: orders_of_def map_result_def bind_result_Inr_iff map_eq_Cons_conv)
  then show thesis by (cases z) (auto intro: that)
qed

theorem signal_orders_keep_edge_witness:
  "\<exists>r price. fst (plugin_on_event ''u'' demo_docket_signal (plugin_run [(''u'', demo_market (40 / 100) (44 / 100))] demo_docket)) = Inr [PlaceOrder r] \<and>
     po_price r = Some price \<and> price \<le> 42 / 100 \<and> 1 / 100 \<le> 60 / 100 - price"
proof -
  let ?h = "[(''u'', demo_market (40 / 100) (44 / 100))]"
  have "orders_of (fst (plugin_on_event ''u'' demo_docket_signal (plugin_run ?h demo_docket))) = Inr [Some (YES, ''M'')]" by code_simp
  then obtain r where r: "fst (plugin_on_event ''u'' demo_docket_signal (plugin_run ?h demo_docket)) = Inr [PlaceOrder r]"
    "po_outcome_side r = YES" "market_id (po_instrument_id r) = ''M''"
    by (rule single_order)
  have g: "list_all (\<lambda>(u, e). grid_prices e) ?h" by code_simp
  have e: "plugin_probability demo_docket demo_docket_signal = Some (60 / 100)" "last_mid (plugin_books demo_docket) (map snd ?h) ''M'' = Some (42 / 100)"
    "snd (plugin_base demo_docket) = 100" "on_grid 20 (60 / 100)" by code_simp+
  have "PlaceOrder r \<in> set [PlaceOrder r]" by simp
  from signal_orders_keep_edge [OF demo_plugin g r(1) this] r e show ?thesis by (auto simp: side_value_def)
qed

definition demo_docket_runner :: "signal_plugin session runner" where
  "demo_docket_runner =
     \<lparr>rn_state = ST_CREATED, rn_world =
       \<lparr>se_strategy = demo_docket, se_gate = new_gate, se_portfolio = pf_demo, se_sent = [], se_clock = utc 500000, se_draws = 0,
        se_blobs = [], se_verdicts = []\<rparr>\<rparr>"

definition demo_docket_run :: "run_summary result \<times> signal_plugin session runner" where
  "demo_docket_run =
     run (session_ports demo_spec gate_sleeve (plugin_hooks (\<lambda>e. ''u'')) (\<lambda>n. ''x''))
       [demo_market (40 / 100) (44 / 100), demo_docket_signal]
       demo_docket_runner"

theorem unquoted_sleeves_never_trade_witness:
  "(case fst demo_docket_run of
      Inr s \<Rightarrow> intents_rejected (rs_counts s) = 1 \<and> dict_get (rejection_reasons (rs_counts s)) ''missing_market_snapshot'' = Some 1
    | Inl e \<Rightarrow> False) \<and>
   list_all (\<lambda>e. case env_decision e of PlaceOrder d \<Rightarrow> False | _ \<Rightarrow> True) (se_sent (rn_world (snd demo_docket_run)))"
proof -
  have "case fst demo_docket_run of
      Inr s \<Rightarrow> intents_rejected (rs_counts s) = 1 \<and> dict_get (rejection_reasons (rs_counts s)) ''missing_market_snapshot'' = Some 1
    | Inl e \<Rightarrow> False" by code_simp
  moreover have s: "create_signal_plugin (\<lambda>_. []) ''court_docket_timing'' demo_params = Inr (se_strategy (rn_world demo_docket_runner))"
    "rn_state demo_docket_runner = ST_CREATED" "se_sent (rn_world demo_docket_runner) = []"
    by (simp_all add: demo_plugin demo_docket_runner_def)
  obtain x r' where r: "demo_docket_run = (x, r')" by (cases demo_docket_run)
  from unquoted_sleeves_never_trade [OF _ s(1,2) r [unfolded demo_docket_run_def]] s(3) r
  have "list_all (\<lambda>e. case env_decision e of PlaceOrder d \<Rightarrow> False | _ \<Rightarrow> True) (se_sent (rn_world r'))"
    by (auto simp: list_all_iff split: strategy_decision.split)
  ultimately show ?thesis by (simp add: r)
qed

end
