(* ===== verification/MarketDetection.thy ===== *)
theory MarketDetection
  imports AuditTrail Numerals
begin

text \<open>
  \<open>markets/detection.py\<close> and \<open>ingestion/subscriptions.py\<close>: the in-memory catalogue of markets, the
  detector that matches a strategy's subscription against it, with the shell-style patterns of
  Python's \<open>fnmatch\<close>, and the planner that unites the subscriptions of the active strategies. The
  clock's reading and the sha256 digest of a candidate's audit payload are arguments.
\<close>

section \<open>Shell-style patterns\<close>

text \<open>
  \<open>fnmatch.fnmatchcase\<close>: a star matches any text, a question mark one character, a bracket
  expression one character of a set (of its complement after an exclamation mark); a bracket that is
  never closed stands for itself. The first character of a set may be the closing bracket, and a
  hyphen at either end of it stands for itself.
\<close>

fun set_ranges :: "string \<Rightarrow> (char \<times> char) list" where
  "set_ranges [] = []"
| "set_ranges (a # s) =
     (case s of
        h # b # t \<Rightarrow> if h = CHR ''-'' then (a, b) # set_ranges t else (a, a) # set_ranges s
      | _ \<Rightarrow> (a, a) # set_ranges s)"

definition in_char_set :: "bool \<Rightarrow> string \<Rightarrow> char \<Rightarrow> bool" where
  "in_char_set negated stuff c \<longleftrightarrow>
     (list_ex (\<lambda>(a, b). a \<le> c \<and> c \<le> b) (set_ranges stuff) \<noteq> negated)"

definition split_char_set :: "string \<Rightarrow> (bool \<times> string \<times> string) option" where
  "split_char_set s =
     (let negated = (s \<noteq> [] \<and> hd s = CHR ''!'');
          t = (if negated then tl s else s);
          n = (if t \<noteq> [] \<and> hd t = CHR '']'' then 1 else 0);
          u = drop n t
      in if CHR '']'' \<in> set u
         then Some (negated, take n t @ takeWhile (\<lambda>c. c \<noteq> CHR '']'') u, tl (dropWhile (\<lambda>c. c \<noteq> CHR '']'') u))
         else None)"

lemma split_char_set_shorter:
  assumes "split_char_set s = Some (negated, stuff, rest)"
  shows "length rest < Suc (length s)"
proof -
  have le: "length (dropWhile P xs) - Suc 0 \<le> length xs" for P and xs :: string
    using length_dropWhile_le [of P xs] by linarith
  define t where "t = (if s \<noteq> [] \<and> hd s = CHR ''!'' then tl s else s)"
  define u where "u = drop (if t \<noteq> [] \<and> hd t = CHR '']'' then 1 else 0) t"
  have "length u \<le> length s" and "rest = tl (dropWhile (\<lambda>c. c \<noteq> CHR '']'') u)"
    using assms by (auto simp: split_char_set_def Let_def t_def u_def split: if_splits)
  then show ?thesis using le [of "\<lambda>c. c \<noteq> CHR '']''" u] by simp
qed

function fnmatchcase :: "string \<Rightarrow> string \<Rightarrow> bool" where
  "fnmatchcase s [] = (s = [])"
| "fnmatchcase [] (p # ps) = (if p = CHR ''*'' then fnmatchcase [] ps else False)"
| "fnmatchcase (c # cs) (p # ps) =
     (if p = CHR ''*'' then (if fnmatchcase (c # cs) ps then True else fnmatchcase cs (p # ps))
      else if p = CHR ''?'' then fnmatchcase cs ps
      else
        (case (if p = CHR ''['' then split_char_set ps else None) of
           Some (negated, stuff, rest) \<Rightarrow> if in_char_set negated stuff c then fnmatchcase cs rest else False
         | None \<Rightarrow> if p = c then fnmatchcase cs ps else False))"
  by pat_completeness auto
termination
  by (relation "measure (\<lambda>(s, ps). length s + length ps)")
    (auto dest!: split_char_set_shorter split: if_splits)

section \<open>Policy and candidates\<close>

record detection_policy =
  allowed_statuses :: "market_status list"
  dp_categories :: "string list"
  max_markets :: "int option"

definition DEFAULT_DETECTION_POLICY :: detection_policy where
  "DEFAULT_DETECTION_POLICY = \<lparr>allowed_statuses = [STATUS_OPEN], dp_categories = [], max_markets = None\<rparr>"

definition detection_policy_check :: "detection_policy \<Rightarrow> py_error option" where
  [record_defs]: "detection_policy_check p =
     first_error
       ([check (allowed_statuses p \<noteq> []) (ValueError ''allowed_statuses must be non-empty''),
         (case max_markets p of None \<Rightarrow> None | Some n \<Rightarrow> require_positive_int n ''max_markets'')]
        @ map (\<lambda>c. require_non_empty c ''category'') (dp_categories p))"

record market_candidate =
  mc_market :: market
  mc_score :: int
  mc_reasons :: "string list"
  mc_detected_at :: datetime
  mc_audit :: audit_stamp

definition market_candidate_check :: "market_candidate \<Rightarrow> py_error option" where
  [record_defs]: "market_candidate_check c =
     first_error
       [require_aware_datetime (mc_detected_at c) ''detected_at'',
        check (mc_reasons c \<noteq> []) (ValueError ''market candidate reasons must be non-empty'')]"

section \<open>The catalogue\<close>

type_synonym market_catalog = "(instrument_id, market) dict"

definition upsert_market :: "market \<Rightarrow> market_catalog \<Rightarrow> market_catalog" where
  "upsert_market m cat = dict_set (mkt_instrument_id m) m cat"

definition extend_markets :: "market list \<Rightarrow> market_catalog \<Rightarrow> market_catalog" where
  "extend_markets ms cat = fold upsert_market ms cat"

definition refresh_markets :: "market list \<Rightarrow> market_catalog \<Rightarrow> market_catalog" where
  "refresh_markets ms cat = extend_markets ms []"

text \<open>The market leaves its old key before \<open>replace\<close> checks the renamed one.\<close>

definition on_ticker_rename ::
  "instrument_id \<Rightarrow> instrument_id \<Rightarrow> market_catalog \<Rightarrow> unit result \<times> market_catalog" where
  "on_ticker_rename old new cat =
     (case dict_get cat old of
        None \<Rightarrow> (Inr (), cat)
      | Some m \<Rightarrow>
          (case mk_market (m\<lparr>mkt_instrument_id := new\<rparr>) of
             Inl e \<Rightarrow> (Inl e, dict_pop old cat)
           | Inr m' \<Rightarrow> (Inr (), dict_set new m' (dict_pop old cat))))"

definition id_sort_key :: "instrument_id \<Rightarrow> string \<times> string \<times> string" where
  "id_sort_key i =
     (venue_value (iid_venue i), market_id i, case outcome_id i of None \<Rightarrow> [] | Some oc \<Rightarrow> oc)"

definition market_sort_key :: "market \<Rightarrow> string \<times> string \<times> string" where
  "market_sort_key m = id_sort_key (mkt_instrument_id m)"

definition list_markets :: "venue option \<Rightarrow> market_catalog \<Rightarrow> market list" where
  "list_markets v cat =
     sort_key market_sort_key
       (filter (\<lambda>m. v = None \<or> v = Some (iid_venue (mkt_instrument_id m))) (dict_values cat))"

section \<open>The detector\<close>

definition pattern_score :: "string \<Rightarrow> market \<Rightarrow> int" where
  "pattern_score pattern m =
     (let mid = market_id (mkt_instrument_id m);
          oid = (case outcome_id (mkt_instrument_id m) of None \<Rightarrow> [] | Some oc \<Rightarrow> oc);
          haystack = [mid, oid, mkt_title m, case mkt_category m of None \<Rightarrow> [] | Some c \<Rightarrow> c]
      in if pattern = mid \<or> pattern = oid then 100
         else if list_ex (\<lambda>v. fnmatchcase v pattern) haystack then 50
         else if list_ex (\<lambda>v. fnmatchcase (str_lower v) (str_lower pattern)) haystack then 40
         else 0)"

definition match_patterns :: "string list \<Rightarrow> market \<Rightarrow> int \<times> string list" where
  "match_patterns patterns m =
     fold (\<lambda>p (score, reasons).
             let s = pattern_score p m
             in if s > 0 then (score + s, reasons @ [''matched_pattern:'' @ p]) else (score, reasons))
       patterns (0, [])"

definition candidate_for ::
  "(event_subscription \<Rightarrow> market \<Rightarrow> int \<Rightarrow> string list \<Rightarrow> string) \<Rightarrow> detection_policy \<Rightarrow> event_subscription \<Rightarrow>
   market \<Rightarrow> datetime \<Rightarrow> market_candidate option result" where
  "candidate_for digest p sub m now =
     (let iid = mkt_instrument_id m
      in if mkt_status m \<notin> set (allowed_statuses p) then Inr None
         else if dp_categories p \<noteq> [] \<and>
                 (case mkt_category m of None \<Rightarrow> True | Some c \<Rightarrow> c \<notin> set (dp_categories p)) then Inr None
         else
           (let (score, reasons) = match_patterns (instrument_patterns sub) m
            in if reasons = [] then Inr None
               else
                 (let (score1, reasons1) =
                        (if mkt_status m = STATUS_OPEN then (score + 10, reasons @ [''status_open'']) else (score, reasons));
                      (score2, reasons2) =
                        (case mkt_category m of
                           None \<Rightarrow> (score1, reasons1)
                         | Some c \<Rightarrow> (score1 + 1, reasons1 @ [''category:'' @ c]))
                  in bind_result
                       (audit_stamp_for (digest sub m score2 reasons2)
                          (''market-detection:'' @ venue_value (iid_venue iid) @ '':'' @ market_id iid @ '':'' @ isoformat now)
                          ''market_candidate'' ''market-detection-v1'' now ''subscription_market_detector''
                          [market_id iid] None None)
                       (\<lambda>audit.
                         let c = \<lparr>mc_market = m, mc_score = score2, mc_reasons = reasons2, mc_detected_at = now,
                                  mc_audit = audit\<rparr>
                         in bind_result (validated (market_candidate_check c) c) (\<lambda>c. Inr (Some c))))))"

definition candidate_key :: "market_candidate \<Rightarrow> int \<times> string \<times> string \<times> string" where
  "candidate_key c = (- mc_score c, market_sort_key (mc_market c))"

definition detect_venue ::
  "(event_subscription \<Rightarrow> market \<Rightarrow> int \<Rightarrow> string list \<Rightarrow> string) \<Rightarrow> detection_policy \<Rightarrow> event_subscription \<Rightarrow>
   market_catalog \<Rightarrow> datetime \<Rightarrow> venue \<Rightarrow> market_candidate list \<Rightarrow> market_candidate list result" where
  "detect_venue digest p sub cat now v =
     fold_result (\<lambda>m cs. bind_result (candidate_for digest p sub m now)
                          (\<lambda>c. Inr (case c of None \<Rightarrow> cs | Some c \<Rightarrow> cs @ [c])))
       (list_markets (Some v) cat)"

definition detect ::
  "(event_subscription \<Rightarrow> market \<Rightarrow> int \<Rightarrow> string list \<Rightarrow> string) \<Rightarrow> detection_policy \<Rightarrow> market_catalog \<Rightarrow>
   datetime \<Rightarrow> event_subscription \<Rightarrow> market_candidate list result" where
  "detect digest p cat now sub =
     (case require_aware_datetime now ''market detector clock'' of
        Some e \<Rightarrow> Inl e
      | None \<Rightarrow>
          bind_result (fold_result (detect_venue digest p sub cat now) (sub_venues sub) []) (\<lambda>cs.
            let ranked = sort_key candidate_key cs
            in Inr (case max_markets p of None \<Rightarrow> ranked | Some n \<Rightarrow> take (nat n) ranked)))"

section \<open>The subscription plan\<close>

record event_subscription_plan =
  plan_venues :: "venue list"
  plan_patterns :: "string list"
  plan_event_kinds :: "string list"
  plan_external_sources :: "string list"

text \<open>\<open>sorted(set(\<dots>))\<close> of the united subscriptions; the venues sort by their values.\<close>

definition subscription_plan :: "strategy_spec list \<Rightarrow> event_subscription_plan" where
  "subscription_plan specs =
     (let subs = map subscription specs
      in \<lparr>plan_venues = sort_key venue_value (remdups (concat (map sub_venues subs))),
          plan_patterns = sort (remdups (concat (map instrument_patterns subs))),
          plan_event_kinds = sort (remdups (concat (map sub_event_kinds subs))),
          plan_external_sources = sort (remdups (concat (map external_sources subs)))\<rparr>)"

end
