(* ===== verification/Histories.thy ===== *)
theory Histories
  imports Main
begin

text \<open>
  State machines that follow a history: a component that changes its state one input at a time and
  whose state is to agree with what the inputs so far say. The locale states the obligation for one
  input; the agreement after any history is proved once.
\<close>

locale follows_history =
  fixes step :: "'e \<Rightarrow> 's \<Rightarrow> 's"
    and admissible :: "'e \<Rightarrow> bool"
    and agrees :: "'e list \<Rightarrow> 's \<Rightarrow> bool"
  assumes agrees_step: "agrees es s \<Longrightarrow> admissible e \<Longrightarrow> agrees (es @ [e]) (step e s)"
begin

lemma agrees_after:
  "agrees [] s0 \<Longrightarrow> list_all admissible es \<Longrightarrow> agrees es (fold step es s0)"
  by (induction es rule: rev_induct) (auto intro: agrees_step)

end

end
