(* ===== verification/DetectionProps.thy ===== *)
theory DetectionProps
  imports MarketDetection Histories
begin

text \<open>
  Properties of market detection: the catalogue files every market under its own id, so its sort key
  is unique and what \<open>detect\<close> returns depends on the markets filed, not on the history that filed
  them; the candidates are the best-scored markets that the policy and the subscription admit.
\<close>

section \<open>Histories of the catalogue\<close>

datatype catalog_call = Upsert market | Extend "market list" | Refresh "market list" | Rename instrument_id instrument_id

fun catalog_step :: "catalog_call \<Rightarrow> market_catalog \<Rightarrow> market_catalog" where
  "catalog_step (Upsert m) cat = upsert_market m cat"
| "catalog_step (Extend ms) cat = extend_markets ms cat"
| "catalog_step (Refresh ms) cat = refresh_markets ms cat"
| "catalog_step (Rename old new) cat = snd (on_ticker_rename old new cat)"

definition catalog_after :: "catalog_call list \<Rightarrow> market_catalog" where
  "catalog_after calls = fold catalog_step calls []"

text \<open>The ids of the arguments were constructed, so their parts are not empty.\<close>

definition id_ok :: "instrument_id \<Rightarrow> bool" where
  "id_ok i \<longleftrightarrow> instrument_id_check i = None"

fun call_ids_ok :: "catalog_call \<Rightarrow> bool" where
  "call_ids_ok (Upsert m) = id_ok (mkt_instrument_id m)"
| "call_ids_ok (Extend ms) = (\<forall>m \<in> set ms. id_ok (mkt_instrument_id m))"
| "call_ids_ok (Refresh ms) = (\<forall>m \<in> set ms. id_ok (mkt_instrument_id m))"
| "call_ids_ok (Rename old new) = id_ok new"

definition catalog_inv :: "market_catalog \<Rightarrow> bool" where
  "catalog_inv cat \<longleftrightarrow> wf_dict cat \<and> (\<forall>(i, m) \<in> set cat. i = mkt_instrument_id m \<and> id_ok i)"

lemma catalog_inv_Nil [simp, keeps]: "catalog_inv []"
  by (simp add: catalog_inv_def)

lemma set_dict_set: "set (dict_set k v d) \<subseteq> insert (k, v) (set d)"
  by (induction d) auto

lemma catalog_inv_set [keeps]:
  "catalog_inv cat \<Longrightarrow> id_ok (mkt_instrument_id m) \<Longrightarrow> catalog_inv (dict_set (mkt_instrument_id m) m cat)"
  using set_dict_set [of "mkt_instrument_id m" m cat] by (fastforce simp: catalog_inv_def)

lemma catalog_inv_pop [keeps]: "catalog_inv cat \<Longrightarrow> catalog_inv (dict_pop i cat)"
  by (auto simp: catalog_inv_def dict_pop_def)

lemma catalog_inv_extend [keeps]:
  "catalog_inv cat \<Longrightarrow> \<forall>m \<in> set ms. id_ok (mkt_instrument_id m) \<Longrightarrow> catalog_inv (extend_markets ms cat)"
  unfolding extend_markets_def
  by (induction ms arbitrary: cat) (auto simp: upsert_market_def catalog_inv_set)

lemma catalog_inv_rename [keeps]:
  assumes "catalog_inv cat" and "id_ok new"
  shows "catalog_inv (snd (on_ticker_rename old new cat))"
proof -
  have id: "mkt_instrument_id m' = new" if "mk_market (m\<lparr>mkt_instrument_id := new\<rparr>) = Inr m'" for m m'
    using that by (auto simp: mk_market_def)
  show ?thesis
    using assms catalog_inv_pop [OF assms(1), of old] catalog_inv_set [OF catalog_inv_pop [OF assms(1)]]
    by (auto simp: on_ticker_rename_def split: option.splits sum.splits dest!: id)
qed

lemma catalog_inv_step [keeps]: "catalog_inv cat \<Longrightarrow> call_ids_ok c \<Longrightarrow> catalog_inv (catalog_step c cat)"
  by (cases c) (auto simp: upsert_market_def refresh_markets_def intro: keeps)

interpretation catalog: follows_history catalog_step call_ids_ok "\<lambda>_. catalog_inv"
  by unfold_locales (rule catalog_inv_step)

lemma catalog_inv_after: "\<forall>c \<in> set calls. call_ids_ok c \<Longrightarrow> catalog_inv (catalog_after calls)"
  using catalog.agrees_after [of "[]" calls] by (simp add: catalog_after_def list_all_iff)

section \<open>The order of the catalogue\<close>

lemma venue_value_inj: "venue_value v = venue_value w \<longleftrightarrow> v = w"
  by (cases v; cases w) simp_all

lemma id_sort_key_inj: "id_ok i \<Longrightarrow> id_ok j \<Longrightarrow> id_sort_key i = id_sort_key j \<Longrightarrow> i = j"
  by (cases i; cases j)
    (auto simp: id_ok_def id_sort_key_def venue_value_inj instrument_id_check_def require_optional_non_empty_def
      require_non_empty_def split: option.splits)

lemma filter_eq_single: "distinct zs \<Longrightarrow> k \<in> set zs \<Longrightarrow> filter (\<lambda>x. x = k) zs = [k]"
  by (induction zs) (auto simp: filter_empty_conv)

lemma sort_key_unique:
  assumes "mset xs = mset ys" and "inj_on f (set xs)" and "distinct xs"
  shows "sort_key f xs = sort_key f ys"
proof (rule properties_for_sort_key)
  show "mset (sort_key f ys) = mset xs" using assms(1) by simp
  show "sorted (map f (sort_key f ys))" by simp
  fix k
  assume k: "k \<in> set (sort_key f ys)"
  have eq: "set ys = set xs" using assms(1) by (metis mset_eq_setD)
  have dy: "distinct (sort_key f ys)"
    using assms(1,3) by (metis distinct_sort mset_eq_imp_distinct_iff)
  have single: "filter (\<lambda>x. f k = f x) zs = [k]" if "distinct zs" and "set zs = set xs" for zs
  proof -
    have "filter (\<lambda>x. f k = f x) zs = filter (\<lambda>x. x = k) zs"
      using that k eq assms(2) by (intro filter_cong) (auto dest: inj_onD)
    then show ?thesis using that k eq by (simp add: filter_eq_single)
  qed
  show "filter (\<lambda>x. f k = f x) (sort_key f ys) = filter (\<lambda>x. f k = f x) xs"
    using single [OF dy] single [OF assms(3)] eq by simp
qed

lemma catalog_values:
  assumes "catalog_inv cat"
  shows "distinct (dict_values cat)" and "inj_on market_sort_key (set (dict_values cat))"
    and "m \<in> set (dict_values cat) \<longleftrightarrow> dict_get cat (mkt_instrument_id m) = Some m"
proof -
  have keys: "map fst cat = map mkt_instrument_id (dict_values cat)"
    using assms by (auto simp: catalog_inv_def dict_values_def)
  then have "distinct (map mkt_instrument_id (dict_values cat))"
    using assms by (simp add: catalog_inv_def wf_dict_def)
  then have d: "distinct (dict_values cat)" and inj: "inj_on mkt_instrument_id (set (dict_values cat))"
    by (simp_all add: distinct_map)
  then show "distinct (dict_values cat)" by simp
  have ok: "\<forall>m \<in> set (dict_values cat). id_ok (mkt_instrument_id m)"
    using assms by (auto simp: catalog_inv_def dict_values_def)
  show "inj_on market_sort_key (set (dict_values cat))"
    using ok inj by (intro inj_onI) (auto simp: market_sort_key_def dest: id_sort_key_inj inj_onD)
  show "m \<in> set (dict_values cat) \<longleftrightarrow> dict_get cat (mkt_instrument_id m) = Some m"
    using assms by (force simp: catalog_inv_def dict_values_def wf_dict_get_iff)
qed

lemma list_markets_set:
  "catalog_inv cat \<Longrightarrow>
   m \<in> set (list_markets (Some v) cat) \<longleftrightarrow>
     dict_get cat (mkt_instrument_id m) = Some m \<and> iid_venue (mkt_instrument_id m) = v"
  by (auto simp: list_markets_def catalog_values(3))

lemma list_markets_same:
  assumes "catalog_inv a" and "catalog_inv b" and "dict_get a = dict_get b"
  shows "list_markets v a = list_markets v b"
proof -
  let ?keep = "\<lambda>m. v = None \<or> v = Some (iid_venue (mkt_instrument_id m))"
  have "set (dict_values a) = set (dict_values b)"
    using assms catalog_values(3) by (metis subsetI subset_antisym)
  then have "mset (filter ?keep (dict_values a)) = mset (filter ?keep (dict_values b))"
    using catalog_values(1) [OF assms(1)] catalog_values(1) [OF assms(2)]
    by (simp add: mset_filter set_eq_iff_mset_eq_distinct)
  then show ?thesis
    unfolding list_markets_def
    using catalog_values(1,2) [OF assms(1)] by (intro sort_key_unique) (auto intro: inj_on_subset)
qed

text \<open>
  What the detector returns for a subscription depends only on the markets the catalogue holds:
  two histories of the catalogue - insertions, bulk refreshes and ticker renames, in any order and
  with any overwriting - that file the same markets are answered with the same candidates in the
  same order.
\<close>

theorem detection_ignores_history:
  assumes "\<forall>c \<in> set xs. call_ids_ok c" and "\<forall>c \<in> set ys. call_ids_ok c"
    and "dict_get (catalog_after xs) = dict_get (catalog_after ys)"
  shows "detect digest p (catalog_after xs) now sub = detect digest p (catalog_after ys) now sub"
proof -
  have "list_markets v (catalog_after xs) = list_markets v (catalog_after ys)" for v
    using assms by (intro list_markets_same catalog_inv_after)
  then have eq: "detect_venue digest p sub (catalog_after xs) now = detect_venue digest p sub (catalog_after ys) now"
    by (intro ext) (simp add: detect_venue_def)
  show ?thesis unfolding detect_def eq ..
qed

text \<open>Two markets, one filed under an older ticker and renamed.\<close>

definition demo_market :: "string \<Rightarrow> string \<Rightarrow> market" where
  "demo_market ticker title =
     \<lparr>mkt_instrument_id = \<lparr>iid_venue = KALSHI, market_id = ticker, outcome_id = None\<rparr>, mkt_title = title,
      mkt_category = Some ''climate'', mkt_status = STATUS_OPEN, opens_at = None, closes_at = None, settles_at = None,
      mkt_metadata = []\<rparr>"

definition demo_calls :: "catalog_call list" where
  "demo_calls = [Extend [demo_market ''KXHIGHNY'' ''high'', demo_market ''KXRAIN'' ''rain'']]"

definition demo_renamed :: "catalog_call list" where
  "demo_renamed =
     [Upsert (demo_market ''KXRAIN'' ''rain''), Upsert (demo_market ''HIGHNY'' ''high''),
      Rename (mkt_instrument_id (demo_market ''HIGHNY'' ''high'')) (mkt_instrument_id (demo_market ''KXHIGHNY'' ''high''))]"

definition demo_subscription :: event_subscription where
  "demo_subscription =
     \<lparr>sub_venues = [KALSHI], instrument_patterns = [''KX*''], sub_event_kinds = [''quote''], external_sources = []\<rparr>"

definition demo_digest :: "event_subscription \<Rightarrow> market \<Rightarrow> int \<Rightarrow> string list \<Rightarrow> string" where
  "demo_digest sub m s r = replicate 64 CHR ''a''"

lemma demo_catalogs:
  "catalog_after demo_calls =
     [(mkt_instrument_id (demo_market ''KXHIGHNY'' ''high''), demo_market ''KXHIGHNY'' ''high''),
      (mkt_instrument_id (demo_market ''KXRAIN'' ''rain''), demo_market ''KXRAIN'' ''rain'')]"
  "catalog_after demo_renamed =
     [(mkt_instrument_id (demo_market ''KXRAIN'' ''rain''), demo_market ''KXRAIN'' ''rain''),
      (mkt_instrument_id (demo_market ''KXHIGHNY'' ''high''), demo_market ''KXHIGHNY'' ''high'')]"
  by code_simp+

lemma demo_ids_ok:
  "\<forall>c \<in> set demo_calls. call_ids_ok c" "\<forall>c \<in> set demo_renamed. call_ids_ok c"
  by code_simp+

theorem detection_ignores_history_witness:
  "detect demo_digest DEFAULT_DETECTION_POLICY (catalog_after demo_renamed) (utc 0) demo_subscription =
   detect demo_digest DEFAULT_DETECTION_POLICY (catalog_after demo_calls) (utc 0) demo_subscription"
  by (rule detection_ignores_history [OF demo_ids_ok(2,1)]) (auto simp: demo_catalogs fun_eq_iff demo_market_def)

section \<open>What is a candidate\<close>

definition admitted :: "detection_policy \<Rightarrow> market \<Rightarrow> bool" where
  "admitted p m \<longleftrightarrow>
     mkt_status m \<in> set (allowed_statuses p) \<and>
     (dp_categories p = [] \<or> (\<exists>c \<in> set (dp_categories p). mkt_category m = Some c))"

definition matching :: "event_subscription \<Rightarrow> market \<Rightarrow> string list" where
  "matching sub m = filter (\<lambda>q. pattern_score q m > 0) (instrument_patterns sub)"

definition market_score :: "event_subscription \<Rightarrow> market \<Rightarrow> int" where
  "market_score sub m =
     (\<Sum>q\<leftarrow>matching sub m. pattern_score q m) + (if mkt_status m = STATUS_OPEN then 10 else 0)
     + (if mkt_category m \<noteq> None then 1 else 0)"

lemma pattern_score_nonneg: "0 \<le> pattern_score q m"
  by (simp add: pattern_score_def Let_def)

lemma match_patterns_eq:
  "match_patterns qs m =
     (\<Sum>q\<leftarrow>filter (\<lambda>q. pattern_score q m > 0) qs. pattern_score q m,
      map ((@) ''matched_pattern:'') (filter (\<lambda>q. pattern_score q m > 0) qs))"
proof -
  let ?step = "\<lambda>p (score, reasons).
      let s = pattern_score p m in if s > 0 then (score + s, reasons @ [''matched_pattern:'' @ p]) else (score, reasons)"
  have "fold ?step qs (s0, r0) =
      (s0 + (\<Sum>q\<leftarrow>filter (\<lambda>q. pattern_score q m > 0) qs. pattern_score q m),
       r0 @ map ((@) ''matched_pattern:'') (filter (\<lambda>q. pattern_score q m > 0) qs))" for s0 :: int and r0
    by (induction qs arbitrary: s0 r0) (simp_all add: Let_def)
  from this [of 0 "[]"] show ?thesis by (simp add: match_patterns_def)
qed

lemma candidate_check:
  "is_aware (mc_detected_at c) \<Longrightarrow> mc_reasons c \<noteq> [] \<Longrightarrow> market_candidate_check c = None"
  by (simp add: record_defs)

definition hex_digests :: "(event_subscription \<Rightarrow> market \<Rightarrow> int \<Rightarrow> string list \<Rightarrow> string) \<Rightarrow> bool" where
  "hex_digests digest \<longleftrightarrow> (\<forall>sub m s r. length (digest sub m s r) = 64)"

text \<open>With a clock that is aware and digests of the length of a sha256, building a candidate never raises.\<close>

lemma candidate_for_total:
  assumes "is_aware now" and "hex_digests digest" and "id_ok (mkt_instrument_id m)"
  shows "candidate_for digest p sub m now = Inr None \<and> \<not> (admitted p m \<and> matching sub m \<noteq> []) \<or>
    (\<exists>c. candidate_for digest p sub m now = Inr (Some c) \<and> admitted p m \<and> matching sub m \<noteq> [] \<and>
         mc_market c = m \<and> mc_score c = market_score sub m)"
proof -
  have stamp: "audit_stamp_for (digest sub m s r) oid ''market_candidate'' ''market-detection-v1'' now
      ''subscription_market_detector'' [market_id (mkt_instrument_id m)] None None =
      Inr \<lparr>au_object_id = oid, au_object_kind = ''market_candidate'', au_schema_version = ''market-detection-v1'',
           au_produced_at = now, au_producer = ''subscription_market_detector'', au_sha256 = digest sub m s r,
           au_parent_ids = [market_id (mkt_instrument_id m)], au_trace_id = None, au_metadata = freeze_mapping []\<rparr>"
    if "oid \<noteq> []" for s r oid
  proof -
    have "digest sub m s r \<noteq> []" using assms(2) by (metis hex_digests_def list.size(3) zero_neq_numeral)
    then show ?thesis
      using assms that by (auto simp: hex_digests_def audit_stamp_for_def mk_audit_stamp_def record_defs id_ok_def)
  qed
  show ?thesis
    using assms(1)
    by (auto simp: candidate_for_def admitted_def matching_def match_patterns_eq market_score_def stamp
        candidate_check Let_def split: if_splits option.splits dest: bspec)
qed

text \<open>The candidates of one venue, and of all the venues of the subscription, before they are ranked.\<close>

definition is_candidate :: "event_subscription \<Rightarrow> detection_policy \<Rightarrow> market_catalog \<Rightarrow> market_candidate \<Rightarrow> bool" where
  "is_candidate sub p cat c \<longleftrightarrow>
     (let m = mc_market c
      in dict_get cat (mkt_instrument_id m) = Some m \<and> iid_venue (mkt_instrument_id m) \<in> set (sub_venues sub) \<and>
         admitted p m \<and> matching sub m \<noteq> [] \<and> mc_score c = market_score sub m)"

lemma collect_candidates:
  assumes "is_aware now" and "hex_digests digest" and "\<forall>m \<in> set ms. id_ok (mkt_instrument_id m)"
  shows "\<exists>new. fold_result (\<lambda>m cs. bind_result (candidate_for digest p sub m now)
                          (\<lambda>c. Inr (case c of None \<Rightarrow> cs | Some c \<Rightarrow> cs @ [c]))) ms cs = Inr (cs @ new) \<and>
      mc_market ` set new = {m \<in> set ms. admitted p m \<and> matching sub m \<noteq> []} \<and>
      (\<forall>c \<in> set new. mc_score c = market_score sub (mc_market c))"
  using assms(3)
proof (induction ms arbitrary: cs)
  case Nil
  show ?case by (rule exI [of _ "[]"]) simp
next
  case (Cons m ms)
  have ok: "id_ok (mkt_instrument_id m)" and ms: "\<forall>m \<in> set ms. id_ok (mkt_instrument_id m)"
    using Cons.prems by auto
  from candidate_for_total [OF assms(1,2) ok, of p sub] show ?case
  proof (elim disjE conjE exE)
    assume "candidate_for digest p sub m now = Inr None" and "\<not> (admitted p m \<and> matching sub m \<noteq> [])"
    then show ?case using Cons.IH [OF ms, of cs] by auto
  next
    fix c
    assume c: "candidate_for digest p sub m now = Inr (Some c)" "admitted p m" "matching sub m \<noteq> []"
      "mc_market c = m" "mc_score c = market_score sub m"
    obtain new where "fold_result (\<lambda>m cs. bind_result (candidate_for digest p sub m now)
                          (\<lambda>c. Inr (case c of None \<Rightarrow> cs | Some c \<Rightarrow> cs @ [c]))) ms (cs @ [c]) = Inr ((cs @ [c]) @ new)"
      and "mc_market ` set new = {m \<in> set ms. admitted p m \<and> matching sub m \<noteq> []}"
      and "\<forall>c \<in> set new. mc_score c = market_score sub (mc_market c)"
      using Cons.IH [OF ms, of "cs @ [c]"] by blast
    then show ?case using c by (intro exI [of _ "c # new"]) auto
  qed
qed

lemma collect_venues:
  assumes "is_aware now" and "hex_digests digest" and "catalog_inv cat"
  shows "\<exists>new. fold_result (detect_venue digest p sub cat now) vs cs = Inr (cs @ new) \<and>
      mc_market ` set new =
        {m. dict_get cat (mkt_instrument_id m) = Some m \<and> iid_venue (mkt_instrument_id m) \<in> set vs \<and>
            admitted p m \<and> matching sub m \<noteq> []} \<and>
      (\<forall>c \<in> set new. mc_score c = market_score sub (mc_market c))"
proof (induction vs arbitrary: cs)
  case Nil
  show ?case by (rule exI [of _ "[]"]) simp
next
  case (Cons v vs)
  have ok: "\<forall>m \<in> set (list_markets (Some v) cat). id_ok (mkt_instrument_id m)"
    using assms(3) by (fastforce simp: list_markets_set [OF assms(3)] catalog_inv_def dest: map_of_SomeD)
  obtain new1 where 1: "detect_venue digest p sub cat now v cs = Inr (cs @ new1)"
      "mc_market ` set new1 = {m \<in> set (list_markets (Some v) cat). admitted p m \<and> matching sub m \<noteq> []}"
      "\<forall>c \<in> set new1. mc_score c = market_score sub (mc_market c)"
    using collect_candidates [OF assms(1,2) ok, of p sub cs] by (auto simp: detect_venue_def)
  obtain new2 where 2: "fold_result (detect_venue digest p sub cat now) vs (cs @ new1) = Inr ((cs @ new1) @ new2)"
      "mc_market ` set new2 =
        {m. dict_get cat (mkt_instrument_id m) = Some m \<and> iid_venue (mkt_instrument_id m) \<in> set vs \<and>
            admitted p m \<and> matching sub m \<noteq> []}"
      "\<forall>c \<in> set new2. mc_score c = market_score sub (mc_market c)"
    using Cons.IH [of "cs @ new1"] by blast
  show ?case
    using 1 2 by (intro exI [of _ "new1 @ new2"]) (auto simp: image_Un list_markets_set [OF assms(3)])
qed

text \<open>
  C8: The detector always answers, and with the best of the markets it may offer: the candidates are
  filed markets of a subscribed venue that the policy admits and a pattern matches, each with the
  score of its patterns, in order of score and then of id; a market it may offer and leaves out
  ranks behind every candidate, and is left out only when the policy's limit is reached.
\<close>

theorem detect_best_candidates:
  assumes "\<forall>c \<in> set calls. call_ids_ok c" and "cat = catalog_after calls"
    and "is_aware now" and "hex_digests digest"
  shows "\<exists>cs. detect digest p cat now sub = Inr cs \<and>
      sorted (map candidate_key cs) \<and>
      (\<forall>c \<in> set cs. is_candidate sub p cat c) \<and>
      (\<forall>c. is_candidate sub p cat c \<longrightarrow> mc_market c \<notin> mc_market ` set cs \<longrightarrow>
           (\<exists>n. max_markets p = Some n \<and> length cs = nat n) \<and> (\<forall>b \<in> set cs. candidate_key b \<le> candidate_key c))"
proof -
  have inv: "catalog_inv cat" using assms(1,2) by (simp add: catalog_inv_after)
  obtain new where new: "fold_result (detect_venue digest p sub cat now) (sub_venues sub) [] = Inr new"
      "mc_market ` set new =
        {m. dict_get cat (mkt_instrument_id m) = Some m \<and> iid_venue (mkt_instrument_id m) \<in> set (sub_venues sub) \<and>
            admitted p m \<and> matching sub m \<noteq> []}"
      "\<forall>c \<in> set new. mc_score c = market_score sub (mc_market c)"
    using collect_venues [OF assms(3,4) inv, of p sub "sub_venues sub" "[]"] by auto
  let ?ranked = "sort_key candidate_key new"
  define k where "k = (case max_markets p of None \<Rightarrow> length new | Some n \<Rightarrow> nat n)"
  have res: "detect digest p cat now sub = Inr (take k ?ranked)"
    using assms(3) new(1) by (simp add: detect_def k_def split: option.split)
  have all: "is_candidate sub p cat c" if "c \<in> set new" for c
    using that new(2,3) by (auto simp: is_candidate_def Let_def)
  have rest: "(\<exists>n. max_markets p = Some n \<and> length (take k ?ranked) = nat n) \<and>
      (\<forall>b \<in> set (take k ?ranked). candidate_key b \<le> candidate_key c)"
    if c: "is_candidate sub p cat c" and out: "mc_market c \<notin> mc_market ` set (take k ?ranked)" for c
  proof -
    obtain d where d: "d \<in> set new" "mc_market d = mc_market c"
      using c new(2) by (force simp: is_candidate_def Let_def)
    then have key: "candidate_key d = candidate_key c"
      using c new(3) by (simp add: candidate_key_def is_candidate_def Let_def)
    have "d \<in> set (drop k ?ranked)"
      using d imageI [of d "set (take k ?ranked)" mc_market] out set_append [of "take k ?ranked" "drop k ?ranked"] by auto
    moreover have "sorted (map candidate_key (take k ?ranked @ drop k ?ranked))" by simp
    ultimately have "\<forall>b \<in> set (take k ?ranked). candidate_key b \<le> candidate_key c"
      using key unfolding map_append sorted_append by force
    moreover have "k < length new"
      using \<open>d \<in> set (drop k ?ranked)\<close> by (metis drop_eq_Nil empty_iff leI length_sort list.set(1))
    ultimately show ?thesis by (auto simp: k_def split: option.splits)
  qed
  have "sorted (map candidate_key (take k ?ranked))" 
    using sorted_wrt_take [of "(\<le>)" "map candidate_key ?ranked" k] by (simp add: take_map)
  then show ?thesis
    using res all rest by (intro exI [of _ "take k ?ranked"]) (auto dest: in_set_takeD)
qed

lemma demo_detection:
  "map_sum id (map (\<lambda>c. (mkt_title (mc_market c), mc_score c)))
     (detect demo_digest DEFAULT_DETECTION_POLICY (catalog_after demo_calls) (utc 0) demo_subscription) =
   Inr [(''high'', 61), (''rain'', 61)]"
  by code_simp

theorem detect_best_candidates_witness:
  "\<exists>cs. detect demo_digest DEFAULT_DETECTION_POLICY (catalog_after demo_calls) (utc 0) demo_subscription = Inr cs \<and>
     sorted (map candidate_key cs) \<and>
     map (\<lambda>c. (mkt_title (mc_market c), mc_score c)) cs = [(''high'', 61), (''rain'', 61)]"
proof -
  have "hex_digests demo_digest" by (simp add: hex_digests_def demo_digest_def)
  from detect_best_candidates [OF demo_ids_ok(1) refl _ this, of "utc 0" DEFAULT_DETECTION_POLICY demo_subscription]
  show ?thesis using demo_detection by auto
qed

end
