(* ===== verification/BookStrategies.thy ===== *)
theory BookStrategies
  imports StrategyTools Runner
begin

text \<open>
  The strategies of \<open>plugins/strategies\<close> that act on market data, timers and their own orders:
  \<open>example_threshold\<close>, \<open>arbitrage_cross_venue\<close>, \<open>microstructure_queue_evader\<close>,
  \<open>microstructure_obi_scalper\<close>, \<open>macro_nfp_absorber\<close> and \<open>aerospace_launch_delay\<close>. A handler returns
  its decisions or its exception, and the state the call leaves. The uuid of an order, the context's
  clock and the model's prediction are arguments. A reason is kept up to the first value printed in
  it.
\<close>

section \<open>Shared helpers\<close>

text \<open>\<open>int(spec.parameters.get(key, dflt))\<close>\<close>

definition int_param :: "frozen_map \<Rightarrow> string \<Rightarrow> int \<Rightarrow> int result" where
  "int_param params key dflt =
     (case frozen_get params key of
        None \<Rightarrow> Inr dflt
      | Some v \<Rightarrow>
          (case v of
             PyStr s \<Rightarrow> (case parse_int s of None \<Rightarrow> Inl (ValueError ''invalid literal for int()'') | Some n \<Rightarrow> Inr n)
           | PyInt n \<Rightarrow> Inr n
           | PyBool b \<Rightarrow> Inr (if b then 1 else 0)
           | PyDecimal d \<Rightarrow> Inr (trunc_rat d)
           | PyFloat d \<Rightarrow> Inr (trunc_rat d)
           | _ \<Rightarrow> Inl (TypeError ''int() argument must be a string or a real number'')))"

text \<open>Division of decimals, which traps a zero divisor.\<close>

definition div_result :: "decimal \<Rightarrow> decimal \<Rightarrow> decimal result" where
  "div_result x y =
     (if y = 0 then Inl (if x = 0 then InvalidOperation else DivisionByZero) else Inr (ddiv x y))"

definition tiered :: "latency_tier \<Rightarrow> execution_priority" where
  "tiered tier = DEFAULT_EXECUTION_PRIORITY\<lparr>prio_tier := tier\<rparr>"

section \<open>\<open>example_threshold\<close>\<close>

record example_threshold =
  et_buy_below :: decimal
  et_size :: decimal
  et_order_ttl_ms :: int
  et_snapshots :: "(instrument_id, market_snapshot) dict"

definition new_example_threshold :: "frozen_map \<Rightarrow> example_threshold result" where
  "new_example_threshold params =
     bind_result (decimal_param params ''buy_below'' (40 / 100)) (\<lambda>below.
     bind_result (decimal_param params ''size'' 10) (\<lambda>lot.
     bind_result (int_param params ''order_ttl_ms'' 5000) (\<lambda>ttl.
       Inr \<lparr>et_buy_below = below, et_size = lot, et_order_ttl_ms = ttl, et_snapshots = []\<rparr>)))"

definition threshold_order ::
  "string \<Rightarrow> datetime \<Rightarrow> example_threshold \<Rightarrow> trade \<Rightarrow> strategy_decision list result" where
  "threshold_order uuid now st t =
     (if tr_price t \<ge> et_buy_below st then Inr [NoAction ''price above threshold'']
      else
        (case dict_get (et_snapshots st) (tr_instrument_id t) of
           None \<Rightarrow> Inr [NoAction ''missing_executable_quote_snapshot'']
         | Some snap \<Rightarrow>
             (case snap_ask snap of
                None \<Rightarrow> Inr [NoAction ''missing_executable_quote_snapshot'']
              | Some ask \<Rightarrow>
                  bind_result
                    (mk_place_order
                       \<lparr>po_client_order_id = uuid, po_instrument_id = tr_instrument_id t, po_outcome_side = YES,
                        po_order_side = BUY, po_order_type = LIMIT, po_time_in_force = GTD, po_quantity = et_size st,
                        po_price = Some (lvl_price ask),
                        po_expires_at = Some (dt_plus now (et_order_ttl_ms st * 1000)),
                        po_market_snapshot = Some snap, po_reason = ''trade '', po_expected_edge_bps = None,
                        po_priority = None, po_metadata = []\<rparr>)
                    (\<lambda>d. Inr [PlaceOrder d]))))"

fun threshold_on_event ::
  "string \<Rightarrow> datetime \<Rightarrow> normalized_event \<Rightarrow> example_threshold \<Rightarrow> strategy_decision list result \<times> example_threshold" where
  "threshold_on_event uuid now (QuoteEvent eid q prov) st =
     (case market_snapshot_from_quote_event eid q prov (Some YES) of
        Inl e \<Rightarrow> (Inl e, st)
      | Inr snap \<Rightarrow>
          (Inr [NoAction ''quote_snapshot_updated''],
           st\<lparr>et_snapshots := dict_set (q_instrument_id q) snap (et_snapshots st)\<rparr>))"
| "threshold_on_event uuid now (TradeEvent eid t prov) st = (threshold_order uuid now st t, st)"
| "threshold_on_event uuid now e st = (Inr [NoAction ''ignored: not a trade''], st)"

section \<open>\<open>arbitrage_cross_venue\<close>\<close>

record best_quote =
  bq_bid :: "decimal option"
  bq_bid_qty :: "decimal option"
  bq_ask :: "decimal option"
  bq_ask_qty :: "decimal option"
  bq_snapshot :: "market_snapshot option"

definition empty_best_quote :: best_quote where
  "empty_best_quote = \<lparr>bq_bid = None, bq_bid_qty = None, bq_ask = None, bq_ask_qty = None, bq_snapshot = None\<rparr>"

record cross_venue_arb =
  xv_counter_venue :: string
  xv_controlled_venue :: venue
  xv_min_edge_bps :: decimal
  xv_kalshi_fee_bps :: decimal
  xv_poly_fee_bps :: decimal
  xv_max_clip_size :: decimal
  xv_book :: "(string \<times> venue, best_quote) dict"

definition new_cross_venue_arb :: "(pyval \<Rightarrow> string) \<Rightarrow> frozen_map \<Rightarrow> cross_venue_arb result" where
  "new_cross_venue_arb str_other params =
     bind_result (venue_of_string (str_param str_other params ''controlled_venue'' ''kalshi'')) (\<lambda>controlled.
     bind_result (decimal_param params ''min_edge_bps'' 100) (\<lambda>min_edge.
     bind_result (decimal_param params ''kalshi_taker_fee_bps'' 175) (\<lambda>kalshi_fee.
     bind_result (decimal_param params ''poly_taker_fee_bps'' 200) (\<lambda>poly_fee.
     bind_result (decimal_param params ''max_clip_size'' 20) (\<lambda>clip.
       Inr \<lparr>xv_counter_venue = str_param str_other params ''counter_venue'' ''polymarket_global'',
            xv_controlled_venue = controlled, xv_min_edge_bps = min_edge, xv_kalshi_fee_bps = kalshi_fee,
            xv_poly_fee_bps = poly_fee, xv_max_clip_size = clip, xv_book = []\<rparr>)))))"

definition opposite_venue :: "cross_venue_arb \<Rightarrow> venue \<Rightarrow> venue result" where
  "opposite_venue st v = (if v = KALSHI then venue_of_string (xv_counter_venue st) else Inr KALSHI)"

text \<open>The entry of the quoted book; a side the quote leaves out keeps its last value.\<close>

definition update_entry :: "quote \<Rightarrow> best_quote \<Rightarrow> best_quote" where
  "update_entry q b =
     (let b1 = (case q_bid q of None \<Rightarrow> b | Some l \<Rightarrow> b\<lparr>bq_bid := Some (lvl_price l), bq_bid_qty := Some (lvl_quantity l)\<rparr>)
      in (case q_ask q of None \<Rightarrow> b1 | Some l \<Rightarrow> b1\<lparr>bq_ask := Some (lvl_price l), bq_ask_qty := Some (lvl_quantity l)\<rparr>))"

definition size_or :: "decimal option \<Rightarrow> decimal \<Rightarrow> decimal" where
  "size_or q clip = (case q of None \<Rightarrow> clip | Some x \<Rightarrow> if x = 0 then clip else x)"

definition arb_decision ::
  "string \<Rightarrow> cross_venue_arb \<Rightarrow> instrument_id \<Rightarrow> best_quote option \<Rightarrow> best_quote \<Rightarrow> strategy_decision list result" where
  "arb_decision uuid st iid other this =
     (case (map_option bq_bid other, bq_ask this) of
        (Some (Some bid), Some ask) \<Rightarrow>
          (case (bq_snapshot this, Option.bind (bq_snapshot this) snap_ask) of
             (Some snap, Some snap_level) \<Rightarrow>
               bind_result (div_result (dsub bid ask) ask) (\<lambda>ratio.
                 let fee_bps = dadd (xv_kalshi_fee_bps st) (xv_poly_fee_bps st);
                     edge = dmul ratio 10000
                 in if edge \<le> dadd (xv_min_edge_bps st) fee_bps then Inr [NoAction ''no_arb:edge_'']
                    else if iid_venue iid \<noteq> xv_controlled_venue st
                    then Inr [NoAction (''observe_only:venue='' @ venue_value (iid_venue iid))]
                    else
                      (let lot = min (min (xv_max_clip_size st) (size_or (Option.bind other bq_bid_qty) (xv_max_clip_size st)))
                                   (size_or (bq_ask_qty this) (xv_max_clip_size st))
                       in if lot \<le> 0 then Inr [NoAction ''censored:no_size_available'']
                          else bind_result
                            (mk_place_order
                               \<lparr>po_client_order_id = uuid, po_instrument_id = iid, po_outcome_side = YES,
                                po_order_side = BUY, po_order_type = LIMIT, po_time_in_force = IOC, po_quantity = lot,
                                po_price = Some (lvl_price snap_level), po_expires_at = None,
                                po_market_snapshot = Some snap, po_reason = ''cross_venue_arb_edge_'',
                                po_expected_edge_bps = Some edge, po_priority = Some (tiered FAST), po_metadata = []\<rparr>)
                            (\<lambda>d. Inr [PlaceOrder d])))
           | _ \<Rightarrow> Inr [NoAction ''warmup:missing_executable_snapshot''])
      | _ \<Rightarrow> Inr [NoAction ''warmup:waiting_for_both_venues''])"

fun arb_on_event ::
  "string \<Rightarrow> normalized_event \<Rightarrow> cross_venue_arb \<Rightarrow> strategy_decision list result \<times> cross_venue_arb" where
  "arb_on_event uuid (QuoteEvent eid q prov) st =
     (let iid = q_instrument_id q;
          key = (market_id iid, iid_venue iid);
          entry = update_entry q (dict_get_default (xv_book st) key empty_best_quote);
          st1 = st\<lparr>xv_book := dict_set key entry (xv_book st)\<rparr>
      in case market_snapshot_from_quote_event eid q prov (Some YES) of
           Inl e \<Rightarrow> (Inl e, st1)
         | Inr snap \<Rightarrow>
             (let this = entry\<lparr>bq_snapshot := Some snap\<rparr>;
                  st2 = st\<lparr>xv_book := dict_set key this (xv_book st)\<rparr>
              in (bind_result (opposite_venue st (iid_venue iid)) (\<lambda>other_venue.
                    arb_decision uuid st iid (dict_get (xv_book st2) (market_id iid, other_venue)) this),
                  st2)))"
| "arb_on_event uuid e st = (Inr [NoAction ''ignored:not_quote''], st)"

section \<open>\<open>microstructure_queue_evader\<close>\<close>

type_synonym resting_key = "instrument_id \<times> decimal \<times> order_side"

record tracked_order =
  to_client_order_id :: string
  to_instrument_id :: instrument_id
  to_side :: order_side
  to_price :: decimal
  to_quantity :: decimal
  to_queue_ahead :: decimal
  to_taker_volume :: decimal
  to_last_book_quantity :: decimal
  to_taker_history :: "decimal list"

record queue_evader =
  qe_evacuation_threshold :: decimal
  qe_adverse_volume :: decimal
  qe_window_seconds :: int
  qe_resting :: "(resting_key, tracked_order) dict"

definition new_queue_evader :: "frozen_map \<Rightarrow> queue_evader result" where
  "new_queue_evader params =
     bind_result (decimal_param params ''queue_evacuation_threshold'' 5) (\<lambda>evacuation.
     bind_result (decimal_param params ''adverse_volume_threshold'' 50) (\<lambda>adverse.
     bind_result (int_param params ''recent_volume_window_seconds'' 5) (\<lambda>window.
       Inr \<lparr>qe_evacuation_threshold = evacuation, qe_adverse_volume = adverse, qe_window_seconds = window,
            qe_resting = []\<rparr>)))"

definition resting_key_of :: "order \<Rightarrow> resting_key" where
  "resting_key_of r =
     (ord_instrument_id r, (case ord_price r of None \<Rightarrow> 0 | Some p \<Rightarrow> p), ord_order_side r)"

definition order_ended :: "order \<Rightarrow> bool" where
  "order_ended r \<longleftrightarrow> ord_status r \<in> {FILLED, CANCELED, EXPIRED, REJECTED}"

definition update_own_order :: "order \<Rightarrow> queue_evader \<Rightarrow> queue_evader" where
  "update_own_order r st =
     (let key = resting_key_of r; remaining = dsub (ord_quantity r) (ord_filled_quantity r)
      in if order_ended r then st\<lparr>qe_resting := dict_pop key (qe_resting st)\<rparr>
         else
           (case dict_get (qe_resting st) key of
              None \<Rightarrow>
                st\<lparr>qe_resting := dict_set key
                     \<lparr>to_client_order_id = ord_client_order_id r, to_instrument_id = ord_instrument_id r,
                      to_side = ord_order_side r, to_price = fst (snd key), to_quantity = remaining,
                      to_queue_ahead = 0, to_taker_volume = 0, to_last_book_quantity = 0, to_taker_history = []\<rparr>
                     (qe_resting st)\<rparr>
            | Some x \<Rightarrow>
                st\<lparr>qe_resting := dict_set key
                     (x\<lparr>to_client_order_id := ord_client_order_id r, to_quantity := remaining\<rparr>) (qe_resting st)\<rparr>))"

definition estimate_queue :: "order_book \<Rightarrow> tracked_order \<Rightarrow> tracked_order" where
  "estimate_queue b x =
     (if to_instrument_id x \<noteq> bk_instrument_id b then x
      else
        (let levels = (if to_side x = BUY then yes_bids b else yes_asks b);
             depth = dsum (map lvl_quantity (filter (\<lambda>l. lvl_price l = to_price x) levels));
             x1 = (if depth < to_last_book_quantity x
                   then x\<lparr>to_queue_ahead := max 0 (dsub (to_queue_ahead x) (dsub (to_last_book_quantity x) depth))\<rparr>
                   else if to_last_book_quantity x = 0 then x\<lparr>to_queue_ahead := depth\<rparr>
                   else x)
         in x1\<lparr>to_last_book_quantity := depth\<rparr>))"

definition is_adverse :: "trade \<Rightarrow> tracked_order \<Rightarrow> bool" where
  "is_adverse t x \<longleftrightarrow> (if to_side x = BUY then tr_price t \<le> to_price x else tr_price t \<ge> to_price x)"

text \<open>The window of recent prints holds at most twenty.\<close>

definition record_print :: "trade \<Rightarrow> tracked_order \<Rightarrow> tracked_order" where
  "record_print t x =
     (if is_adverse t x then
        (let vol = dadd (to_taker_volume x) (tr_quantity t);
             hist = to_taker_history x @ [tr_quantity t]
         in if length hist > 20
            then x\<lparr>to_taker_volume := dsub vol (hd hist), to_taker_history := tl hist\<rparr>
            else x\<lparr>to_taker_volume := vol, to_taker_history := hist\<rparr>)
      else x)"

definition should_cancel :: "queue_evader \<Rightarrow> tracked_order \<Rightarrow> bool" where
  "should_cancel st x \<longleftrightarrow>
     to_queue_ahead x \<le> qe_evacuation_threshold st \<and> to_taker_volume x \<ge> qe_adverse_volume st"

text \<open>One entry of the loop over the tracked orders: what stays of it, and the order to cancel.\<close>

definition observe_entry ::
  "queue_evader \<Rightarrow> trade \<Rightarrow> resting_key \<times> tracked_order \<Rightarrow> (resting_key \<times> tracked_order) option \<times> string option" where
  "observe_entry st t kv =
     (let x = snd kv
      in if to_instrument_id x \<noteq> tr_instrument_id t then (Some kv, None)
         else
           (let x1 = record_print t x
            in if should_cancel st x1 then (None, Some (to_client_order_id x1)) else (Some (fst kv, x1), None)))"

definition evade_cancel :: "string \<Rightarrow> strategy_decision" where
  "evade_cancel coid =
     CancelOrder \<lparr>co_client_order_id = coid, co_reason = ''queue_evade:ahead_'', co_priority = Some (tiered CRITICAL)\<rparr>"

text \<open>
  The ids of tracked orders are those of constructed orders, so the constructor of the cancel cannot
  raise.
\<close>

definition observe_trade :: "trade \<Rightarrow> queue_evader \<Rightarrow> strategy_decision list \<times> queue_evader" where
  "observe_trade t st =
     (let rs = map (observe_entry st t) (qe_resting st);
          cancels = map evade_cancel (List.map_filter snd rs)
      in (if cancels = [] then [NoAction ''trade_observed_no_cancel''] else cancels,
          st\<lparr>qe_resting := List.map_filter fst rs\<rparr>))"

fun evader_on_event :: "normalized_event \<Rightarrow> queue_evader \<Rightarrow> strategy_decision list \<times> queue_evader" where
  "evader_on_event (OwnOrderUpdateEvent eid r prov) st = ([NoAction ''own_order_tracked''], update_own_order r st)"
| "evader_on_event (OrderBookEvent eid b prov) st =
     ([NoAction ''queue_estimates_updated''],
      st\<lparr>qe_resting := dict_map (\<lambda>k x. estimate_queue b x) (qe_resting st)\<rparr>)"
| "evader_on_event (TradeEvent eid t prov) st = observe_trade t st"
| "evader_on_event e st = ([NoAction ''ignored:not_book_trade_or_own_order''], st)"

section \<open>\<open>microstructure_obi_scalper\<close>\<close>

record obi_scalper =
  ob_imbalance_threshold :: decimal
  ob_cancel_threshold :: decimal
  ob_clip_size :: decimal
  ob_max_spread_bps :: decimal
  ob_model_kind :: string
  ob_model_long :: decimal
  ob_model_cancel :: decimal
  ob_model_long_bps :: decimal
  ob_open_buys :: "(instrument_id, string) dict"
  ob_pending_cancels :: "string set"

definition new_obi_scalper :: "(pyval \<Rightarrow> string) \<Rightarrow> frozen_map \<Rightarrow> obi_scalper result" where
  "new_obi_scalper str_other params =
     bind_result (decimal_param params ''imbalance_threshold'' (70 / 100)) (\<lambda>imbalance.
     bind_result (decimal_param params ''cancel_threshold'' (30 / 100)) (\<lambda>cancel.
     bind_result (decimal_param params ''clip_size'' 5) (\<lambda>lot.
     bind_result (decimal_param params ''max_spread_bps'' 100) (\<lambda>spread.
     bind_result (decimal_param params ''model_long_threshold'' (60 / 100)) (\<lambda>long.
     bind_result (decimal_param params ''model_cancel_threshold'' (40 / 100)) (\<lambda>mcancel.
     bind_result (decimal_param params ''model_long_bps_threshold'' 5) (\<lambda>long_bps.
       Inr \<lparr>ob_imbalance_threshold = imbalance, ob_cancel_threshold = cancel, ob_clip_size = lot,
            ob_max_spread_bps = spread, ob_model_kind = str_param str_other params ''model_kind'' ''classification'',
            ob_model_long = long, ob_model_cancel = mcancel, ob_model_long_bps = long_bps,
            ob_open_buys = [], ob_pending_cancels = {}\<rparr>)))))))"

definition top_quantity :: "order_book_level list \<Rightarrow> decimal" where
  "top_quantity ls = (case ls of [] \<Rightarrow> 0 | l # _ \<Rightarrow> lvl_quantity l)"

definition spread_bps :: "order_book \<Rightarrow> decimal option" where
  "spread_bps b =
     (case (yes_bids b, yes_asks b) of
        (bid # _, ask # _) \<Rightarrow>
          if lvl_price bid \<le> 0 \<or> lvl_price ask \<le> 0 then None
          else
            (let mid = ddiv (dadd (lvl_price bid) (lvl_price ask)) 2
             in if mid = 0 then None else Some (dmul (ddiv (dsub (lvl_price ask) (lvl_price bid)) mid) 10000))
      | _ \<Rightarrow> None)"

definition obi_buy :: "string \<Rightarrow> obi_scalper \<Rightarrow> order_book \<Rightarrow> string \<Rightarrow> strategy_decision list result" where
  "obi_buy uuid st b reason =
     (case yes_asks b of
        [] \<Rightarrow> Inr [NoAction ''censored:no_ask_for_placement'']
      | ask # _ \<Rightarrow>
          bind_result
            (mk_place_order
               \<lparr>po_client_order_id = uuid, po_instrument_id = bk_instrument_id b, po_outcome_side = YES,
                po_order_side = BUY, po_order_type = LIMIT, po_time_in_force = IOC, po_quantity = ob_clip_size st,
                po_price = Some (lvl_price ask), po_expires_at = None, po_market_snapshot = None, po_reason = reason,
                po_expected_edge_bps = None, po_priority = Some (tiered FAST), po_metadata = []\<rparr>)
            (\<lambda>d. Inr [PlaceOrder d]))"

definition obi_cancel :: "string \<Rightarrow> string \<Rightarrow> strategy_decision list result" where
  "obi_cancel existing reason =
     (let c = \<lparr>co_client_order_id = existing, co_reason = reason, co_priority = Some (tiered CRITICAL)\<rparr>
      in bind_result (validated (cancel_order_check c) c) (\<lambda>c. Inr [CancelOrder c]))"

text \<open>
  \<open>_decide_from_rules\<close> and \<open>_decide_from_prediction\<close> share their shape: a value above the upper bound
  buys, one below the lower bound cancels the open order once.
\<close>

definition obi_decide ::
  "string \<Rightarrow> obi_scalper \<Rightarrow> order_book \<Rightarrow> bool \<Rightarrow> bool \<Rightarrow> string \<Rightarrow> string \<Rightarrow> string \<Rightarrow> strategy_decision list result" where
  "obi_decide uuid st b buy flip buy_reason cancel_reason idle_reason =
     (if buy then obi_buy uuid st b buy_reason
      else
        (case dict_get (ob_open_buys st) (bk_instrument_id b) of
           None \<Rightarrow> Inr [NoAction idle_reason]
         | Some existing \<Rightarrow>
             if existing \<in> ob_pending_cancels st then Inr [NoAction ''cancel_already_pending'']
             else if flip then obi_cancel existing cancel_reason
             else Inr [NoAction idle_reason]))"

definition decide_from_rules :: "string \<Rightarrow> obi_scalper \<Rightarrow> order_book \<Rightarrow> decimal \<Rightarrow> strategy_decision list result" where
  "decide_from_rules uuid st b imbalance =
     obi_decide uuid st b (imbalance \<ge> ob_imbalance_threshold st) (imbalance \<le> ob_cancel_threshold st)
       ''obi_buy_imbalance_'' ''obi_flip_imbalance_'' ''no_signal_imbalance_''"

definition decide_from_prediction :: "string \<Rightarrow> obi_scalper \<Rightarrow> order_book \<Rightarrow> decimal \<Rightarrow> strategy_decision list result" where
  "decide_from_prediction uuid st b prediction =
     (if ob_model_kind st = ''classification''
      then obi_decide uuid st b (prediction \<ge> ob_model_long st) (prediction \<le> ob_model_cancel st)
             ''model_p='' ''model_p='' ''model_idle_p=''
      else obi_decide uuid st b (prediction \<ge> ob_model_long_bps st) (prediction \<le> dneg (ob_model_long_bps st))
             ''model_bps='' ''model_bps='' ''model_idle_bps='')"

text \<open>\<open>prediction\<close> is \<open>Decimal(str(p))\<close> of what \<open>_maybe_predict\<close> returns.\<close>

fun obi_on_event :: "string \<Rightarrow> decimal option \<Rightarrow> normalized_event \<Rightarrow> obi_scalper \<Rightarrow> strategy_decision list result" where
  "obi_on_event uuid prediction (OrderBookEvent eid b prov) st =
     (let bid_qty = top_quantity (yes_bids b); ask_qty = top_quantity (yes_asks b)
      in if bid_qty \<le> 0 \<and> ask_qty \<le> 0 then Inr [NoAction ''censored:empty_book'']
         else
           (let total = dadd bid_qty ask_qty;
                imbalance = (if total > 0 then ddiv bid_qty total else 0)
            in case spread_bps b of
                 None \<Rightarrow> Inr [NoAction ''censored:no_two_sided_book'']
               | Some spread \<Rightarrow>
                   if spread > ob_max_spread_bps st then Inr [NoAction ''ignored:spread_too_wide'']
                   else (case prediction of
                           Some p \<Rightarrow> decide_from_prediction uuid st b p
                         | None \<Rightarrow> decide_from_rules uuid st b imbalance)))"
| "obi_on_event uuid prediction e st = Inr [NoAction ''ignored:not_book'']"

definition remove_order :: "string \<Rightarrow> obi_scalper \<Rightarrow> obi_scalper" where
  "remove_order coid st =
     st\<lparr>ob_pending_cancels := ob_pending_cancels st - {coid},
        ob_open_buys := filter (\<lambda>kv. snd kv \<noteq> coid) (ob_open_buys st)\<rparr>"

definition obi_on_feedback :: "strategy_feedback \<Rightarrow> obi_scalper \<Rightarrow> obi_scalper" where
  "obi_on_feedback fb st =
     (case fb_client_order_id fb of
        None \<Rightarrow> st
      | Some coid \<Rightarrow>
          if fb_kind fb = ''IntentRejected'' then
            (case env_decision (fb_envelope fb) of
               PlaceOrder d \<Rightarrow> remove_order coid st
             | CancelOrder d \<Rightarrow> st\<lparr>ob_pending_cancels := ob_pending_cancels st - {coid}\<rparr>
             | _ \<Rightarrow> st)
          else if fb_kind fb = ''IntentAccepted'' then
            (case env_decision (fb_envelope fb) of
               PlaceOrder d \<Rightarrow> st\<lparr>ob_open_buys := dict_set (po_instrument_id d) coid (ob_open_buys st)\<rparr>
             | CancelOrder d \<Rightarrow> st\<lparr>ob_pending_cancels := insert coid (ob_pending_cancels st)\<rparr>
             | _ \<Rightarrow> st)
          else if fb_kind fb = ''VenueRejected'' \<or> fb_kind fb = ''VenueTerminal'' then remove_order coid st
          else st)"

section \<open>\<open>macro_nfp_absorber\<close>\<close>

record nfp_absorber =
  nf_managed_orders :: "(string, string) dict"
  nf_wide_bps :: decimal
  nf_tight_bps :: decimal
  nf_reference_mid :: decimal

text \<open>\<open>str.split\<close> at a separator, and \<open>str.partition\<close>.\<close>

fun split_at_char :: "char \<Rightarrow> string \<Rightarrow> string list" where
  "split_at_char sep [] = [[]]"
| "split_at_char sep (c # cs) =
     (if c = sep then [] # split_at_char sep cs
      else (case split_at_char sep cs of [] \<Rightarrow> [[c]] | w # ws \<Rightarrow> (c # w) # ws))"

definition parse_managed_item :: "string \<Rightarrow> (string, string) dict \<Rightarrow> (string, string) dict result" where
  "parse_managed_item item d =
     (if str_strip item = [] then Inr d
      else
        (let label = takeWhile (\<lambda>c. c \<noteq> CHR '':'') item; rest = dropWhile (\<lambda>c. c \<noteq> CHR '':'') item
         in if rest = [] \<or> str_strip label = [] \<or> str_strip (tl rest) = []
            then Inl (ValueError ''managed_orders must be comma-separated label:client_order_id pairs'')
            else Inr (dict_set (str_strip label) (str_strip (tl rest)) d)))"

definition parse_managed_orders :: "string \<Rightarrow> (string, string) dict result" where
  "parse_managed_orders raw = fold_result parse_managed_item (split_at_char CHR '','' raw) []"

definition new_nfp_absorber :: "(pyval \<Rightarrow> string) \<Rightarrow> frozen_map \<Rightarrow> nfp_absorber result" where
  "new_nfp_absorber str_other params =
     bind_result (parse_managed_orders (str_param str_other params ''managed_orders'' [])) (\<lambda>managed.
     bind_result (decimal_param params ''wide_bps'' 300) (\<lambda>wide.
     bind_result (decimal_param params ''tight_bps'' 50) (\<lambda>tight.
     bind_result (decimal_param params ''reference_mid'' (1 / 2)) (\<lambda>ref.
       Inr \<lparr>nf_managed_orders = managed, nf_wide_bps = wide, nf_tight_bps = tight, nf_reference_mid = ref\<rparr>))))"

fun contains_str :: "string \<Rightarrow> string \<Rightarrow> bool" where
  "contains_str w [] = (w = [])"
| "contains_str w (c # cs) = (take (length w) (c # cs) = w \<or> contains_str w cs)"

fun replace_each ::
  "decimal \<Rightarrow> decimal \<Rightarrow> string \<Rightarrow> latency_tier \<Rightarrow> (string \<times> string) list \<Rightarrow> strategy_decision list result" where
  "replace_each bid_price ask_price reason tier [] = Inr []"
| "replace_each bid_price ask_price reason tier ((label, coid) # items) =
     (let d = \<lparr>ro_client_order_id = coid,
               ro_new_price = Some (if contains_str ''bid'' (str_lower label) then bid_price else ask_price),
               ro_new_quantity = None, ro_market_snapshot = None, ro_reason = reason @ '':'' @ label,
               ro_priority = Some (tiered tier)\<rparr>
      in bind_result (validated (replace_order_check d) d) (\<lambda>d.
         bind_result (replace_each bid_price ask_price reason tier items) (\<lambda>ds. Inr (ReplaceOrder d # ds))))"

definition replace_all :: "nfp_absorber \<Rightarrow> decimal \<Rightarrow> string \<Rightarrow> latency_tier \<Rightarrow> strategy_decision list result" where
  "replace_all st half_width_bps reason tier =
     (let half_width = ddiv half_width_bps 10000
      in replace_each (max (dsub (nf_reference_mid st) half_width) (1 / 100))
           (min (dadd (nf_reference_mid st) half_width) (99 / 100)) reason tier (sort_key fst (nf_managed_orders st)))"

fun nfp_on_event :: "normalized_event \<Rightarrow> nfp_absorber \<Rightarrow> strategy_decision list result" where
  "nfp_on_event (TimerEvent eid x prov) st =
     (if nf_managed_orders st = [] then Inr [NoAction ''no_managed_orders_configured'']
      else if tm_label x = ''nfp_widen'' then replace_all st (nf_wide_bps st) ''widen_for_nfp'' STANDARD
      else if tm_label x = ''nfp_tighten'' then replace_all st (nf_tight_bps st) ''tighten_post_nfp'' RELAXED
      else Inr [NoAction (''timer_label_unknown:'' @ tm_label x)])"
| "nfp_on_event e st = Inr [NoAction ''ignored:not_timer'']"

section \<open>\<open>aerospace_launch_delay\<close>\<close>

record launch_delay =
  ld_market_id :: string
  ld_signal_source :: string
  ld_scrub_window_mins :: int
  ld_size_multiplier :: decimal
  ld_max_size :: decimal
  ld_venue :: venue
  ld_time_to_window :: "dec_literal option"
  ld_fueling_confirmed :: bool
  ld_market_paused :: bool

definition new_launch_delay :: "(pyval \<Rightarrow> string) \<Rightarrow> frozen_map \<Rightarrow> launch_delay result" where
  "new_launch_delay str_other params =
     (case frozen_get params ''launch_market_id'' of
        None \<Rightarrow> Inl (KeyError ''launch_market_id'')
      | Some m \<Rightarrow>
          bind_result (int_param params ''scrub_window_mins'' 120) (\<lambda>window.
          bind_result (decimal_param params ''size_multiplier'' (2 / 10)) (\<lambda>mult.
          bind_result (decimal_param params ''max_size'' 50) (\<lambda>cap.
          bind_result (venue_of_string (str_param str_other params ''venue'' ''kalshi'')) (\<lambda>v.
            Inr \<lparr>ld_market_id = py_str str_other m,
                 ld_signal_source = str_param str_other params ''signal_source'' ''space-devs'',
                 ld_scrub_window_mins = window, ld_size_multiplier = mult, ld_max_size = cap, ld_venue = v,
                 ld_time_to_window = None, ld_fueling_confirmed = False, ld_market_paused = False\<rparr>)))))"

definition update_from_signal :: "external_signal \<Rightarrow> launch_delay \<Rightarrow> launch_delay" where
  "update_from_signal x st =
     (if ext_source x \<noteq> ld_signal_source st then st
      else if frozen_get (ext_payload x) ''launch_market_id'' \<noteq> Some (PyStr (ld_market_id st)) then st
      else
        (let st1 = (case decimal_of_pyval (payload_get (ext_payload x) ''time_to_window_close_mins'') of
                      None \<Rightarrow> st
                    | Some d \<Rightarrow> st\<lparr>ld_time_to_window := Some d\<rparr>)
         in (case payload_get (ext_payload x) ''fueling_confirmed'' of
               PyBool b \<Rightarrow> st1\<lparr>ld_fueling_confirmed := b\<rparr>
             | _ \<Rightarrow> st1)))"

definition update_from_lifecycle :: "market_lifecycle_event \<Rightarrow> launch_delay \<Rightarrow> launch_delay" where
  "update_from_lifecycle e st =
     (if market_id (lc_instrument_id e) \<noteq> ld_market_id st then st
      else st\<lparr>ld_market_paused := (lc_kind e \<in> {PAUSED, CLOSED})\<rparr>)"

text \<open>The size grows as the window closes; \<open>quantize\<close> raises on an infinite one.\<close>

definition launch_size :: "launch_delay \<Rightarrow> dec_literal \<Rightarrow> decimal result" where
  "launch_size st mins =
     (case mins of
        Finite x \<Rightarrow>
          bind_result (quantize round_half_even 0
                         (dmul (max 0 (dsub (of_int (ld_scrub_window_mins st)) x)) (ld_size_multiplier st)))
            (\<lambda>raw. Inr (max 1 (min raw (ld_max_size st))))
      | _ \<Rightarrow> Inl InvalidOperation)"

definition launch_decision :: "string \<Rightarrow> launch_delay \<Rightarrow> strategy_decision list result" where
  "launch_decision uuid st =
     (if ld_market_paused st then Inr [NoAction ''censored:market_paused'']
      else
        (case ld_time_to_window st of
           None \<Rightarrow> Inr [NoAction ''warmup:no_time_to_window'']
         | Some mins \<Rightarrow>
             bind_result (literal_less mins (of_int (ld_scrub_window_mins st))) (\<lambda>late.
               if \<not> late then Inr [NoAction ''too_early_in_window'']
               else if ld_fueling_confirmed st then Inr [NoAction ''fueling_confirmed:no_delay_bet'']
               else
                 bind_result (launch_size st mins) (\<lambda>lot.
                   let iid = \<lparr>iid_venue = ld_venue st, market_id = ld_market_id st, outcome_id = Some ''NO''\<rparr>
                   in bind_result (validated (instrument_id_check iid) iid) (\<lambda>iid.
                      bind_result
                        (mk_place_order
                           \<lparr>po_client_order_id = uuid, po_instrument_id = iid, po_outcome_side = NO,
                            po_order_side = BUY, po_order_type = LIMIT, po_time_in_force = GTC, po_quantity = lot,
                            po_price = Some (1 / 2), po_expires_at = None, po_market_snapshot = None,
                            po_reason = ''launch_delay_t_minus_'', po_expected_edge_bps = None, po_priority = None,
                            po_metadata = []\<rparr>)
                        (\<lambda>d. Inr [PlaceOrder d]))))))"

fun launch_on_event ::
  "string \<Rightarrow> normalized_event \<Rightarrow> launch_delay \<Rightarrow> strategy_decision list result \<times> launch_delay" where
  "launch_on_event uuid (ExternalSignalEvent eid x prov) st = (Inr [NoAction ''signal_state_updated''], update_from_signal x st)"
| "launch_on_event uuid (LifecycleEvent eid e prov) st = (Inr [NoAction ''lifecycle_updated''], update_from_lifecycle e st)"
| "launch_on_event uuid (TimerEvent eid x prov) st =
     (if tm_label x \<noteq> ''launch_check'' then (Inr [NoAction ''ignored:not_launch_timer''], st)
      else (launch_decision uuid st, st))"
| "launch_on_event uuid e st = (Inr [NoAction ''ignored:not_launch_timer''], st)"

end
