(* ===== verification/BookStrategyProps.thy ===== *)
theory BookStrategyProps
  imports BookStrategies Histories
begin

text \<open>
  The cross-venue arbitrage over whole histories: its books hold the last levels the quotes showed,
  and an order it places on a YES quote earns the configured edge over the counter venue's last bid,
  in exact arithmetic; and what it makes of a NO quote.
\<close>

section \<open>The cross-venue arbitrage\<close>

definition arb_run :: "(string \<times> normalized_event) list \<Rightarrow> cross_venue_arb \<Rightarrow> cross_venue_arb" where
  "arb_run history st = fold (\<lambda>(u, e) st. snd (arb_on_event u e st)) history st"

definition book_key :: "quote \<Rightarrow> string \<times> venue" where
  "book_key q = (market_id (q_instrument_id q), iid_venue (q_instrument_id q))"

text \<open>The last level a book was quoted at on one side, whatever came after.\<close>

definition quoted_level ::
  "(quote \<Rightarrow> order_book_level option) \<Rightarrow> string \<times> venue \<Rightarrow> normalized_event \<Rightarrow> order_book_level option \<Rightarrow> order_book_level option" where
  "quoted_level side k e acc =
     (case e of QuoteEvent eid q prov \<Rightarrow> if book_key q = k \<and> side q \<noteq> None then side q else acc | _ \<Rightarrow> acc)"

definition last_quoted ::
  "(quote \<Rightarrow> order_book_level option) \<Rightarrow> normalized_event list \<Rightarrow> string \<times> venue \<Rightarrow> order_book_level option" where
  "last_quoted side events k = fold (quoted_level side k) events None"

lemma last_quoted_snoc: "last_quoted side (events @ [e]) k = quoted_level side k e (last_quoted side events k)"
  by (simp add: last_quoted_def)

definition entry_agrees :: "normalized_event list \<Rightarrow> string \<times> venue \<Rightarrow> best_quote \<Rightarrow> bool" where
  "entry_agrees events k b \<longleftrightarrow>
     bq_bid b = map_option lvl_price (last_quoted q_bid events k) \<and>
     bq_bid_qty b = map_option lvl_quantity (last_quoted q_bid events k) \<and>
     bq_ask b = map_option lvl_price (last_quoted q_ask events k) \<and>
     bq_ask_qty b = map_option lvl_quantity (last_quoted q_ask events k)"

definition books_agree :: "normalized_event list \<Rightarrow> cross_venue_arb \<Rightarrow> bool" where
  "books_agree events st \<longleftrightarrow> (\<forall>k. entry_agrees events k (dict_get_default (xv_book st) k empty_best_quote))"

lemma entry_agrees_update:
  "entry_agrees events (book_key q) b \<Longrightarrow>
   entry_agrees (events @ [QuoteEvent eid q prov]) (book_key q) (update_entry q b\<lparr>bq_snapshot := snap\<rparr>)"
  by (auto simp: entry_agrees_def last_quoted_snoc quoted_level_def update_entry_def Let_def split: option.splits)

lemma entry_agrees_other:
  "entry_agrees events k b \<Longrightarrow> book_key q \<noteq> k \<Longrightarrow> entry_agrees (events @ [QuoteEvent eid q prov]) k b"
  by (simp add: entry_agrees_def last_quoted_snoc quoted_level_def)

lemma books_agree_quote:
  assumes "books_agree events st" and "xv_book st' = dict_set (book_key q) entry (xv_book st)"
    and "entry = update_entry q (dict_get_default (xv_book st) (book_key q) empty_best_quote)\<lparr>bq_snapshot := snap\<rparr>"
  shows "books_agree (events @ [QuoteEvent eid q prov]) st'"
proof -
  have "dict_get_default (xv_book st') k empty_best_quote =
      (if k = book_key q then entry else dict_get_default (xv_book st) k empty_best_quote)" for k
    by (simp add: assms(2) dict_get_default_def)
  moreover have "entry_agrees (events @ [QuoteEvent eid q prov]) (book_key q) entry"
    using assms(1) unfolding assms(3) books_agree_def by (blast intro: entry_agrees_update)
  ultimately show ?thesis
    using assms(1) by (auto simp: books_agree_def simp del: split_paired_All intro: entry_agrees_other)
qed

lemma books_agree_step:
  assumes "books_agree events st"
  shows "books_agree (events @ [e]) (snd (arb_on_event u e st))"
proof (cases e)
  case (QuoteEvent eid q prov)
  let ?entry = "update_entry q (dict_get_default (xv_book st) (book_key q) empty_best_quote)"
  show ?thesis
    unfolding QuoteEvent
  proof (cases "market_snapshot_from_quote_event eid q prov (Some YES)")
    case (Inl err)
    then show "books_agree (events @ [QuoteEvent eid q prov]) (snd (arb_on_event u (QuoteEvent eid q prov) st))"
      by (intro books_agree_quote [OF assms, where snap = "bq_snapshot ?entry"]) (simp_all add: Let_def book_key_def)
  next
    case (Inr snap)
    then show "books_agree (events @ [QuoteEvent eid q prov]) (snd (arb_on_event u (QuoteEvent eid q prov) st))"
      by (intro books_agree_quote [OF assms, where snap = "Some snap"]) (simp_all add: Let_def book_key_def)
  qed
qed (use assms in \<open>simp_all add: books_agree_def entry_agrees_def last_quoted_snoc quoted_level_def\<close>)

text \<open>The strategy runs on pairs of the uuid an order would get and the event.\<close>

interpretation arb: follows_history "\<lambda>(u, e) st. snd (arb_on_event u e st)" "\<lambda>_. True"
  "\<lambda>history. books_agree (map snd history)"
  by unfold_locales (auto intro: books_agree_step)

definition same_arb :: "cross_venue_arb \<Rightarrow> cross_venue_arb \<Rightarrow> bool" where
  "same_arb a b \<longleftrightarrow> a\<lparr>xv_book := []\<rparr> = b\<lparr>xv_book := []\<rparr>"

lemma same_arb_step: "same_arb (snd (arb_on_event u e st)) st"
  by (cases e) (auto simp: same_arb_def Let_def split: sum.split)

interpretation arb_config: follows_history "\<lambda>(u, e) st. snd (arb_on_event u e st)" "\<lambda>_. True" "\<lambda>_ st. same_arb st st0" for st0
  by unfold_locales (use same_arb_step in \<open>auto simp: same_arb_def\<close>)

lemma arb_run_inv:
  "same_arb (arb_run history st0) st0" "books_agree [] st0 \<Longrightarrow> books_agree (map snd history) (arb_run history st0)"
  using arb_config.agrees_after [of st0 st0 history] arb.agrees_after [of st0 history]
  by (simp_all add: arb_run_def same_arb_def list_all_iff)

lemma new_arb_books: "new_cross_venue_arb str_other params = Inr st0 \<Longrightarrow> books_agree [] st0"
  by (auto simp: new_cross_venue_arb_def bind_result_Inr_iff books_agree_def entry_agrees_def last_quoted_def dict_get_default_def
      empty_best_quote_def)

text \<open>Levels as the venues quote them: prices in four decimals, a size.\<close>

definition venue_level :: "order_book_level \<Rightarrow> bool" where
  "venue_level l \<longleftrightarrow> on_grid 4 (lvl_price l) \<and> 0 \<le> lvl_price l \<and> lvl_price l \<le> 1 \<and> 0 < lvl_quantity l"

definition venue_quote :: "normalized_event \<Rightarrow> bool" where
  "venue_quote e \<longleftrightarrow>
     (case e of
        QuoteEvent eid q prov \<Rightarrow> (\<forall>l. q_bid q = Some l \<or> q_ask q = Some l \<longrightarrow> venue_level l)
      | _ \<Rightarrow> True)"

lemma last_quoted_level:
  assumes "list_all venue_quote events" and "last_quoted q_bid events k = Some l"
  shows "venue_level l"
  using assms
proof (induction events rule: rev_induct)
  case (snoc e events)
  then show ?case
    by (auto simp: last_quoted_snoc quoted_level_def venue_quote_def split: normalized_event.splits if_splits)
qed (simp add: last_quoted_def)

text \<open>The configured edge and fees of the two venues, in exact arithmetic.\<close>

definition required_bps :: "cross_venue_arb \<Rightarrow> rat" where
  "required_bps st = xv_min_edge_bps st + (xv_kalshi_fee_bps st + xv_poly_fee_bps st)"

definition plain_bps :: "cross_venue_arb \<Rightarrow> bool" where
  "plain_bps st \<longleftrightarrow>
     on_grid 4 (xv_min_edge_bps st) \<and> on_grid 4 (xv_kalshi_fee_bps st) \<and> on_grid 4 (xv_poly_fee_bps st) \<and>
     \<bar>xv_min_edge_bps st\<bar> \<le> 10 ^ 20 \<and> \<bar>xv_kalshi_fee_bps st\<bar> \<le> 10 ^ 20 \<and> \<bar>xv_poly_fee_bps st\<bar> \<le> 10 ^ 20"

lemma required_bps_exact:
  assumes "plain_bps st"
  shows "dadd (xv_min_edge_bps st) (dadd (xv_kalshi_fee_bps st) (xv_poly_fee_bps st)) = required_bps st"
    and "on_grid 8 (required_bps st / 10000)"
proof -
  let ?f = "xv_kalshi_fee_bps st + xv_poly_fee_bps st"
  have f: "\<bar>?f\<bar> * 10 ^ 4 \<le> 10 ^ 28" and s: "\<bar>xv_min_edge_bps st + ?f\<bar> * 10 ^ 4 \<le> 10 ^ 28"
    using assms by (auto simp: plain_bps_def)
  have fg: "on_grid 4 ?f" using assms f by (intro on_grid_add) (auto simp: plain_bps_def)
  have sg: "on_grid 4 (required_bps st)"
    using assms fg s unfolding required_bps_def by (intro on_grid_add) (auto simp: plain_bps_def)
  show "dadd (xv_min_edge_bps st) (dadd (xv_kalshi_fee_bps st) (xv_poly_fee_bps st)) = required_bps st"
    using assms dadd_grid [OF _ _ f] dadd_grid [OF _ fg s] by (simp add: plain_bps_def required_bps_def)
  obtain n where "required_bps st = of_int n / 10 ^ 4" "\<bar>n\<bar> \<le> 10 ^ 28" using sg by (rule on_gridE)
  then show "on_grid 8 (required_bps st / 10000)" by (intro on_gridI [of _ n]) auto
qed

text \<open>The strategy's rounded comparison implies the exact one.\<close>

lemma arb_edge_exact:
  assumes "on_grid 4 bid" "0 \<le> bid" "bid \<le> 1" and "on_grid 4 ask" "0 < ask" "ask \<le> 1"
    and "dmul (ddiv (dsub bid ask) ask) 10000 > s" and "on_grid 8 (s / 10000)"
  shows "ask * (s / 10000) < bid - ask"
proof (rule ccontr)
  assume "\<not> ask * (s / 10000) < bid - ask"
  then have le: "(bid - ask) / ask \<le> s / 10000"
    using assms(5) by (simp add: pos_divide_le_eq mult.commute)
  have d: "on_grid 4 (bid + - ask)" using assms by (intro on_grid_add) (auto simp: abs_le_iff)
  then have "dsub bid ask = bid - ask" by (simp add: dsub_def)
  have "dctx ((bid - ask) / ask) \<le> s / 10000"
    using le assms(8) by (intro dctx_le_fix) (rule dctx_grid)
  then have "ddiv (dsub bid ask) ask * 10000 \<le> s / 10000 * 10000"
    unfolding ddiv_def \<open>dsub bid ask = bid - ask\<close> by (rule mult_right_mono) simp
  moreover have "dctx s = s"
  proof -
    obtain n where "s / 10000 = of_int n / 10 ^ 8" "\<bar>n\<bar> \<le> 10 ^ 28" using assms(8) by (rule on_gridE)
    then show ?thesis by (intro dctx_grid [of 4] on_gridI [of _ n]) auto
  qed
  ultimately have "dmul (ddiv (dsub bid ask) ask) 10000 \<le> s" by (simp add: dmul_def dctx_le_fix)
  then show False using assms(7) by simp
qed

declare arb_on_event.simps [simp del]

lemma arb_order_cases:
  assumes "arb_decision uuid st iid other this = Inr ds" and "PlaceOrder r \<in> set ds"
  obtains bid ask snap level where "Option.bind other bq_bid = Some bid" and "bq_ask this = Some ask"
    and "bq_snapshot this = Some snap" and "snap_ask snap = Some level" and "ask \<noteq> 0"
    and "dmul (ddiv (dsub bid ask) ask) 10000 > dadd (xv_min_edge_bps st) (dadd (xv_kalshi_fee_bps st) (xv_poly_fee_bps st))"
    and "iid_venue iid = xv_controlled_venue st"
    and "po_instrument_id r = iid" and "po_outcome_side r = YES" and "po_order_side r = BUY"
    and "po_price r = Some (lvl_price level)"
    and "po_quantity r = min (min (xv_max_clip_size st) (size_or (Option.bind other bq_bid_qty) (xv_max_clip_size st)))
                           (size_or (bq_ask_qty this) (xv_max_clip_size st))"
    and "0 < po_quantity r"
proof -
  obtain o' where o': "other = Some o'" using assms by (cases other) (auto simp: arb_decision_def)
  obtain bid where bid: "bq_bid o' = Some bid" using assms by (cases "bq_bid o'") (auto simp: arb_decision_def o')
  obtain ask where ask: "bq_ask this = Some ask" using assms by (cases "bq_ask this") (auto simp: arb_decision_def o' bid)
  obtain snap where snap: "bq_snapshot this = Some snap"
    using assms by (cases "bq_snapshot this") (auto simp: arb_decision_def o' bid ask)
  obtain level where level: "snap_ask snap = Some level"
    using assms by (cases "snap_ask snap") (auto simp: arb_decision_def o' bid ask snap)
  have "ask \<noteq> 0" using assms by (auto simp: arb_decision_def o' bid ask snap level div_result_def)
  note d = assms [unfolded arb_decision_def o' bid ask snap level div_result_def]
  show ?thesis
    using d \<open>ask \<noteq> 0\<close>
    by (intro that [of bid ask snap level])
      (auto simp: o' bid ask snap level Let_def bind_result_Inr_iff mk_place_order_def not_le split: if_split_asm)
qed

text \<open>
  C5: Every order the cross-venue arbitrage places on a YES quote, after any history of quotes, buys
  YES on the controlled venue at the ask just quoted, for no more than the configured clip and the
  sizes quoted on either side, and the counter venue's last bid for the same market exceeds that ask
  by more than the minimum edge and both venues' fees, in exact arithmetic.
\<close>

theorem arb_order_beats_counter_bid:
  assumes "new_cross_venue_arb str_other params = Inr st0" and "plain_bps st0"
    and "list_all (\<lambda>(u, e). venue_quote e) history" and "venue_quote (QuoteEvent eid q prov)" and "q_side q = YES"
    and "fst (arb_on_event uuid (QuoteEvent eid q prov) (arb_run history st0)) = Inr ds" and "PlaceOrder r \<in> set ds"
  shows "\<exists>counter bid ask.
    opposite_venue st0 (iid_venue (q_instrument_id q)) = Inr counter \<and>
    last_quoted q_bid (map snd history @ [QuoteEvent eid q prov]) (market_id (q_instrument_id q), counter) = Some bid \<and>
    q_ask q = Some ask \<and>
    po_instrument_id r = q_instrument_id q \<and> iid_venue (q_instrument_id q) = xv_controlled_venue st0 \<and>
    po_outcome_side r = YES \<and> po_order_side r = BUY \<and> po_price r = Some (lvl_price ask) \<and>
    0 < po_quantity r \<and> po_quantity r \<le> xv_max_clip_size st0 \<and>
    po_quantity r \<le> lvl_quantity ask \<and> po_quantity r \<le> lvl_quantity bid \<and>
    lvl_price ask * (required_bps st0 / 10000) < lvl_price bid - lvl_price ask"
proof -
  let ?e = "QuoteEvent eid q prov" and ?st = "arb_run history st0" and ?iid = "q_instrument_id q"
  let ?st' = "snd (arb_on_event uuid ?e ?st)" and ?events = "map snd history @ [?e]"
  have same: "same_arb ?st st0" and agree: "books_agree ?events ?st'"
    using arb_run_inv(1) [of history st0] arb_run_inv(2) [of st0 history] new_arb_books [OF assms(1)]
      books_agree_step [of "map snd history" ?st ?e uuid] by blast+
  define this where "this = dict_get_default (xv_book ?st') (book_key q) empty_best_quote"
  obtain snap counter where snap: "market_snapshot_from_quote_event eid q prov (Some YES) = Inr snap"
    "opposite_venue ?st (iid_venue ?iid) = Inr counter"
    "bq_snapshot this = Some snap"
    and d: "arb_decision uuid ?st ?iid (dict_get (xv_book ?st') (market_id ?iid, counter)) this = Inr ds"
    using assms(6)
    by (auto simp: arb_on_event.simps Let_def bind_result_Inr_iff this_def book_key_def dict_get_default_def split: sum.splits)
  let ?other = "dict_get (xv_book ?st') (market_id ?iid, counter)"
  from d assms(7) obtain bid_price ask_price level where
    o: "Option.bind ?other bq_bid = Some bid_price" "bq_ask this = Some ask_price" "snap_ask snap = Some level" "ask_price \<noteq> 0"
    "dmul (ddiv (dsub bid_price ask_price) ask_price) 10000 >
      dadd (xv_min_edge_bps ?st) (dadd (xv_kalshi_fee_bps ?st) (xv_poly_fee_bps ?st))"
    "iid_venue ?iid = xv_controlled_venue ?st" "po_instrument_id r = ?iid" "po_outcome_side r = YES" "po_order_side r = BUY"
    "po_price r = Some (lvl_price level)"
    "po_quantity r = min (min (xv_max_clip_size ?st) (size_or (Option.bind ?other bq_bid_qty) (xv_max_clip_size ?st)))
                       (size_or (bq_ask_qty this) (xv_max_clip_size ?st))" "0 < po_quantity r"
    using snap(3) by (elim arb_order_cases) auto
  have ask: "q_ask q = Some level"
    using snap(1) o(3) assms(5) by (auto simp: market_snapshot_from_quote_event_def mk_market_snapshot_def)
  have entry: "entry_agrees ?events (book_key q) this"
    using agree unfolding books_agree_def this_def by blast
  have "last_quoted q_ask ?events (book_key q) = Some level"
    using ask by (simp add: last_quoted_snoc quoted_level_def)
  then have this_ask: "ask_price = lvl_price level" "bq_ask_qty this = Some (lvl_quantity level)"
    using entry o(2) by (auto simp: entry_agrees_def)
  have "entry_agrees ?events (market_id ?iid, counter) (dict_get_default (xv_book ?st') (market_id ?iid, counter) empty_best_quote)"
    using agree by (simp add: books_agree_def)
  with o(1) obtain bid where bid: "last_quoted q_bid ?events (market_id ?iid, counter) = Some bid"
    "bid_price = lvl_price bid" "Option.bind ?other bq_bid_qty = Some (lvl_quantity bid)"
    by (cases ?other; cases "last_quoted q_bid ?events (market_id ?iid, counter)")
      (auto simp: entry_agrees_def dict_get_default_def)
  have "list_all venue_quote ?events" using assms(3,4) by (auto simp: list_all_iff)
  then have levels: "venue_level bid" "venue_level level"
    using last_quoted_level [OF _ bid(1)] assms(4) ask by (auto simp: venue_quote_def)
  have cfg: "opposite_venue st0 = opposite_venue ?st" "required_bps ?st = required_bps st0" "plain_bps ?st"
    "xv_controlled_venue ?st = xv_controlled_venue st0" "xv_max_clip_size ?st = xv_max_clip_size st0"
    using same assms(2) by (cases ?st; cases st0; simp add: same_arb_def opposite_venue_def fun_eq_iff required_bps_def plain_bps_def)+
  have "lvl_price level * (required_bps st0 / 10000) < lvl_price bid - lvl_price level"
    using arb_edge_exact [of "lvl_price bid" "lvl_price level" "required_bps st0"] required_bps_exact [OF cfg(3)] o(4,5) levels
    by (simp add: cfg(2) this_ask(1) bid(2) venue_level_def)
  then show ?thesis
    using o ask bid snap(2) levels cfg this_ask
    by (intro exI [of _ counter] exI [of _ bid] exI [of _ level]) (auto simp: size_or_def venue_level_def split: if_splits)
qed

text \<open>A counter bid of sixty cents and an ask of fifty on the controlled venue.\<close>

definition demo_provenance :: event_provenance where
  "demo_provenance =
     \<lparr>prov_source = ''ws'', prov_channel = ''ticker'', prov_schema_version = ''1'', prov_venue = None,
      prov_source_sequence = None, normalization_version = ''1'', prov_metadata = []\<rparr>"

definition demo_quote :: "venue \<Rightarrow> outcome_side \<Rightarrow> decimal \<Rightarrow> decimal \<Rightarrow> normalized_event" where
  "demo_quote v side bid ask =
     QuoteEvent ''e''
       \<lparr>q_instrument_id = \<lparr>iid_venue = v, market_id = ''M'', outcome_id = None\<rparr>, q_side = side,
        q_bid = Some \<lparr>lvl_price = bid, lvl_quantity = 5\<rparr>, q_ask = Some \<lparr>lvl_price = ask, lvl_quantity = 8\<rparr>,
        q_exchange_ts = None, q_received_at = utc 0\<rparr>
       demo_provenance"

definition demo_arb :: cross_venue_arb where
  "demo_arb =
     \<lparr>xv_counter_venue = ''polymarket_global'', xv_controlled_venue = KALSHI, xv_min_edge_bps = 100,
      xv_kalshi_fee_bps = 175, xv_poly_fee_bps = 200, xv_max_clip_size = 20, xv_book = []\<rparr>"

definition demo_arb_history :: "(string \<times> normalized_event) list" where
  "demo_arb_history = [(''u0'', demo_quote POLYMARKET_GLOBAL YES (60 / 100) (62 / 100))]"

definition price_and_size :: "strategy_decision list result \<Rightarrow> (decimal option \<times> decimal) option list option" where
  "price_and_size r =
     (case r of
        Inl e \<Rightarrow> None
      | Inr ds \<Rightarrow> Some (map (\<lambda>d. case d of PlaceOrder p \<Rightarrow> Some (po_price p, po_quantity p) | _ \<Rightarrow> None) ds))"

lemma price_and_size_order:
  "price_and_size r = Some [Some (p, n)] \<Longrightarrow> \<exists>d. r = Inr [PlaceOrder d] \<and> po_price d = p \<and> po_quantity d = n"
  by (auto simp: price_and_size_def split: sum.splits strategy_decision.splits)

theorem arb_order_beats_counter_bid_witness:
  "\<exists>r. fst (arb_on_event ''u'' (demo_quote KALSHI YES (48 / 100) (50 / 100)) (arb_run demo_arb_history demo_arb)) = Inr [PlaceOrder r] \<and>
     po_price r = Some (1 / 2) \<and> po_quantity r = 5 \<and> 1 / 2 * (475 / 10000) < (60 / 100 :: rat) - 1 / 2"
proof -
  have new: "new_cross_venue_arb (\<lambda>_. []) [] = Inr demo_arb" by code_simp
  have "price_and_size (fst (arb_on_event ''u'' (demo_quote KALSHI YES (48 / 100) (50 / 100)) (arb_run demo_arb_history demo_arb)))
      = Some [Some (Some (1 / 2), 5)]" by code_simp
  then obtain r where r: "fst (arb_on_event ''u'' (demo_quote KALSHI YES (48 / 100) (50 / 100)) (arb_run demo_arb_history demo_arb))
      = Inr [PlaceOrder r]" "po_price r = Some (1 / 2)" "po_quantity r = 5"
    using price_and_size_order by blast
  have bps: "plain_bps demo_arb" by (simp add: plain_bps_def demo_arb_def on_grid_def)
  have quotes: "list_all (\<lambda>(u, e). venue_quote e) demo_arb_history" "venue_quote (demo_quote KALSHI YES (48 / 100) (50 / 100))"
    by (auto simp: demo_arb_history_def demo_quote_def venue_quote_def venue_level_def on_grid_def)
  from arb_order_beats_counter_bid [OF new bps quotes(1), of "''e''" _ demo_provenance "''u''" "[PlaceOrder r]" r] r quotes(2)
  have "1 / 2 * (required_bps demo_arb / 10000) < (60 / 100 :: rat) - 1 / 2"
    by (force simp: demo_quote_def demo_arb_history_def last_quoted_def quoted_level_def book_key_def opposite_venue_def
        demo_arb_def venue_of_string_def)
  then show ?thesis using r by (simp add: required_bps_def demo_arb_def)
qed

text \<open>
  The handler reads a quote's levels without its side, so a NO quote fills the book the comparison
  takes for YES prices: YES is bought at 95 cents against a counter bid of 60.
\<close>

lemma arb_misreads_no_quotes:
  "price_and_size (fst (arb_on_event ''u'' (demo_quote KALSHI NO (5 / 100) (10 / 100)) (arb_run demo_arb_history demo_arb)))
     = Some [Some (Some (95 / 100), 5)]"
  by code_simp

end
