(* ===== verification/EvaderProps.thy ===== *)
theory EvaderProps
  imports BookStrategies Histories
begin

text \<open>
  The queue evader over whole histories. The entry of a price level is described without the
  strategy's state: the order the last update at that level reported live, the prints at or through
  its price since the level was first reported, of which the window keeps the last twenty, and the
  depths the books showed at its price since, which give the part of the queue still ahead.
\<close>

section \<open>A level as its history shows it\<close>

definition prints :: "resting_key \<Rightarrow> normalized_event list \<Rightarrow> decimal list" where
  "prints k events =
     List.map_filter
       (\<lambda>e. case e of
          TradeEvent eid t prov \<Rightarrow>
            if tr_instrument_id t = fst k \<and>
               (if snd (snd k) = BUY then tr_price t \<le> fst (snd k) else tr_price t \<ge> fst (snd k))
            then Some (tr_quantity t) else None
        | _ \<Rightarrow> None) events"

text \<open>The depth a book shows at the price of a level, on the level's side.\<close>

definition shown_depth :: "resting_key \<Rightarrow> order_book \<Rightarrow> decimal" where
  "shown_depth k b =
     sum_list (map lvl_quantity
       (filter (\<lambda>l. lvl_price l = fst (snd k)) (if snd (snd k) = BUY then yes_bids b else yes_asks b)))"

definition depths :: "resting_key \<Rightarrow> normalized_event list \<Rightarrow> decimal list" where
  "depths k events =
     List.map_filter
       (\<lambda>e. case e of
          OrderBookEvent eid b prov \<Rightarrow> if bk_instrument_id b = fst k then Some (shown_depth k b) else None
        | _ \<Rightarrow> None) events"

definition own_updates :: "resting_key \<Rightarrow> normalized_event list \<Rightarrow> order list" where
  "own_updates k events =
     List.map_filter
       (\<lambda>e. case e of OwnOrderUpdateEvent eid r prov \<Rightarrow> if resting_key_of r = k then Some r else None | _ \<Rightarrow> None) events"

text \<open>
  A live update opened the level, none since ended it; \<open>coid\<close> is the order the last one reported,
  \<open>ps\<close> the adverse prints since and \<open>ds\<close> the depths of the books since.
\<close>

definition level_live ::
  "normalized_event list \<Rightarrow> resting_key \<Rightarrow> string \<Rightarrow> decimal list \<Rightarrow> decimal list \<Rightarrow> bool" where
  "level_live events k coid ps ds \<longleftrightarrow>
     (\<exists>before eid r prov after.
        events = before @ OwnOrderUpdateEvent eid r prov # after \<and> resting_key_of r = k \<and>
        list_all (\<lambda>u. \<not> order_ended u) (r # own_updates k after) \<and>
        coid = ord_client_order_id (last (r # own_updates k after)) \<and> ps = prints k after \<and> ds = depths k after)"

definition window :: "decimal list \<Rightarrow> decimal list" where
  "window ps = drop (length ps - 20) ps"

text \<open>
  The queue still ahead of the level: nothing once the price is empty; otherwise the depth at which
  the price was last filled again from empty, less every shrinkage since, and never below zero.
\<close>

fun shrinkage :: "decimal list \<Rightarrow> decimal" where
  "shrinkage (a # b # ds) = max 0 (a - b) + shrinkage (b # ds)"
| "shrinkage _ = 0"

definition filled_run :: "decimal list \<Rightarrow> decimal list" where
  "filled_run ds = rev (takeWhile (\<lambda>d. d \<noteq> 0) (rev ds))"

definition queue_ahead :: "decimal list \<Rightarrow> decimal" where
  "queue_ahead ds = (case filled_run ds of [] \<Rightarrow> 0 | d # later \<Rightarrow> max 0 (d - shrinkage (d # later)))"

definition last_depth :: "decimal list \<Rightarrow> decimal" where
  "last_depth ds = (if ds = [] then 0 else last ds)"

lemma map_filter_snoc: "List.map_filter f (xs @ [x]) = List.map_filter f xs @ (case f x of None \<Rightarrow> [] | Some y \<Rightarrow> [y])"
  by (simp add: map_filter_def split: option.split)

lemma level_live_open:
  "\<not> order_ended r \<Longrightarrow> level_live (events @ [OwnOrderUpdateEvent eid r prov]) (resting_key_of r) (ord_client_order_id r) [] []"
  unfolding level_live_def
  by (intro exI [of _ events] exI [of _ eid] exI [of _ r] exI [of _ prov] exI [of _ "[]"])
    (simp add: own_updates_def prints_def depths_def map_filter_def)

lemma level_live_snoc:
  assumes "level_live events k coid ps ds" and "own_updates k [e] = []"
  shows "level_live (events @ [e]) k coid (ps @ prints k [e]) (ds @ depths k [e])"
proof -
  obtain before eid r prov after where "events = before @ OwnOrderUpdateEvent eid r prov # after" "resting_key_of r = k"
    "list_all (\<lambda>u. \<not> order_ended u) (r # own_updates k after)"
    "coid = ord_client_order_id (last (r # own_updates k after))" "ps = prints k after" "ds = depths k after"
    using assms(1) by (auto simp: level_live_def)
  moreover have "own_updates k (after @ [e]) = own_updates k after" "prints k (after @ [e]) = prints k after @ prints k [e]"
    "depths k (after @ [e]) = depths k after @ depths k [e]"
    using assms(2) by (simp_all add: own_updates_def prints_def depths_def map_filter_def)
  ultimately show ?thesis
    unfolding level_live_def
    by (intro exI [of _ before] exI [of _ eid] exI [of _ r] exI [of _ prov] exI [of _ "after @ [e]"]) simp
qed

lemma level_live_update:
  assumes "level_live events k coid ps ds" and "resting_key_of u = k" and "\<not> order_ended u"
  shows "level_live (events @ [OwnOrderUpdateEvent i u p]) k (ord_client_order_id u) ps ds"
proof -
  obtain before eid r prov after where "events = before @ OwnOrderUpdateEvent eid r prov # after" "resting_key_of r = k"
    "list_all (\<lambda>u. \<not> order_ended u) (r # own_updates k after)" "ps = prints k after" "ds = depths k after"
    using assms(1) by (auto simp: level_live_def)
  moreover have "own_updates k (after @ [OwnOrderUpdateEvent i u p]) = own_updates k after @ [u]"
    "prints k (after @ [OwnOrderUpdateEvent i u p]) = prints k after"
    "depths k (after @ [OwnOrderUpdateEvent i u p]) = depths k after"
    using assms(2) by (simp_all add: own_updates_def prints_def depths_def map_filter_def)
  ultimately show ?thesis
    using assms(3) unfolding level_live_def
    by (intro exI [of _ before] exI [of _ eid] exI [of _ r] exI [of _ prov]
        exI [of _ "after @ [OwnOrderUpdateEvent i u p]"]) simp
qed

section \<open>The window\<close>

lemma window_snoc:
  "window (ps @ [q]) = (if length (window ps @ [q]) > 20 then tl (window ps @ [q]) else window ps @ [q])"
proof (cases "20 \<le> length ps")
  case True
  have "drop (Suc (length ps) - 20) ps = tl (drop (length ps - 20) ps)"
    using True by (metis Suc_diff_le drop_Suc tl_drop)
  moreover have "drop (length ps - 20) ps \<noteq> []" using True by (auto simp: not_le)
  ultimately show ?thesis using True by (simp add: window_def)
qed (simp add: window_def)

lemma length_window: "length (window ps) \<le> 20"
  by (simp add: window_def)

lemma set_window: "set (window ps) \<subseteq> set ps"
  by (simp add: window_def set_drop_subset)

text \<open>Sizes as the venues report them: four decimals, below \<open>10\<^sup>20\<close>.\<close>

definition plain_size :: "decimal \<Rightarrow> bool" where
  "plain_size q \<longleftrightarrow> on_grid 4 q \<and> 0 \<le> q \<and> q \<le> 10 ^ 20"

definition plain_side :: "order_book_level list \<Rightarrow> bool" where
  "plain_side ls \<longleftrightarrow> list_all (\<lambda>l. plain_size (lvl_quantity l)) ls \<and> sum_list (map lvl_quantity ls) \<le> 10 ^ 20"

definition plain_sizes :: "normalized_event \<Rightarrow> bool" where
  "plain_sizes e \<longleftrightarrow>
     (case e of
        TradeEvent eid t prov \<Rightarrow> plain_size (tr_quantity t)
      | OrderBookEvent eid b prov \<Rightarrow> plain_side (yes_bids b) \<and> plain_side (yes_asks b)
      | _ \<Rightarrow> True)"

lemma sum_plain:
  assumes "list_all plain_size qs" and "length qs \<le> 21"
  shows "on_grid 4 (sum_list qs)" and "0 \<le> sum_list qs" and "sum_list qs * 10 ^ 4 \<le> 10 ^ 28"
proof -
  have "sum_list qs \<le> of_nat (length qs) * 10 ^ 20"
    using assms(1) by (induction qs) (auto simp: plain_size_def algebra_simps)
  also have "\<dots> \<le> 21 * 10 ^ 20" using assms(2) by (intro mult_right_mono) auto
  finally show le: "sum_list qs * 10 ^ 4 \<le> 10 ^ 28" by simp
  show "on_grid 4 (sum_list qs)" and "0 \<le> sum_list qs"
    using dsum_grid(2) [of qs 4] le assms(1) by (auto simp: list_all_iff plain_size_def intro: sum_list_nonneg)
qed

definition window_entry :: "decimal list \<Rightarrow> tracked_order \<Rightarrow> bool" where
  "window_entry ps x \<longleftrightarrow> to_taker_history x = window ps \<and> to_taker_volume x = sum_list (window ps)"

lemma record_print_window:
  assumes "window_entry ps x" and "list_all plain_size (ps @ [tr_quantity t])" and "is_adverse t x"
  shows "window_entry (ps @ [tr_quantity t]) (record_print t x)"
proof -
  let ?w = "window ps" and ?q = "tr_quantity t"
  have plain: "list_all plain_size (?w @ [?q])"
    using assms(2) set_window [of ps] by (auto simp: list_all_iff)
  have len: "length (?w @ [?q]) \<le> 21" using length_window [of ps] by simp
  note s = sum_plain [OF plain len]
  have w: "on_grid 4 (sum_list ?w)" "0 \<le> sum_list ?w"
    using sum_plain [of ?w] plain length_window [of ps] by auto
  have add: "dadd (sum_list ?w) ?q = sum_list (?w @ [?q])"
    using s plain w by (simp add: dadd_def)
  have sub: "dsub (sum_list (?w @ [?q])) (hd (?w @ [?q])) = sum_list (tl (?w @ [?q]))" if "?w \<noteq> []"
  proof -
    obtain a v where av: "?w = a # v" using \<open>?w \<noteq> []\<close> by (cases ?w) auto
    have "0 \<le> sum_list (v @ [?q])"
      using plain unfolding av by (intro sum_list_nonneg) (auto simp: list_all_iff plain_size_def)
    then show ?thesis
      using s(1) plain unfolding av by (subst dsub_grid [of 4]) (auto simp: plain_size_def)
  qed
  show ?thesis
  proof (cases "length (?w @ [?q]) > 20")
    case True
    then have "?w \<noteq> []" by auto
    then show ?thesis
      using True assms(1,3) add sub window_snoc [of ps ?q]
      by (simp add: window_entry_def record_print_def Let_def)
  next
    case False
    then show ?thesis
      using assms(1,3) add window_snoc [of ps ?q] by (simp add: window_entry_def record_print_def Let_def)
  qed
qed

section \<open>The queue ahead\<close>

lemma filled_run_snoc: "filled_run (ds @ [d]) = (if d = 0 then [] else filled_run ds @ [d])"
  by (simp add: filled_run_def)

lemma filled_run_last: "filled_run ds = [] \<longleftrightarrow> last_depth ds = 0" "filled_run ds \<noteq> [] \<Longrightarrow> last (filled_run ds) = last_depth ds"
  by (induction ds rule: rev_induct) (auto simp: filled_run_def last_depth_def)

lemma shrinkage_snoc: "r \<noteq> [] \<Longrightarrow> shrinkage (r @ [d]) = shrinkage r + max 0 (last r - d)"
proof (induction r rule: shrinkage.induct)
  case (1 a b ds)
  then show ?case by simp
qed simp_all

lemma shrinkage_reaches: "r \<noteq> [] \<Longrightarrow> hd r - shrinkage r \<le> last r"
proof (induction r rule: shrinkage.induct)
  case (1 a b ds)
  then show ?case by (simp add: max_def split: if_splits)
qed simp_all

text \<open>One more book, as the strategy's estimate follows it.\<close>

lemma queue_ahead_snoc:
  assumes "0 \<le> last_depth ds" and "0 \<le> d"
  shows "queue_ahead (ds @ [d]) =
    (if d < last_depth ds then max 0 (queue_ahead ds - (last_depth ds - d))
     else if last_depth ds = 0 then d else queue_ahead ds)"
proof (cases "filled_run ds")
  case Nil
  then have "last_depth ds = 0" using filled_run_last(1) by blast
  then show ?thesis using Nil assms(2) by (simp add: queue_ahead_def filled_run_snoc)
next
  case (Cons a r)
  then have l: "last (a # r) = last_depth ds" "last_depth ds \<noteq> 0" using filled_run_last [of ds] by auto
  have "a - shrinkage (a # r) \<le> last_depth ds" using shrinkage_reaches [of "a # r"] l(1) by simp
  moreover have "shrinkage (a # r @ [d]) = shrinkage (a # r) + max 0 (last_depth ds - d)"
    using shrinkage_snoc [of "a # r" d] l(1) by simp
  ultimately show ?thesis
    using Cons assms l(2) by (auto simp: queue_ahead_def filled_run_snoc max_def)
qed

lemma filled_run_set: "set (filled_run ds) \<subseteq> set ds"
  unfolding filled_run_def by (auto dest: set_takeWhileD)

lemma shrinkage_nonneg: "0 \<le> shrinkage ds"
  by (induction ds rule: shrinkage.induct) auto

lemma plain_between:
  assumes "plain_size a" and "plain_size b" and "b \<le> a"
  shows "dsub a b = a - b" and "plain_size (a - b)"
  using assms on_grid_between [of 4 a b] by (auto simp: plain_size_def)

definition queue_entry :: "decimal list \<Rightarrow> tracked_order \<Rightarrow> bool" where
  "queue_entry ds x \<longleftrightarrow>
     to_queue_ahead x = queue_ahead ds \<and> to_last_book_quantity x = last_depth ds \<and>
     plain_size (queue_ahead ds) \<and> plain_size (last_depth ds)"

lemma plain_zero: "plain_size 0"
  unfolding plain_size_def by (auto intro: on_gridI [where n = 0])

lemma queue_entry_new: "to_queue_ahead x = 0 \<Longrightarrow> to_last_book_quantity x = 0 \<Longrightarrow> queue_entry [] x"
  using plain_zero by (simp add: queue_entry_def queue_ahead_def filled_run_def last_depth_def)

lemma shown_depth_plain:
  assumes "plain_side (yes_bids b)" and "plain_side (yes_asks b)"
  shows "plain_size (shown_depth k b)"
    and "dsum (map lvl_quantity (filter (\<lambda>l. lvl_price l = fst (snd k)) (if snd (snd k) = BUY then yes_bids b else yes_asks b))) =
      shown_depth k b"
proof -
  let ?ls = "if snd (snd k) = BUY then yes_bids b else yes_asks b"
  let ?f = "filter (\<lambda>l. lvl_price l = fst (snd k)) ?ls"
  have side: "plain_side ?ls" using assms by simp
  have "sum_list (map lvl_quantity (filter P ls)) \<le> sum_list (map lvl_quantity ls)" if "plain_side ls" for P and ls :: "order_book_level list"
    using that by (induction ls) (auto simp: plain_side_def plain_size_def add_increasing)
  note le' = this [OF side, of "\<lambda>l. lvl_price l = fst (snd k)"]
  also have "sum_list (map lvl_quantity ?ls) \<le> 10 ^ 20" using side by (simp only: plain_side_def)
  finally have le: "sum_list (map lvl_quantity ?f) \<le> 10 ^ 20" .
  have q: "\<And>x. x \<in> set (map lvl_quantity ?f) \<Longrightarrow> on_grid 4 x \<and> 0 \<le> x"
    using side by (auto simp: plain_side_def list_all_iff plain_size_def)
  have "sum_list (map lvl_quantity ?f) * 10 ^ 4 \<le> 10 ^ 28" using le by simp
  note d = dsum_grid [OF q this]
  show "dsum (map lvl_quantity ?f) = shown_depth k b" using d(1) by (simp only: shown_depth_def)
  show "plain_size (shown_depth k b)"
    unfolding plain_size_def shown_depth_def using d(2) le q by (auto intro!: sum_list_nonneg)
qed

lemma estimate_queue_entry:
  assumes "queue_entry ds x" and "plain_side (yes_bids b)" and "plain_side (yes_asks b)"
    and "to_instrument_id x = bk_instrument_id b" and "to_price x = fst (snd k)" and "to_side x = snd (snd k)"
  shows "queue_entry (ds @ [shown_depth k b]) (estimate_queue b x)"
proof -
  let ?d = "shown_depth k b" and ?l = "last_depth ds" and ?q = "queue_ahead ds"
  note d = shown_depth_plain [OF assms(2,3), of k]
  have x: "to_queue_ahead x = ?q" "to_last_book_quantity x = ?l" "plain_size ?q" "plain_size ?l"
    using assms(1) by (simp_all add: queue_entry_def)
  have lst: "last_depth (ds @ [?d]) = ?d" by (simp add: last_depth_def)
  have next': "queue_ahead (ds @ [?d]) =
      (if ?d < ?l then max 0 (?q - (?l - ?d)) else if ?l = 0 then ?d else ?q)"
    using queue_ahead_snoc [of ds ?d] x(4) d(1) by (simp add: plain_size_def)
  have est: "to_queue_ahead (estimate_queue b x) =
      (if ?d < ?l then max 0 (dsub ?q (dsub ?l ?d)) else if ?l = 0 then ?d else ?q)"
    "to_last_book_quantity (estimate_queue b x) = ?d"
    using x(1,2) assms(4-6) d(2) by (simp_all add: estimate_queue_def Let_def)
  have less: "max 0 (dsub ?q (dsub ?l ?d)) = max 0 (?q - (?l - ?d)) \<and> plain_size (max 0 (?q - (?l - ?d)))" if "?d < ?l"
  proof -
    have ld: "dsub ?l ?d = ?l - ?d" "plain_size (?l - ?d)" using plain_between [OF x(4) d(1)] that by auto
    show ?thesis
    proof (cases "?l - ?d \<le> ?q")
      case True
      then show ?thesis using plain_between [OF x(3) ld(2)] ld(1) by (simp add: plain_size_def)
    next
      case False
      then have "on_grid 4 (- (?l - ?d - ?q))"
        using on_grid_between [of 4 "?l - ?d" ?q] ld(2) x(3) by (simp only: on_grid_uminus) (simp add: plain_size_def)
      then have "dsub ?q (?l - ?d) \<le> 0" using False by (simp add: dsub_def)
      then show ?thesis using False ld(1) plain_zero by (simp add: max_def)
    qed
  qed
  show ?thesis
    unfolding queue_entry_def lst using est less next' x(3) d(1) by auto
qed

section \<open>The invariant of the tracked orders\<close>

definition level_entry :: "normalized_event list \<Rightarrow> resting_key \<Rightarrow> tracked_order \<Rightarrow> bool" where
  "level_entry events k x \<longleftrightarrow>
     to_instrument_id x = fst k \<and> to_price x = fst (snd k) \<and> to_side x = snd (snd k) \<and>
     (\<exists>ps ds. level_live events k (to_client_order_id x) ps ds \<and> list_all plain_size ps \<and> window_entry ps x \<and>
        queue_entry ds x)"

definition evader_ok :: "normalized_event list \<Rightarrow> queue_evader \<Rightarrow> bool" where
  "evader_ok events st \<longleftrightarrow> wf_dict (qe_resting st) \<and> (\<forall>(k, x) \<in> set (qe_resting st). level_entry events k x)"

lemma level_entry_idle:
  assumes "level_entry events k x" and "own_updates k [e] = []" and "prints k [e] = []" and "depths k [e] = []"
  shows "level_entry (events @ [e]) k x"
  using assms level_live_snoc [OF _ assms(2)] by (fastforce simp: level_entry_def)

lemma estimate_queue_fields [simp]:
  "to_instrument_id (estimate_queue b x) = to_instrument_id x" "to_price (estimate_queue b x) = to_price x"
  "to_side (estimate_queue b x) = to_side x" "to_client_order_id (estimate_queue b x) = to_client_order_id x"
  "to_taker_history (estimate_queue b x) = to_taker_history x" "to_taker_volume (estimate_queue b x) = to_taker_volume x"
  by (simp_all add: estimate_queue_def Let_def)

lemma record_print_fields [simp]:
  "to_instrument_id (record_print t x) = to_instrument_id x" "to_price (record_print t x) = to_price x"
  "to_side (record_print t x) = to_side x" "to_client_order_id (record_print t x) = to_client_order_id x"
  "to_queue_ahead (record_print t x) = to_queue_ahead x"
  "to_last_book_quantity (record_print t x) = to_last_book_quantity x"
  by (simp_all add: record_print_def Let_def)

lemma level_entry_trade:
  assumes "level_entry events k x" and "plain_size (tr_quantity t)"
  shows "level_entry (events @ [TradeEvent eid t prov]) k (if to_instrument_id x = tr_instrument_id t then record_print t x else x)"
proof -
  let ?e = "TradeEvent eid t prov"
  obtain ps ds where ps: "level_live events k (to_client_order_id x) ps ds" "list_all plain_size ps" "window_entry ps x"
    and ds: "queue_entry ds x" and k: "to_instrument_id x = fst k" "to_price x = fst (snd k)" "to_side x = snd (snd k)"
    using assms(1) by (auto simp: level_entry_def)
  have upd: "own_updates k [?e] = []" "depths k [?e] = []" by (simp_all add: own_updates_def depths_def map_filter_def)
  have pr: "prints k [?e] = (if to_instrument_id x = tr_instrument_id t \<and> is_adverse t x then [tr_quantity t] else [])"
    using k by (auto simp: prints_def map_filter_def is_adverse_def)
  show ?thesis
  proof (cases "to_instrument_id x = tr_instrument_id t \<and> is_adverse t x")
    case True
    then have "level_live (events @ [?e]) k (to_client_order_id x) (ps @ [tr_quantity t]) ds"
      using level_live_snoc [OF ps(1) upd(1)] upd(2) pr by simp
    moreover have "list_all plain_size (ps @ [tr_quantity t])" using ps(2) assms(2) by simp
    moreover have "window_entry (ps @ [tr_quantity t]) (record_print t x)"
      using record_print_window [OF ps(3)] calculation(2) True by blast
    moreover have "queue_entry ds (record_print t x)" using ds by (simp add: queue_entry_def)
    ultimately have "level_entry (events @ [?e]) k (record_print t x)"
      unfolding level_entry_def record_print_fields using k by blast
    then show ?thesis using True by simp
  next
    case False
    then have "(if to_instrument_id x = tr_instrument_id t then record_print t x else x) = x"
      by (auto simp: record_print_def)
    moreover have "prints k [?e] = []" using False pr by (simp only: if_False)
    ultimately show ?thesis using level_entry_idle [OF assms(1) upd(1) _ upd(2)] by simp
  qed
qed

lemma level_entry_book:
  assumes "level_entry events k x" and "plain_side (yes_bids b)" and "plain_side (yes_asks b)"
  shows "level_entry (events @ [OrderBookEvent eid b prov]) k (estimate_queue b x)"
proof -
  let ?e = "OrderBookEvent eid b prov"
  obtain ps ds where ps: "level_live events k (to_client_order_id x) ps ds" "list_all plain_size ps" "window_entry ps x"
    and ds: "queue_entry ds x" and k: "to_instrument_id x = fst k" "to_price x = fst (snd k)" "to_side x = snd (snd k)"
    using assms(1) by (auto simp: level_entry_def)
  have idle: "own_updates k [?e] = []" "prints k [?e] = []"
    and dep: "depths k [?e] = (if bk_instrument_id b = fst k then [shown_depth k b] else [])"
    by (simp_all add: own_updates_def prints_def depths_def map_filter_def)
  show ?thesis
  proof (cases "bk_instrument_id b = fst k")
    case True
    have "level_live (events @ [?e]) k (to_client_order_id x) ps (ds @ [shown_depth k b])"
      using level_live_snoc [OF ps(1) idle(1)] idle(2) dep True by simp
    moreover have "queue_entry (ds @ [shown_depth k b]) (estimate_queue b x)"
      using estimate_queue_entry [OF ds assms(2,3) _ k(2,3)] True k(1) by simp
    ultimately show ?thesis using k ps(2,3) by (auto simp: level_entry_def window_entry_def)
  next
    case False
    then have "estimate_queue b x = x" using k(1) by (simp add: estimate_queue_def)
    then show ?thesis using level_entry_idle [OF assms(1) idle] dep False by simp
  qed
qed

lemma key_parts [simp]:
  "fst (resting_key_of r) = ord_instrument_id r" "snd (snd (resting_key_of r)) = ord_order_side r"
  by (simp_all add: resting_key_of_def)

lemma level_entry_open:
  "\<not> order_ended r \<Longrightarrow> x = \<lparr>to_client_order_id = ord_client_order_id r, to_instrument_id = ord_instrument_id r,
      to_side = ord_order_side r, to_price = fst (snd (resting_key_of r)), to_quantity = n, to_queue_ahead = 0,
      to_taker_volume = 0, to_last_book_quantity = 0, to_taker_history = []\<rparr> \<Longrightarrow>
   level_entry (events @ [OwnOrderUpdateEvent eid r prov]) (resting_key_of r) x"
  unfolding level_entry_def
  by (intro conjI exI [of _ "[]"])
    (auto simp: level_live_open window_entry_def window_def intro: queue_entry_new)

lemma level_entry_update:
  assumes "level_entry events (resting_key_of r) x" and "\<not> order_ended r"
  shows "level_entry (events @ [OwnOrderUpdateEvent eid r prov]) (resting_key_of r)
           (x\<lparr>to_client_order_id := ord_client_order_id r, to_quantity := n\<rparr>)"
  using assms level_live_update [OF _ refl assms(2)] by (fastforce simp: level_entry_def window_entry_def queue_entry_def)

lemma update_own_order_ok:
  assumes "evader_ok events st"
  shows "evader_ok (events @ [OwnOrderUpdateEvent eid r prov]) (update_own_order r st)"
proof -
  let ?e = "OwnOrderUpdateEvent eid r prov" and ?k = "resting_key_of r"
  have other: "level_entry (events @ [?e]) k x" if "(k, x) \<in> set (qe_resting st)" and "k \<noteq> ?k" for k x
    using that assms by (intro level_entry_idle) (auto simp: evader_ok_def own_updates_def prints_def depths_def map_filter_def)
  have put: "evader_ok (events @ [?e]) (st\<lparr>qe_resting := dict_set ?k x (qe_resting st)\<rparr>)"
    if "level_entry (events @ [?e]) ?k x" for x
  proof -
    have "y = x \<and> k = ?k \<or> (k, y) \<in> set (qe_resting st) \<and> k \<noteq> ?k" if "(k, y) \<in> set (dict_set ?k x (qe_resting st))" for k y
      using that assms wf_dict_get_iff [of "dict_set ?k x (qe_resting st)" k y]
      by (auto simp: evader_ok_def wf_dict_get_iff split: if_splits)
    then show ?thesis using assms other \<open>level_entry (events @ [?e]) ?k x\<close> by (fastforce simp: evader_ok_def)
  qed
  show ?thesis
  proof (cases "order_ended r")
    case True
    then show ?thesis using assms other by (auto simp: update_own_order_def Let_def evader_ok_def dict_pop_def)
  next
    case live: False
    show ?thesis
    proof (cases "dict_get (qe_resting st) ?k")
      case None
      then show ?thesis using live put [OF level_entry_open [OF live refl]] by (simp add: update_own_order_def Let_def)
    next
      case (Some x)
      then have "level_entry events ?k x" using assms by (auto simp: evader_ok_def dest: map_of_SomeD)
      then show ?thesis
        using live Some put [OF level_entry_update [OF _ live]] by (simp add: update_own_order_def Let_def)
    qed
  qed
qed

section \<open>A trade\<close>

lemma observe_entry_cases:
  "observe_entry st t (k, x) =
     (if to_instrument_id x = tr_instrument_id t \<and> should_cancel st (record_print t x)
      then (None, Some (to_client_order_id x))
      else (Some (k, if to_instrument_id x = tr_instrument_id t then record_print t x else x), None))"
  by (auto simp: observe_entry_def Let_def)

lemma entry_kept:
  "fst (observe_entry st t (k', x)) = Some (k, y) \<longleftrightarrow>
     k' = k \<and> \<not> (to_instrument_id x = tr_instrument_id t \<and> should_cancel st (record_print t x)) \<and>
     y = (if to_instrument_id x = tr_instrument_id t then record_print t x else x)"
  unfolding observe_entry_cases by (cases k; cases k') auto

lemma in_map_filter: "y \<in> set (List.map_filter f xs) \<longleftrightarrow> (\<exists>x \<in> set xs. f x = Some y)"
  by (auto simp: map_filter_def image_iff)

lemma resting_after_trade:
  "(k, y) \<in> set (qe_resting (snd (observe_trade t st))) \<longleftrightarrow>
     (\<exists>x. (k, x) \<in> set (qe_resting st) \<and>
          \<not> (to_instrument_id x = tr_instrument_id t \<and> should_cancel st (record_print t x)) \<and>
          y = (if to_instrument_id x = tr_instrument_id t then record_print t x else x))"
proof -
  have "(k, y) \<in> set (qe_resting (snd (observe_trade t st))) \<longleftrightarrow>
      (\<exists>kv \<in> set (qe_resting st). fst (observe_entry st t kv) = Some (k, y))"
    by (simp add: observe_trade_def Let_def in_map_filter)
  also have "\<dots> \<longleftrightarrow> (\<exists>k' x. (k', x) \<in> set (qe_resting st) \<and> fst (observe_entry st t (k', x)) = Some (k, y))"
    by fast
  finally show ?thesis unfolding entry_kept by blast
qed

lemma wf_after_trade:
  assumes "wf_dict (qe_resting st)"
  shows "wf_dict (qe_resting (snd (observe_trade t st)))"
proof -
  have "distinct (map fst (List.map_filter fst (map (observe_entry st t) d))) \<and>
      fst ` set (List.map_filter fst (map (observe_entry st t) d)) \<subseteq> fst ` set d" if "distinct (map fst d)" for d
    using that
  proof (induction d)
    case (Cons kv d)
    then show ?case
      by (cases kv) (auto simp: List.map_filter_simps observe_entry_cases simp del: split_paired_All)
  qed (simp add: List.map_filter_simps)
  then show ?thesis using assms by (simp add: observe_trade_def Let_def wf_dict_def)
qed

lemma cancels_of_trade:
  assumes "CancelOrder c \<in> set (fst (observe_trade t st))"
  shows "\<exists>k x. (k, x) \<in> set (qe_resting st) \<and> to_instrument_id x = tr_instrument_id t \<and>
    should_cancel st (record_print t x) \<and> co_client_order_id c = to_client_order_id x"
proof -
  have "\<exists>coid. coid \<in> set (List.map_filter snd (map (observe_entry st t) (qe_resting st))) \<and> CancelOrder c = evade_cancel coid"
    using assms by (auto simp: observe_trade_def Let_def split: if_splits)
  then show ?thesis
    by (fastforce simp: in_map_filter evade_cancel_def observe_entry_cases split: if_splits)
qed

lemma observe_trade_ok:
  assumes "evader_ok events st" and "plain_size (tr_quantity t)"
  shows "evader_ok (events @ [TradeEvent eid t prov]) (snd (observe_trade t st))"
  unfolding evader_ok_def
proof (intro conjI ballI)
  show "wf_dict (qe_resting (snd (observe_trade t st)))"
    using assms(1) by (simp add: wf_after_trade evader_ok_def)
  fix kv
  assume kv: "kv \<in> set (qe_resting (snd (observe_trade t st)))"
  obtain k y where ky: "kv = (k, y)" by (rule prod.exhaust)
  from kv obtain x where x: "(k, x) \<in> set (qe_resting st)"
    "y = (if to_instrument_id x = tr_instrument_id t then record_print t x else x)"
    unfolding ky resting_after_trade by blast
  have "level_entry events k x" using assms(1) x(1) unfolding evader_ok_def by blast
  from level_entry_trade [OF this assms(2)]
  show "case kv of (k, x) \<Rightarrow> level_entry (events @ [TradeEvent eid t prov]) k x"
    unfolding ky x(2) by (simp only: prod.case)
qed

lemma evader_ok_step:
  assumes "evader_ok events st" and "plain_sizes e"
  shows "evader_ok (events @ [e]) (snd (evader_on_event e st))"
proof (cases e)
  case (OrderBookEvent eid b prov)
  have sides: "plain_side (yes_bids b)" "plain_side (yes_asks b)"
    using assms(2) by (simp_all add: OrderBookEvent plain_sizes_def)
  have "level_entry (events @ [e]) k (estimate_queue b x)" if "(k, x) \<in> set (qe_resting st)" for k x
    using level_entry_book [OF _ sides, of events k x eid prov] that assms(1) OrderBookEvent
    by (auto simp: evader_ok_def)
  then show ?thesis
    using assms(1) OrderBookEvent by (auto simp: evader_ok_def simp del: split_paired_All) (auto simp: dict_map_def)
next
  case (OwnOrderUpdateEvent eid r prov)
  then show ?thesis using update_own_order_ok [OF assms(1)] by simp
next
  case (TradeEvent eid t prov)
  then show ?thesis using observe_trade_ok [OF assms(1)] assms(2) by (simp add: plain_sizes_def)
qed (use assms(1) in \<open>auto simp: evader_ok_def own_updates_def prints_def depths_def map_filter_def intro!: level_entry_idle\<close>)

section \<open>Over a history\<close>

definition evader_run :: "normalized_event list \<Rightarrow> queue_evader \<Rightarrow> queue_evader" where
  "evader_run events st = fold (\<lambda>e st. snd (evader_on_event e st)) events st"

lemma evader_config [simp]:
  "qe_adverse_volume (snd (evader_on_event e st)) = qe_adverse_volume st"
  "qe_evacuation_threshold (snd (evader_on_event e st)) = qe_evacuation_threshold st"
  by (cases e; simp add: observe_trade_def update_own_order_def Let_def split: option.split)+

interpretation evader: follows_history "\<lambda>e st. snd (evader_on_event e st)" plain_sizes evader_ok
  by unfold_locales (rule evader_ok_step)

interpretation evader_config: follows_history "\<lambda>e st. snd (evader_on_event e st)" "\<lambda>_. True"
  "\<lambda>_ st. qe_adverse_volume st = v \<and> qe_evacuation_threshold st = w" for v w
  by unfold_locales simp


text \<open>An order resting at fifty cents, and sixty contracts printed at its price.\<close>

definition demo_level :: instrument_id where
  "demo_level = \<lparr>iid_venue = KALSHI, market_id = ''M'', outcome_id = None\<rparr>"

definition demo_own_order :: order where
  "demo_own_order =
     \<lparr>ord_client_order_id = ''o1'', ord_venue_order_id = None, ord_instrument_id = demo_level, ord_outcome_side = YES,
      ord_order_side = BUY, ord_order_type = LIMIT, ord_time_in_force = GTC, ord_price = Some (1 / 2), ord_quantity = 10,
      ord_filled_quantity = 0, ord_status = OPEN, ord_created_at = utc 0, ord_updated_at = utc 0,
      ord_correlation_id = ''c'', ord_strategy_id = ''s'', ord_sleeve_id = ''l'', ord_expires_at = None,
      ord_metadata = []\<rparr>"

definition demo_update :: "event_provenance \<Rightarrow> normalized_event" where
  "demo_update prov = OwnOrderUpdateEvent ''u1'' demo_own_order prov"

definition demo_print :: "event_provenance \<Rightarrow> normalized_event" where
  "demo_print prov =
     TradeEvent ''t1''
       \<lparr>tr_instrument_id = demo_level, tr_side = None, tr_price = 1 / 2, tr_quantity = 60, trade_id = None,
        tr_exchange_ts = None, tr_received_at = utc 0, aggressor_side = None, tr_metadata = []\<rparr> prov"

definition demo_evader :: queue_evader where
  "demo_evader = \<lparr>qe_evacuation_threshold = 5, qe_adverse_volume = 50, qe_window_seconds = 5, qe_resting = []\<rparr>"

definition demo_depth :: "decimal \<Rightarrow> normalized_event" where
  "demo_depth q =
     OrderBookEvent ''b1''
       \<lparr>bk_instrument_id = demo_level, yes_bids = [\<lparr>lvl_price = 1 / 2, lvl_quantity = q\<rparr>], yes_asks = [],
        no_bids = [], no_asks = [], bk_exchange_ts = None, bk_received_at = utc 0\<rparr> default_provenance"

definition demo_evader_events :: "normalized_event list" where
  "demo_evader_events = [demo_update default_provenance, demo_depth 12, demo_depth 4]"


end
