(* ===== verification/ScalperProps.thy ===== *)
theory ScalperProps
  imports BookStrategies Histories
begin

text \<open>
  The imbalance scalper over the runner's feedback: the open orders and the pending cancels it keeps
  are those the past-time formulas below read off the feedback, so an order is asked to be cancelled
  while it is open, and once.
\<close>

section \<open>What the feedback says\<close>

text \<open>\<open>since P Q xs\<close>: some element satisfied \<open>P\<close>, and every one after it \<open>Q\<close>.\<close>

definition since :: "('a \<Rightarrow> bool) \<Rightarrow> ('a \<Rightarrow> bool) \<Rightarrow> 'a list \<Rightarrow> bool" where
  "since P Q xs \<longleftrightarrow> (\<exists>before x after. xs = before @ x # after \<and> P x \<and> (\<forall>y \<in> set after. Q y))"

lemma since_Nil [simp]: "\<not> since P Q []"
  by (simp add: since_def)

lemma since_snoc [simp]: "since P Q (xs @ [y]) \<longleftrightarrow> P y \<or> Q y \<and> since P Q xs"
proof
  assume "since P Q (xs @ [y])"
  then obtain before x after where s: "xs @ [y] = before @ x # after" "P x" "\<forall>z \<in> set after. Q z"
    by (auto simp: since_def)
  show "P y \<or> Q y \<and> since P Q xs"
  proof (cases after rule: rev_exhaust)
    case Nil
    then show ?thesis using s by auto
  next
    case (snoc zs z)
    then have "xs = before @ x # zs" "z = y" using s(1) by (metis append_Cons append_assoc append1_eq_conv)+
    then show ?thesis using s(2,3) snoc by (auto simp: since_def)
  qed
next
  assume "P y \<or> Q y \<and> since P Q xs"
  then show "since P Q (xs @ [y])"
  proof
    assume "P y"
    then show ?thesis unfolding since_def by (intro exI [of _ xs] exI [of _ y] exI [of _ "[]"]) simp
  next
    assume "Q y \<and> since P Q xs"
    then obtain before x after where "Q y" "xs = before @ x # after" "P x" "\<forall>z \<in> set after. Q z"
      by (auto simp: since_def)
    then show ?thesis
      unfolding since_def by (intro exI [of _ before] exI [of _ x] exI [of _ "after @ [y]"]) auto
  qed
qed

definition place_accepted :: "instrument_id \<Rightarrow> string \<Rightarrow> strategy_feedback \<Rightarrow> bool" where
  "place_accepted iid coid fb \<longleftrightarrow>
     fb_client_order_id fb = Some coid \<and> fb_kind fb = ''IntentAccepted'' \<and>
     (\<exists>d. env_decision (fb_envelope fb) = PlaceOrder d \<and> po_instrument_id d = iid)"

definition order_gone :: "string \<Rightarrow> strategy_feedback \<Rightarrow> bool" where
  "order_gone coid fb \<longleftrightarrow>
     fb_client_order_id fb = Some coid \<and>
     (fb_kind fb = ''VenueRejected'' \<or> fb_kind fb = ''VenueTerminal'' \<or>
      fb_kind fb = ''IntentRejected'' \<and> (\<exists>d. env_decision (fb_envelope fb) = PlaceOrder d))"

definition cancel_answered :: "string \<Rightarrow> string \<Rightarrow> strategy_feedback \<Rightarrow> bool" where
  "cancel_answered kind coid fb \<longleftrightarrow>
     fb_client_order_id fb = Some coid \<and> fb_kind fb = kind \<and> (\<exists>d. env_decision (fb_envelope fb) = CancelOrder d)"

definition order_open :: "instrument_id \<Rightarrow> string \<Rightarrow> strategy_feedback list \<Rightarrow> bool" where
  "order_open iid coid =
     since (place_accepted iid coid) (\<lambda>fb. \<not> order_gone coid fb \<and> (\<forall>other. \<not> place_accepted iid other fb))"

definition cancel_pending :: "string \<Rightarrow> strategy_feedback list \<Rightarrow> bool" where
  "cancel_pending coid =
     since (cancel_answered ''IntentAccepted'' coid)
       (\<lambda>fb. \<not> order_gone coid fb \<and> \<not> cancel_answered ''IntentRejected'' coid fb)"

section \<open>The scalper's state refines it\<close>

definition obi_after :: "strategy_feedback list \<Rightarrow> obi_scalper \<Rightarrow> obi_scalper" where
  "obi_after fbs st = fold obi_on_feedback fbs st"

definition scalper_refines :: "strategy_feedback list \<Rightarrow> obi_scalper \<Rightarrow> bool" where
  "scalper_refines fbs st \<longleftrightarrow>
     wf_dict (ob_open_buys st) \<and>
     (\<forall>iid coid. dict_get (ob_open_buys st) iid = Some coid \<longleftrightarrow> order_open iid coid fbs) \<and>
     (\<forall>coid. coid \<in> ob_pending_cancels st \<longleftrightarrow> cancel_pending coid fbs)"

lemma get_filter_values:
  "wf_dict d \<Longrightarrow> dict_get (filter (\<lambda>kv. snd kv \<noteq> v) d) k = (if dict_get d k = Some v then None else dict_get d k)"
proof (induction d)
  case (Cons kv d)
  then have "dict_get d (fst kv) = None" and "wf_dict d" by (auto simp: wf_dict_def map_of_eq_None_iff)
  with Cons.IH show ?case by (cases kv) auto
qed simp

lemma order_open_snoc:
  "order_open iid coid (fbs @ [fb]) \<longleftrightarrow>
     place_accepted iid coid fb \<or>
     \<not> order_gone coid fb \<and> (\<forall>other. \<not> place_accepted iid other fb) \<and> order_open iid coid fbs"
  by (auto simp: order_open_def)

lemma cancel_pending_snoc:
  "cancel_pending coid (fbs @ [fb]) \<longleftrightarrow>
     cancel_answered ''IntentAccepted'' coid fb \<or>
     \<not> order_gone coid fb \<and> \<not> cancel_answered ''IntentRejected'' coid fb \<and> cancel_pending coid fbs"
  by (auto simp: cancel_pending_def)

lemma refinesD:
  assumes "scalper_refines fbs st"
  shows "wf_dict (ob_open_buys st)" and "order_open iid coid fbs \<longleftrightarrow> dict_get (ob_open_buys st) iid = Some coid"
    and "cancel_pending coid fbs \<longleftrightarrow> coid \<in> ob_pending_cancels st"
  using assms by (auto simp: scalper_refines_def)

text \<open>The kinds of feedback the handler tells apart.\<close>

lemma feedback_cases:
  assumes "fb_client_order_id fb = Some coid"
  obtains (gone) "order_gone coid fb" "obi_on_feedback fb st = remove_order coid st"
  | (placed) d where "fb_kind fb = ''IntentAccepted''" "env_decision (fb_envelope fb) = PlaceOrder d"
  | (canceling) d where "fb_kind fb = ''IntentAccepted''" "env_decision (fb_envelope fb) = CancelOrder d"
  | (cancel_rejected) d where "fb_kind fb = ''IntentRejected''" "env_decision (fb_envelope fb) = CancelOrder d"
  | (other) "obi_on_feedback fb st = st" "\<And>c. \<not> order_gone c fb" "\<And>iid c. \<not> place_accepted iid c fb"
      "\<And>kind c. kind \<in> {''IntentAccepted'', ''IntentRejected''} \<Longrightarrow> \<not> cancel_answered kind c fb"
proof -
  have "(fb_kind fb = ''VenueRejected'' \<or> fb_kind fb = ''VenueTerminal'') \<or> fb_kind fb = ''IntentRejected'' \<or>
      fb_kind fb = ''IntentAccepted'' \<or> fb_kind fb \<notin> {''VenueRejected'', ''VenueTerminal'', ''IntentRejected'', ''IntentAccepted''}"
    by blast
  then show ?thesis
  proof (elim disjE)
    assume k: "fb_kind fb = ''IntentRejected''"
    show ?thesis
      by (cases "env_decision (fb_envelope fb)")
        (use k assms in \<open>auto intro: gone cancel_rejected other
          simp: order_gone_def obi_on_feedback_def place_accepted_def cancel_answered_def\<close>)
  next
    assume k: "fb_kind fb = ''IntentAccepted''"
    show ?thesis
      by (cases "env_decision (fb_envelope fb)")
        (use k assms in \<open>auto intro: placed canceling other
          simp: order_gone_def obi_on_feedback_def place_accepted_def cancel_answered_def\<close>)
  qed (use assms in \<open>auto intro: gone other
      simp: order_gone_def obi_on_feedback_def place_accepted_def cancel_answered_def\<close>)
qed

lemma refines_step:
  assumes r: "scalper_refines fbs st"
  shows "scalper_refines (fbs @ [fb]) (obi_on_feedback fb st)"
proof (cases "fb_client_order_id fb")
  case None
  then show ?thesis
    using r by (simp add: scalper_refines_def order_open_snoc cancel_pending_snoc obi_on_feedback_def order_gone_def
        place_accepted_def cancel_answered_def)
next
  case (Some coid)
  note snoc = scalper_refines_def order_open_snoc cancel_pending_snoc refinesD [OF r]
  from Some show ?thesis
  proof (cases rule: feedback_cases [where st = st])
    case gone
    have "\<not> place_accepted iid c fb" "\<not> cancel_answered ''IntentAccepted'' c fb" "order_gone c fb = (c = coid)"
      "cancel_answered ''IntentRejected'' c fb \<Longrightarrow> c = coid" for iid c
      using gone(1) by (auto simp: order_gone_def place_accepted_def cancel_answered_def)
    then show ?thesis by (auto simp: gone(2) snoc remove_order_def get_filter_values)
  next
    case (placed d)
    have "\<not> order_gone c fb" "\<not> cancel_answered kind c fb"
      "place_accepted iid c fb = (c = coid \<and> iid = po_instrument_id d)" for iid c kind
      using placed Some by (auto simp: order_gone_def place_accepted_def cancel_answered_def)
    then show ?thesis using placed Some by (auto simp: snoc obi_on_feedback_def)
  next
    case (canceling d)
    have "\<not> order_gone c fb" "cancel_answered kind c fb = (c = coid \<and> kind = ''IntentAccepted'')"
      "\<not> place_accepted iid c fb" for iid c kind
      using canceling Some by (auto simp: order_gone_def place_accepted_def cancel_answered_def)
    then show ?thesis using canceling Some by (auto simp: snoc obi_on_feedback_def)
  next
    case (cancel_rejected d)
    have "\<not> order_gone c fb" "cancel_answered kind c fb = (c = coid \<and> kind = ''IntentRejected'')"
      "\<not> place_accepted iid c fb" for iid c kind
      using cancel_rejected Some by (auto simp: order_gone_def place_accepted_def cancel_answered_def)
    then show ?thesis using cancel_rejected Some by (auto simp: snoc obi_on_feedback_def)
  next
    case other
    then show ?thesis by (simp add: snoc)
  qed
qed

interpretation scalper: follows_history obi_on_feedback "\<lambda>_. True" scalper_refines
  by unfold_locales (rule refines_step)

lemma refines_after:
  assumes "new_obi_scalper str_other params = Inr st0"
  shows "scalper_refines fbs (obi_after fbs st0)"
proof -
  have "scalper_refines [] st0"
    using assms
    by (auto simp: scalper_refines_def new_obi_scalper_def bind_result_Inr_iff order_open_def cancel_pending_def)
  then show ?thesis using scalper.agrees_after by (simp add: obi_after_def list_all_iff)
qed

text \<open>
  C9: Whenever the imbalance scalper asks for a cancel, after any feedback, a book event is answered
  and the order named is the one whose placement in that book's instrument was accepted last and
  that nothing has since rejected or ended, and no cancel of it is under way: one accepted by the
  risk gate is only repeated after it was rejected.
\<close>

theorem obi_cancels_open_order_once:
  assumes "new_obi_scalper str_other params = Inr st0"
    and "obi_on_event uuid prediction e (obi_after fbs st0) = Inr ds" and "CancelOrder c \<in> set ds"
  shows "\<exists>eid b prov. e = OrderBookEvent eid b prov \<and>
    order_open (bk_instrument_id b) (co_client_order_id c) fbs \<and> \<not> cancel_pending (co_client_order_id c) fbs"
proof -
  obtain eid b prov where e: "e = OrderBookEvent eid b prov" using assms(2,3) by (cases e) auto
  let ?st = "obi_after fbs st0"
  have decide: "dict_get (ob_open_buys ?st) (bk_instrument_id b) = Some (co_client_order_id c) \<and>
      co_client_order_id c \<notin> ob_pending_cancels ?st"
    if "obi_decide uuid ?st b buy flip r1 r2 r3 = Inr ds" for buy flip r1 r2 r3
    using that assms(3)
    by (auto simp: obi_decide_def obi_buy_def obi_cancel_def bind_result_Inr_iff Let_def split: if_splits option.splits list.splits)
  have "dict_get (ob_open_buys ?st) (bk_instrument_id b) = Some (co_client_order_id c) \<and>
      co_client_order_id c \<notin> ob_pending_cancels ?st"
    using assms(2,3) decide
    by (auto simp: e Let_def decide_from_rules_def decide_from_prediction_def split: if_splits option.splits)
  then show ?thesis using refines_after [OF assms(1), of fbs] e by (auto simp: scalper_refines_def)
qed

text \<open>A buy accepted for a market whose book then turns: the cancel goes out once.\<close>

definition demo_book :: order_book where
  "demo_book =
     \<lparr>bk_instrument_id = \<lparr>iid_venue = KALSHI, market_id = ''M'', outcome_id = None\<rparr>,
      yes_bids = [\<lparr>lvl_price = 500 / 1000, lvl_quantity = 1\<rparr>], yes_asks = [\<lparr>lvl_price = 502 / 1000, lvl_quantity = 9\<rparr>],
      no_bids = [], no_asks = [], bk_exchange_ts = None, bk_received_at = utc 0\<rparr>"

definition demo_feedback :: "string \<Rightarrow> strategy_decision \<Rightarrow> strategy_feedback" where
  "demo_feedback kind d =
     \<lparr>fb_kind = kind,
      fb_envelope = \<lparr>env_decision = d, env_strategy_id = ''s'', env_sleeve_id = ''l'', env_correlation_id = ''c'',
        emitted_at = utc 0, env_priority = DEFAULT_EXECUTION_PRIORITY, triggered_by_event_id = None, env_metadata = []\<rparr>,
      fb_client_order_id = Some ''o1'', fb_reasons = []\<rparr>"

definition demo_buy :: place_order where
  "demo_buy =
     \<lparr>po_client_order_id = ''o1'', po_instrument_id = bk_instrument_id demo_book, po_outcome_side = YES,
      po_order_side = BUY, po_order_type = LIMIT, po_time_in_force = IOC, po_quantity = 5, po_price = Some (502 / 1000),
      po_expires_at = None, po_market_snapshot = None, po_reason = [], po_expected_edge_bps = None, po_priority = None,
      po_metadata = []\<rparr>"

definition demo_flip :: cancel_order where
  "demo_flip = \<lparr>co_client_order_id = ''o1'', co_reason = ''obi_flip_imbalance_'', co_priority = Some (tiered CRITICAL)\<rparr>"

definition demo_scalper :: obi_scalper where
  "demo_scalper =
     \<lparr>ob_imbalance_threshold = 70 / 100, ob_cancel_threshold = 30 / 100, ob_clip_size = 5, ob_max_spread_bps = 100,
      ob_model_kind = ''classification'', ob_model_long = 60 / 100, ob_model_cancel = 40 / 100, ob_model_long_bps = 5,
      ob_open_buys = [], ob_pending_cancels = {}\<rparr>"

theorem obi_cancels_open_order_once_witness:
  "obi_on_event ''u'' None (OrderBookEvent ''b'' demo_book default_provenance)
     (obi_after [demo_feedback ''IntentAccepted'' (PlaceOrder demo_buy)] demo_scalper) = Inr [CancelOrder demo_flip] \<and>
   order_open (bk_instrument_id demo_book) ''o1'' [demo_feedback ''IntentAccepted'' (PlaceOrder demo_buy)] \<and>
   obi_on_event ''u'' None (OrderBookEvent ''b'' demo_book default_provenance)
     (obi_after [demo_feedback ''IntentAccepted'' (PlaceOrder demo_buy), demo_feedback ''IntentAccepted'' (CancelOrder demo_flip)]
        demo_scalper) = Inr [NoAction ''cancel_already_pending'']"
proof (intro conjI)
  have new: "new_obi_scalper (\<lambda>_. []) [] = Inr demo_scalper" by code_simp
  show ds: "obi_on_event ''u'' None (OrderBookEvent ''b'' demo_book default_provenance)
     (obi_after [demo_feedback ''IntentAccepted'' (PlaceOrder demo_buy)] demo_scalper) = Inr [CancelOrder demo_flip]"
    by code_simp
  show "order_open (bk_instrument_id demo_book) ''o1'' [demo_feedback ''IntentAccepted'' (PlaceOrder demo_buy)]"
    using obi_cancels_open_order_once [OF new ds, of demo_flip] by (auto simp: demo_flip_def)
  show "obi_on_event ''u'' None (OrderBookEvent ''b'' demo_book default_provenance)
     (obi_after [demo_feedback ''IntentAccepted'' (PlaceOrder demo_buy), demo_feedback ''IntentAccepted'' (CancelOrder demo_flip)]
        demo_scalper) = Inr [NoAction ''cancel_already_pending'']"
    by code_simp
qed

end
