(* ===== verification/Features.thy ===== *)
theory Features
  imports AuditTrail Numerals Histories
begin

text \<open>
  \<open>domain/features.py\<close> (the feature vector), \<open>features/pipeline.py\<close> (the point-in-time store) and
  \<open>features/builders.py\<close>: the deterministic builder that advances one state per event and the
  reference builder of an exponentially weighted mid, a rolling trade VWAP and the top-of-book
  imbalance. Feature values are floats, so a value is the \<open>Decimal\<close> it came from rounded to 53 bits.
  The power \<open>Decimal("0.5") ** x\<close>, which the \<open>decimal\<close> module computes to within its last place, is
  an argument. The per-instrument payloads in \<open>builder_state\<close> are kept in the form in which they are
  read back; the stamp and the notes of a state, which no builder sets, are left out.
\<close>

section \<open>Feature vectors\<close>

record feature_vector =
  fv_schema_id :: string
  fv_schema_version :: string
  fv_instrument_id :: "instrument_id option"
  fv_timestamp :: datetime
  fv_values :: "(string \<times> rat) list"

definition ends_with :: "string \<Rightarrow> string \<Rightarrow> bool" where
  "ends_with s w \<longleftrightarrow> length w \<le> length s \<and> drop (length s - length w) s = w"

fun has_substring :: "string \<Rightarrow> string \<Rightarrow> bool" where
  "has_substring w [] = (w = [])"
| "has_substring w (c # cs) = (take (length w) (c # cs) = w \<or> has_substring w cs)"

definition is_probability_semantic :: "string \<Rightarrow> bool" where
  "is_probability_semantic name =
     (let l = str_lower name
      in if list_ex (\<lambda>w. has_substring w l) [''diff'', ''delta'', ''edge'', ''overround''] then False
         else l \<in> set [''prob'', ''probability'', ''confidence''] \<or>
              list_ex (ends_with l) [''_prob'', ''_probability'', ''_win_pct''])"

text \<open>Every value of the model is finite, so the test for it always passes.\<close>

fun value_checks :: "string set \<Rightarrow> (string \<times> rat) list \<Rightarrow> py_error option list" where
  "value_checks seen [] = []"
| "value_checks seen ((name, value) # vs) =
     require_non_empty name ''feature name''
     # check (name \<notin> seen) (ValueError ''duplicate feature name: '')
     # check (\<not> (is_probability_semantic name \<and> \<not> (0 \<le> value \<and> value \<le> 1)))
         (ValueError ''probability feature must be between 0 and 1: '')
     # value_checks (insert name seen) vs"

definition feature_vector_check :: "feature_vector \<Rightarrow> py_error option" where
  [record_defs]: "feature_vector_check v =
     first_error
       ([require_non_empty (fv_schema_id v) ''schema_id'',
         require_non_empty (fv_schema_version v) ''schema_version'',
         require_aware_datetime (fv_timestamp v) ''timestamp'']
        @ value_checks {} (fv_values v))"

definition mk_feature_vector :: "feature_vector \<Rightarrow> feature_vector result" where
  "mk_feature_vector v = validated (feature_vector_check v) v"

text \<open>\<open>FeatureVector.get\<close>: the first value under the name.\<close>

definition feature_get :: "feature_vector \<Rightarrow> string \<Rightarrow> rat option" where
  "feature_get v name = map_of (fv_values v) name"

record prediction =
  pd_model_name :: string
  pd_model_version :: string
  pd_instrument_id :: "instrument_id option"
  pd_timestamp :: datetime
  pd_horizon_seconds :: int
  pd_value :: rat
  pd_confidence :: "rat option"
  pd_extras :: "(string, rat) dict"

definition confidence_check :: "rat option \<Rightarrow> py_error option" where
  "confidence_check c =
     (case c of None \<Rightarrow> None
      | Some x \<Rightarrow> check (0 \<le> x \<and> x \<le> 1) (ValueError ''confidence must be between 0 and 1: ''))"

definition prediction_check :: "prediction \<Rightarrow> py_error option" where
  [record_defs]: "prediction_check p =
     first_error
       ([require_non_empty (pd_model_name p) ''model_name'',
         require_non_empty (pd_model_version p) ''model_version'',
         require_aware_datetime (pd_timestamp p) ''timestamp'',
         require_non_negative_int (pd_horizon_seconds p) ''horizon_seconds'',
         confidence_check (pd_confidence p)]
        @ map (\<lambda>kv. require_non_empty (fst kv) ''extra key'') (pd_extras p))"

definition mk_prediction :: "prediction \<Rightarrow> prediction result" where
  "mk_prediction p = validated (prediction_check p) p"

section \<open>Schemas\<close>

datatype feature_dtype = FLOAT32 | FLOAT64 | INT32 | INT64 | BOOL | STRING

text \<open>The defaults and the descriptions of the features, which nothing reads, are left out.\<close>

record feature_definition =
  fd_name :: string
  fd_dtype :: feature_dtype
  fd_nullable :: bool

record feature_schema =
  fsc_schema_id :: string
  fsc_schema_version :: string
  fsc_features :: "feature_definition list"

definition feature_definition_check :: "feature_definition \<Rightarrow> py_error option" where
  [record_defs]: "feature_definition_check d = require_non_empty (fd_name d) ''feature name''"

definition feature_schema_check :: "feature_schema \<Rightarrow> py_error option" where
  [record_defs]: "feature_schema_check c =
     first_error
       [require_non_empty (fsc_schema_id c) ''schema_id'',
        require_non_empty (fsc_schema_version c) ''schema_version'',
        check (fsc_features c \<noteq> []) (ValueError ''feature schema must contain at least one feature'')]"

section \<open>The point-in-time store\<close>

type_synonym feature_store = "(feature_vector \<times> audit_stamp) list"

definition instrument_key :: "instrument_id option \<Rightarrow> string" where
  "instrument_key i =
     (case i of
        None \<Rightarrow> []
      | Some iid \<Rightarrow>
          venue_value (iid_venue iid) @ '':'' @ market_id iid @ '':'' @
          (case outcome_id iid of None \<Rightarrow> [] | Some oc \<Rightarrow> oc))"

definition store_key :: "feature_vector \<times> audit_stamp \<Rightarrow> string \<times> string \<times> int" where
  "store_key va =
     (fv_schema_id (fst va), instrument_key (fv_instrument_id (fst va)), instant (fv_timestamp (fst va)))"

definition write_vector :: "feature_vector \<Rightarrow> audit_stamp \<Rightarrow> feature_store \<Rightarrow> feature_store" where
  "write_vector v audit fs = sort_key store_key (fs @ [(v, audit)])"

definition stored_vectors :: "string \<Rightarrow> instrument_id option \<Rightarrow> feature_store \<Rightarrow> feature_vector list" where
  "stored_vectors schema i fs =
     filter (\<lambda>v. fv_schema_id v = schema \<and> fv_instrument_id v = i) (map fst fs)"

definition latest_vector :: "string \<Rightarrow> instrument_id option \<Rightarrow> feature_store \<Rightarrow> feature_vector option" where
  "latest_vector schema i fs =
     (case rev (stored_vectors schema i fs) of [] \<Rightarrow> None | v # _ \<Rightarrow> Some v)"

definition vector_history ::
  "string \<Rightarrow> instrument_id option \<Rightarrow> datetime \<Rightarrow> datetime \<Rightarrow> feature_store \<Rightarrow> feature_vector list result" where
  "vector_history schema i start stop fs =
     (case first_error [require_aware_datetime start ''start'', require_aware_datetime stop ''end'',
                        check (\<not> instant stop < instant start) (ValueError ''end must be on or after start'')] of
        Some e \<Rightarrow> Inl e
      | None \<Rightarrow>
          Inr (filter (\<lambda>v. instant start \<le> instant (fv_timestamp v) \<and> instant (fv_timestamp v) \<le> instant stop)
                 (stored_vectors schema i fs)))"

definition audit_for :: "feature_vector \<Rightarrow> feature_store \<Rightarrow> audit_stamp option" where
  "audit_for v fs = map_of fs v"

section \<open>Event times\<close>

definition ts_or :: "datetime option \<Rightarrow> datetime \<Rightarrow> datetime" where
  "ts_or t u = (case t of None \<Rightarrow> u | Some x \<Rightarrow> x)"

fun feature_event_time :: "normalized_event \<Rightarrow> datetime option" where
  "feature_event_time (QuoteEvent _ q _) = Some (ts_or (q_exchange_ts q) (q_received_at q))"
| "feature_event_time (TradeEvent _ t _) = Some (ts_or (tr_exchange_ts t) (tr_received_at t))"
| "feature_event_time (OrderBookEvent _ b _) = Some (ts_or (bk_exchange_ts b) (bk_received_at b))"
| "feature_event_time (LifecycleEvent _ l _) = Some (ts_or (lc_exchange_ts l) (lc_received_at l))"
| "feature_event_time (SettlementResolvedEvent _ s _) = Some (settled_at s)"
| "feature_event_time (TimerEvent _ t _) = Some (tm_timestamp t)"
| "feature_event_time (OwnFillEvent _ f _) = Some (ts_or (f_exchange_ts f) (filled_at f))"
| "feature_event_time (OwnOrderUpdateEvent _ r _) = Some (ord_updated_at r)"
| "feature_event_time (OwnOrderRejectEvent _ r _) = Some (rejected_at r)"
| "feature_event_time (ExternalSignalEvent _ x _) = Some (ext_received_at x)"

fun instrument_of :: "normalized_event \<Rightarrow> instrument_id option" where
  "instrument_of (QuoteEvent _ q _) = Some (q_instrument_id q)"
| "instrument_of (TradeEvent _ t _) = Some (tr_instrument_id t)"
| "instrument_of (OrderBookEvent _ b _) = Some (bk_instrument_id b)"
| "instrument_of (LifecycleEvent _ l _) = Some (lc_instrument_id l)"
| "instrument_of (SettlementResolvedEvent _ s _) = Some (set_instrument_id s)"
| "instrument_of (OwnFillEvent _ f _) = Some (f_instrument_id f)"
| "instrument_of (OwnOrderUpdateEvent _ r _) = Some (ord_instrument_id r)"
| "instrument_of _ = None"

section \<open>The reference builder\<close>

record rolling_state =
  rl_instrument_id :: "instrument_id option"
  rl_as_of :: datetime
  rl_ewma_mid :: "decimal option"
  rl_last_mid_ts :: "datetime option"
  rl_trade_window :: "(datetime \<times> decimal \<times> decimal) list"
  rl_last_imbalance :: "decimal option"

record feature_state =
  of_instrument_id :: "instrument_id option"
  of_as_of :: datetime
  of_last_event :: "normalized_event option"
  of_vector :: "feature_vector option"
  of_builder_state :: "(string, rolling_state) dict"

record rolling_builder =
  rb_schema_id :: string
  rb_schema_version :: string
  rb_window_seconds :: int
  rb_half_life_seconds :: int
  rb_instrument_filter :: "instrument_id option"
  rb_half_power :: "decimal \<Rightarrow> decimal"

definition new_rolling_builder ::
  "(decimal \<Rightarrow> decimal) \<Rightarrow> string \<Rightarrow> string \<Rightarrow> int \<Rightarrow> int \<Rightarrow> instrument_id option \<Rightarrow> rolling_builder result" where
  "new_rolling_builder half_power schema version window half_life i =
     validated
       (first_error
          [check (\<not> window \<le> 0) (ValueError ''window_seconds must be > 0''),
           check (\<not> half_life \<le> 0) (ValueError ''ewma_half_life_seconds must be > 0'')])
       \<lparr>rb_schema_id = schema, rb_schema_version = version, rb_window_seconds = window,
        rb_half_life_seconds = half_life, rb_instrument_filter = i, rb_half_power = half_power\<rparr>"

definition float_feature :: "string \<Rightarrow> feature_definition" where
  "float_feature name = \<lparr>fd_name = name, fd_dtype = FLOAT64, fd_nullable = True\<rparr>"

definition rolling_schema :: "rolling_builder \<Rightarrow> feature_schema result" where
  "rolling_schema rb =
     (let features = map float_feature [''mid_ewma'', ''trade_vwap'', ''imbalance_l1''];
          c = \<lparr>fsc_schema_id = rb_schema_id rb, fsc_schema_version = rb_schema_version rb, fsc_features = features\<rparr>
      in validated (first_error (map feature_definition_check features @ [feature_schema_check c])) c)"

definition initial_state :: "rolling_builder \<Rightarrow> feature_state" where
  "initial_state rb =
     \<lparr>of_instrument_id = rb_instrument_filter rb, of_as_of = utc 0, of_last_event = None, of_vector = None,
      of_builder_state = []\<rparr>"

definition state_key :: "instrument_id option \<Rightarrow> string" where
  "state_key i = (case i of None \<Rightarrow> ''__none__'' | Some iid \<Rightarrow> instrument_key (Some iid))"

definition mid_from_quote :: "order_book_level option \<Rightarrow> order_book_level option \<Rightarrow> decimal option" where
  "mid_from_quote bid ask =
     (case (bid, ask) of
        (Some b, Some a) \<Rightarrow> Some (ddiv (dadd (lvl_price b) (lvl_price a)) 2)
      | (Some b, None) \<Rightarrow> Some (lvl_price b)
      | (None, Some a) \<Rightarrow> Some (lvl_price a)
      | (None, None) \<Rightarrow> None)"

definition ewma_step ::
  "rolling_builder \<Rightarrow> decimal option \<Rightarrow> decimal \<Rightarrow> datetime option \<Rightarrow> datetime \<Rightarrow> decimal" where
  "ewma_step rb previous sample previous_at now =
     (case (previous, previous_at) of
        (Some prev, Some at0) \<Rightarrow>
          let elapsed = max (total_seconds (dt_minus now at0)) 0
          in if elapsed = 0 then prev
             else
               (let half_life = float_decimal (max (total_seconds (rb_half_life_seconds rb * 1000000)) (fctx (1 / 10 ^ 9)));
                    decay = rb_half_power rb (ddiv (float_decimal elapsed) half_life)
                in dadd (dmul decay prev) (dmul (dsub 1 decay) sample))
      | _ \<Rightarrow> sample)"

definition observe_feature_mid :: "rolling_builder \<Rightarrow> datetime \<Rightarrow> decimal option \<Rightarrow> rolling_state \<Rightarrow> rolling_state" where
  "observe_feature_mid rb ts mid per =
     (case mid of
        None \<Rightarrow> per
      | Some m \<Rightarrow>
          per\<lparr>rl_ewma_mid := Some (ewma_step rb (rl_ewma_mid per) m (rl_last_mid_ts per) ts), rl_last_mid_ts := Some ts\<rparr>)"

definition observe_imbalance :: "order_book_level option \<Rightarrow> order_book_level option \<Rightarrow> rolling_state \<Rightarrow> rolling_state" where
  "observe_imbalance bid ask per =
     (case (bid, ask) of
        (Some b, Some a) \<Rightarrow>
          let total = dadd (lvl_quantity b) (lvl_quantity a)
          in if total > 0
             then per\<lparr>rl_last_imbalance := Some (ddiv (dsub (lvl_quantity b) (lvl_quantity a)) total)\<rparr> else per
      | _ \<Rightarrow> per)"

fun observe_event :: "rolling_builder \<Rightarrow> normalized_event \<Rightarrow> datetime \<Rightarrow> rolling_state \<Rightarrow> rolling_state" where
  "observe_event rb (QuoteEvent _ q _) ts per = observe_feature_mid rb ts (mid_from_quote (q_bid q) (q_ask q)) per"
| "observe_event rb (OrderBookEvent _ b _) ts per =
     (let bid = head_option (yes_bids b); ask = head_option (yes_asks b)
      in observe_imbalance bid ask (observe_feature_mid rb ts (mid_from_quote bid ask) per))"
| "observe_event rb (TradeEvent _ t _) ts per =
     (let cutoff = dt_plus ts (- (rb_window_seconds rb * 1000000))
      in per\<lparr>rl_trade_window :=
               dropWhile (\<lambda>x. instant (fst x) < instant cutoff) (rl_trade_window per @ [(ts, tr_price t, tr_quantity t)])\<rparr>)"
| "observe_event rb _ ts per = per"

definition vwap :: "(datetime \<times> decimal \<times> decimal) list \<Rightarrow> decimal" where
  "vwap trades =
     (let (notional, quantity) =
            foldl (\<lambda>(n, q) (ts, price, lot). (dadd n (dmul price lot), dadd q lot)) (0, 0) trades
      in if quantity = 0 then 0 else ddiv notional quantity)"

definition emit_vector :: "rolling_builder \<Rightarrow> rolling_state \<Rightarrow> feature_vector result" where
  "emit_vector rb per =
     mk_feature_vector
       \<lparr>fv_schema_id = rb_schema_id rb, fv_schema_version = rb_schema_version rb,
        fv_instrument_id = rl_instrument_id per, fv_timestamp = rl_as_of per,
        fv_values =
          [(''mid_ewma'', case rl_ewma_mid per of None \<Rightarrow> 0 | Some m \<Rightarrow> fctx m),
           (''trade_vwap'', fctx (vwap (rl_trade_window per))),
           (''imbalance_l1'', case rl_last_imbalance per of None \<Rightarrow> 0 | Some x \<Rightarrow> fctx x)]\<rparr>"

text \<open>\<open>_rolling_from_payload\<close>: the stored state under the event's instrument, or a fresh one.\<close>

definition rolling_for :: "instrument_id option \<Rightarrow> datetime \<Rightarrow> (string, rolling_state) dict \<Rightarrow> rolling_state" where
  "rolling_for i ts states =
     (case dict_get states (state_key i) of
        None \<Rightarrow>
          \<lparr>rl_instrument_id = i, rl_as_of = ts, rl_ewma_mid = None, rl_last_mid_ts = None, rl_trade_window = [],
           rl_last_imbalance = None\<rparr>
      | Some per \<Rightarrow> per\<lparr>rl_instrument_id := i\<rparr>)"

definition compute_features ::
  "rolling_builder \<Rightarrow> feature_state \<Rightarrow> normalized_event \<Rightarrow> datetime \<Rightarrow> (feature_state \<times> feature_vector option) result" where
  "compute_features rb st e ts =
     (let i = instrument_of e
      in if rb_instrument_filter rb \<noteq> None \<and> i \<noteq> rb_instrument_filter rb
         then bind_result (validated (require_aware_datetime ts ''as_of'') ())
                (\<lambda>_. Inr (st\<lparr>of_as_of := ts, of_last_event := Some e\<rparr>, None))
         else
           (let per = observe_event rb e ts ((rolling_for i ts (of_builder_state st))\<lparr>rl_as_of := ts\<rparr>)
            in bind_result (emit_vector rb per) (\<lambda>v.
               bind_result (validated (require_aware_datetime ts ''as_of'') ()) (\<lambda>_.
                 Inr (\<lparr>of_instrument_id = i, of_as_of = ts, of_last_event = Some e, of_vector = Some v,
                       of_builder_state = dict_set (state_key i) per (of_builder_state st)\<rparr>, Some v)))))"

section \<open>The deterministic builder\<close>

definition validate_vector :: "rolling_builder \<Rightarrow> feature_vector \<Rightarrow> datetime \<Rightarrow> py_error option" where
  "validate_vector rb v observed_at =
     (if instant (fv_timestamp v) > instant observed_at then Some (RuntimeError ''emitted vector timestamp '')
      else (case rolling_schema rb of
              Inl e \<Rightarrow> Some e
            | Inr c \<Rightarrow> check (map fst (fv_values v) = map fd_name (fsc_features c))
                         (ValueError ''feature vector ordering mismatch: schema='')))"

text \<open>The step that \<open>update\<close> and \<open>build_offline\<close> both write out after their own test of the order.\<close>

definition checked_compute ::
  "rolling_builder \<Rightarrow> feature_state \<Rightarrow> normalized_event \<Rightarrow> datetime \<Rightarrow> (feature_state \<times> feature_vector option) result" where
  "checked_compute rb st e ts =
     bind_result (compute_features rb st e ts) (\<lambda>(st', v).
       case v of
         None \<Rightarrow> Inr (st', None)
       | Some x \<Rightarrow> bind_result (validated (validate_vector rb x ts) ()) (\<lambda>_. Inr (st', Some x)))"

definition update_features :: "rolling_builder \<Rightarrow> feature_state \<Rightarrow> normalized_event \<Rightarrow> feature_state result" where
  "update_features rb st e =
     (case feature_event_time e of
        None \<Rightarrow> Inr st
      | Some ts \<Rightarrow>
          if instant ts < instant (of_as_of st) then Inl (RuntimeError ''out-of-order event for '')
          else bind_result (checked_compute rb st e ts) (\<lambda>(st', v). Inr st'))"

definition warmup :: "rolling_builder \<Rightarrow> normalized_event list \<Rightarrow> feature_state result" where
  "warmup rb events = fold_result (\<lambda>e st. update_features rb st e) events (initial_state rb)"

definition offline_step ::
  "rolling_builder \<Rightarrow> normalized_event \<Rightarrow> feature_state \<times> feature_vector list \<Rightarrow> (feature_state \<times> feature_vector list) result" where
  "offline_step rb e acc =
     (case acc of (st, emitted) \<Rightarrow>
        (case feature_event_time e of
           None \<Rightarrow> Inr (st, emitted)
         | Some ts \<Rightarrow>
             if instant ts < instant (of_as_of st) then Inl (RuntimeError ''build_offline received out-of-order event: '')
             else bind_result (checked_compute rb st e ts)
                    (\<lambda>(st', v). Inr (st', case v of None \<Rightarrow> emitted | Some x \<Rightarrow> emitted @ [x]))))"

definition build_offline :: "rolling_builder \<Rightarrow> normalized_event list \<Rightarrow> feature_vector list result" where
  "build_offline rb events =
     bind_result (fold_result (offline_step rb) events (initial_state rb, [])) (\<lambda>(st, emitted). Inr emitted)"

end
