(* ===== verification/FeatureProps.thy ===== *)
theory FeatureProps
  imports Features
begin

text \<open>
  What the reference feature builder computes: the trades it keeps for an instrument are those of a
  window that ends at the instrument's last trade, whatever events of other kinds came since, and the
  vectors built offline are those an online builder shows after the same events.
\<close>

section \<open>The trades of a history\<close>

definition accepted :: "rolling_builder \<Rightarrow> normalized_event \<Rightarrow> bool" where
  "accepted rb e \<longleftrightarrow> rb_instrument_filter rb = None \<or> instrument_of e = rb_instrument_filter rb"

definition event_instant :: "normalized_event \<Rightarrow> int" where
  "event_instant e = (case feature_event_time e of None \<Rightarrow> 0 | Some ts \<Rightarrow> instant ts)"

fun trade_entry :: "normalized_event \<Rightarrow> (datetime \<times> decimal \<times> decimal) option" where
  "trade_entry (TradeEvent _ t _) = Some (ts_or (tr_exchange_ts t) (tr_received_at t), tr_price t, tr_quantity t)"
| "trade_entry _ = None"

definition key_trades :: "rolling_builder \<Rightarrow> string \<Rightarrow> normalized_event list \<Rightarrow> (datetime \<times> decimal \<times> decimal) list" where
  "key_trades rb k es =
     List.map_filter trade_entry (filter (\<lambda>e. accepted rb e \<and> state_key (instrument_of e) = k) es)"

definition recent_trades :: "rolling_builder \<Rightarrow> (datetime \<times> decimal \<times> decimal) list \<Rightarrow> (datetime \<times> decimal \<times> decimal) list" where
  "recent_trades rb ts =
     filter (\<lambda>x. instant (fst (List.last ts)) - rb_window_seconds rb * 1000000 \<le> instant (fst x)) ts"

lemma event_time_Some: "\<exists>ts. feature_event_time e = Some ts"
  by (cases e) auto

lemma trade_entry_time:
  "trade_entry e = Some x \<Longrightarrow> feature_event_time e = Some (fst x)"
  by (cases e) auto

lemma trade_entry_instant: "trade_entry e = Some x \<Longrightarrow> event_instant e = instant (fst x)"
  by (simp add: event_instant_def trade_entry_time)

lemma dropWhile_sorted:
  fixes f :: "'a \<Rightarrow> int"
  assumes "sorted (map f xs)"
  shows "dropWhile (\<lambda>x. f x < c) xs = filter (\<lambda>x. c \<le> f x) xs"
  using assms
proof (induction xs)
  case (Cons x xs)
  show ?case
  proof (cases "f x < c")
    case True
    with Cons show ?thesis by simp
  next
    case False
    with Cons.prems have "filter (\<lambda>x. c \<le> f x) xs = xs" by (intro filter_True) auto
    with False show ?thesis by simp
  qed
qed simp

lemma key_trades_snoc:
  "key_trades rb k (es @ [e]) =
     key_trades rb k es @
       (if accepted rb e \<and> state_key (instrument_of e) = k
        then (case trade_entry e of None \<Rightarrow> [] | Some x \<Rightarrow> [x]) else [])"
  by (simp add: key_trades_def map_filter_def split: option.split)

lemma recent_trades_snoc:
  assumes "sorted (map (\<lambda>x. instant (fst x)) (ts @ [x]))"
  shows "dropWhile (\<lambda>y. instant (fst y) < instant (fst x) - rb_window_seconds rb * 1000000) (recent_trades rb ts @ [x])
         = recent_trades rb (ts @ [x])"
proof -
  let ?w = "rb_window_seconds rb * 1000000" and ?f = "\<lambda>y :: datetime \<times> decimal \<times> decimal. instant (fst y)"
  have "sorted (map ?f (recent_trades rb ts @ [x]))"
    using assms by (auto simp: recent_trades_def sorted_append intro: sorted_filter)
  then have "dropWhile (\<lambda>y. ?f y < ?f x - ?w) (recent_trades rb ts @ [x])
             = filter (\<lambda>y. ?f x - ?w \<le> ?f y) (recent_trades rb ts @ [x])"
    by (rule dropWhile_sorted)
  moreover have "filter (\<lambda>y. ?f x - ?w \<le> ?f y) (recent_trades rb ts) = filter (\<lambda>y. ?f x - ?w \<le> ?f y) ts"
  proof (cases "ts = []")
    case False
    then have "List.last ts \<in> set ts" by simp
    with assms have "?f (List.last ts) \<le> ?f x" by (auto simp: sorted_append)
    then show ?thesis by (auto simp: recent_trades_def intro!: filter_cong)
  qed (simp add: recent_trades_def)
  ultimately show ?thesis by (simp add: recent_trades_def)
qed

section \<open>What the builder's state says of the history\<close>

definition follows_trades :: "rolling_builder \<Rightarrow> normalized_event list \<Rightarrow> feature_state \<Rightarrow> bool" where
  "follows_trades rb es st \<longleftrightarrow>
     sorted (map event_instant es) \<and>
     (\<forall>e \<in> set es. event_instant e \<le> instant (of_as_of st)) \<and>
     (\<forall>k. (case dict_get (of_builder_state st) k of None \<Rightarrow> [] | Some per \<Rightarrow> rl_trade_window per)
          = recent_trades rb (key_trades rb k es))"

lemma sorted_key_trades:
  assumes "sorted (map event_instant es)"
  shows "sorted (map (\<lambda>x. instant (fst x)) (key_trades rb k es))"
    and "\<And>x. x \<in> set (key_trades rb k es) \<Longrightarrow> \<exists>e \<in> set es. event_instant e = instant (fst x)"
proof -
  have m: "\<exists>e \<in> set es. event_instant e = instant (fst x)" if "x \<in> set (key_trades rb k es)" for x es
  proof -
    from that obtain e where "e \<in> set es" and "trade_entry e = Some x"
      by (auto simp: key_trades_def map_filter_def)
    then show ?thesis using trade_entry_instant by metis
  qed
  then show "\<And>x. x \<in> set (key_trades rb k es) \<Longrightarrow> \<exists>e \<in> set es. event_instant e = instant (fst x)" .
  show "sorted (map (\<lambda>x. instant (fst x)) (key_trades rb k es))"
    using assms
  proof (induction es rule: rev_induct)
    case (snoc e es)
    then have s: "sorted (map event_instant es)" and le: "\<forall>e' \<in> set es. event_instant e' \<le> event_instant e"
      by (auto simp: sorted_append)
    have le: "\<forall>y \<in> set (key_trades rb k es). instant (fst y) \<le> event_instant e"
      using m le by metis
    have ih: "sorted (map (\<lambda>x. instant (fst x)) (key_trades rb k es))"
      by (rule snoc.IH [OF s])
    show ?case
    proof (cases "trade_entry e")
      case None
      with ih show ?thesis by (simp add: key_trades_snoc)
    next
      case (Some x)
      with le have "\<forall>y \<in> set (key_trades rb k es). instant (fst y) \<le> instant (fst x)"
        using trade_entry_instant [OF Some] by simp
      then have "sorted (map (\<lambda>x. instant (fst x)) (key_trades rb k es @ [x]))"
        using ih by (auto simp: sorted_append)
      with ih Some show ?thesis by (simp add: key_trades_snoc)
    qed
  qed (simp add: key_trades_def map_filter_def)
qed

lemma observe_event_window:
  "rl_trade_window (observe_event rb e ts per) =
     (case trade_entry e of
        None \<Rightarrow> rl_trade_window per
      | Some x \<Rightarrow>
          dropWhile (\<lambda>y. instant (fst y) < instant ts - rb_window_seconds rb * 1000000)
            (rl_trade_window per @ [(ts, snd x)]))"
  by (cases e)
    (auto simp: observe_feature_mid_def observe_imbalance_def Let_def split: option.splits)

lemma update_cases:
  assumes "update_features rb st e = Inr st'"
  obtains ts where "feature_event_time e = Some ts" and "instant (of_as_of st) \<le> instant ts"
      and "\<not> accepted rb e" and "st' = st\<lparr>of_as_of := ts, of_last_event := Some e\<rparr>"
    | ts per v where "feature_event_time e = Some ts" and "instant (of_as_of st) \<le> instant ts" and "accepted rb e"
      and "per = observe_event rb e ts ((rolling_for (instrument_of e) ts (of_builder_state st))\<lparr>rl_as_of := ts\<rparr>)"
      and "emit_vector rb per = Inr v"
      and "st' = \<lparr>of_instrument_id = instrument_of e, of_as_of = ts, of_last_event = Some e, of_vector = Some v,
                  of_builder_state = dict_set (state_key (instrument_of e)) per (of_builder_state st)\<rparr>"
proof -
  obtain ts where ts: "feature_event_time e = Some ts" using event_time_Some by blast
  with assms have le: "instant (of_as_of st) \<le> instant ts"
    by (auto simp: update_features_def split: if_splits)
  from assms ts le obtain v where c: "compute_features rb st e ts = Inr (st', v)"
    by (auto simp: update_features_def checked_compute_def bind_result_Inr_iff split: option.splits)
  show thesis
  proof (cases "accepted rb e")
    case False
    then show thesis
      using that(1) [OF ts le] c
      by (auto simp: compute_features_def accepted_def bind_result_Inr_iff)
  next
    case True
    then show thesis
      using that(2) [OF ts le True refl] c
      by (auto simp: compute_features_def accepted_def Let_def bind_result_Inr_iff)
  qed
qed

lemma rolling_for_window [simp]:
  "rl_trade_window ((rolling_for i ts states)\<lparr>rl_as_of := u\<rparr>) =
     (case dict_get states (state_key i) of None \<Rightarrow> [] | Some per \<Rightarrow> rl_trade_window per)"
  by (simp add: rolling_for_def split: option.split)

lemma trades_step:
  assumes inv: "follows_trades rb es st" and up: "update_features rb st e = Inr st'"
  shows "follows_trades rb (es @ [e]) st'"
proof -
  have s: "sorted (map event_instant es)" and le: "\<And>x. x \<in> set es \<Longrightarrow> event_instant x \<le> instant (of_as_of st)"
    and w: "\<And>k. (case dict_get (of_builder_state st) k of None \<Rightarrow> [] | Some per \<Rightarrow> rl_trade_window per)
               = recent_trades rb (key_trades rb k es)"
    using inv by (simp_all add: follows_trades_def)
  from up obtain ts where ts: "feature_event_time e = Some ts" "instant (of_as_of st) \<le> instant ts" "of_as_of st' = ts"
    by (cases rule: update_cases) auto
  then have now: "event_instant e = instant ts" by (simp add: event_instant_def)
  have le': "x \<in> set es \<Longrightarrow> event_instant x \<le> instant ts" for x
    using le [of x] ts(2) by simp
  have win: "(case dict_get (of_builder_state st') k of None \<Rightarrow> [] | Some per \<Rightarrow> rl_trade_window per)
             = recent_trades rb (key_trades rb k (es @ [e]))" for k
    using up
  proof (cases rule: update_cases)
    case (1 ts')
    then show ?thesis using w [of k] by (simp add: key_trades_snoc)
  next
    case (2 ts' per v)
    have same: "ts' = ts" using 2(1) ts(1) by simp
    show ?thesis
    proof (cases "state_key (instrument_of e) = k")
      case False
      then show ?thesis using w [of k] 2(6) by (simp add: key_trades_snoc)
    next
      case True
      have per: "rl_trade_window per =
          (case trade_entry e of None \<Rightarrow> recent_trades rb (key_trades rb k es)
           | Some x \<Rightarrow> dropWhile (\<lambda>y. instant (fst y) < instant ts - rb_window_seconds rb * 1000000)
                         (recent_trades rb (key_trades rb k es) @ [(ts, snd x)]))"
        unfolding 2(4) observe_event_window same rolling_for_window True w ..
      show ?thesis
      proof (cases "trade_entry e")
        case None
        then show ?thesis using per 2(3,6) True by (simp add: key_trades_snoc)
      next
        case (Some x)
        then have x: "x = (ts, snd x)" using trade_entry_time [OF Some] ts(1) by (simp add: prod_eq_iff)
        have "sorted (map (\<lambda>x. instant (fst x)) (key_trades rb k es @ [x]))"
        proof -
          have "instant (fst y) \<le> instant (fst x)" if "y \<in> set (key_trades rb k es)" for y
            using sorted_key_trades(2) [OF s that] le' x by (metis fst_conv)
          then show ?thesis using sorted_key_trades(1) [OF s] by (auto simp: sorted_append)
        qed
        from recent_trades_snoc [OF this, of rb] have "rl_trade_window per = recent_trades rb (key_trades rb k es @ [x])"
          using per Some x by (metis fst_conv option.simps(5))
        then show ?thesis using Some 2(3,6) True by (simp add: key_trades_snoc)
      qed
    qed
  qed
  show ?thesis
    unfolding follows_trades_def
  proof (intro conjI)
    show "sorted (map event_instant (es @ [e]))" using s le' now by (auto simp: sorted_append)
    show "\<forall>x\<in>set (es @ [e]). event_instant x \<le> instant (of_as_of st')" using le' now ts(3) by auto
    show "\<forall>k. (case dict_get (of_builder_state st') k of None \<Rightarrow> [] | Some per \<Rightarrow> rl_trade_window per)
             = recent_trades rb (key_trades rb k (es @ [e]))" using win by blast
  qed
qed

interpretation rolling: follows_history
  "\<lambda>e r. bind_result r (\<lambda>st. update_features rb st e)" "\<lambda>_. True"
  "\<lambda>es (r :: feature_state result). case r of Inl _ \<Rightarrow> True | Inr st \<Rightarrow> follows_trades rb es st" for rb
proof unfold_locales
  fix es e and r :: "feature_state result"
  assume "case r of Inl _ \<Rightarrow> True | Inr st \<Rightarrow> follows_trades rb es st"
  then show "case bind_result r (\<lambda>st. update_features rb st e) of Inl _ \<Rightarrow> True | Inr st \<Rightarrow> follows_trades rb (es @ [e]) st"
    by (cases r) (auto split: sum.split intro: trades_step)
qed

lemma warmup_fold:
  "warmup rb es = fold (\<lambda>e r. bind_result r (\<lambda>st. update_features rb st e)) es (Inr (initial_state rb))"
proof (induction es rule: rev_induct)
  case (snoc e es)
  have "fold_result f [e] = f e" for f :: "normalized_event \<Rightarrow> feature_state \<Rightarrow> feature_state result"
    by (rule ext) (simp add: bind_result_def split: sum.split)
  with snoc show ?case by (simp add: warmup_def fold_result_append del: fold_result.simps)
qed (simp add: warmup_def)

lemma warmup_follows_trades: "warmup rb es = Inr st \<Longrightarrow> follows_trades rb es st"
proof -
  assume "warmup rb es = Inr st"
  moreover have "case warmup rb es of Inl _ \<Rightarrow> True | Inr st \<Rightarrow> follows_trades rb es st"
    unfolding warmup_fold
    by (rule rolling.agrees_after)
      (simp_all add: follows_trades_def initial_state_def key_trades_def map_filter_def recent_trades_def list_all_iff)
  ultimately show ?thesis by simp
qed

section \<open>The vector after an event\<close>

lemma warmup_snoc:
  "warmup rb (es @ [e]) = bind_result (warmup rb es) (\<lambda>st. update_features rb st e)"
  by (simp add: warmup_fold)

lemma emit_vector_fields:
  assumes "emit_vector rb per = Inr v"
  shows "fv_timestamp v = rl_as_of per" "fv_instrument_id v = rl_instrument_id per"
    "feature_get v ''trade_vwap'' = Some (fctx (vwap (rl_trade_window per)))"
  using assms by (auto simp: emit_vector_def mk_feature_vector_def validated_def feature_get_def split: option.splits)

lemma observe_event_frame [simp]:
  "rl_as_of (observe_event rb e ts per) = rl_as_of per"
  "rl_instrument_id (observe_event rb e ts per) = rl_instrument_id per"
  by (cases e; simp add: observe_feature_mid_def observe_imbalance_def Let_def split: option.split)+

lemma rolling_for_instrument [simp]: "rl_instrument_id (rolling_for i ts states) = i"
  by (simp add: rolling_for_def split: option.split)

text \<open>
  C13: Whatever events the builder was warmed up with, the vector it holds after an event it accepts is
  stamped with that event's time and instrument, and its volume-weighted price is that of the
  instrument's trades in a window that ends at the instrument's last trade. The window does not move
  with quotes, books or timers, so a trade that has left the window of the event itself still counts
  until the next trade.
\<close>
theorem vwap_covers_last_trades:
  assumes "warmup rb (es @ [e]) = Inr st" and "accepted rb e"
  shows "\<exists>v. of_vector st = Some v \<and> Some (fv_timestamp v) = feature_event_time e \<and>
             fv_instrument_id v = instrument_of e \<and>
             feature_get v ''trade_vwap'' =
               Some (fctx (vwap (recent_trades rb (key_trades rb (state_key (instrument_of e)) (es @ [e])))))"
proof -
  from assms(1) obtain st0 where "update_features rb st0 e = Inr st"
    by (auto simp: warmup_snoc bind_result_Inr_iff)
  then obtain ts per v where ts: "feature_event_time e = Some ts" and per:
      "per = observe_event rb e ts ((rolling_for (instrument_of e) ts (of_builder_state st0))\<lparr>rl_as_of := ts\<rparr>)"
    and v: "emit_vector rb per = Inr v" and st: "of_vector st = Some v"
      "of_builder_state st = dict_set (state_key (instrument_of e)) per (of_builder_state st0)"
    using assms(2) by (cases rule: update_cases) auto
  from warmup_follows_trades [OF assms(1)] st(2)
  have "rl_trade_window per = recent_trades rb (key_trades rb (state_key (instrument_of e)) (es @ [e]))"
    by (auto simp: follows_trades_def split: option.splits dest: spec [of _ "state_key (instrument_of e)"])
  with ts per st(1) emit_vector_fields [OF v] show ?thesis by simp
qed

text \<open>A trade at the epoch and a quote a thousand seconds later, with a window of thirty seconds.\<close>

definition sample_builder :: rolling_builder where
  "sample_builder =
     \<lparr>rb_schema_id = ''s'', rb_schema_version = ''v1'', rb_window_seconds = 30, rb_half_life_seconds = 5,
      rb_instrument_filter = None, rb_half_power = (\<lambda>_. 1)\<rparr>"

definition sample_instrument :: instrument_id where
  "sample_instrument = \<lparr>iid_venue = KALSHI, market_id = ''M'', outcome_id = None\<rparr>"

definition sample_trade :: normalized_event where
  "sample_trade =
     TradeEvent ''t''
       \<lparr>tr_instrument_id = sample_instrument, tr_side = None, tr_price = 1 / 2, tr_quantity = 10, trade_id = None,
        tr_exchange_ts = None, tr_received_at = utc 0, aggressor_side = None, tr_metadata = []\<rparr> default_provenance"

definition sample_quote :: "int \<Rightarrow> decimal \<Rightarrow> normalized_event" where
  "sample_quote t p =
     QuoteEvent ''q''
       \<lparr>q_instrument_id = sample_instrument, q_side = YES, q_bid = Some \<lparr>lvl_price = p, lvl_quantity = 1\<rparr>,
        q_ask = Some \<lparr>lvl_price = p, lvl_quantity = 1\<rparr>, q_exchange_ts = None, q_received_at = utc t\<rparr>
       default_provenance"

theorem vwap_covers_last_trades_witness:
  "\<exists>v. bind_result (warmup sample_builder [sample_trade, sample_quote 1000000000 (1 / 4)]) (\<lambda>st. Inr (of_vector st)) = Inr (Some v) \<and>
       fv_timestamp v = utc 1000000000 \<and> feature_get v ''trade_vwap'' = Some (fctx (1 / 2))"
proof -
  let ?q = "sample_quote 1000000000 (1 / 4)"
  have "case warmup sample_builder ([sample_trade] @ [?q]) of Inl _ \<Rightarrow> False | Inr st \<Rightarrow> True" by code_simp
  then obtain st where st: "warmup sample_builder ([sample_trade] @ [?q]) = Inr st" by (auto split: sum.splits)
  have "accepted sample_builder ?q" by code_simp
  from vwap_covers_last_trades [OF st this] st
  obtain v where "of_vector st = Some v" and "Some (fv_timestamp v) = feature_event_time ?q"
    and w: "feature_get v ''trade_vwap'' =
      Some (fctx (vwap (recent_trades sample_builder
        (key_trades sample_builder (state_key (instrument_of ?q)) ([sample_trade] @ [?q])))))" by blast
  moreover have time: "feature_event_time ?q = Some (utc 1000000000)" by code_simp
  moreover have window: "vwap (recent_trades sample_builder
      (key_trades sample_builder (state_key (instrument_of ?q)) ([sample_trade] @ [?q]))) = 1 / 2" by code_simp
  have "feature_get v ''trade_vwap'' = Some (fctx (1 / 2))" using w unfolding window .
  ultimately show ?thesis using st by simp
qed

section \<open>Offline and online\<close>

definition served_vector :: "rolling_builder \<Rightarrow> normalized_event list \<Rightarrow> nat \<Rightarrow> feature_vector option" where
  "served_vector rb es n = (case warmup rb (take (Suc n) es) of Inl _ \<Rightarrow> None | Inr st \<Rightarrow> of_vector st)"

definition served_vectors :: "rolling_builder \<Rightarrow> normalized_event list \<Rightarrow> feature_vector option list" where
  "served_vectors rb es = map (served_vector rb es) (filter (\<lambda>n. accepted rb (es ! n)) [0..<length es])"

lemma served_vectors_snoc:
  "served_vectors rb (es @ [e]) =
     served_vectors rb es @
       (if accepted rb e then [case warmup rb (es @ [e]) of Inl _ \<Rightarrow> None | Inr st \<Rightarrow> of_vector st] else [])"
  unfolding served_vectors_def
  by (auto simp: nth_append served_vector_def intro!: map_cong filter_cong)

lemma compute_vector:
  assumes "compute_features rb st e ts = Inr (st', v)"
  shows "v = (if accepted rb e then of_vector st' else None) \<and> (accepted rb e \<longrightarrow> (\<exists>x. of_vector st' = Some x))"
proof (cases "accepted rb e")
  case True
  then have "\<not> (rb_instrument_filter rb \<noteq> None \<and> instrument_of e \<noteq> rb_instrument_filter rb)"
    by (auto simp: accepted_def)
  with assms True show ?thesis unfolding compute_features_def Let_def by (auto simp: bind_result_Inr_iff)
next
  case False
  then have "rb_instrument_filter rb \<noteq> None \<and> instrument_of e \<noteq> rb_instrument_filter rb"
    by (auto simp: accepted_def)
  with assms False show ?thesis unfolding compute_features_def Let_def by (auto simp: bind_result_Inr_iff)
qed

lemma checked_compute_cases:
  assumes "checked_compute rb st e ts = Inr (st', v)"
  shows "v = (if accepted rb e then of_vector st' else None)" and "accepted rb e \<Longrightarrow> \<exists>x. of_vector st' = Some x"
proof -
  from assms have "compute_features rb st e ts = Inr (st', v)"
    by (auto simp: checked_compute_def bind_result_Inr_iff split: option.splits)
  from compute_vector [OF this] show "v = (if accepted rb e then of_vector st' else None)"
    and "accepted rb e \<Longrightarrow> \<exists>x. of_vector st' = Some x" by simp_all
qed

lemma offline_step_iff:
  "offline_step rb e (st, out) = Inr (st', out') \<longleftrightarrow>
     update_features rb st e = Inr st' \<and>
     map Some out' = map Some out @ (if accepted rb e then [of_vector st'] else [])"
proof -
  obtain ts where ts: "feature_event_time e = Some ts" using event_time_Some by blast
  show ?thesis
  proof (cases "checked_compute rb st e ts")
    case (Inl x)
    then show ?thesis using ts by (auto simp: offline_step_def update_features_def)
  next
    case (Inr p)
    obtain st1 v where p: "p = (st1, v)" by (cases p)
    have inj: "map Some a = map Some b @ [Some x] \<longleftrightarrow> a = b @ [x]" for a b :: "feature_vector list" and x
      by (metis inj_Some inj_map_eq_map list.simps(8,9) map_append)
    from checked_compute_cases [OF Inr [unfolded p]] ts Inr p show ?thesis
      by (auto simp: offline_step_def update_features_def inj inj_map_eq_map [OF inj_Some])
  qed
qed

lemma offline_fold_iff:
  "fold_result (offline_step rb) es (initial_state rb, []) = Inr (st, out) \<longleftrightarrow>
     warmup rb es = Inr st \<and> map Some out = served_vectors rb es"
proof (induction es arbitrary: st out rule: rev_induct)
  case Nil
  show ?case by (auto simp: warmup_def served_vectors_def)
next
  case (snoc e es)
  have single: "fold_result (offline_step rb) [e] p = offline_step rb e p" for p
    by (simp add: bind_result_def split: sum.split)
  have split: "map Some out = xs @ [y] \<Longrightarrow> \<exists>b. map Some b = xs \<and> xs = map Some b" for xs y
    by (metis map_eq_append_conv)
  show ?case
    by (auto simp: fold_result_append single bind_result_Inr_iff snoc.IH offline_step_iff warmup_snoc served_vectors_snoc
        simp del: fold_result.simps dest: split)
qed

lemma offline_total:
  "warmup rb es = Inr st \<Longrightarrow> \<exists>out. fold_result (offline_step rb) es (initial_state rb, []) = Inr (st, out)"
proof (induction es arbitrary: st rule: rev_induct)
  case Nil
  then show ?case by (simp add: warmup_def)
next
  case (snoc e es)
  then obtain st0 out where up: "update_features rb st0 e = Inr st" and ih: "warmup rb es = Inr st0"
      "map Some out = served_vectors rb es"
    by (auto simp: warmup_snoc bind_result_Inr_iff offline_fold_iff)
  have "\<exists>v. of_vector st = Some v" if "accepted rb e"
    using up that by (cases rule: update_cases) auto
  then have "\<exists>out'. map Some out' = served_vectors rb es @ (if accepted rb e then [of_vector st] else [])"
    using ih(2) by (cases "accepted rb e") (auto intro: exI [of _ "out @ [x]" for x])
  with up ih(1) show ?case
    unfolding offline_fold_iff by (cases "accepted rb e") (simp_all add: warmup_snoc served_vectors_snoc)
qed

text \<open>
  C40: The offline build of the training features and the online builder agree: the build raises exactly
  when updating a state event by event does, and otherwise its vectors are those a live builder holds
  after each event it accepts, in order. No vector depends on a later event.
\<close>
theorem offline_build_matches_online:
  "(case build_offline rb es of
      Inl _ \<Rightarrow> \<exists>err. warmup rb es = Inl err
    | Inr vs \<Rightarrow> (\<exists>st. warmup rb es = Inr st) \<and> map Some vs = served_vectors rb es)"
proof (cases "fold_result (offline_step rb) es (initial_state rb, [])")
  case (Inl err)
  then have "\<nexists>st. warmup rb es = Inr st" using offline_total by fastforce
  with Inl show ?thesis by (cases "warmup rb es") (simp_all add: build_offline_def)
next
  case (Inr p)
  obtain st out where "p = (st, out)" by (cases p)
  with Inr offline_fold_iff [of rb es st out] show ?thesis by (simp add: build_offline_def)
qed

end
