(* ===== verification/TrainingData.thy ===== *)
theory TrainingData
  imports Features
begin

text \<open>
  \<open>models/labelers.py\<close>, the three labelers, and \<open>models/dataset.py\<close>, the builder that feeds a
  feature builder with a stream of events, keeps for every vector the events that follow it and asks
  the labeler once the labeler's horizon has passed. A labeler and a feature builder are interfaces in
  the code, so each is a record of its operations; a label is a float.
\<close>

section \<open>Labelers\<close>

record labeler =
  lb_horizon_seconds :: int
  lb_label :: "instrument_id option \<Rightarrow> datetime \<Rightarrow> decimal option \<Rightarrow> normalized_event list \<Rightarrow> rat option result"

fun label_event_ts :: "normalized_event \<Rightarrow> datetime option" where
  "label_event_ts (QuoteEvent _ q _) = Some (ts_or (q_exchange_ts q) (q_received_at q))"
| "label_event_ts (TradeEvent _ t _) = Some (ts_or (tr_exchange_ts t) (tr_received_at t))"
| "label_event_ts (OrderBookEvent _ b _) = Some (ts_or (bk_exchange_ts b) (bk_received_at b))"
| "label_event_ts (SettlementResolvedEvent _ s _) = Some (settled_at s)"
| "label_event_ts (ExternalSignalEvent _ x _) = Some (ext_received_at x)"
| "label_event_ts _ = None"

fun label_instrument_of :: "normalized_event \<Rightarrow> instrument_id option" where
  "label_instrument_of (QuoteEvent _ q _) = Some (q_instrument_id q)"
| "label_instrument_of (TradeEvent _ t _) = Some (tr_instrument_id t)"
| "label_instrument_of (OrderBookEvent _ b _) = Some (bk_instrument_id b)"
| "label_instrument_of (SettlementResolvedEvent _ s _) = Some (set_instrument_id s)"
| "label_instrument_of _ = None"

text \<open>The mid of an event that shows both sides, which the labelers and the dataset builder read alike.\<close>

definition both_sides_mid :: "order_book_level option \<Rightarrow> order_book_level option \<Rightarrow> decimal option" where
  "both_sides_mid bid ask =
     (case (bid, ask) of (Some b, Some a) \<Rightarrow> Some (ddiv (dadd (lvl_price b) (lvl_price a)) 2) | _ \<Rightarrow> None)"

fun two_sided_mid :: "normalized_event \<Rightarrow> decimal option" where
  "two_sided_mid (QuoteEvent _ q _) = both_sides_mid (q_bid q) (q_ask q)"
| "two_sided_mid (OrderBookEvent _ b _) = both_sides_mid (head_option (yes_bids b)) (head_option (yes_asks b))"
| "two_sided_mid _ = None"

fun first_mid_after :: "normalized_event list \<Rightarrow> datetime \<Rightarrow> instrument_id option \<Rightarrow> decimal option" where
  "first_mid_after [] threshold i = None"
| "first_mid_after (e # es) threshold i =
     (case label_event_ts e of
        None \<Rightarrow> first_mid_after es threshold i
      | Some ts \<Rightarrow>
          if instant ts < instant threshold then first_mid_after es threshold i
          else if i \<noteq> None \<and> label_instrument_of e \<noteq> i then first_mid_after es threshold i
          else (case two_sided_mid e of
                  None \<Rightarrow> first_mid_after es threshold i
                | Some m \<Rightarrow> Some m))"

definition horizon_end :: "datetime \<Rightarrow> int \<Rightarrow> datetime" where
  "horizon_end as_of horizon = dt_plus as_of (horizon * 1000000)"

definition mid_change_bps :: "decimal \<Rightarrow> decimal \<Rightarrow> rat" where
  "mid_change_bps m future = fctx (dmul (ddiv (dsub future m) m) 10000)"

definition next_mid_change_label ::
  "int \<Rightarrow> instrument_id option \<Rightarrow> datetime \<Rightarrow> decimal option \<Rightarrow> normalized_event list \<Rightarrow> rat option result" where
  "next_mid_change_label horizon i as_of as_of_mid future_events =
     (case as_of_mid of
        None \<Rightarrow> Inr None
      | Some m \<Rightarrow>
          if m \<le> 0 then Inr None
          else (case first_mid_after future_events (horizon_end as_of horizon) i of
                  None \<Rightarrow> Inr None
                | Some future \<Rightarrow> Inr (Some (mid_change_bps m future))))"

definition NextMidChangeBpsLabeler :: "int \<Rightarrow> labeler" where
  "NextMidChangeBpsLabeler horizon =
     \<lparr>lb_horizon_seconds = horizon, lb_label = next_mid_change_label horizon\<rparr>"

definition label_fill_context :: "instrument_id option \<Rightarrow> outcome_side \<Rightarrow> decimal \<Rightarrow> fill_context result" where
  "label_fill_context i side m =
     mk_fill_context
       \<lparr>fc_instrument_id =
          (case i of None \<Rightarrow> \<lparr>iid_venue = KALSHI, market_id = ''UNKNOWN'', outcome_id = None\<rparr> | Some x \<Rightarrow> x),
        fc_side = side, fc_price = m, fc_quantity = 1, fc_liquidity = ''taker'', market_category = None\<rparr>"

definition profitable_label ::
  "int \<Rightarrow> fee_model \<Rightarrow> outcome_side \<Rightarrow> instrument_id option \<Rightarrow> datetime \<Rightarrow> decimal option \<Rightarrow> normalized_event list \<Rightarrow> rat option result" where
  "profitable_label horizon fees side i as_of as_of_mid future_events =
     (case as_of_mid of
        None \<Rightarrow> Inr None
      | Some m \<Rightarrow>
          if m \<le> 0 then Inr None
          else (case first_mid_after future_events (horizon_end as_of horizon) i of
                  None \<Rightarrow> Inr None
                | Some future \<Rightarrow>
                    bind_result (bind_result (label_fill_context i side m) fees) (\<lambda>fee.
                      Inr (Some (if dsub (dsub future m) (est_amount fee) > 0 then 1 else 0)))))"

definition BinaryProfitableAfterFeesLabeler :: "int \<Rightarrow> fee_model \<Rightarrow> outcome_side \<Rightarrow> labeler" where
  "BinaryProfitableAfterFeesLabeler horizon fees side =
     \<lparr>lb_horizon_seconds = horizon, lb_label = profitable_label horizon fees side\<rparr>"

fun settlement_label :: "instrument_id option \<Rightarrow> normalized_event list \<Rightarrow> rat option" where
  "settlement_label i [] = None"
| "settlement_label i (SettlementResolvedEvent _ s _ # es) =
     (if i \<noteq> None \<and> Some (set_instrument_id s) \<noteq> i then settlement_label i es
      else (case resolved_side s of
              None \<Rightarrow> None
            | Some side \<Rightarrow> Some (if side = YES then 1 else 0)))"
| "settlement_label i (_ # es) = settlement_label i es"

definition SettlementProbabilityLabeler :: "int \<Rightarrow> labeler" where
  "SettlementProbabilityLabeler horizon =
     \<lparr>lb_horizon_seconds = horizon, lb_label = (\<lambda>i as_of as_of_mid es. Inr (settlement_label i es))\<rparr>"

section \<open>The dataset builder\<close>

record training_example =
  te_features :: feature_vector
  te_label :: rat

record 's feature_builder =
  fb_initial :: 's
  fb_update :: "'s \<Rightarrow> normalized_event \<Rightarrow> 's result"
  fb_vector :: "'s \<Rightarrow> feature_vector option"

type_synonym mid_cache = "(instrument_id option, decimal) dict"
type_synonym pending_vector = "feature_vector \<times> decimal option \<times> normalized_event list"

record 's example_builder =
  xb_fb_state :: 's
  xb_pending :: "pending_vector list"
  xb_last_mid :: mid_cache

definition new_example_builder :: "'s feature_builder \<Rightarrow> 's example_builder" where
  "new_example_builder fb = \<lparr>xb_fb_state = fb_initial fb, xb_pending = [], xb_last_mid = []\<rparr>"

definition update_mid_cache :: "normalized_event \<Rightarrow> mid_cache \<Rightarrow> mid_cache" where
  "update_mid_cache e mids =
     (case two_sided_mid e of
        Some m \<Rightarrow> dict_set (label_instrument_of e) m mids
      | None \<Rightarrow>
          (case e of
             TradeEvent eid t prov \<Rightarrow>
               if dict_get mids (Some (tr_instrument_id t)) = None
               then dict_set (Some (tr_instrument_id t)) (tr_price t) mids else mids
           | _ \<Rightarrow> mids))"

definition horizon_passed :: "int \<Rightarrow> normalized_event \<Rightarrow> feature_vector \<Rightarrow> bool" where
  "horizon_passed horizon e v =
     (case feature_event_time e of
        None \<Rightarrow> False
      | Some now \<Rightarrow> \<not> dt_minus now (fv_timestamp v) < horizon * 1000000)"

definition label_vector :: "labeler \<Rightarrow> feature_vector \<Rightarrow> decimal option \<Rightarrow> normalized_event list \<Rightarrow> rat option result" where
  "label_vector lab v m future = lb_label lab (fv_instrument_id v) (fv_timestamp v) m future"

text \<open>The loop over the pending vectors: the examples of those that are due, and the others.\<close>

fun label_due ::
  "labeler \<Rightarrow> (feature_vector \<Rightarrow> bool) \<Rightarrow> pending_vector list \<Rightarrow> (training_example list \<times> pending_vector list) result" where
  "label_due lab due [] = Inr ([], [])"
| "label_due lab due ((v, m, future) # ps) =
     (if \<not> due v then bind_result (label_due lab due ps) (\<lambda>(completed, remaining). Inr (completed, (v, m, future) # remaining))
      else bind_result (label_vector lab v m future) (\<lambda>label.
           bind_result (label_due lab due ps) (\<lambda>(completed, remaining).
             Inr (case label of
                    None \<Rightarrow> completed
                  | Some x \<Rightarrow> \<lparr>te_features = v, te_label = x\<rparr> # completed, remaining))))"

definition queue_vector :: "feature_vector option \<Rightarrow> mid_cache \<Rightarrow> pending_vector list" where
  "queue_vector new mids = (case new of None \<Rightarrow> [] | Some v \<Rightarrow> [(v, dict_get mids (fv_instrument_id v), [])])"

definition feed ::
  "'s feature_builder \<Rightarrow> labeler \<Rightarrow> normalized_event \<Rightarrow> 's example_builder \<Rightarrow> training_example list result \<times> 's example_builder" where
  "feed fb lab e xb =
     (let mids = update_mid_cache e (xb_last_mid xb); xb1 = xb\<lparr>xb_last_mid := mids\<rparr>
      in case fb_update fb (xb_fb_state xb) e of
           Inl err \<Rightarrow> (Inl err, xb1)
         | Inr s \<Rightarrow>
             let pending = map (\<lambda>(v, m, future). (v, m, future @ [e])) (xb_pending xb @ queue_vector (fb_vector fb s) mids);
                 xb2 = xb1\<lparr>xb_fb_state := s, xb_pending := pending\<rparr>
             in case label_due lab (horizon_passed (lb_horizon_seconds lab) e) pending of
                  Inl err \<Rightarrow> (Inl err, xb2)
                | Inr (completed, remaining) \<Rightarrow> (Inr completed, xb2\<lparr>xb_pending := remaining\<rparr>))"

definition flush_examples :: "labeler \<Rightarrow> 's example_builder \<Rightarrow> training_example list result \<times> 's example_builder" where
  "flush_examples lab xb =
     (case label_due lab (\<lambda>_. True) (xb_pending xb) of
        Inl err \<Rightarrow> (Inl err, xb)
      | Inr (completed, remaining) \<Rightarrow> (Inr completed, xb\<lparr>xb_pending := []\<rparr>))"

fun feed_all ::
  "'s feature_builder \<Rightarrow> labeler \<Rightarrow> normalized_event list \<Rightarrow> 's example_builder \<Rightarrow> training_example list result \<times> 's example_builder" where
  "feed_all fb lab [] xb = flush_examples lab xb"
| "feed_all fb lab (e # es) xb =
     (case feed fb lab e xb of
        (Inl err, xb') \<Rightarrow> (Inl err, xb')
      | (Inr xs, xb') \<Rightarrow>
          (case feed_all fb lab es xb' of
             (Inl err, xb'') \<Rightarrow> (Inl err, xb'')
           | (Inr ys, xb'') \<Rightarrow> (Inr (xs @ ys), xb'')))"

definition example_instant :: "training_example \<Rightarrow> int" where
  "example_instant x = instant (fv_timestamp (te_features x))"

definition build_examples ::
  "'s feature_builder \<Rightarrow> labeler \<Rightarrow> normalized_event list \<Rightarrow> 's example_builder \<Rightarrow> training_example list result \<times> 's example_builder" where
  "build_examples fb lab events xb =
     (case feed_all fb lab events xb of
        (Inl err, xb') \<Rightarrow> (Inl err, xb')
      | (Inr out, xb') \<Rightarrow> (Inr (sort_key example_instant out), xb'))"

text \<open>The rolling builder as the dataset's feature builder.\<close>

definition rolling_feature_builder :: "rolling_builder \<Rightarrow> feature_state feature_builder" where
  "rolling_feature_builder rb =
     \<lparr>fb_initial = initial_state rb, fb_update = update_features rb, fb_vector = of_vector\<rparr>"

end
