(* ===== verification/TrainingProps.thy ===== *)
theory TrainingProps
  imports TrainingData FeatureProps
begin

text \<open>
  The dataset against a reference that looks at the whole stream: every vector is labelled from the
  events that begin with its own and end with the first at or past its horizon. For the label of the next mid
  this leaves one event to decide it.
\<close>

section \<open>The reference\<close>

fun future_window :: "int \<Rightarrow> feature_vector \<Rightarrow> normalized_event list \<Rightarrow> normalized_event list" where
  "future_window horizon v [] = []"
| "future_window horizon v (e # es) =
     e # (if horizon_passed horizon e v then [] else future_window horizon v es)"

fun reference_labels ::
  "'s feature_builder \<Rightarrow> labeler \<Rightarrow> 's \<Rightarrow> mid_cache \<Rightarrow> normalized_event list \<Rightarrow> (feature_vector \<times> rat option result) list" where
  "reference_labels fb lab s mids [] = []"
| "reference_labels fb lab s mids (e # es) =
     (case fb_update fb s e of
        Inl err \<Rightarrow> []
      | Inr s' \<Rightarrow>
          (let mids' = update_mid_cache e mids
           in (case fb_vector fb s' of
                 None \<Rightarrow> []
               | Some v \<Rightarrow>
                   [(v, label_vector lab v (dict_get mids' (fv_instrument_id v))
                          (future_window (lb_horizon_seconds lab) v (e # es)))])
              @ reference_labels fb lab s' mids' es))"

definition labelled :: "training_example \<Rightarrow> feature_vector \<times> rat option result" where
  "labelled x = (te_features x, Inr (Some (te_label x)))"

definition uncensored :: "(feature_vector \<times> rat option result) list \<Rightarrow> (feature_vector \<times> rat option result) list" where
  "uncensored = filter (\<lambda>vr. snd vr \<noteq> Inr None)"

definition pending_labels ::
  "labeler \<Rightarrow> normalized_event list \<Rightarrow> pending_vector list \<Rightarrow> (feature_vector \<times> rat option result) list" where
  "pending_labels lab es =
     map (\<lambda>(v, m, past). (v, label_vector lab v m (past @ future_window (lb_horizon_seconds lab) v es)))"

lemma uncensored_append [simp]: "uncensored (xs @ ys) = uncensored xs @ uncensored ys"
  by (simp add: uncensored_def)

lemma pending_labels_append [simp]: "pending_labels lab es (ps @ qs) = pending_labels lab es ps @ pending_labels lab es qs"
  by (simp add: pending_labels_def)

section \<open>The builder computes it\<close>

lemma label_due_spec:
  assumes "label_due lab due ps = Inr (completed, remaining)"
  shows "remaining = filter (\<lambda>p. \<not> due (fst p)) ps \<and>
         map labelled completed = uncensored (pending_labels lab [] (filter (\<lambda>p. due (fst p)) ps))"
  using assms
proof (induction ps arbitrary: completed remaining)
  case (Cons p ps)
  obtain v m future where p: "p = (v, m, future)" by (cases p)
  show ?case
  proof (cases "due v")
    case False
    with Cons p show ?thesis by (auto simp: bind_result_Inr_iff)
  next
    case True
    with Cons.prems p obtain label c where l: "label_vector lab v m future = Inr label"
      and rest: "label_due lab due ps = Inr (c, remaining)"
      and c: "completed = (case label of None \<Rightarrow> c | Some x \<Rightarrow> \<lparr>te_features = v, te_label = x\<rparr> # c)"
      by (auto simp: bind_result_Inr_iff)
    from Cons.IH [OF rest] True p l c show ?thesis
      by (cases label) (simp_all add: uncensored_def pending_labels_def labelled_def)
  qed
qed (simp add: uncensored_def pending_labels_def)

lemma pending_labels_step:
  defines "h e lab \<equiv> horizon_passed (lb_horizon_seconds lab) e"
  shows "mset (pending_labels lab (e # es) ps) =
     mset (pending_labels lab [] (filter (\<lambda>p. h e lab (fst p)) (map (\<lambda>(v, m, past). (v, m, past @ [e])) ps))) +
     mset (pending_labels lab es (filter (\<lambda>p. \<not> h e lab (fst p)) (map (\<lambda>(v, m, past). (v, m, past @ [e])) ps)))"
  by (induction ps) (auto simp: pending_labels_def h_def)

lemma feed_all_spec:
  assumes "feed_all fb lab es xb = (Inr out, xb')"
  shows "mset (map labelled out) =
         mset (uncensored (pending_labels lab es (xb_pending xb) @ reference_labels fb lab (xb_fb_state xb) (xb_last_mid xb) es))"
  using assms
proof (induction es arbitrary: xb out xb')
  case Nil
  then obtain r where "label_due lab (\<lambda>_. True) (xb_pending xb) = Inr (out, r)"
    by (auto simp: flush_examples_def split: sum.splits)
  from label_due_spec [OF this] show ?case by simp
next
  case (Cons e es)
  let ?mids = "update_mid_cache e (xb_last_mid xb)" and ?due = "horizon_passed (lb_horizon_seconds lab) e"
  from Cons.prems obtain xs ys xb1 where f: "feed fb lab e xb = (Inr xs, xb1)"
    and rest: "feed_all fb lab es xb1 = (Inr ys, xb')" and out: "out = xs @ ys"
    by (auto split: prod.splits sum.splits)
  from f obtain s where s: "fb_update fb (xb_fb_state xb) e = Inr s" by (auto simp: feed_def Let_def split: sum.splits)
  define queued where "queued = xb_pending xb @ queue_vector (fb_vector fb s) ?mids"
  define pending where "pending = map (\<lambda>(v, m, past). (v, m, past @ [e])) queued"
  from f s obtain remaining where d: "label_due lab ?due pending = Inr (xs, remaining)"
    and xb1: "xb_pending xb1 = remaining" "xb_fb_state xb1 = s" "xb_last_mid xb1 = ?mids"
    by (auto simp: feed_def Let_def pending_def queued_def split: sum.splits)
  have u: "mset (uncensored (pending_labels lab (e # es) queued)) =
      mset (map labelled xs) + mset (uncensored (pending_labels lab es remaining))"
    using label_due_spec [OF d] pending_labels_step [of lab e es queued]
    unfolding uncensored_def pending_def by (metis filter_union_mset mset_filter)
  have "reference_labels fb lab (xb_fb_state xb) (xb_last_mid xb) (e # es) =
      pending_labels lab (e # es) (queue_vector (fb_vector fb s) ?mids) @ reference_labels fb lab s ?mids es"
    using s by (simp add: queue_vector_def pending_labels_def Let_def split: option.split)
  with u Cons.IH [OF rest] xb1 out show ?case by (simp add: queued_def)
qed

section \<open>When it returns\<close>

definition all_labels :: "(feature_vector \<times> rat option result) list \<Rightarrow> bool" where
  "all_labels vrs \<longleftrightarrow> list_all (\<lambda>vr. \<not> isl (snd vr)) vrs"

lemma all_labels_append [simp]: "all_labels (xs @ ys) \<longleftrightarrow> all_labels xs \<and> all_labels ys"
  by (simp add: all_labels_def)

lemma all_labels_mset: "mset xs = mset ys \<Longrightarrow> all_labels xs = all_labels ys"
  by (auto simp: all_labels_def list_all_iff dest: mset_eq_setD)

lemma label_due_returns:
  "(\<exists>r. label_due lab due ps = Inr r) \<longleftrightarrow> all_labels (pending_labels lab [] (filter (\<lambda>p. due (fst p)) ps))"
proof (induction ps)
  case (Cons p ps)
  obtain v m future where p: "p = (v, m, future)" by (cases p)
  show ?case
  proof (cases "due v")
    case False
    with Cons p show ?thesis by (auto simp: bind_result_Inr_iff)
  next
    case True
    with Cons p show ?thesis
      by (cases "label_vector lab v m future")
        (auto simp: bind_result_Inr_iff all_labels_def pending_labels_def)
  qed
qed (simp add: all_labels_def pending_labels_def)

lemma feed_all_returns:
  "(\<exists>out. fst (feed_all fb lab es xb) = Inr out) \<longleftrightarrow>
     (\<exists>s. fold_result (\<lambda>e s. fb_update fb s e) es (xb_fb_state xb) = Inr s) \<and>
     all_labels (pending_labels lab es (xb_pending xb) @ reference_labels fb lab (xb_fb_state xb) (xb_last_mid xb) es)"
proof (induction es arbitrary: xb)
  case Nil
  have "(\<exists>out. fst (flush_examples lab xb) = Inr out) \<longleftrightarrow> (\<exists>r. label_due lab (\<lambda>_. True) (xb_pending xb) = Inr r)"
    by (auto simp: flush_examples_def split: sum.splits)
  with label_due_returns [of lab "\<lambda>_. True" "xb_pending xb"] show ?case
    by (simp add: all_labels_def)
next
  case (Cons e es)
  let ?mids = "update_mid_cache e (xb_last_mid xb)" and ?due = "horizon_passed (lb_horizon_seconds lab) e"
  show ?case
  proof (cases "fb_update fb (xb_fb_state xb) e")
    case (Inl err)
    then show ?thesis by (simp add: feed_def Let_def)
  next
    case (Inr s)
    define queued where "queued = xb_pending xb @ queue_vector (fb_vector fb s) ?mids"
    define pending where "pending = map (\<lambda>(v, m, past). (v, m, past @ [e])) queued"
    have ref: "pending_labels lab (e # es) (xb_pending xb) @ reference_labels fb lab (xb_fb_state xb) (xb_last_mid xb) (e # es)
      = pending_labels lab (e # es) queued @ reference_labels fb lab s ?mids es"
      using Inr by (simp add: queued_def queue_vector_def pending_labels_def Let_def split: option.split)
    have split: "all_labels (pending_labels lab (e # es) queued) \<longleftrightarrow>
        all_labels (pending_labels lab [] (filter (\<lambda>p. ?due (fst p)) pending)) \<and>
        all_labels (pending_labels lab es (filter (\<lambda>p. \<not> ?due (fst p)) pending))"
      using all_labels_mset [of "pending_labels lab (e # es) queued"
          "pending_labels lab [] (filter (\<lambda>p. ?due (fst p)) pending) @ pending_labels lab es (filter (\<lambda>p. \<not> ?due (fst p)) pending)"]
        pending_labels_step [of lab e es queued]
      unfolding pending_def by simp
    show ?thesis
    proof (cases "label_due lab ?due pending")
      case (Inl err)
      then have "\<not> all_labels (pending_labels lab (e # es) queued)"
        using label_due_returns [of lab ?due pending] split by simp
      moreover have "\<nexists>out. fst (feed_all fb lab (e # es) xb) = Inr out"
        using Inl Inr by (simp add: feed_def Let_def pending_def queued_def)
      ultimately show ?thesis unfolding ref by simp
    next
      case Due: (Inr r)
      obtain xs remaining where r: "r = (xs, remaining)" by (cases r)
      define xb1 where "xb1 = xb\<lparr>xb_last_mid := ?mids, xb_fb_state := s, xb_pending := remaining\<rparr>"
      have f: "feed fb lab e xb = (Inr xs, xb1)"
        using Inr Due r by (simp add: feed_def Let_def pending_def queued_def xb1_def)
      have rem: "remaining = filter (\<lambda>p. \<not> ?due (fst p)) pending"
        using label_due_spec [of lab ?due pending xs remaining] Due r by simp
      have all: "all_labels (pending_labels lab [] (filter (\<lambda>p. ?due (fst p)) pending))"
        using label_due_returns [of lab ?due pending] Due by blast
      have "(\<exists>out. fst (feed_all fb lab (e # es) xb) = Inr out) \<longleftrightarrow> (\<exists>out. fst (feed_all fb lab es xb1) = Inr out)"
        using f by (auto split: prod.splits sum.splits)
      with Cons.IH [of xb1] show ?thesis
        unfolding ref using Inr split all rem by (simp add: xb1_def)
    qed
  qed
qed

text \<open>
  C11: The dataset is what a reference computes from the whole stream: the build returns exactly when no
  update of the feature builder and no label raises, and then its examples are, up to order, each vector
  the feature builder showed after an event, labelled from the mid known at that event and the events
  from it to the first at or past the horizon, except those the labeler censors; they come out in the
  order of their vectors' times.
\<close>
theorem dataset_matches_reference:
  "let labels = reference_labels fb lab (fb_initial fb) [] es;
       returns = (\<exists>s. fold_result (\<lambda>e s. fb_update fb s e) es (fb_initial fb) = Inr s) \<and> all_labels labels
   in case fst (build_examples fb lab es (new_example_builder fb)) of
        Inl err \<Rightarrow> \<not> returns
      | Inr out \<Rightarrow>
          returns \<and> mset (map labelled out) = mset (uncensored labels) \<and> sorted (map example_instant out)"
proof (cases "feed_all fb lab es (new_example_builder fb)")
  case (Pair r xb')
  from feed_all_returns [of fb lab es "new_example_builder fb"] Pair
  have ret: "(\<exists>out. r = Inr out) \<longleftrightarrow>
      (\<exists>s. fold_result (\<lambda>e s. fb_update fb s e) es (fb_initial fb) = Inr s) \<and>
      all_labels (reference_labels fb lab (fb_initial fb) [] es)"
    by (simp add: new_example_builder_def pending_labels_def)
  show ?thesis
  proof (cases r)
    case (Inl err)
    with ret Pair show ?thesis by (simp add: build_examples_def)
  next
    case (Inr out)
    from feed_all_spec [OF Pair [unfolded Inr]] Inr ret Pair show ?thesis
      by (simp add: build_examples_def new_example_builder_def pending_labels_def)
  qed
qed

section \<open>The next mid\<close>

lemma label_event_time: "label_event_ts e = Some ts \<Longrightarrow> feature_event_time e = Some ts"
  by (cases e) auto

lemma next_mid_of_window:
  assumes "first_mid_after (future_window h v es) (horizon_end (fv_timestamp v) h) (fv_instrument_id v) = Some future"
  shows "\<exists>during e later. es = during @ e # later \<and> list_all (\<lambda>e'. \<not> horizon_passed h e' v) during \<and>
           horizon_passed h e v \<and> two_sided_mid e = Some future \<and>
           (fv_instrument_id v = None \<or> fv_instrument_id v = label_instrument_of e)"
  using assms
proof (induction es)
  case (Cons e es)
  show ?case
  proof (cases "horizon_passed h e v")
    case True
    with Cons.prems show ?thesis
      by (auto split: option.splits if_splits intro!: exI [of _ "[]"])
  next
    case False
    have "label_event_ts e = None \<or> (\<exists>ts. label_event_ts e = Some ts \<and> instant ts < instant (horizon_end (fv_timestamp v) h))"
    proof (cases "label_event_ts e")
      case (Some ts)
      with False label_event_time [OF Some] show ?thesis
        by (simp add: horizon_passed_def horizon_end_def dt_minus_def)
    qed simp
    with Cons.prems False
    have "first_mid_after (future_window h v es) (horizon_end (fv_timestamp v) h) (fv_instrument_id v) = Some future"
      by auto
    from Cons.IH [OF this] obtain during e' later where
      "es = during @ e' # later" "list_all (\<lambda>e'. \<not> horizon_passed h e' v) during" "horizon_passed h e' v"
      "two_sided_mid e' = Some future" "fv_instrument_id v = None \<or> fv_instrument_id v = label_instrument_of e'" by blast
    with False show ?thesis by (intro exI [of _ "e # during"]) fastforce
  qed
qed simp

lemma reference_label_origin:
  assumes "(v, r) \<in> set (reference_labels fb lab s mids es)"
  shows "\<exists>before e rest s'. es = before @ e # rest \<and>
           fold_result (\<lambda>e s. fb_update fb s e) (before @ [e]) s = Inr s' \<and> fb_vector fb s' = Some v \<and>
           r = label_vector lab v (dict_get (fold update_mid_cache (before @ [e]) mids) (fv_instrument_id v))
                 (future_window (lb_horizon_seconds lab) v (e # rest))"
  using assms
proof (induction es arbitrary: s mids)
  case (Cons e es)
  from Cons.prems obtain s' where s': "fb_update fb s e = Inr s'" by (cases "fb_update fb s e") auto
  let ?mids = "update_mid_cache e mids"
  show ?case
  proof (cases "(v, r) \<in> set (reference_labels fb lab s' ?mids es)")
    case True
    from Cons.IH [OF this] obtain before e' rest s2 where
      "es = before @ e' # rest" "fold_result (\<lambda>e s. fb_update fb s e) (before @ [e']) s' = Inr s2" "fb_vector fb s2 = Some v"
      "r = label_vector lab v (dict_get (fold update_mid_cache (before @ [e']) ?mids) (fv_instrument_id v))
             (future_window (lb_horizon_seconds lab) v (e' # rest))" by blast
    with s' show ?thesis by (intro exI [of _ "e # before"]) fastforce
  next
    case False
    with Cons.prems s' have "fb_vector fb s' = Some v"
      "r = label_vector lab v (dict_get ?mids (fv_instrument_id v)) (future_window (lb_horizon_seconds lab) v (e # es))"
      by (auto simp: Let_def split: option.splits)
    with s' show ?thesis by (intro exI [of _ "[]"]) auto
  qed
qed simp

lemma built_example_origin:
  assumes "fst (build_examples fb lab es (new_example_builder fb)) = Inr out" and "x \<in> set out"
  shows "(te_features x, Inr (Some (te_label x))) \<in> set (reference_labels fb lab (fb_initial fb) [] es)"
proof -
  from assms(1) obtain out' xb' where f: "feed_all fb lab es (new_example_builder fb) = (Inr out', xb')"
    and out: "out = sort_key example_instant out'"
    by (auto simp: build_examples_def split: prod.splits sum.splits)
  from mset_eq_setD [OF feed_all_spec [OF f]]
  have "set (map labelled out') = set (uncensored (reference_labels fb lab (fb_initial fb) [] es))"
    by (simp add: new_example_builder_def pending_labels_def)
  moreover have "labelled x \<in> set (map labelled out')" using assms(2) out by simp
  ultimately show ?thesis by (simp add: labelled_def uncensored_def)
qed

text \<open>
  C12: In a dataset labelled with the next mid change, whatever the feature builder, one event decides
  each example: the first event at or past the horizon, counted from the event after which the builder
  showed the vector. It is a quote or book with both sides, of the vector's instrument, and the label is
  the change to its mid from the mid cached at the vector's event. When that first event is anything
  else, a trade, a timer or another instrument's quote, there is no example.
\<close>
theorem next_mid_decided_by_first_event_past_horizon:
  assumes "fst (build_examples fb (NextMidChangeBpsLabeler h) es (new_example_builder fb)) = Inr out" and "x \<in> set out"
  shows "\<exists>before during e later s m future.
           es = before @ during @ e # later \<and>
           list_all (\<lambda>e'. \<not> horizon_passed h e' (te_features x)) during \<and> horizon_passed h e (te_features x) \<and>
           fold_result (\<lambda>e s. fb_update fb s e) (before @ [hd (during @ [e])]) (fb_initial fb) = Inr s \<and>
           fb_vector fb s = Some (te_features x) \<and>
           two_sided_mid e = Some future \<and>
           (fv_instrument_id (te_features x) = None \<or> fv_instrument_id (te_features x) = label_instrument_of e) \<and>
           dict_get (fold update_mid_cache (before @ [hd (during @ [e])]) []) (fv_instrument_id (te_features x)) = Some m \<and>
           0 < m \<and> te_label x = mid_change_bps m future"
proof -
  let ?v = "te_features x"
  from reference_label_origin [OF built_example_origin [OF assms]] obtain before e0 rest s where
    es: "es = before @ e0 # rest" and s: "fold_result (\<lambda>e s. fb_update fb s e) (before @ [e0]) (fb_initial fb) = Inr s"
      "fb_vector fb s = Some ?v"
    and l: "label_vector (NextMidChangeBpsLabeler h) ?v
        (dict_get (fold update_mid_cache (before @ [e0]) []) (fv_instrument_id ?v)) (future_window h ?v (e0 # rest))
        = Inr (Some (te_label x))"
    by (auto simp: NextMidChangeBpsLabeler_def)
  from l obtain m future where m: "dict_get (fold update_mid_cache (before @ [e0]) []) (fv_instrument_id ?v) = Some m" "0 < m"
    and f: "first_mid_after (future_window h ?v (e0 # rest)) (horizon_end (fv_timestamp ?v) h) (fv_instrument_id ?v) = Some future"
    and label: "te_label x = mid_change_bps m future"
    unfolding label_vector_def NextMidChangeBpsLabeler_def labeler.simps next_mid_change_label_def
    by (auto split: option.splits if_splits)
  from next_mid_of_window [OF f] obtain during e later where d: "e0 # rest = during @ e # later"
      "list_all (\<lambda>e'. \<not> horizon_passed h e' ?v) during" "horizon_passed h e ?v" "two_sided_mid e = Some future"
      "fv_instrument_id ?v = None \<or> fv_instrument_id ?v = label_instrument_of e" by blast
  have first: "hd (during @ [e]) = e0" using d(1) by (cases during) auto
  show ?thesis
  proof (intro exI conjI)
    show "es = before @ during @ e # later" using es d(1) by simp
    show "fold_result (\<lambda>e s. fb_update fb s e) (before @ [hd (during @ [e])]) (fb_initial fb) = Inr s"
      unfolding first by (rule s(1))
    show "dict_get (fold update_mid_cache (before @ [hd (during @ [e])]) []) (fv_instrument_id ?v) = Some m"
      unfolding first by (rule m(1))
  qed (use s(2) m(2) d label in simp_all)
qed

text \<open>
  A builder that shows the mid of the last quote: a quote, and another at twice the price a minute later,
  with a horizon of thirty seconds.
\<close>

definition mid_builder :: "feature_vector option feature_builder" where
  "mid_builder =
     \<lparr>fb_initial = None,
      fb_update = (\<lambda>s e. case (two_sided_mid e, feature_event_time e) of
          (Some m, Some ts) \<Rightarrow>
            Inr (Some \<lparr>fv_schema_id = ''s'', fv_schema_version = ''v1'', fv_instrument_id = instrument_of e,
                        fv_timestamp = ts, fv_values = [(''mid'', m)]\<rparr>)
        | _ \<Rightarrow> Inr s),
      fb_vector = (\<lambda>s. s)\<rparr>"

theorem next_mid_decided_by_first_event_past_horizon_witness:
  "\<exists>x m future.
     fst (build_examples mid_builder (NextMidChangeBpsLabeler 30)
            [sample_quote 0 (1 / 4), sample_quote 60000000 (1 / 2)] (new_example_builder mid_builder)) = Inr [x] \<and>
     te_label x = 10000 \<and> 0 < m \<and> te_label x = mid_change_bps m future"
proof -
  let ?build = "fst (build_examples mid_builder (NextMidChangeBpsLabeler 30)
      [sample_quote 0 (1 / 4), sample_quote 60000000 (1 / 2)] (new_example_builder mid_builder))"
  have "(case ?build of Inl _ \<Rightarrow> False | Inr out \<Rightarrow> map te_label out = [10000])" by code_simp
  then obtain x where x: "?build = Inr [x]" "te_label x = 10000" by (auto split: sum.splits)
  from next_mid_decided_by_first_event_past_horizon [OF x(1), of x] x show ?thesis by fastforce
qed

text \<open>
  With an instrument filter, an event of another instrument leaves the state's vector in place, and the
  dataset builder queues it a second time. Here a timer repeats the example of a quote; the third
  example is the settlement's own.
\<close>

definition filtered_builder :: rolling_builder where
  "filtered_builder = sample_builder\<lparr>rb_instrument_filter := Some sample_instrument\<rparr>"

definition sample_settlement :: "int \<Rightarrow> normalized_event" where
  "sample_settlement t =
     SettlementResolvedEvent ''r''
       \<lparr>set_instrument_id = sample_instrument, resolved_side = Some YES, payout_per_contract = 1, set_currency = ''USD'',
        settled_at = utc t, set_source = ''venue'', set_metadata = []\<rparr> default_provenance"

lemma foreign_event_repeats_example:
  "case fst (build_examples (rolling_feature_builder filtered_builder) (SettlementProbabilityLabeler 30)
         [sample_quote 0 (1 / 4), TimerEvent ''w'' \<lparr>tm_timestamp = utc 1000000, tm_label = ''tick''\<rparr> default_provenance,
          sample_settlement 60000000]
         (new_example_builder (rolling_feature_builder filtered_builder))) of
     Inl _ \<Rightarrow> False
   | Inr out \<Rightarrow> map te_label out = [1, 1, 1] \<and> map te_features (take 1 (drop 1 out)) = map te_features (take 1 out)"
  by code_simp

end
