(* ===== verification/Spec2Isabelle.thy ===== *)
theory Spec2Isabelle
  imports Fees SimulatorProps RiskGate Pnl AuditTrail Gateway Allocation Ledger Portfolio BookReplay Lifecycle Backtest MarketData SignalProps
    DetectionProps BookStrategyProps EvaderProps ScalperProps FeatureProps TrainingProps
begin

text \<open>
  A verification library of the \<open>eventcontracts\<close> framework (\<open>src/python/src/eventcontracts\<close>): an
  event-contract trading system in which plug-in strategies turn normalized market events into order
  intents, a runner sends the intents through a risk gate and a reservation to a sink, and a simulator,
  a portfolio and an accountant play the venue on paper. Paths below are relative to that package.

  \<^bold>\<open>How the parts interact.\<close> Raw envelopes from a venue are captured into a store and normalized
  (Envelopes, KalshiNormalizer, BasicNormalizer) into the closed sum of events (Events) over the domain
  records (Domain). Replay orders stored events (Envelopes) and rebuilds books (BookReplay). A strategy
  (NoArb, SignalStrategies, BookStrategies) consumes events and returns decisions. The runner (Runner)
  wraps a decision in an envelope, attaches the triggering snapshot, asks the risk gate (RiskGate, on the
  ledgers of RiskState), reserves cash (Portfolio) and emits the envelope to a sink: the gateway (Gateway)
  or, in a backtest (Backtest), the market simulator (Simulator, with the queue estimators of Queues and
  the fees of Fees). Fills go to the portfolio, to the profit-and-loss tracker (Pnl) and to the settlement
  ledger (Ledger); stamps of what happened form the audit trail (AuditTrail); capital is divided by
  Allocation; markets are found for a subscription by MarketDetection.

  \<^bold>\<open>Conventions.\<close> An exception is a value: \<open>result\<close> is a sum of \<open>py_error\<close> and the value, and a
  function whose effect survives its exception returns the pair of the result and the state (for the
  gateway, the runner, the ledgers, the normalizers and the strategies). A \<open>__post_init__\<close> is a
  \<open>_check\<close>, the list of its tests in order. A dictionary is an association list in insertion order. A
  \<open>Decimal\<close> is a rational, and each operation on decimals rounds to 28 significant digits half-even
  (\<open>dadd\<close>, \<open>dmul\<close>, \<open>ddiv\<close> in Rounding); a float is a rational rounded to 53 bits. What the
  program takes from outside is an argument: clock readings, uuids, sha256 digests, random latencies (as a
  sequence of draws), \<open>datetime.fromisoformat\<close> and \<open>str\<close> of a value that is not a string. A printed
  reason is kept up to the first value printed in it.

  \<^bold>\<open>Theories.\<close>
    \<^item> Prelude, Rounding, Numerals, BoundedDict, Actions, Contracts, Histories: the shared vocabulary:
      exceptions, dictionaries, datetimes; correctly rounded arithmetic and the grids on which it is exact;
      number literals; bounded dictionaries; actions on a mutable world with a Hoare calculus; interfaces.
    \<^item> Validation, Metadata, Domain, Events: \<open>domain/*.py\<close>.
    \<^item> Fees: \<open>adapters/venues/*/fees.py\<close>. Queues: \<open>execution/queue.py\<close> and the intents of
      \<open>execution/simulator.py\<close>.
    \<^item> Simulator: \<open>execution/market_simulator.py\<close>, one record for the simulator and one function per
      method. SimulatorFrame, TakerFills, SimulatorInvariant, SimulatorProps: frame lemmas and the end of
      \<open>flush_inflight\<close>; the taker path against a greedy reference; the invariant of pending orders and
      books over all runs; what whole calls and runs guarantee.
    \<^item> RiskState, RiskGate: \<open>risk/*.py\<close>. Pnl: \<open>execution/pnl.py\<close>. Portfolio: \<open>runner/context.py\<close>.
      Ledger: \<open>ledger/accounting.py\<close>. Allocation: \<open>allocation/capital.py\<close>. AuditTrail: \<open>audit.py\<close>.
    \<^item> Gateway: \<open>gateway/base.py\<close>: the idempotency store, the priority scheduler, the last look and the
      dry-run gateway.
    \<^item> Lifecycle, Runner, RunnerProps: \<open>strategy/lifecycle.py\<close>, \<open>strategy/base.py\<close>, \<open>runner/base.py\<close>:
      the lifecycle as a transition relation, the runner over abstract ports, and what it guarantees for
      every choice of the ports or for ports that keep a contract.
    \<^item> Backtest: \<open>cli/backtest.py\<close>, \<open>execution/report.py\<close>, \<open>execution/latency.py\<close>: the runner wired to the
      simulator, the portfolio, the gate and the report.
    \<^item> Envelopes, BasicNormalizer, KalshiNormalizer, KalshiBooks: \<open>normalization/*.py\<close>, \<open>storage/*.py\<close>,
      \<open>ingestion/pipeline.py\<close>, \<open>replay/engine.py\<close>, \<open>replay/clock.py\<close>. BookReplay: \<open>replay/order_book.py\<close>.
    \<^item> Pricing: \<open>strategy/pricing.py\<close>, \<open>strategy/sizing.py\<close>. StrategyTools: the helpers the plug-ins repeat.
    \<^item> NoArb (with MarketData): the ladder scanner. SignalStrategies, SignalProps: ten strategies on external
      probabilities. BookStrategies with BookStrategyProps, EvaderProps and ScalperProps: six strategies on
      market data, timers and own orders. All are files of \<open>plugins/strategies\<close>.
    \<^item> MarketDetection, DetectionProps: \<open>markets/detection.py\<close>, \<open>ingestion/subscriptions.py\<close>.

  \<^bold>\<open>What the lemmas show.\<close> The properties are claims over whole runs where the code has state. The
  simulator fills no order beyond its quantity, keeps every book valid, takes exactly the greedy amounts and
  settles a fill-or-kill order in full or not at all. An order the gate allows is within each limit; what a
  run sends was cleared by the gate and funded by the reservation; a run accounts for each decision. The
  portfolio's cash is available plus held. The order books of the Kalshi normalizer and of the replay
  implement an abstract depth (refinements), and so do the scalper's open orders and pending cancels (of
  past-time formulas on the feedback). Gateway: an idempotency key is granted once within its window, a
  batch is the highest priorities. The strategies: the locked profit of a ladder, the edge of a signal
  order, the edge of an arbitrage over the counter bid, the reason of a protective cancel. Some properties
  state a behaviour the program probably does not mean: \<open>unquoted_sleeves_never_trade\<close>,
  \<open>unfilled_reservation_never_released\<close>, \<open>bad_price_blocks_market\<close>.

  \<^bold>\<open>Interfaces.\<close> A locale states what a client needs of a provider and is interpreted on the model's
  definitions where the provider is modelled: \<open>grants_once\<close> and \<open>priority_server\<close> (Contracts, on the
  gateway's store and scheduler); \<open>queue_model\<close> and its extension \<open>grid_queue_model\<close> (on the queue
  estimators, for the simulator's invariant); \<open>rounding\<close> (on decimal and binary rounding); \<open>event_sink\<close>,
  \<open>raw_sink\<close>, \<open>normalized_sink\<close> (on the in-memory store, for the pipeline and the capture);
  \<open>guarded_ports\<close> (on arbitrary ports, on a session with the gate and the portfolio, and on the backtest);
  \<open>edge_trader\<close> (on the ten signal plug-ins); \<open>follows_history\<close> (on the catalogue, the arbitrage, the
  queue evader and the scalper).

  \<^bold>\<open>Loops and fuel.\<close> The loop of \<open>flush_inflight\<close> runs on a fuel of one more than the weight of what is
  in flight, and \<open>flush_inflight_terminates\<close> shows that this empties it. The validator's walk has a fuel of
  one more than the number of stamps, each of which it enters once. The ticks of a replay clock are a
  partial function whose result exists exactly for a positive step. Every other loop is structural.

  \<^bold>\<open>Not modelled.\<close>
    \<^item> Input and output: HTTP and websocket clients, files (Parquet, DuckDB, JSONL, TOML), the command line
      other than the backtest, logging and telemetry.
    \<^item> Research, statistics and machine learning: \<open>research\<close>, \<open>models\<close>, \<open>features\<close>, \<open>weather\<close>, \<open>sports\<close> and
      the scripts work in floating point with \<open>numpy\<close>, \<open>exp\<close>, \<open>erf\<close> or trained models, whose results this
      library could only assume.
    \<^item> The strategies that evaluate such a model or a floating-point distribution, and those whose signal is
      not bounded to a finite decimal (\<open>tariff_headline_gap_fader\<close>, \<open>shipping_chokepoint_delay\<close>).
    \<^item> Import machinery (\<open>load_entry_points\<close>), interfaces without a body (\<open>bus\<close>, \<open>oms\<close>, \<open>contracts\<close>).
    \<^item> Inside the modelled parts: infinite live event streams (a source is a finite sequence); the exponent
      of a \<open>Decimal\<close> and its NaN and infinities, except where a literal is read from a payload; comparison of
      naive with aware datetimes; the feature vector in a backtest; the fills a simulator call delivers to
      the portfolio one by one, here delivered when the call returns; partial effects of an exception in the
      simulator and the tracker, whose callers do not go on.
\<close>

end
